(* ===== verification/Prelude.thy ===== *)
theory Prelude
  imports
    Main
    "HOL-Library.Word"
    "HOL-Library.Char_ord"
    "HOL-Library.List_Lexorder"
    "HOL-Library.Product_Lexorder"
begin

section \<open>Shared vocabulary\<close>

text \<open>
  The types, standard-library operations and generic lemmas every component uses: Rust's
  fixed-width integers with their checked and saturating operations, \<open>Result\<close>, the
  strict-ascending test behind \<open>windows(2)\<close> loops, and a locale for safety proofs over
  step relations.

  Conventions. A \<open>u64\<close>, \<open>u32\<close>, \<open>u16\<close> or \<open>u8\<close> is a \<open>word\<close> of that width. A \<open>usize\<close>
  that counts bytes or elements is a \<open>nat\<close>, and every place where the code guards such a
  count with \<open>checked_\<dots>\<close> or \<open>saturating_\<dots>\<close> writes the limit out. A \<open>String\<close> is the list of
  its UTF-8 bytes, so \<open>length\<close> is Rust's \<open>len()\<close> and the order is Rust's byte order.
  An \<open>Instant\<close> or a \<open>Duration\<close> is a number of nanoseconds.
\<close>

subsection \<open>Numbers\<close>

type_synonym u8 = "8 word"
type_synonym u16 = "16 word"
type_synonym u32 = "32 word"
type_synonym u64 = "64 word"
type_synonym usize = nat
type_synonym instant = nat
type_synonym duration = nat

named_theorems checked_simps \<open>equations of the checked and saturating integer operations\<close>

abbreviation u64_max :: u64 where
  "u64_max \<equiv> - 1"

definition usize_max :: usize where
  "usize_max = 2 ^ 64 - 1"

definition checked_add :: "'a::len word \<Rightarrow> 'a word \<Rightarrow> 'a word option" where
  "checked_add a b = (if unat a + unat b < 2 ^ LENGTH('a) then Some (a + b) else None)"

definition saturating_add :: "'a::len word \<Rightarrow> 'a word \<Rightarrow> 'a word" where
  "saturating_add a b = (if unat a + unat b < 2 ^ LENGTH('a) then a + b else - 1)"

definition usize_checked_add :: "usize \<Rightarrow> usize \<Rightarrow> usize option" where
  "usize_checked_add a b = (if a + b \<le> usize_max then Some (a + b) else None)"

definition usize_checked_sub :: "usize \<Rightarrow> usize \<Rightarrow> usize option" where
  "usize_checked_sub a b = (if b \<le> a then Some (a - b) else None)"

text \<open>\<open>saturating_sub\<close> on \<open>usize\<close> is subtraction on \<open>nat\<close>, which stops at zero.\<close>

lemma checked_add_SomeD:
  assumes "checked_add a b = Some c"
  shows "unat c = unat a + unat b" and "c = a + b"
  using assms by (auto simp: checked_add_def unat_word_ariths split: if_splits)

lemma checked_add_Some_le: "checked_add a b = Some c \<Longrightarrow> a \<le> c"
  by (drule checked_add_SomeD(1)) (simp add: word_le_nat_alt)

lemma checked_add_1_less:
  fixes a :: "'a::len word"
  assumes "checked_add a 1 = Some c"
  shows "a < c"
proof -
  have "unat c = unat a + unat (1 :: 'a word)"
    using assms by (rule checked_add_SomeD(1))
  then show ?thesis by (simp add: word_less_nat_alt)
qed

lemma checked_add_eq_None_iff:
  "checked_add (a :: 'a::len word) b = None \<longleftrightarrow> 2 ^ LENGTH('a) \<le> unat a + unat b"
  by (auto simp: checked_add_def)

lemma unat_max_word: "unat (- 1 :: 'a::len word) = 2 ^ LENGTH('a) - 1"
  by (simp add: unat_eq_nat_uint uint_word_ariths zmod_minus1 nat_diff_distrib nat_power_eq)

lemma checked_add_1_None_iff: "checked_add (a :: 'a::len word) 1 = None \<longleftrightarrow> a = - 1"
proof -
  have "unat a < 2 ^ LENGTH('a)" by (rule unsigned_less)
  then have "2 ^ LENGTH('a) \<le> unat a + 1 \<longleftrightarrow> unat a = 2 ^ LENGTH('a) - 1"
    by arith
  moreover have "a = - 1 \<longleftrightarrow> unat a = 2 ^ LENGTH('a) - 1"
    by (simp add: word_unat_eq_iff unat_max_word)
  ultimately show ?thesis
    by (simp add: checked_add_eq_None_iff)
qed

lemma checked_add_1_Some_iff: "checked_add (a :: 'a::len word) 1 = Some c \<longleftrightarrow> a \<noteq> - 1 \<and> c = a + 1"
  using checked_add_1_None_iff [of a] by (auto simp: checked_add_def split: if_splits)

lemma saturating_add_ge: "a \<le> saturating_add a b"
proof (cases "unat a + unat b < 2 ^ LENGTH('a)")
  case True
  then show ?thesis
    by (simp add: saturating_add_def word_le_nat_alt unat_word_ariths)
qed (simp add: saturating_add_def)

lemma word_less_plus_one: "(a :: 'a::len word) \<noteq> - 1 \<Longrightarrow> a < a + 1"
  by (rule checked_add_1_less) (simp add: checked_add_1_Some_iff)

lemma unat_plus_one: "(a :: 'a::len word) \<noteq> - 1 \<Longrightarrow> unat (a + 1) = Suc (unat a)"
  using checked_add_SomeD(1) [of a 1 "a + 1"] by (simp add: checked_add_1_Some_iff)

subsection \<open>Results\<close>

datatype ('a, 'e) result = Ok 'a | Err 'e

fun rbind :: "('a, 'e) result \<Rightarrow> ('a \<Rightarrow> ('b, 'e) result) \<Rightarrow> ('b, 'e) result" where
  "rbind (Ok x) f = f x"
| "rbind (Err e) f = Err e"

fun map_err :: "('e \<Rightarrow> 'f) \<Rightarrow> ('a, 'e) result \<Rightarrow> ('a, 'f) result" where
  "map_err f (Ok x) = Ok x"
| "map_err f (Err e) = Err (f e)"

fun is_ok :: "('a, 'e) result \<Rightarrow> bool" where
  "is_ok (Ok x) = True"
| "is_ok (Err e) = False"

definition ok_or :: "'a option \<Rightarrow> 'e \<Rightarrow> ('a, 'e) result" where
  "ok_or v e = (case v of None \<Rightarrow> Err e | Some x \<Rightarrow> Ok x)"

text \<open>Rust's \<open>anyhow::ensure!\<close> and the SDK's \<open>check\<close>: an error unless the condition holds.\<close>

definition ensure :: "bool \<Rightarrow> 'e \<Rightarrow> (unit, 'e) result" where
  "ensure c e = (if c then Ok () else Err e)"

lemma rbind_Ok_iff [simp]: "rbind r f = Ok y \<longleftrightarrow> (\<exists>x. r = Ok x \<and> f x = Ok y)"
  by (cases r) auto

lemma rbind_Err_iff: "rbind r f = Err e \<longleftrightarrow> r = Err e \<or> (\<exists>x. r = Ok x \<and> f x = Err e)"
  by (cases r) auto

lemma ensure_Ok_iff [simp]: "ensure c e = Ok u \<longleftrightarrow> c"
  by (simp add: ensure_def)

lemma ok_or_Ok_iff [simp]: "ok_or v e = Ok x \<longleftrightarrow> v = Some x"
  by (simp add: ok_or_def split: option.splits)

lemma map_err_Ok_iff [simp]: "map_err f r = Ok x \<longleftrightarrow> r = Ok x"
  by (cases r) auto

lemma is_ok_iff: "is_ok r \<longleftrightarrow> (\<exists>x. r = Ok x)"
  by (cases r) auto

text \<open>A \<open>for\<close> loop whose body may return early with an error.\<close>

fun try_fold :: "('s \<Rightarrow> 'a \<Rightarrow> ('s, 'e) result) \<Rightarrow> 's \<Rightarrow> 'a list \<Rightarrow> ('s, 'e) result" where
  "try_fold f s [] = Ok s"
| "try_fold f s (x # xs) = rbind (f s x) (\<lambda>s'. try_fold f s' xs)"

lemma try_fold_append: "try_fold f s (xs @ ys) = rbind (try_fold f s xs) (\<lambda>s'. try_fold f s' ys)"
proof (induction xs arbitrary: s)
  case (Cons x xs)
  then show ?case by (cases "f s x") auto
qed simp

lemma try_fold_invariant:
  assumes "try_fold f s xs = Ok s'" and "P s"
    and "\<And>s x s'. x \<in> set xs \<Longrightarrow> P s \<Longrightarrow> f s x = Ok s' \<Longrightarrow> P s'"
  shows "P s'"
  using assms by (induction xs arbitrary: s) auto

subsection \<open>Lists\<close>

text \<open>
  The loop \<open>xs.windows(2).any(|pair| key(pair[0]) >= key(pair[1]))\<close>, as the code's
  validators write it; its negation is that the keys ascend strictly.
\<close>

fun windows2_any :: "('a \<Rightarrow> 'a \<Rightarrow> bool) \<Rightarrow> 'a list \<Rightarrow> bool" where
  "windows2_any p (x # y # zs) = (p x y \<or> windows2_any p (y # zs))"
| "windows2_any p _ = False"

lemma windows2_ascending:
  fixes key :: "'a \<Rightarrow> 'k::linorder"
  shows "\<not> windows2_any (\<lambda>a b. key b \<le> key a) xs \<longleftrightarrow> sorted_wrt (<) (map key xs)"
proof (induction xs rule: induct_list012)
  case (3 x y zs)
  then show ?case by (auto simp: not_le dest: less_trans)
qed simp_all

lemma sorted_wrt_less_distinct: "sorted_wrt (<) (xs :: 'k::linorder list) \<Longrightarrow> distinct xs"
  by (induction xs) auto

lemma find_Some_in_set: "List.find P xs = Some x \<Longrightarrow> x \<in> set xs \<and> P x"
  by (auto simp: find_Some_iff)

lemma sum_list_le_member: "x \<in> set xs \<Longrightarrow> (x :: nat) \<le> sum_list xs"
  by (rule member_le_sum_list) simp_all

subsection \<open>Safety over step relations\<close>

inductive reach :: "('s \<Rightarrow> bool) \<Rightarrow> ('s \<Rightarrow> 's \<Rightarrow> bool) \<Rightarrow> 's \<Rightarrow> bool"
  for init :: "'s \<Rightarrow> bool" and step :: "'s \<Rightarrow> 's \<Rightarrow> bool" where
  reach_init: "init s \<Longrightarrow> reach init step s"
| reach_step: "reach init step s \<Longrightarrow> step s t \<Longrightarrow> reach init step t"

text \<open>
  A component that starts well-formed and whose every step keeps it so is well-formed in
  every reachable state; a monotone measure of its state never goes back along a run.
\<close>

locale safe_system =
  fixes init :: "'s \<Rightarrow> bool"
    and step :: "'s \<Rightarrow> 's \<Rightarrow> bool"
    and good :: "'s \<Rightarrow> bool"
  assumes init_good: "init s \<Longrightarrow> good s"
    and step_good: "good s \<Longrightarrow> step s t \<Longrightarrow> good t"
begin

lemma reach_good: "reach init step s \<Longrightarrow> good s"
  by (induction rule: reach.induct) (auto intro: init_good step_good)

lemma steps_good: "step\<^sup>*\<^sup>* s t \<Longrightarrow> good s \<Longrightarrow> good t"
  by (induction rule: rtranclp_induct) (auto intro: step_good)

lemma reach_steps: "reach init step s \<Longrightarrow> step\<^sup>*\<^sup>* s t \<Longrightarrow> reach init step t"
  by (rotate_tac, induction rule: rtranclp_induct) (auto intro: reach.reach_step)

end

end
