(* ===== verification/Ordered_Map.thy ===== *)
theory Ordered_Map
  imports Prelude
begin

section \<open>Ordered maps\<close>

text \<open>
  Rust's \<open>BTreeMap\<close> as the association list of its entries in key order, which is the order
  its iterators visit them in. The locale \<open>ordered_map\<close> is the interface the components use:
  what a lookup returns after each update, and that every update keeps the entries strictly
  ascending. The client lemmas are proved in it once and the interpretation \<open>bt\<close> gives them
  for the executable definitions.
\<close>

type_synonym ('k, 'v) btree = "('k \<times> 'v) list"

definition bt_inv :: "('k::linorder, 'v) btree \<Rightarrow> bool" where
  "bt_inv m \<longleftrightarrow> sorted_wrt (<) (map fst m)"

definition bt_get :: "('k, 'v) btree \<Rightarrow> 'k \<Rightarrow> 'v option" where
  "bt_get m k = map_of m k"

abbreviation (input) bt_contains :: "('k, 'v) btree \<Rightarrow> 'k \<Rightarrow> bool" where
  "bt_contains m k \<equiv> bt_get m k \<noteq> None"

abbreviation (input) bt_keys :: "('k, 'v) btree \<Rightarrow> 'k list" where
  "bt_keys m \<equiv> map fst m"

abbreviation (input) bt_values :: "('k, 'v) btree \<Rightarrow> 'v list" where
  "bt_values m \<equiv> map snd m"

fun bt_insert :: "'k::linorder \<Rightarrow> 'v \<Rightarrow> ('k, 'v) btree \<Rightarrow> ('k, 'v) btree" where
  "bt_insert k v [] = [(k, v)]"
| "bt_insert k v ((k', v') # m) =
     (if k < k' then (k, v) # (k', v') # m
      else if k = k' then (k, v) # m
      else (k', v') # bt_insert k v m)"

definition bt_retain :: "('k \<Rightarrow> 'v \<Rightarrow> bool) \<Rightarrow> ('k, 'v) btree \<Rightarrow> ('k, 'v) btree" where
  "bt_retain P m = filter (\<lambda>(k, v). P k v) m"

definition bt_remove :: "'k \<Rightarrow> ('k, 'v) btree \<Rightarrow> ('k, 'v) btree" where
  "bt_remove k m = bt_retain (\<lambda>k' _. k' \<noteq> k) m"

text \<open>A loop over \<open>iter_mut\<close> that rewrites each value, and a write through \<open>get_mut\<close>.\<close>

definition bt_map :: "('k \<Rightarrow> 'v \<Rightarrow> 'w) \<Rightarrow> ('k, 'v) btree \<Rightarrow> ('k, 'w) btree" where
  "bt_map f m = map (\<lambda>(k, v). (k, f k v)) m"

definition bt_update :: "'k \<Rightarrow> ('v \<Rightarrow> 'v) \<Rightarrow> ('k, 'v) btree \<Rightarrow> ('k, 'v) btree" where
  "bt_update k f m = bt_map (\<lambda>k' v. if k' = k then f v else v) m"

text \<open>Collecting an iterator of pairs: a later pair with the same key replaces an earlier one.\<close>

definition bt_collect :: "('k::linorder \<times> 'v) list \<Rightarrow> ('k, 'v) btree" where
  "bt_collect kvs = fold (\<lambda>(k, v). bt_insert k v) kvs []"

subsection \<open>The interface\<close>

locale ordered_map =
  fixes empty :: "'m"
    and get :: "'m \<Rightarrow> 'k::linorder \<Rightarrow> 'v option"
    and ins :: "'k \<Rightarrow> 'v \<Rightarrow> 'm \<Rightarrow> 'm"
    and del :: "'k \<Rightarrow> 'm \<Rightarrow> 'm"
    and retain :: "('k \<Rightarrow> 'v \<Rightarrow> bool) \<Rightarrow> 'm \<Rightarrow> 'm"
    and entries :: "'m \<Rightarrow> ('k \<times> 'v) list"
    and inv :: "'m \<Rightarrow> bool"
  assumes inv_empty: "inv empty"
    and inv_ins: "inv m \<Longrightarrow> inv (ins k v m)"
    and inv_del: "inv m \<Longrightarrow> inv (del k m)"
    and inv_retain: "inv m \<Longrightarrow> inv (retain P m)"
    and get_empty: "get empty k = None"
    and get_ins: "inv m \<Longrightarrow> get (ins k v m) k' = (if k' = k then Some v else get m k')"
    and get_del: "inv m \<Longrightarrow> get (del k m) k' = (if k' = k then None else get m k')"
    and get_retain: "inv m \<Longrightarrow>
      get (retain P m) k = (case get m k of Some v \<Rightarrow> if P k v then Some v else None | None \<Rightarrow> None)"
    and entries_get: "inv m \<Longrightarrow> (k, v) \<in> set (entries m) \<longleftrightarrow> get m k = Some v"
    and entries_ascending: "inv m \<Longrightarrow> sorted_wrt (<) (map fst (entries m))"
begin

lemma keys_distinct: "inv m \<Longrightarrow> distinct (map fst (entries m))"
  by (rule sorted_wrt_less_distinct) (rule entries_ascending)

lemma ins_same: "inv m \<Longrightarrow> get (ins k v m) k = Some v"
  by (simp add: get_ins)

lemma ins_twice: "inv m \<Longrightarrow> get (ins k w (ins k v m)) k' = get (ins k w m) k'"
  by (simp add: get_ins inv_ins)

lemma ins_commute:
  "inv m \<Longrightarrow> k \<noteq> l \<Longrightarrow> get (ins k v (ins l w m)) k' = get (ins l w (ins k v m)) k'"
  by (simp add: get_ins inv_ins)

lemma del_ins: "inv m \<Longrightarrow> get (del k (ins k v m)) k' = get (del k m) k'"
  by (simp add: get_ins get_del inv_ins)

lemma entries_ins:
  "inv m \<Longrightarrow> set (entries (ins k v m)) = insert (k, v) {(k', v') \<in> set (entries m). k' \<noteq> k}"
  by (auto simp: entries_get inv_ins get_ins split: if_splits)

lemma entries_del: "inv m \<Longrightarrow> set (entries (del k m)) = {(k', v') \<in> set (entries m). k' \<noteq> k}"
  by (auto simp: entries_get inv_del get_del split: if_splits)

lemma entries_retain: "inv m \<Longrightarrow> set (entries (retain P m)) = {(k, v) \<in> set (entries m). P k v}"
  by (auto simp: entries_get inv_retain get_retain split: option.splits if_splits)

lemma entry_unique:
  "inv m \<Longrightarrow> (k, v) \<in> set (entries m) \<Longrightarrow> (k, w) \<in> set (entries m) \<Longrightarrow> v = w"
  by (simp add: entries_get)

lemma fold_ins_inv: "inv m \<Longrightarrow> inv (fold (\<lambda>(k, v). ins k v) kvs m)"
  by (induction kvs arbitrary: m) (auto simp: inv_ins)

lemma fold_ins_get:
  "inv m \<Longrightarrow> get (fold (\<lambda>(k, v). ins k v) kvs m) k =
     (case map_of (rev kvs) k of Some v \<Rightarrow> Some v | None \<Rightarrow> get m k)"
proof (induction kvs arbitrary: m)
  case (Cons kv kvs)
  then show ?case
    by (cases kv) (auto simp: inv_ins get_ins map_add_def split: option.splits)
qed simp

end

subsection \<open>The association list implements it\<close>

lemma bt_inv_Nil [simp]: "bt_inv []"
  by (simp add: bt_inv_def)

lemma bt_inv_Cons [simp]: "bt_inv ((k, v) # m) \<longleftrightarrow> bt_inv m \<and> (\<forall>k' \<in> fst ` set m. k < k')"
  by (auto simp: bt_inv_def)

lemma set_bt_insert: "fst ` set (bt_insert k v m) = insert k (fst ` set m)"
proof (induction m)
  case (Cons kv m)
  then show ?case by (cases kv) (simp add: insert_commute)
qed simp

lemma bt_get_Nil [simp]: "bt_get [] k = None"
  by (simp add: bt_get_def)

lemma bt_get_Cons [simp]: "bt_get ((k', v) # m) k = (if k = k' then Some v else bt_get m k)"
  by (auto simp: bt_get_def)

lemma bt_get_none_iff: "bt_get m k = None \<longleftrightarrow> k \<notin> fst ` set m"
  by (simp add: bt_get_def map_of_eq_None_iff)

lemma bt_get_member: "bt_get m k = Some v \<Longrightarrow> (k, v) \<in> set m"
  by (simp add: bt_get_def map_of_SomeD)

lemma bt_inv_distinct: "bt_inv m \<Longrightarrow> distinct (map fst m)"
  by (simp add: bt_inv_def sorted_wrt_less_distinct)

lemma bt_member_get: "bt_inv m \<Longrightarrow> (k, v) \<in> set m \<longleftrightarrow> bt_get m k = Some v"
  by (simp add: bt_get_def bt_inv_distinct)

lemma bt_get_insert: "bt_get (bt_insert k v m) k' = (if k' = k then Some v else bt_get m k')"
  by (induction m) auto

lemma bt_inv_insert: "bt_inv m \<Longrightarrow> bt_inv (bt_insert k v m)"
proof (induction m)
  case (Cons kv m)
  then show ?case
    by (cases kv) (auto simp: set_bt_insert dest: less_trans)
qed simp

lemma bt_inv_retain: "bt_inv m \<Longrightarrow> bt_inv (bt_retain P m)"
  by (induction m) (auto simp: bt_retain_def)

lemma bt_get_retain:
  "bt_inv m \<Longrightarrow>
     bt_get (bt_retain P m) k = (case bt_get m k of Some v \<Rightarrow> if P k v then Some v else None | None \<Rightarrow> None)"
proof (induction m)
  case (Cons kv m)
  obtain k' v where "kv = (k', v)" by (cases kv)
  with Cons show ?case
    by (auto simp: bt_retain_def bt_get_none_iff split: option.splits)
qed (simp add: bt_retain_def)

lemma bt_get_remove: "bt_get (bt_remove k m) k' = (if k' = k then None else bt_get m k')"
  by (induction m) (auto simp: bt_remove_def bt_retain_def)

lemma bt_keys_map [simp]: "map fst (bt_map f m) = map fst m"
  by (auto simp: bt_map_def)

lemma bt_inv_map [simp]: "bt_inv (bt_map f m) \<longleftrightarrow> bt_inv m"
  by (simp add: bt_inv_def)

lemma bt_get_map [simp]: "bt_get (bt_map f m) k = map_option (f k) (bt_get m k)"
  by (induction m) (auto simp: bt_map_def)

lemma bt_inv_update [simp]: "bt_inv (bt_update k f m) \<longleftrightarrow> bt_inv m"
  by (simp add: bt_update_def)

lemma bt_get_update:
  "bt_get (bt_update k f m) k' = (if k' = k then map_option f (bt_get m k) else bt_get m k')"
  by (auto simp: bt_update_def map_option_case split: option.splits)

lemma bt_keys_update [simp]: "map fst (bt_update k f m) = map fst m"
  by (simp add: bt_update_def)

lemma bt_update_absent: "bt_get m k = None \<Longrightarrow> bt_update k f m = m"
  by (induction m) (auto simp: bt_update_def bt_map_def split: if_splits)

lemma bt_inv_remove: "bt_inv m \<Longrightarrow> bt_inv (bt_remove k m)"
  by (simp add: bt_remove_def bt_inv_retain)

interpretation bt: ordered_map "[]" bt_get bt_insert bt_remove bt_retain "\<lambda>m. m" bt_inv
  by unfold_locales
    (simp_all add: bt_inv_insert bt_inv_retain bt_inv_remove bt_get_insert bt_get_remove
      bt_get_retain bt_member_get flip: bt_inv_def)

lemma bt_inv_collect: "bt_inv (bt_collect kvs)"
  unfolding bt_collect_def by (rule bt.fold_ins_inv) simp

lemma bt_get_collect: "bt_get (bt_collect kvs) k = map_of (rev kvs) k"
  unfolding bt_collect_def by (simp add: bt.fold_ins_get split: option.splits)

lemmas bt_lookup = bt_get_insert bt_get_remove bt_get_update bt_get_retain bt_get_collect
lemmas bt_keeps_inv = bt_inv_insert bt_inv_remove bt_inv_retain bt_inv_collect

end
