(* ===== verification/Wire.thy ===== *)
theory Wire
  imports Ordered_Map
begin

section \<open>Protocol version one\<close>

text \<open>
  The types of \<open>crates/protocol/src/v1\<close>: identities, envelopes, health, the subscription
  stream, the requests and their errors, and the compiled catalogue. Structs are records,
  enums are datatypes; \<open>SessionRef\<close> and \<open>TopicRef\<close>, which the code uses as ordered map keys,
  are one-constructor datatypes with the derived lexicographic order. A name that would
  clash with a HOL constant or another type's constructor carries a suffix.

  \<open>JsonPayload\<close> is its text: equality in the code is equality of text, and its hash and
  patch memos do not change what it denotes (theory \<open>Snapshot_Delta\<close> models them).

  The encoder (the crate \<open>postcard\<close>) is not part of the repository. The record \<open>postcard\<close>
  holds the sizes the code asks it for, \<open>None\<close> when it reports an encoding error; every
  definition that measures a message takes it as an argument.
\<close>

subsection \<open>Identities\<close>

datatype SessionRef = SessionRef (run_id: string) (session_id: string)

datatype TopicRef = TopicRef (provider_id: string) (topic: string) (schema_version: u32)

record TopicSource =
  src_session :: SessionRef
  src_game_id :: string
  src_topic :: TopicRef

record ServiceCursor =
  cur_run_id :: string
  cur_sequence :: u64

instantiation SessionRef :: linorder
begin

definition less_eq_SessionRef :: "SessionRef \<Rightarrow> SessionRef \<Rightarrow> bool" where
  "less_eq_SessionRef a b \<longleftrightarrow> (run_id a, session_id a) \<le> (run_id b, session_id b)"

definition less_SessionRef :: "SessionRef \<Rightarrow> SessionRef \<Rightarrow> bool" where
  "less_SessionRef a b \<longleftrightarrow> (run_id a, session_id a) < (run_id b, session_id b)"

instance
  by intro_classes
    (auto simp: less_eq_SessionRef_def less_SessionRef_def less_le_not_le SessionRef.expand
      simp del: less_eq_prod_simp less_prod_simp)

end

instantiation TopicRef :: linorder
begin

definition less_eq_TopicRef :: "TopicRef \<Rightarrow> TopicRef \<Rightarrow> bool" where
  "less_eq_TopicRef a b \<longleftrightarrow>
     (provider_id a, topic a, schema_version a) \<le> (provider_id b, topic b, schema_version b)"

definition less_TopicRef :: "TopicRef \<Rightarrow> TopicRef \<Rightarrow> bool" where
  "less_TopicRef a b \<longleftrightarrow>
     (provider_id a, topic a, schema_version a) < (provider_id b, topic b, schema_version b)"

instance
  by intro_classes
    (auto simp: less_eq_TopicRef_def less_TopicRef_def less_le_not_le TopicRef.expand
      simp del: less_eq_prod_simp less_prod_simp)

end

subsection \<open>Health\<close>

datatype DependencyFailure =
    Dep_TargetNotReady | Dep_UnsupportedBuild | Dep_ReadFailed | Dep_ValidationFailed | Dep_ProviderFailed

datatype UnavailableReason =
    TargetNotReady
  | UnsupportedBuild
  | ReadFailed string
  | ValidationFailed string
  | ProviderFailed string
  | DependencyUnavailable string DependencyFailure

datatype CapabilityHealth =
    Idle | Initializing | Available | Unavailable UnavailableReason

subsection \<open>Data envelopes\<close>

type_synonym JsonPayload = string

record EnvelopeMetadata =
  md_source :: TopicSource
  md_generation :: u64
  md_sequence :: u64

record DataEnvelope =
  de_metadata :: EnvelopeMetadata
  de_payload :: JsonPayload

record EventEnvelope =
  ee_metadata :: EnvelopeMetadata
  ee_payload :: JsonPayload

record TopicSnapshot =
  ts_source :: TopicSource
  ts_generation :: u64
  ts_health :: CapabilityHealth
  ts_snapshot :: "DataEnvelope option"

subsection \<open>Catalogue and status\<close>

record CapabilityDescriptor =
  cd_topic :: string
  cd_schema_version :: u32
  cd_snapshots :: bool
  cd_events :: bool

record GameDescriptor =
  gd_id :: string
  gd_name :: string

record ProviderDescriptor =
  pd_id :: string
  pd_name :: string
  pd_version :: string
  pd_game :: GameDescriptor
  pd_capabilities :: "CapabilityDescriptor list"

record Catalog =
  providers :: "ProviderDescriptor list"

record TargetProcess =
  tpr_pid :: u32
  tpr_executable :: string

record SessionInfo =
  si_session :: SessionRef
  si_provider_id :: string
  si_game_id :: string
  si_target :: TargetProcess
  si_game_build :: "string option"

datatype DiscoveryHealth = Searching | Retrying_discovery string

record TopicStatus =
  tst_topic :: TopicRef
  tst_generation :: u64
  tst_health :: CapabilityHealth

datatype TargetActivity =
    Attaching_target
  | Retrying_target string
  | Observing_target string "string option" "TopicStatus list"

record TargetStatus =
  tgt_provider_id :: string
  tgt_game_id :: string
  tgt_target :: TargetProcess
  tgt_activity :: TargetActivity

record ServiceStatus =
  ss_cursor :: ServiceCursor
  ss_application_version :: string
  ss_discovery :: DiscoveryHealth
  ss_targets :: "TargetStatus list"

subsection \<open>Subscription stream\<close>

datatype Resource = MessageBytes | QueuedBytes | InitialBytes | RetainedSnapshotBytes | Subscriptions

datatype ResyncReason = Lagged Resource | SequenceExhausted

datatype SubscriptionEnd = SessionEnded_end | ServiceStopped | ResyncRequired ResyncReason

datatype SessionEndReason = TargetExited | ProviderFailed_end

datatype ResetReason = SourceChanged | DemandResumed

datatype SessionSelector = All_sessions | Session_only SessionRef

datatype SubscriptionUpdate =
    SessionStarted SessionInfo
  | SessionChanged SessionInfo
  | SessionEnded SessionRef SessionEndReason
  | TopicReset TopicSource u64 ResetReason
  | TopicChanged TopicSnapshot
  | Event EventEnvelope

record UpdateEnvelope =
  ue_cursor :: ServiceCursor
  ue_update :: SubscriptionUpdate

datatype SnapshotPayload = Full JsonPayload | Delta u64 string JsonPayload

record SnapshotFrame =
  sf_cursor :: "ServiceCursor option"
  sf_metadata :: EnvelopeMetadata
  sf_payload :: SnapshotPayload

record SnapshotAck =
  ack_metadata :: EnvelopeMetadata
  ack_hash :: string

datatype SubscriptionItem =
    Begin ServiceCursor
  | Session SessionInfo
  | Topic TopicSnapshot
  | Snapshot SnapshotFrame
  | Ready ServiceCursor
  | Update UpdateEnvelope
  | Closed SubscriptionEnd

subsection \<open>Requests and errors\<close>

record GetSnapshot =
  gs_session :: SessionRef
  gs_topic :: TopicRef

record Subscribe =
  sel_sessions :: SessionSelector
  sel_topics :: "TopicRef list"

datatype RequestError =
    ServiceRestarted string
  | UnknownSession string
  | UnknownProvider string
  | UnknownTopic string string
  | UnsupportedSchema TopicRef "u32 list"
  | SnapshotsUnsupported TopicRef
  | Idle_error
  | NotSampled
  | Unavailable_error UnavailableReason
  | InvalidRequest string
  | LimitExceeded Resource

subsection \<open>Encoded sizes\<close>

record postcard =
  size_item :: "SubscriptionItem \<Rightarrow> usize option"
  size_subscribe :: "Subscribe \<Rightarrow> usize option"
  size_catalog :: "Catalog \<Rightarrow> usize option"
  size_status :: "ServiceStatus \<Rightarrow> usize option"
  size_info :: "SessionInfo \<Rightarrow> usize option"
  size_event :: "EventEnvelope \<Rightarrow> usize option"
  size_payload :: "SnapshotPayload \<Rightarrow> usize option"

text \<open>
  The smallest encoder that meets the assumptions made of one: every message takes one byte, a
  complete payload two.
\<close>

definition unit_sizes :: postcard where
  "unit_sizes =
     \<lparr>size_item = (\<lambda>_. Some 1), size_subscribe = (\<lambda>_. Some 1), size_catalog = (\<lambda>_. Some 1),
      size_status = (\<lambda>_. Some 1), size_info = (\<lambda>_. Some 1), size_event = (\<lambda>_. Some 1),
      size_payload = (\<lambda>p. case p of Full _ \<Rightarrow> Some 2 | Delta _ _ _ \<Rightarrow> Some 1)\<rparr>"

subsection \<open>Shape of a topic state\<close>

text \<open>
  The contract \<open>TopicSnapshot\<close> documents in \<open>data.rs\<close>: a snapshot is present only while the
  topic is available, and carries the topic's own source and generation.
\<close>

definition topic_coherent :: "TopicSnapshot \<Rightarrow> bool" where
  "topic_coherent t \<longleftrightarrow>
     (case ts_snapshot t of
        None \<Rightarrow> True
      | Some d \<Rightarrow>
          ts_health t = Available
          \<and> md_source (de_metadata d) = ts_source t
          \<and> md_generation (de_metadata d) = ts_generation t)"

lemma topic_coherent_None [simp]: "ts_snapshot t = None \<Longrightarrow> topic_coherent t"
  by (simp add: topic_coherent_def)

end
