(* ===== verification/Provider_Contract.thy ===== *)
theory Provider_Contract
  imports Wire
begin

section \<open>The provider contract\<close>

text \<open>
  \<open>crates/provider-sdk/src/contract\<close>: the compiled manifest of a provider, the health it
  reports to the host and the errors and schedules a poll returns. These are host-side types,
  distinct from the wire types of the same names; their constructors carry the prefix \<open>Sdk\<close>.
\<close>

subsection \<open>Manifest\<close>

datatype SnapshotDelivery = Full_delivery | Delta_delivery

record SdkCapability =
  sc_topic :: string
  sc_schema_version :: u32
  sc_snapshots :: "SnapshotDelivery option"
  sc_events :: bool

record SdkGame =
  sg_id :: string
  sg_name :: string

record ProviderManifest =
  pm_id :: string
  pm_name :: string
  pm_version :: string
  pm_game :: SdkGame
  pm_capabilities :: "SdkCapability list"

subsection \<open>Health\<close>

datatype SdkDependencyFailure =
    SdkDep_TargetNotReady | SdkDep_UnsupportedBuild | SdkDep_ReadFailed
  | SdkDep_ValidationFailed | SdkDep_ProviderFailed

datatype SdkUnavailableReason =
    SdkTargetNotReady
  | SdkUnsupportedBuild
  | SdkReadFailed string
  | SdkValidationFailed string
  | SdkProviderFailed string
  | SdkDependencyUnavailable string SdkDependencyFailure

datatype SdkCapabilityHealth = SdkAvailable | SdkUnavailable SdkUnavailableReason

fun failure :: "SdkUnavailableReason \<Rightarrow> SdkDependencyFailure" where
  "failure SdkTargetNotReady = SdkDep_TargetNotReady"
| "failure SdkUnsupportedBuild = SdkDep_UnsupportedBuild"
| "failure (SdkReadFailed _) = SdkDep_ReadFailed"
| "failure (SdkValidationFailed _) = SdkDep_ValidationFailed"
| "failure (SdkProviderFailed _) = SdkDep_ProviderFailed"
| "failure (SdkDependencyUnavailable _ f) = f"

definition with_dependency :: "SdkUnavailableReason \<Rightarrow> string \<Rightarrow> SdkUnavailableReason" where
  "with_dependency r dependency =
     (case r of
        SdkDependencyUnavailable _ _ \<Rightarrow> r
      | _ \<Rightarrow> SdkDependencyUnavailable dependency (failure r))"

subsection \<open>Errors and schedules\<close>

datatype ProviderError = Memory_error string | InvalidTarget | Failed_provider string

datatype PollResult = After duration | Idle_poll

text \<open>
  Labelling a failure keeps its category, hides its message, and the first label wins: a
  reason that travels through several consumers still names the dependency it came from.
\<close>

lemma failure_with_dependency [simp]: "failure (with_dependency r d) = failure r"
  by (cases r) (simp_all add: with_dependency_def)

lemma with_dependency_first_wins [simp]: "with_dependency (with_dependency r d) d' = with_dependency r d"
  by (cases r) (simp_all add: with_dependency_def)

lemma with_dependency_labels: "\<exists>label f. with_dependency r d = SdkDependencyUnavailable label f"
  by (cases r) (simp_all add: with_dependency_def)

text \<open>
  Two reasons with the same category are indistinguishable once labelled, so no message of the
  reason below the label can leak to a consumer.
\<close>

lemma with_dependency_hides_message:
  assumes "\<And>label f. r \<noteq> SdkDependencyUnavailable label f"
    and "\<And>label f. r' \<noteq> SdkDependencyUnavailable label f"
    and "failure r = failure r'"
  shows "with_dependency r d = with_dependency r' d"
  using assms by (cases r; cases r') (simp_all add: with_dependency_def)

end
