(* ===== verification/Service_Catalog.thy ===== *)
theory Service_Catalog
  imports Provider_Contract
begin

section \<open>The service catalogue\<close>

text \<open>
  \<open>crates/wf-observer-cli/src/service/catalog.rs\<close>: the compiled manifests become the wire
  catalogue, rejecting malformed or duplicate entries; and the helpers every request shares
  (identifier syntax, error values, the message size check).
\<close>

definition valid_identifier :: "string \<Rightarrow> bool" where
  "valid_identifier value \<longleftrightarrow> value \<noteq> [] \<and> length value \<le> 256"

definition limit :: "Resource \<Rightarrow> RequestError" where
  "limit resource = LimitExceeded resource"

definition invalid :: "string \<Rightarrow> RequestError" where
  "invalid message = InvalidRequest message"

definition message_fits :: "usize option \<Rightarrow> u32 \<Rightarrow> (unit, RequestError) result" where
  "message_fits serialized_size message_bytes =
     (case serialized_size of
        None \<Rightarrow> Err (invalid ''response encoding failed'')
      | Some bytes \<Rightarrow>
          (if bytes > unat message_bytes then Err (limit MessageBytes) else Ok ()))"

definition catalog_capability ::
  "CapabilityDescriptor list \<Rightarrow> SdkCapability \<Rightarrow> (CapabilityDescriptor list, string) result" where
  "catalog_capability capabilities cap =
     rbind (ensure (valid_identifier (sc_topic cap) \<and> sc_schema_version cap > 0
              \<and> (sc_snapshots cap \<noteq> None \<or> sc_events cap)) ''invalid capability'') (\<lambda>_.
     rbind (ensure (\<not> (\<exists>c \<in> set capabilities.
               cd_topic c = sc_topic cap \<and> cd_schema_version c = sc_schema_version cap))
              ''duplicate capability'') (\<lambda>_.
     Ok (capabilities @
         [\<lparr>cd_topic = sc_topic cap, cd_schema_version = sc_schema_version cap,
           cd_snapshots = (sc_snapshots cap \<noteq> None), cd_events = sc_events cap\<rparr>])))"

definition catalog_provider ::
  "ProviderDescriptor list \<Rightarrow> ProviderManifest \<Rightarrow> (ProviderDescriptor list, string) result" where
  "catalog_provider ps manifest =
     rbind (ensure (valid_identifier (pm_id manifest) \<and> valid_identifier (sg_id (pm_game manifest)))
              ''invalid provider identity'') (\<lambda>_.
     rbind (ensure (\<not> (\<exists>p \<in> set ps. pd_id p = pm_id manifest)) ''duplicate provider ID'') (\<lambda>_.
     rbind (try_fold catalog_capability [] (pm_capabilities manifest)) (\<lambda>capabilities.
     Ok (ps @
         [\<lparr>pd_id = pm_id manifest, pd_name = pm_name manifest, pd_version = pm_version manifest,
           pd_game = \<lparr>gd_id = sg_id (pm_game manifest), gd_name = sg_name (pm_game manifest)\<rparr>,
           pd_capabilities = capabilities\<rparr>]))))"

definition catalog :: "ProviderManifest list \<Rightarrow> (Catalog, string) result" where
  "catalog manifests =
     rbind (try_fold catalog_provider [] manifests) (\<lambda>ps. Ok \<lparr>providers = ps\<rparr>)"

subsection \<open>Reference description\<close>

text \<open>What the manifests describe, without the checks; the loops compute exactly this.\<close>

definition describe_capability :: "SdkCapability \<Rightarrow> CapabilityDescriptor" where
  "describe_capability cap =
     \<lparr>cd_topic = sc_topic cap, cd_schema_version = sc_schema_version cap,
      cd_snapshots = (sc_snapshots cap \<noteq> None), cd_events = sc_events cap\<rparr>"

definition describe_provider :: "ProviderManifest \<Rightarrow> ProviderDescriptor" where
  "describe_provider m =
     \<lparr>pd_id = pm_id m, pd_name = pm_name m, pd_version = pm_version m,
      pd_game = \<lparr>gd_id = sg_id (pm_game m), gd_name = sg_name (pm_game m)\<rparr>,
      pd_capabilities = map describe_capability (pm_capabilities m)\<rparr>"

definition capability_key :: "SdkCapability \<Rightarrow> string \<times> u32" where
  "capability_key = (\<lambda>cap. (sc_topic cap, sc_schema_version cap))"

definition capability_valid :: "SdkCapability \<Rightarrow> bool" where
  "capability_valid cap \<longleftrightarrow>
     valid_identifier (sc_topic cap) \<and> sc_schema_version cap > 0 \<and> (sc_snapshots cap \<noteq> None \<or> sc_events cap)"

definition manifest_valid :: "ProviderManifest \<Rightarrow> bool" where
  "manifest_valid m \<longleftrightarrow>
     valid_identifier (pm_id m) \<and> valid_identifier (sg_id (pm_game m))
     \<and> list_all capability_valid (pm_capabilities m)
     \<and> distinct (map capability_key (pm_capabilities m))"

lemma describe_capability_key:
  "cd_topic (describe_capability c) = sc_topic c"
  "cd_schema_version (describe_capability c) = sc_schema_version c"
  by (simp_all add: describe_capability_def)

lemma catalog_capabilities_iff:
  "try_fold catalog_capability (map describe_capability done) caps = Ok out \<longleftrightarrow>
     out = map describe_capability (done @ caps) \<and> list_all capability_valid caps
     \<and> distinct (map capability_key caps)
     \<and> capability_key ` set caps \<inter> capability_key ` set done = {}"
proof (induction caps arbitrary: "done")
  case (Cons cap caps)
  have step: "catalog_capability (map describe_capability done) cap = Ok mid \<longleftrightarrow>
      mid = map describe_capability (done @ [cap]) \<and> capability_valid cap
      \<and> capability_key cap \<notin> capability_key ` set done" for mid
    by (auto simp: catalog_capability_def capability_valid_def capability_key_def
        describe_capability_def image_iff)
  show ?case
    using Cons.IH [of "done @ [cap]"] by (auto simp: step)
qed auto

lemma catalog_providers_iff:
  "try_fold catalog_provider (map describe_provider done) ms = Ok out \<longleftrightarrow>
     out = map describe_provider (done @ ms) \<and> list_all manifest_valid ms
     \<and> distinct (map pm_id ms) \<and> pm_id ` set ms \<inter> pm_id ` set done = {}"
proof (induction ms arbitrary: "done")
  case (Cons m ms)
  have step: "catalog_provider (map describe_provider done) m = Ok mid \<longleftrightarrow>
      mid = map describe_provider (done @ [m]) \<and> manifest_valid m \<and> pm_id m \<notin> pm_id ` set done" for mid
    using catalog_capabilities_iff [of "[]" "pm_capabilities m"]
    by (auto simp: catalog_provider_def manifest_valid_def describe_provider_def image_iff)
  show ?case
    using Cons.IH [of "done @ [m]"] by (auto simp: step)
qed auto

text \<open>
  the catalogue accepts exactly the manifests with well-formed, pairwise distinct provider
  and capability identities, and then describes them one for one, in order.
\<close>

lemma catalog_exact:
  "catalog ms = Ok c \<longleftrightarrow>
     list_all manifest_valid ms \<and> distinct (map pm_id ms) \<and> c = \<lparr>providers = map describe_provider ms\<rparr>"
  using catalog_providers_iff [of "[]" ms] by (auto simp: catalog_def)

text \<open>
  What the rest of the service relies on: provider ids are distinct, and within a provider a
  topic and schema version name at most one capability.
\<close>

definition catalog_wf :: "Catalog \<Rightarrow> bool" where
  "catalog_wf c \<longleftrightarrow>
     distinct (map pd_id (providers c))
     \<and> (\<forall>p \<in> set (providers c). valid_identifier (pd_id p)
          \<and> distinct (map (\<lambda>c. (cd_topic c, cd_schema_version c)) (pd_capabilities p))
          \<and> (\<forall>c \<in> set (pd_capabilities p). valid_identifier (cd_topic c) \<and> cd_schema_version c > 0))"

lemma catalog_establishes_wf: "catalog ms = Ok c \<Longrightarrow> catalog_wf c"
  by (auto simp: catalog_exact catalog_wf_def describe_provider_def manifest_valid_def comp_def
      capability_valid_def capability_key_def describe_capability_def list_all_iff)

lemma message_fits_Ok_iff:
  "message_fits bytes mb = Ok u \<longleftrightarrow> (\<exists>n. bytes = Some n \<and> n \<le> unat mb)"
  by (auto simp: message_fits_def split: option.splits)

end
