(* ===== verification/Host_Status.thy ===== *)
theory Host_Status
  imports Ordered_Map
begin

section \<open>Host status records\<close>

text \<open>
  The types of \<open>crates/wf-observer-cli/src/runtime/record.rs\<close> the service and the lifecycle
  worker exchange: discovery health and the independent state of each observed process.
  \<open>RecordedProcess\<close> is a map key, ordered by its fields as the derived \<open>Ord\<close> orders it.
\<close>

datatype RecordedProcess = RecordedProcess (rp_pid: u32) (rp_start_marker: u64)

instantiation RecordedProcess :: linorder
begin

definition less_eq_RecordedProcess :: "RecordedProcess \<Rightarrow> RecordedProcess \<Rightarrow> bool" where
  "less_eq_RecordedProcess a b \<longleftrightarrow> (rp_pid a, rp_start_marker a) \<le> (rp_pid b, rp_start_marker b)"

definition less_RecordedProcess :: "RecordedProcess \<Rightarrow> RecordedProcess \<Rightarrow> bool" where
  "less_RecordedProcess a b \<longleftrightarrow> (rp_pid a, rp_start_marker a) < (rp_pid b, rp_start_marker b)"

instance
  by intro_classes
    (auto simp: less_eq_RecordedProcess_def less_RecordedProcess_def less_le_not_le RecordedProcess.expand
      simp del: less_eq_prod_simp less_prod_simp)

end

datatype Activity = Attaching | Observing string | Retrying string

record TargetInfo =
  ti_process :: RecordedProcess
  ti_executable :: string
  ti_provider_id :: string
  ti_game_id :: string

record HostTarget =
  ht_target :: TargetInfo
  ht_activity :: Activity

record HostStatus =
  hs_discovery_error :: "string option"
  hs_targets :: "HostTarget list"

definition host_status_default :: HostStatus where
  "host_status_default = \<lparr>hs_discovery_error = None, hs_targets = []\<rparr>"

end
