(* ===== verification/Bounded_Queue.thy ===== *)
theory Bounded_Queue
  imports Wire
begin

section \<open>The bounded subscription queue\<close>

text \<open>
  \<open>crates/wf-observer-cli/src/service/queue.rs\<close>: the queue between the service, which offers
  updates under its lock, and one subscription's stream, which pops them. The record \<open>queue\<close>
  is \<open>Queue\<close> with its locked \<open>Contents\<close>; \<open>q_ready\<close> is the permit a \<open>tokio::sync::Notify\<close> keeps
  for a waiter that has not come yet. Each operation is atomic under the queue's lock.
\<close>

record queue =
  q_initial :: "SubscriptionItem list"
  q_updates :: "(SubscriptionItem \<times> usize) list"
  q_bytes :: usize
  q_terminal :: "SubscriptionEnd option"
  q_completed :: bool
  q_ready :: bool
  q_message_bytes :: u32

definition queue_new :: "u32 \<Rightarrow> queue" where
  "queue_new message_bytes =
     \<lparr>q_initial = [], q_updates = [], q_bytes = 0, q_terminal = None, q_completed = False,
      q_ready = False, q_message_bytes = message_bytes\<rparr>"

fun is_begin :: "SubscriptionItem \<Rightarrow> bool" where
  "is_begin (Begin c) = True"
| "is_begin _ = False"

definition queue_discard :: "queue \<Rightarrow> queue" where
  "queue_discard q =
     (let begin = (case q_initial q of
                     [] \<Rightarrow> []
                   | item # _ \<Rightarrow> (if is_begin item then [item] else []))
      in q\<lparr>q_initial := begin, q_updates := [], q_bytes := 0\<rparr>)"

definition queue_ended :: "queue \<Rightarrow> bool" where
  "queue_ended q \<longleftrightarrow> q_terminal q \<noteq> None \<or> q_completed q"

definition queue_item_size :: "postcard \<Rightarrow> SubscriptionItem \<Rightarrow> usize" where
  "queue_item_size pc item = (case size_item pc item of None \<Rightarrow> usize_max | Some n \<Rightarrow> n)"

definition queue_exceeded :: "postcard \<Rightarrow> queue \<Rightarrow> SubscriptionItem \<Rightarrow> Resource option" where
  "queue_exceeded pc q item =
     (let size = queue_item_size pc item; budget = unat (q_message_bytes q)
      in if size > budget then Some MessageBytes
         else if size > budget - q_bytes q then Some QueuedBytes
         else None)"

definition queue_offer :: "postcard \<Rightarrow> SubscriptionItem \<Rightarrow> queue \<Rightarrow> queue \<times> bool" where
  "queue_offer pc item q =
     (if queue_ended q then (q, False)
      else (case queue_exceeded pc q item of
          Some resource \<Rightarrow>
            ((queue_discard q)\<lparr>q_terminal := Some (ResyncRequired (Lagged resource)), q_ready := True\<rparr>,
             False)
        | None \<Rightarrow>
            (let size = queue_item_size pc item
             in (q\<lparr>q_bytes := q_bytes q + size, q_updates := q_updates q @ [(item, size)],
                  q_ready := True\<rparr>,
                 True))))"

definition queue_finish :: "SubscriptionEnd \<Rightarrow> bool \<Rightarrow> queue \<Rightarrow> queue" where
  "queue_finish end discard q =
     (if queue_ended q then q
      else (if discard then queue_discard q else q)\<lparr>q_terminal := Some end, q_ready := True\<rparr>)"

definition queue_set_initial :: "SubscriptionItem list \<Rightarrow> queue \<Rightarrow> queue" where
  "queue_set_initial frames q = q\<lparr>q_initial := frames\<rparr>"

definition queue_pop :: "queue \<Rightarrow> queue \<times> SubscriptionItem option \<times> bool" where
  "queue_pop q =
     (case q_initial q of
        item # rest \<Rightarrow> (q\<lparr>q_initial := rest\<rparr>, Some item, False)
      | [] \<Rightarrow>
        (case q_updates q of
           (item, bytes) # rest \<Rightarrow>
             (q\<lparr>q_updates := rest, q_bytes := q_bytes q - bytes\<rparr>, Some item, False)
         | [] \<Rightarrow>
           (case q_terminal q of
              Some end \<Rightarrow> (q\<lparr>q_terminal := None, q_completed := True\<rparr>, Some (Closed end), False)
            | None \<Rightarrow> (q, None, q_completed q))))"

text \<open>
  \<open>Subscription::next\<close> in \<open>subscriptions.rs\<close>: it registers with the notifier, pops, and either
  returns or waits. One turn of its loop returns the item, reports the end of the stream, or
  blocks; a blocked turn resumes when a permit is there, which it consumes.
\<close>

datatype next_turn = Yield SubscriptionItem | Finished | Retry_turn | Blocked

definition subscription_next_turn :: "queue \<Rightarrow> queue \<times> next_turn" where
  "subscription_next_turn q =
     (case queue_pop q of
        (q', Some item, _) \<Rightarrow> (q', Yield item)
      | (q', None, True) \<Rightarrow> (q', Finished)
      | (q', None, False) \<Rightarrow>
          (if q_ready q' then (q'\<lparr>q_ready := False\<rparr>, Retry_turn) else (q', Blocked)))"

subsection \<open>What the queue still has to deliver\<close>

definition queue_pending :: "queue \<Rightarrow> SubscriptionItem list" where
  "queue_pending q =
     q_initial q @ map fst (q_updates q)
     @ (case q_terminal q of Some end \<Rightarrow> [Closed end] | None \<Rightarrow> [])"

text \<open>
  Byte accounting: \<open>q_bytes\<close> is the sum of the queued sizes and stays within the message
  budget; a completed queue is empty.
\<close>

definition queue_wf :: "queue \<Rightarrow> bool" where
  "queue_wf q \<longleftrightarrow>
     q_bytes q = sum_list (map snd (q_updates q))
     \<and> q_bytes q \<le> unat (q_message_bytes q)
     \<and> (q_completed q \<longrightarrow> queue_pending q = [])"

lemmas queue_defs =
  queue_new_def queue_discard_def queue_ended_def queue_finish_def queue_set_initial_def

lemma queue_discard_sel [simp]:
  "q_terminal (queue_discard q) = q_terminal q"
  "q_completed (queue_discard q) = q_completed q"
  "q_ready (queue_discard q) = q_ready q"
  "q_message_bytes (queue_discard q) = q_message_bytes q"
  "q_updates (queue_discard q) = []"
  "q_bytes (queue_discard q) = 0"
  by (simp_all add: queue_discard_def Let_def)

lemma queue_discard_initial: "q_initial (queue_discard q) = takeWhile is_begin (take 1 (q_initial q))"
  by (simp add: queue_discard_def Let_def split: list.splits)

lemma queue_exceeded_None_iff:
  "queue_exceeded pc q item = None \<longleftrightarrow>
     queue_item_size pc item \<le> unat (q_message_bytes q) \<and>
     queue_item_size pc item \<le> unat (q_message_bytes q) - q_bytes q"
  by (auto simp: queue_exceeded_def Let_def)

lemma queue_wf_new: "queue_wf (queue_new mb)"
  by (simp add: queue_wf_def queue_new_def)

lemma queue_wf_initial: "queue_wf q \<Longrightarrow> \<not> q_completed q \<Longrightarrow> queue_wf (queue_set_initial frames q)"
  by (simp add: queue_wf_def queue_set_initial_def)

lemma queue_wf_finish: "queue_wf q \<Longrightarrow> queue_wf (queue_finish end d q)"
  by (auto simp: queue_wf_def queue_finish_def queue_ended_def)

lemma queue_wf_offer: "queue_wf q \<Longrightarrow> queue_wf (fst (queue_offer pc item q))"
  by (auto simp: queue_wf_def queue_offer_def queue_ended_def Let_def queue_exceeded_None_iff
      split: option.splits)

lemma queue_wf_pop: "queue_wf q \<Longrightarrow> queue_wf (fst (queue_pop q))"
  by (auto simp: queue_wf_def queue_pop_def queue_pending_def split: list.splits option.splits)

lemma queue_message_bytes [simp]:
  "q_message_bytes (fst (queue_offer pc item q)) = q_message_bytes q"
  "q_message_bytes (queue_finish end d q) = q_message_bytes q"
  "q_message_bytes (fst (queue_pop q)) = q_message_bytes q"
  by (auto simp: queue_offer_def queue_finish_def queue_pop_def Let_def
      split: list.splits option.splits)

subsection \<open>The stream contract\<close>

text \<open>
  A run interleaves the producer's offers and finishes with the consumer's pops, in any order,
  and collects what the consumer received.
\<close>

datatype stream_op = Offer_op UpdateEnvelope | Finish_op SubscriptionEnd bool | Pop_op

fun stream_run ::
  "(UpdateEnvelope \<Rightarrow> 'q \<Rightarrow> 'q) \<Rightarrow> (SubscriptionEnd \<Rightarrow> bool \<Rightarrow> 'q \<Rightarrow> 'q) \<Rightarrow>
   ('q \<Rightarrow> 'q \<times> SubscriptionItem option \<times> bool) \<Rightarrow>
   'q \<times> SubscriptionItem list \<Rightarrow> stream_op list \<Rightarrow> 'q \<times> SubscriptionItem list" where
  "stream_run push close pop s [] = s"
| "stream_run push close pop (q, out) (Offer_op u # ops) = stream_run push close pop (push u q, out) ops"
| "stream_run push close pop (q, out) (Finish_op e d # ops) = stream_run push close pop (close e d q, out) ops"
| "stream_run push close pop (q, out) (Pop_op # ops) =
     (case pop q of
        (q', Some item, _) \<Rightarrow> stream_run push close pop (q', out @ [item]) ops
      | (q', None, _) \<Rightarrow> stream_run push close pop (q', out) ops)"

lemma stream_run_invariant:
  assumes "P q"
    and "\<And>u q. P q \<Longrightarrow> P (push u q)" and "\<And>e d q. P q \<Longrightarrow> P (close e d q)"
    and "\<And>q. P q \<Longrightarrow> P (fst (pop q))"
  shows "P (fst (stream_run push close pop (q, out) ops))"
  using assms(1)
proof (induction ops arbitrary: q out)
  case (Cons op ops)
  show ?case
  proof (cases op)
    case Pop_op
    have "P (fst (pop q))" by (rule assms(4)) (rule Cons.prems)
    then show ?thesis
      using Pop_op Cons.IH by (cases "pop q") (auto split: option.splits)
  qed (use Cons assms(2,3) in auto)
qed simp

fun is_closed :: "SubscriptionItem \<Rightarrow> bool" where
  "is_closed (Closed e) = True"
| "is_closed _ = False"

fun op_updates :: "stream_op list \<Rightarrow> SubscriptionItem list" where
  "op_updates [] = []"
| "op_updates (Offer_op u # ops) = Update u # op_updates ops"
| "op_updates (_ # ops) = op_updates ops"

text \<open>
  What both sides rely on, stated over the items still to be delivered: a pop takes the first
  of them; an accepted offer appends; a rejected offer and a discarding finish keep at most the
  opening \<open>Begin\<close>, followed by \<open>Closed\<close>; once ended, nothing is added.
\<close>

locale closing_stream =
  fixes pending :: "'q \<Rightarrow> SubscriptionItem list"
    and ended :: "'q \<Rightarrow> bool"
    and completed :: "'q \<Rightarrow> bool"
    and good :: "'q \<Rightarrow> bool"
    and push :: "UpdateEnvelope \<Rightarrow> 'q \<Rightarrow> 'q"
    and accepts :: "UpdateEnvelope \<Rightarrow> 'q \<Rightarrow> bool"
    and close :: "SubscriptionEnd \<Rightarrow> bool \<Rightarrow> 'q \<Rightarrow> 'q"
    and pop :: "'q \<Rightarrow> 'q \<times> SubscriptionItem option \<times> bool"
  assumes push_accepted: "good q \<Longrightarrow> \<not> ended q \<Longrightarrow> accepts u q \<Longrightarrow>
      pending (push u q) = pending q @ [Update u] \<and> \<not> ended (push u q)"
    and push_rejected: "good q \<Longrightarrow> \<not> ended q \<Longrightarrow> \<not> accepts u q \<Longrightarrow>
      ended (push u q) \<and>
      (\<exists>r. pending (push u q) =
             takeWhile is_begin (take 1 (pending q)) @ [Closed (ResyncRequired (Lagged r))])"
    and push_ended: "ended q \<Longrightarrow> push u q = q"
    and close_kept: "good q \<Longrightarrow> \<not> ended q \<Longrightarrow>
      pending (close e False q) = pending q @ [Closed e] \<and> ended (close e False q)"
    and close_discarded: "good q \<Longrightarrow> \<not> ended q \<Longrightarrow>
      pending (close e True q) = takeWhile is_begin (take 1 (pending q)) @ [Closed e]
      \<and> ended (close e True q)"
    and close_ended: "ended q \<Longrightarrow> close e d q = q"
    and pop_item: "good q \<Longrightarrow> pending q = x # xs \<Longrightarrow>
      \<exists>q'. pop q = (q', Some x, False) \<and> pending q' = xs \<and> ended q' = ended q"
    and pop_empty: "good q \<Longrightarrow> pending q = [] \<Longrightarrow> pop q = (q, None, completed q)"
    and completed_ended: "good q \<Longrightarrow> pending q = [] \<Longrightarrow> completed q = ended q"
    and good_push: "good q \<Longrightarrow> good (push u q)"
    and good_close: "good q \<Longrightarrow> good (close e d q)"
    and good_pop: "good q \<Longrightarrow> good (fst (pop q))"
begin

text \<open>
  The invariant of a run: everything received so far followed by everything pending holds
  exactly one \<open>Closed\<close>, as its last item, if the stream has ended, and none otherwise.
\<close>

definition ordered_out :: "'q \<times> SubscriptionItem list \<Rightarrow> bool" where
  "ordered_out = (\<lambda>(q, out). good q \<and>
     (if ended q
      then (\<exists>pre e. out @ pending q = pre @ [Closed e] \<and> list_all (\<lambda>x. \<not> is_closed x) pre)
      else list_all (\<lambda>x. \<not> is_closed x) (out @ pending q)))"

lemma begin_prefix_open: "list_all (\<lambda>x. \<not> is_closed x) (takeWhile is_begin xs)"
  by (induction xs) (auto elim: is_begin.elims)

lemma ordered_push: "ordered_out (q, out) \<Longrightarrow> ordered_out (push u q, out)"
proof (cases "ended q")
  case False
  assume ok: "ordered_out (q, out)"
  then have good: "good q" and none: "list_all (\<lambda>x. \<not> is_closed x) (out @ pending q)"
    using False by (auto simp: ordered_out_def)
  show ?thesis
  proof (cases "accepts u q")
    case True
    then show ?thesis
      using push_accepted [OF good False] good_push [OF good] none by (simp add: ordered_out_def)
  next
    case rejected: False
    obtain r where "pending (push u q) =
        takeWhile is_begin (take 1 (pending q)) @ [Closed (ResyncRequired (Lagged r))]"
      and "ended (push u q)"
      using push_rejected [OF good False rejected] by blast
    then show ?thesis
      using good_push [OF good] none begin_prefix_open by (auto simp: ordered_out_def)
  qed
qed (simp add: push_ended)

lemma ordered_close: "ordered_out (q, out) \<Longrightarrow> ordered_out (close e d q, out)"
proof (cases "ended q")
  case False
  assume ok: "ordered_out (q, out)"
  then have good: "good q" and none: "list_all (\<lambda>x. \<not> is_closed x) (out @ pending q)"
    using False by (auto simp: ordered_out_def)
  show ?thesis
    using close_kept [OF good False, of e] close_discarded [OF good False, of e]
      good_close [OF good] none begin_prefix_open
    by (cases d) (auto simp: ordered_out_def)
qed (simp add: close_ended)

lemma pop_cases:
  assumes "good q"
  obtains (item) x xs q' where "pending q = x # xs" "pop q = (q', Some x, False)"
      "pending q' = xs" "ended q' = ended q" "good q'"
    | (empty) "pending q = []" "pop q = (q, None, completed q)"
proof (cases "pending q")
  case Nil
  then show ?thesis using assms pop_empty empty by blast
next
  case (Cons x xs)
  then obtain q' where "pop q = (q', Some x, False)" "pending q' = xs" "ended q' = ended q"
    using assms pop_item by blast
  then show ?thesis using assms item Cons good_pop [OF assms] by auto
qed

lemma ordered_run: "ordered_out (q, out) \<Longrightarrow> ordered_out (stream_run push close pop (q, out) ops)"
proof (induction ops arbitrary: q out)
  case (Cons op ops)
  show ?case
  proof (cases op)
    case (Offer_op u)
    then show ?thesis using Cons ordered_push by simp
  next
    case (Finish_op e d)
    then show ?thesis using Cons ordered_close by simp
  next
    case Pop_op
    have "good q" using Cons.prems by (simp add: ordered_out_def)
    then show ?thesis
    proof (cases q rule: pop_cases)
      case (item x xs q')
      then have "ordered_out (q', out @ [x])"
        using Cons.prems by (auto simp: ordered_out_def)
      then show ?thesis using Pop_op item Cons.IH by simp
    next
      case empty
      then show ?thesis using Pop_op Cons by simp
    qed
  qed
qed simp

lemma pop_keeps_end: "good q \<Longrightarrow> ended (fst (pop q)) = ended q"
  by (cases q rule: pop_cases) simp_all

lemma run_keeps_end:
  assumes "good q" and "ended q"
  shows "ended (fst (stream_run push close pop (q, out) ops))"
proof -
  have "good (fst (stream_run push close pop (q, out) ops)) \<and>
      ended (fst (stream_run push close pop (q, out) ops))"
    using assms
    by (intro stream_run_invariant [where P = "\<lambda>q. good q \<and> ended q"])
      (simp_all add: push_ended close_ended good_pop pop_keeps_end)
  then show ?thesis ..
qed

lemma close_ends: "good q \<Longrightarrow> ended (close e d q)"
  by (cases "ended q"; cases d) (auto simp: close_ended close_kept close_discarded)

lemma lossless_run:
  assumes "good q" and "stream_run push close pop (q, out) ops = (q', out')" and "\<not> ended q'"
  shows "out' @ pending q' = out @ pending q @ op_updates ops"
  using assms
proof (induction ops arbitrary: q out)
  case (Cons op ops)
  show ?case
  proof (cases op)
    case (Offer_op u)
    then have run: "stream_run push close pop (push u q, out) ops = (q', out')"
      using Cons.prems by simp
    have open': "\<not> ended (push u q)"
      using run_keeps_end [OF good_push [OF Cons.prems(1)]] run Cons.prems(3) by (metis fst_conv)
    then have "\<not> ended q" by (metis push_ended)
    then have "pending (push u q) = pending q @ [Update u]"
      using push_accepted push_rejected Cons.prems(1) open' by blast
    then show ?thesis
      using Cons.IH [OF good_push [OF Cons.prems(1)] run Cons.prems(3)] Offer_op by simp
  next
    case (Finish_op e d)
    then have run: "stream_run push close pop (close e d q, out) ops = (q', out')"
      using Cons.prems by simp
    then have False
      using run_keeps_end [OF good_close [OF Cons.prems(1)] close_ends [OF Cons.prems(1)]]
        Cons.prems(3) by (metis fst_conv)
    then show ?thesis ..
  next
    case Pop_op
    from Cons.prems(1) show ?thesis
    proof (cases q rule: pop_cases)
      case (item x xs q2)
      then show ?thesis using Pop_op Cons.prems Cons.IH [of q2 "out @ [x]"] by simp
    next
      case empty
      then show ?thesis using Pop_op Cons by simp
    qed
  qed
qed simp

lemma closed_is_final:
  assumes "ordered_out (q, out)" and "x \<in> set out" and "is_closed x"
  shows "pop q = (q, None, True) \<and> last out = x"
proof -
  have good: "good q" using assms(1) by (simp add: ordered_out_def)
  have ended: "ended q" using assms by (auto simp: ordered_out_def list_all_iff split: if_splits)
  then obtain pre e where split: "out @ pending q = pre @ [Closed e]"
    and open_pre: "list_all (\<lambda>x. \<not> is_closed x) pre"
    using assms(1) by (auto simp: ordered_out_def)
  have "pending q = []"
  proof (rule ccontr)
    assume "pending q \<noteq> []"
    then have "pre = out @ butlast (pending q)"
      using split by (metis append_butlast_last_id append_assoc append1_eq_conv)
    then show False using open_pre assms(2,3) by (auto simp: list_all_iff)
  qed
  moreover from this have "last out = x"
    using split open_pre assms(2,3) by (auto simp: list_all_iff)
  ultimately show ?thesis
    using pop_empty [OF good] completed_ended [OF good] ended by simp
qed

end

subsection \<open>The queue implements it\<close>

definition queue_good :: "queue \<Rightarrow> bool" where
  "queue_good q \<longleftrightarrow>
     queue_wf q \<and> list_all (\<lambda>(item, _). \<not> is_begin item) (q_updates q)"

lemma queue_discard_pending:
  assumes "queue_good q" and "q_terminal q = None"
  shows "q_initial (queue_discard q) = takeWhile is_begin (take 1 (queue_pending q))"
  using assms
  by (cases "q_initial q"; cases "q_updates q")
    (auto simp: queue_discard_initial queue_pending_def queue_good_def)

lemma queue_good_offer: "queue_good q \<Longrightarrow> queue_good (fst (queue_offer pc (Update u) q))"
  using queue_wf_offer [of q pc "Update u"]
  by (auto simp: queue_good_def queue_offer_def Let_def split: option.splits)

lemma queue_good_finish: "queue_good q \<Longrightarrow> queue_good (queue_finish e d q)"
  using queue_wf_finish [of q e d] by (auto simp: queue_good_def queue_finish_def)

lemma queue_good_pop: "queue_good q \<Longrightarrow> queue_good (fst (queue_pop q))"
  using queue_wf_pop [of q]
  by (auto simp: queue_good_def queue_pop_def split: list.splits option.splits)

lemma queue_pop_item:
  "queue_pending q = x # xs \<Longrightarrow>
     \<exists>q'. queue_pop q = (q', Some x, False) \<and> queue_pending q' = xs \<and> queue_ended q' = queue_ended q"
  by (auto simp: queue_pending_def queue_pop_def queue_ended_def
      split: list.splits option.splits prod.splits)

lemma queue_pop_empty: "queue_pending q = [] \<Longrightarrow> queue_pop q = (q, None, q_completed q)"
  by (auto simp: queue_pending_def queue_pop_def split: list.splits option.splits)

interpretation qs: closing_stream queue_pending queue_ended q_completed queue_good
  "\<lambda>u q. fst (queue_offer pc (Update u) q)"
  "\<lambda>u q. queue_exceeded pc q (Update u) = None"
  queue_finish queue_pop for pc
proof (unfold_locales, goal_cases)
  case (1 q u)
  then show ?case
    by (auto simp: queue_offer_def queue_pending_def queue_ended_def Let_def)
next
  case (2 q u)
  then show ?case
    using queue_discard_pending [of q]
    by (auto simp: queue_offer_def queue_pending_def queue_ended_def)
next
  case (5 q e)
  then show ?case
    using queue_discard_pending [of q]
    by (auto simp: queue_finish_def queue_pending_def queue_ended_def)
next
  case (9 q)
  then show ?case
    by (auto simp: queue_ended_def queue_pending_def split: option.splits)
next
  case (4 q e)
  then show ?case
    by (auto simp: queue_finish_def queue_pending_def queue_ended_def)
next
  case (3 q u)
  then show ?case by (simp add: queue_offer_def)
next
  case (6 q e d)
  then show ?case by (simp add: queue_finish_def)
qed (simp_all add: queue_good_offer queue_good_finish queue_good_pop queue_pop_empty queue_pop_item)

subsection \<open>Runs of one subscription's queue\<close>

text \<open>
  A subscription's queue starts with the bootstrap frames \<open>subscribe\<close> captured; from then on
  the service offers updates and finishes it while the stream pops.
\<close>

definition queue_run ::
  "postcard \<Rightarrow> u32 \<Rightarrow> SubscriptionItem list \<Rightarrow> stream_op list \<Rightarrow> queue \<times> SubscriptionItem list" where
  "queue_run pc message_bytes frames ops =
     stream_run (\<lambda>u q. fst (queue_offer pc (Update u) q)) queue_finish queue_pop
       (queue_set_initial frames (queue_new message_bytes), []) ops"

lemma queue_start_good: "queue_good (queue_set_initial frames (queue_new mb))"
  by (simp add: queue_good_def queue_wf_def queue_set_initial_def queue_new_def)

lemma queue_start_open: "\<not> queue_ended (queue_set_initial frames (queue_new mb))"
  by (simp add: queue_ended_def queue_set_initial_def queue_new_def)

lemma queue_start_pending: "queue_pending (queue_set_initial frames (queue_new mb)) = frames"
  by (simp add: queue_pending_def queue_set_initial_def queue_new_def)

lemma queue_run_invariant:
  assumes "queue_run pc mb frames ops = (q, out)"
    and "P (queue_set_initial frames (queue_new mb))"
    and "\<And>u q. P q \<Longrightarrow> P (fst (queue_offer pc (Update u) q))"
    and "\<And>e d q. P q \<Longrightarrow> P (queue_finish e d q)" and "\<And>q. P q \<Longrightarrow> P (fst (queue_pop q))"
  shows "P q"
proof -
  have "P (fst (queue_run pc mb frames ops))"
    unfolding queue_run_def
    by (rule stream_run_invariant [where P = P]) (use assms(2-5) in auto)
  then show ?thesis using assms(1) by simp
qed

lemma queue_run_good: "queue_run pc mb frames ops = (q, out) \<Longrightarrow> queue_good q"
  by (erule queue_run_invariant)
    (simp_all add: queue_start_good queue_good_offer queue_good_finish queue_good_pop)

lemma queue_run_message_bytes: "queue_run pc mb frames ops = (q, out) \<Longrightarrow> q_message_bytes q = mb"
  by (erule queue_run_invariant) (simp_all add: queue_set_initial_def queue_new_def)

text \<open>
  The run the examples below use: two updates of one byte each against a budget of one, so
  that the first is delivered, the second is accepted once the first is gone, and a third
  overflows.
\<close>

abbreviation demo_begin :: SubscriptionItem where
  "demo_begin \<equiv> Begin \<lparr>cur_run_id = ''r'', cur_sequence = 4\<rparr>"

abbreviation demo_update :: "u64 \<Rightarrow> UpdateEnvelope" where
  "demo_update n \<equiv>
     \<lparr>ue_cursor = \<lparr>cur_run_id = ''r'', cur_sequence = n\<rparr>,
      ue_update = SessionEnded (SessionRef ''r'' ''s'') TargetExited\<rparr>"

abbreviation demo_ops :: "stream_op list" where
  "demo_ops \<equiv> [Offer_op (demo_update 5), Pop_op, Pop_op, Offer_op (demo_update 6)]"

abbreviation demo_overflow :: "stream_op list" where
  "demo_overflow \<equiv> demo_ops @ [Offer_op (demo_update 7), Pop_op, Pop_op]"

lemmas queue_eval =
  queue_run_def queue_set_initial_def queue_new_def queue_offer_def queue_finish_def queue_pop_def
  queue_ended_def queue_discard_def queue_exceeded_def queue_item_size_def queue_pending_def unit_sizes_def
  subscription_next_turn_def

lemma demo_run:
  "queue_run unit_sizes 1 [demo_begin] demo_ops =
     (\<lparr>q_initial = [], q_updates = [(Update (demo_update 6), 1)], q_bytes = 1, q_terminal = None,
       q_completed = False, q_ready = True, q_message_bytes = 1\<rparr>,
      [demo_begin, Update (demo_update 5)])"
  by (simp add: queue_eval)

lemma demo_overflow_run:
  "queue_run unit_sizes 1 [demo_begin] demo_overflow =
     (\<lparr>q_initial = [], q_updates = [], q_bytes = 0, q_terminal = None,
       q_completed = True, q_ready = True, q_message_bytes = 1\<rparr>,
      [demo_begin, Update (demo_update 5), Closed (ResyncRequired (Lagged QueuedBytes))])"
  by (simp add: queue_eval)

text \<open>
  the queue of a subscription never holds more encoded update bytes than the message
  budget, whatever the interleaving of offers, finishes and pops, and its counter is exactly
  the sum of the sizes of the queued updates, so the subtraction in \<open>pop\<close> cannot underflow.
\<close>

lemma queue_bytes_bounded:
  assumes "queue_run pc mb frames ops = (q, out)"
  shows "q_bytes q = sum_list (map snd (q_updates q)) \<and> q_bytes q \<le> unat mb"
  using queue_run_good [OF assms] queue_run_message_bytes [OF assms]
  by (simp_all add: queue_good_def queue_wf_def)

text \<open>
  C12: until a subscription's queue ends, nothing is lost, duplicated or reordered: what the
  stream has received followed by what is still queued is the bootstrap followed by every
  update the service offered.
\<close>

theorem queue_lossless:
  assumes "queue_run pc mb frames ops = (q, out)" and "\<not> queue_ended q"
  shows "out @ queue_pending q = frames @ op_updates ops"
  using qs.lossless_run [OF queue_start_good assms(1) [unfolded queue_run_def] assms(2)]
  by (simp add: queue_start_pending)

theorem queue_lossless_witness:
  "snd (queue_run unit_sizes 1 [demo_begin] demo_ops)
     @ queue_pending (fst (queue_run unit_sizes 1 [demo_begin] demo_ops)) =
   [demo_begin, Update (demo_update 5), Update (demo_update 6)]"
  using queue_lossless [OF demo_run] by (simp add: demo_run queue_ended_def)

text \<open>
  a \<open>Closed\<close> item is the last one a subscription ever receives: it is received once, at the
  end, and every later pop reports completion.
\<close>

lemma queue_closed_final:
  assumes "queue_run pc mb frames ops = (q, out)" and "list_all (\<lambda>x. \<not> is_closed x) frames"
    and "x \<in> set out" and "is_closed x"
  shows "last out = x \<and> list_all (\<lambda>y. \<not> is_closed y) (butlast out) \<and> queue_pop q = (q, None, True)"
proof -
  have start: "qs.ordered_out (queue_set_initial frames (queue_new mb), [])"
    using assms(2) queue_start_good queue_start_open queue_start_pending
    by (simp add: qs.ordered_out_def)
  have ordered: "qs.ordered_out (q, out)"
    using qs.ordered_run [OF start] assms(1) by (metis queue_run_def)
  have final: "queue_pop q = (q, None, True) \<and> last out = x"
    by (rule qs.closed_is_final [OF ordered assms(3,4)])
  have "\<exists>pre e. out @ queue_pending q = pre @ [Closed e] \<and> list_all (\<lambda>x. \<not> is_closed x) pre"
    using ordered assms(3,4) by (auto simp: qs.ordered_out_def list_all_iff split: if_splits)
  moreover have "queue_pending q = []"
    using final by (cases "queue_pending q") (use queue_pop_item in fastforce)+
  ultimately show ?thesis using final by auto
qed

text \<open>
  C13: an update that does not fit ends the stream: everything queued is dropped except an unsent
  \<open>Begin\<close>, and what remains to be delivered is that \<open>Begin\<close>, if any, and a \<open>Closed\<close> that names the
  exhausted resource.
\<close>

theorem queue_overflow_resyncs:
  assumes "\<not> queue_ended q" and "queue_exceeded pc q item = Some resource"
  shows "queue_pending (fst (queue_offer pc item q)) =
           takeWhile is_begin (take 1 (q_initial q)) @ [Closed (ResyncRequired (Lagged resource))]
         \<and> q_bytes (fst (queue_offer pc item q)) = 0 \<and> \<not> snd (queue_offer pc item q)"
  using assms
  by (simp_all add: queue_offer_def queue_pending_def queue_discard_initial)

theorem queue_overflow_resyncs_witness:
  "queue_pending (fst (queue_offer unit_sizes (Update (demo_update 5)) (queue_set_initial [demo_begin] (queue_new 0))))
     = [demo_begin, Closed (ResyncRequired (Lagged MessageBytes))]"
  using queue_overflow_resyncs [of "queue_set_initial [demo_begin] (queue_new 0)" unit_sizes
      "Update (demo_update 5)" MessageBytes]
  by (simp add: queue_eval)

text \<open>
  C17: no wake-up is lost: when a turn of \<open>next\<close> finds nothing and blocks, the very next offer or
  finish leaves both an item to deliver and a permit for the blocked reader.
\<close>

theorem queue_no_lost_wakeup:
  assumes "subscription_next_turn q = (q', Blocked)" and "\<not> queue_ended q"
    and "q2 = fst (queue_offer pc item q') \<or> q2 = queue_finish e d q'"
  shows "q_ready q2 \<and> queue_pending q2 \<noteq> []"
proof -
  have "q' = q"
    using assms(1) queue_pop_empty [of q] queue_pop_item [of q]
    by (cases "queue_pending q")
       (fastforce simp: subscription_next_turn_def split: option.splits bool.splits if_splits)+
  then show ?thesis
    using assms(2,3)
    by (auto simp: queue_offer_def queue_finish_def queue_pending_def Let_def split: option.splits)
qed

theorem queue_no_lost_wakeup_witness:
  "q_ready (queue_finish ServiceStopped True (queue_new 8))
   \<and> queue_pending (queue_finish ServiceStopped True (queue_new 8)) \<noteq> []"
  using queue_no_lost_wakeup [of "queue_new 8" "queue_new 8"
      "queue_finish ServiceStopped True (queue_new 8)" unit_sizes demo_begin ServiceStopped True]
  by (simp add: queue_eval)

end
