(* ===== verification/Service_Inner.thy ===== *)
theory Service_Inner
  imports Service_Catalog Host_Status Bounded_Queue
begin

section \<open>Locked service state\<close>

text \<open>
  \<open>crates/wf-observer-cli/src/service/inner.rs\<close> with the subscriber selection of
  \<open>subscriptions.rs\<close>: the state behind the service lock and its transitions. Every function
  is one critical section, so it maps a state to the next one.

  A subscriber and the handle a client streams from share one \<open>Arc<Queue>\<close>. The store
  \<open>in_queues\<close> makes the sharing explicit: a queue lives at the address given by its
  subscription id, and outlives the subscriber entry that the service may remove.
  The clock is an argument; \<open>now + POLL_GRACE\<close> is addition of nanoseconds.
\<close>

subsection \<open>State\<close>

record Topic_entry =
  tp_state :: TopicSnapshot
  tp_demanded :: bool
  tp_epoch :: u64
  tp_deadline :: "instant option"

record Session_entry =
  se_info :: SessionInfo
  se_topics :: "(TopicRef, Topic_entry) btree"

record Subscriber =
  sb_selection :: Subscribe
  sb_queue :: u64
  sb_active :: bool

record Inner =
  in_catalog :: Catalog
  in_message_bytes :: u32
  in_run_id :: string
  in_sequence :: u64
  in_runtime :: HostStatus
  in_sessions :: "(string, Session_entry) btree"
  in_subscribers :: "(u64, Subscriber) btree"
  in_next_subscription :: u64
  in_revision :: u64
  in_stopped :: bool
  in_queues :: "(u64, queue) btree"

definition POLL_GRACE :: duration where
  "POLL_GRACE = 5000000000"

subsection \<open>Selection\<close>

fun matches_session :: "Subscriber \<Rightarrow> SessionRef \<Rightarrow> bool" where
  "matches_session s session =
     (case sel_sessions (sb_selection s) of
        All_sessions \<Rightarrow> True
      | Session_only reference \<Rightarrow> reference = session)"

definition matches :: "Subscriber \<Rightarrow> SessionRef \<Rightarrow> TopicRef \<Rightarrow> bool" where
  "matches s session key \<longleftrightarrow>
     matches_session s session \<and> key \<in> set (sel_topics (sb_selection s))"

definition matches_info :: "Subscriber \<Rightarrow> SessionInfo \<Rightarrow> bool" where
  "matches_info s info \<longleftrightarrow>
     matches_session s (si_session info)
     \<and> list_ex (\<lambda>t. provider_id t = si_provider_id info) (sel_topics (sb_selection s))"

fun matches_update :: "Subscriber \<Rightarrow> SubscriptionUpdate \<Rightarrow> bool" where
  "matches_update s (SessionStarted info) = matches_info s info"
| "matches_update s (SessionChanged info) = matches_info s info"
| "matches_update s (SessionEnded session _) = matches_session s session"
| "matches_update s (TopicReset source _ _) = matches s (src_session source) (src_topic source)"
| "matches_update s (TopicChanged t) = matches s (src_session (ts_source t)) (src_topic (ts_source t))"
| "matches_update s (Event e) =
     matches s (src_session (md_source (ee_metadata e))) (src_topic (md_source (ee_metadata e)))"

subsection \<open>Closing, sequencing and emission\<close>

definition inner_cursor :: "Inner \<Rightarrow> ServiceCursor" where
  "inner_cursor s = \<lparr>cur_run_id = in_run_id s, cur_sequence = in_sequence s\<rparr>"

definition close_topic :: "Topic_entry \<Rightarrow> Topic_entry" where
  "close_topic t =
     t\<lparr>tp_demanded := False,
       tp_state := (tp_state t)\<lparr>ts_health := Idle, ts_snapshot := None\<rparr>,
       tp_deadline := None\<rparr>"

definition inner_close :: "SubscriptionEnd \<Rightarrow> Inner \<Rightarrow> Inner" where
  "inner_close end s =
     s\<lparr>in_stopped := True,
       in_subscribers := [],
       in_queues := fold (\<lambda>(_, sb). bt_update (sb_queue sb) (queue_finish end True))
                      (in_subscribers s) (in_queues s),
       in_sessions := bt_map (\<lambda>_ se. se\<lparr>se_topics := bt_map (\<lambda>_. close_topic) (se_topics se)\<rparr>)
                        (in_sessions s),
       in_revision := saturating_add (in_revision s) 1\<rparr>"

abbreviation exhausted_end :: SubscriptionEnd where
  "exhausted_end \<equiv> ResyncRequired SequenceExhausted"

definition ensure_sequences :: "usize \<Rightarrow> Inner \<Rightarrow> Inner \<times> bool" where
  "ensure_sequences count s =
     (if in_stopped s then (s, False)
      else if unat (in_sequence s) + count < 2 ^ 64 then (s, True)
      else (inner_close exhausted_end s, False))"

definition inner_advance :: "Inner \<Rightarrow> Inner \<times> bool" where
  "inner_advance s =
     (if in_stopped s then (s, False)
      else (case checked_add (in_sequence s) 1 of
          Some n \<Rightarrow> (s\<lparr>in_sequence := n\<rparr>, True)
        | None \<Rightarrow> (inner_close exhausted_end s, False)))"

definition update_recipient :: "Inner \<Rightarrow> SubscriptionUpdate \<Rightarrow> Subscriber \<Rightarrow> bool" where
  "update_recipient s update sb \<longleftrightarrow>
     sb_active sb \<and>
     (case (case update of
              SessionEnded session _ \<Rightarrow>
                map_option se_info (bt_get (in_sessions s) (session_id session))
            | _ \<Rightarrow> None) of
        None \<Rightarrow> matches_update sb update
      | Some info \<Rightarrow> matches_info sb info)"

definition inner_emit :: "postcard \<Rightarrow> SubscriptionUpdate \<Rightarrow> Inner \<Rightarrow> Inner" where
  "inner_emit pc update s =
     (case inner_advance s of
        (s', False) \<Rightarrow> s'
      | (s', True) \<Rightarrow>
          (let item = Update \<lparr>ue_cursor = inner_cursor s', ue_update = update\<rparr>
           in s'\<lparr>in_queues :=
                 fold (\<lambda>(_, sb) queues.
                     if update_recipient s' update sb
                     then bt_update (sb_queue sb) (\<lambda>q. fst (queue_offer pc item q)) queues
                     else queues)
                   (in_subscribers s') (in_queues s')\<rparr>))"

subsection \<open>Walking every topic\<close>

text \<open>
  \<open>settle\<close> and \<open>expire\<close> visit every topic of every session in key order, change it in place and
  collect an update for each change. When a counter is exhausted they close the service at
  once: the entries visited so far keep their changes and the collected updates are dropped.
\<close>

datatype topic_visit = Exhausted Topic_entry | Visited Topic_entry "SubscriptionUpdate option"

fun walk_topics ::
  "(TopicRef \<Rightarrow> Topic_entry \<Rightarrow> topic_visit) \<Rightarrow> (TopicRef, Topic_entry) btree \<Rightarrow>
   (TopicRef, Topic_entry) btree \<times> SubscriptionUpdate list \<times> bool" where
  "walk_topics f [] = ([], [], False)"
| "walk_topics f ((k, t) # ts) =
     (case f k t of
        Exhausted t' \<Rightarrow> ((k, t') # ts, [], True)
      | Visited t' change \<Rightarrow>
          (let (ts', changes, exhausted) = walk_topics f ts
           in ((k, t') # ts', (case change of None \<Rightarrow> changes | Some c \<Rightarrow> c # changes), exhausted)))"

fun walk_sessions ::
  "(SessionInfo \<Rightarrow> TopicRef \<Rightarrow> Topic_entry \<Rightarrow> topic_visit) \<Rightarrow> (string, Session_entry) btree \<Rightarrow>
   (string, Session_entry) btree \<times> SubscriptionUpdate list \<times> bool" where
  "walk_sessions f [] = ([], [], False)"
| "walk_sessions f ((sid, se) # rest) =
     (let (topics, changes, exhausted) = walk_topics (f (se_info se)) (se_topics se);
          se' = se\<lparr>se_topics := topics\<rparr>
      in if exhausted then ((sid, se') # rest, [], True)
         else (let (rest', changes', exhausted') = walk_sessions f rest
               in ((sid, se') # rest', changes @ changes', exhausted')))"

definition bump_revision :: "SubscriptionUpdate list \<Rightarrow> Inner \<Rightarrow> Inner" where
  "bump_revision changes s =
     (if changes = [] then s else s\<lparr>in_revision := saturating_add (in_revision s) 1\<rparr>)"

subsection \<open>Settling demand\<close>

definition settle_topic :: "bool \<Rightarrow> instant \<Rightarrow> Topic_entry \<Rightarrow> topic_visit" where
  "settle_topic demanded now t =
     (if demanded = tp_demanded t then Visited t None
      else (let t1 = t\<lparr>tp_demanded := demanded\<rparr>
        in case checked_add (tp_epoch t1) 1 of
             None \<Rightarrow> Exhausted t1
           | Some epoch \<Rightarrow>
             (let t2 = t1\<lparr>tp_epoch := epoch,
                          tp_state := (tp_state t1)\<lparr>ts_snapshot := None\<rparr>,
                          tp_deadline := (if demanded then Some (now + POLL_GRACE) else None)\<rparr>
              in if demanded
                 then (case checked_add (ts_generation (tp_state t2)) 1 of
                         None \<Rightarrow> Exhausted t2
                       | Some generation \<Rightarrow>
                         (let t3 = t2\<lparr>tp_state := (tp_state t2)
                                        \<lparr>ts_generation := generation, ts_health := Initializing\<rparr>\<rparr>
                          in Visited t3
                               (Some (TopicReset (ts_source (tp_state t3)) generation DemandResumed))))
                 else (let t3 = t2\<lparr>tp_state := (tp_state t2)\<lparr>ts_health := Idle\<rparr>\<rparr>
                       in Visited t3 (Some (TopicChanged (tp_state t3)))))))"

definition subscriber_ended :: "Inner \<Rightarrow> Subscriber \<Rightarrow> bool" where
  "subscriber_ended s sb \<longleftrightarrow>
     (case bt_get (in_queues s) (sb_queue sb) of Some q \<Rightarrow> queue_ended q | None \<Rightarrow> False)"

definition retain_live :: "Inner \<Rightarrow> Inner" where
  "retain_live s = s\<lparr>in_subscribers := bt_retain (\<lambda>_ sb. \<not> subscriber_ended s sb) (in_subscribers s)\<rparr>"

definition topic_wanted :: "Inner \<Rightarrow> SessionRef \<Rightarrow> TopicRef \<Rightarrow> bool" where
  "topic_wanted s session key \<longleftrightarrow> list_ex (\<lambda>(_, sb). matches sb session key) (in_subscribers s)"

definition settle_visit :: "Inner \<Rightarrow> instant \<Rightarrow> SessionInfo \<Rightarrow> TopicRef \<Rightarrow> Topic_entry \<Rightarrow> topic_visit" where
  "settle_visit s now info key t = settle_topic (topic_wanted s (si_session info) key) now t"

text \<open>One turn of the loop, and whether the loop goes round again.\<close>

definition settle_turn :: "postcard \<Rightarrow> instant \<Rightarrow> Inner \<Rightarrow> Inner \<times> bool" where
  "settle_turn pc now s =
     (let s1 = retain_live s;
          (sessions, changes, exhausted) = walk_sessions (settle_visit s1 now) (in_sessions s1);
          s2 = s1\<lparr>in_sessions := sessions\<rparr>
      in if exhausted then (inner_close exhausted_end s2, False)
         else (let s3 = fold (inner_emit pc) changes (bump_revision changes s2)
               in (s3, list_ex (\<lambda>(_, sb). subscriber_ended s3 sb) (in_subscribers s3))))"

definition live_subscribers :: "Inner \<Rightarrow> nat" where
  "live_subscribers s = length (filter (\<lambda>(_, sb). \<not> subscriber_ended s sb) (in_subscribers s))"

lemma in_subscribers_close [simp]: "in_subscribers (inner_close e s) = []"
  by (simp add: inner_close_def)

lemma emit_subscribers: "in_subscribers (inner_emit pc u s) = in_subscribers s \<or> in_subscribers (inner_emit pc u s) = []"
  by (auto simp: inner_emit_def inner_advance_def Let_def split: option.splits if_splits)

lemma emits_subscribers:
  "in_subscribers (fold (inner_emit pc) us s) = in_subscribers s \<or> in_subscribers (fold (inner_emit pc) us s) = []"
proof (induction us arbitrary: s)
  case (Cons u us)
  show ?case
    using Cons.IH [of "inner_emit pc u s"] emit_subscribers [of pc u s] by auto
qed simp

lemma settle_turn_progress:
  assumes "settle_turn pc now s = (s', True)"
  shows "live_subscribers s' < live_subscribers s"
proof -
  obtain sessions changes exhausted where
    walk: "walk_sessions (settle_visit (retain_live s) now) (in_sessions (retain_live s)) =
      (sessions, changes, exhausted)"
    by (metis prod_cases3)
  define s2 where "s2 = bump_revision changes (retain_live s\<lparr>in_sessions := sessions\<rparr>)"
  have s': "s' = fold (inner_emit pc) changes s2"
    and again: "list_ex (\<lambda>(_, sb). subscriber_ended s' sb) (in_subscribers s')"
    using assms walk by (auto simp: settle_turn_def s2_def Let_def split: if_splits)
  have subs2: "in_subscribers s2 = filter (\<lambda>(_, sb). \<not> subscriber_ended s sb) (in_subscribers s)"
    by (simp add: s2_def bump_revision_def retain_live_def bt_retain_def)
  have "in_subscribers s' \<noteq> []" using again by auto
  then have "in_subscribers s' = in_subscribers s2"
    using emits_subscribers [of pc changes s2] s' by simp
  then have len: "length (in_subscribers s') = live_subscribers s"
    by (simp add: subs2 live_subscribers_def)
  have "live_subscribers s' < length (in_subscribers s')"
    using again unfolding live_subscribers_def
    by (auto simp: list_ex_iff intro!: length_filter_less)
  then show ?thesis by (simp add: len)
qed

function inner_settle :: "postcard \<Rightarrow> instant \<Rightarrow> Inner \<Rightarrow> Inner" where
  "inner_settle pc now s =
     (case settle_turn pc now s of
        (s', True) \<Rightarrow> inner_settle pc now s'
      | (s', False) \<Rightarrow> s')"
  by pat_completeness auto
termination
  by (relation "measure (\<lambda>(pc, now, s). live_subscribers s)") (auto dest: settle_turn_progress [OF sym])

declare inner_settle.simps [simp del]

subsection \<open>Lookups with request errors\<close>

definition inner_capability :: "Inner \<Rightarrow> TopicRef \<Rightarrow> (CapabilityDescriptor, RequestError) result" where
  "inner_capability s key =
     (if \<not> valid_identifier (provider_id key) \<or> \<not> valid_identifier (topic key) \<or> schema_version key = 0
      then Err (invalid ''invalid topic selector'')
      else (case find (\<lambda>p. pd_id p = provider_id key) (providers (in_catalog s)) of
          None \<Rightarrow> Err (UnknownProvider (provider_id key))
        | Some provider \<Rightarrow>
          (let supported = filter (\<lambda>c. cd_topic c = topic key) (pd_capabilities provider)
           in if supported = [] then Err (UnknownTopic (provider_id key) (topic key))
              else ok_or (find (\<lambda>c. cd_schema_version c = schema_version key) supported)
                     (UnsupportedSchema key (map cd_schema_version supported)))))"

definition inner_session :: "Inner \<Rightarrow> SessionRef \<Rightarrow> (Session_entry, RequestError) result" where
  "inner_session s key =
     (if \<not> valid_identifier (run_id key) \<or> \<not> valid_identifier (session_id key)
      then Err (invalid ''invalid session identity'')
      else if run_id key \<noteq> in_run_id s then Err (ServiceRestarted (in_run_id s))
      else ok_or (bt_get (in_sessions s) (session_id key)) (UnknownSession (session_id key)))"

subsection \<open>Expiring deadlines\<close>

definition expired_health :: CapabilityHealth where
  "expired_health = Unavailable (ProviderFailed ''sampling deadline exceeded'')"

definition expire_topic :: "instant \<Rightarrow> Topic_entry \<Rightarrow> topic_visit" where
  "expire_topic now t =
     (case tp_deadline t of
        None \<Rightarrow> Visited t None
      | Some deadline \<Rightarrow>
        (if now < deadline then Visited t None
         else (let t1 = t\<lparr>tp_deadline := None\<rparr>
               in case checked_add (tp_epoch t1) 1 of
                    None \<Rightarrow> Exhausted t1
                  | Some epoch \<Rightarrow>
                    (let t2 = t1\<lparr>tp_epoch := epoch,
                                 tp_state := (tp_state t1)
                                   \<lparr>ts_snapshot := None, ts_health := expired_health\<rparr>\<rparr>
                     in Visited t2 (Some (TopicChanged (tp_state t2)))))))"

definition inner_expire :: "postcard \<Rightarrow> instant \<Rightarrow> Inner \<Rightarrow> Inner" where
  "inner_expire pc now s =
     (let (sessions, changes, exhausted) = walk_sessions (\<lambda>_ _. expire_topic now) (in_sessions s);
          s1 = s\<lparr>in_sessions := sessions\<rparr>
      in if exhausted then inner_close exhausted_end s1
         else inner_settle pc now (fold (inner_emit pc) changes (bump_revision changes s1)))"

subsection \<open>Following the host status\<close>

definition initial_topic :: "SessionInfo \<Rightarrow> TopicRef \<Rightarrow> Topic_entry" where
  "initial_topic info key =
     \<lparr>tp_state = \<lparr>ts_source = \<lparr>src_session = si_session info, src_game_id = si_game_id info, src_topic = key\<rparr>,
                  ts_generation = 1, ts_health = Idle, ts_snapshot = None\<rparr>,
      tp_demanded = False, tp_epoch = 0, tp_deadline = None\<rparr>"

definition provider_topics :: "ProviderDescriptor \<Rightarrow> TopicRef list" where
  "provider_topics p =
     map (\<lambda>cap. TopicRef (pd_id p) (cd_topic cap) (cd_schema_version cap)) (pd_capabilities p)"

definition add_session :: "postcard \<Rightarrow> SessionInfo \<Rightarrow> Inner \<Rightarrow> Inner \<times> (unit, RequestError) result" where
  "add_session pc info s =
     (case find (\<lambda>p. pd_id p = si_provider_id info) (providers (in_catalog s)) of
        None \<Rightarrow> (s, Err (invalid ''unregistered session provider''))
      | Some provider \<Rightarrow>
        (case ensure_sequences (1 + length (pd_capabilities provider)) s of
           (s', False) \<Rightarrow> (s', Ok ())
         | (s', True) \<Rightarrow>
           (let topics = bt_collect (map (\<lambda>key. (key, initial_topic info key)) (provider_topics provider));
                s1 = s'\<lparr>in_sessions :=
                        bt_insert (session_id (si_session info)) \<lparr>se_info = info, se_topics = topics\<rparr>
                          (in_sessions s')\<rparr>;
                s2 = inner_emit pc (SessionStarted info) s1
            in (fold (inner_emit pc) (map (\<lambda>(_, t). TopicChanged (tp_state t)) topics) s2, Ok ()))))"

fun observed_session :: "HostTarget \<Rightarrow> string option" where
  "observed_session t = (case ht_activity t of Observing sid \<Rightarrow> Some sid | _ \<Rightarrow> None)"

definition incoming_info :: "Inner \<Rightarrow> HostTarget \<Rightarrow> string \<Rightarrow> SessionInfo" where
  "incoming_info s t sid =
     \<lparr>si_session = SessionRef (in_run_id s) sid,
      si_provider_id = ti_provider_id (ht_target t),
      si_game_id = ti_game_id (ht_target t),
      si_target = \<lparr>tpr_pid = rp_pid (ti_process (ht_target t)),
                   tpr_executable = ti_executable (ht_target t)\<rparr>,
      si_game_build = (case bt_get (in_sessions s) sid of
                         None \<Rightarrow> None | Some se \<Rightarrow> si_game_build (se_info se))\<rparr>"

definition incoming_sessions :: "Inner \<Rightarrow> HostStatus \<Rightarrow> (string, SessionInfo) btree" where
  "incoming_sessions s status =
     bt_collect (List.map_filter
       (\<lambda>t. map_option (\<lambda>sid. (sid, incoming_info s t sid)) (observed_session t)) (hs_targets status))"

fun is_retrying :: "Activity \<Rightarrow> bool" where
  "is_retrying (Retrying _) = True"
| "is_retrying _ = False"

definition end_reason :: "Inner \<Rightarrow> HostStatus \<Rightarrow> string \<Rightarrow> SessionEndReason" where
  "end_reason s status sid =
     (if list_ex (\<lambda>old. observed_session old = Some sid \<and>
            list_ex (\<lambda>new. ht_target new = ht_target old \<and> is_retrying (ht_activity new)) (hs_targets status))
          (hs_targets (in_runtime s))
      then ProviderFailed_end else TargetExited)"

definition finish_session_subscribers :: "SessionRef \<Rightarrow> Inner \<Rightarrow> Inner" where
  "finish_session_subscribers reference s =
     (let own = (\<lambda>sb. sel_sessions (sb_selection sb) = Session_only reference)
      in s\<lparr>in_subscribers := bt_retain (\<lambda>_ sb. \<not> own sb) (in_subscribers s),
           in_queues := fold (\<lambda>(_, sb) queues.
               if own sb then bt_update (sb_queue sb) (queue_finish SessionEnded_end False) queues
               else queues) (in_subscribers s) (in_queues s)\<rparr>)"

definition end_session :: "postcard \<Rightarrow> HostStatus \<Rightarrow> string \<Rightarrow> Inner \<Rightarrow> Inner" where
  "end_session pc status sid s =
     (case bt_get (in_sessions s) sid of
        None \<Rightarrow> s
      | Some se \<Rightarrow>
        (let reference = si_session (se_info se);
             s1 = inner_emit pc (SessionEnded reference (end_reason s status sid)) s;
             s2 = s1\<lparr>in_sessions := bt_remove sid (in_sessions s1)\<rparr>
         in finish_session_subscribers reference s2))"

fun add_sessions ::
  "postcard \<Rightarrow> (string \<times> SessionInfo) list \<Rightarrow> Inner \<Rightarrow> Inner \<times> (unit, RequestError) result" where
  "add_sessions pc [] s = (s, Ok ())"
| "add_sessions pc ((sid, info) # rest) s =
     (if bt_contains (in_sessions s) sid then add_sessions pc rest s
      else (case add_session pc info s of
          (s', Err e) \<Rightarrow> (s', Err e)
        | (s', Ok _) \<Rightarrow> add_sessions pc rest s'))"

definition sync_runtime ::
  "postcard \<Rightarrow> instant \<Rightarrow> HostStatus \<Rightarrow> Inner \<Rightarrow> Inner \<times> (unit, RequestError) result" where
  "sync_runtime pc now status s =
     (if in_stopped s \<or> in_runtime s = status then (s, Ok ())
      else (let incoming = incoming_sessions s status;
                ended = filter (\<lambda>sid. \<not> bt_contains incoming sid) (bt_keys (in_sessions s));
                s1 = fold (end_session pc status) ended s
            in case add_sessions pc incoming s1 of
                 (s2, Err e) \<Rightarrow> (s2, Err e)
               | (s2, Ok _) \<Rightarrow>
                   (inner_settle pc now (fst (inner_advance (s2\<lparr>in_runtime := status\<rparr>))), Ok ())))"

end
