(* ===== verification/Inner_Invariant.thy ===== *)
theory Inner_Invariant
  imports Service_Inner
begin

section \<open>Invariants of the locked state\<close>

text \<open>
  The well-formedness the locked state keeps: map orders, the sharing of queues, the identity of
  sessions and topics, the coherence of topic states (a snapshot only while available, with the
  topic's own source and generation and a sequence already issued), and that demand and health
  agree. Every transition of \<open>Service_Inner\<close> keeps it. The second half gives the behaviour of
  \<open>settle\<close>, \<open>expire\<close>, \<open>close\<close> and \<open>sync_runtime\<close>.
\<close>

subsection \<open>Walks\<close>

fun visit_entry :: "topic_visit \<Rightarrow> Topic_entry" where
  "visit_entry (Exhausted t) = t"
| "visit_entry (Visited t _) = t"

fun visit_change :: "topic_visit \<Rightarrow> SubscriptionUpdate option" where
  "visit_change (Exhausted t) = None"
| "visit_change (Visited _ c) = c"

fun is_exhausted :: "topic_visit \<Rightarrow> bool" where
  "is_exhausted (Exhausted _) = True"
| "is_exhausted (Visited _ _) = False"

lemma walk_topics_keys: "map fst (fst (walk_topics f ts)) = map fst ts"
  by (induction ts) (auto split: topic_visit.splits prod.splits)

lemma walk_topics_complete:
  "walk_topics f ts = (ts', changes, False) \<Longrightarrow>
     ts' = bt_map (\<lambda>k t. visit_entry (f k t)) ts
     \<and> changes = List.map_filter (\<lambda>(k, t). visit_change (f k t)) ts
     \<and> (\<forall>(k, t) \<in> set ts. \<not> is_exhausted (f k t))"
proof (induction ts arbitrary: ts' changes)
  case (Cons kt ts)
  obtain k t where kt: "kt = (k, t)" by (cases kt)
  show ?case
  proof (cases "f k t")
    case (Visited t' c)
    with Cons.prems kt obtain ts2 ch2 where rec: "walk_topics f ts = (ts2, ch2, False)"
      and "ts' = (k, t') # ts2" and "changes = (case c of None \<Rightarrow> ch2 | Some c \<Rightarrow> c # ch2)"
      by (auto split: prod.splits)
    then show ?thesis
      using Cons.IH [OF rec] kt Visited
      by (auto simp: bt_map_def List.map_filter_simps split: option.splits)
  qed (use Cons.prems kt in auto)
qed (simp add: bt_map_def List.map_filter_simps)

lemma walk_topics_member:
  assumes "walk_topics f ts = (ts', changes, exhausted)" and "(k, t') \<in> set ts'"
  shows "\<exists>t. (k, t) \<in> set ts \<and> (t' = t \<or> t' = visit_entry (f k t))"
  using assms
proof (induction ts arbitrary: ts' changes exhausted)
  case (Cons kt ts)
  then show ?case
    by (cases kt) (fastforce split: topic_visit.splits prod.splits)
qed simp

definition visit_session :: "(SessionInfo \<Rightarrow> TopicRef \<Rightarrow> Topic_entry \<Rightarrow> topic_visit) \<Rightarrow> Session_entry \<Rightarrow> Session_entry" where
  "visit_session f se = se\<lparr>se_topics := bt_map (\<lambda>k t. visit_entry (f (se_info se) k t)) (se_topics se)\<rparr>"

definition session_changes ::
  "(SessionInfo \<Rightarrow> TopicRef \<Rightarrow> Topic_entry \<Rightarrow> topic_visit) \<Rightarrow> Session_entry \<Rightarrow> SubscriptionUpdate list" where
  "session_changes f se = List.map_filter (\<lambda>(k, t). visit_change (f (se_info se) k t)) (se_topics se)"

lemma walk_sessions_keys: "map fst (fst (walk_sessions f ss)) = map fst ss"
  by (induction ss) (auto simp: Let_def split: prod.splits)

lemma walk_sessions_complete:
  "walk_sessions f ss = (ss', changes, False) \<Longrightarrow>
     ss' = bt_map (\<lambda>_. visit_session f) ss
     \<and> changes = concat (map (\<lambda>(_, se). session_changes f se) ss)
     \<and> (\<forall>(_, se) \<in> set ss. \<forall>(k, t) \<in> set (se_topics se). \<not> is_exhausted (f (se_info se) k t))"
proof (induction ss arbitrary: ss' changes)
  case (Cons x ss)
  obtain sid se where x: "x = (sid, se)" by (cases x)
  obtain ts ch ex where topics: "walk_topics (f (se_info se)) (se_topics se) = (ts, ch, ex)"
    by (metis prod_cases3)
  with Cons.prems x have ex: "ex = False" by (auto simp: Let_def split: if_splits prod.splits)
  with Cons.prems x topics obtain ss2 ch2 where rec: "walk_sessions f ss = (ss2, ch2, False)"
    and "ss' = (sid, se\<lparr>se_topics := ts\<rparr>) # ss2" and "changes = ch @ ch2"
    by (auto simp: Let_def split: prod.splits)
  then show ?case
    using Cons.IH [OF rec] walk_topics_complete [of "f (se_info se)" "se_topics se" ts ch] topics ex x
    by (simp add: bt_map_def visit_session_def session_changes_def)
qed (simp add: bt_map_def)

lemma walk_sessions_member:
  assumes "walk_sessions f ss = (ss', changes, exhausted)" and "(sid, se') \<in> set ss'"
  shows "\<exists>se. (sid, se) \<in> set ss \<and> se_info se' = se_info se
           \<and> map fst (se_topics se') = map fst (se_topics se)
           \<and> (\<forall>(k, t') \<in> set (se_topics se').
                 \<exists>t. (k, t) \<in> set (se_topics se) \<and> (t' = t \<or> t' = visit_entry (f (se_info se) k t)))"
  using assms
proof (induction ss arbitrary: ss' changes exhausted)
  case (Cons x ss)
  obtain sid0 se0 where x: "x = (sid0, se0)" by (cases x)
  obtain ts ch ex where topics: "walk_topics (f (se_info se0)) (se_topics se0) = (ts, ch, ex)"
    by (metis prod_cases3)
  have head: "\<exists>se. (sid0, se) \<in> set (x # ss) \<and> se_info (se0\<lparr>se_topics := ts\<rparr>) = se_info se
      \<and> map fst (se_topics (se0\<lparr>se_topics := ts\<rparr>)) = map fst (se_topics se)
      \<and> (\<forall>(k, t') \<in> set (se_topics (se0\<lparr>se_topics := ts\<rparr>)).
           \<exists>t. (k, t) \<in> set (se_topics se) \<and> (t' = t \<or> t' = visit_entry (f (se_info se) k t)))"
    using walk_topics_member [OF topics] walk_topics_keys [of "f (se_info se0)" "se_topics se0"] topics x
    by (intro exI [of _ se0]) auto
  obtain ss2 ch2 ex2 where rec: "walk_sessions f ss = (ss2, ch2, ex2)"
    by (metis prod_cases3)
  have "(sid, se') = (sid0, se0\<lparr>se_topics := ts\<rparr>) \<or> (sid, se') \<in> set ss \<or> (sid, se') \<in> set ss2"
    using Cons.prems x topics rec by (auto simp: Let_def split: if_splits)
  then consider (here) "(sid, se') = (sid0, se0\<lparr>se_topics := ts\<rparr>)"
    | (unvisited) "(sid, se') \<in> set ss" | (later) "(sid, se') \<in> set ss2" by blast
  then show ?case
  proof cases
    case here
    then show ?thesis using head by simp
  next
    case unvisited
    then show ?thesis by (intro exI [of _ se']) auto
  next
    case later
    then show ?thesis using Cons.IH [OF rec] by auto
  qed
qed simp

subsection \<open>Well-formed states\<close>

definition topic_source :: "SessionInfo \<Rightarrow> TopicRef \<Rightarrow> TopicSource" where
  "topic_source info key =
     \<lparr>src_session = si_session info, src_game_id = si_game_id info, src_topic = key\<rparr>"

text \<open>The identity of a topic entry, which holds even between the two halves of a transition.\<close>

definition topic_core :: "SessionInfo \<Rightarrow> TopicRef \<Rightarrow> Topic_entry \<Rightarrow> bool" where
  "topic_core info key t \<longleftrightarrow>
     ts_source (tp_state t) = topic_source info key
     \<and> 0 < ts_generation (tp_state t)
     \<and> provider_id key = si_provider_id info"

definition snapshot_issued :: "u64 \<Rightarrow> TopicSnapshot \<Rightarrow> bool" where
  "snapshot_issued sequence t \<longleftrightarrow>
     (case ts_snapshot t of
        None \<Rightarrow> True
      | Some d \<Rightarrow> 0 < md_sequence (de_metadata d) \<and> md_sequence (de_metadata d) \<le> sequence)"

definition topic_wf :: "u64 \<Rightarrow> SessionInfo \<Rightarrow> TopicRef \<Rightarrow> Topic_entry \<Rightarrow> bool" where
  "topic_wf sequence info key t \<longleftrightarrow>
     topic_core info key t
     \<and> topic_coherent (tp_state t)
     \<and> snapshot_issued sequence (tp_state t)
     \<and> (tp_demanded t \<longleftrightarrow> ts_health (tp_state t) \<noteq> Idle)
     \<and> (tp_deadline t \<noteq> None \<longleftrightarrow> ts_health (tp_state t) \<in> {Available, Initializing})"

definition session_wf ::
  "(SessionInfo \<Rightarrow> TopicRef \<Rightarrow> Topic_entry \<Rightarrow> bool) \<Rightarrow> string \<Rightarrow> string \<Rightarrow> Session_entry \<Rightarrow> bool" where
  "session_wf P run sid se \<longleftrightarrow>
     si_session (se_info se) = SessionRef run sid
     \<and> bt_inv (se_topics se)
     \<and> (\<forall>(k, t) \<in> set (se_topics se). P (se_info se) k t)"

definition sessions_wf ::
  "(SessionInfo \<Rightarrow> TopicRef \<Rightarrow> Topic_entry \<Rightarrow> bool) \<Rightarrow> Inner \<Rightarrow> bool" where
  "sessions_wf P s \<longleftrightarrow>
     bt_inv (in_sessions s) \<and> (\<forall>(sid, se) \<in> set (in_sessions s). session_wf P (in_run_id s) sid se)"

text \<open>
  Sharing: every subscriber points at the queue stored under its own id, ids never exceed the
  last one issued, and every stored queue satisfies its own invariant.
\<close>

definition queues_wf :: "Inner \<Rightarrow> bool" where
  "queues_wf s \<longleftrightarrow>
     bt_inv (in_subscribers s) \<and> bt_inv (in_queues s)
     \<and> (\<forall>(i, sb) \<in> set (in_subscribers s). sb_queue sb = i \<and> bt_contains (in_queues s) i)
     \<and> (\<forall>(i, q) \<in> set (in_queues s). i \<le> in_next_subscription s \<and> queue_good q)
     \<and> (in_stopped s \<longrightarrow> in_subscribers s = [])"

text \<open>A stopped service demands nothing.\<close>

definition stopped_idle :: "Inner \<Rightarrow> bool" where
  "stopped_idle s \<longleftrightarrow> (in_stopped s \<longrightarrow> sessions_wf (\<lambda>_ _ t. \<not> tp_demanded t) s)"

definition inner_wf :: "Inner \<Rightarrow> bool" where
  "inner_wf s \<longleftrightarrow>
     catalog_wf (in_catalog s) \<and> sessions_wf (topic_wf (in_sequence s)) s \<and> queues_wf s \<and> stopped_idle s"

lemma inner_wfI:
  "catalog_wf (in_catalog s) \<Longrightarrow> sessions_wf (topic_wf (in_sequence s)) s \<Longrightarrow> queues_wf s \<Longrightarrow> stopped_idle s
     \<Longrightarrow> inner_wf s"
  by (simp add: inner_wf_def)

lemma inner_wfD:
  assumes "inner_wf s"
  shows "catalog_wf (in_catalog s)" and "sessions_wf (topic_wf (in_sequence s)) s" and "queues_wf s"
    and "in_stopped s \<Longrightarrow> sessions_wf (\<lambda>_ _ t. \<not> tp_demanded t) s"
    and "in_stopped s \<Longrightarrow> in_subscribers s = []"
  using assms by (simp_all add: inner_wf_def stopped_idle_def queues_wf_def)

lemma session_wfD: "session_wf P run sid se \<Longrightarrow> (k, t) \<in> set (se_topics se) \<Longrightarrow> P (se_info se) k t"
  by (auto simp: session_wf_def)

lemma sessions_wfD: "sessions_wf P s \<Longrightarrow> (sid, se) \<in> set (in_sessions s) \<Longrightarrow> session_wf P (in_run_id s) sid se"
  by (auto simp: sessions_wf_def)

lemma session_wfI:
  "si_session (se_info se) = SessionRef run sid \<Longrightarrow> bt_inv (se_topics se) \<Longrightarrow>
   (\<And>k t. (k, t) \<in> set (se_topics se) \<Longrightarrow> P (se_info se) k t) \<Longrightarrow> session_wf P run sid se"
  by (auto simp: session_wf_def)

lemma sessions_wfI:
  "bt_inv (in_sessions s) \<Longrightarrow>
   (\<And>sid se. (sid, se) \<in> set (in_sessions s) \<Longrightarrow> session_wf P (in_run_id s) sid se) \<Longrightarrow> sessions_wf P s"
  by (auto simp: sessions_wf_def)

lemma session_wf_topics: "session_wf P run sid se \<Longrightarrow> bt_inv (se_topics se)"
  and session_wf_ref: "session_wf P run sid se \<Longrightarrow> si_session (se_info se) = SessionRef run sid"
  by (simp_all add: session_wf_def)

lemma sessions_wf_inv: "sessions_wf P s \<Longrightarrow> bt_inv (in_sessions s)"
  by (simp add: sessions_wf_def)

lemma topic_wf_core: "topic_wf n info k t \<Longrightarrow> topic_core info k t"
  by (simp add: topic_wf_def)

lemma snapshot_issued_mono: "snapshot_issued n t \<Longrightarrow> n \<le> m \<Longrightarrow> snapshot_issued m t"
  by (auto simp: snapshot_issued_def split: option.splits)

lemma topic_wf_mono: "topic_wf n info k t \<Longrightarrow> n \<le> m \<Longrightarrow> topic_wf m info k t"
  by (auto simp: topic_wf_def intro: snapshot_issued_mono)

lemma session_wf_mono:
  "session_wf P run sid se \<Longrightarrow> (\<And>k t. (k, t) \<in> set (se_topics se) \<Longrightarrow> P (se_info se) k t \<Longrightarrow> Q (se_info se) k t)
     \<Longrightarrow> session_wf Q run sid se"
  by (auto simp: session_wf_def)

lemma sessions_wf_mono:
  "sessions_wf P s \<Longrightarrow> (\<And>info k t. P info k t \<Longrightarrow> Q info k t) \<Longrightarrow> sessions_wf Q s"
  by (fastforce simp: sessions_wf_def intro: session_wf_mono)

lemma sessions_wf_cong:
  "in_sessions s' = in_sessions s \<Longrightarrow> in_run_id s' = in_run_id s \<Longrightarrow> sessions_wf P s' = sessions_wf P s"
  by (simp add: sessions_wf_def)

lemma sessions_wf_get:
  "sessions_wf P s \<Longrightarrow> bt_get (in_sessions s) sid = Some se \<Longrightarrow> session_wf P (in_run_id s) sid se"
  by (auto simp: sessions_wf_def dest: bt_get_member)

lemma close_topic_wf: "topic_core info k t \<Longrightarrow> topic_wf n info k (close_topic t)"
  by (simp add: topic_wf_def topic_core_def close_topic_def topic_coherent_def snapshot_issued_def)

lemma walk_sessions_wf:
  assumes walk: "walk_sessions f (in_sessions s) = (ss', changes, exhausted)"
    and wf: "sessions_wf P s"
    and visit: "\<And>info k t. P info k t \<Longrightarrow> Q info k t \<and> Q info k (visit_entry (f info k t))"
  shows "sessions_wf Q (s\<lparr>in_sessions := ss'\<rparr>)"
proof -
  have keys: "map fst ss' = map fst (in_sessions s)"
    using walk_sessions_keys [of f "in_sessions s"] walk by simp
  have "session_wf Q (in_run_id s) sid se'" if mem: "(sid, se') \<in> set ss'" for sid se'
  proof -
    obtain se where se: "(sid, se) \<in> set (in_sessions s)" "se_info se' = se_info se"
      "map fst (se_topics se') = map fst (se_topics se)"
      "\<forall>(k, t') \<in> set (se_topics se').
         \<exists>t. (k, t) \<in> set (se_topics se) \<and> (t' = t \<or> t' = visit_entry (f (se_info se) k t))"
      using walk_sessions_member [OF walk mem] by blast
    then have old: "session_wf P (in_run_id s) sid se"
      using wf by (auto simp: sessions_wf_def)
    have "Q (se_info se') k t'" if topic: "(k, t') \<in> set (se_topics se')" for k t'
    proof -
      obtain t where "(k, t) \<in> set (se_topics se)" "t' = t \<or> t' = visit_entry (f (se_info se) k t)"
        using bspec [OF se(4) topic] by auto
      then show ?thesis
        using old visit se(2) by (auto simp: session_wf_def)
    qed
    moreover have "bt_inv (se_topics se')"
      using old se(3) by (simp add: session_wf_def bt_inv_def)
    ultimately show ?thesis
      using old se(2) by (simp add: session_wf_def case_prod_beta)
  qed
  moreover have "bt_inv ss'"
    using wf keys by (simp add: sessions_wf_def bt_inv_def)
  ultimately show ?thesis
    by (auto simp: sessions_wf_def)
qed

subsection \<open>Queues in the store\<close>

lemma queue_fold_get:
  assumes "distinct (map (\<lambda>(_, sb). sb_queue sb) subs)"
  shows "bt_get (fold (\<lambda>(_, sb) qs. if P sb then bt_update (sb_queue sb) f qs else qs) subs qs) a =
     (if \<exists>(_, sb) \<in> set subs. sb_queue sb = a \<and> P sb then map_option f (bt_get qs a) else bt_get qs a)"
  using assms
proof (induction subs arbitrary: qs)
  case (Cons x subs)
  then show ?case
    by (cases x) (auto simp: bt_get_update image_iff)
qed simp

lemma queue_fold_keys:
  "map fst (fold (\<lambda>(_, sb) qs. if P sb then bt_update (sb_queue sb) f qs else qs) subs qs) = map fst qs"
  by (induction subs arbitrary: qs) (auto split: prod.splits)

lemma queue_fold_member:
  assumes "(a, q') \<in> set (fold (\<lambda>(_, sb) qs. if P sb then bt_update (sb_queue sb) f qs else qs) subs qs)"
    and "\<And>q. G q \<Longrightarrow> G (f q)" and "\<forall>(a, q) \<in> set qs. G q"
  shows "G q'"
  using assms(1,3)
proof (induction subs arbitrary: qs)
  case (Cons x subs)
  obtain i sb where x: "x = (i, sb)" by (cases x)
  have "\<forall>(a, q) \<in> set (if P sb then bt_update (sb_queue sb) f qs else qs). G q"
    using Cons.prems(2) assms(2) by (auto simp: bt_update_def bt_map_def)
  then show ?case
    using Cons.IH [of "if P sb then bt_update (sb_queue sb) f qs else qs"] Cons.prems(1) x by simp
qed auto

lemma queues_wf_distinct:
  "queues_wf s \<Longrightarrow> distinct (map (\<lambda>(_, sb). sb_queue sb) (in_subscribers s))"
proof -
  assume wf: "queues_wf s"
  then have "map (\<lambda>(_, sb). sb_queue sb) (in_subscribers s) = map fst (in_subscribers s)"
    by (auto simp: queues_wf_def)
  moreover have "distinct (map fst (in_subscribers s))"
    using wf by (intro bt_inv_distinct) (simp add: queues_wf_def)
  ultimately show ?thesis by (simp only:)
qed

lemma queues_wf_fold:
  assumes wf: "queues_wf s" and good: "\<And>q. queue_good q \<Longrightarrow> queue_good (f q)"
  shows "queues_wf (s\<lparr>in_queues := fold (\<lambda>(_, sb) qs. if P sb then bt_update (sb_queue sb) f qs else qs)
                                  (in_subscribers s) (in_queues s)\<rparr>)"
proof -
  let ?qs = "fold (\<lambda>(_, sb) qs. if P sb then bt_update (sb_queue sb) f qs else qs)
                (in_subscribers s) (in_queues s)"
  have keys: "map fst ?qs = map fst (in_queues s)" by (rule queue_fold_keys)
  have "queue_good q" if "(i, q) \<in> set ?qs" for i q
    by (rule queue_fold_member [where G = queue_good, OF that good])
      (use wf in \<open>auto simp: queues_wf_def\<close>)
  moreover have "i \<le> in_next_subscription s" if "(i, q) \<in> set ?qs" for i q
  proof -
    have "i \<in> set (map fst ?qs)" using that by force
    then have "i \<in> fst ` set (in_queues s)" using keys by simp
    then show ?thesis using wf by (auto simp: queues_wf_def)
  qed
  moreover have "bt_contains ?qs i = bt_contains (in_queues s) i" for i
    using arg_cong [OF keys, of set] by (simp add: bt_get_none_iff)
  moreover have "bt_inv ?qs = bt_inv (in_queues s)" using keys by (simp add: bt_inv_def)
  ultimately show ?thesis
    using wf by (auto simp: queues_wf_def)
qed

subsection \<open>Closing\<close>

text \<open>What no transition of the locked state writes.\<close>

definition same_identity :: "Inner \<Rightarrow> Inner \<Rightarrow> bool" where
  "same_identity s t \<longleftrightarrow>
     in_catalog t = in_catalog s \<and> in_message_bytes t = in_message_bytes s \<and> in_run_id t = in_run_id s
     \<and> in_next_subscription t = in_next_subscription s"

lemma same_identity_refl [simp]: "same_identity s s"
  by (simp add: same_identity_def)

lemma same_identity_trans [trans]: "same_identity r s \<Longrightarrow> same_identity s t \<Longrightarrow> same_identity r t"
  by (simp add: same_identity_def)

lemma close_identity: "same_identity s (inner_close e s)"
  by (simp add: same_identity_def inner_close_def)

lemma close_stopped [simp]: "in_stopped (inner_close e s)"
  by (simp add: inner_close_def)

lemma close_sequence [simp]: "in_sequence (inner_close e s) = in_sequence s"
  by (simp add: inner_close_def)

lemma close_queues:
  "in_queues (inner_close e s) =
     fold (\<lambda>(_, sb) qs. if True then bt_update (sb_queue sb) (queue_finish e True) qs else qs)
       (in_subscribers s) (in_queues s)"
  by (simp add: inner_close_def case_prod_eta)

lemma close_queues_wf: "queues_wf s \<Longrightarrow> queues_wf (inner_close e s)"
  using queues_wf_fold [of s "queue_finish e True" "\<lambda>_. True"] queue_good_finish
  by (simp add: queues_wf_def inner_close_def case_prod_eta)

lemma bt_map_member: "(k, w) \<in> set (bt_map f m) \<longleftrightarrow> (\<exists>v. (k, v) \<in> set m \<and> w = f k v)"
  by (auto simp: bt_map_def)

lemma close_session_wf:
  assumes "session_wf topic_core run sid se"
  shows "session_wf (topic_wf n) run sid (se\<lparr>se_topics := bt_map (\<lambda>_. close_topic) (se_topics se)\<rparr>)"
  by (rule session_wfI)
    (use assms in \<open>auto simp: bt_map_member session_wf_ref session_wf_topics intro!: close_topic_wf dest: session_wfD\<close>)

lemma close_sessions_wf:
  assumes "sessions_wf topic_core s"
  shows "sessions_wf (topic_wf n) (inner_close e s)"
  by (rule sessions_wfI)
    (use assms in \<open>auto simp: inner_close_def bt_map_member sessions_wf_inv intro!: close_session_wf dest: sessions_wfD\<close>)

lemma close_topic_undemanded [simp]: "\<not> tp_demanded (close_topic t)"
  by (simp add: close_topic_def)

lemma close_idle:
  assumes "sessions_wf P s"
  shows "sessions_wf (\<lambda>_ _ t. \<not> tp_demanded t) (inner_close e s)"
proof (rule sessions_wfI)
  show "bt_inv (in_sessions (inner_close e s))"
    using assms by (simp add: inner_close_def sessions_wf_inv)
  fix sid se assume "(sid, se) \<in> set (in_sessions (inner_close e s))"
  then obtain old where "(sid, old) \<in> set (in_sessions s)"
    and se: "se = old\<lparr>se_topics := bt_map (\<lambda>_. close_topic) (se_topics old)\<rparr>"
    by (auto simp: inner_close_def bt_map_member)
  then have "session_wf P (in_run_id s) sid old" using assms by (simp add: sessions_wfD)
  then show "session_wf (\<lambda>_ _ t. \<not> tp_demanded t) (in_run_id (inner_close e s)) sid se"
    by (intro session_wfI)
      (auto simp: se inner_close_def bt_map_member session_wf_ref session_wf_topics)
qed

lemma inner_close_wf:
  "catalog_wf (in_catalog s) \<Longrightarrow> sessions_wf topic_core s \<Longrightarrow> queues_wf s \<Longrightarrow> inner_wf (inner_close e s)"
  using close_identity [of s e]
  by (intro inner_wfI)
    (simp_all add: close_sessions_wf close_queues_wf close_idle same_identity_def stopped_idle_def)

lemma inner_wf_sessions_core: "inner_wf s \<Longrightarrow> sessions_wf topic_core s"
  by (auto simp: inner_wf_def intro: sessions_wf_mono topic_wf_core)

subsection \<open>Emission\<close>

lemma emit_stopped [simp]: "in_stopped s \<Longrightarrow> inner_emit pc u s = s"
  by (simp add: inner_emit_def inner_advance_def)

lemma emit_exhausted:
  "\<not> in_stopped s \<Longrightarrow> in_sequence s = - 1 \<Longrightarrow> inner_emit pc u s = inner_close exhausted_end s"
  by (simp add: inner_emit_def inner_advance_def checked_add_1_None_iff [THEN iffD2])

definition emitted_item :: "Inner \<Rightarrow> SubscriptionUpdate \<Rightarrow> SubscriptionItem" where
  "emitted_item s u =
     Update \<lparr>ue_cursor = \<lparr>cur_run_id = in_run_id s, cur_sequence = in_sequence s + 1\<rparr>, ue_update = u\<rparr>"

lemma update_recipient_sequence [simp]:
  "update_recipient (s\<lparr>in_sequence := n\<rparr>) u sb = update_recipient s u sb"
  by (simp add: update_recipient_def split: SubscriptionUpdate.splits)

lemma emit_running:
  assumes "\<not> in_stopped s" and "in_sequence s \<noteq> - 1"
  shows "inner_emit pc u s =
     s\<lparr>in_sequence := in_sequence s + 1,
       in_queues := fold (\<lambda>(_, sb) qs.
           if update_recipient s u sb
           then bt_update (sb_queue sb) (\<lambda>q. fst (queue_offer pc (emitted_item s u) q)) qs else qs)
         (in_subscribers s) (in_queues s)\<rparr>"
  using assms unfolding emitted_item_def
  by (simp add: inner_emit_def inner_advance_def checked_add_1_Some_iff [THEN iffD2] inner_cursor_def)

lemma emit_cases:
  obtains (stopped) "in_stopped s" "inner_emit pc u s = s"
    | (exhausted) "\<not> in_stopped s" "in_sequence s = - 1" "inner_emit pc u s = inner_close exhausted_end s"
    | (running) "\<not> in_stopped s" "in_sequence s \<noteq> - 1"
        "\<not> in_stopped (inner_emit pc u s)" "in_sequence (inner_emit pc u s) = in_sequence s + 1"
        "in_sessions (inner_emit pc u s) = in_sessions s"
        "in_subscribers (inner_emit pc u s) = in_subscribers s"
        "same_identity s (inner_emit pc u s)"
        "in_revision (inner_emit pc u s) = in_revision s"
        "in_runtime (inner_emit pc u s) = in_runtime s"
proof (cases "in_stopped s")
  case True
  then show ?thesis using stopped by simp
next
  case open_s: False
  show ?thesis
  proof (cases "in_sequence s = - 1")
    case True
    then show ?thesis using exhausted open_s emit_exhausted by blast
  next
    case False
    note eq = emit_running [OF open_s False, of pc u]
    show ?thesis
      by (rule running) (simp_all add: eq open_s False same_identity_def)
  qed
qed

lemma emit_identity: "same_identity s (inner_emit pc u s)"
  by (cases rule: emit_cases [of s pc u]) (simp_all add: close_identity)

lemma emit_sequence_mono: "in_sequence s \<le> in_sequence (inner_emit pc u s)"
  by (cases rule: emit_cases [of s pc u]) (simp_all add: word_less_plus_one order.strict_implies_order)

lemma emit_queues_wf: "queues_wf s \<Longrightarrow> queues_wf (inner_emit pc u s)"
proof (cases rule: emit_cases [of s pc u])
  case running
  assume wf: "queues_wf s"
  have "queues_wf (s\<lparr>in_queues := in_queues (inner_emit pc u s)\<rparr>)"
    using queues_wf_fold [OF wf, of "\<lambda>q. fst (queue_offer pc (emitted_item s u) q)" "update_recipient s u"]
      queue_good_offer running(1,2)
    by (simp add: emit_running emitted_item_def)
  then show ?thesis
    using running by (simp add: queues_wf_def same_identity_def)
qed (simp_all add: close_queues_wf)

lemma emit_wf: "inner_wf s \<Longrightarrow> inner_wf (inner_emit pc u s)"
proof (cases rule: emit_cases [of s pc u])
  case running
  assume wf: "inner_wf s"
  have "sessions_wf (topic_wf (in_sequence s + 1)) s"
  proof (rule sessions_wf_mono)
    show "sessions_wf (topic_wf (in_sequence s)) s" using wf by (simp add: inner_wf_def)
    show "topic_wf (in_sequence s + 1) info k t" if "topic_wf (in_sequence s) info k t" for info k t
      using that running(2) by (rule topic_wf_mono [OF _ order.strict_implies_order [OF word_less_plus_one]])
  qed
  then have "sessions_wf (topic_wf (in_sequence s + 1)) (inner_emit pc u s)"
    using running by (simp add: sessions_wf_def same_identity_def)
  then show ?thesis
    using wf running emit_queues_wf by (simp add: inner_wf_def same_identity_def stopped_idle_def)
qed (simp_all add: inner_wf_sessions_core inner_close_wf inner_wfD(1,3))

lemma emits_induct [consumes 1]:
  assumes "P s" and "\<And>u s. P s \<Longrightarrow> P (inner_emit pc u s)"
  shows "P (fold (inner_emit pc) us s)"
  using assms(1) by (induction us arbitrary: s) (auto intro: assms(2))

lemma emits_wf: "inner_wf s \<Longrightarrow> inner_wf (fold (inner_emit pc) us s)"
  by (erule emits_induct) (rule emit_wf)

lemma emits_identity: "same_identity s (fold (inner_emit pc) us s)"
  by (rule emits_induct [where P = "same_identity s"])
    (auto intro: same_identity_trans emit_identity)

lemma emits_sequence_mono: "in_sequence s \<le> in_sequence (fold (inner_emit pc) us s)"
  by (rule emits_induct [where P = "\<lambda>t. in_sequence s \<le> in_sequence t"])
    (auto intro: order_trans emit_sequence_mono)

lemma emits_stopped [simp]: "in_stopped s \<Longrightarrow> fold (inner_emit pc) us s = s"
  by (induction us) simp_all

text \<open>Unless it closes the service, emission writes the sequence and the queues and nothing else.\<close>

lemma emits_frame:
  assumes "\<not> in_stopped (fold (inner_emit pc) us s)"
  shows "\<not> in_stopped s \<and> in_sessions (fold (inner_emit pc) us s) = in_sessions s
    \<and> in_subscribers (fold (inner_emit pc) us s) = in_subscribers s
    \<and> in_runtime (fold (inner_emit pc) us s) = in_runtime s
    \<and> unat (in_sequence (fold (inner_emit pc) us s)) = unat (in_sequence s) + length us"
  using assms
proof (induction us arbitrary: s)
  case (Cons u us)
  show ?case
  proof (cases rule: emit_cases [of s pc u])
    case running
    then show ?thesis
      using Cons.IH [of "inner_emit pc u s"] Cons.prems by (simp add: unat_plus_one)
  qed (use Cons.prems in simp_all)
qed simp


subsection \<open>Settling\<close>

lemma settle_topic_visit:
  assumes "topic_wf n info k t"
  shows "topic_core info k (visit_entry (settle_topic d now t))"
    and "\<not> is_exhausted (settle_topic d now t) \<Longrightarrow>
      topic_wf n info k (visit_entry (settle_topic d now t)) \<and> tp_demanded (visit_entry (settle_topic d now t)) = d"
  using assms word_less_plus_one [of "ts_generation (tp_state t)"]
  by (auto simp: settle_topic_def topic_wf_def topic_core_def topic_coherent_def snapshot_issued_def Let_def
      checked_add_1_Some_iff split: option.splits if_splits)

lemma walk_sessions_wf_complete:
  assumes walk: "walk_sessions f (in_sessions s) = (ss', changes, False)"
    and wf: "sessions_wf P s"
    and visit: "\<And>info k t. P info k t \<Longrightarrow> \<not> is_exhausted (f info k t) \<Longrightarrow> Q info k (visit_entry (f info k t))"
  shows "sessions_wf Q (s\<lparr>in_sessions := ss'\<rparr>)"
proof (rule sessions_wfI)
  note complete = walk_sessions_complete [OF walk]
  show "bt_inv (in_sessions (s\<lparr>in_sessions := ss'\<rparr>))"
    using complete wf by (simp add: sessions_wf_inv)
  fix sid se' assume "(sid, se') \<in> set (in_sessions (s\<lparr>in_sessions := ss'\<rparr>))"
  then obtain se where mem: "(sid, se) \<in> set (in_sessions s)" and se': "se' = visit_session f se"
    using complete by (auto simp: bt_map_member)
  have live: "\<not> is_exhausted (f (se_info se) k t)" if "(k, t) \<in> set (se_topics se)" for k t
    using complete mem that by blast
  have "session_wf P (in_run_id s) sid se" using wf mem by (rule sessions_wfD)
  then show "session_wf Q (in_run_id (s\<lparr>in_sessions := ss'\<rparr>)) sid se'"
    using live
    by (intro session_wfI)
      (auto simp: se' visit_session_def bt_map_member session_wf_ref session_wf_topics intro!: visit dest: session_wfD)
qed

definition settled :: "Inner \<Rightarrow> bool" where
  "settled s \<longleftrightarrow>
     (\<forall>(i, sb) \<in> set (in_subscribers s). \<not> subscriber_ended s sb)
     \<and> sessions_wf (\<lambda>info k t. tp_demanded t = topic_wanted s (si_session info) k) s"

lemma stopped_settled: "inner_wf s \<Longrightarrow> in_stopped s \<Longrightarrow> settled s"
  using inner_wfD(4,5) [of s] by (simp add: settled_def topic_wanted_def)

lemma retain_live_sel [simp]:
  "in_sessions (retain_live s) = in_sessions s" "in_run_id (retain_live s) = in_run_id s"
  "in_sequence (retain_live s) = in_sequence s" "in_stopped (retain_live s) = in_stopped s"
  "in_catalog (retain_live s) = in_catalog s" "in_queues (retain_live s) = in_queues s"
  "in_next_subscription (retain_live s) = in_next_subscription s" "in_revision (retain_live s) = in_revision s"
  "in_runtime (retain_live s) = in_runtime s" "in_message_bytes (retain_live s) = in_message_bytes s"
  by (simp_all add: retain_live_def)

lemma queues_wf_retain: "queues_wf s \<Longrightarrow> queues_wf (s\<lparr>in_subscribers := bt_retain P (in_subscribers s)\<rparr>)"
  by (auto simp: queues_wf_def bt_retain_def bt_inv_retain [unfolded bt_retain_def])

lemma queues_wf_cong:
  "in_subscribers s' = in_subscribers s \<Longrightarrow> in_queues s' = in_queues s \<Longrightarrow>
   in_next_subscription s' = in_next_subscription s \<Longrightarrow> in_stopped s' = in_stopped s \<Longrightarrow>
   queues_wf s' = queues_wf s"
  by (simp add: queues_wf_def)

lemma inner_wf_retain:
  "inner_wf s \<Longrightarrow> inner_wf (s\<lparr>in_subscribers := bt_retain P (in_subscribers s)\<rparr>)"
  by (simp add: inner_wf_def queues_wf_retain stopped_idle_def sessions_wf_def)

lemma bump_revision_sel [simp]:
  "in_sessions (bump_revision c s) = in_sessions s" "in_run_id (bump_revision c s) = in_run_id s"
  "in_sequence (bump_revision c s) = in_sequence s" "in_stopped (bump_revision c s) = in_stopped s"
  "in_catalog (bump_revision c s) = in_catalog s" "in_queues (bump_revision c s) = in_queues s"
  "in_next_subscription (bump_revision c s) = in_next_subscription s"
  "in_subscribers (bump_revision c s) = in_subscribers s"
  "in_runtime (bump_revision c s) = in_runtime s" "in_message_bytes (bump_revision c s) = in_message_bytes s"
  by (simp_all add: bump_revision_def)

lemma inner_wf_bump: "inner_wf s \<Longrightarrow> inner_wf (bump_revision c s)"
  by (simp add: inner_wf_def stopped_idle_def sessions_wf_def queues_wf_def)

text \<open>A walk over every topic that keeps entries well-formed keeps the state well-formed.\<close>

lemma walk_inner_wf:
  assumes walk: "walk_sessions f (in_sessions s) = (ss', changes, False)" and wf: "inner_wf s"
    and visit: "\<And>info k t. topic_wf (in_sequence s) info k t \<Longrightarrow> \<not> is_exhausted (f info k t) \<Longrightarrow>
      topic_wf (in_sequence s) info k (visit_entry (f info k t))"
    and idle: "\<And>info k t. in_stopped s \<Longrightarrow> topic_wf (in_sequence s) info k t \<Longrightarrow> \<not> tp_demanded t \<Longrightarrow>
      \<not> is_exhausted (f info k t) \<Longrightarrow> \<not> tp_demanded (visit_entry (f info k t))"
  shows "inner_wf (s\<lparr>in_sessions := ss'\<rparr>)"
proof (rule inner_wfI)
  show "catalog_wf (in_catalog (s\<lparr>in_sessions := ss'\<rparr>))" using inner_wfD(1) [OF wf] by simp
  show "sessions_wf (topic_wf (in_sequence (s\<lparr>in_sessions := ss'\<rparr>))) (s\<lparr>in_sessions := ss'\<rparr>)"
    using walk_sessions_wf_complete [OF walk inner_wfD(2) [OF wf]] visit by simp
  show "queues_wf (s\<lparr>in_sessions := ss'\<rparr>)" using inner_wfD(3) [OF wf] by (simp add: queues_wf_def)
  have "sessions_wf (\<lambda>_ _ t. \<not> tp_demanded t) (s\<lparr>in_sessions := ss'\<rparr>)" if stop: "in_stopped s"
  proof (rule walk_sessions_wf_complete [OF walk, where P = "\<lambda>info k t. topic_wf (in_sequence s) info k t \<and> \<not> tp_demanded t"])
    show "sessions_wf (\<lambda>info k t. topic_wf (in_sequence s) info k t \<and> \<not> tp_demanded t) s"
      using inner_wfD(2) [OF wf] inner_wfD(4) [OF wf stop]
      by (auto simp: sessions_wf_def session_wf_def)
  qed (use idle stop in blast)
  then show "stopped_idle (s\<lparr>in_sessions := ss'\<rparr>)" by (simp add: stopped_idle_def)
qed

lemma walk_exhausted_wf:
  assumes walk: "walk_sessions f (in_sessions s) = (ss', changes, True)" and wf: "inner_wf s"
    and visit: "\<And>info k t. topic_wf (in_sequence s) info k t \<Longrightarrow> topic_core info k (visit_entry (f info k t))"
  shows "inner_wf (inner_close e (s\<lparr>in_sessions := ss'\<rparr>))"
proof (rule inner_close_wf)
  show "sessions_wf topic_core (s\<lparr>in_sessions := ss'\<rparr>)"
    by (rule walk_sessions_wf [OF walk inner_wfD(2) [OF wf]]) (simp add: visit topic_wf_core)
qed (use inner_wfD(1,3) [OF wf] in \<open>simp_all add: queues_wf_def\<close>)

lemma settle_visit_wf:
  assumes "topic_wf n info k t"
  shows "topic_core info k (visit_entry (settle_visit s now info k t))"
    and "\<not> is_exhausted (settle_visit s now info k t) \<Longrightarrow>
      topic_wf n info k (visit_entry (settle_visit s now info k t))
      \<and> tp_demanded (visit_entry (settle_visit s now info k t)) = topic_wanted s (si_session info) k"
  using settle_topic_visit [OF assms] by (simp_all add: settle_visit_def)

lemma topic_wanted_cong: "in_subscribers s' = in_subscribers s \<Longrightarrow> topic_wanted s' = topic_wanted s"
  by (intro ext) (simp add: topic_wanted_def)

text \<open>The two ways a turn ends: the service closes, or every topic has been visited and every change emitted.\<close>

lemma settle_turn_cases:
  obtains (exhausted) ss' changes where
      "walk_sessions (settle_visit (retain_live s) now) (in_sessions s) = (ss', changes, True)"
      "settle_turn pc now s = (inner_close exhausted_end (retain_live s\<lparr>in_sessions := ss'\<rparr>), False)"
    | (visited) ss' changes s3 where
      "walk_sessions (settle_visit (retain_live s) now) (in_sessions s) = (ss', changes, False)"
      "s3 = fold (inner_emit pc) changes (bump_revision changes (retain_live s\<lparr>in_sessions := ss'\<rparr>))"
      "settle_turn pc now s = (s3, list_ex (\<lambda>(_, sb). subscriber_ended s3 sb) (in_subscribers s3))"
proof -
  obtain ss' changes ex where walk:
    "walk_sessions (settle_visit (retain_live s) now) (in_sessions s) = (ss', changes, ex)"
    by (metis prod_cases3)
  show ?thesis
    by (cases ex) (use walk exhausted visited in \<open>auto simp: settle_turn_def Let_def\<close>)
qed

lemma settle_turn_wf:
  assumes wf: "inner_wf s"
  shows "inner_wf (fst (settle_turn pc now s))"
proof -
  have live: "inner_wf (retain_live s)"
    unfolding retain_live_def using wf by (rule inner_wf_retain)
  have idle: "in_subscribers (retain_live s) = []" if "in_stopped s"
    using inner_wfD(5) [OF live] that by simp
  show ?thesis
  proof (cases rule: settle_turn_cases [of s now pc])
    case (exhausted ss' changes)
    then show ?thesis
      using walk_exhausted_wf [of "settle_visit (retain_live s) now" "retain_live s" ss' changes] live settle_visit_wf(1)
      by simp
  next
    case (visited ss' changes s3)
    have "inner_wf (retain_live s\<lparr>in_sessions := ss'\<rparr>)"
    proof (rule walk_inner_wf [OF _ live])
      show "walk_sessions (settle_visit (retain_live s) now) (in_sessions (retain_live s)) = (ss', changes, False)"
        using visited(1) by simp
    qed (use settle_visit_wf(2) idle in \<open>auto simp: topic_wanted_def\<close>)
    then show ?thesis
      using visited(2,3) emits_wf inner_wf_bump by simp
  qed
qed

text \<open>A turn that does not close the service leaves every topic demanded exactly if it is wanted.\<close>

lemma settle_turn_demand:
  assumes wf: "inner_wf s" and turn: "settle_turn pc now s = (s', again)" and running: "\<not> in_stopped s'"
  shows "sessions_wf (\<lambda>info k t. tp_demanded t = topic_wanted s' (si_session info) k) s'"
    and "in_subscribers s' = in_subscribers (retain_live s)"
    and "again = list_ex (\<lambda>(_, sb). subscriber_ended s' sb) (in_subscribers s')"
proof -
  obtain ss' changes where walk: "walk_sessions (settle_visit (retain_live s) now) (in_sessions s) = (ss', changes, False)"
    and s': "s' = fold (inner_emit pc) changes (bump_revision changes (retain_live s\<lparr>in_sessions := ss'\<rparr>))"
    and again: "again = list_ex (\<lambda>(_, sb). subscriber_ended s' sb) (in_subscribers s')"
    using turn running by (cases rule: settle_turn_cases [of s now pc]) auto
  have frame: "in_sessions s' = ss'" "in_subscribers s' = in_subscribers (retain_live s)"
    using emits_frame [of pc changes "bump_revision changes (retain_live s\<lparr>in_sessions := ss'\<rparr>)"] running
    unfolding s' by simp_all
  have run: "in_run_id s' = in_run_id s"
    using emits_identity [of "bump_revision changes (retain_live s\<lparr>in_sessions := ss'\<rparr>)" pc changes] s'
    by (simp add: same_identity_def)
  have "sessions_wf (\<lambda>info k t. tp_demanded t = topic_wanted (retain_live s) (si_session info) k)
      (s\<lparr>in_sessions := ss'\<rparr>)"
    by (rule walk_sessions_wf_complete [OF walk inner_wfD(2) [OF wf]]) (use settle_visit_wf(2) in blast)
  then have "sessions_wf (\<lambda>info k t. tp_demanded t = topic_wanted s' (si_session info) k) (s\<lparr>in_sessions := ss'\<rparr>)"
    by (simp only: topic_wanted_cong [OF frame(2)])
  then show "sessions_wf (\<lambda>info k t. tp_demanded t = topic_wanted s' (si_session info) k) s'"
    by (subst sessions_wf_cong [of _ "s\<lparr>in_sessions := ss'\<rparr>"]) (simp_all add: frame(1) run)
  show "in_subscribers s' = in_subscribers (retain_live s)" by (rule frame(2))
  show "again = list_ex (\<lambda>(_, sb). subscriber_ended s' sb) (in_subscribers s')" by (rule again)
qed

lemma settle_turn_settled:
  assumes wf: "inner_wf s" and turn: "settle_turn pc now s = (s', False)"
  shows "settled s'"
proof (cases "in_stopped s'")
  case True
  then show ?thesis using settle_turn_wf [OF wf, of pc now] turn stopped_settled by simp
next
  case False
  from settle_turn_demand [OF wf turn this] show ?thesis by (auto simp: settled_def list_ex_iff)
qed

text \<open>The loop ends, in a state its last turn left unchanged by further demand.\<close>

lemma settle_last_turn:
  assumes "P s" and "\<And>s. P s \<Longrightarrow> P (fst (settle_turn pc now s))"
  shows "\<exists>s0. P s0 \<and> settle_turn pc now s0 = (inner_settle pc now s, False)"
  using assms(1)
proof (induction "live_subscribers s" arbitrary: s rule: less_induct)
  case less
  obtain s' again where turn: "settle_turn pc now s = (s', again)" by (cases "settle_turn pc now s")
  show ?case
  proof (cases again)
    case True
    with turn have more: "settle_turn pc now s = (s', True)" by simp
    then have "P s'" using assms(2) [OF less.prems] by (metis fst_conv)
    from less.hyps [OF settle_turn_progress [OF more] this] show ?thesis
      by (simp add: inner_settle.simps [of pc now s] more)
  next
    case False
    then show ?thesis using turn less.prems by (auto simp: inner_settle.simps [of pc now s])
  qed
qed

lemma settle_induct [consumes 1, case_names turn]:
  assumes "P s" and "\<And>s. P s \<Longrightarrow> P (fst (settle_turn pc now s))"
  shows "P (inner_settle pc now s)"
  using settle_last_turn [of P, OF assms] assms(2) by (metis fst_conv)

lemma settle_wf: "inner_wf s \<Longrightarrow> inner_wf (inner_settle pc now s)"
  by (induction rule: settle_induct) (rule settle_turn_wf)

lemma settle_settled: "inner_wf s \<Longrightarrow> settled (inner_settle pc now s)"
  using settle_last_turn [of inner_wf s pc now] settle_turn_wf settle_turn_settled by blast

end
