(* ===== verification/Inner_Lifecycle.thy ===== *)
theory Inner_Lifecycle
  imports Inner_Invariant
begin

section \<open>Lifecycle of the locked state\<close>

text \<open>
  Expiry and host synchronisation keep the invariant; no transition turns a topic's generation
  or epoch back; after synchronisation the sessions are exactly the observed ones.
\<close>

subsection \<open>Expiry and synchronisation keep the invariant\<close>

lemma expire_topic_visit:
  assumes "topic_wf n info k t"
  shows "topic_core info k (visit_entry (expire_topic now t))"
    and "\<not> is_exhausted (expire_topic now t) \<Longrightarrow>
      topic_wf n info k (visit_entry (expire_topic now t))
      \<and> tp_demanded (visit_entry (expire_topic now t)) = tp_demanded t
      \<and> \<not> (\<exists>d. tp_deadline (visit_entry (expire_topic now t)) = Some d \<and> d \<le> now)"
  using assms
  by (auto simp: expire_topic_def expired_health_def topic_wf_def topic_core_def topic_coherent_def
      snapshot_issued_def Let_def split: option.splits if_splits)

lemma expire_cases:
  obtains (exhausted) ss' changes where
      "walk_sessions (\<lambda>_ _. expire_topic now) (in_sessions s) = (ss', changes, True)"
      "inner_expire pc now s = inner_close exhausted_end (s\<lparr>in_sessions := ss'\<rparr>)"
    | (visited) ss' changes where
      "walk_sessions (\<lambda>_ _. expire_topic now) (in_sessions s) = (ss', changes, False)"
      "inner_expire pc now s =
         inner_settle pc now (fold (inner_emit pc) changes (bump_revision changes (s\<lparr>in_sessions := ss'\<rparr>)))"
proof -
  obtain ss' changes ex where walk:
    "walk_sessions (\<lambda>_ _. expire_topic now) (in_sessions s) = (ss', changes, ex)"
    by (metis prod_cases3)
  show ?thesis
    by (cases ex) (use walk exhausted visited in \<open>auto simp: inner_expire_def Let_def\<close>)
qed

lemma expire_walk_wf:
  assumes "inner_wf s" and "walk_sessions (\<lambda>_ _. expire_topic now) (in_sessions s) = (ss', changes, False)"
  shows "inner_wf (fold (inner_emit pc) changes (bump_revision changes (s\<lparr>in_sessions := ss'\<rparr>)))"
  by (intro emits_wf inner_wf_bump walk_inner_wf [OF assms(2,1)]) (use expire_topic_visit(2) in auto)

lemma expire_exhausted_wf:
  assumes "inner_wf s" and "walk_sessions (\<lambda>_ _. expire_topic now) (in_sessions s) = (ss', changes, True)"
  shows "inner_wf (inner_close e (s\<lparr>in_sessions := ss'\<rparr>))"
  by (rule walk_exhausted_wf [OF assms(2,1)]) (rule expire_topic_visit(1))

lemma expire_wf: "inner_wf s \<Longrightarrow> inner_wf (inner_expire pc now s)"
  by (cases rule: expire_cases [of now s pc]) (simp_all add: expire_walk_wf settle_wf expire_exhausted_wf)

lemma expire_settled: "inner_wf s \<Longrightarrow> settled (inner_expire pc now s)"
  by (cases rule: expire_cases [of now s pc])
    (simp_all add: expire_walk_wf settle_settled expire_exhausted_wf stopped_settled)

lemma advance_cases:
  obtains (stopped) "in_stopped s" "inner_advance s = (s, False)"
    | (exhausted) "\<not> in_stopped s" "in_sequence s = - 1" "inner_advance s = (inner_close exhausted_end s, False)"
    | (running) "\<not> in_stopped s" "in_sequence s \<noteq> - 1"
        "inner_advance s = (s\<lparr>in_sequence := in_sequence s + 1\<rparr>, True)"
  by (cases "in_stopped s"; cases "in_sequence s = - 1")
    (auto simp: inner_advance_def checked_add_1_None_iff [THEN iffD2] checked_add_1_Some_iff [THEN iffD2])

lemma wf_sequence:
  assumes "inner_wf s" and "in_sequence s \<le> n"
  shows "inner_wf (s\<lparr>in_sequence := n\<rparr>)"
proof (rule inner_wfI)
  have "sessions_wf (topic_wf n) s"
    using inner_wfD(2) [OF assms(1)] topic_wf_mono [OF _ assms(2)] by (rule sessions_wf_mono)
  then show "sessions_wf (topic_wf (in_sequence (s\<lparr>in_sequence := n\<rparr>))) (s\<lparr>in_sequence := n\<rparr>)"
    by (simp add: sessions_wf_def)
qed (use assms(1) in \<open>simp_all add: inner_wf_def queues_wf_def stopped_idle_def sessions_wf_def\<close>)

lemma advance_wf: "inner_wf s \<Longrightarrow> inner_wf (fst (inner_advance s))"
  by (cases rule: advance_cases [of s])
    (simp_all add: inner_close_wf inner_wfD inner_wf_sessions_core wf_sequence word_less_plus_one less_imp_le)

lemma ensure_sequences_cases:
  obtains (stopped) "in_stopped s" "ensure_sequences n s = (s, False)"
    | (exhausted) "\<not> in_stopped s" "ensure_sequences n s = (inner_close exhausted_end s, False)"
    | (reserved) "\<not> in_stopped s" "unat (in_sequence s) + n < 2 ^ 64" "ensure_sequences n s = (s, True)"
  by (cases "in_stopped s"; cases "unat (in_sequence s) + n < 2 ^ 64") (auto simp: ensure_sequences_def)

lemma ensure_sequences_wf: "inner_wf s \<Longrightarrow> inner_wf (fst (ensure_sequences n s))"
  by (cases rule: ensure_sequences_cases [of s n])
    (simp_all add: inner_close_wf inner_wfD inner_wf_sessions_core)

lemma initial_topic_wf:
  "provider_id k = si_provider_id info \<Longrightarrow> topic_wf n info k (initial_topic info k)"
  by (simp add: topic_wf_def topic_core_def initial_topic_def topic_source_def topic_coherent_def snapshot_issued_def)

definition new_session :: "ProviderDescriptor \<Rightarrow> SessionInfo \<Rightarrow> Session_entry" where
  "new_session p info =
     \<lparr>se_info = info, se_topics = bt_collect (map (\<lambda>key. (key, initial_topic info key)) (provider_topics p))\<rparr>"

lemma new_session_member:
  assumes "(k, t) \<in> set (se_topics (new_session p info))"
  shows "t = initial_topic info k \<and> k \<in> set (provider_topics p)"
proof -
  have "bt_get (se_topics (new_session p info)) k = Some t"
    by (rule iffD1 [OF bt_member_get assms]) (simp add: new_session_def bt_inv_collect)
  then have "(k, t) \<in> set (rev (map (\<lambda>key. (key, initial_topic info key)) (provider_topics p)))"
    unfolding new_session_def by (auto simp: bt_get_collect dest!: map_of_SomeD)
  then show ?thesis by auto
qed

lemma new_session_wf:
  assumes "pd_id p = si_provider_id info" and "si_session info = SessionRef run sid"
  shows "session_wf (topic_wf n) run sid (new_session p info)"
proof (rule session_wfI)
  fix k t assume mem: "(k, t) \<in> set (se_topics (new_session p info))"
  then have "provider_id k = si_provider_id info"
    using assms(1) new_session_member by (fastforce simp: provider_topics_def)
  then show "topic_wf n (se_info (new_session p info)) k t"
    using new_session_member [OF mem] initial_topic_wf by (simp add: new_session_def)
qed (simp_all add: new_session_def assms bt_inv_collect)

lemma insert_session_wf:
  assumes wf: "inner_wf s" and run: "\<not> in_stopped s"
    and "session_wf (topic_wf (in_sequence s)) (in_run_id s) sid se"
  shows "inner_wf (s\<lparr>in_sessions := bt_insert sid se (in_sessions s)\<rparr>)"
proof (rule inner_wfI)
  have inv: "bt_inv (bt_insert sid se (in_sessions s))"
    using inner_wfD(2) [OF wf] by (simp add: sessions_wf_inv bt_inv_insert)
  show "sessions_wf (topic_wf (in_sequence (s\<lparr>in_sessions := bt_insert sid se (in_sessions s)\<rparr>)))
      (s\<lparr>in_sessions := bt_insert sid se (in_sessions s)\<rparr>)"
  proof (rule sessions_wfI)
    fix sid' se'
    assume "(sid', se') \<in> set (in_sessions (s\<lparr>in_sessions := bt_insert sid se (in_sessions s)\<rparr>))"
    then have "bt_get (bt_insert sid se (in_sessions s)) sid' = Some se'"
      using inv by (simp add: bt_member_get)
    then show "session_wf (topic_wf (in_sequence (s\<lparr>in_sessions := bt_insert sid se (in_sessions s)\<rparr>)))
        (in_run_id (s\<lparr>in_sessions := bt_insert sid se (in_sessions s)\<rparr>)) sid' se'"
      using assms(3) sessions_wf_get [OF inner_wfD(2) [OF wf]] by (auto simp: bt_get_insert split: if_splits)
  qed (use inv in simp)
qed (use wf run in \<open>simp_all add: inner_wf_def queues_wf_def stopped_idle_def\<close>)

lemma add_session_cases:
  obtains (unregistered) "add_session pc info s = (s, Err (invalid ''unregistered session provider''))"
      "\<not> (\<exists>p \<in> set (providers (in_catalog s)). pd_id p = si_provider_id info)"
    | (refused) n where "add_session pc info s = (fst (ensure_sequences n s), Ok ())" "\<not> snd (ensure_sequences n s)"
    | (added) p where "p \<in> set (providers (in_catalog s))" "pd_id p = si_provider_id info" "\<not> in_stopped s"
        "unat (in_sequence s) + (1 + length (pd_capabilities p)) < 2 ^ 64"
        "add_session pc info s =
           (fold (inner_emit pc)
              (SessionStarted info # map (\<lambda>(_, t). TopicChanged (tp_state t)) (se_topics (new_session p info)))
              (s\<lparr>in_sessions := bt_insert (session_id (si_session info)) (new_session p info) (in_sessions s)\<rparr>),
            Ok ())"
proof (cases "find (\<lambda>p. pd_id p = si_provider_id info) (providers (in_catalog s))")
  case None
  then have "add_session pc info s = (s, Err (invalid ''unregistered session provider''))"
    by (simp add: add_session_def)
  then show ?thesis using None by (intro unregistered) (auto simp: find_None_iff)
next
  case (Some p)
  note found = find_Some_in_set [OF Some]
  show ?thesis
  proof (cases rule: ensure_sequences_cases [of s "1 + length (pd_capabilities p)"])
    case reserved
    then show ?thesis
      using Some found by (intro added [of p]) (simp_all add: add_session_def new_session_def Let_def)
  qed (use Some refused [of "1 + length (pd_capabilities p)"] in \<open>simp_all add: add_session_def\<close>)
qed

lemma add_session_wf:
  assumes wf: "inner_wf s" and ref: "run_id (si_session info) = in_run_id s"
  shows "inner_wf (fst (add_session pc info s))"
proof (cases rule: add_session_cases [of pc info s])
  case (added p)
  have "session_wf (topic_wf (in_sequence s)) (in_run_id s) (session_id (si_session info)) (new_session p info)"
    by (rule new_session_wf) (simp_all add: added(2) ref [symmetric])
  then show ?thesis
    unfolding added(5) fst_conv by (intro emits_wf insert_session_wf wf added(3))
qed (simp_all add: wf ensure_sequences_wf)

lemma add_session_identity: "same_identity s (fst (add_session pc info s))"
proof (cases rule: add_session_cases [of pc info s])
  case (refused n)
  then show ?thesis
    by (cases rule: ensure_sequences_cases [of s n]) (simp_all add: close_identity)
next
  case (added p)
  show ?thesis
    unfolding added(5) fst_conv
    by (rule same_identity_trans [OF _ emits_identity]) (simp add: same_identity_def)
qed simp

lemma add_sessions_wf:
  assumes "inner_wf s" and "\<forall>(sid, info) \<in> set ss. run_id (si_session info) = in_run_id s"
  shows "inner_wf (fst (add_sessions pc ss s))"
  using assms
proof (induction ss arbitrary: s)
  case (Cons x ss)
  obtain sid info where x: "x = (sid, info)" by (cases x)
  obtain s' r where add: "add_session pc info s = (s', r)" by (cases "add_session pc info s")
  have "inner_wf s'" and "in_run_id s' = in_run_id s"
    using add_session_wf [of s info pc] add_session_identity [of s pc info] Cons.prems x add
    by (simp_all add: same_identity_def)
  then show ?case
    using Cons.IH [of s] Cons.IH [of s'] Cons.prems x add by (cases r) simp_all
qed simp

lemma remove_session_wf:
  assumes wf: "inner_wf s"
  shows "inner_wf (s\<lparr>in_sessions := bt_remove sid (in_sessions s)\<rparr>)"
proof -
  have keep: "sessions_wf P (s\<lparr>in_sessions := bt_remove sid (in_sessions s)\<rparr>)" if "sessions_wf P s" for P
  proof (rule sessions_wfI)
    have inv: "bt_inv (bt_remove sid (in_sessions s))"
      using that by (simp add: sessions_wf_inv bt_inv_remove)
    then show "bt_inv (in_sessions (s\<lparr>in_sessions := bt_remove sid (in_sessions s)\<rparr>))" by simp
    fix sid' se assume "(sid', se) \<in> set (in_sessions (s\<lparr>in_sessions := bt_remove sid (in_sessions s)\<rparr>))"
    then have "bt_get (in_sessions s) sid' = Some se"
      using bt_member_get [OF inv] by (auto simp: bt_get_remove split: if_splits)
    then show "session_wf P (in_run_id (s\<lparr>in_sessions := bt_remove sid (in_sessions s)\<rparr>)) sid' se"
      using sessions_wf_get [OF that] by simp
  qed
  show ?thesis
    by (rule inner_wfI) (use wf keep in \<open>simp_all add: inner_wf_def queues_wf_def stopped_idle_def\<close>)
qed

lemma finish_subscribers_wf:
  assumes wf: "inner_wf s"
  shows "inner_wf (finish_session_subscribers r s)"
proof -
  let ?own = "\<lambda>sb. sel_sessions (sb_selection sb) = Session_only r"
  let ?qs = "fold (\<lambda>(_, sb) qs. if ?own sb then bt_update (sb_queue sb) (queue_finish SessionEnded_end False) qs else qs)
               (in_subscribers s) (in_queues s)"
  have "queues_wf (s\<lparr>in_queues := ?qs\<rparr>)"
    by (rule queues_wf_fold [OF inner_wfD(3) [OF wf]]) (rule queue_good_finish)
  then have "inner_wf (s\<lparr>in_queues := ?qs\<rparr>)"
    using wf by (simp add: inner_wf_def stopped_idle_def sessions_wf_def)
  moreover have "finish_session_subscribers r s =
      s\<lparr>in_queues := ?qs\<rparr>\<lparr>in_subscribers := bt_retain (\<lambda>_ sb. \<not> ?own sb) (in_subscribers (s\<lparr>in_queues := ?qs\<rparr>))\<rparr>"
    by (rule Inner.equality) (simp_all add: finish_session_subscribers_def Let_def)
  ultimately show ?thesis by (simp only: inner_wf_retain)
qed

lemma finish_subscribers_sel [simp]:
  "in_sessions (finish_session_subscribers r s) = in_sessions s"
  "in_run_id (finish_session_subscribers r s) = in_run_id s"
  "in_stopped (finish_session_subscribers r s) = in_stopped s"
  "in_sequence (finish_session_subscribers r s) = in_sequence s"
  "in_runtime (finish_session_subscribers r s) = in_runtime s"
  "in_catalog (finish_session_subscribers r s) = in_catalog s"
  "in_message_bytes (finish_session_subscribers r s) = in_message_bytes s"
  "in_next_subscription (finish_session_subscribers r s) = in_next_subscription s"
  "in_revision (finish_session_subscribers r s) = in_revision s"
  by (simp_all add: finish_session_subscribers_def Let_def)

lemma end_session_wf: "inner_wf s \<Longrightarrow> inner_wf (end_session pc status sid s)"
  by (auto simp: end_session_def Let_def split: option.splits
      intro!: finish_subscribers_wf remove_session_wf emit_wf)

lemma end_sessions_wf: "inner_wf s \<Longrightarrow> inner_wf (fold (end_session pc status) ids s)"
  by (induction ids arbitrary: s) (simp_all add: end_session_wf)

lemma end_session_identity: "same_identity s (end_session pc status sid s)"
  using emit_identity [unfolded same_identity_def]
  by (simp add: end_session_def Let_def same_identity_def split: option.splits)


subsection \<open>Nothing goes back\<close>

text \<open>
  How one topic entry may change while its session lives: its source stays, its generation and
  epoch never decrease, and an entry that is demanded under an unchanged epoch was demanded all
  along, in the same generation. This is what lets a poll ticket detect that demand stopped and
  resumed while the provider was reading.
\<close>

definition topic_ord :: "Topic_entry \<Rightarrow> Topic_entry \<Rightarrow> bool" where
  "topic_ord t t' \<longleftrightarrow>
     ts_source (tp_state t') = ts_source (tp_state t)
     \<and> ts_generation (tp_state t) \<le> ts_generation (tp_state t') \<and> tp_epoch t \<le> tp_epoch t'"

definition topic_le :: "Topic_entry \<Rightarrow> Topic_entry \<Rightarrow> bool" where
  "topic_le t t' \<longleftrightarrow>
     topic_ord t t'
     \<and> (tp_epoch t' = tp_epoch t \<and> tp_demanded t' \<longrightarrow>
          tp_demanded t \<and> ts_generation (tp_state t') = ts_generation (tp_state t))"

definition topics_rel ::
  "(Topic_entry \<Rightarrow> Topic_entry \<Rightarrow> bool) \<Rightarrow> (TopicRef, Topic_entry) btree \<Rightarrow> (TopicRef, Topic_entry) btree \<Rightarrow> bool" where
  "topics_rel R = list_all2 (\<lambda>(k, t) (k', t'). k = k' \<and> R t t')"

definition session_rel :: "(Topic_entry \<Rightarrow> Topic_entry \<Rightarrow> bool) \<Rightarrow> Session_entry \<Rightarrow> Session_entry \<Rightarrow> bool" where
  "session_rel R se se' \<longleftrightarrow>
     si_session (se_info se') = si_session (se_info se)
     \<and> si_provider_id (se_info se') = si_provider_id (se_info se)
     \<and> si_game_id (se_info se') = si_game_id (se_info se)
     \<and> topics_rel R (se_topics se) (se_topics se')"

definition sessions_rel ::
  "(Topic_entry \<Rightarrow> Topic_entry \<Rightarrow> bool) \<Rightarrow> (string, Session_entry) btree \<Rightarrow> (string, Session_entry) btree \<Rightarrow> bool" where
  "sessions_rel R = list_all2 (\<lambda>(i, se) (j, se'). i = j \<and> session_rel R se se')"

lemma topic_le_refl [simp]: "topic_le t t"
  by (simp add: topic_le_def topic_ord_def)

lemma topic_le_trans: "topic_le a b \<Longrightarrow> topic_le b c \<Longrightarrow> topic_le a c"
  by (fastforce simp: topic_le_def topic_ord_def dest: order.trans order.antisym)

lemma topics_rel_refl: "(\<And>t. R t t) \<Longrightarrow> topics_rel R ts ts"
  by (simp add: topics_rel_def list_all2_refl case_prod_beta)

lemma topics_rel_trans:
  assumes "\<And>a b c. R a b \<Longrightarrow> R b c \<Longrightarrow> R a c" and "topics_rel R as bs" and "topics_rel R bs cs"
  shows "topics_rel R as cs"
  using assms(2,3) unfolding topics_rel_def
  by (rule list_all2_trans [rotated]) (auto intro: assms(1))

lemma session_rel_refl: "(\<And>t. R t t) \<Longrightarrow> session_rel R se se"
  by (simp add: session_rel_def topics_rel_refl)

lemma sessions_rel_refl: "(\<And>t. R t t) \<Longrightarrow> sessions_rel R ss ss"
  by (simp add: sessions_rel_def list_all2_refl session_rel_refl case_prod_beta)

lemma session_rel_trans:
  assumes "\<And>a b c. R a b \<Longrightarrow> R b c \<Longrightarrow> R a c" and "session_rel R as bs" and "session_rel R bs cs"
  shows "session_rel R as cs"
  using assms(2,3) topics_rel_trans [of R, OF assms(1)] by (auto simp: session_rel_def)

lemma sessions_rel_trans:
  assumes "\<And>a b c. R a b \<Longrightarrow> R b c \<Longrightarrow> R a c" and "sessions_rel R as bs" and "sessions_rel R bs cs"
  shows "sessions_rel R as cs"
  using assms(2,3) unfolding sessions_rel_def
  by (rule list_all2_trans [rotated]) (auto intro: session_rel_trans [of R, OF assms(1)])

lemma sessions_rel_keys: "sessions_rel R ss ss' \<Longrightarrow> map fst ss' = map fst ss"
  unfolding sessions_rel_def by (induction rule: list_all2_induct) auto

lemma sessions_rel_get:
  assumes "sessions_rel R ss ss'" and "bt_get ss sid = Some se"
  shows "\<exists>se'. bt_get ss' sid = Some se' \<and> session_rel R se se'"
  using assms unfolding sessions_rel_def
  by (induction rule: list_all2_induct) (auto split: if_splits)

lemma topics_rel_get:
  assumes "topics_rel R ts ts'" and "bt_get ts k = Some t"
  shows "\<exists>t'. bt_get ts' k = Some t' \<and> R t t'"
  using assms unfolding topics_rel_def
  by (induction rule: list_all2_induct) (auto split: if_splits)

lemma walk_topics_rel:
  "(\<And>t. R t t) \<Longrightarrow> (\<And>k t. R t (visit_entry (f k t))) \<Longrightarrow> topics_rel R ts (fst (walk_topics f ts))"
proof (induction ts)
  case (Cons x ts)
  obtain k t where x: "x = (k, t)" by (cases x)
  show ?case
    using Cons.IH [OF Cons.prems] Cons.prems(2) [of t k] topics_rel_refl [of R ts, OF Cons.prems(1)] x
    by (cases "f k t") (auto simp: topics_rel_def split: prod.splits)
qed (simp add: topics_rel_def)

lemma walk_sessions_rel:
  assumes refl: "\<And>t. R t t" and visit: "\<And>info k t. R t (visit_entry (f info k t))"
  shows "sessions_rel R ss (fst (walk_sessions f ss))"
proof (induction ss)
  case (Cons x ss)
  obtain sid se where x: "x = (sid, se)" by (cases x)
  obtain ts ch ex where topics: "walk_topics (f (se_info se)) (se_topics se) = (ts, ch, ex)"
    by (metis prod_cases3)
  have "session_rel R se (se\<lparr>se_topics := ts\<rparr>)"
    using walk_topics_rel [of R "f (se_info se)" "se_topics se"] refl visit topics by (simp add: session_rel_def)
  then show ?case
    using Cons.IH sessions_rel_refl [of R ss, OF refl] x topics
    by (auto simp: sessions_rel_def Let_def split: prod.splits)
qed (simp add: sessions_rel_def)

lemma sessions_rel_close:
  assumes rel: "sessions_rel R ss (in_sessions s)" and close: "\<And>t t'. R t t' \<Longrightarrow> Q t (close_topic t')"
  shows "sessions_rel Q ss (in_sessions (inner_close e s))"
proof -
  have topics: "topics_rel Q ts (bt_map (\<lambda>_. close_topic) ts')" if "topics_rel R ts ts'" for ts ts'
    using that unfolding topics_rel_def bt_map_def
    by (induction rule: list_all2_induct) (auto intro: close)
  have closed: "session_rel Q se (se'\<lparr>se_topics := bt_map (\<lambda>_. close_topic) (se_topics se')\<rparr>)" if "session_rel R se se'" for se se'
    using that topics by (simp add: session_rel_def)
  have "sessions_rel Q ss (bt_map (\<lambda>_ se. se\<lparr>se_topics := bt_map (\<lambda>_. close_topic) (se_topics se)\<rparr>) (in_sessions s))"
    using rel unfolding sessions_rel_def bt_map_def [of "\<lambda>_ se. se\<lparr>se_topics := bt_map (\<lambda>_. close_topic) (se_topics se)\<rparr>"]
    by (induction rule: list_all2_induct) (auto intro: closed)
  then show ?thesis by (simp add: inner_close_def)
qed

text \<open>
  A transition that keeps every session \<open>evolves\<close> the state; any transition, including the
  arrival and the end of sessions, \<open>advances\<close> it.
\<close>

definition advances :: "Inner \<Rightarrow> Inner \<Rightarrow> bool" where
  "advances s t \<longleftrightarrow>
     in_catalog t = in_catalog s \<and> in_message_bytes t = in_message_bytes s \<and> in_run_id t = in_run_id s
     \<and> in_next_subscription s \<le> in_next_subscription t
     \<and> in_sequence s \<le> in_sequence t \<and> in_revision s \<le> in_revision t
     \<and> (in_stopped s \<longrightarrow> in_stopped t)"

definition evolves :: "Inner \<Rightarrow> Inner \<Rightarrow> bool" where
  "evolves s t \<longleftrightarrow>
     advances s t \<and> in_runtime t = in_runtime s \<and> sessions_rel topic_le (in_sessions s) (in_sessions t)"

lemma advances_refl [simp]: "advances s s"
  by (simp add: advances_def)

lemma advances_trans [trans]: "advances r s \<Longrightarrow> advances s t \<Longrightarrow> advances r t"
  by (auto simp: advances_def)

lemma evolves_refl [simp]: "evolves s s"
  by (simp add: evolves_def sessions_rel_refl)

lemma evolves_trans [trans]: "evolves r s \<Longrightarrow> evolves s t \<Longrightarrow> evolves r t"
  using advances_trans sessions_rel_trans [of topic_le, OF topic_le_trans]
  by (auto simp: evolves_def)

lemma evolves_keys: "evolves s t \<Longrightarrow> map fst (in_sessions t) = map fst (in_sessions s)"
  by (auto simp: evolves_def dest: sessions_rel_keys)

lemma close_topic_le: "topic_ord t t' \<Longrightarrow> topic_le t (close_topic t')"
  by (simp add: topic_le_def topic_ord_def close_topic_def)

lemma topic_ord_refl [simp]: "topic_ord t t"
  by (simp add: topic_ord_def)

lemma close_advances: "advances s (inner_close e s)"
  by (simp add: advances_def inner_close_def saturating_add_ge)

lemma close_after_evolves:
  assumes "sessions_rel topic_ord (in_sessions s) ss'"
  shows "evolves s (inner_close e (s\<lparr>in_sessions := ss'\<rparr>))"
  using close_advances [of "s\<lparr>in_sessions := ss'\<rparr>" e]
    sessions_rel_close [of topic_ord "in_sessions s" "s\<lparr>in_sessions := ss'\<rparr>" topic_le e] assms close_topic_le
  by (simp add: evolves_def advances_def inner_close_def)

lemma close_evolves: "evolves s (inner_close e s)"
  using close_after_evolves [of s "in_sessions s" e] sessions_rel_refl [of topic_ord "in_sessions s"] by simp

lemma emit_evolves: "evolves s (inner_emit pc u s)"
proof (cases rule: emit_cases [of s pc u])
  case running
  then show ?thesis
    by (simp add: evolves_def advances_def same_identity_def sessions_rel_refl word_less_plus_one less_imp_le)
qed (simp_all add: close_evolves)

lemma emits_evolves: "evolves s (fold (inner_emit pc) us s)"
  by (rule emits_induct [where P = "evolves s"]) (auto intro: evolves_trans emit_evolves)

lemma advance_evolves: "evolves s (fst (inner_advance s))"
proof (cases rule: advance_cases [of s])
  case running
  then show ?thesis
    by (simp add: evolves_def advances_def sessions_rel_refl word_less_plus_one less_imp_le)
qed (simp_all add: close_evolves)

lemma bump_evolves: "evolves s (bump_revision c s)"
  by (simp add: evolves_def advances_def sessions_rel_refl bump_revision_def saturating_add_ge)

lemma settle_topic_ord: "topic_ord t (visit_entry (settle_topic d now t))"
  using word_less_plus_one [of "ts_generation (tp_state t)"] word_less_plus_one [of "tp_epoch t"]
  by (auto simp: settle_topic_def topic_ord_def Let_def checked_add_1_Some_iff less_imp_le split: option.splits)


lemma settle_topic_le: "\<not> is_exhausted (settle_topic d now t) \<Longrightarrow> topic_le t (visit_entry (settle_topic d now t))"
  using settle_topic_ord [of t d now]
  by (auto simp: topic_le_def settle_topic_def Let_def checked_add_1_Some_iff split: option.splits if_splits)

lemma expire_topic_ord: "topic_ord t (visit_entry (expire_topic now t))"
  using word_less_plus_one [of "tp_epoch t"]
  by (auto simp: expire_topic_def topic_ord_def Let_def checked_add_1_Some_iff less_imp_le split: option.splits)

lemma expire_topic_le: "\<not> is_exhausted (expire_topic now t) \<Longrightarrow> topic_le t (visit_entry (expire_topic now t))"
  using expire_topic_ord [of t now]
  by (auto simp: topic_le_def expire_topic_def Let_def checked_add_1_Some_iff split: option.splits if_splits)

lemma walk_complete_rel:
  assumes walk: "walk_sessions f ss = (ss', changes, False)" and refl: "\<And>t. R t t"
    and visit: "\<And>info k t. \<not> is_exhausted (f info k t) \<Longrightarrow> R t (visit_entry (f info k t))"
  shows "sessions_rel R ss ss'"
proof -
  define g where "g = (\<lambda>info k t. if is_exhausted (f info k t) then Visited t None else f info k t)"
  note complete = walk_sessions_complete [OF walk]
  have "bt_map (\<lambda>k t. visit_entry (f (se_info se) k t)) (se_topics se)
      = bt_map (\<lambda>k t. visit_entry (g (se_info se) k t)) (se_topics se)" if "(sid, se) \<in> set ss" for sid se
    using complete that by (fastforce simp: bt_map_def g_def)
  then have same: "ss' = bt_map (\<lambda>_. visit_session g) ss"
    using complete by (auto simp: bt_map_def [of "\<lambda>_. visit_session _"] visit_session_def)
  have "topics_rel R ts (bt_map (\<lambda>k t. visit_entry (g info k t)) ts)" for info ts
    using refl visit by (induction ts) (auto simp: topics_rel_def bt_map_def g_def)
  then have "session_rel R se (visit_session g se)" for se
    by (simp add: session_rel_def visit_session_def)
  then show ?thesis
    unfolding same sessions_rel_def bt_map_def by (induction ss) auto
qed

lemma walked_evolves:
  assumes walk: "walk_sessions f (in_sessions s) = (ss', changes, False)"
    and "\<And>info k t. \<not> is_exhausted (f info k t) \<Longrightarrow> topic_le t (visit_entry (f info k t))"
  shows "evolves s (fold (inner_emit pc) changes (bump_revision changes (s\<lparr>in_sessions := ss'\<rparr>)))"
proof -
  have "sessions_rel topic_le (in_sessions s) ss'"
    by (rule walk_complete_rel [OF walk]) (use assms(2) in auto)
  then have "evolves s (s\<lparr>in_sessions := ss'\<rparr>)" by (simp add: evolves_def advances_def)
  then show ?thesis using evolves_trans bump_evolves emits_evolves by blast
qed

lemma walk_closed_evolves:
  assumes "walk_sessions f (in_sessions s) = (ss', changes, ex)"
    and "\<And>info k t. topic_ord t (visit_entry (f info k t))"
  shows "evolves s (inner_close e (s\<lparr>in_sessions := ss'\<rparr>))"
  using walk_sessions_rel [of topic_ord f "in_sessions s"] assms by (simp add: close_after_evolves)

lemma retain_evolves: "evolves s (retain_live s)"
  by (simp add: evolves_def advances_def sessions_rel_refl)

lemma settle_turn_evolves: "evolves s (fst (settle_turn pc now s))"
proof (rule evolves_trans [OF retain_evolves], cases rule: settle_turn_cases [of s now pc])
  case (exhausted ss' changes)
  then show "evolves (retain_live s) (fst (settle_turn pc now s))"
    using walk_closed_evolves [of "settle_visit (retain_live s) now" "retain_live s"] settle_topic_ord
    by (simp add: settle_visit_def)
next
  case (visited ss' changes s3)
  then show "evolves (retain_live s) (fst (settle_turn pc now s))"
    using walked_evolves [of "settle_visit (retain_live s) now" "retain_live s"] settle_topic_le
    by (simp add: settle_visit_def)
qed

lemma settle_evolves: "evolves s (inner_settle pc now s)"
  by (rule settle_induct [where P = "evolves s"]) (auto intro: evolves_trans settle_turn_evolves)

lemma expire_evolves: "evolves s (inner_expire pc now s)"
proof (cases rule: expire_cases [of now s pc])
  case (exhausted ss' changes)
  then show ?thesis using walk_closed_evolves [OF exhausted(1)] expire_topic_ord by simp
next
  case (visited ss' changes)
  then show ?thesis
    using evolves_trans [OF walked_evolves [OF visited(1)] settle_evolves] expire_topic_le by simp
qed

lemma evolves_advances: "evolves s t \<Longrightarrow> advances s t"
  by (simp add: evolves_def)


subsection \<open>Following the host\<close>

definition observed_ids :: "HostStatus \<Rightarrow> string set" where
  "observed_ids status = set (List.map_filter observed_session (hs_targets status))"

definition follows_host :: "Inner \<Rightarrow> bool" where
  "follows_host s \<longleftrightarrow> in_stopped s \<or> fst ` set (in_sessions s) = observed_ids (in_runtime s)"

lemma bt_collect_keys: "fst ` set (bt_collect kvs) = fst ` set kvs"
  using bt_get_none_iff [of "bt_collect kvs"] by (auto simp: bt_get_collect map_of_eq_None_iff)

lemma bt_remove_keys: "fst ` set (bt_remove k m) = fst ` set m - {k}"
proof (rule set_eqI)
  show "x \<in> fst ` set (bt_remove k m) \<longleftrightarrow> x \<in> fst ` set m - {k}" for x
    using bt_get_none_iff [of "bt_remove k m" x] bt_get_none_iff [of m x]
    by (cases "x = k") (auto simp: bt_get_remove)
qed

lemma incoming_keys: "fst ` set (incoming_sessions s status) = observed_ids status"
  by (force simp: incoming_sessions_def bt_collect_keys observed_ids_def List.map_filter_def)

lemma incoming_run:
  assumes "(sid, info) \<in> set (incoming_sessions s status)"
  shows "si_session info = SessionRef (in_run_id s) sid"
proof -
  have "bt_get (incoming_sessions s status) sid = Some info"
    by (rule iffD1 [OF bt_member_get assms]) (simp add: incoming_sessions_def bt_inv_collect)
  then show ?thesis
    by (auto simp: incoming_sessions_def bt_get_collect List.map_filter_def incoming_info_def dest!: map_of_SomeD)
qed

lemma incoming_ids: "\<forall>(sid, info) \<in> set (incoming_sessions s status). session_id (si_session info) = sid"
  by (auto simp: incoming_run)

lemma end_session_keys:
  "fst ` set (in_sessions (end_session pc status sid s)) = fst ` set (in_sessions s) - {sid}"
proof (cases "bt_get (in_sessions s) sid")
  case None
  then have "end_session pc status sid s = s" by (simp add: end_session_def)
  then show ?thesis using None by (simp add: bt_get_none_iff)
next
  case (Some se)
  let ?u = "SessionEnded (si_session (se_info se)) (end_reason s status sid)"
  have keys: "fst ` set (in_sessions (inner_emit pc ?u s)) = fst ` set (in_sessions s)"
    using arg_cong [OF evolves_keys [OF emit_evolves [of s pc ?u]], of set] by simp
  have "in_sessions (end_session pc status sid s) = bt_remove sid (in_sessions (inner_emit pc ?u s))"
    using Some by (simp add: end_session_def Let_def)
  then show ?thesis by (simp only: bt_remove_keys keys)
qed

lemma end_sessions_keys:
  "fst ` set (in_sessions (fold (end_session pc status) ids s)) = fst ` set (in_sessions s) - set ids"
  by (induction ids arbitrary: s) (auto simp: end_session_keys)

lemma end_session_advances: "advances s (end_session pc status sid s)"
  using evolves_advances [OF emit_evolves]
  by (simp add: end_session_def Let_def advances_def split: option.splits)

lemma end_sessions_advances: "advances s (fold (end_session pc status) ids s)"
  by (induction ids arbitrary: s) (auto intro: advances_trans end_session_advances)

lemma add_session_advances: "advances s (fst (add_session pc info s))"
proof (cases rule: add_session_cases [of pc info s])
  case (refused n)
  then show ?thesis
    by (cases rule: ensure_sequences_cases [of s n]) (simp_all add: close_advances)
next
  case (added p)
  show ?thesis
    unfolding added(5) fst_conv
    by (rule advances_trans [OF _ evolves_advances [OF emits_evolves]]) (simp add: advances_def)
qed simp

lemma add_sessions_advances: "advances s (fst (add_sessions pc ss s))"
proof (induction ss arbitrary: s)
  case (Cons x ss)
  obtain sid info where x: "x = (sid, info)" by (cases x)
  show ?case
    using Cons.IH add_session_advances [of s pc info] x
    by (auto split: prod.splits result.splits intro: advances_trans)
qed simp

lemma bt_insert_keys: "fst ` set (bt_insert k v m) = insert k (fst ` set m)"
  by (rule set_bt_insert)

lemma add_session_keys:
  assumes "add_session pc info s = (s', Ok ())"
  shows "in_stopped s' \<or> fst ` set (in_sessions s') = insert (session_id (si_session info)) (fst ` set (in_sessions s))"
proof (cases rule: add_session_cases [of pc info s])
  case (refused n)
  then show ?thesis
    using assms by (cases rule: ensure_sequences_cases [of s n]) simp_all
next
  case (added p)
  then show ?thesis
    using assms
      arg_cong [OF evolves_keys [OF emits_evolves [of "s\<lparr>in_sessions := bt_insert (session_id (si_session info))
        (new_session p info) (in_sessions s)\<rparr>" pc
        "SessionStarted info # map (\<lambda>(_, t). TopicChanged (tp_state t)) (se_topics (new_session p info))"]], of set]
    by (simp add: bt_insert_keys)
qed (use assms in simp)

lemma add_sessions_keys:
  assumes "add_sessions pc ss s = (s', Ok ())" and "\<forall>(sid, info) \<in> set ss. session_id (si_session info) = sid"
  shows "in_stopped s' \<or> fst ` set (in_sessions s') = fst ` set (in_sessions s) \<union> fst ` set ss"
  using assms
proof (induction ss arbitrary: s)
  case (Cons x ss)
  obtain sid info where x: "x = (sid, info)" by (cases x)
  show ?case
  proof (cases "bt_get (in_sessions s) sid")
    case (Some se)
    then have "sid \<in> fst ` set (in_sessions s)" using bt_get_none_iff [of "in_sessions s" sid] by auto
    then show ?thesis using Cons.IH [of s] Cons.prems x Some by auto
  next
    case None
    then obtain s1 where add: "add_session pc info s = (s1, Ok ())" and rest: "add_sessions pc ss s1 = (s', Ok ())"
      using Cons.prems(1) x by (auto split: prod.splits result.splits)
    have "in_stopped s'" if "in_stopped s1"
      using add_sessions_advances [of s1 pc ss] rest that by (simp add: advances_def)
    moreover have "in_stopped s' \<or> fst ` set (in_sessions s') = fst ` set (in_sessions s1) \<union> fst ` set ss"
      by (rule Cons.IH [OF rest]) (use Cons.prems(2) in simp)
    moreover have "session_id (si_session info) = sid" using Cons.prems(2) x by simp
    ultimately show ?thesis
      using add_session_keys [OF add] by (elim disjE) (simp_all add: x)
  qed
qed simp

lemma sync_cases:
  obtains (unchanged) "in_stopped s \<or> in_runtime s = status" "sync_runtime pc now status s = (s, Ok ())"
    | (failed) s1 s2 e where "\<not> in_stopped s" "in_runtime s \<noteq> status"
      "s1 = fold (end_session pc status)
         (filter (\<lambda>sid. \<not> bt_contains (incoming_sessions s status) sid) (bt_keys (in_sessions s))) s"
      "add_sessions pc (incoming_sessions s status) s1 = (s2, Err e)"
      "sync_runtime pc now status s = (s2, Err e)"
    | (followed) s1 s2 where "\<not> in_stopped s" "in_runtime s \<noteq> status"
      "s1 = fold (end_session pc status)
         (filter (\<lambda>sid. \<not> bt_contains (incoming_sessions s status) sid) (bt_keys (in_sessions s))) s"
      "add_sessions pc (incoming_sessions s status) s1 = (s2, Ok ())"
      "sync_runtime pc now status s =
         (inner_settle pc now (fst (inner_advance (s2\<lparr>in_runtime := status\<rparr>))), Ok ())"
proof -
  let ?s1 = "fold (end_session pc status)
         (filter (\<lambda>sid. \<not> bt_contains (incoming_sessions s status) sid) (bt_keys (in_sessions s))) s"
  obtain s2 r where add: "add_sessions pc (incoming_sessions s status) ?s1 = (s2, r)"
    by (cases "add_sessions pc (incoming_sessions s status) ?s1")
  show ?thesis
  proof (cases "in_stopped s \<or> in_runtime s = status")
    case True
    then show ?thesis by (intro unchanged) (simp_all add: sync_runtime_def)
  next
    case False
    show ?thesis
    proof (cases r)
      case (Ok u)
      then show ?thesis
        using False add by (intro followed [of ?s1 s2]) (simp_all add: sync_runtime_def)
    next
      case (Err e)
      then show ?thesis
        using False add by (intro failed [of ?s1 s2 e]) (simp_all add: sync_runtime_def)
    qed
  qed
qed

lemma sync_added_wf:
  assumes wf: "inner_wf s" and "s1 = fold (end_session pc status) ids s"
    and "add_sessions pc (incoming_sessions s status) s1 = (s2, r)"
  shows "inner_wf s2"
proof -
  have "in_run_id s1 = in_run_id s"
    using end_sessions_advances [of s pc status ids] assms(2) by (simp add: advances_def)
  then have "inner_wf (fst (add_sessions pc (incoming_sessions s status) s1))"
    using assms(2) wf incoming_run by (intro add_sessions_wf) (auto simp: end_sessions_wf)
  then show ?thesis using assms(3) by simp
qed

lemma runtime_wf: "inner_wf s \<Longrightarrow> inner_wf (s\<lparr>in_runtime := status\<rparr>)"
  by (simp add: inner_wf_def queues_wf_def stopped_idle_def sessions_wf_def)

lemma sync_wf:
  assumes wf: "inner_wf s"
  shows "inner_wf (fst (sync_runtime pc now status s))"
proof (cases rule: sync_cases [where s = s and pc = pc and status = status and now = now])
  case (followed s1 s2)
  then show ?thesis
    using sync_added_wf [OF wf followed(3,4)] by (simp add: settle_wf advance_wf runtime_wf)
qed (use wf sync_added_wf in auto)

lemma sync_settled:
  assumes wf: "inner_wf s" and "settled s" and "sync_runtime pc now status s = (s', Ok ())"
  shows "settled s'"
proof (cases rule: sync_cases [where s = s and pc = pc and status = status and now = now])
  case (followed s1 s2)
  have "settled (inner_settle pc now (fst (inner_advance (s2\<lparr>in_runtime := status\<rparr>))))"
    by (intro settle_settled advance_wf runtime_wf sync_added_wf [OF wf followed(3,4)])
  then show ?thesis using followed(5) assms(3) by simp
qed (use assms in auto)

lemma sync_advances: "advances s (fst (sync_runtime pc now status s))"
proof -
  have added: "advances s s2" if "s1 = fold (end_session pc status) ids s"
    "add_sessions pc (incoming_sessions s status) s1 = (s2, r)" for s1 s2 r ids
    using end_sessions_advances [of s pc status ids] add_sessions_advances [of s1 pc "incoming_sessions s status"] that
    by (auto intro: advances_trans)
  show ?thesis
  proof (cases rule: sync_cases [where s = s and pc = pc and status = status and now = now])
    case (followed s1 s2)
    have "advances s (s2\<lparr>in_runtime := status\<rparr>)"
      using added [OF followed(3,4)] by (simp add: advances_def)
    also have "advances (s2\<lparr>in_runtime := status\<rparr>) (fst (sync_runtime pc now status s))"
      using advances_trans [OF evolves_advances [OF advance_evolves] evolves_advances [OF settle_evolves]]
      by (simp add: followed(5))
    finally show ?thesis .
  qed (use added in auto)
qed

lemma evolves_follows: "evolves s t \<Longrightarrow> follows_host s \<Longrightarrow> follows_host t"
  using arg_cong [OF evolves_keys [of s t], of set]
  by (auto simp: follows_host_def evolves_def advances_def)

lemma sync_follows:
  assumes "follows_host s" and sync: "sync_runtime pc now status s = (s', Ok ())"
  shows "follows_host s' \<and> (in_stopped s' \<or> in_runtime s' = status)"
proof (cases rule: sync_cases [where s = s and pc = pc and status = status and now = now])
  case (followed s1 s2)
  let ?ended = "filter (\<lambda>sid. \<not> bt_contains (incoming_sessions s status) sid) (bt_keys (in_sessions s))"
  have ended: "set ?ended = fst ` set (in_sessions s) - observed_ids status"
    unfolding incoming_keys [of s status, symmetric] by (auto simp: bt_get_none_iff)
  have "in_stopped s2 \<or> fst ` set (in_sessions s2) = fst ` set (in_sessions s1) \<union> observed_ids status"
    using add_sessions_keys [OF followed(4) incoming_ids] by (simp only: incoming_keys)
  moreover have "fst ` set (in_sessions s1) \<union> observed_ids status = observed_ids status"
    unfolding followed(3) end_sessions_keys ended by blast
  ultimately have "in_stopped s2 \<or> fst ` set (in_sessions s2) = observed_ids status" by simp
  then have "follows_host (s2\<lparr>in_runtime := status\<rparr>)" by (simp add: follows_host_def)
  moreover have step: "evolves (s2\<lparr>in_runtime := status\<rparr>) s'"
    using evolves_trans [OF advance_evolves settle_evolves] followed(5) sync by simp
  ultimately show ?thesis
    using evolves_follows [OF step] step by (simp add: evolves_def)
qed (use assms in \<open>auto simp: follows_host_def\<close>)

end
