(* ===== verification/Poll_Batch.thy ===== *)
theory Poll_Batch
  imports Service_Catalog
begin

section \<open>Staged provider output\<close>

text \<open>
  \<open>crates/wf-observer-cli/src/service/batch.rs\<close>: what a provider publishes during one poll is
  staged in a \<open>PollBatch\<close>, outside the service lock. Every call checks the capability against
  the manifest and the byte budget; a rejected call marks the batch failed, and accepted resets
  survive it.

  Two values are parameters: \<open>to_string\<close> is \<open>serde_json::to_string\<close> on the provider's JSON
  values (\<open>None\<close> on error), and \<open>op_size\<close> is \<open>size_of::<Operation>()\<close>.
\<close>

definition MAX_BATCH_BYTES :: usize where
  "MAX_BATCH_BYTES = 32 * 1024 * 1024"

datatype Operation =
    Op_Reset TopicRef
  | Op_Snapshot TopicRef JsonPayload
  | Op_Event TopicRef JsonPayload
  | Op_Health TopicRef CapabilityHealth

record Pending =
  pn_ops :: "Operation list"
  pn_resets :: "TopicRef list"
  pn_game_build :: "string option"
  pn_bytes :: usize
  pn_failed :: bool

record PollBatch =
  pb_manifest :: ProviderManifest
  pb_pending :: Pending

type_synonym sink_result = "PollBatch \<times> (unit, ProviderError) result"

definition batch_new :: "ProviderManifest \<Rightarrow> PollBatch" where
  "batch_new manifest =
     \<lparr>pb_manifest = manifest,
      pb_pending = \<lparr>pn_ops = [], pn_resets = [], pn_game_build = None, pn_bytes = 0, pn_failed = False\<rparr>\<rparr>"

definition reset_intents :: "PollBatch \<Rightarrow> TopicRef list" where
  "reset_intents b = pn_resets (pb_pending b)"

definition batch_reject :: "PollBatch \<Rightarrow> sink_result" where
  "batch_reject b =
     (b\<lparr>pb_pending := (pb_pending b)\<lparr>pn_failed := True\<rparr>\<rparr>,
      Err (Failed_provider ''publication rejected by host''))"

definition batch_game_build :: "string option \<Rightarrow> PollBatch \<Rightarrow> sink_result" where
  "batch_game_build build b =
     (if (case build of Some value \<Rightarrow> length value > 256 | None \<Rightarrow> False) then batch_reject b
      else (b\<lparr>pb_pending := (pb_pending b)\<lparr>pn_game_build := build\<rparr>\<rparr>, Ok ()))"

definition declared :: "ProviderManifest \<Rightarrow> SdkCapability \<Rightarrow> bool" where
  "declared manifest cap \<longleftrightarrow>
     list_ex (\<lambda>c. sc_topic c = sc_topic cap \<and> sc_schema_version c = sc_schema_version cap
                \<and> sc_snapshots c = sc_snapshots cap \<and> sc_events c = sc_events cap)
       (pm_capabilities manifest)"

definition batch_key :: "PollBatch \<Rightarrow> SdkCapability \<Rightarrow> TopicRef option" where
  "batch_key b cap =
     (if declared (pb_manifest b) cap
      then Some (TopicRef (pm_id (pb_manifest b)) (sc_topic cap) (sc_schema_version cap))
      else None)"

fun op_key :: "Operation \<Rightarrow> TopicRef" where
  "op_key (Op_Reset k) = k"
| "op_key (Op_Snapshot k _) = k"
| "op_key (Op_Event k _) = k"
| "op_key (Op_Health k _) = k"

definition batch_push :: "usize \<Rightarrow> Operation \<Rightarrow> usize \<Rightarrow> PollBatch \<Rightarrow> sink_result" where
  "batch_push op_size operation payload_bytes b =
     (let key = op_key operation;
          bytes = payload_bytes + op_size + length (provider_id key) + length (topic key);
          pending = pb_pending b
      in if bytes > MAX_BATCH_BYTES - pn_bytes pending
         then (b\<lparr>pb_pending := pending\<lparr>pn_failed := True\<rparr>\<rparr>,
               Err (Failed_provider ''publication batch exceeds staging byte limit''))
         else (b\<lparr>pb_pending := pending\<lparr>pn_bytes := pn_bytes pending + bytes,
                                        pn_ops := pn_ops pending @ [operation]\<rparr>\<rparr>, Ok ()))"

definition batch_payload :: "('v \<Rightarrow> string option) \<Rightarrow> 'v \<Rightarrow> (JsonPayload, ProviderError) result" where
  "batch_payload to_string value = ok_or (to_string value) (Failed_provider ''invalid JSON publication'')"

definition events_reset :: "SdkCapability \<Rightarrow> PollBatch \<Rightarrow> sink_result" where
  "events_reset cap b =
     (case batch_key b cap of
        None \<Rightarrow> batch_reject b
      | Some key \<Rightarrow>
        (let pending = pb_pending b
         in if key \<in> set (pn_resets pending)
            then (b\<lparr>pb_pending := pending\<lparr>pn_failed := True\<rparr>\<rparr>,
                  Err (Failed_provider ''duplicate topic reset in one poll''))
            else (b\<lparr>pb_pending := pending\<lparr>pn_resets := pn_resets pending @ [key],
                                           pn_ops := pn_ops pending @ [Op_Reset key]\<rparr>\<rparr>, Ok ())))"

definition events_snapshot ::
  "('v \<Rightarrow> string option) \<Rightarrow> usize \<Rightarrow> SdkCapability \<Rightarrow> 'v \<Rightarrow> PollBatch \<Rightarrow> sink_result" where
  "events_snapshot to_string op_size cap value b =
     (case batch_key b cap of
        None \<Rightarrow> batch_reject b
      | Some key \<Rightarrow>
        (if sc_snapshots cap = None then batch_reject b
         else (case batch_payload to_string value of
             Err e \<Rightarrow> (b, Err e)
           | Ok payload \<Rightarrow> batch_push op_size (Op_Snapshot key payload) (length payload) b)))"

definition events_event ::
  "('v \<Rightarrow> string option) \<Rightarrow> usize \<Rightarrow> SdkCapability \<Rightarrow> 'v \<Rightarrow> PollBatch \<Rightarrow> sink_result" where
  "events_event to_string op_size cap value b =
     (case batch_key b cap of
        None \<Rightarrow> batch_reject b
      | Some key \<Rightarrow>
        (if \<not> sc_events cap then batch_reject b
         else (case batch_payload to_string value of
             Err e \<Rightarrow> (b, Err e)
           | Ok payload \<Rightarrow> batch_push op_size (Op_Event key payload) (length payload) b)))"

subsection \<open>Health\<close>

text \<open>
  A string is its UTF-8 bytes, so \<open>chars\<close> cuts it before every byte that is not a continuation
  byte (\<open>10xxxxxx\<close>); on the valid UTF-8 a \<open>String\<close> holds, the pieces are its characters.
\<close>

definition continuation :: "char \<Rightarrow> bool" where
  "continuation c \<longleftrightarrow> 128 \<le> (of_char c :: nat) \<and> (of_char c :: nat) < 192"

function chars :: "string \<Rightarrow> string list" where
  "chars [] = []"
| "chars (c # cs) = (c # takeWhile continuation cs) # chars (dropWhile continuation cs)"
  by pat_completeness auto
termination
  by (relation "measure length") (simp_all add: le_imp_less_Suc length_dropWhile_le)

declare chars.simps(2) [simp del]

definition public_message :: "string \<Rightarrow> string" where
  "public_message message = concat (take 256 (chars message))"

fun wire_failure :: "SdkDependencyFailure \<Rightarrow> DependencyFailure" where
  "wire_failure SdkDep_TargetNotReady = Dep_TargetNotReady"
| "wire_failure SdkDep_UnsupportedBuild = Dep_UnsupportedBuild"
| "wire_failure SdkDep_ReadFailed = Dep_ReadFailed"
| "wire_failure SdkDep_ValidationFailed = Dep_ValidationFailed"
| "wire_failure SdkDep_ProviderFailed = Dep_ProviderFailed"

fun wire_reason :: "SdkUnavailableReason \<Rightarrow> UnavailableReason" where
  "wire_reason SdkTargetNotReady = TargetNotReady"
| "wire_reason SdkUnsupportedBuild = UnsupportedBuild"
| "wire_reason (SdkReadFailed message) = ReadFailed (public_message message)"
| "wire_reason (SdkValidationFailed message) = ValidationFailed (public_message message)"
| "wire_reason (SdkProviderFailed message) = ProviderFailed (public_message message)"
| "wire_reason (SdkDependencyUnavailable dependency f) =
     DependencyUnavailable (public_message dependency) (wire_failure f)"

fun wire_health :: "SdkCapabilityHealth \<Rightarrow> CapabilityHealth" where
  "wire_health SdkAvailable = Available"
| "wire_health (SdkUnavailable reason) = Unavailable (wire_reason reason)"

definition health_update :: "usize \<Rightarrow> SdkCapability \<Rightarrow> SdkCapabilityHealth \<Rightarrow> PollBatch \<Rightarrow> sink_result" where
  "health_update op_size cap health b =
     (case batch_key b cap of
        None \<Rightarrow> batch_reject b
      | Some key \<Rightarrow> batch_push op_size (Op_Health key (wire_health health)) 1024 b)"

subsection \<open>Any sequence of calls\<close>

datatype 'v sink_call =
    Call_Reset SdkCapability
  | Call_Snapshot SdkCapability 'v
  | Call_Event SdkCapability 'v
  | Call_Health SdkCapability SdkCapabilityHealth
  | Call_Build "string option"

fun perform_call :: "('v \<Rightarrow> string option) \<Rightarrow> usize \<Rightarrow> 'v sink_call \<Rightarrow> PollBatch \<Rightarrow> sink_result" where
  "perform_call ts n (Call_Reset cap) b = events_reset cap b"
| "perform_call ts n (Call_Snapshot cap v) b = events_snapshot ts n cap v b"
| "perform_call ts n (Call_Event cap v) b = events_event ts n cap v b"
| "perform_call ts n (Call_Health cap h) b = health_update n cap h b"
| "perform_call ts n (Call_Build build) b = batch_game_build build b"

text \<open>A provider may ignore every error and go on, so a poll is any sequence of calls.\<close>

definition poll_batch :: "('v \<Rightarrow> string option) \<Rightarrow> usize \<Rightarrow> ProviderManifest \<Rightarrow> 'v sink_call list \<Rightarrow> PollBatch" where
  "poll_batch ts n manifest calls = fold (\<lambda>c b. fst (perform_call ts n c b)) calls (batch_new manifest)"

definition declared_key :: "ProviderManifest \<Rightarrow> (SdkCapability \<Rightarrow> bool) \<Rightarrow> TopicRef \<Rightarrow> bool" where
  "declared_key m P key \<longleftrightarrow>
     (\<exists>c \<in> set (pm_capabilities m). P c \<and> key = TopicRef (pm_id m) (sc_topic c) (sc_schema_version c))"

fun op_declared :: "ProviderManifest \<Rightarrow> Operation \<Rightarrow> bool" where
  "op_declared m (Op_Reset k) = declared_key m (\<lambda>_. True) k"
| "op_declared m (Op_Snapshot k _) = declared_key m (\<lambda>c. sc_snapshots c \<noteq> None) k"
| "op_declared m (Op_Event k _) = declared_key m sc_events k"
| "op_declared m (Op_Health k h) = (declared_key m (\<lambda>_. True) k \<and> (h = Available \<or> (\<exists>r. h = Unavailable r)))"

fun op_bytes :: "Operation \<Rightarrow> usize" where
  "op_bytes (Op_Snapshot _ p) = length p"
| "op_bytes (Op_Event _ p) = length p"
| "op_bytes _ = 0"

fun op_reset :: "Operation \<Rightarrow> TopicRef option" where
  "op_reset (Op_Reset k) = Some k"
| "op_reset _ = None"

definition batch_wf :: "PollBatch \<Rightarrow> bool" where
  "batch_wf b \<longleftrightarrow>
     list_all (op_declared (pb_manifest b)) (pn_ops (pb_pending b))
     \<and> List.map_filter op_reset (pn_ops (pb_pending b)) = pn_resets (pb_pending b)
     \<and> distinct (pn_resets (pb_pending b))
     \<and> sum_list (map op_bytes (pn_ops (pb_pending b))) \<le> pn_bytes (pb_pending b)
     \<and> pn_bytes (pb_pending b) \<le> MAX_BATCH_BYTES
     \<and> (case pn_game_build (pb_pending b) of Some v \<Rightarrow> length v \<le> 256 | None \<Rightarrow> True)"

lemma batch_key_declared:
  assumes "batch_key b cap = Some key"
  shows "declared_key (pb_manifest b) (\<lambda>c. sc_snapshots c = sc_snapshots cap \<and> sc_events c = sc_events cap) key"
  using assms unfolding batch_key_def declared_def declared_key_def
  by (auto simp: list_ex_iff split: if_splits)

lemma declared_key_mono: "declared_key m P k \<Longrightarrow> (\<And>c. P c \<Longrightarrow> Q c) \<Longrightarrow> declared_key m Q k"
  by (auto simp: declared_key_def)

lemma batch_wf_new: "batch_wf (batch_new m)"
  by (simp add: batch_wf_def batch_new_def List.map_filter_simps)

lemma batch_wf_failed: "batch_wf (b\<lparr>pb_pending := (pb_pending b)\<lparr>pn_failed := f\<rparr>\<rparr>) = batch_wf b"
  by (simp add: batch_wf_def)

lemma batch_wf_reject: "batch_wf b \<Longrightarrow> batch_wf (fst (batch_reject b))"
  by (simp add: batch_reject_def batch_wf_failed)

lemma map_filter_append: "List.map_filter f (xs @ ys) = List.map_filter f xs @ List.map_filter f ys"
  by (simp add: List.map_filter_def)

lemma batch_wf_push:
  assumes "batch_wf b" and "op_declared (pb_manifest b) op" and "op_reset op = None" and "op_bytes op \<le> n"
  shows "batch_wf (fst (batch_push sz op n b))"
  using assms
  by (auto simp: batch_wf_def batch_push_def Let_def map_filter_append List.map_filter_simps)

lemma batch_wf_reset: "batch_wf b \<Longrightarrow> batch_wf (fst (events_reset cap b))"
  using batch_key_declared [of b cap]
  by (auto simp: events_reset_def Let_def batch_wf_reject batch_wf_failed split: option.splits)
    (auto simp: batch_wf_def map_filter_append List.map_filter_simps intro: declared_key_mono)

lemma batch_wf_snapshot: "batch_wf b \<Longrightarrow> batch_wf (fst (events_snapshot ts n cap v b))"
  using batch_key_declared [of b cap]
  by (auto simp: events_snapshot_def batch_wf_reject intro!: batch_wf_push
      elim!: declared_key_mono split: option.splits result.splits)

lemma batch_wf_event: "batch_wf b \<Longrightarrow> batch_wf (fst (events_event ts n cap v b))"
  using batch_key_declared [of b cap]
  by (auto simp: events_event_def batch_wf_reject intro!: batch_wf_push intro: declared_key_mono
      split: option.splits result.splits)

lemma batch_wf_health: "batch_wf b \<Longrightarrow> batch_wf (fst (health_update n cap h b))"
  using batch_key_declared [of b cap]
  by (cases h) (auto simp: health_update_def batch_wf_reject intro!: batch_wf_push intro: declared_key_mono
      split: option.splits)

lemma batch_wf_build: "batch_wf b \<Longrightarrow> batch_wf (fst (batch_game_build build b))"
  by (auto simp: batch_game_build_def batch_wf_reject batch_wf_def [of "b\<lparr>pb_pending := _\<rparr>"] batch_wf_def [of b]
      split: option.splits)

lemma batch_wf_call: "batch_wf b \<Longrightarrow> batch_wf (fst (perform_call ts n c b))"
  by (cases c) (simp_all add: batch_wf_reset batch_wf_snapshot batch_wf_event batch_wf_health batch_wf_build)

lemma poll_batch_wf: "batch_wf (poll_batch ts n m calls)"
proof -
  have "batch_wf (fold (\<lambda>c b. fst (perform_call ts n c b)) calls b)" if "batch_wf b" for b
    using that by (induction calls arbitrary: b) (simp_all add: batch_wf_call)
  then show ?thesis by (simp add: poll_batch_def batch_wf_new)
qed


lemma call_manifest: "pb_manifest (fst (perform_call ts n c b)) = pb_manifest b"
  by (cases c)
    (auto simp: events_reset_def events_snapshot_def events_event_def health_update_def batch_game_build_def
      batch_reject_def batch_push_def Let_def split: option.splits result.splits)

lemma poll_batch_manifest: "pb_manifest (poll_batch ts n m calls) = m"
proof -
  have "pb_manifest (fold (\<lambda>c b. fst (perform_call ts n c b)) calls b) = pb_manifest b" for b
    by (induction calls arbitrary: b) (simp_all add: call_manifest)
  then show ?thesis by (simp add: poll_batch_def batch_new_def)
qed

text \<open>
  whatever a provider calls during a poll, and however it treats errors, its staged batch
  stays within the staging budget, names only capabilities its manifest declares in the mode
  used, and resets each capability at most once.
\<close>

lemma batch_bounded:
  "let p = pb_pending (poll_batch to_string op_size manifest calls)
   in sum_list (map op_bytes (pn_ops p)) \<le> MAX_BATCH_BYTES
      \<and> list_all (op_declared manifest) (pn_ops p)
      \<and> distinct (pn_resets p)
      \<and> List.map_filter op_reset (pn_ops p) = pn_resets p
      \<and> (case pn_game_build p of Some v \<Rightarrow> length v \<le> 256 | None \<Rightarrow> True)"
  using poll_batch_wf [of to_string op_size manifest calls]
  by (auto simp: batch_wf_def poll_batch_manifest Let_def)

lemma reject_marks:
  "snd (perform_call ts n c b) = Err e \<Longrightarrow> e \<noteq> Failed_provider ''invalid JSON publication'' \<Longrightarrow>
     pn_failed (pb_pending (fst (perform_call ts n c b)))"
  by (cases c)
    (auto simp: events_reset_def events_snapshot_def events_event_def health_update_def batch_game_build_def
      batch_payload_def ok_or_def batch_reject_def batch_push_def Let_def
      split: option.splits result.splits if_splits)

lemma call_keeps: "set (pn_resets (pb_pending b)) \<subseteq> set (pn_resets (pb_pending (fst (perform_call ts n c b))))
    \<and> (pn_failed (pb_pending b) \<longrightarrow> pn_failed (pb_pending (fst (perform_call ts n c b))))"
  by (cases c)
    (auto simp: events_reset_def events_snapshot_def events_event_def health_update_def batch_game_build_def
      batch_reject_def batch_push_def Let_def split: option.splits result.splits)

lemma calls_keep:
  "set (pn_resets (pb_pending b)) \<subseteq> set (pn_resets (pb_pending (fold (\<lambda>c b. fst (perform_call ts n c b)) calls b)))
    \<and> (pn_failed (pb_pending b) \<longrightarrow> pn_failed (pb_pending (fold (\<lambda>c b. fst (perform_call ts n c b)) calls b)))"
proof (induction calls arbitrary: b)
  case (Cons c calls)
  show ?case
    using Cons.IH [of "fst (perform_call ts n c b)"] call_keeps [of b ts n c] by (simp del: subset_code) blast
qed simp

lemma accepted_reset:
  assumes "events_reset cap b = (b', Ok ())"
  shows "TopicRef (pm_id (pb_manifest b)) (sc_topic cap) (sc_schema_version cap) \<in> set (pn_resets (pb_pending b'))"
  using assms
  by (auto simp: events_reset_def batch_key_def batch_reject_def Let_def split: option.splits if_splits)

text \<open>
  an accepted reset survives every later call of the poll, even rejected ones, and a
  rejected call leaves the batch failed for good.
\<close>

lemma batch_resets_survive:
  assumes "b = poll_batch to_string op_size manifest calls"
    and "perform_call to_string op_size c b = (b', r)"
  shows "let final = poll_batch to_string op_size manifest (calls @ c # later)
    in (\<forall>cap. c = Call_Reset cap \<and> r = Ok () \<longrightarrow>
           TopicRef (pm_id manifest) (sc_topic cap) (sc_schema_version cap) \<in> set (reset_intents final))
       \<and> (\<forall>e. r = Err e \<and> e \<noteq> Failed_provider ''invalid JSON publication'' \<longrightarrow> pn_failed (pb_pending final))"
proof -
  have final: "poll_batch to_string op_size manifest (calls @ c # later) =
      fold (\<lambda>c b. fst (perform_call to_string op_size c b)) later b'"
    using assms by (simp add: poll_batch_def)
  have m: "pb_manifest b = manifest" using assms(1) poll_batch_manifest by simp
  show ?thesis
    unfolding final reset_intents_def Let_def
    using calls_keep [of b' to_string op_size later] accepted_reset [of _ b b'] assms(2)
      reject_marks [of to_string op_size c b]
    by (simp add: m) (metis perform_call.simps(1) subsetD)
qed

abbreviation demo_capability :: SdkCapability where
  "demo_capability \<equiv>
     \<lparr>sc_topic = ''t'', sc_schema_version = 1, sc_snapshots = Some Full_delivery, sc_events = False\<rparr>"

abbreviation demo_manifest :: ProviderManifest where
  "demo_manifest \<equiv>
     \<lparr>pm_id = ''p'', pm_name = ''P'', pm_version = ''1'', pm_game = \<lparr>sg_id = ''g'', sg_name = ''G''\<rparr>,
      pm_capabilities = [demo_capability]\<rparr>"

lemmas batch_eval =
  batch_new_def batch_key_def declared_def batch_reject_def batch_push_def batch_payload_def ok_or_def
  events_reset_def events_snapshot_def events_event_def health_update_def batch_game_build_def
  poll_batch_def reset_intents_def MAX_BATCH_BYTES_def

lemma chars_split:
  assumes "\<not> continuation c" and "list_all continuation cs" and "rest = [] \<or> \<not> continuation (hd rest)"
  shows "chars ((c # cs) @ rest) = (c # cs) # chars rest"
proof -
  have "takeWhile continuation (cs @ rest) = cs" "dropWhile continuation (cs @ rest) = rest"
    using assms(2,3) by (cases rest; auto simp: list_all_iff takeWhile_append dropWhile_append)+
  then show ?thesis by (simp add: chars.simps)
qed

lemma concat_chars [simp]: "concat (chars s) = s"
  by (induction s rule: chars.induct) (simp_all add: chars.simps)

lemma chars_pieces:
  assumes "s = [] \<or> \<not> continuation (hd s)"
  shows "list_all (\<lambda>p. \<exists>c cs. p = c # cs \<and> \<not> continuation c \<and> list_all continuation cs) (chars s)"
  using assms
proof (induction s rule: chars.induct)
  case (2 c cs)
  have "dropWhile continuation cs = [] \<or> \<not> continuation (hd (dropWhile continuation cs))"
    using hd_dropWhile [of continuation cs] by blast
  then show ?case
    using 2 by (simp add: chars.simps list_all_iff) (metis set_takeWhileD)
qed simp

lemma chars_concat:
  assumes "list_all (\<lambda>p. \<exists>c cs. p = c # cs \<and> \<not> continuation c \<and> list_all continuation cs) ps"
  shows "chars (concat ps) = ps"
  using assms
proof (induction ps)
  case (Cons p ps)
  then obtain c cs where p: "p = c # cs" "\<not> continuation c" "list_all continuation cs" by auto
  have "concat ps = [] \<or> \<not> continuation (hd (concat ps))"
    using Cons.prems by (cases ps) auto
  then show ?case using chars_split [OF p(2,3)] p(1) Cons by simp
qed simp

text \<open>
  A public message is the first 256 characters of the provider's, cut at a character
  boundary, so it takes at most the 1024 bytes that \<open>update\<close> charges for it.
\<close>

lemma public_message_bounded:
  assumes "m = [] \<or> \<not> continuation (hd m)" and "list_all (\<lambda>c. length c \<le> 4) (chars m)"
  shows "chars (public_message m) = take 256 (chars m)
         \<and> (\<exists>rest. m = public_message m @ rest)
         \<and> length (public_message m) \<le> 1024"
proof (intro conjI)
  have "list_all (\<lambda>p. \<exists>c cs. p = c # cs \<and> \<not> continuation c \<and> list_all continuation cs) (take 256 (chars m))"
    using chars_pieces [OF assms(1)] by (auto simp: list_all_iff dest: in_set_takeD)
  then show "chars (public_message m) = take 256 (chars m)"
    unfolding public_message_def by (rule chars_concat)
  have "m = concat (take 256 (chars m)) @ concat (drop 256 (chars m))"
    by (simp add: concat_append [symmetric] del: concat_append)
  then show "\<exists>rest. m = public_message m @ rest"
    unfolding public_message_def by blast
  have "length (concat ps) \<le> 4 * length ps" if "list_all (\<lambda>c. length c \<le> 4) ps" for ps :: "string list"
    using that by (induction ps) auto
  moreover have "list_all (\<lambda>c. length c \<le> 4) (take 256 (chars m))"
    using assms(2) by (auto simp: list_all_iff dest: in_set_takeD)
  ultimately have "length (concat (take 256 (chars m))) \<le> 4 * length (take 256 (chars m))" by blast
  also have "\<dots> \<le> 1024" by simp
  finally show "length (public_message m) \<le> 1024" unfolding public_message_def .
qed

end
