(* ===== verification/Publication.thy ===== *)
theory Publication
  imports Inner_Lifecycle Poll_Batch
begin

section \<open>Generation-fenced publication\<close>

text \<open>
  \<open>crates/wf-observer-cli/src/service/publication.rs\<close>: a poll starts from a ticket that records
  the demanded topics with their generations and epochs, and its batch is committed only if the
  ticket still describes the session. A commit stages every topic, validates the whole batch
  and reserves its sequence numbers before it changes anything.

  Indexing a map (\<open>topics[&key]\<close>) panics in the code when the key is absent. The model returns
  the state unchanged there; the lemmas show those branches are not taken.
\<close>

definition RETAINED_SNAPSHOT_BYTES :: usize where
  "RETAINED_SNAPSHOT_BYTES = 32 * 1024 * 1024"

subsection \<open>Tickets\<close>

record Demand =
  dm_key :: TopicRef
  dm_generation :: u64
  dm_epoch :: u64

record PollTicket =
  tk_session_id :: string
  tk_topics :: "Demand list"

definition same_demand :: "PollTicket \<Rightarrow> PollTicket \<Rightarrow> bool" where
  "same_demand t previous \<longleftrightarrow>
     tk_session_id t = tk_session_id previous
     \<and> length (tk_topics t) = length (tk_topics previous)
     \<and> list_all (\<lambda>(a, b). dm_key a = dm_key b \<and> dm_generation a = dm_generation b)
         (zip (tk_topics t) (tk_topics previous))"

definition same_generation :: "PollTicket \<Rightarrow> PollTicket \<Rightarrow> TopicRef \<Rightarrow> bool" where
  "same_generation t previous key \<longleftrightarrow>
     (case (find (\<lambda>d. dm_key d = key) (tk_topics t), find (\<lambda>d. dm_key d = key) (tk_topics previous)) of
        (Some a, Some b) \<Rightarrow> dm_generation a = dm_generation b
      | _ \<Rightarrow> False)"

definition rebase_resets :: "TopicRef list \<Rightarrow> PollTicket \<Rightarrow> PollTicket" where
  "rebase_resets resets t =
     t\<lparr>tk_topics := map (\<lambda>d. if dm_key d \<in> set resets
          then d\<lparr>dm_generation := saturating_add (dm_generation d) 1,
                 dm_epoch := saturating_add (dm_epoch d) 1\<rparr>
          else d) (tk_topics t)\<rparr>"

definition current_demand :: "(TopicRef, Topic_entry) btree \<Rightarrow> Demand list" where
  "current_demand topics =
     map (\<lambda>(key, t). \<lparr>dm_key = key, dm_generation = ts_generation (tp_state t), dm_epoch = tp_epoch t\<rparr>)
       (filter (\<lambda>(_, t). tp_demanded t) topics)"

definition poll_ticket :: "Inner \<Rightarrow> string \<Rightarrow> PollTicket option" where
  "poll_ticket s sid =
     (if in_stopped s then None
      else map_option (\<lambda>se. \<lparr>tk_session_id = sid, tk_topics = current_demand (se_topics se)\<rparr>)
             (bt_get (in_sessions s) sid))"

subsection \<open>Discarding a poll\<close>

definition acquisition_failed :: CapabilityHealth where
  "acquisition_failed =
     Unavailable (ProviderFailed ''provider acquisition failed; see local service logs'')"

definition affected_demand ::
  "Session_entry \<Rightarrow> TopicRef list \<Rightarrow> bool \<Rightarrow> Demand \<Rightarrow> (TopicRef \<times> bool) option" where
  "affected_demand se resets failed demand =
     (case bt_get (se_topics se) (dm_key demand) of
        None \<Rightarrow> None
      | Some t \<Rightarrow>
        (if \<not> tp_demanded t \<or> ts_generation (tp_state t) \<noteq> dm_generation demand then None
         else (let reset = dm_key demand \<in> set resets
               in if reset \<or> (failed \<and> tp_epoch t = dm_epoch demand)
                  then Some (dm_key demand, reset) else None)))"

definition discard_affected ::
  "Session_entry \<Rightarrow> PollTicket \<Rightarrow> TopicRef list \<Rightarrow> bool \<Rightarrow> (TopicRef, bool) btree" where
  "discard_affected se ticket resets failed =
     bt_collect (List.map_filter (affected_demand se resets failed) (tk_topics ticket))"

fun update_first :: "('a \<Rightarrow> bool) \<Rightarrow> ('a \<Rightarrow> 'a) \<Rightarrow> 'a list \<Rightarrow> 'a list" where
  "update_first P f [] = []"
| "update_first P f (x # xs) = (if P x then f x # xs else x # update_first P f xs)"

definition discard_topic :: "bool \<Rightarrow> Topic_entry \<Rightarrow> Topic_entry" where
  "discard_topic reset t =
     (let t1 = (if reset
                then t\<lparr>tp_state := (tp_state t)\<lparr>ts_generation := ts_generation (tp_state t) + 1\<rparr>,
                       tp_epoch := tp_epoch t + 1\<rparr>
                else t)
      in t1\<lparr>tp_state := (tp_state t1)\<lparr>ts_health := acquisition_failed, ts_snapshot := None\<rparr>,
            tp_deadline := None\<rparr>)"

definition discard_changes :: "bool \<Rightarrow> Topic_entry \<Rightarrow> SubscriptionUpdate list" where
  "discard_changes reset t =
     (let t' = discard_topic reset t
      in (if reset then [TopicReset (ts_source (tp_state t')) (ts_generation (tp_state t')) SourceChanged] else [])
         @ [TopicChanged (tp_state t')])"

definition discard_step ::
  "TopicRef \<times> bool \<Rightarrow> Session_entry \<times> PollTicket \<times> SubscriptionUpdate list \<Rightarrow>
   Session_entry \<times> PollTicket \<times> SubscriptionUpdate list" where
  "discard_step = (\<lambda>(key, reset) (se, retry, changes).
     (case bt_get (se_topics se) key of
        None \<Rightarrow> (se, retry, changes)
      | Some t \<Rightarrow>
        (let t' = discard_topic reset t;
             retry' = (if reset
               then retry\<lparr>tk_topics := update_first (\<lambda>d. dm_key d = key)
                      (\<lambda>d. d\<lparr>dm_generation := ts_generation (tp_state t'), dm_epoch := tp_epoch t'\<rparr>)
                      (tk_topics retry)\<rparr>
               else retry)
         in (se\<lparr>se_topics := bt_update key (\<lambda>_. t') (se_topics se)\<rparr>, retry',
             changes @ discard_changes reset t))))"

definition discard_poll ::
  "postcard \<Rightarrow> instant \<Rightarrow> PollTicket \<Rightarrow> TopicRef list \<Rightarrow> bool \<Rightarrow> Inner \<Rightarrow> Inner \<times> PollTicket option" where
  "discard_poll pc now ticket resets failed s =
     (if in_stopped s then (s, None)
      else (case bt_get (in_sessions s) (tk_session_id ticket) of
          None \<Rightarrow> (s, None)
        | Some se \<Rightarrow>
          (let affected = discard_affected se ticket resets failed
           in if list_ex (\<lambda>(key, reset). reset \<and>
                   (case bt_get (se_topics se) key of
                      None \<Rightarrow> False
                    | Some t \<Rightarrow> ts_generation (tp_state t) = u64_max \<or> tp_epoch t = u64_max)) affected
              then (inner_close exhausted_end s, None)
              else (case ensure_sequences (length affected + length (filter snd affected)) s of
                  (s', False) \<Rightarrow> (s', None)
                | (s', True) \<Rightarrow>
                  (let (se', retry, changes) = fold discard_step affected (se, ticket, []);
                       s1 = s'\<lparr>in_sessions := bt_update (tk_session_id ticket) (\<lambda>_. se') (in_sessions s')\<rparr>;
                       s2 = inner_settle pc now (fold (inner_emit pc) changes s1)
                   in (s2, (case poll_ticket s2 (tk_session_id ticket) of
                              None \<Rightarrow> None
                            | Some current \<Rightarrow> if same_demand current retry then Some current else None)))))))"

definition fail_poll :: "postcard \<Rightarrow> instant \<Rightarrow> PollTicket \<Rightarrow> Inner \<Rightarrow> Inner" where
  "fail_poll pc now ticket s = fst (discard_poll pc now ticket [] True s)"

subsection \<open>Staging\<close>

record StagedPublication =
  sg_topics :: "(TopicRef, Topic_entry) btree"
  sg_resets :: "TopicRef list"
  sg_events :: "(TopicRef \<times> JsonPayload) list"

definition stage_operation ::
  "instant \<Rightarrow> Operation \<Rightarrow> Topic_entry \<Rightarrow> StagedPublication \<Rightarrow> (StagedPublication, RequestError) result" where
  "stage_operation deadline operation t staged =
     (case operation of
        Op_Reset key \<Rightarrow>
          rbind (ok_or (checked_add (ts_generation (tp_state t)) 1) (invalid ''topic generation exhausted'')) (\<lambda>generation.
          rbind (ok_or (checked_add (tp_epoch t) 1) (invalid ''topic epoch exhausted'')) (\<lambda>epoch.
          Ok (staged\<lparr>sg_topics := bt_insert key
                (t\<lparr>tp_state := (tp_state t)\<lparr>ts_generation := generation, ts_snapshot := None,
                                            ts_health := Initializing\<rparr>,
                   tp_epoch := epoch, tp_deadline := Some deadline\<rparr>) (sg_topics staged),
              sg_events := filter (\<lambda>(old, _). old \<noteq> key) (sg_events staged),
              sg_resets := sg_resets staged @ [key]\<rparr>)))
      | Op_Snapshot key payload \<Rightarrow>
          Ok (staged\<lparr>sg_topics := bt_insert key
                (t\<lparr>tp_state := (tp_state t)\<lparr>ts_health := Available,
                     ts_snapshot := Some \<lparr>de_metadata = \<lparr>md_source = ts_source (tp_state t),
                                            md_generation = ts_generation (tp_state t), md_sequence = 0\<rparr>,
                                          de_payload = payload\<rparr>\<rparr>,
                   tp_deadline := Some deadline\<rparr>) (sg_topics staged)\<rparr>)
      | Op_Event key payload \<Rightarrow>
          Ok (staged\<lparr>sg_topics := bt_insert key t (sg_topics staged),
                     sg_events := sg_events staged @ [(key, payload)]\<rparr>)
      | Op_Health key health \<Rightarrow>
          Ok (staged\<lparr>sg_topics := bt_insert key
                (t\<lparr>tp_state := (tp_state t)\<lparr>ts_health := health,
                     ts_snapshot := (if health = Available then ts_snapshot (tp_state t) else None)\<rparr>,
                   tp_deadline := (if health = Available then Some deadline else None)\<rparr>)
                (sg_topics staged)\<rparr>))"

definition prepare_operation ::
  "Session_entry \<Rightarrow> PollTicket \<Rightarrow> instant \<Rightarrow> StagedPublication \<Rightarrow> Operation \<Rightarrow>
   (StagedPublication, RequestError) result" where
  "prepare_operation se ticket deadline staged operation =
     (let key = op_key operation
      in rbind (ensure (list_ex (\<lambda>d. dm_key d = key) (tk_topics ticket))
                  (invalid ''publication for undemanded topic'')) (\<lambda>_.
         rbind (ok_or (bt_get (se_topics se) key) (invalid ''publication for undemanded topic'')) (\<lambda>current.
         stage_operation deadline operation
           (case bt_get (sg_topics staged) key of Some t \<Rightarrow> t | None \<Rightarrow> current) staged)))"

definition prepare ::
  "Session_entry \<Rightarrow> PollTicket \<Rightarrow> Operation list \<Rightarrow> instant \<Rightarrow> (StagedPublication, RequestError) result" where
  "prepare se ticket operations deadline =
     try_fold (prepare_operation se ticket deadline) \<lparr>sg_topics = [], sg_resets = [], sg_events = []\<rparr> operations"

subsection \<open>Validation\<close>

definition update_fits :: "postcard \<Rightarrow> Inner \<Rightarrow> SubscriptionUpdate \<Rightarrow> (unit, RequestError) result" where
  "update_fits pc s update =
     message_fits (size_item pc
       (Update \<lparr>ue_cursor = \<lparr>cur_run_id = in_run_id s, cur_sequence = u64_max\<rparr>, ue_update = update\<rparr>))
       (in_message_bytes s)"

definition at_sequence :: "u64 \<Rightarrow> TopicSnapshot \<Rightarrow> TopicSnapshot" where
  "at_sequence n t =
     t\<lparr>ts_snapshot := map_option (\<lambda>d. d\<lparr>de_metadata := (de_metadata d)\<lparr>md_sequence := n\<rparr>\<rparr>) (ts_snapshot t)\<rparr>"

definition validate_topic ::
  "postcard \<Rightarrow> Inner \<Rightarrow> TopicRef \<times> Topic_entry \<Rightarrow> (unit, RequestError) result" where
  "validate_topic pc s = (\<lambda>(key, t).
     rbind (inner_capability s key) (\<lambda>cap.
     rbind (ensure (\<not> (ts_health (tp_state t) = Available \<and> cd_snapshots cap \<and> ts_snapshot (tp_state t) = None))
              (invalid ''available snapshot capability has no snapshot'')) (\<lambda>_.
     update_fits pc s (TopicChanged (at_sequence u64_max (tp_state t))))))"

definition validate_event ::
  "postcard \<Rightarrow> Inner \<Rightarrow> StagedPublication \<Rightarrow> TopicRef \<times> JsonPayload \<Rightarrow> (unit, RequestError) result" where
  "validate_event pc s staged = (\<lambda>(key, payload).
     (case bt_get (sg_topics staged) key of
        None \<Rightarrow> Ok ()
      | Some t \<Rightarrow>
        rbind (ensure (ts_health (tp_state t) = Available) (invalid ''event published by unavailable capability'')) (\<lambda>_.
        update_fits pc s (Event
          \<lparr>ee_metadata = \<lparr>md_source = ts_source (tp_state t), md_generation = ts_generation (tp_state t),
                          md_sequence = u64_max\<rparr>,
           ee_payload = payload\<rparr>))))"

definition snapshot_bytes :: "Topic_entry \<Rightarrow> usize" where
  "snapshot_bytes t = (case ts_snapshot (tp_state t) of None \<Rightarrow> 0 | Some d \<Rightarrow> length (de_payload d))"

definition topics_bytes :: "(TopicRef, Topic_entry) btree \<Rightarrow> usize" where
  "topics_bytes ts = sum_list (map (snapshot_bytes \<circ> snd) ts)"

definition retained_bytes :: "Inner \<Rightarrow> usize" where
  "retained_bytes s = sum_list (map (\<lambda>(_, se). topics_bytes (se_topics se)) (in_sessions s))"

definition replaced_bytes :: "Session_entry \<Rightarrow> StagedPublication \<Rightarrow> usize" where
  "replaced_bytes se staged =
     sum_list (map (\<lambda>k. case bt_get (se_topics se) k of None \<Rightarrow> 0 | Some t \<Rightarrow> snapshot_bytes t)
       (bt_keys (sg_topics staged)))"

definition validate ::
  "postcard \<Rightarrow> Inner \<Rightarrow> Session_entry \<Rightarrow> StagedPublication \<Rightarrow> (unit, RequestError) result" where
  "validate pc s se staged =
     rbind (try_fold (\<lambda>_. validate_topic pc s) () (sg_topics staged)) (\<lambda>_.
     rbind (try_fold (\<lambda>_. validate_event pc s staged) () (sg_events staged)) (\<lambda>_.
     ensure (retained_bytes s - replaced_bytes se staged + topics_bytes (sg_topics staged)
               \<le> RETAINED_SNAPSHOT_BYTES) (limit RetainedSnapshotBytes)))"

subsection \<open>Committing\<close>

definition session_topic :: "Inner \<Rightarrow> string \<Rightarrow> TopicRef \<Rightarrow> Topic_entry option" where
  "session_topic s sid key =
     (case bt_get (in_sessions s) sid of None \<Rightarrow> None | Some se \<Rightarrow> bt_get (se_topics se) key)"

definition insert_topic :: "string \<Rightarrow> TopicRef \<Rightarrow> Topic_entry \<Rightarrow> Inner \<Rightarrow> Inner" where
  "insert_topic sid key t s =
     s\<lparr>in_sessions := bt_update sid (\<lambda>se. se\<lparr>se_topics := bt_insert key t (se_topics se)\<rparr>) (in_sessions s)\<rparr>"

definition staged_changed :: "TopicSnapshot \<Rightarrow> TopicSnapshot \<Rightarrow> bool" where
  "staged_changed old new \<longleftrightarrow>
     ts_generation old \<noteq> ts_generation new \<or> ts_health old \<noteq> ts_health new
     \<or> map_option de_payload (ts_snapshot old) \<noteq> map_option de_payload (ts_snapshot new)"

definition commit_reset :: "postcard \<Rightarrow> StagedPublication \<Rightarrow> TopicRef \<Rightarrow> Inner \<Rightarrow> Inner" where
  "commit_reset pc staged key s =
     (case bt_get (sg_topics staged) key of
        None \<Rightarrow> s
      | Some t \<Rightarrow> inner_emit pc (TopicReset (ts_source (tp_state t)) (ts_generation (tp_state t)) SourceChanged) s)"

definition commit_topic :: "postcard \<Rightarrow> string \<Rightarrow> TopicRef \<times> Topic_entry \<Rightarrow> Inner \<Rightarrow> Inner" where
  "commit_topic pc sid = (\<lambda>(key, t) s.
     (case session_topic s sid key of
        None \<Rightarrow> s
      | Some old \<Rightarrow>
        (let changed = staged_changed (tp_state old) (tp_state t);
             t' = (if changed then t\<lparr>tp_state := at_sequence (in_sequence s + 1) (tp_state t)\<rparr>
                   else t\<lparr>tp_state := (tp_state t)\<lparr>ts_snapshot := ts_snapshot (tp_state old)\<rparr>\<rparr>);
             s1 = insert_topic sid key t' s
         in if changed then inner_emit pc (TopicChanged (tp_state t')) s1 else s1)))"

definition commit_event :: "postcard \<Rightarrow> string \<Rightarrow> TopicRef \<times> JsonPayload \<Rightarrow> Inner \<Rightarrow> Inner" where
  "commit_event pc sid = (\<lambda>(key, payload) s.
     (case session_topic s sid key of
        None \<Rightarrow> s
      | Some t \<Rightarrow> inner_emit pc (Event
          \<lparr>ee_metadata = \<lparr>md_source = ts_source (tp_state t), md_generation = ts_generation (tp_state t),
                          md_sequence = in_sequence s + 1\<rparr>,
           ee_payload = payload\<rparr>) s))"

definition commit_staged :: "postcard \<Rightarrow> string \<Rightarrow> StagedPublication \<Rightarrow> Inner \<Rightarrow> Inner" where
  "commit_staged pc sid staged s =
     fold (commit_event pc sid) (sg_events staged)
       (fold (commit_topic pc sid) (sg_topics staged)
         (fold (commit_reset pc staged) (sg_resets staged) s))"

definition ticket_current :: "Session_entry \<Rightarrow> PollTicket \<Rightarrow> bool" where
  "ticket_current se ticket \<longleftrightarrow>
     \<not> list_ex (\<lambda>d. case bt_get (se_topics se) (dm_key d) of
                 None \<Rightarrow> True
               | Some t \<Rightarrow> \<not> tp_demanded t \<or> ts_generation (tp_state t) \<noteq> dm_generation d \<or> tp_epoch t \<noteq> dm_epoch d)
         (tk_topics ticket)"

definition reset_exhausted :: "Session_entry \<Rightarrow> Operation list \<Rightarrow> bool" where
  "reset_exhausted se operations \<longleftrightarrow>
     list_ex (\<lambda>operation. case operation of
         Op_Reset key \<Rightarrow>
           (case bt_get (se_topics se) key of
              None \<Rightarrow> False
            | Some t \<Rightarrow> ts_generation (tp_state t) = u64_max \<or> tp_epoch t = u64_max)
       | _ \<Rightarrow> False) operations"

definition commit_metadata :: "postcard \<Rightarrow> string \<Rightarrow> SessionInfo option \<Rightarrow> Inner \<Rightarrow> Inner" where
  "commit_metadata pc sid metadata s =
     (case metadata of
        None \<Rightarrow> s
      | Some info \<Rightarrow>
          inner_emit pc (SessionChanged info)
            (s\<lparr>in_sessions := bt_update sid (\<lambda>se. se\<lparr>se_info := info\<rparr>) (in_sessions s)\<rparr>))"

text \<open>The checks between taking the lock and reserving sequences; none of them changes the state.\<close>

definition commit_checks ::
  "postcard \<Rightarrow> PollTicket \<Rightarrow> Pending \<Rightarrow> instant \<Rightarrow> Inner \<Rightarrow> Session_entry \<Rightarrow>
   (StagedPublication \<times> SessionInfo option, RequestError) result" where
  "commit_checks pc ticket pending deadline s se =
     rbind (prepare se ticket (pn_ops pending) deadline) (\<lambda>staged.
     rbind (validate pc s se staged) (\<lambda>_.
     (let metadata = (if pn_game_build pending \<noteq> si_game_build (se_info se)
                      then Some ((se_info se)\<lparr>si_game_build := pn_game_build pending\<rparr>) else None)
      in rbind (case metadata of
                  None \<Rightarrow> Ok ()
                | Some info \<Rightarrow> update_fits pc s (SessionChanged info)) (\<lambda>_.
         Ok (staged, metadata)))))"

definition commit_poll ::
  "postcard \<Rightarrow> instant \<Rightarrow> PollTicket \<Rightarrow> PollBatch \<Rightarrow> instant \<Rightarrow> Inner \<Rightarrow> Inner \<times> (bool, RequestError) result" where
  "commit_poll pc now ticket batch deadline s =
     (let pending = pb_pending batch; sid = tk_session_id ticket
      in if pn_failed pending then (s, Err (invalid ''provider ignored rejected publication''))
         else if in_stopped s then (s, Ok False)
         else (case bt_get (in_sessions s) sid of
             None \<Rightarrow> (s, Ok False)
           | Some se \<Rightarrow>
             (if \<not> ticket_current se ticket then (s, Ok False)
              else if reset_exhausted se (pn_ops pending) then (inner_close exhausted_end s, Ok False)
              else (case commit_checks pc ticket pending deadline s se of
                  Err e \<Rightarrow> (s, Err e)
                | Ok (staged, metadata) \<Rightarrow>
                  (case ensure_sequences (length (sg_resets staged) + length (sg_topics staged)
                           + length (sg_events staged) + (if metadata = None then 0 else 1)) s of
                     (s', False) \<Rightarrow> (s', Ok False)
                   | (s', True) \<Rightarrow>
                     (inner_settle pc now (commit_staged pc sid staged (commit_metadata pc sid metadata s')),
                      Ok True))))))"

end
