(* ===== verification/Service_State.thy ===== *)
theory Service_State
  imports Publication
begin

section \<open>The service and its subscriptions\<close>

text \<open>
  \<open>crates/wf-observer-cli/src/service/subscriptions.rs\<close> and \<open>state.rs\<close>: creating the service,
  opening and dropping subscriptions, the bounded read requests, and shutdown. Each operation
  holds the lock throughout, so it is one function on the locked state. \<open>changed.notify_all()\<close>
  wakes threads that re-read the state and changes none of it.

  Where the code reads the clock several times in one operation, each reading is an argument.
  The random bytes of a run id and the transport's maximal message size are arguments too.
\<close>

subsection \<open>Creation\<close>

definition hex_digit :: "nat \<Rightarrow> char" where
  "hex_digit n = ''0123456789abcdef'' ! (n mod 16)"

definition hex_byte :: "u8 \<Rightarrow> string" where
  "hex_byte b = [hex_digit (unat b div 16), hex_digit (unat b)]"

text \<open>\<open>format!("{:032x}", u128::from_le_bytes(bytes))\<close>: the most significant byte first.\<close>

definition hex_u128 :: "u8 list \<Rightarrow> string" where
  "hex_u128 bytes = concat (map hex_byte (rev bytes))"

definition u32_of_usize :: "usize \<Rightarrow> u32" where
  "u32_of_usize n = (if n < 2 ^ 32 then of_nat n else - 1)"

definition service_new :: "usize \<Rightarrow> u8 list \<Rightarrow> ProviderManifest list \<Rightarrow> (Inner, string) result" where
  "service_new max_message_size run manifests =
     rbind (catalog manifests) (\<lambda>c. Ok
       \<lparr>in_catalog = c, in_message_bytes = u32_of_usize max_message_size, in_run_id = hex_u128 run,
        in_sequence = 0, in_runtime = host_status_default, in_sessions = [], in_subscribers = [],
        in_next_subscription = 0, in_revision = 0, in_stopped = False, in_queues = []\<rparr>)"

definition delta_topics :: "ProviderManifest list \<Rightarrow> TopicRef list" where
  "delta_topics manifests =
     concat (map (\<lambda>m. map (\<lambda>cap. TopicRef (pm_id m) (sc_topic cap) (sc_schema_version cap))
                        (filter (\<lambda>cap. sc_snapshots cap = Some Delta_delivery) (pm_capabilities m))) manifests)"

subsection \<open>Lifecycle\<close>

definition update_lifecycle ::
  "postcard \<Rightarrow> instant \<Rightarrow> HostStatus \<Rightarrow> Inner \<Rightarrow> Inner \<times> (unit, RequestError) result" where
  "update_lifecycle pc now status s = sync_runtime pc now status s"

definition shutdown :: "Inner \<Rightarrow> Inner" where
  "shutdown s = inner_close ServiceStopped s"

definition wait_blocks :: "u64 \<Rightarrow> Inner \<Rightarrow> bool" where
  "wait_blocks revision s \<longleftrightarrow> in_revision s = revision \<and> \<not> in_stopped s"

subsection \<open>Bootstrap\<close>

definition capture_push ::
  "postcard \<Rightarrow> u32 \<Rightarrow> SubscriptionItem list \<times> usize \<Rightarrow> SubscriptionItem \<Rightarrow>
   (SubscriptionItem list \<times> usize, RequestError) result" where
  "capture_push pc message_bytes = (\<lambda>(frames, bytes) frame.
     rbind (message_fits (size_item pc frame) message_bytes) (\<lambda>_.
     rbind (ok_or (size_item pc frame) (invalid ''bootstrap encoding failed'')) (\<lambda>size.
     rbind (ok_or (usize_checked_add bytes size) (limit InitialBytes)) (\<lambda>total.
     rbind (ensure (total \<le> RETAINED_SNAPSHOT_BYTES) (limit InitialBytes)) (\<lambda>_.
     Ok (frames @ [frame], total))))))"

definition session_frames :: "Subscriber \<Rightarrow> Session_entry \<Rightarrow> SubscriptionItem list" where
  "session_frames sb se =
     Session (se_info se)
     # map (\<lambda>(_, t). Topic (tp_state t))
         (filter (\<lambda>(_, t). matches sb (src_session (ts_source (tp_state t))) (src_topic (ts_source (tp_state t))))
           (se_topics se))"

definition capture_frames :: "Inner \<Rightarrow> Subscriber \<Rightarrow> SubscriptionItem list" where
  "capture_frames s sb =
     concat (map (\<lambda>(_, se). session_frames sb se) (filter (\<lambda>(_, se). matches_info sb (se_info se)) (in_sessions s)))"

definition capture :: "postcard \<Rightarrow> Inner \<Rightarrow> u64 \<Rightarrow> (SubscriptionItem list, RequestError) result" where
  "capture pc s id' =
     rbind (capture_push pc (in_message_bytes s) ([], 0) (Begin (inner_cursor s))) (\<lambda>opened.
     rbind (ok_or (bt_get (in_subscribers s) id') (invalid ''subscription closed during setup'')) (\<lambda>sb.
     rbind (try_fold (capture_push pc (in_message_bytes s)) opened (capture_frames s sb)) (\<lambda>filled.
     rbind (capture_push pc (in_message_bytes s) filled (Ready (inner_cursor s))) (\<lambda>(frames, _).
     Ok frames))))"

subsection \<open>Subscribing\<close>

definition check_topic :: "Inner \<Rightarrow> SessionSelector \<Rightarrow> TopicRef \<Rightarrow> (unit, RequestError) result" where
  "check_topic s sessions key =
     rbind (inner_capability s key) (\<lambda>_.
     (case sessions of
        All_sessions \<Rightarrow> Ok ()
      | Session_only reference \<Rightarrow>
          rbind (inner_session s reference) (\<lambda>se.
          ensure (si_provider_id (se_info se) = provider_id key) (invalid ''topic does not belong to session''))))"

definition check_selection :: "Inner \<Rightarrow> Subscribe \<Rightarrow> (unit, RequestError) result" where
  "check_selection s selection =
     rbind (ensure (sel_topics selection \<noteq> []) (invalid ''empty topic selection'')) (\<lambda>_.
     rbind (case sel_sessions selection of
              All_sessions \<Rightarrow> Ok ()
            | Session_only reference \<Rightarrow> rbind (inner_session s reference) (\<lambda>_. Ok ())) (\<lambda>_.
     try_fold (\<lambda>_. check_topic s (sel_sessions selection)) () (sel_topics selection)))"

definition normal_selection :: "Subscribe \<Rightarrow> Subscribe" where
  "normal_selection selection = selection\<lparr>sel_topics := remdups_adj (sort (sel_topics selection))\<rparr>"

definition enrol :: "u64 \<Rightarrow> Subscribe \<Rightarrow> Inner \<Rightarrow> Inner" where
  "enrol id' selection s =
     s\<lparr>in_next_subscription := id',
       in_subscribers := bt_insert id' \<lparr>sb_selection = selection, sb_queue = id', sb_active = False\<rparr> (in_subscribers s),
       in_queues := bt_insert id' (queue_new (in_message_bytes s)) (in_queues s)\<rparr>"

definition activate :: "u64 \<Rightarrow> SubscriptionItem list \<Rightarrow> Inner \<Rightarrow> Inner" where
  "activate id' frames s =
     s\<lparr>in_queues := bt_update id' (queue_set_initial frames) (in_queues s),
       in_subscribers := bt_update id' (\<lambda>sb. sb\<lparr>sb_active := True\<rparr>) (in_subscribers s)\<rparr>"

definition unsubscribe :: "postcard \<Rightarrow> instant \<Rightarrow> u64 \<Rightarrow> Inner \<Rightarrow> Inner" where
  "unsubscribe pc now id' s =
     inner_settle pc now (s\<lparr>in_subscribers := bt_remove id' (in_subscribers s)\<rparr>)"

definition subscribe ::
  "postcard \<Rightarrow> instant \<times> instant \<times> instant \<Rightarrow> Subscribe \<Rightarrow> Inner \<Rightarrow> Inner \<times> (u64, RequestError) result" where
  "subscribe pc = (\<lambda>(now1, now2, now3) request s.
     (case message_fits (size_subscribe pc request) (in_message_bytes s) of
        Err e \<Rightarrow> (s, Err e)
      | Ok _ \<Rightarrow>
        (let selection = normal_selection request; s1 = inner_expire pc now1 s
         in if in_stopped s1 then (s1, Err (invalid ''service stopped''))
            else (case check_selection s1 selection of
                Err e \<Rightarrow> (s1, Err e)
              | Ok _ \<Rightarrow>
                (case checked_add (in_next_subscription s1) 1 of
                   None \<Rightarrow> (s1, Err (invalid ''subscription identity exhausted''))
                 | Some id' \<Rightarrow>
                   (let s2 = inner_settle pc now2 (enrol id' selection s1)
                    in case capture pc s2 id' of
                         Ok frames \<Rightarrow> (activate id' frames s2, Ok id')
                       | Err e \<Rightarrow> (unsubscribe pc now3 id' s2, Err e)))))))"

text \<open>\<open>Subscription::next\<close> pops the shared queue without the service lock.\<close>

definition pop_subscription :: "u64 \<Rightarrow> Inner \<Rightarrow> Inner" where
  "pop_subscription id' s = s\<lparr>in_queues := bt_update id' (\<lambda>q. fst (queue_pop q)) (in_queues s)\<rparr>"

subsection \<open>Reads\<close>

definition service_catalog :: "postcard \<Rightarrow> Inner \<Rightarrow> (Catalog, RequestError) result" where
  "service_catalog pc s =
     rbind (message_fits (size_catalog pc (in_catalog s)) (in_message_bytes s)) (\<lambda>_. Ok (in_catalog s))"

definition topic_status :: "Topic_entry \<Rightarrow> TopicStatus" where
  "topic_status t =
     \<lparr>tst_topic = src_topic (ts_source (tp_state t)), tst_generation = ts_generation (tp_state t),
      tst_health = ts_health (tp_state t)\<rparr>"

fun target_activity :: "Inner \<Rightarrow> Activity \<Rightarrow> TargetActivity" where
  "target_activity s Attaching = Attaching_target"
| "target_activity s (Retrying _) = Retrying_target ''attachment failed; see local service logs''"
| "target_activity s (Observing sid) =
     (let session = bt_get (in_sessions s) sid
      in Observing_target sid
           (case session of None \<Rightarrow> None | Some se \<Rightarrow> si_game_build (se_info se))
           (case session of None \<Rightarrow> [] | Some se \<Rightarrow> map (\<lambda>(_, t). topic_status t) (se_topics se)))"

definition target_status :: "Inner \<Rightarrow> HostTarget \<Rightarrow> TargetStatus" where
  "target_status s t =
     \<lparr>tgt_provider_id = ti_provider_id (ht_target t), tgt_game_id = ti_game_id (ht_target t),
      tgt_target = \<lparr>tpr_pid = rp_pid (ti_process (ht_target t)), tpr_executable = ti_executable (ht_target t)\<rparr>,
      tgt_activity = target_activity s (ht_activity t)\<rparr>"

definition status_view :: "string \<Rightarrow> Inner \<Rightarrow> ServiceStatus" where
  "status_view version s =
     \<lparr>ss_cursor = inner_cursor s, ss_application_version = version,
      ss_discovery = (if hs_discovery_error (in_runtime s) \<noteq> None
                      then Retrying_discovery ''process enumeration failed'' else Searching),
      ss_targets = map (target_status s) (hs_targets (in_runtime s))\<rparr>"

definition service_status ::
  "postcard \<Rightarrow> instant \<Rightarrow> string \<Rightarrow> Inner \<Rightarrow> Inner \<times> (ServiceStatus, RequestError) result" where
  "service_status pc now version s =
     (let s1 = inner_expire pc now s; status = status_view version s1
      in (s1, rbind (message_fits (size_status pc status) (in_message_bytes s1)) (\<lambda>_. Ok status)))"

definition snapshot_view :: "Inner \<Rightarrow> GetSnapshot \<Rightarrow> (DataEnvelope, RequestError) result" where
  "snapshot_view s request =
     rbind (inner_session s (gs_session request)) (\<lambda>se.
     rbind (inner_capability s (gs_topic request)) (\<lambda>cap.
     rbind (ensure (provider_id (gs_topic request) = si_provider_id (se_info se))
              (invalid ''topic does not belong to session'')) (\<lambda>_.
     rbind (ensure (cd_snapshots cap) (SnapshotsUnsupported (gs_topic request))) (\<lambda>_.
     rbind (ok_or (bt_get (se_topics se) (gs_topic request)) (invalid ''session capability is missing'')) (\<lambda>t.
     (case ts_health (tp_state t) of
        Idle \<Rightarrow> Err Idle_error
      | Initializing \<Rightarrow> Err NotSampled
      | Unavailable reason \<Rightarrow> Err (Unavailable_error reason)
      | Available \<Rightarrow> ok_or (ts_snapshot (tp_state t)) NotSampled))))))"

definition service_snapshot ::
  "postcard \<Rightarrow> instant \<Rightarrow> GetSnapshot \<Rightarrow> Inner \<Rightarrow> Inner \<times> (DataEnvelope, RequestError) result" where
  "service_snapshot pc now request s = (let s1 = inner_expire pc now s in (s1, snapshot_view s1 request))"

end
