(* ===== verification/Publication_Invariant.thy ===== *)
theory Publication_Invariant
  imports Publication
begin

section \<open>Correctness of publication\<close>

text \<open>
  Committing and discarding a poll keep the state invariant, evolve it, and account for every
  retained snapshot byte exactly; a commit that does not succeed changes nothing.
\<close>

subsection \<open>Writing one topic\<close>

lemma bt_update_Cons [simp]:
  "bt_update k f ((k', v) # m) = (k', if k' = k then f v else v) # bt_update k f m"
  by (simp add: bt_update_def bt_map_def)

lemma bt_update_Nil [simp]: "bt_update k f [] = []"
  by (simp add: bt_update_def bt_map_def)

lemma bt_update_head: "bt_inv ((k, v) # m) \<Longrightarrow> bt_update k f m = m"
  by (rule bt_update_absent) (auto simp: bt_get_none_iff)

lemma bt_insert_present:
  "bt_inv m \<Longrightarrow> bt_get m k = Some v \<Longrightarrow> bt_insert k w m = bt_update k (\<lambda>_. w) m"
proof (induction m)
  case (Cons x m)
  obtain k' v' where x: "x = (k', v')" by (cases x)
  have "k' < k" if "bt_get m k = Some v"
    using Cons.prems(1) bt_get_member [OF that] x by (force simp: image_iff)
  moreover have "map (\<lambda>(k'', u). (k'', if k'' = k then w else u)) m = m" if "k' = k"
    using Cons.prems(1) x that by (intro map_idI) force
  ultimately show ?case
    using Cons x by (auto simp: bt_update_def bt_map_def split: if_splits)
qed simp

lemma sessions_rel_update:
  assumes "\<And>t. R t t" and "bt_inv ss" and "bt_get ss sid = Some se" and "session_rel R se (f se)"
  shows "sessions_rel R ss (bt_update sid f ss)"
  using assms(2-4)
proof (induction ss)
  case (Cons x ss)
  obtain k v where x: "x = (k, v)" by (cases x)
  show ?case
  proof (cases "k = sid")
    case True
    have "bt_update sid f ss = ss"
      using Cons.prems(1) x True by (intro bt_update_absent) (auto simp: bt_get_none_iff)
    then show ?thesis
      using Cons.prems x True sessions_rel_refl [of R ss, OF assms(1)]
      by (simp add: sessions_rel_def bt_update_def bt_map_def)
  next
    case False
    then show ?thesis
      using Cons x session_rel_refl [of R v, OF assms(1)]
      by (simp add: sessions_rel_def bt_update_def bt_map_def)
  qed
qed simp

lemma topics_rel_update:
  assumes "\<And>t. R t t" and "\<And>v. bt_get ts k = Some v \<Longrightarrow> R v t" and "bt_inv ts"
  shows "topics_rel R ts (bt_update k (\<lambda>_. t) ts)"
proof -
  have "R v t" if "(k, v) \<in> set ts" for v
    using assms(2,3) that by (simp add: bt_member_get)
  then show ?thesis
    unfolding topics_rel_def bt_update_def bt_map_def
    by (induction ts) (auto simp: assms(1))
qed

lemma session_topic_entry:
  assumes "session_topic s sid k = Some old"
  obtains se where "bt_get (in_sessions s) sid = Some se" "bt_get (se_topics se) k = Some old"
  using assms by (auto simp: session_topic_def split: option.splits)

lemma insert_topic_rel:
  assumes wf: "sessions_wf P s" and old: "session_topic s sid k = Some old"
    and "\<And>t. R t t" and "R old t"
  shows "sessions_rel R (in_sessions s) (in_sessions (insert_topic sid k t s))"
proof -
  obtain se where se: "bt_get (in_sessions s) sid = Some se" "bt_get (se_topics se) k = Some old"
    using old by (rule session_topic_entry)
  have inv: "bt_inv (se_topics se)"
    using sessions_wf_get [OF wf se(1)] by (rule session_wf_topics)
  have "topics_rel R (se_topics se) (bt_insert k t (se_topics se))"
    unfolding bt_insert_present [OF inv se(2)] using assms(3,4) inv se(2) by (intro topics_rel_update) auto
  then have "session_rel R se (se\<lparr>se_topics := bt_insert k t (se_topics se)\<rparr>)"
    by (simp add: session_rel_def)
  then show ?thesis
    using sessions_rel_update [of R "in_sessions s" sid se] assms(3) sessions_wf_inv [OF wf] se(1)
    by (simp add: insert_topic_def)
qed

lemma insert_topic_session:
  "bt_get (in_sessions s) sid = Some se \<Longrightarrow>
     bt_get (in_sessions (insert_topic sid k t s)) sid = Some (se\<lparr>se_topics := bt_insert k t (se_topics se)\<rparr>)"
  by (simp add: insert_topic_def bt_get_update)

lemma insert_topic_get:
  assumes "bt_get (in_sessions s) sid = Some se"
  shows "session_topic (insert_topic sid k t s) sid k' = (if k' = k then Some t else session_topic s sid k')"
  using insert_topic_session [OF assms] assms by (simp add: session_topic_def bt_get_insert)

lemma update_session_wf:
  assumes wf: "sessions_wf P s" and se: "bt_get (in_sessions s) sid = Some se"
    and new: "session_wf P (in_run_id s) sid (f se)"
  shows "sessions_wf P (s\<lparr>in_sessions := bt_update sid f (in_sessions s)\<rparr>)"
proof (rule sessions_wfI)
  have inv: "bt_inv (in_sessions s)" using wf by (rule sessions_wf_inv)
  then show "bt_inv (in_sessions (s\<lparr>in_sessions := bt_update sid f (in_sessions s)\<rparr>))" by simp
  fix sid' se' assume "(sid', se') \<in> set (in_sessions (s\<lparr>in_sessions := bt_update sid f (in_sessions s)\<rparr>))"
  then have "bt_get (bt_update sid f (in_sessions s)) sid' = Some se'"
    using inv by (simp add: bt_member_get)
  then show "session_wf P (in_run_id (s\<lparr>in_sessions := bt_update sid f (in_sessions s)\<rparr>)) sid' se'"
    using se new sessions_wf_get [OF wf] by (auto simp: bt_get_update split: if_splits)
qed

lemma insert_topic_wf:
  assumes wf: "inner_wf s" and run: "\<not> in_stopped s" and se: "bt_get (in_sessions s) sid = Some se"
    and t: "topic_wf (in_sequence s) (se_info se) k t"
  shows "inner_wf (insert_topic sid k t s)"
proof -
  have old: "session_wf (topic_wf (in_sequence s)) (in_run_id s) sid se"
    by (rule sessions_wf_get [OF inner_wfD(2) [OF wf] se])
  have inv: "bt_inv (bt_insert k t (se_topics se))"
    using session_wf_topics [OF old] by (rule bt_inv_insert)
  have "session_wf (topic_wf (in_sequence s)) (in_run_id s) sid (se\<lparr>se_topics := bt_insert k t (se_topics se)\<rparr>)"
  proof (rule session_wfI)
    fix k' t' assume "(k', t') \<in> set (se_topics (se\<lparr>se_topics := bt_insert k t (se_topics se)\<rparr>))"
    then have "bt_get (bt_insert k t (se_topics se)) k' = Some t'" using inv by (simp add: bt_member_get)
    then show "topic_wf (in_sequence s) (se_info (se\<lparr>se_topics := bt_insert k t (se_topics se)\<rparr>)) k' t'"
      using t session_wfD [OF old] by (auto simp: bt_get_insert dest: bt_get_member split: if_splits)
  qed (simp_all add: inv session_wf_ref [OF old])
  from update_session_wf [where f = "\<lambda>se. se\<lparr>se_topics := bt_insert k t (se_topics se)\<rparr>",
      OF inner_wfD(2) [OF wf] se this]
  show ?thesis
    using wf run by (simp add: inner_wf_def insert_topic_def queues_wf_def stopped_idle_def)
qed

lemma insert_topic_sel [simp]:
  "in_stopped (insert_topic sid k t s) = in_stopped s" "in_sequence (insert_topic sid k t s) = in_sequence s"
  "in_run_id (insert_topic sid k t s) = in_run_id s" "in_subscribers (insert_topic sid k t s) = in_subscribers s"
  "in_queues (insert_topic sid k t s) = in_queues s" "in_catalog (insert_topic sid k t s) = in_catalog s"
  "in_message_bytes (insert_topic sid k t s) = in_message_bytes s" "in_revision (insert_topic sid k t s) = in_revision s"
  "in_next_subscription (insert_topic sid k t s) = in_next_subscription s"
  "in_runtime (insert_topic sid k t s) = in_runtime s"
  by (simp_all add: insert_topic_def)

text \<open>An emission that is not a session's end does not look at the sessions, so it commutes with the write.\<close>

lemma emit_insert_commute:
  assumes "\<not> in_stopped s" and "in_sequence s \<noteq> - 1"
  shows "inner_emit pc (TopicChanged c) (insert_topic sid k t s) =
    insert_topic sid k t (inner_emit pc (TopicChanged c) s)"
proof -
  have item: "emitted_item (insert_topic sid k t s) (TopicChanged c) = emitted_item s (TopicChanged c)"
    by (simp add: emitted_item_def)
  have who: "update_recipient (insert_topic sid k t s) (TopicChanged c) sb = update_recipient s (TopicChanged c) sb" for sb
    by (simp add: update_recipient_def)
  have run: "\<not> in_stopped (insert_topic sid k t s)" "in_sequence (insert_topic sid k t s) \<noteq> - 1"
    using assms by simp_all
  show ?thesis
    unfolding emit_running [OF assms] emit_running [OF run] item who
    by (rule Inner.equality) (simp_all add: insert_topic_def)
qed

subsection \<open>Staged topics\<close>

definition staged_entry :: "SessionInfo \<Rightarrow> TopicRef \<Rightarrow> Topic_entry \<Rightarrow> Topic_entry \<Rightarrow> bool" where
  "staged_entry info k old t \<longleftrightarrow>
     topic_core info k t \<and> topic_coherent (tp_state t) \<and> tp_demanded t \<and> ts_health (tp_state t) \<noteq> Idle
     \<and> (tp_deadline t \<noteq> None \<longleftrightarrow> ts_health (tp_state t) \<in> {Available, Initializing}) \<and> topic_le old t"

lemma coherent_at_sequence: "topic_coherent (at_sequence n t) = topic_coherent t"
  by (auto simp: topic_coherent_def at_sequence_def split: option.splits)

lemma at_sequence_sel [simp]:
  "ts_source (at_sequence n t) = ts_source t" "ts_generation (at_sequence n t) = ts_generation t"
  "ts_health (at_sequence n t) = ts_health t"
  by (simp_all add: at_sequence_def)

lemma issued_at_sequence: "0 < n \<Longrightarrow> snapshot_issued n (at_sequence n t)"
  by (simp add: snapshot_issued_def at_sequence_def split: option.splits)

definition committed_entry :: "u64 \<Rightarrow> Topic_entry \<Rightarrow> Topic_entry \<Rightarrow> Topic_entry" where
  "committed_entry n old t =
     (if staged_changed (tp_state old) (tp_state t) then t\<lparr>tp_state := at_sequence n (tp_state t)\<rparr>
      else t\<lparr>tp_state := (tp_state t)\<lparr>ts_snapshot := ts_snapshot (tp_state old)\<rparr>\<rparr>)"

lemma committed_wf:
  assumes "staged_entry info k old t" and "topic_wf m info k old" and "m \<le> n"
    and pos: "staged_changed (tp_state old) (tp_state t) \<Longrightarrow> 0 < n"
  shows "topic_wf n info k (committed_entry n old t)" and "topic_le old (committed_entry n old t)"
proof -
  have source: "ts_source (tp_state old) = ts_source (tp_state t)"
    using assms(1,2) by (simp add: staged_entry_def topic_wf_def topic_core_def)
  have "topic_coherent ((tp_state t)\<lparr>ts_snapshot := ts_snapshot (tp_state old)\<rparr>)"
    if "\<not> staged_changed (tp_state old) (tp_state t)"
    using that assms(2) source by (auto simp: topic_wf_def topic_coherent_def staged_changed_def split: option.splits)
  moreover have "snapshot_issued n ((tp_state t)\<lparr>ts_snapshot := ts_snapshot (tp_state old)\<rparr>)"
    using snapshot_issued_mono [of m "tp_state old" n] assms(2,3) by (simp add: topic_wf_def snapshot_issued_def)
  ultimately show "topic_wf n info k (committed_entry n old t)"
    using assms(1) issued_at_sequence [OF pos]
    by (simp add: committed_entry_def staged_entry_def topic_wf_def topic_core_def coherent_at_sequence)
  show "topic_le old (committed_entry n old t)"
    using assms(1) by (simp add: committed_entry_def staged_entry_def topic_le_def topic_ord_def)
qed

lemma snapshot_bytes_at_sequence [simp]: "snapshot_bytes (t\<lparr>tp_state := at_sequence n (tp_state t)\<rparr>) = snapshot_bytes t"
  by (simp add: snapshot_bytes_def at_sequence_def split: option.splits)

lemma committed_bytes: "snapshot_bytes (committed_entry n old t) = snapshot_bytes t"
  by (auto simp: committed_entry_def snapshot_bytes_def staged_changed_def at_sequence_def split: option.splits)

lemma commit_topic_eq:
  assumes run: "\<not> in_stopped s" "in_sequence s \<noteq> - 1" and old: "session_topic s sid k = Some old"
  shows "commit_topic pc sid (k, t) s =
     (if staged_changed (tp_state old) (tp_state t)
      then insert_topic sid k (committed_entry (in_sequence s + 1) old t)
             (inner_emit pc (TopicChanged (tp_state (committed_entry (in_sequence s + 1) old t))) s)
      else insert_topic sid k (committed_entry (in_sequence s) old t) s)"
  using old by (simp add: commit_topic_def committed_entry_def Let_def emit_insert_commute [OF run])


lemma retained_bytes_update:
  assumes "bt_inv ss" and "bt_get ss sid = Some se"
  shows "sum_list (map (\<lambda>(_, se). topics_bytes (se_topics se)) (bt_update sid f ss)) + topics_bytes (se_topics se)
    = sum_list (map (\<lambda>(_, se). topics_bytes (se_topics se)) ss) + topics_bytes (se_topics (f se))"
  using assms
proof (induction ss)
  case (Cons x ss)
  obtain k v where x: "x = (k, v)" by (cases x)
  show ?case
    using Cons x bt_update_head [of sid v ss f] by (cases "k = sid") auto
qed simp

lemma topics_bytes_update:
  assumes "bt_inv ts" and "bt_get ts k = Some old"
  shows "topics_bytes (bt_update k (\<lambda>_. t) ts) + snapshot_bytes old = topics_bytes ts + snapshot_bytes t"
  using assms
proof (induction ts)
  case (Cons x ts)
  obtain k' v where x: "x = (k', v)" by (cases x)
  show ?case
    using Cons x bt_update_head [of k v ts] by (cases "k' = k") (auto simp: topics_bytes_def)
qed simp

lemma insert_topic_bytes:
  assumes wf: "sessions_wf P s" and old: "session_topic s sid k = Some old"
  shows "retained_bytes (insert_topic sid k t s) + snapshot_bytes old = retained_bytes s + snapshot_bytes t"
proof -
  obtain se where se: "bt_get (in_sessions s) sid = Some se" "bt_get (se_topics se) k = Some old"
    using old by (rule session_topic_entry)
  have inv: "bt_inv (se_topics se)"
    using sessions_wf_get [OF wf se(1)] by (rule session_wf_topics)
  have "topics_bytes (bt_insert k t (se_topics se)) + snapshot_bytes old = topics_bytes (se_topics se) + snapshot_bytes t"
    unfolding bt_insert_present [OF inv se(2)] by (rule topics_bytes_update [OF inv se(2)])
  moreover note retained_bytes_update [OF sessions_wf_inv [OF wf] se(1),
      where f = "\<lambda>se. se\<lparr>se_topics := bt_insert k t (se_topics se)\<rparr>"]
  ultimately show ?thesis
    by (simp add: retained_bytes_def insert_topic_def)
qed

text \<open>Operations that only drop snapshots.\<close>

definition sheds :: "Inner \<Rightarrow> Inner \<Rightarrow> bool" where
  "sheds s t \<longleftrightarrow> sessions_rel (\<lambda>a b. snapshot_bytes b \<le> snapshot_bytes a) (in_sessions s) (in_sessions t)"

lemma sheds_refl [simp]: "sheds s s"
  by (simp add: sheds_def sessions_rel_refl)

lemma sheds_trans [trans]: "sheds r s \<Longrightarrow> sheds s t \<Longrightarrow> sheds r t"
  unfolding sheds_def by (rule sessions_rel_trans) auto

lemma sheds_bytes: "sheds s t \<Longrightarrow> retained_bytes t \<le> retained_bytes s"
proof -
  have topics: "topics_bytes ts' \<le> topics_bytes ts"
    if "topics_rel (\<lambda>a b. snapshot_bytes b \<le> snapshot_bytes a) ts ts'" for ts ts'
    using that unfolding topics_rel_def topics_bytes_def
    by (induction rule: list_all2_induct) auto
  assume "sheds s t"
  then show ?thesis
    unfolding sheds_def sessions_rel_def retained_bytes_def
    by (induction rule: list_all2_induct) (auto simp: session_rel_def dest!: topics)
qed

lemma close_topic_bytes [simp]: "snapshot_bytes (close_topic t) = 0"
  by (simp add: snapshot_bytes_def close_topic_def)

lemma close_sheds_from:
  assumes "map fst ss = map fst (in_sessions s)" and "sessions_rel (\<lambda>_ _. True) ss (in_sessions s)"
  shows "sessions_rel (\<lambda>a b. snapshot_bytes b \<le> snapshot_bytes a) ss (in_sessions (inner_close e s))"
  by (rule sessions_rel_close [OF assms(2)]) simp

lemma close_sheds: "sheds s (inner_close e s)"
  unfolding sheds_def by (rule close_sheds_from) (simp_all add: sessions_rel_refl)

lemma same_sessions_sheds: "in_sessions t = in_sessions s \<Longrightarrow> sheds s t"
  by (simp add: sheds_def sessions_rel_refl)

lemma emit_sheds: "sheds s (inner_emit pc u s)"
  by (cases rule: emit_cases [of s pc u]) (simp_all add: close_sheds same_sessions_sheds)

lemma emits_sheds: "sheds s (fold (inner_emit pc) us s)"
  by (rule emits_induct [where P = "sheds s"]) (auto intro: sheds_trans emit_sheds)

lemma settle_topic_bytes: "snapshot_bytes (visit_entry (settle_topic d now t)) \<le> snapshot_bytes t"
  by (auto simp: settle_topic_def snapshot_bytes_def Let_def split: option.splits)

lemma expire_topic_bytes: "snapshot_bytes (visit_entry (expire_topic now t)) \<le> snapshot_bytes t"
  by (auto simp: expire_topic_def snapshot_bytes_def Let_def split: option.splits)

lemma walk_sheds:
  assumes "fst (walk_sessions f (in_sessions s)) = ss'"
    and "\<And>info k t. snapshot_bytes (visit_entry (f info k t)) \<le> snapshot_bytes t"
  shows "sheds s (s\<lparr>in_sessions := ss'\<rparr>)"
  using walk_sessions_rel [of "\<lambda>a b. snapshot_bytes b \<le> snapshot_bytes a" f "in_sessions s"] assms
  by (simp add: sheds_def)

lemma settle_turn_sheds: "sheds s (fst (settle_turn pc now s))"
proof (rule sheds_trans [of s "retain_live s"], simp add: same_sessions_sheds,
    cases rule: settle_turn_cases [of s now pc])
  case (exhausted ss' changes)
  have "sheds (retain_live s) (retain_live s\<lparr>in_sessions := ss'\<rparr>)"
    by (rule walk_sheds [where f = "settle_visit (retain_live s) now"])
      (use exhausted(1) settle_topic_bytes in \<open>simp_all add: settle_visit_def\<close>)
  then show "sheds (retain_live s) (fst (settle_turn pc now s))"
    unfolding exhausted(2) fst_conv by (rule sheds_trans [OF _ close_sheds])
next
  case (visited ss' changes s3)
  have "sheds (retain_live s) (retain_live s\<lparr>in_sessions := ss'\<rparr>)"
    by (rule walk_sheds [where f = "settle_visit (retain_live s) now"])
      (use visited(1) settle_topic_bytes in \<open>simp_all add: settle_visit_def\<close>)
  also have "sheds \<dots> (bump_revision changes \<dots>)" by (simp add: same_sessions_sheds)
  also have "sheds \<dots> (fold (inner_emit pc) changes \<dots>)" by (rule emits_sheds)
  finally show "sheds (retain_live s) (fst (settle_turn pc now s))"
    using visited(2,3) by simp
qed

lemma settle_sheds: "sheds s (inner_settle pc now s)"
  by (rule settle_induct [where P = "sheds s"]) (auto intro: sheds_trans settle_turn_sheds)

lemma expire_sheds: "sheds s (inner_expire pc now s)"
proof (cases rule: expire_cases [of now s pc])
  case (exhausted ss' changes)
  then show ?thesis
    using sheds_trans [OF walk_sheds [of "\<lambda>_ _. expire_topic now"] close_sheds] expire_topic_bytes by simp
next
  case (visited ss' changes)
  have "sheds s (s\<lparr>in_sessions := ss'\<rparr>)" by (rule walk_sheds [where f = "\<lambda>_ _. expire_topic now"]) (simp_all add: visited(1) expire_topic_bytes)
  also have "sheds \<dots> (bump_revision changes \<dots>)" by (simp add: same_sessions_sheds)
  also have "sheds \<dots> (fold (inner_emit pc) changes \<dots>)" by (rule emits_sheds)
  also have "sheds \<dots> (inner_settle pc now \<dots>)" by (rule settle_sheds)
  finally show ?thesis using visited(2) by simp
qed


subsection \<open>Committing staged topics\<close>

text \<open>
  One committed topic: the session keeps its metadata and its other topics, at most one sequence
  number is used, and the retained bytes change by exactly the difference of the two snapshots.
\<close>

definition commit_invariant :: "string \<Rightarrow> SessionInfo \<Rightarrow> Inner \<Rightarrow> bool" where
  "commit_invariant sid info s \<longleftrightarrow>
     inner_wf s \<and> \<not> in_stopped s
     \<and> (\<exists>se. bt_get (in_sessions s) sid = Some se \<and> se_info se = info)"

lemma emit_running_invariant:
  assumes "commit_invariant sid info s" and "in_sequence s \<noteq> - 1"
  shows "commit_invariant sid info (inner_emit pc u s)" and "session_topic (inner_emit pc u s) = session_topic s"
    and "retained_bytes (inner_emit pc u s) = retained_bytes s"
    and "in_sequence (inner_emit pc u s) = in_sequence s + 1"
proof -
  note parts = assms(1) [unfolded commit_invariant_def]
  have emit: "\<not> in_stopped (inner_emit pc u s)" "in_sessions (inner_emit pc u s) = in_sessions s"
      "in_sequence (inner_emit pc u s) = in_sequence s + 1"
    using parts assms(2) by (cases rule: emit_cases [of s pc u]; simp)+
  show "commit_invariant sid info (inner_emit pc u s)"
    using parts emit emit_wf [of s pc u] by (simp add: commit_invariant_def)
  show "session_topic (inner_emit pc u s) = session_topic s"
    by (intro ext) (simp add: session_topic_def emit(2))
  show "retained_bytes (inner_emit pc u s) = retained_bytes s"
    by (simp add: retained_bytes_def emit(2))
  show "in_sequence (inner_emit pc u s) = in_sequence s + 1" by (rule emit(3))
qed

lemma commit_topic_step:
  assumes inv: "commit_invariant sid info s" and room: "in_sequence s \<noteq> - 1"
    and old: "session_topic s sid k = Some old" and staged: "staged_entry info k old t"
    and s'_def: "s' = commit_topic pc sid (k, t) s"
  shows "commit_invariant sid info s'" and "evolves s s'"
    and "k' \<noteq> k \<Longrightarrow> session_topic s' sid k' = session_topic s sid k'"
    and "retained_bytes s' + snapshot_bytes old = retained_bytes s + snapshot_bytes t"
    and "unat (in_sequence s') \<le> unat (in_sequence s) + 1"
    and "\<exists>n. session_topic s' sid k = Some (committed_entry n old t)"
proof -
  note parts = inv [unfolded commit_invariant_def]
  obtain se where se: "bt_get (in_sessions s) sid = Some se" "se_info se = info" using parts by blast
  have wf: "inner_wf s" and run: "\<not> in_stopped s" using parts by auto
  have old_wf: "topic_wf (in_sequence s) info k old"
    using session_wfD [OF sessions_wf_get [OF inner_wfD(2) [OF wf] se(1)]] old se
    by (auto simp: session_topic_def dest: bt_get_member)
  define base where "base = (if staged_changed (tp_state old) (tp_state t)
      then inner_emit pc (TopicChanged (tp_state (committed_entry (in_sequence s + 1) old t))) s else s)"
  define n where "n = in_sequence base"
  have base: "commit_invariant sid info base" "session_topic base = session_topic s"
      "retained_bytes base = retained_bytes s" "evolves s base" "in_sequence s \<le> n" "unat n \<le> unat (in_sequence s) + 1"
    using emit_running_invariant [OF inv room] inv emit_evolves word_less_plus_one [OF room] unat_plus_one [OF room]
    by (auto simp: base_def n_def)
  have n: "staged_changed (tp_state old) (tp_state t) \<Longrightarrow> n = in_sequence s + 1"
    using emit_running_invariant(4) [OF inv room] by (simp add: base_def n_def)
  have s': "s' = insert_topic sid k (committed_entry n old t) base"
    unfolding s'_def commit_topic_eq [OF run room old] using n by (auto simp: base_def n_def)
  obtain se' where se': "bt_get (in_sessions base) sid = Some se'" "se_info se' = info" and wf': "inner_wf base"
      and run': "\<not> in_stopped base"
    using base(1) by (auto simp: commit_invariant_def)
  have "0 < in_sequence s + 1" using word_less_plus_one [OF room] by (metis word_gt_0 word_not_simps(1))
  then have issued: "topic_wf n info k (committed_entry n old t)" "topic_le old (committed_entry n old t)"
    using committed_wf [OF staged old_wf base(5)] n by auto
  show "commit_invariant sid info s'"
    using insert_topic_wf [OF wf' run' se'(1)] issued(1) se'(2) run' insert_topic_session [OF se'(1)]
    by (simp add: commit_invariant_def s' n_def)
  have old': "session_topic base sid k = Some old" using base(2) old by simp
  have rel: "sessions_rel topic_le (in_sessions base) (in_sessions s')"
    unfolding s' by (rule insert_topic_rel [OF inner_wfD(2) [OF wf'] old']) (simp_all add: issued(2))
  then have "evolves base s'" by (simp add: evolves_def advances_def s')
  then show "evolves s s'" using base(4) evolves_trans by blast
  show "session_topic s' sid k' = session_topic s sid k'" if "k' \<noteq> k"
    unfolding s' insert_topic_get [OF se'(1)] using that base(2) by simp
  show "retained_bytes s' + snapshot_bytes old = retained_bytes s + snapshot_bytes t"
    using insert_topic_bytes [OF inner_wfD(2) [OF wf'] old', of "committed_entry n old t"] base(3)
    by (simp add: s' committed_bytes)
  show "unat (in_sequence s') \<le> unat (in_sequence s) + 1" using base(6) by (simp add: s' n_def)
  show "\<exists>n. session_topic s' sid k = Some (committed_entry n old t)"
    unfolding s' insert_topic_get [OF se'(1)] by auto
qed


lemma room_word: "unat (n :: u64) + m < 2 ^ 64 \<Longrightarrow> 0 < m \<Longrightarrow> n \<noteq> - 1"
  using unat_max_word [where 'a = 64] by auto

definition old_bytes :: "Inner \<Rightarrow> string \<Rightarrow> TopicRef \<Rightarrow> usize" where
  "old_bytes s sid k = (case session_topic s sid k of None \<Rightarrow> 0 | Some t \<Rightarrow> snapshot_bytes t)"

lemma commit_topics_fold:
  assumes "commit_invariant sid info s" and "distinct (map fst kts)"
    and "unat (in_sequence s) + length kts < 2 ^ 64"
    and "\<forall>(k, t) \<in> set kts. \<exists>old. session_topic s sid k = Some old \<and> staged_entry info k old t"
  shows "commit_invariant sid info (fold (commit_topic pc sid) kts s)
    \<and> evolves s (fold (commit_topic pc sid) kts s)
    \<and> unat (in_sequence (fold (commit_topic pc sid) kts s)) \<le> unat (in_sequence s) + length kts
    \<and> retained_bytes (fold (commit_topic pc sid) kts s) + sum_list (map (old_bytes s sid \<circ> fst) kts)
        = retained_bytes s + topics_bytes kts"
  using assms
proof (induction kts arbitrary: s)
  case (Cons x kts)
  obtain k t where x: "x = (k, t)" by (cases x)
  obtain old where old: "session_topic s sid k = Some old" "staged_entry info k old t"
    using Cons.prems(4) x by auto
  have room: "in_sequence s \<noteq> - 1" using Cons.prems(3) room_word [of "in_sequence s" "Suc (length kts)"] by simp
  define s1 where "s1 = commit_topic pc sid (k, t) s"
  note step = commit_topic_step [OF Cons.prems(1) room old s1_def]
  have keep: "session_topic s1 sid k' = session_topic s sid k'" if "k' \<in> fst ` set kts" for k'
    using Cons.prems(2) x that by (intro step(3)) auto
  have entries: "\<forall>(k', t') \<in> set kts. \<exists>old. session_topic s1 sid k' = Some old \<and> staged_entry info k' old t'"
    using Cons.prems(4) keep by force
  have bytes: "map (old_bytes s1 sid \<circ> fst) kts = map (old_bytes s sid \<circ> fst) kts"
    using keep by (simp add: old_bytes_def)
  have "unat (in_sequence s1) + length kts < 2 ^ 64" using step(5) Cons.prems(3) by simp
  from Cons.IH [OF step(1) _ this entries] Cons.prems(2) x
  have IH: "commit_invariant sid info (fold (commit_topic pc sid) kts s1)"
      "evolves s1 (fold (commit_topic pc sid) kts s1)"
      "unat (in_sequence (fold (commit_topic pc sid) kts s1)) \<le> unat (in_sequence s1) + length kts"
      "retained_bytes (fold (commit_topic pc sid) kts s1) + sum_list (map (old_bytes s1 sid \<circ> fst) kts)
        = retained_bytes s1 + topics_bytes kts"
    by (simp_all add: comp_def)
  have fold_eq: "fold (commit_topic pc sid) (x # kts) s = fold (commit_topic pc sid) kts s1"
    by (simp add: x s1_def)
  have "old_bytes s sid k = snapshot_bytes old" by (simp add: old_bytes_def old(1))
  then have "retained_bytes (fold (commit_topic pc sid) kts s1) + sum_list (map (old_bytes s sid \<circ> fst) (x # kts))
      = retained_bytes s + topics_bytes (x # kts)"
    using IH(4) step(4) x by (simp add: bytes topics_bytes_def)
  then show ?case
    unfolding fold_eq using IH(1,3) evolves_trans [OF step(2) IH(2)] step(5) by (simp add: comp_def)
qed (simp add: topics_bytes_def)

text \<open>Resets, events and metadata only emit.\<close>

lemma commit_emits:
  assumes "commit_invariant sid info s" and "unat (in_sequence s) + length us < 2 ^ 64"
    and "\<And>u s. f u s = s \<or> (\<exists>c. f u s = inner_emit pc c s)"
  shows "commit_invariant sid info (fold f us s) \<and> evolves s (fold f us s)
    \<and> unat (in_sequence (fold f us s)) \<le> unat (in_sequence s) + length us
    \<and> retained_bytes (fold f us s) = retained_bytes s
    \<and> session_topic (fold f us s) = session_topic s"
  using assms(1,2)
proof (induction us arbitrary: s)
  case (Cons u us)
  have room: "in_sequence s \<noteq> - 1" using Cons.prems(2) room_word [of "in_sequence s" "Suc (length us)"] by simp
  define s1 where "s1 = f u s"
  have step: "commit_invariant sid info s1" "evolves s s1" "unat (in_sequence s1) \<le> unat (in_sequence s) + 1"
      "retained_bytes s1 = retained_bytes s" "session_topic s1 = session_topic s"
    using assms(3) [of u s] emit_running_invariant [OF Cons.prems(1) room] Cons.prems(1) emit_evolves
      unat_plus_one [OF room] unfolding s1_def by (auto simp only: evolves_refl)
  have "unat (in_sequence s1) + length us < 2 ^ 64" using step(3) Cons.prems(2) by simp
  from Cons.IH [OF step(1) this] show ?case
    using step evolves_trans [OF step(2)] by (auto simp: s1_def [symmetric])
qed simp

lemma commit_reset_emits: "commit_reset pc staged k s = s \<or> (\<exists>c. commit_reset pc staged k s = inner_emit pc c s)"
  by (auto simp: commit_reset_def split: option.splits)

lemma commit_event_emits: "commit_event pc sid e s = s \<or> (\<exists>c. commit_event pc sid e s = inner_emit pc c s)"
  by (cases e) (auto simp: commit_event_def split: option.splits)

definition staged_for :: "Inner \<Rightarrow> string \<Rightarrow> SessionInfo \<Rightarrow> StagedPublication \<Rightarrow> bool" where
  "staged_for s sid info staged \<longleftrightarrow>
     bt_inv (sg_topics staged)
     \<and> (\<forall>(k, t) \<in> set (sg_topics staged). \<exists>old. session_topic s sid k = Some old \<and> staged_entry info k old t)"

lemma commit_staged_correct:
  assumes inv: "commit_invariant sid info s" and staged: "staged_for s sid info staged"
    and room: "unat (in_sequence s) + (length (sg_resets staged) + length (sg_topics staged) + length (sg_events staged)) < 2 ^ 64"
    and s'_def: "s' = commit_staged pc sid staged s"
  shows "inner_wf s'" and "\<not> in_stopped s'" and "evolves s s'"
    and "retained_bytes s' + sum_list (map (old_bytes s sid \<circ> fst) (sg_topics staged))
           = retained_bytes s + topics_bytes (sg_topics staged)"
proof -
  define s1 where "s1 = fold (commit_reset pc staged) (sg_resets staged) s"
  define s2 where "s2 = fold (commit_topic pc sid) (sg_topics staged) s1"
  have s': "s' = fold (commit_event pc sid) (sg_events staged) s2"
    by (simp add: s'_def commit_staged_def s1_def s2_def)
  have "unat (in_sequence s) + length (sg_resets staged) < 2 ^ 64" using room by simp
  note resets = commit_emits [OF inv this, of "commit_reset pc staged" pc, OF commit_reset_emits, folded s1_def]
  have old: "old_bytes s1 sid = old_bytes s sid" using resets by (intro ext) (simp add: old_bytes_def)
  have "unat (in_sequence s1) + length (sg_topics staged) < 2 ^ 64" using resets room by simp
  moreover have "distinct (map fst (sg_topics staged))" using staged by (auto simp: staged_for_def bt_inv_distinct)
  moreover have "\<forall>(k, t) \<in> set (sg_topics staged). \<exists>old. session_topic s1 sid k = Some old \<and> staged_entry info k old t"
    using staged resets by (auto simp: staged_for_def)
  ultimately have topics: "commit_invariant sid info s2" "evolves s1 s2"
      "unat (in_sequence s2) \<le> unat (in_sequence s1) + length (sg_topics staged)"
      "retained_bytes s2 + sum_list (map (old_bytes s sid \<circ> fst) (sg_topics staged))
         = retained_bytes s1 + topics_bytes (sg_topics staged)"
    using commit_topics_fold [of sid info s1 "sg_topics staged" pc] resets unfolding s2_def old by auto
  have "unat (in_sequence s2) + length (sg_events staged) < 2 ^ 64" using resets topics(3) room by simp
  note events = commit_emits [OF topics(1) this, of "commit_event pc sid" pc, OF commit_event_emits, folded s']
  show "inner_wf s'" "\<not> in_stopped s'" using events by (auto simp: commit_invariant_def)
  show "evolves s s'" using resets topics(2) events evolves_trans by blast
  show "retained_bytes s' + sum_list (map (old_bytes s sid \<circ> fst) (sg_topics staged))
      = retained_bytes s + topics_bytes (sg_topics staged)"
    using resets topics(4) events by simp
qed


subsection \<open>What preparation stages\<close>

definition prepared :: "Session_entry \<Rightarrow> StagedPublication \<Rightarrow> bool" where
  "prepared se staged \<longleftrightarrow>
     bt_inv (sg_topics staged)
     \<and> (\<forall>(k, t) \<in> set (sg_topics staged).
          \<exists>old. bt_get (se_topics se) k = Some old \<and> staged_entry (se_info se) k old t)"

definition provider_op :: "Operation \<Rightarrow> bool" where
  "provider_op op \<longleftrightarrow> (\<forall>k. op \<noteq> Op_Health k Idle \<and> op \<noteq> Op_Health k Initializing)"

lemma staged_entry_ops:
  assumes "staged_entry info k old t"
  shows "checked_add (ts_generation (tp_state t)) 1 = Some g \<Longrightarrow> checked_add (tp_epoch t) 1 = Some e \<Longrightarrow>
      staged_entry info k old (t\<lparr>tp_state := (tp_state t)\<lparr>ts_generation := g, ts_snapshot := None,
        ts_health := Initializing\<rparr>, tp_epoch := e, tp_deadline := Some d\<rparr>)"
    and "staged_entry info k old (t\<lparr>tp_state := (tp_state t)\<lparr>ts_health := Available,
        ts_snapshot := Some \<lparr>de_metadata = \<lparr>md_source = ts_source (tp_state t),
          md_generation = ts_generation (tp_state t), md_sequence = 0\<rparr>, de_payload = p\<rparr>\<rparr>, tp_deadline := Some d\<rparr>)"
    and "h \<noteq> Idle \<Longrightarrow> h \<noteq> Initializing \<Longrightarrow> staged_entry info k old (t\<lparr>tp_state := (tp_state t)\<lparr>ts_health := h,
        ts_snapshot := (if h = Available then ts_snapshot (tp_state t) else None)\<rparr>, tp_deadline := (if h = Available then Some d else None)\<rparr>)"
proof -
  assume "checked_add (ts_generation (tp_state t)) 1 = Some g" "checked_add (tp_epoch t) 1 = Some e"
  then have "ts_generation (tp_state t) < g" "tp_epoch t < e" by (auto intro: checked_add_1_less)
  then show "staged_entry info k old (t\<lparr>tp_state := (tp_state t)\<lparr>ts_generation := g, ts_snapshot := None,
        ts_health := Initializing\<rparr>, tp_epoch := e, tp_deadline := Some d\<rparr>)"
    using assms by (auto simp: staged_entry_def topic_core_def topic_le_def topic_ord_def)
qed (use assms in \<open>auto simp: staged_entry_def topic_core_def topic_le_def topic_ord_def topic_coherent_def split: option.splits\<close>)

lemma prepared_get:
  "prepared se staged \<Longrightarrow> bt_get (sg_topics staged) k = Some t \<Longrightarrow> bt_get (se_topics se) k = Some old \<Longrightarrow>
     staged_entry (se_info se) k old t"
  by (fastforce simp: prepared_def dest: bt_get_member)

lemma prepared_insert:
  assumes "prepared se staged" and "bt_get (se_topics se) k = Some old" and "staged_entry (se_info se) k old t"
    and "sg_topics staged' = bt_insert k t (sg_topics staged)"
  shows "prepared se staged'"
proof -
  have inv: "bt_inv (sg_topics staged')" using assms(1,4) by (simp add: prepared_def bt_inv_insert)
  moreover have "\<exists>old. bt_get (se_topics se) k' = Some old \<and> staged_entry (se_info se) k' old t'"
    if "(k', t') \<in> set (sg_topics staged')" for k' t'
    using that bt_member_get [OF inv] assms
    by (cases "k' = k") (auto simp: bt_get_insert prepared_def dest!: bt_get_member)
  ultimately show ?thesis by (auto simp: prepared_def)
qed

lemma prepare_operation_prepared:
  assumes "prepare_operation se ticket deadline staged op = Ok staged'" and "prepared se staged"
    and "provider_op op" and se: "session_wf (topic_wf n) run sid se" and "ticket_current se ticket"
  shows "prepared se staged'"
proof -
  let ?k = "op_key op"
  obtain current where current: "bt_get (se_topics se) ?k = Some current"
    and demanded: "list_ex (\<lambda>d. dm_key d = ?k) (tk_topics ticket)"
    and stage: "stage_operation deadline op
       (case bt_get (sg_topics staged) ?k of Some t \<Rightarrow> t | None \<Rightarrow> current) staged = Ok staged'"
    using assms(1) by (auto simp: prepare_operation_def Let_def)
  define t where "t = (case bt_get (sg_topics staged) ?k of Some t \<Rightarrow> t | None \<Rightarrow> current)"
  have "tp_demanded current"
    using assms(5) demanded current by (auto simp: ticket_current_def list_ex_iff split: option.splits)
  moreover have "topic_wf n (se_info se) ?k current"
    using session_wfD [OF se bt_get_member [OF current]] .
  ultimately have "staged_entry (se_info se) ?k current current"
    by (simp add: staged_entry_def topic_wf_def)
  then have base: "staged_entry (se_info se) ?k current t"
    using prepared_get [OF assms(2) _ current] by (auto simp: t_def split: option.splits)
  note ops = staged_entry_ops [OF base] and stage = stage [folded t_def]
  show ?thesis
  proof (cases op)
    case (Op_Reset k)
    then show ?thesis
      using stage current ops(1)
      by (auto simp: stage_operation_def intro!: prepared_insert [OF assms(2) current])
  next
    case (Op_Snapshot k p)
    then show ?thesis
      using stage current ops(2)
      by (auto simp: stage_operation_def intro!: prepared_insert [OF assms(2) current])
  next
    case (Op_Event k p)
    then show ?thesis
      using stage current base
      by (auto simp: stage_operation_def intro!: prepared_insert [OF assms(2) current])
  next
    case (Op_Health k h)
    then have "h \<noteq> Idle" "h \<noteq> Initializing" using assms(3) by (auto simp: provider_op_def)
    then show ?thesis
      using stage current ops(3) Op_Health
      by (auto simp: stage_operation_def intro!: prepared_insert [OF assms(2) current])
  qed
qed

lemma prepare_prepared:
  assumes "prepare se ticket ops deadline = Ok staged" and "list_all provider_op ops"
    and "session_wf (topic_wf n) run sid se" and "ticket_current se ticket"
  shows "prepared se staged"
  using assms(1) unfolding prepare_def
  by (rule try_fold_invariant [where P = "prepared se"])
    (use assms(2-4) prepare_operation_prepared in \<open>auto simp: prepared_def list_all_iff\<close>)


subsection \<open>Committing a poll\<close>

lemma commit_poll_cases:
  obtains (untouched) r where "commit_poll pc now ticket batch deadline s = (s, r)" "r \<noteq> Ok True"
    | (closed) "commit_poll pc now ticket batch deadline s = (inner_close exhausted_end s, Ok False)"
    | (committed) se staged metadata where
      "\<not> pn_failed (pb_pending batch)" "\<not> in_stopped s"
      "bt_get (in_sessions s) (tk_session_id ticket) = Some se" "ticket_current se ticket"
      "commit_checks pc ticket (pb_pending batch) deadline s se = Ok (staged, metadata)"
      "unat (in_sequence s) + (length (sg_resets staged) + length (sg_topics staged) + length (sg_events staged)
         + (if metadata = None then 0 else 1)) < 2 ^ 64"
      "commit_poll pc now ticket batch deadline s =
         (inner_settle pc now (commit_staged pc (tk_session_id ticket) staged
            (commit_metadata pc (tk_session_id ticket) metadata s)), Ok True)"
proof -
  let ?sid = "tk_session_id ticket" and ?p = "pb_pending batch"
  consider (early) "pn_failed ?p \<or> in_stopped s \<or> bt_get (in_sessions s) ?sid = None"
    | (live) se where "\<not> pn_failed ?p" "\<not> in_stopped s" "bt_get (in_sessions s) ?sid = Some se"
    by fastforce
  then show ?thesis
  proof cases
    case early
    then show ?thesis
      by (intro untouched [of "snd (commit_poll pc now ticket batch deadline s)"])
        (auto simp: commit_poll_def Let_def)
  next
    case (live se)
    show ?thesis
    proof (cases "ticket_current se ticket")
      case False
      then show ?thesis using live by (intro untouched [of "Ok False"]) (simp_all add: commit_poll_def)
    next
      case current: True
      show ?thesis
      proof (cases "reset_exhausted se (pn_ops ?p)")
        case True
        then show ?thesis using live current by (intro closed) (simp add: commit_poll_def)
      next
        case False
        show ?thesis
        proof (cases "commit_checks pc ticket ?p deadline s se")
          case (Err e)
          then show ?thesis using live current False by (intro untouched [of "Err e"]) (simp_all add: commit_poll_def)
        next
          case (Ok pair)
          obtain staged metadata where pair: "pair = (staged, metadata)" by (cases pair)
          let ?n = "length (sg_resets staged) + length (sg_topics staged) + length (sg_events staged)
             + (if metadata = None then 0 else 1)"
          show ?thesis
          proof (cases rule: ensure_sequences_cases [of s ?n])
            case stopped
            then show ?thesis using live by simp
          next
            case exhausted
            then show ?thesis using live current False Ok pair by (intro closed) (simp add: commit_poll_def)
          next
            case reserved
            show ?thesis
              by (rule committed [OF live current _ reserved(2)])
                (use live current False Ok pair reserved(3) in \<open>simp_all add: commit_poll_def Let_def\<close>)
          qed
        qed
      qed
    qed
  qed
qed

lemma topic_wf_info:
  "si_session info' = si_session info \<Longrightarrow> si_game_id info' = si_game_id info \<Longrightarrow>
   si_provider_id info' = si_provider_id info \<Longrightarrow> topic_wf n info' k t = topic_wf n info k t"
  by (simp add: topic_wf_def topic_core_def topic_source_def)

lemma staged_entry_info:
  "si_session info' = si_session info \<Longrightarrow> si_game_id info' = si_game_id info \<Longrightarrow>
   si_provider_id info' = si_provider_id info \<Longrightarrow> staged_entry info' k old t = staged_entry info k old t"
  by (simp add: staged_entry_def topic_core_def topic_source_def)

lemma set_info_wf:
  assumes wf: "inner_wf s" and run: "\<not> in_stopped s" and se: "bt_get (in_sessions s) sid = Some se"
    and same: "si_session info = si_session (se_info se)" "si_game_id info = si_game_id (se_info se)"
      "si_provider_id info = si_provider_id (se_info se)"
  shows "inner_wf (s\<lparr>in_sessions := bt_update sid (\<lambda>se. se\<lparr>se_info := info\<rparr>) (in_sessions s)\<rparr>)"
proof -
  have old: "session_wf (topic_wf (in_sequence s)) (in_run_id s) sid se"
    by (rule sessions_wf_get [OF inner_wfD(2) [OF wf] se])
  have "session_wf (topic_wf (in_sequence s)) (in_run_id s) sid (se\<lparr>se_info := info\<rparr>)"
    by (rule session_wfI)
      (use session_wf_ref [OF old] session_wf_topics [OF old] session_wfD [OF old] topic_wf_info [OF same]
       in \<open>simp_all add: same\<close>)
  from update_session_wf [where f = "\<lambda>se. se\<lparr>se_info := info\<rparr>", OF inner_wfD(2) [OF wf] se this]
  show ?thesis
    using wf run by (simp add: inner_wf_def queues_wf_def stopped_idle_def)
qed

definition updated_info :: "Session_entry \<Rightarrow> SessionInfo option \<Rightarrow> SessionInfo" where
  "updated_info se metadata = (case metadata of None \<Rightarrow> se_info se | Some info \<Rightarrow> info)"

lemma commit_metadata_step:
  assumes wf: "inner_wf s" and run: "\<not> in_stopped s" and se: "bt_get (in_sessions s) sid = Some se"
    and meta: "metadata = None \<or> metadata = Some ((se_info se)\<lparr>si_game_build := b\<rparr>)"
    and room: "unat (in_sequence s) + (m + (if metadata = None then 0 else 1)) < 2 ^ 64"
  shows "commit_invariant sid (updated_info se metadata) (commit_metadata pc sid metadata s)"
    and "evolves s (commit_metadata pc sid metadata s)"
    and "retained_bytes (commit_metadata pc sid metadata s) = retained_bytes s"
    and "session_topic (commit_metadata pc sid metadata s) sid = session_topic s sid"
    and "unat (in_sequence (commit_metadata pc sid metadata s)) + m < 2 ^ 64"
proof -
  consider (none) "metadata = None" | (some) "metadata = Some ((se_info se)\<lparr>si_game_build := b\<rparr>)"
    using meta by blast
  then have "commit_invariant sid (updated_info se metadata) (commit_metadata pc sid metadata s)
    \<and> evolves s (commit_metadata pc sid metadata s)
    \<and> retained_bytes (commit_metadata pc sid metadata s) = retained_bytes s
    \<and> session_topic (commit_metadata pc sid metadata s) sid = session_topic s sid
    \<and> unat (in_sequence (commit_metadata pc sid metadata s)) + m < 2 ^ 64"
  proof cases
    case none
    then show ?thesis
      using wf run se room by (simp add: commit_metadata_def commit_invariant_def updated_info_def)
  next
    case some
    let ?info = "(se_info se)\<lparr>si_game_build := b\<rparr>"
    define s1 where "s1 = s\<lparr>in_sessions := bt_update sid (\<lambda>se. se\<lparr>se_info := ?info\<rparr>) (in_sessions s)\<rparr>"
    have s': "commit_metadata pc sid metadata s = inner_emit pc (SessionChanged ?info) s1"
      by (simp add: commit_metadata_def some s1_def)
    have inv1: "commit_invariant sid ?info s1"
      using set_info_wf [OF wf run se, of ?info] run se by (simp add: commit_invariant_def s1_def bt_get_update)
    have room1: "in_sequence s1 \<noteq> - 1" using room_word [of "in_sequence s" "m + 1"] room some by (simp add: s1_def)
    have seq1: "in_sequence s1 = in_sequence s" by (simp add: s1_def)
    note emit = emit_running_invariant [OF inv1 room1, of pc "SessionChanged ?info"]
    have "session_rel topic_le se (se\<lparr>se_info := ?info\<rparr>)"
      by (simp add: session_rel_def topics_rel_refl)
    then have "sessions_rel topic_le (in_sessions s) (in_sessions s1)"
      using sessions_rel_update [of topic_le "in_sessions s" sid se "\<lambda>se. se\<lparr>se_info := ?info\<rparr>"]
        sessions_wf_inv [OF inner_wfD(2) [OF wf]] se by (simp add: s1_def)
    then have "evolves s s1" by (simp add: evolves_def advances_def s1_def)
    moreover have "retained_bytes s1 = retained_bytes s"
      using retained_bytes_update [OF sessions_wf_inv [OF inner_wfD(2) [OF wf]] se, of "\<lambda>se. se\<lparr>se_info := ?info\<rparr>"]
      by (simp add: retained_bytes_def s1_def)
    moreover have "session_topic s1 sid = session_topic s sid"
      using se by (intro ext) (simp add: session_topic_def s1_def bt_get_update)
    ultimately show ?thesis
      unfolding s' using emit evolves_trans [OF _ emit_evolves] room some unat_plus_one [OF room1] seq1
      by (simp add: updated_info_def)
  qed
  then show "commit_invariant sid (updated_info se metadata) (commit_metadata pc sid metadata s)"
    and "evolves s (commit_metadata pc sid metadata s)"
    and "retained_bytes (commit_metadata pc sid metadata s) = retained_bytes s"
    and "session_topic (commit_metadata pc sid metadata s) sid = session_topic s sid"
    and "unat (in_sequence (commit_metadata pc sid metadata s)) + m < 2 ^ 64"
    by simp_all
qed


lemma commit_checks_OkD:
  assumes "commit_checks pc ticket pending deadline s se = Ok (staged, metadata)"
  shows "prepare se ticket (pn_ops pending) deadline = Ok staged" and "validate pc s se staged = Ok ()"
    and "metadata = None \<or> metadata = Some ((se_info se)\<lparr>si_game_build := pn_game_build pending\<rparr>)"
  using assms by (auto simp: commit_checks_def Let_def split: if_splits)

lemma replaced_bytes_old:
  "bt_get (in_sessions s) sid = Some se \<Longrightarrow>
     replaced_bytes se staged = sum_list (map (old_bytes s sid \<circ> fst) (sg_topics staged))"
  by (simp add: replaced_bytes_def old_bytes_def session_topic_def comp_def)

lemma keys_bytes_le:
  assumes "bt_inv ts" and "distinct ks"
  shows "sum_list (map (\<lambda>k. case bt_get ts k of None \<Rightarrow> 0 | Some t \<Rightarrow> snapshot_bytes t) ks) \<le> topics_bytes ts"
proof -
  let ?f = "\<lambda>k. case bt_get ts k of None \<Rightarrow> 0 | Some t \<Rightarrow> snapshot_bytes t"
  have "sum_list (map ?f ks) = sum ?f (set ks)" using assms(2) by (rule sum_list_distinct_conv_sum_set)
  also have "\<dots> = sum ?f (set ks \<inter> fst ` set ts)"
    by (rule sum.mono_neutral_right) (auto split: option.splits dest!: bt_get_member intro: rev_image_eqI)
  also have "\<dots> \<le> sum ?f (set (map fst ts))" by (rule sum_mono2) auto
  also have "\<dots> = sum_list (map ?f (map fst ts))"
    using bt_inv_distinct [OF assms(1)] by (rule sum_list_distinct_conv_sum_set [symmetric])
  also have "\<dots> = topics_bytes ts"
    unfolding topics_bytes_def using bt_member_get [OF assms(1)]
    by (intro arg_cong [where f = sum_list]) (auto simp: split_paired_all)
  finally show ?thesis .
qed

lemma session_bytes_le:
  assumes "bt_get (in_sessions s) sid = Some se"
  shows "topics_bytes (se_topics se) \<le> retained_bytes s"
  using bt_get_member [OF assms] unfolding retained_bytes_def
  by (intro sum_list_le_member) force

lemma commit_poll_correct:
  assumes wf: "inner_wf s" and ops: "list_all provider_op (pn_ops (pb_pending batch))"
    and commit: "commit_poll pc now ticket batch deadline s = (s', r)"
  shows "inner_wf s'" and "evolves s s'"
    and "retained_bytes s \<le> RETAINED_SNAPSHOT_BYTES \<Longrightarrow> retained_bytes s' \<le> RETAINED_SNAPSHOT_BYTES"
    and "settled s \<Longrightarrow> settled s'"
proof -
  have "inner_wf s' \<and> evolves s s' \<and> (settled s \<longrightarrow> settled s') \<and>
      (retained_bytes s \<le> RETAINED_SNAPSHOT_BYTES \<longrightarrow> retained_bytes s' \<le> RETAINED_SNAPSHOT_BYTES)"
  proof (cases rule: commit_poll_cases [of pc now ticket batch deadline s])
    case (untouched r)
    then show ?thesis using commit wf by simp
  next
    case closed
    then show ?thesis
      using commit wf sheds_bytes [OF close_sheds [of s exhausted_end]]
      by (auto simp: close_evolves inner_close_wf inner_wfD(1,3) inner_wf_sessions_core intro!: stopped_settled)
  next
    case (committed se staged metadata)
    let ?sid = "tk_session_id ticket"
    define s1 where "s1 = commit_metadata pc ?sid metadata s"
    define s2 where "s2 = commit_staged pc ?sid staged s1"
    note checks = commit_checks_OkD [OF committed(5)]
    have s': "s' = inner_settle pc now s2" using commit committed(7) by (simp add: s1_def s2_def)
    have se: "session_wf (topic_wf (in_sequence s)) (in_run_id s) ?sid se"
      by (rule sessions_wf_get [OF inner_wfD(2) [OF wf] committed(3)])
    have prep: "prepared se staged" by (rule prepare_prepared [OF checks(1) ops se committed(4)])
    note meta = commit_metadata_step [OF wf committed(2,3) checks(3) committed(6), of pc, folded s1_def]
    have info: "si_session (updated_info se metadata) = si_session (se_info se)"
        "si_game_id (updated_info se metadata) = si_game_id (se_info se)"
        "si_provider_id (updated_info se metadata) = si_provider_id (se_info se)"
      using checks(3) by (auto simp: updated_info_def)
    have get: "session_topic s1 ?sid = bt_get (se_topics se)"
      unfolding meta(4) using committed(3) by (intro ext) (simp add: session_topic_def)
    have "staged_for s1 ?sid (updated_info se metadata) staged"
      using prep unfolding staged_for_def prepared_def get staged_entry_info [OF info] .
    note fin = commit_staged_correct [OF meta(1) this meta(5) s2_def]
    have old: "sum_list (map (old_bytes s1 ?sid \<circ> fst) (sg_topics staged)) = replaced_bytes se staged"
      using get by (simp add: replaced_bytes_def old_bytes_def comp_def)
    have "replaced_bytes se staged \<le> topics_bytes (se_topics se)"
      unfolding replaced_bytes_def
      by (rule keys_bytes_le) (use prep session_wf_topics [OF se] in \<open>simp_all add: prepared_def bt_inv_distinct\<close>)
    also have "\<dots> \<le> retained_bytes s" by (rule session_bytes_le [OF committed(3)])
    finally have "retained_bytes s2 = retained_bytes s - replaced_bytes se staged + topics_bytes (sg_topics staged)"
      using fin(4) meta(3) old by simp
    also have "\<dots> \<le> RETAINED_SNAPSHOT_BYTES" using checks(2) by (simp add: validate_def)
    finally have "retained_bytes s' \<le> RETAINED_SNAPSHOT_BYTES"
      using sheds_bytes [OF settle_sheds [of s2 pc now]] by (simp add: s')
    then show ?thesis
      using fin(1,3) meta(2) evolves_trans settle_evolves settle_wf settle_settled s' by blast
  qed
  then show "inner_wf s'" and "evolves s s'"
    and "retained_bytes s \<le> RETAINED_SNAPSHOT_BYTES \<Longrightarrow> retained_bytes s' \<le> RETAINED_SNAPSHOT_BYTES"
    and "settled s \<Longrightarrow> settled s'"
    by simp_all
qed

text \<open>
  C11: a commit is all or nothing: unless it reports success it leaves the service exactly as it
  was, or closes it because a counter is exhausted.
\<close>

theorem commit_poll_atomic:
  assumes "commit_poll pc now ticket batch deadline s = (s', r)" and "r \<noteq> Ok True"
  shows "s' = s \<or> (r = Ok False \<and> s' = inner_close exhausted_end s)"
  using assms by (cases rule: commit_poll_cases [of pc now ticket batch deadline s]) auto

lemma prepare_keys:
  assumes "prepare se ticket ops deadline = Ok staged" and "op \<in> set ops"
  shows "list_ex (\<lambda>d. dm_key d = op_key op) (tk_topics ticket)"
proof -
  have "\<forall>op \<in> set ops. list_ex (\<lambda>d. dm_key d = op_key op) (tk_topics ticket)"
    if "try_fold (prepare_operation se ticket deadline) st ops = Ok staged" for st
    using that by (induction ops arbitrary: st) (auto simp: prepare_operation_def Let_def)
  then show ?thesis using assms by (auto simp: prepare_def)
qed

text \<open>
  C10: a batch is published only for a ticket that still describes the session: the session
  exists, every topic of the ticket is demanded in the ticket's generation and epoch, every
  operation concerns such a topic, and no call of the poll had been rejected.
\<close>

theorem commit_poll_fenced:
  assumes "commit_poll pc now ticket batch deadline s = (s', Ok True)"
  shows "\<not> in_stopped s \<and> \<not> pn_failed (pb_pending batch)
    \<and> list_all (\<lambda>d. \<exists>t. session_topic s (tk_session_id ticket) (dm_key d) = Some t \<and> tp_demanded t
         \<and> ts_generation (tp_state t) = dm_generation d \<and> tp_epoch t = dm_epoch d) (tk_topics ticket)
    \<and> list_all (\<lambda>op. list_ex (\<lambda>d. dm_key d = op_key op) (tk_topics ticket)) (pn_ops (pb_pending batch))"
proof (cases rule: commit_poll_cases [of pc now ticket batch deadline s])
  case (committed se staged metadata)
  have "\<exists>t. session_topic s (tk_session_id ticket) (dm_key d) = Some t \<and> tp_demanded t
         \<and> ts_generation (tp_state t) = dm_generation d \<and> tp_epoch t = dm_epoch d"
    if "d \<in> set (tk_topics ticket)" for d
    using that committed(3,4)
    by (cases "bt_get (se_topics se) (dm_key d)") (auto simp: ticket_current_def list_ex_iff session_topic_def)
  then show ?thesis
    using committed(1,2) prepare_keys [OF commit_checks_OkD(1) [OF committed(5)]] by (simp add: list_all_iff)
qed (use assms in auto)


subsection \<open>Discarding a poll\<close>

lemma discard_topic_sel:
  "tp_demanded (discard_topic reset t) = tp_demanded t" "tp_deadline (discard_topic reset t) = None"
  "tp_epoch (discard_topic reset t) = (if reset then tp_epoch t + 1 else tp_epoch t)"
  "ts_generation (tp_state (discard_topic reset t)) =
     (if reset then ts_generation (tp_state t) + 1 else ts_generation (tp_state t))"
  "ts_source (tp_state (discard_topic reset t)) = ts_source (tp_state t)"
  "ts_snapshot (tp_state (discard_topic reset t)) = None"
  "ts_health (tp_state (discard_topic reset t)) = acquisition_failed"
  by (simp_all add: discard_topic_def Let_def)

lemma discard_topic_step:
  assumes "topic_wf n info k t" and "tp_demanded t"
    and "reset \<longrightarrow> ts_generation (tp_state t) \<noteq> - 1 \<and> tp_epoch t \<noteq> - 1"
  shows "topic_wf n info k (discard_topic reset t)" and "topic_le t (discard_topic reset t)"
    and "snapshot_bytes (discard_topic reset t) = 0"
proof -
  have up: "reset \<Longrightarrow> ts_generation (tp_state t) < ts_generation (tp_state t) + 1" "reset \<Longrightarrow> tp_epoch t < tp_epoch t + 1"
    using assms(3) by (auto intro: word_less_plus_one)
  show "topic_wf n info k (discard_topic reset t)"
    using assms(1,2) up
    by (auto simp: topic_wf_def topic_core_def discard_topic_sel acquisition_failed_def topic_coherent_def snapshot_issued_def)
  show "topic_le t (discard_topic reset t)"
    using up assms(2) by (cases reset) (auto simp: topic_le_def topic_ord_def discard_topic_sel less_imp_le)
qed (simp add: snapshot_bytes_def discard_topic_sel)

definition discardable :: "Session_entry \<Rightarrow> TopicRef \<times> bool \<Rightarrow> bool" where
  "discardable se = (\<lambda>(k, reset). \<exists>t. bt_get (se_topics se) k = Some t \<and> tp_demanded t
     \<and> (reset \<longrightarrow> ts_generation (tp_state t) \<noteq> - 1 \<and> tp_epoch t \<noteq> - 1))"

abbreviation keeps_topic :: "Topic_entry \<Rightarrow> Topic_entry \<Rightarrow> bool" where
  "keeps_topic a b \<equiv> topic_le a b \<and> snapshot_bytes b \<le> snapshot_bytes a"

lemma discard_fold:
  assumes "session_wf (topic_wf n) run sid se" and "distinct (map fst affected)"
    and "list_all (discardable se) affected"
    and "fold discard_step affected (se, retry, changes) = (se', retry', changes')"
  shows "session_wf (topic_wf n) run sid se' \<and> session_rel keeps_topic se se'"
  using assms
proof (induction affected arbitrary: se retry changes)
  case Nil
  then show ?case by (simp add: session_rel_refl)
next
  case (Cons x affected)
  obtain k reset where x: "x = (k, reset)" by (cases x)
  obtain t where t: "bt_get (se_topics se) k = Some t" "tp_demanded t"
      "reset \<longrightarrow> ts_generation (tp_state t) \<noteq> - 1 \<and> tp_epoch t \<noteq> - 1"
    using Cons.prems(3) x by (auto simp: discardable_def)
  define se1 where "se1 = se\<lparr>se_topics := bt_update k (\<lambda>_. discard_topic reset t) (se_topics se)\<rparr>"
  obtain retry1 changes1 where step: "discard_step x (se, retry, changes) = (se1, retry1, changes1)"
    using t(1) by (simp add: x discard_step_def se1_def Let_def)
  have inv: "bt_inv (se_topics se)" using Cons.prems(1) by (rule session_wf_topics)
  note new = discard_topic_step [OF session_wfD [OF Cons.prems(1) bt_get_member [OF t(1)]] t(2,3)]
  have wf1: "session_wf (topic_wf n) run sid se1"
  proof (rule session_wfI)
    fix k' t' assume "(k', t') \<in> set (se_topics se1)"
    then have "bt_get (se_topics se1) k' = Some t'" using inv by (simp add: se1_def bt_member_get)
    then show "topic_wf n (se_info se1) k' t'"
      using new(1) session_wfD [OF Cons.prems(1)]
      by (auto simp: se1_def bt_get_update dest: bt_get_member split: if_splits)
  qed (use Cons.prems(1) inv in \<open>simp_all add: se1_def session_wf_ref\<close>)
  have rel: "session_rel keeps_topic se se1"
    using topics_rel_update [of keeps_topic "se_topics se" k "discard_topic reset t"] t(1) new(2,3) inv
    by (simp add: session_rel_def se1_def)
  have "discardable se1 y" if "y \<in> set affected" for y
  proof -
    have "fst y \<noteq> k" using Cons.prems(2) x that by force
    then have "bt_get (se_topics se1) (fst y) = bt_get (se_topics se) (fst y)"
      by (simp add: se1_def bt_get_update)
    moreover have "discardable se y" using Cons.prems(3) that by (simp add: list_all_iff)
    ultimately show ?thesis by (simp add: discardable_def case_prod_beta)
  qed
  then have "list_all (discardable se1) affected" by (simp add: list_all_iff)
  from Cons.IH [OF wf1 _ this, of retry1 changes1] Cons.prems(2,4) step
  have "session_wf (topic_wf n) run sid se'" and "session_rel keeps_topic se1 se'" by auto
  moreover have "session_rel keeps_topic se se'"
    by (rule session_rel_trans [OF _ rel \<open>session_rel keeps_topic se1 se'\<close>]) (auto intro: topic_le_trans order_trans)
  ultimately show ?case by simp
qed

lemma set_map_filter: "x \<in> set (List.map_filter f xs) \<longleftrightarrow> (\<exists>y \<in> set xs. f y = Some x)"
  by (force simp: List.map_filter_def)

lemma affected_discardable:
  assumes "\<not> list_ex (\<lambda>(key, reset). reset \<and>
      (case bt_get (se_topics se) key of
         None \<Rightarrow> False
       | Some t \<Rightarrow> ts_generation (tp_state t) = u64_max \<or> tp_epoch t = u64_max)) (discard_affected se ticket resets failed)"
  shows "list_all (discardable se) (discard_affected se ticket resets failed)"
proof -
  have "\<exists>t. bt_get (se_topics se) k = Some t \<and> tp_demanded t"
    if "(k, reset) \<in> set (discard_affected se ticket resets failed)" for k reset
  proof -
    have "bt_get (discard_affected se ticket resets failed) k = Some reset"
      by (rule iffD1 [OF bt_member_get that]) (simp add: discard_affected_def bt_inv_collect)
    then obtain d where "affected_demand se resets failed d = Some (k, reset)"
      by (auto simp: discard_affected_def bt_get_collect set_map_filter dest!: map_of_SomeD)
    then show ?thesis
      by (auto simp: affected_demand_def Let_def split: option.splits if_splits)
  qed
  then show ?thesis
    using assms by (fastforce simp: list_all_iff list_ex_iff discardable_def split: option.splits)
qed

lemma discard_poll_cases:
  obtains (untouched) "discard_poll pc now ticket resets failed s = (s, None)"
    | (closed) "discard_poll pc now ticket resets failed s = (inner_close exhausted_end s, None)"
    | (discarded) se se' retry changes where "\<not> in_stopped s"
      "bt_get (in_sessions s) (tk_session_id ticket) = Some se"
      "list_all (discardable se) (discard_affected se ticket resets failed)"
      "fold discard_step (discard_affected se ticket resets failed) (se, ticket, []) = (se', retry, changes)"
      "fst (discard_poll pc now ticket resets failed s) =
         inner_settle pc now (fold (inner_emit pc) changes
           (s\<lparr>in_sessions := bt_update (tk_session_id ticket) (\<lambda>_. se') (in_sessions s)\<rparr>))"
proof (cases "in_stopped s \<or> bt_get (in_sessions s) (tk_session_id ticket) = None")
  case True
  then show ?thesis by (intro untouched) (auto simp: discard_poll_def)
next
  case False
  then obtain se where se: "bt_get (in_sessions s) (tk_session_id ticket) = Some se" by auto
  let ?aff = "discard_affected se ticket resets failed"
  show ?thesis
  proof (cases "list_ex (\<lambda>(key, reset). reset \<and>
      (case bt_get (se_topics se) key of
         None \<Rightarrow> False
       | Some t \<Rightarrow> ts_generation (tp_state t) = u64_max \<or> tp_epoch t = u64_max)) ?aff")
    case True
    then show ?thesis using False se by (intro closed) (simp add: discard_poll_def Let_def)
  next
    case fine: False
    obtain se' retry changes where fold_eq: "fold discard_step ?aff (se, ticket, []) = (se', retry, changes)"
      by (metis prod_cases3)
    show ?thesis
    proof (cases rule: ensure_sequences_cases [of s "length ?aff + length (filter snd ?aff)"])
      case stopped
      then show ?thesis using False by simp
    next
      case exhausted
      then show ?thesis using False se fine by (intro closed) (simp add: discard_poll_def Let_def)
    next
      case reserved
      then show ?thesis
        using False se fine fold_eq affected_discardable [OF fine]
        by (intro discarded [of se se' retry changes]) (simp_all add: discard_poll_def Let_def)
    qed
  qed
qed

lemma discard_poll_correct:
  assumes wf: "inner_wf s"
  shows "inner_wf (fst (discard_poll pc now ticket resets failed s))"
    and "evolves s (fst (discard_poll pc now ticket resets failed s))"
    and "sheds s (fst (discard_poll pc now ticket resets failed s))"
    and "settled s \<Longrightarrow> settled (fst (discard_poll pc now ticket resets failed s))"
proof -
  have "inner_wf (fst (discard_poll pc now ticket resets failed s))
      \<and> evolves s (fst (discard_poll pc now ticket resets failed s))
      \<and> sheds s (fst (discard_poll pc now ticket resets failed s))
      \<and> (settled s \<longrightarrow> settled (fst (discard_poll pc now ticket resets failed s)))"
  proof (cases rule: discard_poll_cases [of pc now ticket resets failed s])
    case closed
    then show ?thesis
      using wf
      by (simp add: close_evolves close_sheds inner_close_wf inner_wfD(1,3) inner_wf_sessions_core stopped_settled)
  next
    case (discarded se se' retry changes)
    let ?sid = "tk_session_id ticket" and ?aff = "discard_affected se ticket resets failed"
    define s1 where "s1 = s\<lparr>in_sessions := bt_update ?sid (\<lambda>_. se') (in_sessions s)\<rparr>"
    have se: "session_wf (topic_wf (in_sequence s)) (in_run_id s) ?sid se"
      by (rule sessions_wf_get [OF inner_wfD(2) [OF wf] discarded(2)])
    have "distinct (map fst ?aff)" by (simp add: discard_affected_def bt_inv_collect bt_inv_distinct)
    note fin = discard_fold [OF se this discarded(3,4)]
    have rel: "sessions_rel keeps_topic (in_sessions s) (in_sessions s1)"
      using sessions_rel_update [of keeps_topic "in_sessions s" ?sid se "\<lambda>_. se'"] fin
        sessions_wf_inv [OF inner_wfD(2) [OF wf]] discarded(2) by (simp add: s1_def)
    have part: "sessions_rel R (in_sessions s) (in_sessions s1)" if "\<And>a b. keeps_topic a b \<Longrightarrow> R a b" for R
    proof -
      have topics: "topics_rel keeps_topic a b \<Longrightarrow> topics_rel R a b" for a b
        unfolding topics_rel_def by (erule list_all2_mono) (use that in auto)
      have "session_rel keeps_topic a b \<Longrightarrow> session_rel R a b" for a b
        using topics by (simp add: session_rel_def)
      then show ?thesis
        using rel unfolding sessions_rel_def by (elim list_all2_mono) auto
    qed
    have evolve: "evolves s s1" using part [of topic_le] by (simp add: evolves_def advances_def s1_def)
    have shed: "sheds s s1" using part by (simp add: sheds_def)
    have "inner_wf s1"
      using update_session_wf [OF inner_wfD(2) [OF wf] discarded(2), of "\<lambda>_. se'"] fin wf discarded(1)
      by (simp add: inner_wf_def s1_def queues_wf_def stopped_idle_def)
    then show ?thesis
      unfolding discarded(5) s1_def [symmetric]
      using evolve shed evolves_trans sheds_trans emits_evolves emits_sheds settle_evolves settle_sheds
        settle_wf settle_settled emits_wf by meson
  qed (simp add: wf)
  then show "inner_wf (fst (discard_poll pc now ticket resets failed s))"
    and "evolves s (fst (discard_poll pc now ticket resets failed s))"
    and "sheds s (fst (discard_poll pc now ticket resets failed s))"
    and "settled s \<Longrightarrow> settled (fst (discard_poll pc now ticket resets failed s))"
    by simp_all
qed

end
