(* ===== verification/Service_Invariant.thy ===== *)
theory Service_Invariant
  imports Service_State Publication_Invariant
begin

section \<open>Reachable service states\<close>

text \<open>
  Every operation of the service is a step of \<open>service_step\<close>; the steps of concurrent threads
  interleave in any order, one critical section at a time. The invariant \<open>service_good\<close> holds in
  every reachable state, and a poll ticket detects every interruption of demand.
\<close>

subsection \<open>Subscriptions keep the invariant\<close>

lemma queues_wfD:
  assumes "queues_wf s"
  shows "bt_inv (in_subscribers s)" and "bt_inv (in_queues s)"
    and "(i, sb) \<in> set (in_subscribers s) \<Longrightarrow> sb_queue sb = i"
    and "(i, sb) \<in> set (in_subscribers s) \<Longrightarrow> bt_contains (in_queues s) i"
    and "(i, q) \<in> set (in_queues s) \<Longrightarrow> i \<le> in_next_subscription s"
    and "(i, q) \<in> set (in_queues s) \<Longrightarrow> queue_good q"
    and "in_stopped s \<Longrightarrow> in_subscribers s = []"
  using assms by (auto simp: queues_wf_def)

lemma queues_wfI:
  assumes "bt_inv (in_subscribers s)" and "bt_inv (in_queues s)"
    and "\<And>i sb. (i, sb) \<in> set (in_subscribers s) \<Longrightarrow> sb_queue sb = i \<and> bt_contains (in_queues s) i"
    and "\<And>i q. (i, q) \<in> set (in_queues s) \<Longrightarrow> i \<le> in_next_subscription s \<and> queue_good q"
    and "in_stopped s \<Longrightarrow> in_subscribers s = []"
  shows "queues_wf s"
  unfolding queues_wf_def using assms by (auto simp del: not_None_eq)

lemma bt_update_member:
  "(k, w) \<in> set (bt_update k' f m) \<longleftrightarrow> (\<exists>v. (k, v) \<in> set m \<and> w = (if k = k' then f v else v))"
  by (simp add: bt_update_def bt_map_member)

lemma remove_subscriber_wf:
  "inner_wf s \<Longrightarrow> inner_wf (s\<lparr>in_subscribers := bt_remove i (in_subscribers s)\<rparr>)"
  unfolding bt_remove_def by (rule inner_wf_retain)

lemma unsubscribe_wf: "inner_wf s \<Longrightarrow> inner_wf (unsubscribe pc now i s)"
  unfolding unsubscribe_def by (intro settle_wf remove_subscriber_wf)

lemma unsubscribe_settled: "inner_wf s \<Longrightarrow> settled (unsubscribe pc now i s)"
  unfolding unsubscribe_def by (intro settle_settled remove_subscriber_wf)

lemma unsubscribe_evolves: "evolves s (unsubscribe pc now i s)"
  unfolding unsubscribe_def
  by (rule evolves_trans [OF _ settle_evolves]) (simp add: evolves_def advances_def sessions_rel_refl)

lemma unsubscribe_sheds: "sheds s (unsubscribe pc now i s)"
  unfolding unsubscribe_def
  by (rule sheds_trans [OF _ settle_sheds]) (simp add: same_sessions_sheds)

lemma enrol_wf:
  assumes wf: "inner_wf s" and run: "\<not> in_stopped s" and fresh: "checked_add (in_next_subscription s) 1 = Some i"
  shows "inner_wf (enrol i selection s)"
proof -
  have less: "in_next_subscription s < i" using fresh by (rule checked_add_1_less)
  note q = queues_wfD [OF inner_wfD(3) [OF wf]]
  have "queues_wf (enrol i selection s)"
  proof (rule queues_wfI)
    show "bt_inv (in_subscribers (enrol i selection s))" "bt_inv (in_queues (enrol i selection s))"
      using q(1,2) by (simp_all add: enrol_def bt_inv_insert)
    show "sb_queue sb = j \<and> bt_contains (in_queues (enrol i selection s)) j"
      if "(j, sb) \<in> set (in_subscribers (enrol i selection s))" for j sb
      using that q(3,4) bt.entries_ins [OF q(1)] by (auto simp: enrol_def bt_get_insert)
    show "j \<le> in_next_subscription (enrol i selection s) \<and> queue_good qq"
      if "(j, qq) \<in> set (in_queues (enrol i selection s))" for j qq
    proof -
      have "(j = i \<and> qq = queue_new (in_message_bytes s)) \<or> (j, qq) \<in> set (in_queues s)"
        using that bt.entries_ins [OF q(2)] by (auto simp: enrol_def)
      moreover have "queue_good (queue_new (in_message_bytes s))"
        by (simp add: queue_good_def queue_wf_new) (simp add: queue_new_def)
      ultimately show ?thesis
        using q(5,6) [of j qq] less by (auto simp: enrol_def)
    qed
  qed (simp add: enrol_def run)
  then show ?thesis
    using wf run by (simp add: inner_wf_def stopped_idle_def enrol_def sessions_wf_def)
qed

lemma enrol_evolves: "checked_add (in_next_subscription s) 1 = Some i \<Longrightarrow> evolves s (enrol i selection s)"
  by (simp add: evolves_def advances_def sessions_rel_refl enrol_def checked_add_Some_le)

lemma activate_wf:
  assumes wf: "inner_wf s" and open_queue: "\<And>q. bt_get (in_queues s) i = Some q \<Longrightarrow> \<not> queue_ended q"
  shows "inner_wf (activate i frames s)"
proof -
  note q = queues_wfD [OF inner_wfD(3) [OF wf]]
  have good: "queue_good (queue_set_initial frames qq)" if "queue_good qq" "\<not> queue_ended qq" for qq
    using that queue_wf_initial [of qq frames] by (simp add: queue_good_def queue_ended_def queue_set_initial_def)
  have "queues_wf (activate i frames s)"
  proof (rule queues_wfI)
    show "sb_queue sb = j \<and> bt_contains (in_queues (activate i frames s)) j"
      if "(j, sb) \<in> set (in_subscribers (activate i frames s))" for j sb
      using that q(3,4) by (auto simp: activate_def bt_update_member bt_get_update)
    show "j \<le> in_next_subscription (activate i frames s) \<and> queue_good qq"
      if "(j, qq) \<in> set (in_queues (activate i frames s))" for j qq
      using that q(5,6) good open_queue bt_member_get [OF q(2)]
      by (auto simp: activate_def bt_update_member)
  qed (use q(1,2,7) in \<open>simp_all add: activate_def\<close>)
  then show ?thesis
    using wf by (simp add: inner_wf_def stopped_idle_def activate_def sessions_wf_def)
qed

lemma pop_queue_good: "queue_good q \<Longrightarrow> queue_ended (fst (queue_pop q)) = queue_ended q"
  by (rule qs.pop_keeps_end)

lemma pop_wf: "inner_wf s \<Longrightarrow> inner_wf (pop_subscription i s)"
proof -
  assume wf: "inner_wf s"
  note q = queues_wfD [OF inner_wfD(3) [OF wf]]
  have "queues_wf (pop_subscription i s)"
    by (rule queues_wfI)
      (use q queue_good_pop in \<open>auto simp: pop_subscription_def bt_update_member bt_get_update\<close>)
  then show ?thesis
    using wf by (simp add: inner_wf_def stopped_idle_def pop_subscription_def sessions_wf_def)
qed

text \<open>Settledness depends only on which queues have ended and on the selections.\<close>

lemma settled_cong:
  assumes "settled s" and "in_sessions s' = in_sessions s" and "in_run_id s' = in_run_id s"
    and "map (\<lambda>(i, sb). (i, sb_selection sb, sb_queue sb)) (in_subscribers s')
       = map (\<lambda>(i, sb). (i, sb_selection sb, sb_queue sb)) (in_subscribers s)"
    and "\<And>i. map_option queue_ended (bt_get (in_queues s') i) = map_option queue_ended (bt_get (in_queues s) i)"
  shows "settled s'"
proof -
  have key: "(i, sel, qi) \<in> (\<lambda>(i, sb). (i, sb_selection sb, sb_queue sb)) ` set (in_subscribers s')
      \<longleftrightarrow> (i, sel, qi) \<in> (\<lambda>(i, sb). (i, sb_selection sb, sb_queue sb)) ` set (in_subscribers s)" for i sel qi
    using arg_cong [OF assms(4), of set] by simp
  have ended: "subscriber_ended s' sb' = subscriber_ended s sb" if "sb_queue sb' = sb_queue sb" for sb sb'
    using assms(5) [of "sb_queue sb"] that
    by (auto simp: subscriber_ended_def split: option.splits)
  have wanted: "topic_wanted s' = topic_wanted s"
  proof (intro ext)
    fix session k
    have "(\<exists>(i, sb) \<in> set (in_subscribers s'). matches sb session k) \<longleftrightarrow>
        (\<exists>(i, sel, qi) \<in> (\<lambda>(i, sb). (i, sb_selection sb, sb_queue sb)) ` set (in_subscribers s').
           matches \<lparr>sb_selection = sel, sb_queue = 0, sb_active = False\<rparr> session k)"
      by (force simp: matches_def)
    also have "\<dots> \<longleftrightarrow> (\<exists>(i, sel, qi) \<in> (\<lambda>(i, sb). (i, sb_selection sb, sb_queue sb)) ` set (in_subscribers s).
           matches \<lparr>sb_selection = sel, sb_queue = 0, sb_active = False\<rparr> session k)"
      using arg_cong [OF assms(4), of set] by simp
    also have "\<dots> \<longleftrightarrow> (\<exists>(i, sb) \<in> set (in_subscribers s). matches sb session k)"
      by (force simp: matches_def)
    finally show "topic_wanted s' session k = topic_wanted s session k"
      by (simp add: topic_wanted_def list_ex_iff)
  qed
  have "\<not> subscriber_ended s' sb'" if "(i, sb') \<in> set (in_subscribers s')" for i sb'
  proof -
    have "(i, sb_selection sb', sb_queue sb') \<in> (\<lambda>(i, sb). (i, sb_selection sb, sb_queue sb)) ` set (in_subscribers s')"
      using that by force
    then obtain sb where "(i, sb) \<in> set (in_subscribers s)" "sb_queue sb' = sb_queue sb"
      unfolding key by auto
    then show ?thesis using assms(1) ended by (auto simp: settled_def)
  qed
  then show ?thesis
    using assms(1,2,3) by (auto simp: settled_def sessions_wf_def wanted)
qed

lemma activate_settled: "settled s \<Longrightarrow> settled (activate i frames s)"
proof (rule settled_cong)
  show "map (\<lambda>(i, sb). (i, sb_selection sb, sb_queue sb)) (in_subscribers (activate i frames s))
      = map (\<lambda>(i, sb). (i, sb_selection sb, sb_queue sb)) (in_subscribers s)"
    by (auto simp: activate_def bt_update_def bt_map_def)
  show "map_option queue_ended (bt_get (in_queues (activate i frames s)) j) = map_option queue_ended (bt_get (in_queues s) j)" for j
    by (cases "bt_get (in_queues s) j") (auto simp: activate_def bt_get_update queue_set_initial_def queue_ended_def)
qed (simp_all add: activate_def)

lemma pop_settled: "inner_wf s \<Longrightarrow> settled s \<Longrightarrow> settled (pop_subscription i s)"
proof (erule settled_cong)
  assume wf: "inner_wf s"
  then have "queue_good q" if "bt_get (in_queues s) j = Some q" for j q
    using inner_wfD(3) [OF wf] that by (auto simp: queues_wf_def dest: bt_get_member)
  then show "map_option queue_ended (bt_get (in_queues (pop_subscription i s)) j) = map_option queue_ended (bt_get (in_queues s) j)" for j
    by (cases "bt_get (in_queues s) j") (auto simp: pop_subscription_def bt_get_update pop_queue_good)
qed (simp_all add: pop_subscription_def)


subsection \<open>Every operation\<close>

definition service_good :: "Inner \<Rightarrow> bool" where
  "service_good s \<longleftrightarrow>
     inner_wf s \<and> settled s \<and> follows_host s \<and> retained_bytes s \<le> RETAINED_SNAPSHOT_BYTES"

definition registered :: "Inner \<Rightarrow> HostStatus \<Rightarrow> bool" where
  "registered s status \<longleftrightarrow>
     (\<forall>t \<in> set (hs_targets status). \<exists>p \<in> set (providers (in_catalog s)). pd_id p = ti_provider_id (ht_target t))"

lemma service_good_shed:
  assumes "service_good s" and "inner_wf t" and "settled t" and "evolves s t" and "sheds s t"
  shows "service_good t"
  using assms sheds_bytes [OF assms(5)] evolves_follows by (auto simp: service_good_def)

lemma expire_good: "service_good s \<Longrightarrow> service_good (inner_expire pc now s)"
  by (rule service_good_shed) (auto simp: service_good_def expire_wf expire_settled expire_evolves expire_sheds)

lemma unsubscribe_good: "service_good s \<Longrightarrow> service_good (unsubscribe pc now i s)"
  by (rule service_good_shed)
    (auto simp: service_good_def unsubscribe_wf unsubscribe_settled unsubscribe_evolves unsubscribe_sheds)

lemma pop_good: "service_good s \<Longrightarrow> service_good (pop_subscription i s)"
  by (auto simp: service_good_def pop_wf pop_settled)
    (simp_all add: follows_host_def pop_subscription_def retained_bytes_def)

lemma close_good: "service_good s \<Longrightarrow> service_good (inner_close e s)"
  by (rule service_good_shed)
    (auto simp: service_good_def close_evolves close_sheds inner_close_wf inner_wfD(1,3) inner_wf_sessions_core
      intro!: stopped_settled)

text \<open>The ways a subscription request ends.\<close>

lemma subscribe_cases:
  obtains (refused) e where "subscribe pc (now1, now2, now3) request s = (s, Err e)"
    | (rejected) e where "subscribe pc (now1, now2, now3) request s = (inner_expire pc now1 s, Err e)"
    | (attempted) s1 s2 i where "s1 = inner_expire pc now1 s" "\<not> in_stopped s1"
      "check_selection s1 (normal_selection request) = Ok ()"
      "checked_add (in_next_subscription s1) 1 = Some i"
      "s2 = inner_settle pc now2 (enrol i (normal_selection request) s1)"
      "subscribe pc (now1, now2, now3) request s =
         (case capture pc s2 i of
            Ok frames \<Rightarrow> (activate i frames s2, Ok i)
          | Err e \<Rightarrow> (unsubscribe pc now3 i s2, Err e))"
proof -
  let ?sel = "normal_selection request"
  define s1 where "s1 = inner_expire pc now1 s"
  consider (large) e where "message_fits (size_subscribe pc request) (in_message_bytes s) = Err e"
    | (fits) u where "message_fits (size_subscribe pc request) (in_message_bytes s) = Ok u"
    by (cases "message_fits (size_subscribe pc request) (in_message_bytes s)") auto
  then show ?thesis
  proof cases
    case large
    then show ?thesis by (intro refused [of e]) (simp add: subscribe_def)
  next
    case fits
    show ?thesis
    proof (cases "in_stopped s1")
      case True
      then show ?thesis
        using fits by (intro rejected [of "invalid ''service stopped''"]) (simp add: subscribe_def s1_def [symmetric] Let_def)
    next
      case run: False
      show ?thesis
      proof (cases "check_selection s1 ?sel")
        case (Err e)
        then show ?thesis
          using fits run by (intro rejected [of e]) (simp add: subscribe_def s1_def [symmetric] Let_def)
      next
        case (Ok u)
        show ?thesis
        proof (cases "checked_add (in_next_subscription s1) 1")
          case None
          then show ?thesis
            using fits run Ok by (intro rejected [of "invalid ''subscription identity exhausted''"])
              (simp add: subscribe_def s1_def [symmetric] Let_def)
        next
          case (Some i)
          show ?thesis
            by (rule attempted [OF s1_def run _ Some refl])
              (use fits run Ok Some in \<open>simp_all add: subscribe_def s1_def [symmetric] Let_def\<close>)
        qed
      qed
    qed
  qed
qed

lemma captured_subscriber:
  assumes "capture pc s i = Ok frames"
  obtains sb where "bt_get (in_subscribers s) i = Some sb"
  using assms by (auto simp: capture_def split: prod.splits)

lemma subscribe_good:
  assumes good: "service_good s"
  shows "service_good (fst (subscribe pc (now1, now2, now3) request s))"
proof (cases rule: subscribe_cases [of pc now1 now2 now3 request s])
    case (attempted s1 s2 i)
    have good1: "service_good s1" using attempted(1) good expire_good by simp
    then have wf: "inner_wf (enrol i (normal_selection request) s1)"
      using attempted(2,4) by (intro enrol_wf) (auto simp: service_good_def)
    have "sheds s1 (enrol i (normal_selection request) s1)" by (simp add: same_sessions_sheds enrol_def)
    then have good2: "service_good s2"
      using good1 wf attempted(4,5) settle_wf settle_settled evolves_trans [OF enrol_evolves settle_evolves]
        sheds_trans [OF _ settle_sheds]
      by (intro service_good_shed [OF good1]) auto
    show ?thesis
    proof (cases "capture pc s2 i")
      case (Ok frames)
      obtain sb where sb: "bt_get (in_subscribers s2) i = Some sb" using Ok by (rule captured_subscriber)
      then have "sb_queue sb = i" "\<not> subscriber_ended s2 sb"
        using good2 queues_wfD(3) [OF inner_wfD(3)] bt_get_member [OF sb]
        by (auto simp: service_good_def settled_def)
      then have "\<not> queue_ended q" if "bt_get (in_queues s2) i = Some q" for q
        using that by (simp add: subscriber_ended_def)
      then have "inner_wf (activate i frames s2)" "settled (activate i frames s2)"
        using good2 by (auto simp: service_good_def activate_wf activate_settled)
      moreover have "follows_host (activate i frames s2)" "retained_bytes (activate i frames s2) = retained_bytes s2"
        using good2 by (simp_all add: service_good_def follows_host_def activate_def retained_bytes_def)
      ultimately show ?thesis
        using good2 attempted(6) Ok by (simp add: service_good_def)
    next
      case (Err e)
      then show ?thesis
        using good2 attempted(6) unsubscribe_good by simp
    qed
qed (simp_all add: good expire_good)

lemma subscribe_evolves: "evolves s (fst (subscribe pc (now1, now2, now3) request s))"
proof (cases rule: subscribe_cases [of pc now1 now2 now3 request s])
  case (attempted s1 s2 i)
  have "evolves s s2"
    using attempted(1,4,5) expire_evolves evolves_trans enrol_evolves settle_evolves by metis
  moreover have "evolves s2 (activate i frames s2)" for frames
    by (simp add: evolves_def advances_def sessions_rel_refl activate_def)
  ultimately show ?thesis
    using attempted(6) unsubscribe_evolves evolves_trans by (cases "capture pc s2 i") auto
qed (simp_all add: expire_evolves)

lemma batch_provider_op:
  assumes "batch_wf b"
  shows "list_all provider_op (pn_ops (pb_pending b))"
proof -
  have "op_declared m op \<Longrightarrow> provider_op op" for m op by (cases op) (auto simp: provider_op_def)
  then show ?thesis using assms by (auto simp: batch_wf_def list_all_iff)
qed

lemma commit_good:
  assumes "service_good s" and "batch_wf batch" and "commit_poll pc now ticket batch deadline s = (s', r)"
  shows "service_good s'"
proof -
  have "inner_wf s" using assms(1) by (simp add: service_good_def)
  note fin = commit_poll_correct [OF this batch_provider_op [OF assms(2)] assms(3)]
  show ?thesis
    using fin assms(1) evolves_follows [OF fin(2)] by (simp add: service_good_def)
qed

lemma discard_good:
  "service_good s \<Longrightarrow> service_good (fst (discard_poll pc now ticket resets failed s))"
  by (rule service_good_shed [OF _ discard_poll_correct(1,4,2,3)]) (simp_all add: service_good_def)

lemma add_session_registered:
  "\<exists>p \<in> set (providers (in_catalog s)). pd_id p = si_provider_id info \<Longrightarrow> \<exists>s'. add_session pc info s = (s', Ok ())"
  by (cases rule: add_session_cases [of pc info s]) auto

lemma add_sessions_registered:
  assumes "\<forall>(sid, info) \<in> set ss. \<exists>p \<in> set (providers (in_catalog s)). pd_id p = si_provider_id info"
  shows "\<exists>s'. add_sessions pc ss s = (s', Ok ())"
  using assms
proof (induction ss arbitrary: s)
  case (Cons x ss)
  obtain sid info where x: "x = (sid, info)" by (cases x)
  obtain s1 where add: "add_session pc info s = (s1, Ok ())"
    using add_session_registered [of s info pc] Cons.prems x by auto
  then have "in_catalog s1 = in_catalog s"
    using add_session_identity [of s pc info] by (simp add: same_identity_def)
  then show ?case
    using Cons.IH [of s] Cons.IH [of s1] Cons.prems x add by auto
qed simp

lemma incoming_provider:
  assumes "(sid, info) \<in> set (incoming_sessions s status)"
  obtains t where "t \<in> set (hs_targets status)" "si_provider_id info = ti_provider_id (ht_target t)"
proof -
  have "bt_get (incoming_sessions s status) sid = Some info"
    by (rule iffD1 [OF bt_member_get assms]) (simp add: incoming_sessions_def bt_inv_collect)
  then obtain t where "t \<in> set (hs_targets status)" "info = incoming_info s t sid"
    by (auto simp: incoming_sessions_def bt_get_collect set_map_filter dest!: map_of_SomeD)
  then show ?thesis using that by (simp add: incoming_info_def)
qed

lemma sync_registered:
  assumes "registered s status"
  shows "\<exists>s'. sync_runtime pc now status s = (s', Ok ())"
proof (cases rule: sync_cases [where s = s and pc = pc and status = status and now = now])
  case (failed s1 s2 e)
  have "in_catalog s1 = in_catalog s"
    using end_sessions_advances failed(3) by (simp add: advances_def)
  then have "\<exists>s'. add_sessions pc (incoming_sessions s status) s1 = (s', Ok ())"
    using assms by (intro add_sessions_registered) (auto simp: registered_def elim!: incoming_provider)
  then show ?thesis using failed(4) by simp
qed auto

lemma end_session_bytes: "retained_bytes (end_session pc status sid s) \<le> retained_bytes s"
proof (cases "bt_get (in_sessions s) sid")
  case (Some se)
  let ?u = "SessionEnded (si_session (se_info se)) (end_reason s status sid)"
  have filtered: "sum_list (map f (filter P xs)) \<le> sum_list (map f xs)" for f :: "'a \<Rightarrow> nat" and P xs
    by (induction xs) auto
  have "in_sessions (end_session pc status sid s) = bt_remove sid (in_sessions (inner_emit pc ?u s))"
    using Some by (simp add: end_session_def Let_def)
  then have "retained_bytes (end_session pc status sid s) \<le> retained_bytes (inner_emit pc ?u s)"
    by (simp add: retained_bytes_def bt_remove_def bt_retain_def filtered)
  also have "\<dots> \<le> retained_bytes s" by (rule sheds_bytes [OF emit_sheds])
  finally show ?thesis .
qed (simp add: end_session_def)

lemma end_sessions_bytes: "retained_bytes (fold (end_session pc status) ids s) \<le> retained_bytes s"
proof (induction ids arbitrary: s)
  case (Cons i ids)
  then show ?case using order_trans [OF Cons.IH end_session_bytes] by simp
qed simp

lemma insert_session_bytes:
  assumes "\<And>k t. (k, t) \<in> set (se_topics se) \<Longrightarrow> snapshot_bytes t = 0"
  shows "sum_list (map (\<lambda>(_, se). topics_bytes (se_topics se)) (bt_insert sid se ss))
    \<le> sum_list (map (\<lambda>(_, se). topics_bytes (se_topics se)) ss)"
proof -
  have "topics_bytes (se_topics se) = 0"
    using assms by (auto simp: topics_bytes_def)
  then show ?thesis by (induction ss) auto
qed

lemma add_session_bytes: "retained_bytes (fst (add_session pc info s)) \<le> retained_bytes s"
proof (cases rule: add_session_cases [of pc info s])
  case (refused n)
  then show ?thesis
    using sheds_bytes [OF close_sheds [of s exhausted_end]]
    by (cases rule: ensure_sequences_cases [of s n]) simp_all
next
  case (added p)
  have "snapshot_bytes t = 0" if "(k, t) \<in> set (se_topics (new_session p info))" for k t
    using new_session_member [OF that] by (simp add: snapshot_bytes_def initial_topic_def)
  then have "retained_bytes (s\<lparr>in_sessions := bt_insert (session_id (si_session info)) (new_session p info) (in_sessions s)\<rparr>)
      \<le> retained_bytes s"
    using insert_session_bytes [of "new_session p info"] by (simp add: retained_bytes_def)
  then show ?thesis
    unfolding added(5) fst_conv using sheds_bytes [OF emits_sheds] order_trans by blast
qed simp

lemma add_sessions_bytes: "retained_bytes (fst (add_sessions pc ss s)) \<le> retained_bytes s"
proof (induction ss arbitrary: s)
  case (Cons x ss)
  obtain sid info where x: "x = (sid, info)" by (cases x)
  obtain s1 r where add: "add_session pc info s = (s1, r)" by (cases "add_session pc info s")
  have "retained_bytes s1 \<le> retained_bytes s" using add_session_bytes [of pc info s] add by simp
  then show ?case
    using Cons.IH [of s] order_trans [OF Cons.IH [of s1]] x add by (cases r) auto
qed simp

lemma sync_bytes: "retained_bytes (fst (sync_runtime pc now status s)) \<le> retained_bytes s"
proof -
  have added: "retained_bytes s2 \<le> retained_bytes s" if "s1 = fold (end_session pc status) ids s"
    "add_sessions pc ss s1 = (s2, r)" for s1 s2 r ids ss
    using order_trans [OF add_sessions_bytes [of pc ss s1] end_sessions_bytes [of pc status ids s, folded that(1)]]
      that(2) by simp
  have advance: "sheds s' (fst (inner_advance s'))" for s'
    by (cases rule: advance_cases [of s']) (simp_all add: close_sheds same_sessions_sheds)
  show ?thesis
  proof (cases rule: sync_cases [where s = s and pc = pc and status = status and now = now])
    case (followed s1 s2)
    have "retained_bytes (fst (sync_runtime pc now status s)) \<le> retained_bytes (s2\<lparr>in_runtime := status\<rparr>)"
      unfolding followed(5) fst_conv by (rule sheds_bytes [OF sheds_trans [OF advance settle_sheds]])
    also have "\<dots> = retained_bytes s2" by (simp add: retained_bytes_def)
    also have "\<dots> \<le> retained_bytes s" by (rule added [OF followed(3,4)])
    finally show ?thesis .
  qed (use added in auto)
qed

lemma sync_good:
  assumes good: "service_good s" and reg: "registered s status"
  shows "service_good (fst (sync_runtime pc now status s))"
proof -
  obtain s' where sync: "sync_runtime pc now status s = (s', Ok ())" using sync_registered [OF reg] by blast
  note parts = good [unfolded service_good_def]
  have "inner_wf s'" using sync_wf [of s pc now status] parts sync by simp
  moreover have "settled s'" using sync_settled [OF _ _ sync] parts by simp
  moreover have "retained_bytes s' \<le> RETAINED_SNAPSHOT_BYTES"
    using sync_bytes [of pc now status s] parts sync by simp
  moreover have "follows_host s'" using sync_follows [OF _ sync] parts by simp
  ultimately show ?thesis using sync by (simp add: service_good_def)
qed


subsection \<open>The transition system\<close>

text \<open>
  One critical section of the service. A host status names registered providers only, because
  the lifecycle worker builds it from the compiled registry; a committed batch is one that some
  sequence of sink calls produced.
\<close>

inductive service_step :: "postcard \<Rightarrow> Inner \<Rightarrow> Inner \<Rightarrow> bool" for pc :: postcard where
  step_sync: "registered s status \<Longrightarrow> service_step pc s (fst (update_lifecycle pc now status s))"
| step_expire: "service_step pc s (inner_expire pc now s)"
| step_subscribe: "service_step pc s (fst (subscribe pc (now1, now2, now3) request s))"
| step_drop: "service_step pc s (unsubscribe pc now i s)"
| step_next: "service_step pc s (pop_subscription i s)"
| step_status: "service_step pc s (fst (service_status pc now version s))"
| step_snapshot: "service_step pc s (fst (service_snapshot pc now read s))"
| step_commit: "batch_wf batch \<Longrightarrow> service_step pc s (fst (commit_poll pc now ticket batch deadline s))"
| step_discard: "service_step pc s (fst (discard_poll pc now ticket resets failed s))"
| step_shutdown: "service_step pc s (shutdown s)"

inductive_cases service_stepE: "service_step pc s t"

definition service_init :: "Inner \<Rightarrow> bool" where
  "service_init s \<longleftrightarrow> (\<exists>max_message_size run manifests. service_new max_message_size run manifests = Ok s)"

lemma service_init_good: "service_init s \<Longrightarrow> service_good s"
  by (auto simp: service_init_def service_new_def service_good_def inner_wf_def settled_def follows_host_def
      sessions_wf_def queues_wf_def stopped_idle_def retained_bytes_def observed_ids_def host_status_default_def
      List.map_filter_simps dest: catalog_establishes_wf)

lemma service_step_good: "service_good s \<Longrightarrow> service_step pc s t \<Longrightarrow> service_good t"
  by (erule service_stepE)
    (auto simp: update_lifecycle_def service_status_def service_snapshot_def shutdown_def Let_def
      intro: sync_good expire_good subscribe_good unsubscribe_good pop_good discard_good close_good
        commit_good [OF _ _ prod.collapse [symmetric]])

interpretation service: safe_system service_init "service_step pc" service_good for pc
  by unfold_locales (auto intro: service_init_good service_step_good)

end
