(* ===== verification/Service_Scenario.thy ===== *)
theory Service_Scenario
  imports Service_Invariant
begin

section \<open>A run of the service\<close>

text \<open>
  A concrete run, computed step by step: a service with one provider observes a session, a
  client subscribes to its topic, and a poll publishes a snapshot. The properties of the service
  are applied to it. Settling an already settled state changes nothing, which is also what lets
  the run be computed.
\<close>

subsection \<open>Settling is idempotent\<close>

lemma emit_quiet:
  "\<not> in_stopped s \<Longrightarrow> in_sequence s \<noteq> - 1 \<Longrightarrow> in_subscribers s = [] \<Longrightarrow>
     inner_emit pc u s = s\<lparr>in_sequence := in_sequence s + 1\<rparr>"
  by (simp add: emit_running)

lemma settled_visit:
  assumes "settled s" and "(sid, se) \<in> set (in_sessions s)" and "(k, t) \<in> set (se_topics se)"
  shows "settle_visit s now (se_info se) k t = Visited t None"
proof -
  have "tp_demanded t = topic_wanted s (si_session (se_info se)) k"
    using session_wfD [OF sessions_wfD [of "\<lambda>info k t. tp_demanded t = topic_wanted s (si_session info) k"]] assms
    by (auto simp: settled_def)
  then show ?thesis by (simp add: settle_visit_def settle_topic_def)
qed

lemma walk_topics_quiet: "(\<And>k t. (k, t) \<in> set ts \<Longrightarrow> f k t = Visited t None) \<Longrightarrow> walk_topics f ts = (ts, [], False)"
  by (induction ts) auto

lemma walk_sessions_quiet:
  "(\<And>sid se k t. (sid, se) \<in> set ss \<Longrightarrow> (k, t) \<in> set (se_topics se) \<Longrightarrow> f (se_info se) k t = Visited t None) \<Longrightarrow>
     walk_sessions f ss = (ss, [], False)"
proof (induction ss)
  case (Cons x ss)
  obtain sid se where x: "x = (sid, se)" by (cases x)
  have "walk_topics (f (se_info se)) (se_topics se) = (se_topics se, [], False)"
    by (rule walk_topics_quiet) (use Cons.prems x in auto)
  moreover have "walk_sessions f ss = (ss, [], False)" by (rule Cons.IH) (use Cons.prems in auto)
  ultimately show ?case by (simp add: x Let_def)
qed simp

lemma settle_settled_id: "settled s \<Longrightarrow> inner_settle pc now s = s"
proof -
  assume settled: "settled s"
  have live: "retain_live s = s"
    using settled by (auto simp: retain_live_def bt_retain_def settled_def intro!: filter_True)
  have walk: "walk_sessions (settle_visit s now) (in_sessions s) = (in_sessions s, [], False)"
    by (rule walk_sessions_quiet) (rule settled_visit [OF settled])
  have "\<not> list_ex (\<lambda>(_, sb). subscriber_ended s sb) (in_subscribers s)"
    using settled by (auto simp: settled_def list_ex_iff)
  moreover have "bump_revision [] (s\<lparr>in_sessions := in_sessions s\<rparr>) = s" by (simp add: bump_revision_def)
  ultimately have "settle_turn pc now s = (s, False)"
    unfolding settle_turn_def Let_def live walk prod.case if_False fold_Nil id_apply by (simp only: not_True_eq_False)
  then show ?thesis by (subst inner_settle.simps) simp
qed

subsection \<open>Observe, subscribe, publish\<close>

abbreviation demo_topic :: TopicRef where "demo_topic \<equiv> TopicRef ''p'' ''t'' 1"

abbreviation demo_info :: SessionInfo where
  "demo_info \<equiv> \<lparr>si_session = SessionRef ''01'' ''s'', si_provider_id = ''p'', si_game_id = ''g'',
     si_target = \<lparr>tpr_pid = 7, tpr_executable = ''w''\<rparr>, si_game_build = None\<rparr>"

abbreviation demo_entry :: "u64 \<Rightarrow> CapabilityHealth \<Rightarrow> DataEnvelope option \<Rightarrow> bool \<Rightarrow> u64 \<Rightarrow> instant option \<Rightarrow> Topic_entry" where
  "demo_entry generation health snapshot demanded epoch deadline \<equiv>
     \<lparr>tp_state = \<lparr>ts_source = \<lparr>src_session = SessionRef ''01'' ''s'', src_game_id = ''g'', src_topic = demo_topic\<rparr>,
        ts_generation = generation, ts_health = health, ts_snapshot = snapshot\<rparr>,
      tp_demanded = demanded, tp_epoch = epoch, tp_deadline = deadline\<rparr>"

definition demo_catalog :: Catalog where
  "demo_catalog = \<lparr>providers = [\<lparr>pd_id = ''p'', pd_name = ''P'', pd_version = ''1'', pd_game = \<lparr>gd_id = ''g'', gd_name = ''G''\<rparr>,
     pd_capabilities = [\<lparr>cd_topic = ''t'', cd_schema_version = 1, cd_snapshots = True, cd_events = False\<rparr>]\<rparr>]\<rparr>"

definition demo_status :: HostStatus where
  "demo_status = \<lparr>hs_discovery_error = None, hs_targets =
     [\<lparr>ht_target = \<lparr>ti_process = RecordedProcess 7 1, ti_executable = ''w'', ti_provider_id = ''p'', ti_game_id = ''g''\<rparr>,
       ht_activity = Observing ''s''\<rparr>]\<rparr>"

definition demo_new :: Inner where
  "demo_new = \<lparr>in_catalog = demo_catalog, in_message_bytes = 4096, in_run_id = ''01'',
    in_sequence = 0, in_runtime = host_status_default, in_sessions = [], in_subscribers = [],
    in_next_subscription = 0, in_revision = 0, in_stopped = False, in_queues = []\<rparr>"

definition demo_observed :: Inner where
  "demo_observed = demo_new\<lparr>in_sequence := 3, in_runtime := demo_status,
     in_sessions := [(''s'', \<lparr>se_info = demo_info, se_topics = [(demo_topic, demo_entry 1 Idle None False 0 None)]\<rparr>)]\<rparr>"

lemma demo_new_eq: "service_new 4096 [1] [demo_manifest] = Ok demo_new"
  by (simp add: service_new_def catalog_exact demo_new_def demo_catalog_def manifest_valid_def capability_valid_def
    valid_identifier_def capability_key_def
    hex_u128_def hex_byte_def hex_digit_def u32_of_usize_def describe_provider_def describe_capability_def)

lemma demo_observed_settled: "settled demo_observed"
  by (simp add: settled_def demo_observed_def demo_new_def sessions_wf_def session_wf_def topic_wanted_def)

lemma demo_incoming_eq: "incoming_sessions demo_new demo_status = [(''s'', demo_info)]"
  by (simp add: incoming_sessions_def demo_status_def demo_new_def incoming_info_def List.map_filter_simps bt_collect_def)

lemma demo_added_eq: "add_session unit_sizes demo_info demo_new = (demo_observed\<lparr>in_sequence := 2, in_runtime := host_status_default\<rparr>, Ok ())"
  by (simp add: add_session_def demo_new_def demo_catalog_def demo_observed_def ensure_sequences_def Let_def
    provider_topics_def bt_collect_def initial_topic_def emit_quiet)

lemma demo_observed_eq: "update_lifecycle unit_sizes 0 demo_status demo_new = (demo_observed, Ok ())"
proof -
  have "demo_status \<noteq> in_runtime demo_new" by (simp add: demo_status_def demo_new_def host_status_default_def)
  then show ?thesis
    using demo_added_eq settle_settled_id [OF demo_observed_settled, of unit_sizes 0]
    by (simp add: update_lifecycle_def sync_runtime_def demo_incoming_eq)
  (simp add: demo_new_def demo_observed_def inner_advance_def checked_add_def)
qed

definition demo_request :: Subscribe where
  "demo_request = \<lparr>sel_sessions = All_sessions, sel_topics = [demo_topic, demo_topic]\<rparr>"

abbreviation demo_selection :: Subscribe where
  "demo_selection \<equiv> \<lparr>sel_sessions = All_sessions, sel_topics = [demo_topic]\<rparr>"

definition demo_enrolled :: Inner where
  "demo_enrolled = demo_observed\<lparr>in_next_subscription := 1,
     in_subscribers := [(1, \<lparr>sb_selection = demo_selection, sb_queue = 1, sb_active = False\<rparr>)],
     in_queues := [(1, queue_new 4096)]\<rparr>"

definition demo_demanded :: Inner where
  "demo_demanded = demo_enrolled\<lparr>in_sequence := 4, in_revision := 1,
     in_sessions := [(''s'', \<lparr>se_info = demo_info,
       se_topics = [(demo_topic, demo_entry 2 Initializing None True 1 (Some (20 + POLL_GRACE)))]\<rparr>)]\<rparr>"

abbreviation demo_frames :: "SubscriptionItem list" where
  "demo_frames \<equiv>
     [Begin \<lparr>cur_run_id = ''01'', cur_sequence = 4\<rparr>, Session demo_info,
      Topic (tp_state (demo_entry 2 Initializing None True 1 None)),
      Ready \<lparr>cur_run_id = ''01'', cur_sequence = 4\<rparr>]"

definition demo_subscribed :: Inner where
  "demo_subscribed = demo_demanded\<lparr>
     in_subscribers := [(1, \<lparr>sb_selection = demo_selection, sb_queue = 1, sb_active = True\<rparr>)],
     in_queues := [(1, queue_set_initial demo_frames (queue_new 4096))]\<rparr>"

lemmas demo_defs = demo_subscribed_def demo_demanded_def demo_enrolled_def demo_observed_def demo_new_def demo_catalog_def

lemma demo_expire1_eq: "inner_expire unit_sizes 10 demo_observed = demo_observed"
proof -
  have "walk_sessions (\<lambda>_ _. expire_topic 10) (in_sessions demo_observed) = (in_sessions demo_observed, [], False)"
    by (rule walk_sessions_quiet) (auto simp: demo_defs expire_topic_def)
  then show ?thesis
    by (simp add: inner_expire_def bump_revision_def settle_settled_id [OF demo_observed_settled])
qed

lemma demo_check_eq: "check_selection demo_observed demo_selection = Ok ()"
  by (simp add: check_selection_def check_topic_def inner_capability_def valid_identifier_def demo_defs ensure_def ok_or_def)

lemma demo_enrolled_eq: "enrol 1 demo_selection demo_observed = demo_enrolled"
  by (simp add: enrol_def demo_defs)

lemma demo_turn_eq: "settle_turn unit_sizes 20 demo_enrolled = (demo_demanded, False)"
proof -
  have live: "retain_live demo_enrolled = demo_enrolled"
    by (simp add: retain_live_def bt_retain_def demo_defs subscriber_ended_def queue_new_def queue_ended_def)
  have walk: "walk_sessions (settle_visit demo_enrolled 20) (in_sessions demo_enrolled) =
      (in_sessions demo_demanded,
       [TopicReset \<lparr>src_session = SessionRef ''01'' ''s'', src_game_id = ''g'', src_topic = demo_topic\<rparr> 2 DemandResumed], False)"
    by (simp add: demo_defs settle_visit_def topic_wanted_def matches_def settle_topic_def checked_add_def)
  show ?thesis
    by (simp add: settle_turn_def live walk)
      (simp add: demo_defs bump_revision_def inner_emit_def inner_advance_def checked_add_def saturating_add_def
      update_recipient_def subscriber_ended_def queue_new_def queue_ended_def)
qed

lemma demo_demanded_eq: "inner_settle unit_sizes 20 demo_enrolled = demo_demanded"
  by (simp add: inner_settle.simps [of _ _ demo_enrolled] demo_turn_eq)

lemma demo_captured_eq: "capture unit_sizes demo_demanded 1 = Ok demo_frames"
  by (simp add: capture_def capture_push_def capture_frames_def session_frames_def demo_defs message_fits_def unit_sizes_def
    usize_checked_add_def usize_max_def RETAINED_SNAPSHOT_BYTES_def ensure_def ok_or_def inner_cursor_def matches_info_def matches_def)

lemma demo_subscribed_eq: "subscribe unit_sizes (10, 20, 30) demo_request demo_observed = (demo_subscribed, Ok 1)"
proof -
  have sel: "normal_selection demo_request = demo_selection" by (simp add: normal_selection_def demo_request_def)
  have fits: "message_fits (size_subscribe unit_sizes demo_request) (in_message_bytes demo_observed) = Ok ()"
    by (simp add: message_fits_def unit_sizes_def demo_defs)
  have next_id: "checked_add (in_next_subscription demo_observed) 1 = Some 1" "\<not> in_stopped demo_observed"
    by (simp_all add: demo_defs checked_add_def)
  show ?thesis
    by (simp add: subscribe_def fits sel demo_expire1_eq next_id demo_check_eq demo_enrolled_eq demo_demanded_eq demo_captured_eq)
      (simp add: activate_def demo_defs)
qed

definition demo_ticket :: PollTicket where
  "demo_ticket = \<lparr>tk_session_id = ''s'', tk_topics = [\<lparr>dm_key = demo_topic, dm_generation = 2, dm_epoch = 1\<rparr>]\<rparr>"

definition demo_batch :: PollBatch where
  "demo_batch = poll_batch Some 8 demo_manifest [Call_Snapshot demo_capability ''1'']"

abbreviation demo_envelope :: "u64 \<Rightarrow> DataEnvelope" where
  "demo_envelope n \<equiv>
     \<lparr>de_metadata = \<lparr>md_source = \<lparr>src_session = SessionRef ''01'' ''s'', src_game_id = ''g'', src_topic = demo_topic\<rparr>,
        md_generation = 2, md_sequence = n\<rparr>, de_payload = ''1''\<rparr>"

abbreviation demo_sample :: "u64 \<Rightarrow> Topic_entry" where
  "demo_sample n \<equiv> demo_entry 2 Available (Some (demo_envelope n)) True 1 (Some 99)"

definition demo_published :: Inner where
  "demo_published = demo_subscribed\<lparr>in_sequence := 5,
     in_sessions := [(''s'', \<lparr>se_info = demo_info, se_topics = [(demo_topic, demo_sample 5)]\<rparr>)],
     in_queues := [(1, fst (queue_offer unit_sizes
       (Update \<lparr>ue_cursor = \<lparr>cur_run_id = ''01'', cur_sequence = 5\<rparr>, ue_update = TopicChanged (tp_state (demo_sample 5))\<rparr>)
       (queue_set_initial demo_frames (queue_new 4096))))]\<rparr>"

lemma demo_ticket_eq: "poll_ticket demo_subscribed ''s'' = Some demo_ticket"
  by (simp add: poll_ticket_def demo_defs current_demand_def demo_ticket_def)

lemma demo_batch_eq: "pb_pending demo_batch = \<lparr>pn_ops = [Op_Snapshot demo_topic ''1''], pn_resets = [],
    pn_game_build = None, pn_bytes = 11, pn_failed = False\<rparr>"
  by (simp add: demo_batch_def batch_eval)

lemma demo_published_settled: "settled demo_published"
  by (simp add: settled_def demo_published_def demo_defs sessions_wf_def session_wf_def topic_wanted_def matches_def
    subscriber_ended_def queue_eval)

lemma demo_checks_eq: "commit_checks unit_sizes demo_ticket (pb_pending demo_batch) 99 demo_subscribed
    \<lparr>se_info = demo_info, se_topics = [(demo_topic, demo_entry 2 Initializing None True 1 (Some (20 + POLL_GRACE)))]\<rparr>
   = Ok (\<lparr>sg_topics = [(demo_topic, demo_sample 0)], sg_resets = [], sg_events = []\<rparr>, None)"
proof -
  have prep: "prepare \<lparr>se_info = demo_info, se_topics = [(demo_topic, demo_entry 2 Initializing None True 1 (Some (20 + POLL_GRACE)))]\<rparr>
      demo_ticket [Op_Snapshot demo_topic ''1''] 99 = Ok \<lparr>sg_topics = [(demo_topic, demo_sample 0)], sg_resets = [], sg_events = []\<rparr>"
    by (simp add: prepare_def prepare_operation_def stage_operation_def demo_ticket_def ensure_def ok_or_def Let_def)
  have cap: "inner_capability demo_subscribed demo_topic =
      Ok \<lparr>cd_topic = ''t'', cd_schema_version = 1, cd_snapshots = True, cd_events = False\<rparr>"
    by (simp add: inner_capability_def valid_identifier_def demo_defs ok_or_def)
  have fits: "update_fits unit_sizes demo_subscribed u = Ok ()" for u
    by (simp add: update_fits_def message_fits_def unit_sizes_def demo_defs)
  have "retained_bytes demo_subscribed = 0"
    by (simp add: retained_bytes_def demo_defs topics_bytes_def snapshot_bytes_def)
  then have "validate unit_sizes demo_subscribed
      \<lparr>se_info = demo_info, se_topics = [(demo_topic, demo_entry 2 Initializing None True 1 (Some (20 + POLL_GRACE)))]\<rparr>
      \<lparr>sg_topics = [(demo_topic, demo_sample 0)], sg_resets = [], sg_events = []\<rparr> = Ok ()"
    by (simp add: validate_def validate_topic_def cap fits topics_bytes_def snapshot_bytes_def RETAINED_SNAPSHOT_BYTES_def)
  then show ?thesis
    by (simp add: commit_checks_def demo_batch_eq prep)
qed

lemma demo_committed_eq: "commit_staged unit_sizes ''s'' \<lparr>sg_topics = [(demo_topic, demo_sample 0)], sg_resets = [], sg_events = []\<rparr>
    demo_subscribed = demo_published"
  by (simp add: commit_staged_def commit_topic_def session_topic_def demo_defs demo_published_def staged_changed_def at_sequence_def
    insert_topic_def inner_emit_def inner_advance_def checked_add_def update_recipient_def inner_cursor_def matches_def)

lemma demo_published_eq: "commit_poll unit_sizes 40 demo_ticket demo_batch 99 demo_subscribed = (demo_published, Ok True)"
proof -
  have sid: "tk_session_id demo_ticket = ''s''" by (simp add: demo_ticket_def)
  have se: "bt_get (in_sessions demo_subscribed) ''s'' = Some
      \<lparr>se_info = demo_info, se_topics = [(demo_topic, demo_entry 2 Initializing None True 1 (Some (20 + POLL_GRACE)))]\<rparr>"
    "\<not> in_stopped demo_subscribed" "in_sequence demo_subscribed = 4"
    by (simp_all add: demo_defs)
  have current: "ticket_current \<lparr>se_info = demo_info, se_topics = [(demo_topic, demo_entry 2 Initializing None True 1 (Some (20 + POLL_GRACE)))]\<rparr> demo_ticket"
    by (simp add: ticket_current_def demo_ticket_def)
  have ops: "\<not> pn_failed (pb_pending demo_batch)" "\<not> reset_exhausted se (pn_ops (pb_pending demo_batch))" for se
    by (simp_all add: demo_batch_eq reset_exhausted_def)
  show ?thesis
    by (simp add: commit_poll_def Let_def sid se current ops demo_checks_eq ensure_sequences_def commit_metadata_def demo_committed_eq
      settle_settled_id [OF demo_published_settled])
qed
end
