(* ===== verification/Service_Properties.thy ===== *)
theory Service_Properties
  imports Service_Scenario
begin

section \<open>Properties of the service\<close>

text \<open>
  The guarantees clients and providers rely on, stated for every reachable state and for every
  interleaving of operations, with their application to the run of \<open>Service_Scenario\<close>.
\<close>

abbreviation reachable :: "postcard \<Rightarrow> Inner \<Rightarrow> bool" where
  "reachable pc \<equiv> reach service_init (service_step pc)"

lemma demo_registered: "registered demo_new demo_status"
  by (simp add: registered_def demo_status_def demo_defs)

lemma demo_reachable:
  "reachable unit_sizes demo_new" "reachable unit_sizes demo_observed" "reachable unit_sizes demo_subscribed"
  "reachable unit_sizes demo_published"
proof -
  show new: "reachable unit_sizes demo_new"
    by (rule reach_init) (use demo_new_eq in \<open>auto simp: service_init_def\<close>)
  show obs: "reachable unit_sizes demo_observed"
    using reach_step [OF new step_sync [OF demo_registered, of unit_sizes 0]] by (simp add: demo_observed_eq)
  show sub: "reachable unit_sizes demo_subscribed"
    using reach_step [OF obs step_subscribe [of unit_sizes _ 10 20 30 demo_request]] by (simp add: demo_subscribed_eq)
  have "batch_wf demo_batch" unfolding demo_batch_def by (rule poll_batch_wf)
  from reach_step [OF sub step_commit [OF this, of unit_sizes _ 40 demo_ticket 99]]
  show "reachable unit_sizes demo_published" by (simp add: demo_published_eq)
qed

lemma reachable_good: "reachable pc s \<Longrightarrow> service_good s"
  by (rule service.reach_good)

lemma reachable_topic:
  assumes "reachable pc s" and "session_topic s sid k = Some t"
  obtains se where "bt_get (in_sessions s) sid = Some se" "bt_get (se_topics se) k = Some t"
    "si_session (se_info se) = SessionRef (in_run_id s) sid" "topic_wf (in_sequence s) (se_info se) k t"
    "tp_demanded t = topic_wanted s (SessionRef (in_run_id s) sid) k"
proof -
  note good = reachable_good [OF assms(1), unfolded service_good_def]
  obtain se where se: "bt_get (in_sessions s) sid = Some se" "bt_get (se_topics se) k = Some t"
    using assms(2) by (rule session_topic_entry)
  have wf: "session_wf (topic_wf (in_sequence s)) (in_run_id s) sid se"
    using sessions_wf_get [OF inner_wfD(2) se(1)] good by blast
  have want: "session_wf (\<lambda>info k t. tp_demanded t = topic_wanted s (si_session info) k) (in_run_id s) sid se"
    using good sessions_wf_get [OF _ se(1)] by (auto simp: settled_def)
  show ?thesis
    by (rule that [OF se session_wf_ref [OF wf] session_wfD [OF wf bt_get_member [OF se(2)]]])
      (use session_wfD [OF want bt_get_member [OF se(2)]] session_wf_ref [OF wf] in simp)
qed

text \<open>
  C2: demand is authoritative: in every reachable state a topic is polled for if and only if some
  open subscription selects it, and it is idle exactly when none does.
\<close>

theorem service_demand_exact:
  assumes "reachable pc s" and "session_topic s sid k = Some t"
  shows "(tp_demanded t \<longleftrightarrow> (\<exists>(i, sb) \<in> set (in_subscribers s).
            \<not> subscriber_ended s sb \<and> matches sb (SessionRef (in_run_id s) sid) k))
         \<and> (ts_health (tp_state t) = Idle \<longleftrightarrow> \<not> tp_demanded t)"
proof -
  have open_subs: "\<not> subscriber_ended s sb" if "(i, sb) \<in> set (in_subscribers s)" for i sb
    using reachable_good [OF assms(1)] that by (auto simp: service_good_def settled_def)
  obtain se :: Session_entry where "topic_wf (in_sequence s) (se_info se) k t"
    "tp_demanded t = topic_wanted s (SessionRef (in_run_id s) sid) k"
    by (rule reachable_topic [OF assms]) blast
  then show ?thesis
    using open_subs by (force simp: topic_wf_def topic_wanted_def list_ex_iff)
qed

theorem service_demand_exact_witness:
  "session_topic demo_subscribed ''s'' demo_topic =
     Some (demo_entry 2 Initializing None True 1 (Some (20 + POLL_GRACE)))
   \<and> (\<exists>(i, sb) \<in> set (in_subscribers demo_subscribed).
        \<not> subscriber_ended demo_subscribed sb \<and> matches sb (SessionRef (in_run_id demo_subscribed) ''s'') demo_topic)"
proof -
  have topic: "session_topic demo_subscribed ''s'' demo_topic =
     Some (demo_entry 2 Initializing None True 1 (Some (20 + POLL_GRACE)))"
    by (simp add: session_topic_def demo_defs)
  then show ?thesis using service_demand_exact [OF demo_reachable(3) topic] by simp
qed

text \<open>
  C1: published state is coherent in every reachable state: a topic carries a snapshot only while
  it is available and demanded, the snapshot has the topic's own source and current generation,
  and its sequence has already been issued; the source names the session and topic it is
  stored under.
\<close>

theorem service_snapshots_coherent:
  assumes "reachable pc s" and "session_topic s sid k = Some t" and "ts_snapshot (tp_state t) = Some d"
  shows "ts_health (tp_state t) = Available \<and> tp_demanded t
    \<and> md_source (de_metadata d) = ts_source (tp_state t)
    \<and> src_session (ts_source (tp_state t)) = SessionRef (in_run_id s) sid \<and> src_topic (ts_source (tp_state t)) = k
    \<and> md_generation (de_metadata d) = ts_generation (tp_state t) \<and> 0 < ts_generation (tp_state t)
    \<and> 0 < md_sequence (de_metadata d) \<and> md_sequence (de_metadata d) \<le> in_sequence s"
proof -
  obtain se :: Session_entry where "si_session (se_info se) = SessionRef (in_run_id s) sid" "topic_wf (in_sequence s) (se_info se) k t"
    by (rule reachable_topic [OF assms(1,2)]) blast
  then show ?thesis
    using assms(3) by (auto simp: topic_wf_def topic_core_def topic_coherent_def snapshot_issued_def topic_source_def)
qed

theorem service_snapshots_coherent_witness:
  "ts_snapshot (tp_state (demo_sample 5)) = Some (demo_envelope 5)
   \<and> session_topic demo_published ''s'' demo_topic = Some (demo_sample 5)
   \<and> md_sequence (de_metadata (demo_envelope 5)) \<le> in_sequence demo_published"
proof -
  have topic: "session_topic demo_published ''s'' demo_topic = Some (demo_sample 5)"
    by (simp add: session_topic_def demo_published_def)
  have snapshot: "ts_snapshot (tp_state (demo_sample 5)) = Some (demo_envelope 5)" by simp
  show ?thesis
    using service_snapshots_coherent [OF demo_reachable(4) topic snapshot] topic by simp
qed

text \<open>
  C14: the snapshots the service retains never take more than their budget, whatever providers
  publish.
\<close>

theorem service_retained_bounded:
  assumes "reachable pc s"
  shows "retained_bytes s \<le> RETAINED_SNAPSHOT_BYTES"
  using reachable_good [OF assms] by (simp add: service_good_def)

theorem service_retained_bounded_witness:
  "retained_bytes demo_published = 1 \<and> retained_bytes demo_published \<le> RETAINED_SNAPSHOT_BYTES"
  using service_retained_bounded [OF demo_reachable(4)]
  by (simp add: retained_bytes_def demo_published_def topics_bytes_def snapshot_bytes_def)

text \<open>
  a running service has exactly the sessions its host observes.
\<close>

lemma service_sessions_observed:
  assumes "reachable pc s" and "\<not> in_stopped s"
  shows "fst ` set (in_sessions s) = observed_ids (in_runtime s)"
  using reachable_good [OF assms(1)] assms(2) by (simp add: service_good_def follows_host_def)

lemma snapshot_view_topic:
  assumes "snapshot_view s request = Ok d"
  obtains se t where "bt_get (in_sessions s) (session_id (gs_session request)) = Some se"
    "bt_get (se_topics se) (gs_topic request) = Some t" "run_id (gs_session request) = in_run_id s"
    "ts_health (tp_state t) = Available" "ts_snapshot (tp_state t) = Some d"
proof -
  obtain se t where se: "inner_session s (gs_session request) = Ok se"
    and t: "bt_get (se_topics se) (gs_topic request) = Some t"
    and reply: "(case ts_health (tp_state t) of
        Idle \<Rightarrow> Err Idle_error
      | Initializing \<Rightarrow> Err NotSampled
      | Unavailable reason \<Rightarrow> Err (Unavailable_error reason)
      | Available \<Rightarrow> ok_or (ts_snapshot (tp_state t)) NotSampled) = Ok d"
    using assms by (auto simp: snapshot_view_def)
  have d: "ts_health (tp_state t) = Available" "ts_snapshot (tp_state t) = Some d"
    using reply by (cases "ts_health (tp_state t)"; simp)+
  show ?thesis
    by (rule that [OF _ t _ d]) (use se in \<open>auto simp: inner_session_def split: if_splits\<close>)
qed

text \<open>
  \<open>GetSnapshot\<close> answers with data only when the topic is available, and the data is the
  retained snapshot of exactly the requested session and topic in its current generation.
\<close>

lemma snapshot_request_sound:
  assumes "reachable pc s" and "service_snapshot pc now request s = (s', Ok d)"
  shows "\<exists>t. session_topic s' (session_id (gs_session request)) (gs_topic request) = Some t
    \<and> ts_health (tp_state t) = Available \<and> ts_snapshot (tp_state t) = Some d
    \<and> src_session (md_source (de_metadata d)) = gs_session request
    \<and> src_topic (md_source (de_metadata d)) = gs_topic request
    \<and> md_generation (de_metadata d) = ts_generation (tp_state t)"
proof -
  have reach': "reachable pc s'"
    using reach_step [OF assms(1) step_snapshot [of pc _ now request]] assms(2) by simp
  have view: "snapshot_view s' request = Ok d"
    using assms(2) by (auto simp: service_snapshot_def Let_def)
  obtain se t where get: "bt_get (in_sessions s') (session_id (gs_session request)) = Some se"
    and t: "bt_get (se_topics se) (gs_topic request) = Some t" and run: "run_id (gs_session request) = in_run_id s'"
    and d: "ts_health (tp_state t) = Available" "ts_snapshot (tp_state t) = Some d"
    by (rule snapshot_view_topic [OF view])
  have topic: "session_topic s' (session_id (gs_session request)) (gs_topic request) = Some t"
    using get t by (simp add: session_topic_def)
  obtain se' :: Session_entry where "si_session (se_info se') = SessionRef (in_run_id s') (session_id (gs_session request))"
      "topic_wf (in_sequence s') (se_info se') (gs_topic request) t"
    by (rule reachable_topic [OF reach' topic]) blast
  then show ?thesis
    using topic d run by (cases "gs_session request")
      (auto simp: topic_wf_def topic_core_def topic_coherent_def topic_source_def)
qed

lemma demo_snapshot_eq:
  "service_snapshot unit_sizes 50 \<lparr>gs_session = SessionRef ''01'' ''s'', gs_topic = demo_topic\<rparr> demo_published =
     (demo_published, Ok (demo_envelope 5))"
proof -
  have "walk_sessions (\<lambda>_ _. expire_topic 50) (in_sessions demo_published) = (in_sessions demo_published, [], False)"
    by (rule walk_sessions_quiet) (auto simp: demo_published_def expire_topic_def)
  then have expire: "inner_expire unit_sizes 50 demo_published = demo_published"
    by (simp add: inner_expire_def bump_revision_def settle_settled_id [OF demo_published_settled])
  have "snapshot_view demo_published \<lparr>gs_session = SessionRef ''01'' ''s'', gs_topic = demo_topic\<rparr> = Ok (demo_envelope 5)"
    by (simp add: snapshot_view_def inner_session_def inner_capability_def valid_identifier_def ok_or_def ensure_def
        demo_published_def demo_defs)
  then show ?thesis
    by (simp add: service_snapshot_def expire)
qed

subsection \<open>Tickets fence interruptions\<close>

text \<open>A run of steps during which a session never leaves.\<close>

inductive lives :: "postcard \<Rightarrow> string \<Rightarrow> Inner \<Rightarrow> Inner \<Rightarrow> bool" for pc sid where
  lives_refl: "bt_get (in_sessions s) sid \<noteq> None \<Longrightarrow> lives pc sid s s"
| lives_step: "lives pc sid s t \<Longrightarrow> service_step pc t u \<Longrightarrow> bt_get (in_sessions u) sid \<noteq> None \<Longrightarrow> lives pc sid s u"

definition session_kept :: "string \<Rightarrow> Inner \<Rightarrow> Inner \<Rightarrow> bool" where
  "session_kept sid s t \<longleftrightarrow>
     (\<forall>se se'. bt_get (in_sessions s) sid = Some se \<longrightarrow> bt_get (in_sessions t) sid = Some se' \<longrightarrow> session_rel topic_le se se')"

lemma evolves_kept: "evolves s t \<Longrightarrow> session_kept sid s t"
  by (auto simp: session_kept_def evolves_def dest!: sessions_rel_get)

lemma kept_trans:
  assumes "session_kept sid r s" and "session_kept sid s t" and "bt_get (in_sessions s) sid \<noteq> None"
  shows "session_kept sid r t"
  using assms session_rel_trans [of topic_le, OF topic_le_trans] by (force simp: session_kept_def)

lemma evolves_present: "evolves s t \<Longrightarrow> bt_get (in_sessions t) sid = None \<longleftrightarrow> bt_get (in_sessions s) sid = None"
  using arg_cong [OF evolves_keys [of s t], of set] by (simp add: bt_get_none_iff)

lemma end_session_kept:
  assumes "sid' \<noteq> sid" and "bt_get (in_sessions s) sid \<noteq> None"
  shows "session_kept sid s (end_session pc status sid' s) \<and> bt_get (in_sessions (end_session pc status sid' s)) sid \<noteq> None"
proof (cases "bt_get (in_sessions s) sid'")
  case None
  then have "end_session pc status sid' s = s" by (simp add: end_session_def)
  then show ?thesis using assms(2) by (simp add: session_kept_def session_rel_refl)
next
  case (Some se)
  let ?u = "SessionEnded (si_session (se_info se)) (end_reason s status sid')"
  have "bt_get (in_sessions (end_session pc status sid' s)) sid = bt_get (in_sessions (inner_emit pc ?u s)) sid"
    using Some assms(1) by (simp add: end_session_def Let_def bt_get_remove)
  then show ?thesis
    using evolves_kept [OF emit_evolves [of s pc ?u]] evolves_present [OF emit_evolves [of s pc ?u]] assms(2)
    by (simp add: session_kept_def)
qed

lemma end_sessions_kept:
  assumes "sid \<notin> set ids" and "bt_get (in_sessions s) sid \<noteq> None"
  shows "session_kept sid s (fold (end_session pc status) ids s)
    \<and> bt_get (in_sessions (fold (end_session pc status) ids s)) sid \<noteq> None"
  using assms
proof (induction ids arbitrary: s)
  case Nil
  then show ?case by (simp add: session_kept_def session_rel_refl)
next
  case (Cons i ids)
  have step: "session_kept sid s (end_session pc status i s)" "bt_get (in_sessions (end_session pc status i s)) sid \<noteq> None"
    using end_session_kept [of i sid s pc status] Cons.prems by auto
  show ?case
    using Cons.IH [of "end_session pc status i s"] Cons.prems(1) step kept_trans [OF step(1) _ step(2)] by simp
qed

lemma add_session_kept:
  assumes "session_id (si_session info) \<noteq> sid" and "bt_get (in_sessions s) sid \<noteq> None"
  shows "session_kept sid s (fst (add_session pc info s)) \<and> bt_get (in_sessions (fst (add_session pc info s))) sid \<noteq> None"
proof (cases rule: add_session_cases [of pc info s])
  case unregistered
  then show ?thesis using assms(2) by (simp add: session_kept_def session_rel_refl)
next
  case (refused n)
  then show ?thesis
    using assms(2) evolves_kept [OF close_evolves] evolves_present [OF close_evolves]
    by (cases rule: ensure_sequences_cases [of s n]) (auto simp: session_kept_def session_rel_refl)
next
  case (added p)
  let ?s = "s\<lparr>in_sessions := bt_insert (session_id (si_session info)) (new_session p info) (in_sessions s)\<rparr>"
  have same: "bt_get (in_sessions ?s) sid = bt_get (in_sessions s) sid" using assms(1) by (simp add: bt_get_insert)
  have step: "evolves ?s (fst (add_session pc info s))"
    unfolding added(5) fst_conv by (rule emits_evolves)
  show ?thesis
    using evolves_kept [OF step, of sid] evolves_present [OF step, of sid] assms(2) same
    unfolding session_kept_def by simp
qed

lemma add_sessions_kept:
  assumes "\<forall>(i, info) \<in> set ss. session_id (si_session info) = i" and "bt_get (in_sessions s) sid \<noteq> None"
  shows "session_kept sid s (fst (add_sessions pc ss s)) \<and> bt_get (in_sessions (fst (add_sessions pc ss s))) sid \<noteq> None"
  using assms
proof (induction ss arbitrary: s)
  case Nil
  then show ?case by (simp add: session_kept_def session_rel_refl)
next
  case (Cons x ss)
  obtain i info where x: "x = (i, info)" by (cases x)
  show ?case
  proof (cases "bt_get (in_sessions s) i")
    case (Some se)
    then show ?thesis using Cons x by simp
  next
    case None
    obtain s1 r where add: "add_session pc info s = (s1, r)" by (cases "add_session pc info s")
    have "session_id (si_session info) \<noteq> sid" using None Cons.prems x by auto
    then have step: "session_kept sid s s1" "bt_get (in_sessions s1) sid \<noteq> None"
      using add_session_kept [of info sid s pc] Cons.prems(2) add by auto
    then show ?thesis
      using Cons.IH [of s1] Cons.prems(1) None x add kept_trans [OF step(1) _ step(2)] by (cases r) auto
  qed
qed


lemma add_sessions_absent:
  assumes "\<forall>(i, info) \<in> set ss. session_id (si_session info) = i" and "sid \<notin> fst ` set ss"
    and "bt_get (in_sessions s) sid = None"
  shows "bt_get (in_sessions (fst (add_sessions pc ss s))) sid = None"
  using assms
proof (induction ss arbitrary: s)
  case (Cons x ss)
  obtain i info where x: "x = (i, info)" by (cases x)
  obtain s1 r where add: "add_session pc info s = (s1, r)" by (cases "add_session pc info s")
  have "bt_get (in_sessions s1) sid = None"
  proof (cases rule: add_session_cases [of pc info s])
    case (refused n)
    then show ?thesis
      using add Cons.prems(3) evolves_present [OF close_evolves [of s exhausted_end], of sid]
      by (cases rule: ensure_sequences_cases [of s n]) auto
  next
    case (added p)
    let ?s = "s\<lparr>in_sessions := bt_insert (session_id (si_session info)) (new_session p info) (in_sessions s)\<rparr>"
    have step: "evolves ?s s1" using added(5) add emits_evolves by (metis fst_conv)
    have "bt_get (in_sessions ?s) sid = None" using Cons.prems x by (auto simp: bt_get_insert)
    then show ?thesis using evolves_present [OF step, of sid] by simp
  qed (use add Cons.prems in simp)
  then show ?case
    using Cons.IH [of s] Cons.IH [of s1] Cons.prems x add by (cases r) auto
qed simp

lemma sync_kept: "session_kept sid s (fst (sync_runtime pc now status s))"
proof (cases "bt_get (in_sessions s) sid")
  case None
  then show ?thesis by (simp add: session_kept_def)
next
  case (Some se)
  let ?ended = "filter (\<lambda>sid. \<not> bt_contains (incoming_sessions s status) sid) (bt_keys (in_sessions s))"
  let ?s1 = "fold (end_session pc status) ?ended s"
  let ?s2 = "fst (add_sessions pc (incoming_sessions s status) ?s1)"
  have present: "bt_get (in_sessions s) sid \<noteq> None" using Some by simp
  have kept: "session_kept sid s ?s2"
  proof (cases "sid \<in> set ?ended")
    case True
    then have "bt_get (in_sessions ?s1) sid = None"
      using end_sessions_keys [of pc status ?ended s] by (simp add: bt_get_none_iff)
    moreover have "sid \<notin> fst ` set (incoming_sessions s status)"
      using True by (auto simp: bt_get_none_iff)
    ultimately show ?thesis
      using add_sessions_absent [OF incoming_ids] by (simp add: session_kept_def)
  next
    case False
    note s1 = end_sessions_kept [OF False present, of pc status]
    show ?thesis
      using kept_trans [of sid s ?s1 ?s2] s1 add_sessions_kept [OF incoming_ids [of s status], of ?s1 sid pc] by blast
  qed
  show ?thesis
  proof (cases rule: sync_cases [where s = s and pc = pc and status = status and now = now])
    case unchanged
    then show ?thesis by (simp add: session_kept_def session_rel_refl)
  next
    case (failed s1 s2 e)
    then show ?thesis using kept by simp
  next
    case (followed s1 s2)
    have s2: "s2 = ?s2" using followed(3,4) by simp
    have step: "evolves (s2\<lparr>in_runtime := status\<rparr>) (fst (sync_runtime pc now status s))"
      unfolding followed(5) fst_conv by (rule evolves_trans [OF advance_evolves settle_evolves])
    show ?thesis
    proof (cases "bt_get (in_sessions s2) sid")
      case None
      then show ?thesis using evolves_present [OF step, of sid] by (simp add: session_kept_def)
    next
      case (Some se2)
      have "session_kept sid s (s2\<lparr>in_runtime := status\<rparr>)" using kept s2 by (simp add: session_kept_def)
      then show ?thesis
        using kept_trans [OF _ evolves_kept [OF step]] Some by simp
    qed
  qed
qed

lemma service_step_kept:
  assumes good: "inner_wf s" and step: "service_step pc s t"
  shows "session_kept sid s t"
  using step
proof cases
  case (step_sync status now)
  then show ?thesis using sync_kept by (simp add: update_lifecycle_def)
next
  case (step_subscribe now1 now2 now3 request)
  then show ?thesis using evolves_kept [OF subscribe_evolves] by simp
next
  case (step_commit batch now ticket deadline)
  have "evolves s t"
    unfolding step_commit(1)
    by (rule commit_poll_correct(2) [OF good batch_provider_op [OF step_commit(2)] prod.collapse [symmetric]])
  then show ?thesis by (rule evolves_kept)
qed (auto simp: service_status_def service_snapshot_def shutdown_def Let_def pop_subscription_def evolves_def advances_def
    sessions_rel_refl
    intro!: evolves_kept expire_evolves unsubscribe_evolves discard_poll_correct(2) [OF good] close_evolves)


lemma lives_kept:
  assumes "lives pc sid s t" and "reachable pc s"
  shows "session_kept sid s t \<and> reachable pc t \<and> bt_get (in_sessions t) sid \<noteq> None"
  using assms
proof (induction rule: lives.induct)
  case (lives_refl s)
  then show ?case by (simp add: session_kept_def session_rel_refl)
next
  case (lives_step s t u)
  then have t: "session_kept sid s t" "reachable pc t" "bt_get (in_sessions t) sid \<noteq> None" by auto
  have "inner_wf t" using reachable_good [OF t(2)] by (simp add: service_good_def)
  from service_step_kept [OF this lives_step.hyps(2), of sid] show ?case
    using kept_trans [OF t(1) _ t(3)] reach_step [OF t(2) lives_step.hyps(2)] lives_step.hyps(3) by blast
qed

lemma kept_topic:
  assumes "session_kept sid s t" and "bt_get (in_sessions t) sid \<noteq> None" and "session_topic s sid k = Some a"
  shows "\<exists>b. session_topic t sid k = Some b \<and> topic_le a b"
proof -
  obtain se where se: "bt_get (in_sessions s) sid = Some se" "bt_get (se_topics se) k = Some a"
    using assms(3) by (rule session_topic_entry)
  obtain se' where se': "bt_get (in_sessions t) sid = Some se'" using assms(2) by auto
  then have "session_rel topic_le se se'" using assms(1) se(1) by (simp add: session_kept_def)
  then show ?thesis
    using topics_rel_get [of topic_le "se_topics se" "se_topics se'" k a] se(2) se' 
    by (auto simp: session_rel_def session_topic_def)
qed

lemma ticket_topic:
  assumes "reachable pc s" and "poll_ticket s sid = Some ticket" and "d \<in> set (tk_topics ticket)"
  shows "tk_session_id ticket = sid \<and> bt_get (in_sessions s) sid \<noteq> None
    \<and> (\<exists>t. session_topic s sid (dm_key d) = Some t \<and> tp_demanded t
         \<and> ts_generation (tp_state t) = dm_generation d \<and> tp_epoch t = dm_epoch d)"
proof -
  obtain se where se: "bt_get (in_sessions s) sid = Some se"
    and ticket: "ticket = \<lparr>tk_session_id = sid, tk_topics = current_demand (se_topics se)\<rparr>"
    using assms(2) by (auto simp: poll_ticket_def split: if_splits)
  have "inner_wf s" using reachable_good [OF assms(1)] by (simp add: service_good_def)
  then have inv: "bt_inv (se_topics se)"
    using sessions_wf_get [OF inner_wfD(2) se] session_wf_topics by blast
  obtain t where "(dm_key d, t) \<in> set (se_topics se)" "tp_demanded t"
      "ts_generation (tp_state t) = dm_generation d" "tp_epoch t = dm_epoch d"
    using assms(3) by (auto simp: ticket current_demand_def)
  then show ?thesis
    using bt_member_get [OF inv] se by (auto simp: ticket session_topic_def)
qed

text \<open>
  C7: a poll that commits was never interrupted: from the state its ticket was taken in to the
  state it is committed in, through any interleaving of other operations, every topic of the
  ticket stayed demanded, in the ticket's generation and epoch.
\<close>

theorem commit_uninterrupted:
  assumes "reachable pc s0" and "poll_ticket s0 sid = Some ticket"
    and "lives pc sid s0 s1" and "lives pc sid s1 s2"
    and "commit_poll pc now ticket batch deadline s2 = (s3, Ok True)" and "d \<in> set (tk_topics ticket)"
  shows "\<exists>t. session_topic s1 sid (dm_key d) = Some t \<and> tp_demanded t
    \<and> ts_generation (tp_state t) = dm_generation d \<and> tp_epoch t = dm_epoch d"
proof -
  obtain t0 where t0: "tk_session_id ticket = sid" "session_topic s0 sid (dm_key d) = Some t0" "tp_demanded t0"
      "ts_generation (tp_state t0) = dm_generation d" "tp_epoch t0 = dm_epoch d"
    using ticket_topic [OF assms(1,2,6)] by blast
  note p1 = lives_kept [OF assms(3,1)]
  then have r1: "reachable pc s1" by simp
  note p2 = lives_kept [OF assms(4) r1]
  obtain t1 where t1: "session_topic s1 sid (dm_key d) = Some t1" "topic_le t0 t1"
    using kept_topic [OF _ _ t0(2)] p1 by blast
  obtain t2 where t2: "session_topic s2 sid (dm_key d) = Some t2" "topic_le t1 t2"
    using kept_topic [OF _ _ t1(1)] p2 by blast
  have se2: "bt_get (in_sessions s2) sid \<noteq> None" using p2 by simp
  have "tp_demanded t2 \<and> ts_generation (tp_state t2) = dm_generation d \<and> tp_epoch t2 = dm_epoch d"
  proof (cases rule: commit_poll_cases [of pc now ticket batch deadline s2])
    case (committed se staged metadata)
    then show ?thesis
      using assms(6) t2(1) t0(1) by (fastforce simp: ticket_current_def list_ex_iff session_topic_def)
  qed (use assms(5) in auto)
  then have "tp_epoch t1 = dm_epoch d" "tp_demanded t1" "ts_generation (tp_state t1) = dm_generation d"
    using t0 t1(2) t2(2) by (auto simp: topic_le_def topic_ord_def)
  then show ?thesis using t1(1) by simp
qed

theorem commit_uninterrupted_witness:
  "\<exists>t. session_topic demo_subscribed ''s'' demo_topic = Some t \<and> tp_demanded t
    \<and> ts_generation (tp_state t) = 2 \<and> tp_epoch t = 1"
proof -
  have live: "lives unit_sizes ''s'' demo_subscribed demo_subscribed"
    by (rule lives_refl) (simp add: demo_defs)
  have "\<lparr>dm_key = demo_topic, dm_generation = 2, dm_epoch = 1\<rparr> \<in> set (tk_topics demo_ticket)"
    by (simp add: demo_ticket_def)
  from commit_uninterrupted [OF demo_reachable(3) demo_ticket_eq live live demo_published_eq this]
  show ?thesis by simp
qed

end
