(* ===== verification/Service_Streams.thy ===== *)
theory Service_Streams
  imports Service_Properties
begin

section \<open>Bootstraps, freshness and shutdown\<close>

text \<open>
  What a client can rely on at the edges of a subscription: the bootstrap it starts with, that
  what it is given is not overdue, and that a stopped service stays stopped. The two
  publication properties are applied to the run of \<open>Service_Scenario\<close> here.
\<close>

theorem commit_poll_atomic_witness:
  "commit_poll unit_sizes 40 demo_ticket demo_batch 99 demo_observed = (demo_observed, Ok False)
   \<and> fst (commit_poll unit_sizes 40 demo_ticket demo_batch 99 demo_observed)
       \<in> {demo_observed, inner_close exhausted_end demo_observed}"
proof -
  have run: "commit_poll unit_sizes 40 demo_ticket demo_batch 99 demo_observed = (demo_observed, Ok False)"
    by (simp add: commit_poll_def demo_batch_eq demo_ticket_def demo_defs ticket_current_def Let_def)
  then show ?thesis using commit_poll_atomic [OF run] by auto
qed

theorem commit_poll_fenced_witness:
  "commit_poll unit_sizes 40 demo_ticket demo_batch 99 demo_subscribed = (demo_published, Ok True)
   \<and> \<not> pn_failed (pb_pending demo_batch)"
  using demo_published_eq commit_poll_fenced [OF demo_published_eq] by simp

subsection \<open>Bootstrap\<close>

lemma capture_pushes:
  "try_fold (capture_push pc mb) (frames, n) xs = Ok (frames', n') \<Longrightarrow>
     frames' = frames @ xs \<and> (\<forall>x \<in> set xs. message_fits (size_item pc x) mb = Ok ())
     \<and> n' = n + sum_list (map (\<lambda>x. case size_item pc x of Some k \<Rightarrow> k | None \<Rightarrow> 0) xs)
     \<and> (n \<le> RETAINED_SNAPSHOT_BYTES \<longrightarrow> n' \<le> RETAINED_SNAPSHOT_BYTES)"
proof (induction xs arbitrary: frames n)
  case (Cons x xs)
  obtain k where step: "capture_push pc mb (frames, n) x = Ok (frames @ [x], n + k)" "size_item pc x = Some k"
      "message_fits (size_item pc x) mb = Ok ()" "n + k \<le> RETAINED_SNAPSHOT_BYTES"
    using Cons.prems by (auto simp: capture_push_def usize_checked_add_def split: if_splits)
  then show ?case using Cons.IH [of "frames @ [x]" "n + k"] Cons.prems by auto
qed simp

lemma capture_Ok:
  assumes "capture pc s i = Ok frames"
  obtains sb where "bt_get (in_subscribers s) i = Some sb"
    "frames = Begin (inner_cursor s) # capture_frames s sb @ [Ready (inner_cursor s)]"
    "\<forall>x \<in> set frames. message_fits (size_item pc x) (in_message_bytes s) = Ok ()"
    "sum_list (map (\<lambda>x. case size_item pc x of Some k \<Rightarrow> k | None \<Rightarrow> 0) frames) \<le> RETAINED_SNAPSHOT_BYTES"
proof -
  obtain sb n where sb: "bt_get (in_subscribers s) i = Some sb"
    and run: "try_fold (capture_push pc (in_message_bytes s)) ([], 0)
       (Begin (inner_cursor s) # capture_frames s sb @ [Ready (inner_cursor s)]) = Ok (frames, n)"
    using assms by (auto simp: capture_def try_fold_append)
  show ?thesis
    using that [OF sb] capture_pushes [OF run] by simp
qed


definition silent :: "u64 \<Rightarrow> Subscribe \<Rightarrow> queue \<Rightarrow> Inner \<Rightarrow> bool" where
  "silent i sel q s \<longleftrightarrow>
     (\<forall>(j, sb) \<in> set (in_subscribers s). sb_queue sb = j
        \<and> (j = i \<longrightarrow> sb_selection sb = sel \<and> \<not> sb_active sb \<and> bt_get (in_queues s) i = Some q))"

lemma silent_close: "silent i sel q (inner_close e s)"
  by (simp add: silent_def)

lemma silent_cong:
  "in_subscribers t = in_subscribers s \<Longrightarrow> in_queues t = in_queues s \<Longrightarrow> silent i sel q t = silent i sel q s"
  by (simp add: silent_def)

lemma silent_emit:
  assumes "silent i sel q s"
  shows "silent i sel q (inner_emit pc u s)"
proof (cases rule: advance_cases [of s])
  case running
  let ?s = "s\<lparr>in_sequence := in_sequence s + 1\<rparr>"
  let ?f = "\<lambda>(_, sb) queues. if update_recipient ?s u sb
     then bt_update (sb_queue sb) (\<lambda>q. fst (queue_offer pc (Update \<lparr>ue_cursor = inner_cursor ?s, ue_update = u\<rparr>) q)) queues
     else queues"
  have keep: "bt_get (fold ?f subs qs) i = bt_get qs i"
    if "\<forall>(j, sb) \<in> set subs. sb_queue sb = j \<and> (j = i \<longrightarrow> \<not> sb_active sb)" for subs qs
    using that
    by (induction subs arbitrary: qs) (auto simp: bt_get_update update_recipient_def)
  have "bt_get (fold ?f (in_subscribers s) (in_queues s)) i = bt_get (in_queues s) i"
    by (rule keep) (use assms in \<open>auto simp: silent_def\<close>)
  then show ?thesis
    using assms running(3) by (simp add: inner_emit_def silent_def Let_def)
qed (use assms in \<open>simp_all add: inner_emit_def silent_close\<close>)

lemma silent_settle:
  assumes "silent i sel q s"
  shows "silent i sel q (inner_settle pc now s)"
  using assms
proof (induction rule: settle_induct)
  case (turn s)
  have emits: "silent i sel q (fold (inner_emit pc) us t)" if "silent i sel q t" for us t
    using that by (induction us arbitrary: t) (simp_all add: silent_emit)
  show ?case
  proof (cases rule: settle_turn_cases [of s now pc])
    case (exhausted ss' changes)
    then show ?thesis by (simp add: silent_close)
  next
    case (visited ss' changes s3)
    have "silent i sel q (bump_revision changes (retain_live s\<lparr>in_sessions := ss'\<rparr>))"
      using turn by (auto simp: silent_def retain_live_def bt_retain_def bump_revision_def)
    then show ?thesis using visited(2,3) emits by simp
  qed
qed



subsection \<open>Freshness\<close>

definition unexpired :: "instant \<Rightarrow> Topic_entry \<Rightarrow> bool" where
  "unexpired now t \<longleftrightarrow> (\<forall>d. tp_deadline t = Some d \<longrightarrow> now < d)"

definition fresh :: "instant \<Rightarrow> Inner \<Rightarrow> bool" where
  "fresh now s \<longleftrightarrow> inner_wf s \<and> (\<not> in_stopped s \<longrightarrow> sessions_wf (\<lambda>_ _. unexpired now) s)"

lemma expire_topic_unexpired:
  "\<not> is_exhausted (expire_topic now t) \<Longrightarrow> unexpired now (visit_entry (expire_topic now t))"
  by (auto simp: unexpired_def expire_topic_def Let_def split: option.splits)

lemma settle_topic_unexpired:
  "unexpired now t \<Longrightarrow> \<not> is_exhausted (settle_topic d now t) \<Longrightarrow> unexpired now (visit_entry (settle_topic d now t))"
  by (auto simp: unexpired_def settle_topic_def POLL_GRACE_def Let_def split: option.splits)

lemma fresh_emits:
  assumes "sessions_wf (\<lambda>_ _. unexpired now) s" and "\<not> in_stopped (fold (inner_emit pc) us s)"
  shows "sessions_wf (\<lambda>_ _. unexpired now) (fold (inner_emit pc) us s)"
  using assms emits_frame [OF assms(2)] emits_identity [of s pc us]
  by (subst sessions_wf_cong [of _ s]) (simp_all add: same_identity_def)

lemma fresh_settle_turn:
  assumes "fresh now s"
  shows "fresh now (fst (settle_turn pc now s))"
proof (cases rule: settle_turn_cases [of s now pc])
  case (exhausted ss' changes)
  then show ?thesis
    using settle_turn_wf [of s pc now] assms by (simp add: fresh_def)
next
  case (visited ss' changes s3)
  let ?s = "bump_revision changes (retain_live s\<lparr>in_sessions := ss'\<rparr>)"
  have "sessions_wf (\<lambda>_ _. unexpired now) s3" if run: "\<not> in_stopped s3"
  proof -
    have "\<not> in_stopped s"
      using emits_frame [of pc changes ?s] run visited(2) by (simp add: bump_revision_def split: if_splits)
    then have "sessions_wf (\<lambda>_ _. unexpired now) s" using assms by (simp add: fresh_def)
    then have "sessions_wf (\<lambda>_ _. unexpired now) (s\<lparr>in_sessions := ss'\<rparr>)"
      by (rule walk_sessions_wf_complete [OF visited(1)]) (use settle_topic_unexpired in \<open>auto simp: settle_visit_def\<close>)
    then have "sessions_wf (\<lambda>_ _. unexpired now) ?s"
      by (subst sessions_wf_cong [of _ "s\<lparr>in_sessions := ss'\<rparr>"]) (simp_all add: bump_revision_def)
    then show ?thesis unfolding visited(2) using run visited(2) by (intro fresh_emits) simp_all
  qed
  then show ?thesis
    using settle_turn_wf [of s pc now] assms visited(3) by (simp add: fresh_def)
qed

lemma fresh_expire:
  assumes "inner_wf s"
  shows "fresh now (inner_expire pc now s)"
proof (cases rule: expire_cases [of now s pc])
  case (exhausted ss' changes)
  then show ?thesis using expire_wf [OF assms, of pc now] by (simp add: fresh_def)
next
  case (visited ss' changes)
  let ?s = "bump_revision changes (s\<lparr>in_sessions := ss'\<rparr>)"
  have "sessions_wf (\<lambda>_ _. unexpired now) (s\<lparr>in_sessions := ss'\<rparr>)"
    by (rule walk_sessions_wf_complete [OF visited(1) inner_wfD(2) [OF assms]])
      (use expire_topic_unexpired in auto)
  then have "sessions_wf (\<lambda>_ _. unexpired now) ?s"
    by (subst sessions_wf_cong [of _ "s\<lparr>in_sessions := ss'\<rparr>"]) (simp_all add: bump_revision_def)
  moreover have "inner_wf (fold (inner_emit pc) changes ?s)"
    by (rule expire_walk_wf [OF assms visited(1)])
  ultimately have "fresh now (fold (inner_emit pc) changes ?s)"
    using fresh_emits by (simp add: fresh_def)
  then show ?thesis
    unfolding visited(2) by (induction rule: settle_induct) (rule fresh_settle_turn)
qed

text \<open>
  nothing overdue is served: a snapshot answered at time \<open>now\<close> belongs to a topic whose
  sampling deadline is still ahead.
\<close>

lemma snapshot_fresh:
  assumes "reachable pc s" and "service_snapshot pc now request s = (s', Ok d)"
  shows "\<exists>t deadline. session_topic s' (session_id (gs_session request)) (gs_topic request) = Some t
    \<and> ts_snapshot (tp_state t) = Some d \<and> tp_deadline t = Some deadline \<and> now < deadline"
proof -
  have s': "s' = inner_expire pc now s" and view: "snapshot_view s' request = Ok d"
    using assms(2) by (auto simp: service_snapshot_def Let_def)
  obtain se t where get: "bt_get (in_sessions s') (session_id (gs_session request)) = Some se"
    and t: "bt_get (se_topics se) (gs_topic request) = Some t"
    and d: "ts_health (tp_state t) = Available" "ts_snapshot (tp_state t) = Some d"
    by (rule snapshot_view_topic [OF view])
  have good: "inner_wf s" using reachable_good [OF assms(1)] by (simp add: service_good_def)
  note fresh = fresh_expire [OF good, of now pc, folded s', unfolded fresh_def]
  have wf: "topic_wf (in_sequence s') (se_info se) (gs_topic request) t"
    using session_wfD [OF sessions_wf_get [OF inner_wfD(2) get] bt_get_member [OF t]] fresh by blast
  then have "tp_demanded t" using d by (simp add: topic_wf_def)
  then have "\<not> in_stopped s'"
    using session_wfD [OF sessions_wf_get [OF inner_wfD(4) get] bt_get_member [OF t]] fresh by blast
  then have "unexpired now t"
    using session_wfD [OF sessions_wf_get [OF _ get] bt_get_member [OF t]] fresh by blast
  then show ?thesis
    using wf d get t by (auto simp: topic_wf_def unexpired_def session_topic_def)
qed

subsection \<open>Shutdown\<close>

lemma subscribers_fold_get:
  assumes "bt_inv subs" and "\<And>i sb. (i, sb) \<in> set subs \<Longrightarrow> sb_queue sb = i"
  shows "bt_get (fold (\<lambda>(_, sb) qs. if P sb then bt_update (sb_queue sb) f qs else qs) subs qs) i =
    (case bt_get subs i of
       Some sb \<Rightarrow> if P sb then map_option f (bt_get qs i) else bt_get qs i
     | None \<Rightarrow> bt_get qs i)"
proof -
  let ?g = "\<lambda>(_, sb) qs. if P sb then bt_update (sb_queue sb) f qs else qs"
  have other: "bt_get (fold ?g xs qs) i = bt_get qs i"
    if "\<forall>x \<in> set xs. sb_queue (snd x) \<noteq> i" for xs qs
    using that by (induction xs arbitrary: qs) (auto simp: bt_get_update)
  show ?thesis
  proof (cases "bt_get subs i")
    case None
    then have "\<forall>x \<in> set subs. sb_queue (snd x) \<noteq> i"
      using assms(2) by (force simp: bt_get_none_iff)
    then show ?thesis using other None by simp
  next
    case (Some sb)
    obtain xs ys where subs: "subs = xs @ (i, sb) # ys" using split_list [OF bt_get_member [OF Some]] by blast
    have "i \<notin> fst ` set xs" "i \<notin> fst ` set ys" using bt_inv_distinct [OF assms(1)] subs by auto
    moreover have "sb_queue (snd x) = fst x" if "x \<in> set xs \<union> set ys" for x
      using assms(2) [of "fst x" "snd x"] that subs by auto
    ultimately have "\<forall>x \<in> set xs. sb_queue (snd x) \<noteq> i" "\<forall>x \<in> set ys. sb_queue (snd x) \<noteq> i"
      by (metis UnI1 image_eqI, metis UnI2 image_eqI)
    note keep = other [OF this(1)] other [OF this(2)]
    have "fold ?g subs qs = fold ?g ys (?g (i, sb) (fold ?g xs qs))" by (simp only: subs fold_append fold.simps o_apply)
    then have "bt_get (fold ?g subs qs) i = bt_get (?g (i, sb) (fold ?g xs qs)) i" by (simp only: keep(2))
    then show ?thesis using Some assms(2) [OF bt_get_member [OF Some]] keep(1) [of qs] by (simp add: bt_get_update)
  qed
qed

lemma steps_reachable: "(service_step pc)\<^sup>*\<^sup>* s t \<Longrightarrow> reachable pc s \<Longrightarrow> reachable pc t"
  by (induction rule: rtranclp_induct) (auto intro: reach_step)

lemma shutdown_reachable: "reachable pc s \<Longrightarrow> reachable pc (shutdown s)"
  using reach_step [of service_init "service_step pc" s, OF _ step_shutdown] .

lemma step_advances:
  assumes "inner_wf s" and "service_step pc s t"
  shows "advances s t"
  using assms(2)
proof cases
  case (step_commit batch now ticket deadline)
  show ?thesis
    unfolding step_commit(1)
    by (rule evolves_advances [OF commit_poll_correct(2) [OF assms(1) batch_provider_op [OF step_commit(2)] prod.collapse [symmetric]]])
qed (auto simp: update_lifecycle_def service_status_def service_snapshot_def shutdown_def Let_def pop_subscription_def
    intro!: sync_advances evolves_advances [OF expire_evolves] evolves_advances [OF unsubscribe_evolves] close_advances
      evolves_advances [OF subscribe_evolves] evolves_advances [OF discard_poll_correct(2)] assms(1),
    simp add: advances_def)

lemma steps_stopped:
  assumes "(service_step pc)\<^sup>*\<^sup>* s t" and "reachable pc s" and "in_stopped s"
  shows "in_stopped t"
  using assms
proof (induction rule: rtranclp_induct)
  case (step t u)
  have "inner_wf t" using reachable_good [OF steps_reachable [OF step.hyps(1) step.prems(1)]] by (simp add: service_good_def)
  then show ?case using step_advances [OF _ step.hyps(2)] step.IH step.prems by (simp add: advances_def)
qed simp

text \<open>
  C16: shutdown is final. Every open stream is closed with \<open>ServiceStopped\<close> (after its \<open>Begin\<close>,
  when that had not been delivered yet), and in every later state no poll can start, no
  subscription is granted, nothing is demanded and no snapshot is retained.
\<close>

theorem shutdown_final:
  assumes "reachable pc s" and "(service_step pc)\<^sup>*\<^sup>* (shutdown s) t"
  shows "(\<forall>(i, sb) \<in> set (in_subscribers s). \<exists>q q'. bt_get (in_queues s) i = Some q
            \<and> bt_get (in_queues (shutdown s)) i = Some q'
            \<and> queue_pending q' = takeWhile is_begin (take 1 (queue_pending q)) @ [Closed ServiceStopped])
    \<and> poll_ticket t sid = None
    \<and> snd (subscribe pc (now1, now2, now3) request t) \<noteq> Ok i
    \<and> (case session_topic t sid k of None \<Rightarrow> True | Some e \<Rightarrow> ts_health (tp_state e) = Idle \<and> ts_snapshot (tp_state e) = None)"
proof (intro conjI)
  have good: "inner_wf s" "settled s" using reachable_good [OF assms(1)] by (simp_all add: service_good_def)
  note q = queues_wfD [OF inner_wfD(3) [OF good(1)]]
  show "\<forall>(i, sb) \<in> set (in_subscribers s). \<exists>q q'. bt_get (in_queues s) i = Some q
            \<and> bt_get (in_queues (shutdown s)) i = Some q'
            \<and> queue_pending q' = takeWhile is_begin (take 1 (queue_pending q)) @ [Closed ServiceStopped]"
  proof (intro ballI, clarify)
    fix i sb assume sb: "(i, sb) \<in> set (in_subscribers s)"
    obtain qq where qq: "bt_get (in_queues s) i = Some qq" using q(4) [OF sb] by auto
    have run: "\<not> queue_ended qq" using good(2) sb q(3) [OF sb] qq by (auto simp: settled_def subscriber_ended_def)
    have "bt_get (in_subscribers s) i = Some sb" using iffD1 [OF bt_member_get [OF q(1)] sb] .
    then have "bt_get (in_queues (shutdown s)) i = Some (queue_finish ServiceStopped True qq)"
      unfolding shutdown_def close_queues by (subst subscribers_fold_get [OF q(1,3)]) (simp_all add: qq)
    moreover have "queue_pending (queue_finish ServiceStopped True qq) =
        takeWhile is_begin (take 1 (queue_pending qq)) @ [Closed ServiceStopped]"
      using run queue_discard_pending [OF q(6) [OF bt_get_member [OF qq]]]
      by (simp add: queue_finish_def queue_ended_def queue_pending_def queue_discard_def Let_def)
    ultimately show "\<exists>q q'. bt_get (in_queues s) i = Some q \<and> bt_get (in_queues (shutdown s)) i = Some q'
        \<and> queue_pending q' = takeWhile is_begin (take 1 (queue_pending q)) @ [Closed ServiceStopped]"
      using qq by blast
  qed
next
  note reach = steps_reachable [OF assms(2) shutdown_reachable [OF assms(1)]]
  have stopped: "in_stopped t"
    by (rule steps_stopped [OF assms(2) shutdown_reachable [OF assms(1)]]) (simp add: shutdown_def)
  then show "poll_ticket t sid = None" by (simp add: poll_ticket_def)
  have "in_stopped (inner_expire pc now1 t)"
    using expire_evolves [of t pc now1] stopped by (simp add: evolves_def advances_def)
  then show "snd (subscribe pc (now1, now2, now3) request t) \<noteq> Ok i"
    by (auto simp: subscribe_def Let_def split: result.splits)
  show "case session_topic t sid k of None \<Rightarrow> True | Some e \<Rightarrow> ts_health (tp_state e) = Idle \<and> ts_snapshot (tp_state e) = None"
  proof (cases "session_topic t sid k")
    case (Some e)
    have wf: "inner_wf t" using reachable_good [OF reach] by (simp add: service_good_def)
    obtain se where se: "bt_get (in_sessions t) sid = Some se" "bt_get (se_topics se) k = Some e"
      using Some by (rule session_topic_entry)
    have "\<not> tp_demanded e"
      using session_wfD [OF sessions_wf_get [OF inner_wfD(4) [OF wf stopped] se(1)] bt_get_member [OF se(2)]] .
    moreover have "topic_wf (in_sequence t) (se_info se) k e"
      using session_wfD [OF sessions_wf_get [OF inner_wfD(2) [OF wf] se(1)] bt_get_member [OF se(2)]] .
    ultimately show ?thesis
      using Some by (auto simp: topic_wf_def topic_coherent_def split: option.splits)
  qed simp
qed

theorem shutdown_final_witness:
  "poll_ticket (shutdown demo_published) ''s'' = None
   \<and> (\<exists>q'. bt_get (in_queues (shutdown demo_published)) 1 = Some q'
        \<and> queue_pending q' = [Begin \<lparr>cur_run_id = ''01'', cur_sequence = 4\<rparr>, Closed ServiceStopped])"
proof -
  have "in_subscribers demo_published = [(1, \<lparr>sb_selection = demo_selection, sb_queue = 1, sb_active = True\<rparr>)]"
    by (simp add: demo_published_def demo_subscribed_def)
  moreover have "bt_get (in_queues demo_published) 1 = Some q \<Longrightarrow>
      takeWhile is_begin (take 1 (queue_pending q)) = [Begin \<lparr>cur_run_id = ''01'', cur_sequence = 4\<rparr>]" for q
    by (auto simp: demo_published_def queue_eval queue_pending_def)
  ultimately show ?thesis
    using shutdown_final [OF demo_reachable(4) rtranclp.rtrancl_refl, of "''s''"] by force
qed

end
