(* ===== verification/Publication_Outcome.thy ===== *)
theory Publication_Outcome
  imports Service_Properties
begin

section \<open>What a commit does to every topic\<close>

text \<open>
  A specification of publication at the level of a single topic: \<open>TopicView\<close> is what a topic
  shows (generation, epoch, health, payload and sampling deadline, with unbounded counters), and
  \<open>publish_op\<close> the effect one published operation is meant to have. A successful
  \<open>commit_poll\<close>, with its staging area, its budgets, its sequence numbers and the settling of demand
  that follows, refines the fold of \<open>publish_op\<close> over the topic's own operations.
\<close>

record TopicView =
  tv_generation :: nat
  tv_epoch :: nat
  tv_health :: CapabilityHealth
  tv_payload :: "JsonPayload option"
  tv_deadline :: "instant option"

definition topic_view :: "Topic_entry \<Rightarrow> TopicView" where
  "topic_view t =
     \<lparr>tv_generation = unat (ts_generation (tp_state t)), tv_epoch = unat (tp_epoch t), tv_health = ts_health (tp_state t),
      tv_payload = map_option de_payload (ts_snapshot (tp_state t)), tv_deadline = tp_deadline t\<rparr>"

fun publish_op :: "instant \<Rightarrow> Operation \<Rightarrow> TopicView \<Rightarrow> TopicView" where
  "publish_op deadline (Op_Reset _) v =
     v\<lparr>tv_generation := tv_generation v + 1, tv_epoch := tv_epoch v + 1, tv_health := Initializing, tv_payload := None,
       tv_deadline := Some deadline\<rparr>"
| "publish_op deadline (Op_Snapshot _ payload) v =
     v\<lparr>tv_health := Available, tv_payload := Some payload, tv_deadline := Some deadline\<rparr>"
| "publish_op deadline (Op_Event _ _) v = v"
| "publish_op deadline (Op_Health _ health) v =
     v\<lparr>tv_health := health, tv_payload := (if health = Available then tv_payload v else None),
       tv_deadline := (if health = Available then Some deadline else None)\<rparr>"

definition published_view :: "instant \<Rightarrow> TopicRef \<Rightarrow> Operation list \<Rightarrow> TopicView \<Rightarrow> TopicView" where
  "published_view deadline key operations = fold (publish_op deadline) (filter (\<lambda>op. op_key op = key) operations)"

subsection \<open>Staging\<close>

definition staged_topic :: "Session_entry \<Rightarrow> StagedPublication \<Rightarrow> TopicRef \<Rightarrow> Topic_entry option" where
  "staged_topic se staged key =
     (case bt_get (sg_topics staged) key of Some t \<Rightarrow> Some t | None \<Rightarrow> bt_get (se_topics se) key)"

lemma checked_add_unat: "checked_add (n :: u64) 1 = Some m \<Longrightarrow> unat m = unat n + 1"
  by (auto simp: checked_add_1_Some_iff unat_plus_one)

lemma stage_operation_view:
  assumes "stage_operation deadline op t staged = Ok staged'"
  shows "\<exists>t'. sg_topics staged' = bt_insert (op_key op) t' (sg_topics staged)
    \<and> topic_view t' = publish_op deadline op (topic_view t)"
  using assms by (cases op) (auto simp: stage_operation_def topic_view_def checked_add_unat)

lemma prepare_operation_OkE:
  assumes "prepare_operation se ticket deadline staged op = Ok staged'"
  obtains t t' where "staged_topic se staged (op_key op) = Some t"
    "sg_topics staged' = bt_insert (op_key op) t' (sg_topics staged)" "topic_view t' = publish_op deadline op (topic_view t)"
proof -
  let ?t = "\<lambda>current. case bt_get (sg_topics staged) (op_key op) of Some t \<Rightarrow> t | None \<Rightarrow> current"
  obtain current where current: "bt_get (se_topics se) (op_key op) = Some current"
    and stage: "stage_operation deadline op (?t current) staged = Ok staged'"
    using assms by (auto simp: prepare_operation_def Let_def)
  have "staged_topic se staged (op_key op) = Some (?t current)" using current by (simp add: staged_topic_def split: option.split)
  then show ?thesis using stage_operation_view [OF stage] that by blast
qed

lemma prepare_operation_view:
  assumes "prepare_operation se ticket deadline staged op = Ok staged'"
  shows "map_option topic_view (staged_topic se staged' key) =
    map_option (if op_key op = key then publish_op deadline op else id) (map_option topic_view (staged_topic se staged key))"
proof -
  obtain t t' where t: "staged_topic se staged (op_key op) = Some t"
      "sg_topics staged' = bt_insert (op_key op) t' (sg_topics staged)" "topic_view t' = publish_op deadline op (topic_view t)"
    using assms by (rule prepare_operation_OkE)
  have "staged_topic se staged' key = (if key = op_key op then Some t' else staged_topic se staged key)"
    by (simp add: staged_topic_def t(2) bt_get_insert)
  then show ?thesis using t(1,3) by (auto simp: option.map_id)
qed

lemma prepare_view:
  assumes "prepare se ticket operations deadline = Ok staged"
  shows "map_option topic_view (staged_topic se staged key) =
    map_option (published_view deadline key operations \<circ> topic_view) (bt_get (se_topics se) key)"
proof -
  have "map_option topic_view (staged_topic se staged key) =
      map_option (published_view deadline key operations) (map_option topic_view (staged_topic se st key))"
    if "try_fold (prepare_operation se ticket deadline) st operations = Ok staged" for st
    using that
  proof (induction operations arbitrary: st)
    case (Cons op operations)
    then obtain st' where st': "prepare_operation se ticket deadline st op = Ok st'"
        "try_fold (prepare_operation se ticket deadline) st' operations = Ok staged"
      by auto
    show ?case
      using Cons.IH [OF st'(2)] prepare_operation_view [OF st'(1), of key]
      by (simp add: option.map_comp published_view_def comp_def)
  qed (simp add: published_view_def option.map_id id_def [symmetric])
  from this [OF assms [unfolded prepare_def]] show ?thesis
    by (simp add: staged_topic_def option.map_comp)
qed

lemma prepare_staged_keys:
  assumes "prepare se ticket operations deadline = Ok staged" and "bt_get (sg_topics staged) key = Some t"
  shows "\<exists>op \<in> set operations. op_key op = key"
proof -
  have "\<exists>op \<in> set operations. op_key op = key"
    if "try_fold (prepare_operation se ticket deadline) st operations = Ok staged" "bt_get (sg_topics st) key = None" for st
    using that
  proof (induction operations arbitrary: st)
    case (Cons op operations)
    then obtain st' where st': "prepare_operation se ticket deadline st op = Ok st'"
        "try_fold (prepare_operation se ticket deadline) st' operations = Ok staged"
      by auto
    have "bt_get (sg_topics st') key = None" if "op_key op \<noteq> key"
      by (rule prepare_operation_OkE [OF st'(1)]) (use Cons.prems(2) that in \<open>simp add: bt_get_insert\<close>)
    then show ?case using Cons.IH [OF st'(2)] by (cases "op_key op = key") auto
  qed (use assms(2) in simp)
  then show ?thesis using assms(1) by (simp add: prepare_def)
qed

subsection \<open>Committing\<close>

lemma committed_view: "topic_view (committed_entry n old t) = topic_view t"
  by (auto simp: committed_entry_def topic_view_def staged_changed_def at_sequence_def option.map_comp comp_def)

lemma committed_demanded: "tp_demanded (committed_entry n old t) = tp_demanded t"
  by (simp add: committed_entry_def)

text \<open>What one committed topic leaves alone: the other topics, the other sessions, the subscribers and the identity of the run.\<close>

definition same_others :: "string \<Rightarrow> Inner \<Rightarrow> Inner \<Rightarrow> bool" where
  "same_others sid s s' \<longleftrightarrow>
     in_subscribers s' = in_subscribers s \<and> in_run_id s' = in_run_id s \<and> (\<forall>sid'. sid' \<noteq> sid \<longrightarrow> session_topic s' sid' = session_topic s sid')"

lemma same_others_refl [simp]: "same_others sid s s"
  by (simp add: same_others_def)

lemma same_others_trans: "same_others sid r s \<Longrightarrow> same_others sid s t \<Longrightarrow> same_others sid r t"
  by (simp add: same_others_def)

lemma emit_same:
  assumes "\<not> in_stopped s" and "in_sequence s \<noteq> - 1"
  shows "same_others sid s (inner_emit pc u s)"
proof -
  have "in_sessions (inner_emit pc u s) = in_sessions s" "in_subscribers (inner_emit pc u s) = in_subscribers s"
      "in_run_id (inner_emit pc u s) = in_run_id s"
    unfolding emit_running [OF assms] by simp_all
  then show ?thesis unfolding same_others_def session_topic_def by simp
qed

lemma insert_same: "same_others sid s (insert_topic sid k t s)"
  by (auto simp: same_others_def session_topic_def insert_topic_def bt_get_update fun_eq_iff)

lemma commit_topic_same:
  assumes "\<not> in_stopped s" and "in_sequence s \<noteq> - 1" and "session_topic s sid k = Some old"
  shows "same_others sid s (commit_topic pc sid (k, t) s)"
  using same_others_trans [OF emit_same insert_same] insert_same assms by (simp add: commit_topic_eq [OF assms])

lemma commit_topics_outcome:
  assumes "commit_invariant sid info s" and "distinct (map fst kts)"
    and "unat (in_sequence s) + length kts < 2 ^ 64"
    and "\<forall>(k, t) \<in> set kts. \<exists>old. session_topic s sid k = Some old \<and> staged_entry info k old t"
  shows "same_others sid s (fold (commit_topic pc sid) kts s)
    \<and> (case map_of kts k of
         None \<Rightarrow> session_topic (fold (commit_topic pc sid) kts s) sid k = session_topic s sid k
       | Some t \<Rightarrow> \<exists>n old. session_topic (fold (commit_topic pc sid) kts s) sid k = Some (committed_entry n old t))"
  using assms
proof (induction kts arbitrary: s)
  case (Cons x kts)
  obtain k1 t1 where x: "x = (k1, t1)" by (cases x)
  obtain old where old: "session_topic s sid k1 = Some old" "staged_entry info k1 old t1"
    using Cons.prems(4) x by auto
  have room: "in_sequence s \<noteq> - 1" using Cons.prems(3) room_word [of "in_sequence s" "Suc (length kts)"] by simp
  define s1 where "s1 = commit_topic pc sid (k1, t1) s"
  note step = commit_topic_step [OF Cons.prems(1) room old s1_def]
  have keep: "session_topic s1 sid k' = session_topic s sid k'" if "k' \<in> fst ` set kts" for k'
    using Cons.prems(2) x that by (intro step(3)) auto
  have entries: "\<forall>(k', t') \<in> set kts. \<exists>old. session_topic s1 sid k' = Some old \<and> staged_entry info k' old t'"
    using Cons.prems(4) keep by force
  have same: "same_others sid s s1"
    using commit_topic_same [of s sid k1 old pc t1] Cons.prems(1) room old(1) by (simp add: s1_def commit_invariant_def)
  have "unat (in_sequence s1) + length kts < 2 ^ 64" using step(5) Cons.prems(3) by simp
  note IH = Cons.IH [OF step(1) _ this entries]
  have "map_of kts k1 = None" using Cons.prems(2) x by (simp add: map_of_eq_None_iff)
  then show ?case
    using IH Cons.prems(2) same step(3) [of k] step(6) x
    by (cases "k = k1"; cases "map_of kts k") (auto simp: s1_def [symmetric] intro: same_others_trans)
qed simp

lemma commit_emits_same:
  assumes "commit_invariant sid info s" and "unat (in_sequence s) + length us < 2 ^ 64"
    and "\<And>u s. f u s = s \<or> (\<exists>c. f u s = inner_emit pc c s)"
  shows "same_others sid s (fold f us s)"
  using assms(1,2)
proof (induction us arbitrary: s)
  case (Cons u us)
  have room: "in_sequence s \<noteq> - 1" using Cons.prems(2) room_word [of "in_sequence s" "Suc (length us)"] by simp
  have one: "commit_invariant sid info (fold f [u] s) \<and> unat (in_sequence (fold f [u] s)) \<le> unat (in_sequence s) + 1"
    using commit_emits [OF Cons.prems(1), of "[u]" f pc, OF _ assms(3)] Cons.prems(2) by simp
  have "same_others sid s (f u s)"
    using assms(3) [of u s] emit_same [of s sid pc] Cons.prems(1) room by (auto simp: commit_invariant_def)
  moreover have "same_others sid (f u s) (fold f us (f u s))"
    using Cons.IH [of "f u s"] one Cons.prems(2) by simp
  ultimately show ?case by (auto intro: same_others_trans)
qed simp

lemma commit_staged_outcome:
  assumes inv: "commit_invariant sid info s" and staged: "staged_for s sid info staged"
    and room: "unat (in_sequence s) + (length (sg_resets staged) + length (sg_topics staged) + length (sg_events staged)) < 2 ^ 64"
    and s'_def: "s' = commit_staged pc sid staged s"
  shows "same_others sid s s'"
    and "bt_get (sg_topics staged) k = None \<Longrightarrow> session_topic s' sid k = session_topic s sid k"
    and "bt_get (sg_topics staged) k = Some t \<Longrightarrow> \<exists>n old. session_topic s' sid k = Some (committed_entry n old t)"
proof -
  define s1 where "s1 = fold (commit_reset pc staged) (sg_resets staged) s"
  define s2 where "s2 = fold (commit_topic pc sid) (sg_topics staged) s1"
  have s': "s' = fold (commit_event pc sid) (sg_events staged) s2"
    by (simp add: s'_def commit_staged_def s1_def s2_def)
  have r1: "unat (in_sequence s) + length (sg_resets staged) < 2 ^ 64" using room by simp
  note resets = commit_emits [OF inv r1, of "commit_reset pc staged" pc, OF commit_reset_emits, folded s1_def]
  have r2: "unat (in_sequence s1) + length (sg_topics staged) < 2 ^ 64" using resets room by simp
  have distinct: "distinct (map fst (sg_topics staged))" using staged by (auto simp: staged_for_def bt_inv_distinct)
  have entries: "\<forall>(k, t) \<in> set (sg_topics staged). \<exists>old. session_topic s1 sid k = Some old \<and> staged_entry info k old t"
    using staged resets by (auto simp: staged_for_def)
  have inv1: "commit_invariant sid info s1" using resets by simp
  note topics = commit_topics_fold [OF inv1 distinct r2 entries, of pc, folded s2_def]
  note outcome = commit_topics_outcome [OF inv1 distinct r2 entries, of pc k, folded s2_def]
  have r3: "unat (in_sequence s2) + length (sg_events staged) < 2 ^ 64" using resets topics room by simp
  have inv2: "commit_invariant sid info s2" using topics by simp
  note events = commit_emits [OF inv2 r3, of "commit_event pc sid" pc, OF commit_event_emits, folded s']
  show "same_others sid s s'"
    using commit_emits_same [OF inv r1, of "commit_reset pc staged" pc, OF commit_reset_emits] outcome
      commit_emits_same [OF inv2 r3, of "commit_event pc sid" pc, OF commit_event_emits]
    by (auto simp: s1_def [symmetric] s' intro: same_others_trans)
  show "bt_get (sg_topics staged) k = None \<Longrightarrow> session_topic s' sid k = session_topic s sid k"
    using outcome events resets by (simp add: bt_get_def)
  show "bt_get (sg_topics staged) k = Some t \<Longrightarrow> \<exists>n old. session_topic s' sid k = Some (committed_entry n old t)"
    using outcome events resets by (simp add: bt_get_def)
qed

subsection \<open>Settling after a commit\<close>

text \<open>
  Settling only ever ends demand, because subscribers are dropped and never added by it: a topic
  keeps its entry or is no longer demanded.
\<close>

definition demand_bounded :: "Inner \<Rightarrow> bool" where
  "demand_bounded s \<longleftrightarrow>
     (\<forall>sid k t. session_topic s sid k = Some t \<and> topic_wanted s (SessionRef (in_run_id s) sid) k \<longrightarrow> tp_demanded t)"

definition kept_or_dropped :: "Topic_entry \<Rightarrow> Topic_entry \<Rightarrow> bool" where
  "kept_or_dropped t t' \<longleftrightarrow> t' = t \<or> \<not> tp_demanded t'"

definition topics_kept_or_dropped :: "Inner \<Rightarrow> Inner \<Rightarrow> bool" where
  "topics_kept_or_dropped s s' \<longleftrightarrow>
     (\<forall>sid k t. session_topic s sid k = Some t \<longrightarrow> (\<exists>t'. session_topic s' sid k = Some t' \<and> kept_or_dropped t t'))"

lemma topics_kept_refl: "topics_kept_or_dropped s s"
  by (simp add: topics_kept_or_dropped_def kept_or_dropped_def)

lemma topics_kept_trans: "topics_kept_or_dropped r s \<Longrightarrow> topics_kept_or_dropped s t \<Longrightarrow> topics_kept_or_dropped r t"
  unfolding topics_kept_or_dropped_def kept_or_dropped_def by metis

lemma wanted_demand_bounded:
  assumes "sessions_wf (\<lambda>info k t. tp_demanded t = topic_wanted s (si_session info) k) s"
  shows "demand_bounded s"
  unfolding demand_bounded_def
proof (intro allI impI, elim conjE)
  fix sid k t
  assume "session_topic s sid k = Some t" and wanted: "topic_wanted s (SessionRef (in_run_id s) sid) k"
  then obtain se where se: "bt_get (in_sessions s) sid = Some se" "bt_get (se_topics se) k = Some t"
    by (auto elim: session_topic_entry)
  from sessions_wf_get [OF assms se(1)] show "tp_demanded t"
    using session_wf_ref session_wfD [OF _ bt_get_member [OF se(2)]] wanted by fastforce
qed

lemma settled_bounded: "settled s \<Longrightarrow> demand_bounded s"
  by (rule wanted_demand_bounded) (simp add: settled_def)

lemma stopped_bounded: "inner_wf s \<Longrightarrow> in_stopped s \<Longrightarrow> demand_bounded s"
  by (rule settled_bounded) (rule stopped_settled)

lemma retain_wanted: "topic_wanted (retain_live s) r k \<Longrightarrow> topic_wanted s r k"
  by (auto simp: topic_wanted_def retain_live_def bt_retain_def list_ex_iff)

lemma settle_topic_kept:
  assumes "demanded \<longrightarrow> tp_demanded t" and "\<not> is_exhausted (settle_topic demanded now t)"
  shows "kept_or_dropped t (visit_entry (settle_topic demanded now t))"
  using assms by (auto simp: settle_topic_def kept_or_dropped_def Let_def split: option.splits)

lemma close_kept:
  assumes "\<And>sid k t. session_topic s sid k = Some t \<Longrightarrow> \<exists>t'. session_topic s' sid k = Some t'"
  shows "topics_kept_or_dropped s (inner_close e s')"
  unfolding topics_kept_or_dropped_def
proof (intro allI impI)
  fix sid k t assume "session_topic s sid k = Some t"
  then obtain t' where t': "session_topic s' sid k = Some t'" using assms by blast
  then have "session_topic (inner_close e s') sid k = Some (close_topic t')"
    by (auto simp: session_topic_def inner_close_def split: option.splits)
  then show "\<exists>t'. session_topic (inner_close e s') sid k = Some t' \<and> kept_or_dropped t t'"
    by (auto simp: kept_or_dropped_def close_topic_def)
qed

lemma emit_kept: "topics_kept_or_dropped s (inner_emit pc u s)"
proof (cases rule: emit_cases [of s pc u])
  case running
  then show ?thesis by (simp add: topics_kept_or_dropped_def session_topic_def kept_or_dropped_def)
next
  case exhausted
  then show ?thesis using close_kept [of s s] by simp
qed (simp add: topics_kept_refl)

lemma emits_kept: "topics_kept_or_dropped s (fold (inner_emit pc) us s)"
  by (rule emits_induct [where P = "topics_kept_or_dropped s"]) (auto intro: topics_kept_trans emit_kept topics_kept_refl)

lemma settle_turn_kept:
  assumes wf: "inner_wf s" and bounded: "demand_bounded s"
  shows "topics_kept_or_dropped s (fst (settle_turn pc now s))"
proof (cases rule: settle_turn_cases [of s now pc])
  case (exhausted ss' changes)
  have "sessions_rel (\<lambda>_ _. True) (in_sessions s) ss'"
    using walk_sessions_rel [of "\<lambda>_ _. True" "settle_visit (retain_live s) now" "in_sessions s"] exhausted(1) by simp
  then have "\<exists>t'. session_topic (retain_live s\<lparr>in_sessions := ss'\<rparr>) sid k = Some t'" if "session_topic s sid k = Some t" for sid k t
    using that by (auto simp: session_topic_def session_rel_def split: option.splits
        dest!: sessions_rel_get topics_rel_get)
  then show ?thesis using exhausted(2) close_kept by simp
next
  case (visited ss' changes s3)
  let ?s1 = "retain_live s\<lparr>in_sessions := ss'\<rparr>"
  have "topics_kept_or_dropped s ?s1"
    unfolding topics_kept_or_dropped_def
  proof (intro allI impI)
    fix sid k t assume t: "session_topic s sid k = Some t"
    then obtain se where se: "bt_get (in_sessions s) sid = Some se" "bt_get (se_topics se) k = Some t"
      by (rule session_topic_entry)
    let ?visit = "settle_visit (retain_live s) now (se_info se) k t"
    have "si_session (se_info se) = SessionRef (in_run_id s) sid"
      using session_wf_ref [OF sessions_wf_get [OF inner_wfD(2) [OF wf] se(1)]] by simp
    then have "topic_wanted (retain_live s) (si_session (se_info se)) k \<longrightarrow> tp_demanded t"
      using bounded t retain_wanted [of s "SessionRef (in_run_id s) sid" k] unfolding demand_bounded_def by metis
    moreover have "\<not> is_exhausted ?visit"
      using walk_sessions_complete [OF visited(1)] bt_get_member [OF se(1)] bt_get_member [OF se(2)] by fastforce
    ultimately have "kept_or_dropped t (visit_entry ?visit)"
      using settle_topic_kept by (simp add: settle_visit_def)
    moreover have "session_topic ?s1 sid k = Some (visit_entry ?visit)"
      using walk_sessions_complete [OF visited(1)] se by (simp add: session_topic_def visit_session_def)
    ultimately show "\<exists>t'. session_topic ?s1 sid k = Some t' \<and> kept_or_dropped t t'" by blast
  qed
  moreover have "topics_kept_or_dropped ?s1 (bump_revision changes ?s1)"
    by (simp add: topics_kept_or_dropped_def session_topic_def kept_or_dropped_def)
  ultimately show ?thesis
    using visited(2,3) emits_kept topics_kept_trans by fastforce
qed

lemma settle_turn_bounded: "inner_wf s \<Longrightarrow> demand_bounded (fst (settle_turn pc now s))"
  using settle_turn_demand(1) [of s pc now] settle_turn_wf [of s pc now] stopped_bounded wanted_demand_bounded
  by (cases "settle_turn pc now s"; cases "in_stopped (fst (settle_turn pc now s))") auto

lemma settle_kept:
  assumes "inner_wf s" and "demand_bounded s"
  shows "topics_kept_or_dropped s (inner_settle pc now s)"
proof -
  have "inner_wf (inner_settle pc now s) \<and> demand_bounded (inner_settle pc now s) \<and> topics_kept_or_dropped s (inner_settle pc now s)"
    by (rule settle_induct)
      (use assms in \<open>auto intro: topics_kept_refl settle_turn_wf settle_turn_bounded topics_kept_trans settle_turn_kept\<close>)
  then show ?thesis by simp
qed

subsection \<open>The refinement\<close>

lemma commit_metadata_same:
  assumes "\<not> in_stopped s" and "metadata \<noteq> None \<Longrightarrow> in_sequence s \<noteq> - 1"
  shows "same_others sid s (commit_metadata pc sid metadata s)"
proof (cases metadata)
  case (Some info)
  let ?s1 = "s\<lparr>in_sessions := bt_update sid (\<lambda>se. se\<lparr>se_info := info\<rparr>) (in_sessions s)\<rparr>"
  have "same_others sid s ?s1"
    by (auto simp: same_others_def session_topic_def bt_get_update fun_eq_iff)
  moreover have "same_others sid ?s1 (inner_emit pc (SessionChanged info) ?s1)"
    by (rule emit_same) (use assms Some in simp_all)
  ultimately show ?thesis using same_others_trans by (simp add: commit_metadata_def Some)
qed (simp add: commit_metadata_def)

lemma staged_outcome:
  assumes prep: "prepare se ticket operations deadline = Ok staged" and "prepared se staged" and "ticket_current se ticket"
    and se: "session_topic s sid = bt_get (se_topics se)"
    and absent: "bt_get (sg_topics staged) key = None \<Longrightarrow> session_topic s2 sid key = session_topic s sid key"
    and present: "\<And>t. bt_get (sg_topics staged) key = Some t \<Longrightarrow> \<exists>n old. session_topic s2 sid key = Some (committed_entry n old t)"
  shows "rel_option (\<lambda>t t2. tp_demanded t2 = tp_demanded t
    \<and> topic_view t2 = published_view deadline key operations (topic_view t)) (session_topic s sid key) (session_topic s2 sid key)"
proof (cases "bt_get (sg_topics staged) key")
  case None
  then show ?thesis
    using absent prepare_view [OF prep, of key] se
    by (cases "bt_get (se_topics se) key") (auto simp: staged_topic_def)
next
  case (Some t1)
  obtain t where t: "bt_get (se_topics se) key = Some t"
    using assms(2) bt_get_member [OF Some] by (auto simp: prepared_def)
  obtain n old where c: "session_topic s2 sid key = Some (committed_entry n old t1)" using present [OF Some] by blast
  have "tp_demanded t1" using prepared_get [OF assms(2) Some t] by (simp add: staged_entry_def)
  moreover have "list_ex (\<lambda>d. dm_key d = key) (tk_topics ticket)"
    using prepare_staged_keys [OF prep Some] prepare_keys [OF prep] by blast
  then have "tp_demanded t" using assms(3) t by (auto simp: ticket_current_def list_ex_iff split: option.splits)
  ultimately show ?thesis
    using c prepare_view [OF prep, of key] Some t se by (simp add: staged_topic_def committed_view committed_demanded)
qed

lemma commit_before_settle:
  assumes wf: "inner_wf s" and ops: "list_all provider_op (pn_ops (pb_pending batch))"
    and commit: "commit_poll pc now ticket batch deadline s = (s', Ok True)"
  obtains s2 where "s' = inner_settle pc now s2" "inner_wf s2" "same_others (tk_session_id ticket) s s2"
    "\<And>key. rel_option (\<lambda>t t2. tp_demanded t2 = tp_demanded t
       \<and> topic_view t2 = published_view deadline key (pn_ops (pb_pending batch)) (topic_view t))
       (session_topic s (tk_session_id ticket) key) (session_topic s2 (tk_session_id ticket) key)"
proof (cases rule: commit_poll_cases [of pc now ticket batch deadline s])
  case (committed se staged metadata)
  let ?sid = "tk_session_id ticket"
  define s1 where "s1 = commit_metadata pc ?sid metadata s"
  define s2 where "s2 = commit_staged pc ?sid staged s1"
  note checks = commit_checks_OkD [OF committed(5)]
  have se: "session_wf (topic_wf (in_sequence s)) (in_run_id s) ?sid se"
    by (rule sessions_wf_get [OF inner_wfD(2) [OF wf] committed(3)])
  have prep: "prepared se staged" by (rule prepare_prepared [OF checks(1) ops se committed(4)])
  note meta = commit_metadata_step [OF wf committed(2,3) checks(3) committed(6), of pc, folded s1_def]
  have info: "si_session (updated_info se metadata) = si_session (se_info se)"
      "si_game_id (updated_info se metadata) = si_game_id (se_info se)"
      "si_provider_id (updated_info se metadata) = si_provider_id (se_info se)"
    using checks(3) by (auto simp: updated_info_def)
  have get: "session_topic s ?sid = bt_get (se_topics se)" "session_topic s1 ?sid = bt_get (se_topics se)"
    unfolding meta(4) using committed(3) by (auto simp: session_topic_def)
  have staged: "staged_for s1 ?sid (updated_info se metadata) staged"
    using prep unfolding staged_for_def prepared_def get staged_entry_info [OF info] .
  note outcome = commit_staged_outcome [OF meta(1) staged meta(5) s2_def]
  have "same_others ?sid s s1"
    using commit_metadata_same [of s metadata ?sid pc] committed(2,6) room_word [of "in_sequence s"]
    by (auto simp: s1_def split: if_splits)
  then have same: "same_others ?sid s s2" using outcome(1) same_others_trans by blast
  have "s' = inner_settle pc now s2" using commit committed(7) by (simp add: s1_def s2_def)
  then show ?thesis
    using commit_staged_correct(1) [OF meta(1) staged meta(5) s2_def] same
  proof (rule that)
    fix key
    show "rel_option (\<lambda>t t2. tp_demanded t2 = tp_demanded t
       \<and> topic_view t2 = published_view deadline key (pn_ops (pb_pending batch)) (topic_view t))
       (session_topic s ?sid key) (session_topic s2 ?sid key)"
      by (rule staged_outcome [OF checks(1) prep committed(4) get(1)]) (use outcome(2,3) get in auto)
  qed
qed (use commit in auto)

lemma commit_views:
  assumes wf: "inner_wf s" and bounded: "demand_bounded s" and ops: "list_all provider_op (pn_ops (pb_pending batch))"
    and commit: "commit_poll pc now ticket batch deadline s = (s', Ok True)"
    and t: "session_topic s sid key = Some t"
  shows "\<exists>t'. session_topic s' sid key = Some t'
    \<and> (tp_demanded t' \<longrightarrow> tp_demanded t \<and>
         topic_view t' = (if sid = tk_session_id ticket then published_view deadline key (pn_ops (pb_pending batch)) (topic_view t)
                          else topic_view t))"
proof -
  let ?ops = "pn_ops (pb_pending batch)"
  obtain s2 where s2: "s' = inner_settle pc now s2" "inner_wf s2" "same_others (tk_session_id ticket) s s2"
      and topics: "\<And>key. rel_option (\<lambda>t t2. tp_demanded t2 = tp_demanded t \<and> topic_view t2 = published_view deadline key ?ops (topic_view t))
         (session_topic s (tk_session_id ticket) key) (session_topic s2 (tk_session_id ticket) key)"
    using commit_before_settle [OF wf ops commit] by blast
  have rel: "rel_option (\<lambda>t t2. tp_demanded t2 = tp_demanded t
      \<and> topic_view t2 = (if sid' = tk_session_id ticket then published_view deadline k ?ops (topic_view t) else topic_view t))
      (session_topic s sid' k) (session_topic s2 sid' k)" for sid' k
    using topics [of k] s2(3) by (cases "sid' = tk_session_id ticket") (auto simp: same_others_def intro: option.rel_refl)
  have "demand_bounded s2"
    unfolding demand_bounded_def
  proof (intro allI impI, elim conjE)
    fix sid' k t2 assume t2: "session_topic s2 sid' k = Some t2" and "topic_wanted s2 (SessionRef (in_run_id s2) sid') k"
    then have "topic_wanted s (SessionRef (in_run_id s) sid') k"
      using s2(3) by (simp add: same_others_def topic_wanted_cong [of s2 s])
    moreover obtain t0 where "session_topic s sid' k = Some t0" "tp_demanded t2 = tp_demanded t0"
      using rel [of sid' k] t2 by (auto simp: option_rel_Some2)
    ultimately show "tp_demanded t2" using bounded unfolding demand_bounded_def by blast
  qed
  note kept = settle_kept [OF s2(2) this, of pc now, folded s2(1)]
  obtain t2 where t2: "session_topic s2 sid key = Some t2" "tp_demanded t2 = tp_demanded t"
      "topic_view t2 = (if sid = tk_session_id ticket then published_view deadline key ?ops (topic_view t) else topic_view t)"
    using rel [of sid key] t by (auto simp: option_rel_Some1)
  obtain t' where "session_topic s' sid key = Some t'" "t' = t2 \<or> \<not> tp_demanded t'"
    using kept t2(1) unfolding topics_kept_or_dropped_def kept_or_dropped_def by blast
  then show ?thesis using t2(2,3) by auto
qed

lemma reachable_committed:
  assumes "reachable pc s" and "batch_wf batch" and "commit_poll pc now ticket batch deadline s = (s', Ok True)"
  shows "reachable pc s'"
  using reach_step [of service_init "service_step pc" s, OF assms(1) step_commit [OF assms(2)]] assms(3) by (metis fst_conv)

lemma reachable_views:
  assumes "reachable pc s" and "batch_wf batch"
    and "commit_poll pc now ticket batch deadline s = (s', Ok True)" and "session_topic s sid key = Some t"
  shows "\<exists>t'. session_topic s' sid key = Some t'
    \<and> (tp_demanded t' \<longrightarrow> tp_demanded t \<and>
         topic_view t' = (if sid = tk_session_id ticket then published_view deadline key (pn_ops (pb_pending batch)) (topic_view t)
                          else topic_view t))"
  using reachable_good [OF assms(1)] assms(2-4)
  by (intro commit_views) (auto simp: service_good_def settled_bounded batch_provider_op)

text \<open>
  C8: a published poll takes effect exactly as specified, and on nothing else. After a commit every
  topic of every session is either as its own operations leave it, in the order they were
  published, or no longer demanded, because its last subscription ended meanwhile, and
  then idle and without data.
\<close>

theorem commit_refines_view:
  assumes "reachable pc s" and "batch_wf batch"
    and "commit_poll pc now ticket batch deadline s = (s', Ok True)" and "session_topic s sid key = Some t"
  shows "\<exists>t'. session_topic s' sid key = Some t'
    \<and> (if tp_demanded t'
        then tp_demanded t \<and> topic_view t' =
          (if sid = tk_session_id ticket then published_view deadline key (pn_ops (pb_pending batch)) (topic_view t) else topic_view t)
        else ts_health (tp_state t') = Idle \<and> ts_snapshot (tp_state t') = None)"
proof -
  obtain t' where t': "session_topic s' sid key = Some t'"
      "tp_demanded t' \<longrightarrow> tp_demanded t \<and> topic_view t' =
         (if sid = tk_session_id ticket then published_view deadline key (pn_ops (pb_pending batch)) (topic_view t) else topic_view t)"
    using reachable_views [OF assms] by blast
  have "\<exists>info. topic_wf (in_sequence s') info key t'"
    by (rule reachable_topic [OF reachable_committed [OF assms(1-3)] t'(1)]) (rule exI)
  then have "ts_health (tp_state t') = Idle \<and> ts_snapshot (tp_state t') = None" if "\<not> tp_demanded t'"
    using that by (auto simp: topic_wf_def topic_coherent_def split: option.splits)
  then show ?thesis using t' by simp
qed

theorem commit_refines_view_witness:
  "\<exists>t'. session_topic demo_published ''s'' demo_topic = Some t' \<and> topic_view t' =
     published_view 99 demo_topic [Op_Snapshot demo_topic ''1''] (topic_view (demo_entry 2 Initializing None True 1 (Some (20 + POLL_GRACE))))"
proof -
  have "batch_wf demo_batch" unfolding demo_batch_def by (rule poll_batch_wf)
  moreover have "session_topic demo_subscribed ''s'' demo_topic = Some (demo_entry 2 Initializing None True 1 (Some (20 + POLL_GRACE)))"
    by (simp add: session_topic_def demo_defs)
  moreover have "session_topic demo_published ''s'' demo_topic = Some (demo_sample 5)"
    by (simp add: session_topic_def demo_published_def)
  ultimately show ?thesis
    using commit_refines_view [OF demo_reachable(3) _ demo_published_eq, of "''s''" demo_topic]
    by (simp add: demo_batch_eq demo_ticket_def)
qed

subsection \<open>Tickets after a commit\<close>

lemma topic_view_counters:
  "tv_generation (topic_view t) = unat (ts_generation (tp_state t))" "tv_epoch (topic_view t) = unat (tp_epoch t)"
  by (simp_all add: topic_view_def)

lemma published_counters:
  "tv_generation (published_view deadline key ops v) = tv_generation v + length (filter (\<lambda>op. op = Op_Reset key) ops)
   \<and> tv_epoch (published_view deadline key ops v) = tv_epoch v + length (filter (\<lambda>op. op = Op_Reset key) ops)"
proof (induction ops arbitrary: v)
  case (Cons op ops)
  show ?case
  proof (cases "op_key op = key")
    case True
    then show ?thesis
      using Cons.IH [of "publish_op deadline op v"] by (cases op) (simp_all add: published_view_def)
  next
    case False
    then show ?thesis using Cons.IH [of v] by (auto simp: published_view_def)
  qed
qed (simp add: published_view_def)

lemma batch_reset_count:
  assumes "batch_wf batch"
  shows "length (filter (\<lambda>op. op = Op_Reset key) (pn_ops (pb_pending batch))) = (if key \<in> set (reset_intents batch) then 1 else 0)"
proof -
  have "count_list (List.map_filter op_reset ops) key = length (filter (\<lambda>op. op = Op_Reset key) ops)" for ops
  proof (induction ops)
    case (Cons op ops)
    then show ?case by (cases op) (auto simp: List.map_filter_simps)
  qed (simp add: List.map_filter_simps)
  moreover have "distinct xs \<Longrightarrow> count_list xs key = (if key \<in> set xs then 1 else 0)" for xs
    by (induction xs) (auto simp: count_list_0_iff)
  ultimately show ?thesis using assms by (metis batch_wf_def reset_intents_def)
qed

lemma saturating_unat:
  assumes "unat g' = unat (g :: u64) + 1"
  shows "saturating_add g 1 = g'"
proof -
  have "unat g + 1 < 2 ^ 64" using unsigned_less [of g', where 'a = nat] assms by simp
  then have "saturating_add g 1 = g + 1" "unat (g + 1) = unat g + 1"
    by (simp_all add: saturating_add_def unat_word_ariths)
  then show ?thesis using assms by (simp add: word_unat_eq_iff)
qed

lemma committed_ticket:
  assumes "commit_poll pc now ticket batch deadline s = (s', Ok True)" and "d \<in> set (tk_topics ticket)"
  shows "\<exists>t. session_topic s (tk_session_id ticket) (dm_key d) = Some t \<and> ts_generation (tp_state t) = dm_generation d \<and> tp_epoch t = dm_epoch d"
proof (cases rule: commit_poll_cases [of pc now ticket batch deadline s])
  case (committed se staged metadata)
  then show ?thesis
    using assms(2) by (cases "bt_get (se_topics se) (dm_key d)") (auto simp: ticket_current_def list_ex_iff session_topic_def)
qed (use assms(1) in auto)

text \<open>
  C9: after a commit the ticket the host remembers, advanced by the resets of the poll, is exactly
  the service's: every topic that is still demanded has the remembered generation and epoch, so a
  provider is not asked to start over for a reset it announced itself.
\<close>

theorem commit_rebase_exact:
  assumes "reachable pc s" and "batch_wf batch" and "commit_poll pc now ticket batch deadline s = (s', Ok True)"
    and "poll_ticket s' (tk_session_id ticket) = Some later" and "d \<in> set (tk_topics later)"
    and "d' \<in> set (tk_topics (rebase_resets (reset_intents batch) ticket))" and "dm_key d' = dm_key d"
  shows "d' = d"
proof -
  let ?sid = "tk_session_id ticket" and ?k = "dm_key d" and ?r = "dm_key d \<in> set (reset_intents batch)"
  obtain d0 where d0: "d0 \<in> set (tk_topics ticket)" "dm_key d0 = ?k"
      "d' = (if ?r then d0\<lparr>dm_generation := saturating_add (dm_generation d0) 1, dm_epoch := saturating_add (dm_epoch d0) 1\<rparr> else d0)"
    using assms(6,7) by (auto simp: rebase_resets_def split: if_splits)
  obtain t where t: "session_topic s ?sid ?k = Some t" "ts_generation (tp_state t) = dm_generation d0" "tp_epoch t = dm_epoch d0"
    using committed_ticket [OF assms(3) d0(1)] d0(2) by auto
  obtain t' where t': "session_topic s' ?sid ?k = Some t'" "tp_demanded t'"
      "ts_generation (tp_state t') = dm_generation d" "tp_epoch t' = dm_epoch d"
    using ticket_topic [OF reachable_committed [OF assms(1-3)] assms(4,5)] by blast
  have "topic_view t' = published_view deadline ?k (pn_ops (pb_pending batch)) (topic_view t)"
    using reachable_views [OF assms(1-3) t(1)] t'(1,2) by simp
  then have "unat (dm_generation d) = unat (dm_generation d0) + (if ?r then 1 else 0)"
      "unat (dm_epoch d) = unat (dm_epoch d0) + (if ?r then 1 else 0)"
    using published_counters [of deadline ?k "pn_ops (pb_pending batch)" "topic_view t"] topic_view_counters [of t] topic_view_counters [of t']
      t(2,3) t'(3,4) batch_reset_count [OF assms(2), of ?k]
    by simp_all
  then have "dm_generation d' = dm_generation d" "dm_epoch d' = dm_epoch d"
    using d0(3) saturating_unat by (auto simp: word_unat_eq_iff split: if_splits)
  then show ?thesis using assms(7) by (intro Demand.equality) simp_all
qed

theorem commit_rebase_exact_witness:
  "hd (tk_topics (rebase_resets (reset_intents demo_batch) demo_ticket)) = \<lparr>dm_key = demo_topic, dm_generation = 2, dm_epoch = 1\<rparr>"
proof (rule commit_rebase_exact [OF demo_reachable(3) _ demo_published_eq])
  show "batch_wf demo_batch" unfolding demo_batch_def by (rule poll_batch_wf)
  show "poll_ticket demo_published (tk_session_id demo_ticket) = Some demo_ticket"
    by (simp add: poll_ticket_def demo_published_def demo_defs current_demand_def demo_ticket_def)
qed (simp_all add: rebase_resets_def reset_intents_def demo_batch_eq demo_ticket_def)

end
