(* ===== verification/Client_Validation.thy ===== *)
theory Client_Validation
  imports Wire Ordered_Map
begin

section \<open>Validation of a subscription stream by the client\<close>

text \<open>
  \<open>crates/wf-observer-sdk/src/subscription/validation.rs\<close>: the reader tracks the order and the
  identities of the frames of one stream and rejects anything else. \<open>accept\<close> mutates the tracker
  in place; after an error the reader is dropped with its stream, so the model returns a new
  tracker or the error.
\<close>

datatype ClientError =
    InvalidEndpoint string
  | LocalDiscovery string
  | Identity_error string
  | NotAuthorized
  | Timeout
  | Ended SubscriptionEnd
  | Closed_client
  | ConcurrentNext
  | Lagged_client
  | Request RequestError
  | Transport string
  | Protocol string
  | WrongTopic
  | Decode string

definition MAX_ACTIVE_METADATA_BYTES :: usize where
  "MAX_ACTIVE_METADATA_BYTES = 8 * 1024 * 1024"

record SeenSession =
  seen_info :: SessionInfo
  seen_topics :: "(TopicRef, u64) btree"

record Validation =
  va_selection :: Subscribe
  va_checkpoint :: "ServiceCursor option"
  va_ready :: bool
  va_sequence :: u64
  va_sessions :: "(string, SeenSession) btree"

definition validation_new :: "Subscribe \<Rightarrow> Validation" where
  "validation_new selection =
     \<lparr>va_selection = selection\<lparr>sel_topics := remdups_adj (sort (sel_topics selection))\<rparr>,
      va_checkpoint = None, va_ready = False, va_sequence = 0, va_sessions = []\<rparr>"

definition begun :: "Validation \<Rightarrow> bool" where
  "begun v \<longleftrightarrow> va_checkpoint v \<noteq> None"

definition check :: "bool \<Rightarrow> string \<Rightarrow> (unit, ClientError) result" where
  "check condition message = (if \<not> condition then Err (Protocol message) else Ok ())"

definition client_identifier :: "string \<Rightarrow> bool" where
  "client_identifier value \<longleftrightarrow> value \<noteq> [] \<and> length value \<le> 256"

subsection \<open>Sessions and topics\<close>

definition selected :: "Validation \<Rightarrow> SessionInfo \<Rightarrow> bool" where
  "selected v info \<longleftrightarrow>
     (case va_checkpoint v of None \<Rightarrow> False | Some c \<Rightarrow> cur_run_id c = run_id (si_session info))
     \<and> client_identifier (session_id (si_session info))
     \<and> client_identifier (si_provider_id info)
     \<and> client_identifier (si_game_id info)
     \<and> list_ex (\<lambda>t. provider_id t = si_provider_id info) (sel_topics (va_selection v))
     \<and> (case sel_sessions (va_selection v) of
          All_sessions \<Rightarrow> True
        | Session_only reference \<Rightarrow> reference = si_session info)"

definition va_add_session :: "SessionInfo \<Rightarrow> Validation \<Rightarrow> (Validation, ClientError) result" where
  "va_add_session info v =
     rbind (check (selected v info \<and> \<not> bt_contains (va_sessions v) (session_id (si_session info)))
              ''unexpected or duplicate session'') (\<lambda>_.
     Ok (v\<lparr>va_sessions := bt_insert (session_id (si_session info))
              \<lparr>seen_info = info, seen_topics = []\<rparr> (va_sessions v)\<rparr>))"

definition va_source :: "Validation \<Rightarrow> TopicSource \<Rightarrow> (SeenSession, ClientError) result" where
  "va_source v source =
     rbind (ok_or (bt_get (va_sessions v) (session_id (src_session source)))
              (Protocol ''topic precedes its session'')) (\<lambda>session.
     rbind (check (si_session (seen_info session) = src_session source
                   \<and> si_game_id (seen_info session) = src_game_id source
                   \<and> si_provider_id (seen_info session) = provider_id (src_topic source)
                   \<and> src_topic source \<in> set (sel_topics (va_selection v)))
              ''unexpected topic source'') (\<lambda>_.
     Ok session))"

definition set_generation :: "TopicSource \<Rightarrow> u64 \<Rightarrow> Validation \<Rightarrow> Validation" where
  "set_generation source generation v =
     v\<lparr>va_sessions := bt_update (session_id (src_session source))
         (\<lambda>s. s\<lparr>seen_topics := bt_insert (src_topic source) generation (seen_topics s)\<rparr>) (va_sessions v)\<rparr>"

definition va_topic :: "TopicSnapshot \<Rightarrow> bool \<Rightarrow> Validation \<Rightarrow> (Validation, ClientError) result" where
  "va_topic t bootstrap v =
     rbind (va_source v (ts_source t)) (\<lambda>session.
     (let old = bt_get (seen_topics session) (src_topic (ts_source t))
      in rbind (check (0 < ts_generation t
                  \<and> (if bootstrap then old = None
                     else (case old of None \<Rightarrow> True | Some g \<Rightarrow> g = ts_generation t)))
                  ''duplicate topic or generation changed without reset'') (\<lambda>_.
         rbind (case ts_snapshot t of
                  None \<Rightarrow> Ok ()
                | Some data \<Rightarrow>
                    check (ts_health t = Available
                           \<and> md_source (de_metadata data) = ts_source t
                           \<and> md_generation (de_metadata data) = ts_generation t
                           \<and> 0 < md_sequence (de_metadata data)
                           \<and> md_sequence (de_metadata data) \<le> va_sequence v)
                      ''snapshot does not match its topic state'') (\<lambda>_.
         Ok (set_generation (ts_source t) (ts_generation t) v)))))"

fun va_update :: "SubscriptionUpdate \<Rightarrow> Validation \<Rightarrow> (Validation, ClientError) result" where
  "va_update (SessionStarted info) v = va_add_session info v"
| "va_update (SessionChanged info) v =
     rbind (check (selected v info) ''unexpected session metadata'') (\<lambda>_.
     rbind (ok_or (bt_get (va_sessions v) (session_id (si_session info)))
              (Protocol ''unknown session changed'')) (\<lambda>current.
     rbind (check (si_provider_id (seen_info current) = si_provider_id info
                   \<and> si_game_id (seen_info current) = si_game_id info)
              ''session ownership changed'') (\<lambda>_.
     Ok (v\<lparr>va_sessions := bt_update (session_id (si_session info)) (\<lambda>s. s\<lparr>seen_info := info\<rparr>) (va_sessions v)\<rparr>))))"
| "va_update (SessionEnded session _) v =
     rbind (check (case bt_get (va_sessions v) (session_id session) of
                     None \<Rightarrow> False
                   | Some s \<Rightarrow> si_session (seen_info s) = session)
              ''unknown session ended'') (\<lambda>_.
     Ok (v\<lparr>va_sessions := bt_remove (session_id session) (va_sessions v)\<rparr>))"
| "va_update (TopicReset source generation _) v =
     rbind (va_source v source) (\<lambda>session.
     rbind (check (case bt_get (seen_topics session) (src_topic source) of
                     None \<Rightarrow> False
                   | Some old \<Rightarrow> old < generation)
              ''reset does not advance a known generation'') (\<lambda>_.
     Ok (set_generation source generation v)))"
| "va_update (TopicChanged t) v = va_topic t False v"
| "va_update (Event event) v =
     (let meta = ee_metadata event
      in rbind (va_source v (md_source meta)) (\<lambda>session.
         rbind (check (bt_get (seen_topics session) (src_topic (md_source meta)) = Some (md_generation meta)
                       \<and> md_sequence meta = va_sequence v)
                  ''event has stale generation or sequence'') (\<lambda>_.
         Ok v)))"

subsection \<open>Frames\<close>

fun accept_frame :: "SubscriptionItem \<Rightarrow> Validation \<Rightarrow> (Validation, ClientError) result" where
  "accept_frame (Begin cursor) v =
     rbind (check (\<not> begun v \<and> client_identifier (cur_run_id cursor)) ''invalid or duplicate Begin'') (\<lambda>_.
     Ok (v\<lparr>va_checkpoint := Some cursor, va_sequence := cur_sequence cursor\<rparr>))"
| "accept_frame (Session info) v =
     rbind (check (begun v \<and> \<not> va_ready v) ''Session outside bootstrap'') (\<lambda>_. va_add_session info v)"
| "accept_frame (Topic t) v =
     rbind (check (begun v \<and> \<not> va_ready v) ''Topic outside bootstrap'') (\<lambda>_. va_topic t True v)"
| "accept_frame (Snapshot _) v = Err (Protocol ''snapshot was not reconstructed'')"
| "accept_frame (Ready cursor) v =
     rbind (check (\<not> va_ready v \<and> va_checkpoint v = Some cursor) ''invalid Ready checkpoint'') (\<lambda>_.
     rbind (try_fold (\<lambda>_ (_, session).
              check (length (seen_topics session) =
                       length (filter (\<lambda>t. provider_id t = si_provider_id (seen_info session))
                                 (sel_topics (va_selection v))))
                ''bootstrap omitted a selected topic'') () (va_sessions v)) (\<lambda>_.
     Ok (v\<lparr>va_ready := True\<rparr>)))"
| "accept_frame (Update update) v =
     rbind (check (va_ready v
                   \<and> (case va_checkpoint v of None \<Rightarrow> False | Some c \<Rightarrow> cur_run_id c = cur_run_id (ue_cursor update))
                   \<and> va_sequence v < cur_sequence (ue_cursor update))
              ''out-of-order update'') (\<lambda>_.
     va_update (ue_update update) (v\<lparr>va_sequence := cur_sequence (ue_cursor update)\<rparr>))"
| "accept_frame (Closed _) v = rbind (check (begun v) ''Closed before Begin'') (\<lambda>_. Ok v)"

definition seen_bytes :: "postcard \<Rightarrow> SeenSession \<Rightarrow> usize" where
  "seen_bytes pc session =
     min usize_max
       (min usize_max ((case size_info pc (seen_info session) of Some n \<Rightarrow> n | None \<Rightarrow> usize_max div 2) + 256)
        + sum_list (map (\<lambda>(key, _). length (provider_id key) + length (topic key) + 256) (seen_topics session)))"

definition metadata_bytes :: "postcard \<Rightarrow> Validation \<Rightarrow> usize" where
  "metadata_bytes pc v = sum_list (map (\<lambda>(_, session). seen_bytes pc session) (va_sessions v))"

definition accept :: "postcard \<Rightarrow> Validation \<Rightarrow> SubscriptionItem \<Rightarrow> (Validation, ClientError) result" where
  "accept pc v item =
     rbind (accept_frame item v) (\<lambda>v'.
     rbind (check (metadata_bytes pc v' \<le> MAX_ACTIVE_METADATA_BYTES) ''active metadata exceeds byte limit'') (\<lambda>_.
     Ok v'))"

abbreviation accept_all :: "postcard \<Rightarrow> Validation \<Rightarrow> SubscriptionItem list \<Rightarrow> (Validation, ClientError) result" where
  "accept_all pc \<equiv> try_fold (accept pc)"

lemma check_Ok_iff [simp]: "check c m = Ok u \<longleftrightarrow> c"
  by (simp add: check_def)

subsection \<open>What an accepted stream looks like\<close>

lemma set_generation_sel [simp]:
  "va_selection (set_generation src g v) = va_selection v" "va_checkpoint (set_generation src g v) = va_checkpoint v"
  "va_ready (set_generation src g v) = va_ready v" "va_sequence (set_generation src g v) = va_sequence v"
  by (simp_all add: set_generation_def)

definition same_progress :: "Validation \<Rightarrow> Validation \<Rightarrow> bool" where
  "same_progress v v' \<longleftrightarrow>
     va_selection v' = va_selection v \<and> va_checkpoint v' = va_checkpoint v \<and> va_ready v' = va_ready v
     \<and> va_sequence v' = va_sequence v"

lemma va_add_session_progress: "va_add_session info v = Ok v' \<Longrightarrow> same_progress v v'"
  by (auto simp: va_add_session_def same_progress_def)

lemma va_topic_progress: "va_topic t b v = Ok v' \<Longrightarrow> same_progress v v'"
  by (auto simp: va_topic_def same_progress_def Let_def)

lemma va_update_progress: "va_update u v = Ok v' \<Longrightarrow> same_progress v v'"
  by (cases u) (auto simp: same_progress_def Let_def dest: va_add_session_progress va_topic_progress)

lemmas va_progress = va_add_session_progress va_topic_progress va_update_progress

lemma accept_frameD: "accept pc v x = Ok v' \<Longrightarrow> accept_frame x v = Ok v' \<and> metadata_bytes pc v' \<le> MAX_ACTIVE_METADATA_BYTES"
  by (auto simp: accept_def)

fun is_bootstrap :: "SubscriptionItem \<Rightarrow> bool" where
  "is_bootstrap (Session _) = True"
| "is_bootstrap (Topic _) = True"
| "is_bootstrap _ = False"

fun is_closed_frame :: "SubscriptionItem \<Rightarrow> bool" where
  "is_closed_frame (Closed _) = True"
| "is_closed_frame _ = False"

definition grammatical :: "Validation \<Rightarrow> SubscriptionItem list \<Rightarrow> ServiceCursor \<Rightarrow> SubscriptionItem list \<Rightarrow> UpdateEnvelope list \<Rightarrow> bool" where
  "grammatical v items c boot us \<longleftrightarrow>
     va_checkpoint v = Some c
     \<and> items = Begin c # boot @ (if va_ready v then Ready c # map Update us else [])
     \<and> list_all is_bootstrap boot
     \<and> list_all (\<lambda>u. cur_run_id (ue_cursor u) = cur_run_id c) us
     \<and> sorted_wrt (<) (cur_sequence c # map (cur_sequence \<circ> ue_cursor) us)
     \<and> va_sequence v = last (cur_sequence c # map (cur_sequence \<circ> ue_cursor) us)"

lemma sorted_wrt_less_snoc:
  fixes n :: "'a::linorder"
  assumes "sorted_wrt (<) (m # ns)" and "last (m # ns) < n"
  shows "sorted_wrt (<) (m # ns @ [n])"
proof -
  have "x \<le> last (m # ns)" if "x \<in> set (m # ns)" for x
    using assms(1) that by (induction ns arbitrary: m) (auto simp: less_imp_le dest: order.strict_implies_order)
  then have "\<forall>x \<in> set (m # ns). x < n" using assms(2) by (meson le_less_trans)
  then show ?thesis using assms(1) by (simp add: sorted_wrt_append)
qed

lemma accept_begins:
  "accept_frame x v = Ok v' \<Longrightarrow> \<not> begun v \<Longrightarrow>
     \<exists>c. x = Begin c \<and> v' = v\<lparr>va_checkpoint := Some c, va_sequence := cur_sequence c\<rparr>"
  by (cases x) (auto simp: begun_def)

lemma grammatical_step:
  assumes "grammatical v items c boot us" and "accept_frame x v = Ok v'" and "\<not> is_closed_frame x"
    and "us = [] \<or> va_ready v"
  shows "\<exists>boot' us'. grammatical v' (items @ [x]) c boot' us' \<and> (us' = [] \<or> va_ready v')"
proof (cases x)
  case (Begin c')
  then show ?thesis using assms(1,2) by (auto simp: grammatical_def begun_def)
next
  case (Session info)
  then have "\<not> va_ready v" "same_progress v v'" using assms(2) va_progress by auto
  then have "grammatical v' (items @ [x]) c (boot @ [x]) us"
    using assms(1,4) Session by (simp add: grammatical_def same_progress_def)
  then show ?thesis using assms(4) \<open>\<not> va_ready v\<close> by blast
next
  case (Topic t)
  then have "\<not> va_ready v" "same_progress v v'" using assms(2) va_progress by auto
  then have "grammatical v' (items @ [x]) c (boot @ [x]) us"
    using assms(1,4) Topic by (simp add: grammatical_def same_progress_def)
  then show ?thesis using assms(4) \<open>\<not> va_ready v\<close> by blast
next
  case (Ready c')
  then have "\<not> va_ready v" "c' = c" "v' = v\<lparr>va_ready := True\<rparr>" using assms(1,2) by (auto simp: grammatical_def)
  moreover from this have "us = []" using assms(4) by simp
  ultimately have "grammatical v' (items @ [x]) c boot []"
    using assms(1) Ready by (simp add: grammatical_def)
  then show ?thesis by blast
next
  case (Update u)
  then have ready: "va_ready v" "cur_run_id (ue_cursor u) = cur_run_id c" "va_sequence v < cur_sequence (ue_cursor u)"
    and "same_progress (v\<lparr>va_sequence := cur_sequence (ue_cursor u)\<rparr>) v'"
    using assms(1,2) va_progress(3) by (auto simp: grammatical_def)
  then have "grammatical v' (items @ [x]) c boot (us @ [u]) \<and> va_ready v'"
    using assms(1) Update sorted_wrt_less_snoc [of "cur_sequence c" "map (cur_sequence \<circ> ue_cursor) us" "cur_sequence (ue_cursor u)"]
    by (simp add: grammatical_def same_progress_def)
  then show ?thesis by blast
qed (use assms in auto)



end
