(* ===== verification/Client_Listener.thy ===== *)
theory Client_Listener
  imports Client_Validation
begin

section \<open>Listeners of the client SDK\<close>

text \<open>
  \<open>crates/wf-observer-sdk/src/subscription/listener.rs\<close>: an application listens to several
  feeds, one per topic. State notifications coalesce; events keep their order, are bounded by
  bytes, and expire when their session or generation ends. Feeds are referred to by number;
  the lock of a listener makes each function one step. \<open>limit\<close> is the transport's maximal
  message size, which is also the budget for buffered events.
\<close>

record FeedState =
  fs_sessions :: "(SessionRef, u64 \<times> SessionInfo) btree"
  fs_topics :: "(SessionRef, TopicSnapshot) btree"

definition feed_state_default :: FeedState where
  "feed_state_default = \<lparr>fs_sessions = [], fs_topics = []\<rparr>"

record SubscriptionState =
  sst_sessions :: "SessionInfo list"
  sst_topics :: "TopicSnapshot list"

datatype ListenerItem =
    State_item SubscriptionState
  | Event_item EventEnvelope
  | Closed_item SubscriptionEnd

type_synonym terminal = "(SubscriptionEnd, ClientError) result"

record Listener =
  ls_receive_events :: bool
  ls_feeds :: "nat list"
  ls_states :: "(TopicRef, FeedState) btree"
  ls_changed :: bool
  ls_events :: "(usize \<times> EventEnvelope) list"
  ls_event_bytes :: usize
  ls_terminal :: "terminal option"
  ls_closed :: bool
  ls_ready :: bool

definition listener_new :: "bool \<Rightarrow> Listener" where
  "listener_new receive_events =
     \<lparr>ls_receive_events = receive_events, ls_feeds = [], ls_states = [], ls_changed = False, ls_events = [],
      ls_event_bytes = 0, ls_terminal = None, ls_closed = False, ls_ready = False\<rparr>"

subsection \<open>The merged state\<close>

definition merge_session ::
  "SessionRef \<times> u64 \<times> SessionInfo \<Rightarrow> (SessionRef, u64 \<times> SessionInfo) btree \<Rightarrow> (SessionRef, u64 \<times> SessionInfo) btree" where
  "merge_session = (\<lambda>(id', value) sessions.
     (case bt_get sessions id' of
        None \<Rightarrow> bt_insert id' value sessions
      | Some current \<Rightarrow> if fst current < fst value then bt_insert id' value sessions else sessions))"

definition merge_sessions :: "(TopicRef, FeedState) btree \<Rightarrow> (SessionRef, u64 \<times> SessionInfo) btree" where
  "merge_sessions states = fold (\<lambda>(_, state). fold merge_session (fs_sessions state)) states []"

definition merged_state :: "(TopicRef, FeedState) btree \<Rightarrow> SubscriptionState" where
  "merged_state states =
     \<lparr>sst_sessions = map (\<lambda>(_, _, info). info) (merge_sessions states),
      sst_topics = concat (map (\<lambda>(_, state). map snd (fs_topics state)) states)\<rparr>"

subsection \<open>Operations\<close>

definition listener_check_open :: "Listener \<Rightarrow> (unit, ClientError) result" where
  "listener_check_open q =
     (if \<not> ls_closed q then Ok ()
      else Err (case ls_terminal q of
          Some (Err error) \<Rightarrow> error
        | Some (Ok _) \<Rightarrow> Protocol ''subscription ended during setup''
        | None \<Rightarrow> Closed_client))"

definition listener_register :: "nat \<Rightarrow> Listener \<Rightarrow> Listener \<times> bool" where
  "listener_register feed q =
     (if ls_closed q then (q, False) else (q\<lparr>ls_feeds := ls_feeds q @ [feed]\<rparr>, True))"

definition event_current :: "TopicRef \<Rightarrow> FeedState \<Rightarrow> EventEnvelope \<Rightarrow> bool" where
  "event_current key state event \<longleftrightarrow>
     (let source = md_source (ee_metadata event)
      in src_topic source \<noteq> key
         \<or> (case bt_get (fs_topics state) (src_session source) of
              None \<Rightarrow> False
            | Some current \<Rightarrow> ts_generation current = md_generation (ee_metadata event)))"

definition listener_state :: "TopicRef \<Rightarrow> FeedState \<Rightarrow> Listener \<Rightarrow> Listener" where
  "listener_state key state q =
     (if ls_closed q then q
      else (let removed = sum_list (map fst (filter (\<lambda>(_, event). \<not> event_current key state event) (ls_events q)))
        in q\<lparr>ls_events := filter (\<lambda>(_, event). event_current key state event) (ls_events q),
             ls_event_bytes := ls_event_bytes q - removed,
             ls_states := bt_insert key state (ls_states q),
             ls_changed := True, ls_ready := True\<rparr>))"

text \<open>\<open>finish\<close> also returns the feeds to detach from.\<close>

definition listener_finish :: "terminal option \<Rightarrow> Listener \<Rightarrow> Listener \<times> nat list" where
  "listener_finish terminal q =
     (if ls_closed q then ((if terminal = None then q\<lparr>ls_terminal := None\<rparr> else q), [])
      else (q\<lparr>ls_closed := True, ls_terminal := terminal, ls_states := [], ls_events := [], ls_event_bytes := 0,
              ls_changed := False, ls_feeds := [], ls_ready := True\<rparr>, ls_feeds q))"

definition listener_event :: "postcard \<Rightarrow> usize \<Rightarrow> EventEnvelope \<Rightarrow> Listener \<Rightarrow> Listener \<times> nat list" where
  "listener_event pc limit event q =
     (if \<not> ls_receive_events q then (q, [])
      else (let size = (case size_event pc event of Some n \<Rightarrow> n | None \<Rightarrow> usize_max)
        in if ls_closed q then (q, [])
           else if limit - ls_event_bytes q < size then listener_finish (Some (Err Lagged_client)) q
           else (q\<lparr>ls_event_bytes := ls_event_bytes q + size, ls_events := ls_events q @ [(size, event)],
                   ls_ready := True\<rparr>, [])))"

definition listener_current :: "Listener \<Rightarrow> SubscriptionState option" where
  "listener_current q = (if ls_closed q then None else Some (merged_state (ls_states q)))"

text \<open>One turn of the loop of \<open>next\<close>: it returns, or waits for the permit and tries again.\<close>

datatype listener_turn = Returned "(ListenerItem option, ClientError) result" | Again | Waiting

definition listener_next :: "Listener \<Rightarrow> Listener \<times> listener_turn" where
  "listener_next q =
     (case ls_terminal q of
        Some terminal \<Rightarrow>
          (q\<lparr>ls_terminal := None\<rparr>,
           Returned (case terminal of Ok reason \<Rightarrow> Ok (Some (Closed_item reason)) | Err e \<Rightarrow> Err e))
      | None \<Rightarrow>
        (if ls_closed q then (q, Returned (Ok None))
         else if ls_changed q
         then (q\<lparr>ls_changed := False\<rparr>, Returned (Ok (Some (State_item (merged_state (ls_states q))))))
         else (case ls_events q of
             (bytes, event) # rest \<Rightarrow>
               (q\<lparr>ls_events := rest, ls_event_bytes := ls_event_bytes q - bytes\<rparr>, Returned (Ok (Some (Event_item event))))
           | [] \<Rightarrow> if ls_ready q then (q\<lparr>ls_ready := False\<rparr>, Again) else (q, Waiting))))"

subsection \<open>Runs of one listener\<close>

datatype listener_op =
    Op_state TopicRef FeedState
  | Op_event EventEnvelope
  | Op_finish "terminal option"
  | Op_next

fun listener_step :: "postcard \<Rightarrow> usize \<Rightarrow> listener_op \<Rightarrow> Listener \<Rightarrow> Listener" where
  "listener_step pc limit (Op_state key state) q = listener_state key state q"
| "listener_step pc limit (Op_event event) q = fst (listener_event pc limit event q)"
| "listener_step pc limit (Op_finish terminal) q = fst (listener_finish terminal q)"
| "listener_step pc limit Op_next q = fst (listener_next q)"

definition listener_run :: "postcard \<Rightarrow> usize \<Rightarrow> bool \<Rightarrow> listener_op list \<Rightarrow> Listener" where
  "listener_run pc limit receive_events ops = fold (listener_step pc limit) ops (listener_new receive_events)"

definition listener_wf :: "usize \<Rightarrow> Listener \<Rightarrow> bool" where
  "listener_wf limit q \<longleftrightarrow>
     ls_event_bytes q = sum_list (map fst (ls_events q)) \<and> ls_event_bytes q \<le> limit \<and> bt_inv (ls_states q)
     \<and> (ls_closed q \<longrightarrow> ls_states q = [] \<and> ls_events q = [] \<and> ls_feeds q = [] \<and> \<not> ls_changed q)
     \<and> (\<not> ls_closed q \<longrightarrow> ls_terminal q = None)"

lemma filter_split_sum:
  fixes xs :: "(nat \<times> 'a) list"
  shows "sum_list (map fst (filter P xs)) + sum_list (map fst (filter (\<lambda>x. \<not> P x) xs)) = sum_list (map fst xs)"
  by (induction xs) auto

lemma listener_state_wf:
  assumes "listener_wf limit q"
  shows "listener_wf limit (listener_state key state q)"
proof -
  have "sum_list (map fst (filter (\<lambda>(_, event). event_current key state event) (ls_events q)))
      + sum_list (map fst (filter (\<lambda>(_, event). \<not> event_current key state event) (ls_events q))) = sum_list (map fst (ls_events q))"
    using filter_split_sum [of "\<lambda>(_, event). event_current key state event" "ls_events q"] by (simp add: case_prod_unfold)
  then show ?thesis
    using assms by (auto simp: listener_wf_def listener_state_def Let_def bt_inv_insert)
qed

lemma listener_finish_wf: "listener_wf limit q \<Longrightarrow> listener_wf limit (fst (listener_finish terminal q))"
  by (auto simp: listener_wf_def listener_finish_def)

lemma listener_event_wf: "listener_wf limit q \<Longrightarrow> listener_wf limit (fst (listener_event pc limit event q))"
  using listener_finish_wf [of limit q "Some (Err Lagged_client)"]
  by (auto simp: listener_event_def listener_wf_def Let_def)

lemma listener_next_wf: "listener_wf limit q \<Longrightarrow> listener_wf limit (fst (listener_next q))"
  by (auto simp: listener_next_def listener_wf_def split: option.splits list.splits)

lemma listener_step_wf: "listener_wf limit q \<Longrightarrow> listener_wf limit (listener_step pc limit op q)"
  by (cases op) (simp_all add: listener_state_wf listener_finish_wf listener_event_wf listener_next_wf)

lemma listener_steps_wf: "listener_wf limit q \<Longrightarrow> listener_wf limit (fold (listener_step pc limit) ops q)"
  by (induction ops arbitrary: q) (simp_all add: listener_step_wf)

lemma listener_run_wf: "listener_wf limit (listener_run pc limit receive_events ops)"
  unfolding listener_run_def by (rule listener_steps_wf) (simp add: listener_wf_def listener_new_def)

text \<open>
  whatever a listener is given and however slowly it is read, the bytes of its buffered events
  are exactly accounted (so no subtraction underflows) and never exceed the budget.
\<close>

lemma listener_bounded:
  "let q = listener_run pc limit receive_events ops
   in ls_event_bytes q = sum_list (map fst (ls_events q)) \<and> ls_event_bytes q \<le> limit"
  using listener_run_wf [of limit pc receive_events ops] by (simp add: listener_wf_def Let_def)

subsection \<open>Buffered events are current\<close>

text \<open>
  A feed reports the state of a topic before its events and only delivers an event of the
  generation it last reported.
\<close>

definition event_backed :: "(TopicRef, FeedState) btree \<Rightarrow> EventEnvelope \<Rightarrow> bool" where
  "event_backed states event \<longleftrightarrow>
     (case bt_get states (src_topic (md_source (ee_metadata event))) of
        None \<Rightarrow> False
      | Some state \<Rightarrow> event_current (src_topic (md_source (ee_metadata event))) state event)"

fun listener_fed :: "postcard \<Rightarrow> usize \<Rightarrow> listener_op list \<Rightarrow> Listener \<Rightarrow> bool" where
  "listener_fed pc limit [] q = True"
| "listener_fed pc limit (op # ops) q =
     ((case op of Op_event event \<Rightarrow> ls_closed q \<or> event_backed (ls_states q) event | _ \<Rightarrow> True)
      \<and> listener_fed pc limit ops (listener_step pc limit op q))"

definition events_backed :: "Listener \<Rightarrow> bool" where
  "events_backed q \<longleftrightarrow> list_all (\<lambda>(_, event). event_backed (ls_states q) event) (ls_events q)"

lemma events_backed_state: "events_backed q \<Longrightarrow> events_backed (listener_state key state q)"
  by (auto simp: events_backed_def event_backed_def listener_state_def list_all_iff Let_def bt_get_insert event_current_def)

lemma events_backed_finish: "events_backed q \<Longrightarrow> events_backed (fst (listener_finish t q))"
  by (auto simp: events_backed_def listener_finish_def)

lemma events_backed_event:
  "events_backed q \<Longrightarrow> ls_closed q \<or> event_backed (ls_states q) event \<Longrightarrow> events_backed (fst (listener_event pc limit event q))"
  using events_backed_finish [of q "Some (Err Lagged_client)"]
  by (auto simp: events_backed_def listener_event_def Let_def)

lemma events_backed_next: "events_backed q \<Longrightarrow> events_backed (fst (listener_next q))"
  by (auto simp: events_backed_def listener_next_def split: option.splits list.splits)


subsection \<open>Closing\<close>

lemma closed_step:
  assumes "listener_wf limit q" and "ls_closed q"
  shows "ls_closed (listener_step pc limit op q)
    \<and> (ls_terminal (listener_step pc limit op q) = ls_terminal q \<or> ls_terminal (listener_step pc limit op q) = None)
    \<and> (op = Op_next \<longrightarrow> ls_terminal (listener_step pc limit op q) = None)"
  using assms
  by (cases op) (auto simp: listener_state_def listener_event_def listener_finish_def listener_next_def listener_wf_def Let_def split: option.splits)

lemma closed_steps:
  assumes "listener_wf limit q" and "ls_closed q"
  shows "ls_closed (fold (listener_step pc limit) ops q)
    \<and> (ls_terminal (fold (listener_step pc limit) ops q) = ls_terminal q \<or> ls_terminal (fold (listener_step pc limit) ops q) = None)
    \<and> (Op_next \<in> set ops \<longrightarrow> ls_terminal (fold (listener_step pc limit) ops q) = None)"
  using assms
proof (induction ops arbitrary: q)
  case (Cons op ops)
  have "ls_closed (listener_step pc limit op q)" "listener_wf limit (listener_step pc limit op q)"
    using closed_step [OF Cons.prems] listener_step_wf [OF Cons.prems(1)] by auto
  with Cons.IH [OF this(2,1)] show ?case using closed_step [OF Cons.prems, of pc op] by auto
qed simp

text \<open>
  closing is final: after \<open>finish\<close>, whatever arrives later, the next read returns the terminal
  result once, every read after it reports the end, the listener holds no data and keeps no feed
  alive.
\<close>

lemma listener_closed_final:
  assumes "q = fst (listener_finish terminal (listener_run pc limit receive_events before))"
    and "q' = fold (listener_step pc limit) after q"
  shows "ls_closed q' \<and> ls_states q' = [] \<and> ls_events q' = [] \<and> ls_feeds q' = []
    \<and> (Op_next \<in> set after \<longrightarrow> snd (listener_next q') = Returned (Ok None))
    \<and> snd (listener_next q') \<in> {Returned (Ok None), Returned (case ls_terminal q of
          None \<Rightarrow> Ok None | Some (Ok reason) \<Rightarrow> Ok (Some (Closed_item reason)) | Some (Err e) \<Rightarrow> Err e)}"
proof -
  have wf: "listener_wf limit q" unfolding assms(1) by (rule listener_finish_wf [OF listener_run_wf])
  have closed: "ls_closed q" by (simp add: assms(1) listener_finish_def)
  note run = closed_steps [OF wf closed, of pc after, folded assms(2)]
  have "listener_wf limit q'" unfolding assms(2) by (rule listener_steps_wf [OF wf])
  moreover from this have "snd (listener_next q') = Returned (case ls_terminal q' of
      None \<Rightarrow> Ok None | Some (Ok reason) \<Rightarrow> Ok (Some (Closed_item reason)) | Some (Err e) \<Rightarrow> Err e)"
    using run by (simp add: listener_next_def split: option.splits result.splits)
  ultimately show ?thesis
    using run by (auto simp: listener_wf_def)
qed

subsection \<open>Merging feeds\<close>

lemma merge_session_inv: "bt_inv m \<Longrightarrow> bt_inv (merge_session x m)"
  by (auto simp: merge_session_def bt_inv_insert split: prod.splits option.splits)

lemma merge_session_get:
  "bt_get (merge_session (i, v) m) j =
     (if j = i then (case bt_get m i of None \<Rightarrow> Some v | Some w \<Rightarrow> if fst w < fst v then Some v else Some w) else bt_get m j)"
  by (auto simp: merge_session_def bt_get_insert split: option.splits)

lemma merge_fold:
  "\<exists>w. (bt_get (fold merge_session xs m) j = Some w \<longleftrightarrow> bt_get (fold merge_session xs m) j \<noteq> None)
     \<and> (bt_get m j = Some v \<longrightarrow> bt_get (fold merge_session xs m) j = Some w \<and> fst v \<le> fst w)"
proof (induction xs arbitrary: m v)
  case Nil
  show ?case by (cases "bt_get m j") auto
next
  case (Cons x xs)
  obtain i u where x: "x = (i, u)" by (cases x)
  show ?case
  proof (cases "bt_get (merge_session x m) j")
    case None
    then have "bt_get m j = None" by (auto simp: x merge_session_get split: if_splits option.splits)
    then show ?thesis by (cases "bt_get (fold merge_session (x # xs) m) j") auto
  next
    case (Some v')
    then have "bt_get m j = Some v \<longrightarrow> fst v \<le> fst v'"
      by (auto simp: x merge_session_get split: if_splits option.splits)
    then show ?thesis using Cons [of "merge_session x m" v'] Some by (auto intro: order_trans)
  qed
qed

lemma merge_flat: "merge_sessions states = fold merge_session (concat (map (\<lambda>(_, state). fs_sessions state) states)) []"
proof -
  have "fold (\<lambda>(_, state). fold merge_session (fs_sessions state)) states m =
      fold merge_session (concat (map (\<lambda>(_, state). fs_sessions state) states)) m" for m
    by (induction states arbitrary: m) auto
  then show ?thesis by (simp add: merge_sessions_def)
qed

lemma merge_source: "bt_get (fold merge_session xs m) j = Some w \<Longrightarrow> bt_get m j = Some w \<or> (j, w) \<in> set xs"
proof (induction xs arbitrary: m)
  case (Cons x xs)
  then show ?case by (cases x) (fastforce simp: merge_session_get split: if_splits option.splits)
qed simp

lemma merge_newest:
  assumes "(j, v) \<in> set xs"
  shows "\<exists>w. bt_get (fold merge_session xs m) j = Some w \<and> fst v \<le> fst w"
proof -
  obtain ys zs where xs: "xs = ys @ (j, v) # zs" using split_list [OF assms] by blast
  let ?m = "merge_session (j, v) (fold merge_session ys m)"
  have "\<exists>u. bt_get ?m j = Some u \<and> fst v \<le> fst u"
    by (cases v; cases "bt_get (fold merge_session ys m) j") (auto simp: merge_session_get)
  then obtain u where "bt_get ?m j = Some u" "fst v \<le> fst u" by blast
  then show ?thesis using merge_fold [of zs ?m j u] by (auto simp: xs intro: order_trans)
qed

text \<open>
  when several feeds report the same session, the merged state shows one entry for it: one
  that some feed reported, and none reported it with a later sequence.
\<close>

lemma merged_sessions_newest:
  assumes "(key, state) \<in> set states" and "(session, v) \<in> set (fs_sessions state)"
  shows "\<exists>w. bt_get (merge_sessions states) session = Some w \<and> fst v \<le> fst w
    \<and> (\<exists>(key', state') \<in> set states. (session, w) \<in> set (fs_sessions state'))"
proof -
  have "(session, v) \<in> set (concat (map (\<lambda>(_, state). fs_sessions state) states))" using assms by auto
  from merge_newest [OF this, of "[]"] obtain w where "bt_get (merge_sessions states) session = Some w" "fst v \<le> fst w"
    by (auto simp: merge_flat)
  moreover from this(1) have "\<exists>(key', state') \<in> set states. (session, w) \<in> set (fs_sessions state')"
    unfolding merge_flat by (force dest!: merge_source)
  ultimately show ?thesis by blast
qed

subsection \<open>A listener at work\<close>

abbreviation demo_feed_info :: SessionInfo where
  "demo_feed_info \<equiv>
     \<lparr>si_session = SessionRef ''r'' ''s'', si_provider_id = ''p'', si_game_id = ''g'',
      si_target = \<lparr>tpr_pid = 7, tpr_executable = ''w''\<rparr>, si_game_build = None\<rparr>"

abbreviation demo_feed_source :: TopicSource where
  "demo_feed_source \<equiv> \<lparr>src_session = SessionRef ''r'' ''s'', src_game_id = ''g'', src_topic = TopicRef ''p'' ''t'' 1\<rparr>"

abbreviation demo_feed_state :: "u64 \<Rightarrow> FeedState" where
  "demo_feed_state generation \<equiv>
     \<lparr>fs_sessions = [(SessionRef ''r'' ''s'', 4, demo_feed_info)],
      fs_topics = [(SessionRef ''r'' ''s'', \<lparr>ts_source = demo_feed_source, ts_generation = generation, ts_health = Available, ts_snapshot = None\<rparr>)]\<rparr>"

abbreviation demo_feed_event :: "u64 \<Rightarrow> EventEnvelope" where
  "demo_feed_event generation \<equiv>
     \<lparr>ee_metadata = \<lparr>md_source = demo_feed_source, md_generation = generation, md_sequence = 5\<rparr>, ee_payload = ''e''\<rparr>"

abbreviation demo_listener_ops :: "listener_op list" where
  "demo_listener_ops \<equiv>
     [Op_state (TopicRef ''p'' ''t'' 1) (demo_feed_state 1), Op_event (demo_feed_event 1),
      Op_state (TopicRef ''p'' ''t'' 1) (demo_feed_state 2), Op_event (demo_feed_event 2)]"

lemmas listener_eval =
  listener_run_def listener_new_def listener_state_def listener_event_def listener_finish_def listener_next_def
  event_current_def event_backed_def Let_def

lemma demo_listener_events:
  "ls_events (listener_run unit_sizes 8 True demo_listener_ops) = [(1, demo_feed_event 2)]"
  by (simp add: listener_eval unit_sizes_def)


end
