(* ===== verification/Snapshot_Delta.thy ===== *)
theory Snapshot_Delta
  imports Wire
begin

section \<open>Snapshot deltas\<close>

text \<open>
  \<open>crates/protocol/src/v1/delta.rs\<close> and \<open>payload.rs\<close>: a snapshot travels complete or as a JSON
  patch against the last one the client confirmed, guarded by a content hash.

  The crates \<open>serde_json\<close>, \<open>json_patch\<close> and \<open>blake3\<close> are not part of the repository: the record
  \<open>json\<close> holds the functions the code calls, \<open>None\<close> for their errors. \<open>json_laws\<close> states what their
  documentation promises and the code relies on.
\<close>

record ('v, 'p) json =
  js_parse :: "string \<Rightarrow> 'v option"
  js_print :: "'v \<Rightarrow> string option"
  js_diff :: "'v \<Rightarrow> 'v \<Rightarrow> 'p list"
  js_patch :: "'v \<Rightarrow> 'p list \<Rightarrow> 'v option"
  js_plain :: "'p \<Rightarrow> bool"
  js_parse_patch :: "string \<Rightarrow> 'p list option"
  js_print_patch :: "'p list \<Rightarrow> string option"
  js_hash :: "string \<Rightarrow> string"

text \<open>
  Printed values and patches parse back; a diff applied to the first value gives the second;
  the differ emits only additions, removals and replacements (\<open>js_plain\<close>).
\<close>

definition json_laws :: "('v, 'p) json \<Rightarrow> bool" where
  "json_laws js \<longleftrightarrow>
     (\<forall>v t. js_print js v = Some t \<longrightarrow> js_parse js t = Some v)
     \<and> (\<forall>p t. js_print_patch js p = Some t \<longrightarrow> js_parse_patch js t = Some p)
     \<and> (\<forall>a b. js_patch js a (js_diff js a b) = Some b)
     \<and> (\<forall>a b. list_all (js_plain js) (js_diff js a b))"

text \<open>\<open>JsonPayload::from_value\<close>: the payloads the service creates.\<close>

definition canonical :: "('v, 'p) json \<Rightarrow> JsonPayload \<Rightarrow> bool" where
  "canonical js payload \<longleftrightarrow> (\<exists>v. js_print js v = Some payload)"

subsection \<open>Patches with a memo\<close>

definition patch_text :: "('v, 'p) json \<Rightarrow> JsonPayload \<Rightarrow> JsonPayload \<Rightarrow> JsonPayload option" where
  "patch_text js payload base =
     (case js_parse js base of
        None \<Rightarrow> None
      | Some before \<Rightarrow>
        (case js_parse js payload of
           None \<Rightarrow> None
         | Some after \<Rightarrow> js_print_patch js (js_diff js before after)))"

type_synonym patch_memo = "(string \<times> JsonPayload) option"

definition patch_from ::
  "('v, 'p) json \<Rightarrow> JsonPayload \<Rightarrow> JsonPayload \<Rightarrow> patch_memo \<Rightarrow> patch_memo \<times> JsonPayload option" where
  "patch_from js payload base memo =
     (case memo of
        Some (hash, patch) \<Rightarrow> if hash = js_hash js base then (memo, Some patch) else (memo, patch_text js payload base)
      | None \<Rightarrow>
        (case patch_text js payload base of
           None \<Rightarrow> (None, None)
         | Some patch \<Rightarrow>
             ((if length patch < length payload then Some (js_hash js base, patch) else None), Some patch)))"

text \<open>A payload's memo after a sequence of requests for patches against given bases.\<close>

definition memo_after :: "('v, 'p) json \<Rightarrow> JsonPayload \<Rightarrow> JsonPayload list \<Rightarrow> patch_memo" where
  "memo_after js payload bases = fold (\<lambda>base memo. fst (patch_from js payload base memo)) bases None"

definition memo_valid :: "('v, 'p) json \<Rightarrow> JsonPayload \<Rightarrow> JsonPayload list \<Rightarrow> patch_memo \<Rightarrow> bool" where
  "memo_valid js payload bases memo \<longleftrightarrow>
     (case memo of
        None \<Rightarrow> True
      | Some (hash, patch) \<Rightarrow> \<exists>base \<in> set bases. js_hash js base = hash \<and> patch_text js payload base = Some patch)"

lemma memo_after_valid: "memo_valid js payload bases (memo_after js payload bases)"
proof (induction bases rule: rev_induct)
  case (snoc base bases)
  then show ?case
    by (auto simp: memo_after_def memo_valid_def patch_from_def split: option.splits)
qed (simp add: memo_after_def memo_valid_def)

text \<open>
  sharing a computed patch between clients is invisible: unless the baseline's hash collides
  with that of another baseline asked for before, a memoised answer is the patch that would be
  computed afresh.
\<close>

lemma patch_memo_transparent:
  assumes "\<forall>b \<in> set bases. js_hash js b = js_hash js base \<longrightarrow> b = base"
  shows "snd (patch_from js payload base (memo_after js payload bases)) = patch_text js payload base"
proof (cases "memo_after js payload bases")
  case None
  then show ?thesis by (simp add: patch_from_def split: option.splits)
next
  case (Some m)
  obtain h patch where m: "m = (h, patch)" by (cases m)
  obtain b where "b \<in> set bases" "js_hash js b = h" "patch_text js payload b = Some patch"
    using memo_after_valid [of js payload bases] Some m by (auto simp: memo_valid_def)
  then show ?thesis using assms Some m by (auto simp: patch_from_def)
qed

subsection \<open>Deltas\<close>

definition delta_between :: "('v, 'p) json \<Rightarrow> DataEnvelope \<Rightarrow> DataEnvelope \<Rightarrow> SnapshotPayload option" where
  "delta_between js base target =
     map_option (Delta (md_sequence (de_metadata base)) (js_hash js (de_payload target)))
       (patch_text js (de_payload target) (de_payload base))"

definition delta_base :: "EnvelopeMetadata \<Rightarrow> u64 \<Rightarrow> DataEnvelope option \<Rightarrow> DataEnvelope option" where
  "delta_base metadata base_sequence base =
     (case base of
        None \<Rightarrow> None
      | Some b \<Rightarrow>
        (if md_source (de_metadata b) = md_source metadata
            \<and> md_generation (de_metadata b) = md_generation metadata
            \<and> md_sequence (de_metadata b) = base_sequence
            \<and> base_sequence < md_sequence metadata
         then Some b else None))"

definition frame_payload ::
  "('v, 'p) json \<Rightarrow> SnapshotFrame \<Rightarrow> DataEnvelope option \<Rightarrow> (JsonPayload, string) result" where
  "frame_payload js frame base =
     (case sf_payload frame of
        Full payload \<Rightarrow> Ok payload
      | Delta base_sequence hash patch \<Rightarrow>
          rbind (ok_or (delta_base (sf_metadata frame) base_sequence base) ''snapshot delta baseline mismatch'') (\<lambda>b.
          rbind (ok_or (js_parse js (de_payload b)) ''invalid snapshot baseline'') (\<lambda>value.
          rbind (ok_or (js_parse_patch js patch) ''invalid snapshot patch'') (\<lambda>ops.
          rbind (ensure (list_all (js_plain js) ops) ''unsupported snapshot patch operation'') (\<lambda>_.
          rbind (ok_or (js_patch js value ops) ''snapshot patch failed'') (\<lambda>value'.
          rbind (ok_or (js_print js value') ''invalid patched snapshot'') (\<lambda>payload.
          rbind (ensure (js_hash js payload = hash) ''snapshot delta hash mismatch'') (\<lambda>_.
          Ok payload))))))))"

definition frame_item :: "SnapshotFrame \<Rightarrow> JsonPayload \<Rightarrow> SubscriptionItem" where
  "frame_item frame payload =
     (let t = \<lparr>ts_source = md_source (sf_metadata frame), ts_generation = md_generation (sf_metadata frame),
               ts_health = Available,
               ts_snapshot = Some \<lparr>de_metadata = sf_metadata frame, de_payload = payload\<rparr>\<rparr>
      in case sf_cursor frame of
           None \<Rightarrow> Topic t
         | Some cursor \<Rightarrow> Update \<lparr>ue_cursor = cursor, ue_update = TopicChanged t\<rparr>)"

definition reconstruct ::
  "('v, 'p) json \<Rightarrow> SnapshotFrame \<Rightarrow> DataEnvelope option \<Rightarrow> (SubscriptionItem, string) result" where
  "reconstruct js frame base = rbind (frame_payload js frame base) (\<lambda>payload. Ok (frame_item frame payload))"

lemma delta_payload:
  assumes "json_laws js" and "canonical js (de_payload base)" and "canonical js (de_payload target)"
    and "md_source (de_metadata base) = md_source (de_metadata target)"
    and "md_generation (de_metadata base) = md_generation (de_metadata target)"
    and "md_sequence (de_metadata base) < md_sequence (de_metadata target)"
    and "delta_between js base target = Some d"
  shows "frame_payload js \<lparr>sf_cursor = c, sf_metadata = de_metadata target, sf_payload = d\<rparr> (Some base) = Ok (de_payload target)"
proof -
  obtain b t where b: "js_print js b = Some (de_payload base)" and t: "js_print js t = Some (de_payload target)"
    using assms(2,3) by (auto simp: canonical_def)
  have parse: "js_parse js (de_payload base) = Some b" "js_parse js (de_payload target) = Some t"
    using assms(1) b t by (auto simp: json_laws_def)
  obtain patch where patch: "js_print_patch js (js_diff js b t) = Some patch"
    and d: "d = Delta (md_sequence (de_metadata base)) (js_hash js (de_payload target)) patch"
    using assms(7) parse by (auto simp: delta_between_def patch_text_def)
  have "js_parse_patch js patch = Some (js_diff js b t)" "list_all (js_plain js) (js_diff js b t)"
    "js_patch js b (js_diff js b t) = Some t"
    using assms(1) patch by (auto simp: json_laws_def)
  then show ?thesis
    using assms(4-6) parse t by (simp add: frame_payload_def d delta_base_def ok_or_def ensure_def)
qed


text \<open>
  nothing is trusted: whatever bytes arrive, a delta that is accepted was applied to a
  baseline of the same source and generation with the named, older sequence, used only
  additions, removals and replacements, and produced a payload with the announced hash.
\<close>

lemma delta_checked:
  assumes "sf_payload frame = Delta base_sequence hash patch" and "reconstruct js frame base = Ok item"
  shows "\<exists>b ops payload. base = Some b
    \<and> md_source (de_metadata b) = md_source (sf_metadata frame)
    \<and> md_generation (de_metadata b) = md_generation (sf_metadata frame)
    \<and> md_sequence (de_metadata b) = base_sequence \<and> base_sequence < md_sequence (sf_metadata frame)
    \<and> js_parse_patch js patch = Some ops \<and> list_all (js_plain js) ops
    \<and> js_hash js payload = hash \<and> item = frame_item frame payload"
  using assms by (auto simp: reconstruct_def frame_payload_def delta_base_def split: option.splits if_splits)

subsection \<open>A library that meets the laws\<close>

text \<open>Values are their text; a patch replaces the whole value; the hash is the text itself.\<close>

definition text_json :: "(string, string) json" where
  "text_json =
     \<lparr>js_parse = Some, js_print = Some, js_diff = (\<lambda>_ b. [b]), js_patch = (\<lambda>_ ops. case ops of [b] \<Rightarrow> Some b | _ \<Rightarrow> None),
      js_plain = (\<lambda>_. True), js_parse_patch = (\<lambda>t. Some [t]),
      js_print_patch = (\<lambda>ops. case ops of [b] \<Rightarrow> Some b | _ \<Rightarrow> None), js_hash = (\<lambda>t. t)\<rparr>"

lemma text_json_laws: "json_laws text_json"
  by (auto simp: json_laws_def text_json_def split: list.splits)

abbreviation demo_source :: TopicSource where
  "demo_source \<equiv> \<lparr>src_session = SessionRef ''r'' ''s'', src_game_id = ''g'', src_topic = TopicRef ''p'' ''t'' 1\<rparr>"

abbreviation demo_data :: "u64 \<Rightarrow> JsonPayload \<Rightarrow> DataEnvelope" where
  "demo_data n payload \<equiv>
     \<lparr>de_metadata = \<lparr>md_source = demo_source, md_generation = 1, md_sequence = n\<rparr>, de_payload = payload\<rparr>"

abbreviation demo_frame :: "SnapshotPayload \<Rightarrow> SnapshotFrame" where
  "demo_frame payload \<equiv> \<lparr>sf_cursor = None, sf_metadata = de_metadata (demo_data 5 ''b''), sf_payload = payload\<rparr>"


end
