(* ===== verification/Snapshot_Delivery.thy ===== *)
theory Snapshot_Delivery
  imports Snapshot_Delta Client_Validation
begin

section \<open>Delivery of snapshots over one stream\<close>

text \<open>
  Both ends of a subscription stream. \<open>crates/wf-observer-cli/src/transport/delivery.rs\<close> turns
  the items of a subscription into frames, choosing a delta when the client has confirmed a
  baseline; \<open>crates/wf-observer-sdk/src/subscription/reader.rs\<close> reconstructs and validates the
  items and confirms the snapshots it has installed.

  The transport is a pair of reliable ordered byte streams, one for frames and one for
  acknowledgements: two lists. \<open>limit\<close> is the transport's maximal message size.
\<close>

type_synonym baseline_key = "SessionRef \<times> TopicRef"

definition source_key :: "TopicSource \<Rightarrow> baseline_key" where
  "source_key source = (src_session source, src_topic source)"

subsection \<open>Service side\<close>

record Baseline =
  bl_snapshot :: DataEnvelope
  bl_acknowledged :: bool

record Delivery =
  dl_topics :: "TopicRef list"
  dl_baselines :: "(baseline_key, Baseline) btree"

definition delta_allowed :: "Baseline \<Rightarrow> DataEnvelope \<Rightarrow> bool" where
  "delta_allowed base target \<longleftrightarrow>
     bl_acknowledged base
     \<and> md_source (de_metadata (bl_snapshot base)) = md_source (de_metadata target)
     \<and> md_generation (de_metadata (bl_snapshot base)) = md_generation (de_metadata target)"

text \<open>The payload to send; \<open>None\<close> when the encoder cannot measure one of the candidates.\<close>

definition choose_payload ::
  "postcard \<Rightarrow> ('v, 'p) json \<Rightarrow> Baseline option \<Rightarrow> DataEnvelope \<Rightarrow> SnapshotPayload option" where
  "choose_payload pc js base target =
     (case base of
        None \<Rightarrow> Some (Full (de_payload target))
      | Some b \<Rightarrow>
        (if \<not> delta_allowed b target then Some (Full (de_payload target))
         else (case delta_between js (bl_snapshot b) target of
             None \<Rightarrow> Some (Full (de_payload target))
           | Some delta \<Rightarrow>
             (case size_payload pc delta of
                None \<Rightarrow> None
              | Some small \<Rightarrow>
                (case size_payload pc (Full (de_payload target)) of
                   None \<Rightarrow> None
                 | Some large \<Rightarrow> Some (if small < large then delta else Full (de_payload target)))))))"

definition encode_topic ::
  "postcard \<Rightarrow> ('v, 'p) json \<Rightarrow> SubscriptionItem \<Rightarrow> ServiceCursor option \<Rightarrow> TopicSnapshot \<Rightarrow> Delivery \<Rightarrow>
   (Delivery \<times> SubscriptionItem) option" where
  "encode_topic pc js item cursor t d =
     (if src_topic (ts_source t) \<notin> set (dl_topics d) then Some (d, item)
      else (let key = source_key (ts_source t)
        in case ts_snapshot t of
             None \<Rightarrow> Some (d\<lparr>dl_baselines := bt_remove key (dl_baselines d)\<rparr>, item)
           | Some target \<Rightarrow>
             (case choose_payload pc js (bt_get (dl_baselines d) key) target of
                None \<Rightarrow> None
              | Some payload \<Rightarrow>
                  Some (d\<lparr>dl_baselines := bt_insert key \<lparr>bl_snapshot = target, bl_acknowledged = False\<rparr> (dl_baselines d)\<rparr>,
                        Snapshot \<lparr>sf_cursor = cursor, sf_metadata = de_metadata target, sf_payload = payload\<rparr>))))"

fun encode_update ::
  "postcard \<Rightarrow> ('v, 'p) json \<Rightarrow> UpdateEnvelope \<Rightarrow> SubscriptionUpdate \<Rightarrow> Delivery \<Rightarrow> (Delivery \<times> SubscriptionItem) option" where
  "encode_update pc js u (TopicChanged t) d = encode_topic pc js (Update u) (Some (ue_cursor u)) t d"
| "encode_update pc js u (TopicReset source _ _) d =
     Some (d\<lparr>dl_baselines := bt_remove (source_key source) (dl_baselines d)\<rparr>, Update u)"
| "encode_update pc js u (SessionEnded session _) d =
     Some (d\<lparr>dl_baselines := bt_retain (\<lambda>(key, _) _. key \<noteq> session) (dl_baselines d)\<rparr>, Update u)"
| "encode_update pc js u _ d = Some (d, Update u)"

fun delivery_encode ::
  "postcard \<Rightarrow> ('v, 'p) json \<Rightarrow> SubscriptionItem \<Rightarrow> Delivery \<Rightarrow> (Delivery \<times> SubscriptionItem) option" where
  "delivery_encode pc js (Topic t) d = encode_topic pc js (Topic t) None t d"
| "delivery_encode pc js (Update u) d = encode_update pc js u (ue_update u) d"
| "delivery_encode pc js item d = Some (d, item)"

definition delivery_acknowledge :: "('v, 'p) json \<Rightarrow> SnapshotAck \<Rightarrow> Delivery \<Rightarrow> Delivery" where
  "delivery_acknowledge js ack d =
     d\<lparr>dl_baselines := bt_update (source_key (md_source (ack_metadata ack)))
         (\<lambda>b. if de_metadata (bl_snapshot b) = ack_metadata ack \<and> js_hash js (de_payload (bl_snapshot b)) = ack_hash ack
              then b\<lparr>bl_acknowledged := True\<rparr> else b) (dl_baselines d)\<rparr>"

text \<open>
  \<open>serve\<close> selects between an acknowledgement, while it still reads them, and the next item. A
  failed read of acknowledgements switches the stream to complete snapshots for good.
\<close>

record Serve =
  sv_delivery :: Delivery
  sv_read_acks :: bool

definition serve_start :: "TopicRef list \<Rightarrow> Serve" where
  "serve_start topics = \<lparr>sv_delivery = \<lparr>dl_topics = topics, dl_baselines = []\<rparr>, sv_read_acks = topics \<noteq> []\<rparr>"

definition serve_ack :: "('v, 'p) json \<Rightarrow> SnapshotAck option \<Rightarrow> Serve \<Rightarrow> Serve" where
  "serve_ack js received s =
     (case received of
        Some ack \<Rightarrow> s\<lparr>sv_delivery := delivery_acknowledge js ack (sv_delivery s)\<rparr>
      | None \<Rightarrow> s\<lparr>sv_read_acks := False, sv_delivery := \<lparr>dl_topics = [], dl_baselines = []\<rparr>\<rparr>)"

definition serve_item ::
  "postcard \<Rightarrow> ('v, 'p) json \<Rightarrow> SubscriptionItem \<Rightarrow> Serve \<Rightarrow> (Serve \<times> SubscriptionItem) option" where
  "serve_item pc js item s =
     map_option (\<lambda>(d, frame). (s\<lparr>sv_delivery := d\<rparr>, frame)) (delivery_encode pc js item (sv_delivery s))"

subsection \<open>Client side\<close>

datatype ReadError = Client_failure ClientError | Resync string

datatype frame =
    Frame_item SubscriptionItem
  | Frame_error RequestError
  | Frame_eof
  | Frame_failed bool string

text \<open>
  \<open>ClientError::transport\<close>: a connection the service closed with its not-authorized code is
  told apart from other losses; the flag is the result of that inspection.
\<close>

definition transport_error :: "bool \<Rightarrow> string \<Rightarrow> ClientError" where
  "transport_error not_authorized message = (if not_authorized then NotAuthorized else Transport message)"

record Reader =
  rd_validation :: Validation
  rd_baselines :: "(baseline_key, DataEnvelope) btree"
  rd_pending_ack :: "SnapshotAck option"
  rd_deltas :: bool

definition reader_new :: "Subscribe \<Rightarrow> bool \<Rightarrow> Reader" where
  "reader_new selection deltas =
     \<lparr>rd_validation = validation_new selection, rd_baselines = [], rd_pending_ack = None, rd_deltas = deltas\<rparr>"

fun decode_frame :: "frame \<Rightarrow> bool \<Rightarrow> (SubscriptionItem, ClientError) result" where
  "decode_frame (Frame_item item) _ = Ok item"
| "decode_frame (Frame_error error) started =
     (if \<not> started then Err (Request error) else Err (Protocol ''request error after Begin''))"
| "decode_frame Frame_eof _ = Err (Protocol ''stream ended without Closed'')"
| "decode_frame (Frame_failed not_authorized message) _ = Err (transport_error not_authorized message)"

text \<open>The item a frame stands for, and whether it must be acknowledged.\<close>

fun resolve_frame ::
  "postcard \<Rightarrow> ('v, 'p) json \<Rightarrow> usize \<Rightarrow> SubscriptionItem \<Rightarrow> Reader \<Rightarrow> (SubscriptionItem \<times> bool, ReadError) result" where
  "resolve_frame pc js limit (Snapshot frame) r =
     rbind (map_err Resync (reconstruct js frame (bt_get (rd_baselines r) (source_key (md_source (sf_metadata frame)))))) (\<lambda>item.
     (case size_item pc item of
        None \<Rightarrow> Err (Client_failure (Transport ''encoding failed''))
      | Some bytes \<Rightarrow>
          (if limit < bytes then Err (Resync ''reconstructed snapshot exceeds frame limit'') else Ok (item, True))))"
| "resolve_frame pc js limit item r = Ok (item, False)"

definition remember_topic :: "('v, 'p) json \<Rightarrow> bool \<Rightarrow> TopicSnapshot \<Rightarrow> Reader \<Rightarrow> Reader" where
  "remember_topic js acknowledged t r =
     (case ts_snapshot t of
        Some snapshot \<Rightarrow>
          (if acknowledged \<and> rd_deltas r
           then r\<lparr>rd_pending_ack := Some \<lparr>ack_metadata = de_metadata snapshot, ack_hash = js_hash js (de_payload snapshot)\<rparr>,
                  rd_baselines := bt_insert (source_key (ts_source t)) snapshot (rd_baselines r)\<rparr>
           else r)
      | None \<Rightarrow> r\<lparr>rd_baselines := bt_remove (source_key (ts_source t)) (rd_baselines r)\<rparr>)"

fun remember_update :: "('v, 'p) json \<Rightarrow> bool \<Rightarrow> SubscriptionUpdate \<Rightarrow> Reader \<Rightarrow> Reader" where
  "remember_update js acknowledged (TopicChanged t) r = remember_topic js acknowledged t r"
| "remember_update js acknowledged (TopicReset source _ _) r =
     r\<lparr>rd_baselines := bt_remove (source_key source) (rd_baselines r)\<rparr>"
| "remember_update js acknowledged (SessionEnded session _) r =
     r\<lparr>rd_baselines := bt_retain (\<lambda>(key, _) _. key \<noteq> session) (rd_baselines r)\<rparr>"
| "remember_update js acknowledged _ r = r"

fun remember :: "('v, 'p) json \<Rightarrow> bool \<Rightarrow> SubscriptionItem \<Rightarrow> Reader \<Rightarrow> Reader" where
  "remember js acknowledged (Topic t) r = remember_topic js acknowledged t r"
| "remember js acknowledged (Update u) r = remember_update js acknowledged (ue_update u) r"
| "remember js acknowledged _ r = r"

definition reader_next ::
  "postcard \<Rightarrow> ('v, 'p) json \<Rightarrow> usize \<Rightarrow> frame \<Rightarrow> Reader \<Rightarrow> (Reader \<times> SubscriptionItem, ReadError) result" where
  "reader_next pc js limit frame r =
     rbind (map_err Client_failure (decode_frame frame (begun (rd_validation r)))) (\<lambda>received.
     rbind (resolve_frame pc js limit received r) (\<lambda>(item, acknowledged).
     rbind (map_err Client_failure (accept pc (rd_validation r) item)) (\<lambda>v.
     Ok (remember js acknowledged item (r\<lparr>rd_validation := v\<rparr>), item))))"

definition reader_acknowledge :: "Reader \<Rightarrow> Reader \<times> SnapshotAck option" where
  "reader_acknowledge r = (r\<lparr>rd_pending_ack := None\<rparr>, rd_pending_ack r)"

text \<open>Reading a run of frames, acknowledging each item after it has been installed.\<close>

fun read_all ::
  "postcard \<Rightarrow> ('v, 'p) json \<Rightarrow> usize \<Rightarrow> SubscriptionItem list \<Rightarrow> Reader \<Rightarrow> (Reader \<times> SubscriptionItem list, ReadError) result" where
  "read_all pc js limit [] r = Ok (r, [])"
| "read_all pc js limit (frame # frames) r =
     rbind (reader_next pc js limit (Frame_item frame) r) (\<lambda>(r1, item).
     rbind (read_all pc js limit frames (fst (reader_acknowledge r1))) (\<lambda>(r2, items).
     Ok (r2, item # items)))"

subsection \<open>The link\<close>

record link =
  lk_serve :: Serve
  lk_wire :: "SubscriptionItem list"
  lk_acks :: "SnapshotAck list"
  lk_reader :: Reader
  lk_sent :: "SubscriptionItem list"
  lk_got :: "SubscriptionItem list"

text \<open>
  The service sends the next item of its subscription; the client reads the oldest frame in
  flight and, when it was a snapshot, confirms it; the service reads the oldest confirmation,
  or loses the confirmation stream. \<open>lk_sent\<close> and \<open>lk_got\<close> record the items at both ends.
\<close>

inductive link_step :: "postcard \<Rightarrow> ('v, 'p) json \<Rightarrow> usize \<Rightarrow> link \<Rightarrow> link \<Rightarrow> bool"
  for pc :: postcard and js :: "('v, 'p) json" and limit :: usize where
  link_send: "serve_item pc js item (lk_serve l) = Some (s, frame) \<Longrightarrow>
    link_step pc js limit l (l\<lparr>lk_serve := s, lk_wire := lk_wire l @ [frame], lk_sent := lk_sent l @ [item]\<rparr>)"
| link_receive: "lk_wire l = frame # rest \<Longrightarrow> reader_next pc js limit (Frame_item frame) (lk_reader l) = Ok (r, item) \<Longrightarrow>
    reader_acknowledge r = (r', ack) \<Longrightarrow>
    link_step pc js limit l (l\<lparr>lk_wire := rest, lk_reader := r', lk_got := lk_got l @ [item],
      lk_acks := lk_acks l @ (case ack of None \<Rightarrow> [] | Some a \<Rightarrow> [a])\<rparr>)"
| link_confirm: "lk_acks l = a # rest \<Longrightarrow> sv_read_acks (lk_serve l) \<Longrightarrow>
    link_step pc js limit l (l\<lparr>lk_serve := serve_ack js (Some a) (lk_serve l), lk_acks := rest\<rparr>)"
| link_unconfirmed: "sv_read_acks (lk_serve l) \<Longrightarrow>
    link_step pc js limit l (l\<lparr>lk_serve := serve_ack js None (lk_serve l)\<rparr>)"

definition link_start :: "TopicRef list \<Rightarrow> Subscribe \<Rightarrow> bool \<Rightarrow> link" where
  "link_start topics selection deltas =
     \<lparr>lk_serve = serve_start topics, lk_wire = [], lk_acks = [], lk_reader = reader_new selection deltas,
      lk_sent = [], lk_got = []\<rparr>"

abbreviation link_reachable ::
  "postcard \<Rightarrow> ('v, 'p) json \<Rightarrow> usize \<Rightarrow> TopicRef list \<Rightarrow> Subscribe \<Rightarrow> bool \<Rightarrow> link \<Rightarrow> bool" where
  "link_reachable pc js limit topics selection deltas \<equiv>
     reach (\<lambda>l. l = link_start topics selection deltas) (link_step pc js limit)"

text \<open>
  What the service promises of the items it hands to a stream: the client's validation accepts
  them, their snapshots are canonical and carry ascending sequences per source, and they fit
  the transport.
\<close>

fun carried :: "SubscriptionItem \<Rightarrow> DataEnvelope option" where
  "carried (Topic t) = ts_snapshot t"
| "carried (Update u) = (case ue_update u of TopicChanged t \<Rightarrow> ts_snapshot t | _ \<Rightarrow> None)"
| "carried _ = None"

definition ascends :: "SubscriptionItem \<Rightarrow> SubscriptionItem \<Rightarrow> bool" where
  "ascends x y \<longleftrightarrow>
     (case (carried x, carried y) of
        (Some a, Some b) \<Rightarrow> md_source (de_metadata a) = md_source (de_metadata b) \<longrightarrow>
           md_sequence (de_metadata a) < md_sequence (de_metadata b)
      | _ \<Rightarrow> True)"

definition item_sound :: "postcard \<Rightarrow> ('v, 'p) json \<Rightarrow> usize \<Rightarrow> SubscriptionItem \<Rightarrow> bool" where
  "item_sound pc js limit x \<longleftrightarrow>
     (case size_item pc x of None \<Rightarrow> False | Some n \<Rightarrow> n \<le> limit)
     \<and> (case carried x of None \<Rightarrow> True | Some d \<Rightarrow> canonical js (de_payload d))"

definition stream_sound :: "postcard \<Rightarrow> ('v, 'p) json \<Rightarrow> usize \<Rightarrow> Subscribe \<Rightarrow> SubscriptionItem list \<Rightarrow> bool" where
  "stream_sound pc js limit selection xs \<longleftrightarrow>
     is_ok (accept_all pc (validation_new selection) xs) \<and> sorted_wrt ascends xs \<and> list_all (item_sound pc js limit) xs"

lemma stream_sound_prefix: "stream_sound pc js limit sel (xs @ ys) \<Longrightarrow> stream_sound pc js limit sel xs"
  by (auto simp: stream_sound_def try_fold_append is_ok_iff sorted_wrt_append)

text \<open>
  Both ends agree on the baselines once the frames in flight have been read: every baseline the
  service holds, the client holds too, unless it does not keep any, and then none is confirmed.
\<close>

definition agreed :: "SubscriptionItem list \<Rightarrow> TopicRef list \<Rightarrow> Reader \<Rightarrow> baseline_key \<Rightarrow> Baseline \<Rightarrow> bool" where
  "agreed sent topics r k b \<longleftrightarrow>
     (if rd_deltas r then bt_get (rd_baselines r) k = Some (bl_snapshot b) else \<not> bl_acknowledged b)
     \<and> snd k \<in> set topics \<and> k = source_key (md_source (de_metadata (bl_snapshot b)))
     \<and> (\<exists>x \<in> set sent. carried x = Some (bl_snapshot b))"

definition synced :: "SubscriptionItem list \<Rightarrow> Delivery \<Rightarrow> Reader \<Rightarrow> bool" where
  "synced sent d r \<longleftrightarrow>
     bt_inv (dl_baselines d) \<and> bt_inv (rd_baselines r)
     \<and> (\<forall>k b. bt_get (dl_baselines d) k = Some b \<longrightarrow> agreed sent (dl_topics d) r k b)"

lemma syncedI:
  assumes "bt_inv (dl_baselines d)" and "bt_inv (rd_baselines r)"
    and "\<And>k b. bt_get (dl_baselines d) k = Some b \<Longrightarrow> agreed sent (dl_topics d) r k b"
  shows "synced sent d r"
  unfolding synced_def using assms by blast

lemma syncedD:
  assumes "synced sent d r"
  shows "bt_inv (dl_baselines d)" and "bt_inv (rd_baselines r)"
    and "bt_get (dl_baselines d) k = Some b \<Longrightarrow> agreed sent (dl_topics d) r k b"
  using assms unfolding synced_def by blast+

lemma agreed_transfer:
  assumes "agreed sent topics r k b" and "rd_deltas r' = rd_deltas r"
    and "bt_get (rd_baselines r') k = bt_get (rd_baselines r) k"
  shows "agreed (sent @ xs) topics r' k b"
  using assms by (auto simp: agreed_def split: if_splits)

text \<open>Reading what was encoded: the client gets the item itself and the ends stay in agreement.\<close>

lemma resolve_plain: "\<forall>f. x \<noteq> Snapshot f \<Longrightarrow> resolve_frame pc js limit x r = Ok (x, False)"
  by (cases x) auto

lemma accept_no_snapshot: "accept pc v x = Ok v' \<Longrightarrow> x \<noteq> Snapshot f"
  by (auto simp: accept_def)

lemma accept_carried:
  assumes "accept pc v x = Ok v'" and "carried x = Some d"
  obtains (bootstrap) t where "x = Topic t" "ts_snapshot t = Some d" "ts_health t = Available"
      "md_source (de_metadata d) = ts_source t" "md_generation (de_metadata d) = ts_generation t"
    | (update) u t where "x = Update u" "ue_update u = TopicChanged t" "ts_snapshot t = Some d" "ts_health t = Available"
      "md_source (de_metadata d) = ts_source t" "md_generation (de_metadata d) = ts_generation t"
proof (cases x)
  case (Topic t)
  then show ?thesis
    using assms bootstrap [of t] by (auto simp: accept_def va_topic_def Let_def split: option.splits)
next
  case (Update u)
  then show ?thesis
    using assms update [of u] by (cases "ue_update u") (auto simp: accept_def va_topic_def Let_def split: option.splits)
qed (use assms(2) in auto)

lemma frame_item_carried:
  assumes "accept pc v x = Ok v'" and "carried x = Some d"
  shows "\<exists>c. delivery_encode pc js x dl = encode_topic pc js x c
            \<lparr>ts_source = md_source (de_metadata d), ts_generation = md_generation (de_metadata d), ts_health = Available,
              ts_snapshot = Some d\<rparr> dl
         \<and> frame_item \<lparr>sf_cursor = c, sf_metadata = de_metadata d, sf_payload = p\<rparr> (de_payload d) = x
         \<and> (\<forall>ack r. remember js ack x r = remember_topic js ack
            \<lparr>ts_source = md_source (de_metadata d), ts_generation = md_generation (de_metadata d), ts_health = Available,
              ts_snapshot = Some d\<rparr> r)"
  using assms
proof (cases rule: accept_carried)
  case (bootstrap t)
  then have "t = \<lparr>ts_source = md_source (de_metadata d), ts_generation = md_generation (de_metadata d), ts_health = Available,
      ts_snapshot = Some d\<rparr>" by (cases t) simp
  then show ?thesis using bootstrap(1) by (intro exI [of _ None]) (simp add: frame_item_def)
next
  case (update u t)
  then have "t = \<lparr>ts_source = md_source (de_metadata d), ts_generation = md_generation (de_metadata d), ts_health = Available,
      ts_snapshot = Some d\<rparr>" by (cases t) simp
  then show ?thesis using update(1,2) by (intro exI [of _ "Some (ue_cursor u)"]) (cases u, simp add: frame_item_def)
qed

lemma encode_topic_plain:
  assumes "encode_topic pc js x c t dl = Some (dl', y)" and "ts_snapshot t = None \<or> src_topic (ts_source t) \<notin> set (dl_topics dl)"
  shows "y = x \<and> dl_topics dl' = dl_topics dl
    \<and> dl_baselines dl' = (if src_topic (ts_source t) \<in> set (dl_topics dl)
         then bt_remove (source_key (ts_source t)) (dl_baselines dl) else dl_baselines dl)"
  using assms by (auto simp: encode_topic_def Let_def)

lemma synced_remove:
  assumes "synced sent dl r" and "dl_topics dl' = dl_topics dl" and "rd_deltas r' = rd_deltas r"
    and "dl_baselines dl' = bt_remove k (dl_baselines dl)" and "rd_baselines r' = bt_remove k (rd_baselines r)"
  shows "synced (sent @ xs) dl' r'"
proof (rule syncedI)
  show "bt_inv (dl_baselines dl')" "bt_inv (rd_baselines r')"
    using syncedD(1,2) [OF assms(1)] by (simp_all add: assms bt_inv_remove)
  fix k' b assume "bt_get (dl_baselines dl') k' = Some b"
  then have k': "k' \<noteq> k" "bt_get (dl_baselines dl) k' = Some b" by (auto simp: assms(4) bt_get_remove split: if_splits)
  show "agreed (sent @ xs) (dl_topics dl') r' k' b"
    unfolding assms(2) by (rule agreed_transfer [OF syncedD(3) [OF assms(1) k'(2)] assms(3)]) (simp add: assms(5) bt_get_remove k'(1))
qed

lemma synced_forget:
  assumes "synced sent dl r" and "snd k \<notin> set (dl_topics dl)" and "rd_deltas r' = rd_deltas r"
    and "rd_baselines r' = bt_remove k (rd_baselines r)"
  shows "synced (sent @ xs) dl r'"
proof (rule syncedI)
  show "bt_inv (dl_baselines dl)" "bt_inv (rd_baselines r')"
    using syncedD(1,2) [OF assms(1)] by (simp_all add: assms bt_inv_remove)
  fix k' b assume "bt_get (dl_baselines dl) k' = Some b"
  note old = syncedD(3) [OF assms(1) this]
  then have "k' \<noteq> k" using assms(2) by (auto simp: agreed_def)
  then show "agreed (sent @ xs) (dl_topics dl) r' k' b"
    by (intro agreed_transfer [OF old assms(3)]) (simp add: assms(4) bt_get_remove)
qed

lemma synced_end:
  assumes "synced sent dl r" and "dl_topics dl' = dl_topics dl" and "rd_deltas r' = rd_deltas r"
    and "dl_baselines dl' = bt_retain (\<lambda>(key, _) _. key \<noteq> session) (dl_baselines dl)"
    and "rd_baselines r' = bt_retain (\<lambda>(key, _) _. key \<noteq> session) (rd_baselines r)"
  shows "synced (sent @ xs) dl' r'"
proof (rule syncedI)
  note inv = syncedD(1,2) [OF assms(1)]
  show "bt_inv (dl_baselines dl')" "bt_inv (rd_baselines r')"
    using inv by (simp_all add: assms bt_inv_retain)
  fix k' b assume "bt_get (dl_baselines dl') k' = Some b"
  then have k': "fst k' \<noteq> session" "bt_get (dl_baselines dl) k' = Some b"
    by (auto simp: assms(4) bt_get_retain [OF inv(1)] split: if_splits option.splits prod.splits)
  show "agreed (sent @ xs) (dl_topics dl') r' k' b"
    unfolding assms(2)
    by (rule agreed_transfer [OF syncedD(3) [OF assms(1) k'(2)] assms(3)])
      (use k'(1) in \<open>auto simp: assms(5) bt_get_retain [OF inv(2)] split: prod.splits option.splits\<close>)
qed

lemma synced_same:
  assumes "synced sent dl r" and "rd_deltas r' = rd_deltas r" and "rd_baselines r' = rd_baselines r"
  shows "synced (sent @ xs) dl r'"
proof (rule syncedI)
  fix k' b assume "bt_get (dl_baselines dl) k' = Some b"
  then show "agreed (sent @ xs) (dl_topics dl) r' k' b"
    by (intro agreed_transfer [OF syncedD(3) [OF assms(1)] assms(2)]) (simp_all add: assms(3))
qed (use syncedD [OF assms(1)] assms in simp_all)

lemma synced_install:
  assumes "synced sent dl r" and "dl_topics dl' = dl_topics dl" and "rd_deltas r' = rd_deltas r"
    and "src_topic (md_source (de_metadata d)) \<in> set (dl_topics dl)" and "carried x = Some d"
    and "k = source_key (md_source (de_metadata d))"
    and "dl_baselines dl' = bt_insert k \<lparr>bl_snapshot = d, bl_acknowledged = False\<rparr> (dl_baselines dl)"
    and "rd_baselines r' = (if rd_deltas r then bt_insert k d (rd_baselines r) else rd_baselines r)"
  shows "synced (sent @ [x]) dl' r'"
proof (rule syncedI)
  show "bt_inv (dl_baselines dl')" "bt_inv (rd_baselines r')"
    using syncedD(1,2) [OF assms(1)] by (simp_all add: assms bt_inv_insert)
  fix k' b assume b: "bt_get (dl_baselines dl') k' = Some b"
  show "agreed (sent @ [x]) (dl_topics dl') r' k' b"
  proof (cases "k' = k")
    case True
    then have "b = \<lparr>bl_snapshot = d, bl_acknowledged = False\<rparr>" using b by (simp add: assms(7) bt_get_insert)
    then show ?thesis using True assms by (auto simp: agreed_def bt_get_insert source_key_def)
  next
    case False
    then have old: "bt_get (dl_baselines dl) k' = Some b" using b by (simp add: assms(7) bt_get_insert)
    show ?thesis
      unfolding assms(2)
      by (rule agreed_transfer [OF syncedD(3) [OF assms(1) old] assms(3)]) (simp add: assms(8) bt_get_insert False)
  qed
qed

lemma choose_payload_reads:
  assumes laws: "json_laws js" and sync: "synced sent dl r" and d: "carried x = Some d"
    and sound: "item_sound pc js limit x" "\<forall>z \<in> set sent. item_sound pc js limit z" and asc: "\<forall>z \<in> set sent. ascends z x"
    and choice: "choose_payload pc js (bt_get (dl_baselines dl) k) d = Some p" and k: "k = source_key (md_source (de_metadata d))"
  shows "frame_payload js \<lparr>sf_cursor = c, sf_metadata = de_metadata d, sf_payload = p\<rparr> (bt_get (rd_baselines r) k) = Ok (de_payload d)"
proof (cases "p = Full (de_payload d)")
  case True
  then show ?thesis by (simp add: frame_payload_def)
next
  case False
  then obtain b where b: "bt_get (dl_baselines dl) k = Some b" "delta_allowed b d" "delta_between js (bl_snapshot b) d = Some p"
    using choice by (auto simp: choose_payload_def split: option.splits if_splits)
  note agree = syncedD(3) [OF sync b(1), unfolded agreed_def]
  have mine: "bt_get (rd_baselines r) k = Some (bl_snapshot b)"
    using agree b(2) by (auto simp: delta_allowed_def split: if_splits)
  obtain z where z: "z \<in> set sent" "carried z = Some (bl_snapshot b)" using agree by blast
  have "canonical js (de_payload (bl_snapshot b))" "canonical js (de_payload d)"
    using sound z d by (auto simp: item_sound_def split: option.splits)
  moreover have "md_sequence (de_metadata (bl_snapshot b)) < md_sequence (de_metadata d)"
    using asc z d b(2) by (auto simp: ascends_def delta_allowed_def)
  ultimately show ?thesis
    unfolding mine using b(2,3) by (intro delta_payload [OF laws]) (simp_all add: delta_allowed_def)
qed

lemma encode_read_snapshot:
  assumes laws: "json_laws js" and sync: "synced sent dl r" and d: "carried x = Some d"
    and topic: "src_topic (md_source (de_metadata d)) \<in> set (dl_topics dl)"
    and enc: "delivery_encode pc js x dl = Some (dl', y)" and acc: "accept pc (rd_validation r) x = Ok v"
    and sound: "item_sound pc js limit x" "\<forall>z \<in> set sent. item_sound pc js limit z" and asc: "\<forall>z \<in> set sent. ascends z x"
  shows "\<exists>r'. reader_next pc js limit (Frame_item y) r = Ok (r', x) \<and> rd_validation r' = v \<and> rd_deltas r' = rd_deltas r
    \<and> (\<not> rd_deltas r \<longrightarrow> rd_pending_ack r' = rd_pending_ack r) \<and> synced (sent @ [x]) dl' (fst (reader_acknowledge r'))"
proof -
  let ?k = "source_key (md_source (de_metadata d))"
  obtain c where c: "delivery_encode pc js x dl = encode_topic pc js x c
      \<lparr>ts_source = md_source (de_metadata d), ts_generation = md_generation (de_metadata d), ts_health = Available, ts_snapshot = Some d\<rparr> dl"
    "\<And>p. frame_item \<lparr>sf_cursor = c, sf_metadata = de_metadata d, sf_payload = p\<rparr> (de_payload d) = x"
    "\<And>ack r. remember js ack x r = remember_topic js ack
      \<lparr>ts_source = md_source (de_metadata d), ts_generation = md_generation (de_metadata d), ts_health = Available, ts_snapshot = Some d\<rparr> r"
    using frame_item_carried [OF acc d, of js dl] by (auto simp: frame_item_def)
  obtain p where p: "choose_payload pc js (bt_get (dl_baselines dl) ?k) d = Some p"
    and out: "dl' = dl\<lparr>dl_baselines := bt_insert ?k \<lparr>bl_snapshot = d, bl_acknowledged = False\<rparr> (dl_baselines dl)\<rparr>"
      "y = Snapshot \<lparr>sf_cursor = c, sf_metadata = de_metadata d, sf_payload = p\<rparr>"
    using enc topic unfolding c(1) by (auto simp: encode_topic_def Let_def split: option.splits)
  have payload: "frame_payload js \<lparr>sf_cursor = c, sf_metadata = de_metadata d, sf_payload = p\<rparr> (bt_get (rd_baselines r) ?k) = Ok (de_payload d)"
    by (rule choose_payload_reads [OF laws sync d sound asc p refl])
  obtain n where "size_item pc x = Some n" "n \<le> limit" using sound(1) by (auto simp: item_sound_def split: option.splits)
  then have resolve: "resolve_frame pc js limit y r = Ok (x, True)"
    using payload c(2) by (simp add: out(2) reconstruct_def)
  let ?r' = "remember js True x (r\<lparr>rd_validation := v\<rparr>)"
  have "synced (sent @ [x]) dl' (fst (reader_acknowledge ?r'))"
    by (rule synced_install [OF sync _ _ topic d refl]) (simp_all add: out(1) c(3) remember_topic_def reader_acknowledge_def)
  then show ?thesis
    using resolve acc by (intro exI [of _ ?r']) (simp add: reader_next_def c(3) remember_topic_def)
qed

lemma synced_plain_topic:
  assumes "synced sent dl r" and "encode_topic pc js x c t dl = Some (dl', y)"
    and "ts_snapshot t = None \<or> src_topic (ts_source t) \<notin> set (dl_topics dl)"
  shows "y = x \<and> synced (sent @ xs) dl' (fst (reader_acknowledge (remember_topic js False t (r\<lparr>rd_validation := v\<rparr>))))"
proof (cases "ts_snapshot t")
  case None
  let ?k = "source_key (ts_source t)" and ?r' = "fst (reader_acknowledge (remember_topic js False t (r\<lparr>rd_validation := v\<rparr>)))"
  have r': "rd_deltas ?r' = rd_deltas r" "rd_baselines ?r' = bt_remove ?k (rd_baselines r)"
    using None by (simp_all add: remember_topic_def reader_acknowledge_def)
  show ?thesis
  proof (cases "src_topic (ts_source t) \<in> set (dl_topics dl)")
    case True
    then have "y = x" "dl' = dl\<lparr>dl_baselines := bt_remove ?k (dl_baselines dl)\<rparr>"
      using assms(2) None by (simp_all add: encode_topic_def Let_def)
    then show ?thesis using synced_remove [OF assms(1) _ r'(1) _ r'(2)] by simp
  next
    case False
    then have "y = x" "dl' = dl" using assms(2) by (simp_all add: encode_topic_def)
    then show ?thesis using synced_forget [OF assms(1) _ r'] False by (simp add: source_key_def)
  qed
next
  case (Some d)
  then have "y = x" "dl' = dl" using assms(2,3) by (simp_all add: encode_topic_def)
  then show ?thesis using synced_same [OF assms(1)] Some by (simp add: remember_topic_def reader_acknowledge_def)
qed

lemma encode_plain:
  assumes sync: "synced sent dl r" and enc: "delivery_encode pc js x dl = Some (dl', y)" and snap: "\<And>f. x \<noteq> Snapshot f"
    and plain: "\<And>d. carried x = Some d \<Longrightarrow> src_topic (md_source (de_metadata d)) \<notin> set (dl_topics dl)"
    and own: "\<And>t d. x = Topic t \<or> (\<exists>u. x = Update u \<and> ue_update u = TopicChanged t) \<Longrightarrow> ts_snapshot t = Some d \<Longrightarrow>
      ts_source t = md_source (de_metadata d)"
  shows "y = x \<and> synced (sent @ [x]) dl' (fst (reader_acknowledge (remember js False x (r\<lparr>rd_validation := v\<rparr>))))"
proof (cases x)
  case (Topic t)
  have "ts_snapshot t = None \<or> src_topic (ts_source t) \<notin> set (dl_topics dl)"
    using plain own [of t] Topic by (cases "ts_snapshot t") auto
  then show ?thesis using synced_plain_topic [OF sync] enc Topic by simp
next
  case (Update u)
  show ?thesis
  proof (cases "ue_update u")
    case (TopicChanged t)
    have "ts_snapshot t = None \<or> src_topic (ts_source t) \<notin> set (dl_topics dl)"
      using plain own [of t] Update TopicChanged by (cases "ts_snapshot t") auto
    then show ?thesis using synced_plain_topic [OF sync] enc Update TopicChanged by simp
  next
    case (TopicReset src g reason)
    then have "y = x" "dl' = dl\<lparr>dl_baselines := bt_remove (source_key src) (dl_baselines dl)\<rparr>" using enc Update by simp_all
    then show ?thesis
      using synced_remove [OF sync, of dl' _ "source_key src" "[x]"] Update TopicReset by (simp add: reader_acknowledge_def)
  next
    case (SessionEnded session reason)
    then have "y = x" "dl' = dl\<lparr>dl_baselines := bt_retain (\<lambda>(key, _) _. key \<noteq> session) (dl_baselines dl)\<rparr>" using enc Update by simp_all
    then show ?thesis
      using synced_end [OF sync, of dl' _ session "[x]"] Update SessionEnded by (simp add: reader_acknowledge_def)
  qed (use enc Update synced_same [OF sync] in \<open>auto simp: reader_acknowledge_def\<close>)
qed (use enc snap synced_same [OF sync] in \<open>auto simp: reader_acknowledge_def\<close>)

lemma remember_quiet [simp]:
  "rd_validation (remember js ack x r) = rd_validation r" "rd_deltas (remember js ack x r) = rd_deltas r"
  "\<not> rd_deltas r \<or> \<not> ack \<Longrightarrow> rd_pending_ack (remember js ack x r) = rd_pending_ack r"
proof -
  have topic: "rd_validation (remember_topic js ack t r) = rd_validation r" "rd_deltas (remember_topic js ack t r) = rd_deltas r"
    "\<not> rd_deltas r \<or> \<not> ack \<Longrightarrow> rd_pending_ack (remember_topic js ack t r) = rd_pending_ack r" for t
    by (auto simp: remember_topic_def split: option.splits)
  have update: "rd_validation (remember_update js ack u r) = rd_validation r" "rd_deltas (remember_update js ack u r) = rd_deltas r"
    "\<not> rd_deltas r \<or> \<not> ack \<Longrightarrow> rd_pending_ack (remember_update js ack u r) = rd_pending_ack r" for u
    using topic by (cases u; simp)+
  show "rd_validation (remember js ack x r) = rd_validation r" "rd_deltas (remember js ack x r) = rd_deltas r"
    "\<not> rd_deltas r \<or> \<not> ack \<Longrightarrow> rd_pending_ack (remember js ack x r) = rd_pending_ack r"
    using topic update by (cases x; simp)+
qed

lemma encode_read:
  assumes laws: "json_laws js" and sync: "synced sent dl r"
    and enc: "delivery_encode pc js x dl = Some (dl', y)" and acc: "accept pc (rd_validation r) x = Ok v"
    and sound: "item_sound pc js limit x" "\<forall>z \<in> set sent. item_sound pc js limit z" and asc: "\<forall>z \<in> set sent. ascends z x"
  shows "\<exists>r'. reader_next pc js limit (Frame_item y) r = Ok (r', x) \<and> rd_validation r' = v \<and> rd_deltas r' = rd_deltas r
    \<and> (\<not> rd_deltas r \<longrightarrow> rd_pending_ack r' = rd_pending_ack r) \<and> synced (sent @ [x]) dl' (fst (reader_acknowledge r'))"
proof (cases "\<exists>d. carried x = Some d \<and> src_topic (md_source (de_metadata d)) \<in> set (dl_topics dl)")
  case True
  then show ?thesis using encode_read_snapshot [OF laws sync _ _ enc acc sound asc] by blast
next
  case False
  note snap = accept_no_snapshot [OF acc]
  have own: "ts_source t = md_source (de_metadata d)"
    if "x = Topic t \<or> (\<exists>u. x = Update u \<and> ue_update u = TopicChanged t)" "ts_snapshot t = Some d" for t d
  proof -
    have "carried x = Some d" using that by auto
    with acc show ?thesis by (cases rule: accept_carried) (use that in auto)
  qed
  let ?r' = "remember js False x (r\<lparr>rd_validation := v\<rparr>)"
  have y: "y = x" "synced (sent @ [x]) dl' (fst (reader_acknowledge ?r'))"
    using encode_plain [OF sync enc snap _ own] False by blast+
  have "resolve_frame pc js limit x r = Ok (x, False)" by (rule resolve_plain) (use snap in blast)
  then show ?thesis
    using y acc by (intro exI [of _ ?r']) (simp add: reader_next_def)
qed

subsection \<open>Transparency\<close>

definition link_sound :: "postcard \<Rightarrow> ('v, 'p) json \<Rightarrow> usize \<Rightarrow> Subscribe \<Rightarrow> link \<Rightarrow> bool" where
  "link_sound pc js limit selection l \<longleftrightarrow>
     (\<exists>r items. read_all pc js limit (lk_wire l) (lk_reader l) = Ok (r, items)
        \<and> lk_got l @ items = lk_sent l
        \<and> synced (lk_sent l) (sv_delivery (lk_serve l)) r
        \<and> accept_all pc (validation_new selection) (lk_sent l) = Ok (rd_validation r)
        \<and> rd_deltas r = rd_deltas (lk_reader l) \<and> rd_pending_ack r = None
        \<and> rd_pending_ack (lk_reader l) = None \<and> (\<not> rd_deltas r \<longrightarrow> lk_acks l = []))"

lemma read_all_snoc:
  "read_all pc js limit ys r = Ok (r1, xs) \<Longrightarrow> reader_next pc js limit (Frame_item y) r1 = Ok (r2, x) \<Longrightarrow>
     read_all pc js limit (ys @ [y]) r = Ok (fst (reader_acknowledge r2), xs @ [x])"
  by (induction ys arbitrary: r xs) auto

lemma synced_ack:
  assumes "synced sent dl r" and "rd_deltas r"
  shows "synced sent (delivery_acknowledge js a dl) r"
proof (rule syncedI)
  show "bt_inv (dl_baselines (delivery_acknowledge js a dl))" "bt_inv (rd_baselines r)"
    using syncedD(1,2) [OF assms(1)] by (simp_all add: delivery_acknowledge_def)
  fix k b assume "bt_get (dl_baselines (delivery_acknowledge js a dl)) k = Some b"
  then obtain b0 where "bt_get (dl_baselines dl) k = Some b0" "bl_snapshot b0 = bl_snapshot b"
    by (auto simp: delivery_acknowledge_def bt_get_update split: if_splits)
  then show "agreed sent (dl_topics (delivery_acknowledge js a dl)) r k b"
    using syncedD(3) [OF assms(1)] assms(2) by (fastforce simp: agreed_def delivery_acknowledge_def)
qed

lemma link_start_sound: "link_sound pc js limit selection (link_start topics selection deltas)"
  by (simp add: link_sound_def link_start_def synced_def serve_start_def reader_new_def)

lemma link_step_sound:
  assumes laws: "json_laws js" and step: "link_step pc js limit l l'"
    and sound: "link_sound pc js limit selection l" and stream: "stream_sound pc js limit selection (lk_sent l')"
  shows "link_sound pc js limit selection l'"
proof -
  obtain r items where all: "read_all pc js limit (lk_wire l) (lk_reader l) = Ok (r, items)"
    and got: "lk_got l @ items = lk_sent l" and sync: "synced (lk_sent l) (sv_delivery (lk_serve l)) r"
    and acc: "accept_all pc (validation_new selection) (lk_sent l) = Ok (rd_validation r)"
    and mode: "rd_deltas r = rd_deltas (lk_reader l)" "rd_pending_ack r = None" "rd_pending_ack (lk_reader l) = None"
      "\<not> rd_deltas r \<longrightarrow> lk_acks l = []"
    using sound by (auto simp: link_sound_def)
  from step show ?thesis
  proof cases
    case (link_send x sv y)
    then obtain dl' where enc: "delivery_encode pc js x (sv_delivery (lk_serve l)) = Some (dl', y)"
      and sv: "sv_delivery sv = dl'" by (auto simp: serve_item_def)
    obtain v where v: "accept pc (rd_validation r) x = Ok v"
      using stream link_send(1) acc by (auto simp: stream_sound_def is_ok_iff try_fold_append)
    have "item_sound pc js limit x" "\<forall>z \<in> set (lk_sent l). item_sound pc js limit z" "\<forall>z \<in> set (lk_sent l). ascends z x"
      using stream link_send(1) by (auto simp: stream_sound_def list_all_iff sorted_wrt_append)
    from encode_read [OF laws sync enc v this] obtain r' where r':
      "reader_next pc js limit (Frame_item y) r = Ok (r', x)" "rd_validation r' = v" "rd_deltas r' = rd_deltas r"
      "synced (lk_sent l @ [x]) dl' (fst (reader_acknowledge r'))" by blast
    show ?thesis
      unfolding link_sound_def
      by (intro exI [of _ "fst (reader_acknowledge r')"] exI [of _ "items @ [x]"])
        (use read_all_snoc [OF all r'(1)] r' sv got acc v mode link_send(1) in
          \<open>simp add: try_fold_append reader_acknowledge_def flip: append_assoc\<close>)
  next
    case (link_receive y rest r1 x r' ack)
    obtain xs where rest: "read_all pc js limit rest r' = Ok (r, xs)" "items = x # xs"
      using all link_receive(2-4) by auto
    have r': "rd_deltas r' = rd_deltas r1" "rd_pending_ack r' = None" "ack = rd_pending_ack r1"
      using link_receive(4) by (auto simp: reader_acknowledge_def)
    obtain ackd v where r1: "r1 = remember js ackd x ((lk_reader l)\<lparr>rd_validation := v\<rparr>)"
      using link_receive(3) by (auto simp: reader_next_def split: prod.splits)
    then have "rd_deltas r1 = rd_deltas (lk_reader l)" "\<not> rd_deltas (lk_reader l) \<Longrightarrow> rd_pending_ack r1 = None"
      using mode(3) by simp_all
    then show ?thesis
      unfolding link_sound_def
      by (intro exI [of _ r] exI [of _ xs])
        (use rest got sync acc mode r' link_receive(1) in \<open>auto split: option.splits\<close>)
  next
    case (link_confirm a rest)
    then have "rd_deltas r" using mode(4) by auto
    then show ?thesis
      unfolding link_sound_def
      by (intro exI [of _ r] exI [of _ items])
        (use all got acc mode link_confirm(1) synced_ack [OF sync] in \<open>simp add: serve_ack_def\<close>)
  next
    case link_unconfirmed
    have "synced (lk_sent l) \<lparr>dl_topics = [], dl_baselines = []\<rparr> r"
      using syncedD(2) [OF sync] by (simp add: synced_def)
    then show ?thesis
      unfolding link_sound_def
      by (intro exI [of _ r] exI [of _ items])
        (use all got acc mode link_unconfirmed(1) in \<open>simp add: serve_ack_def\<close>)
  qed
qed

lemma link_sent_prefix: "link_step pc js limit l l' \<Longrightarrow> \<exists>xs. lk_sent l' = lk_sent l @ xs"
  by (erule link_step.cases) auto


subsection \<open>A run with a delta\<close>

datatype link_event = Send SubscriptionItem | Receive | Confirm | Unconfirmed

text \<open>A scheduler that performs given events, \<open>None\<close> when one is not enabled.\<close>

fun link_run :: "postcard \<Rightarrow> ('v, 'p) json \<Rightarrow> usize \<Rightarrow> link_event list \<Rightarrow> link \<Rightarrow> link option" where
  "link_run pc js limit [] l = Some l"
| "link_run pc js limit (Send item # es) l =
     (case serve_item pc js item (lk_serve l) of
        None \<Rightarrow> None
      | Some (s, frame) \<Rightarrow>
          link_run pc js limit es (l\<lparr>lk_serve := s, lk_wire := lk_wire l @ [frame], lk_sent := lk_sent l @ [item]\<rparr>))"
| "link_run pc js limit (Receive # es) l =
     (case lk_wire l of
        [] \<Rightarrow> None
      | frame # rest \<Rightarrow>
        (case reader_next pc js limit (Frame_item frame) (lk_reader l) of
           Err _ \<Rightarrow> None
         | Ok (r, item) \<Rightarrow>
             link_run pc js limit es (l\<lparr>lk_wire := rest, lk_reader := fst (reader_acknowledge r), lk_got := lk_got l @ [item],
               lk_acks := lk_acks l @ (case snd (reader_acknowledge r) of None \<Rightarrow> [] | Some a \<Rightarrow> [a])\<rparr>)))"
| "link_run pc js limit (Confirm # es) l =
     (case lk_acks l of
        [] \<Rightarrow> None
      | a # rest \<Rightarrow>
          (if sv_read_acks (lk_serve l)
           then link_run pc js limit es (l\<lparr>lk_serve := serve_ack js (Some a) (lk_serve l), lk_acks := rest\<rparr>) else None))"
| "link_run pc js limit (Unconfirmed # es) l =
     (if sv_read_acks (lk_serve l)
      then link_run pc js limit es (l\<lparr>lk_serve := serve_ack js None (lk_serve l)\<rparr>) else None)"

lemma link_run_reachable:
  "link_run pc js limit es l = Some l' \<Longrightarrow> link_reachable pc js limit topics selection deltas l \<Longrightarrow>
     link_reachable pc js limit topics selection deltas l'"
proof (induction es arbitrary: l)
  case (Cons e es)
  have "\<exists>m. link_step pc js limit l m \<and> link_run pc js limit es m = Some l'"
    using Cons.prems(1)
    by (cases e) (auto split: option.splits list.splits result.splits if_splits
        intro: link_step.intros dest: prod.collapse [symmetric, THEN link_receive [rotated 2]])
  then show ?case using Cons.IH Cons.prems(2) reach_step by metis
qed simp

abbreviation demo_cursor :: "u64 \<Rightarrow> ServiceCursor" where
  "demo_cursor n \<equiv> \<lparr>cur_run_id = ''r'', cur_sequence = n\<rparr>"

abbreviation demo_session :: SessionInfo where
  "demo_session \<equiv>
     \<lparr>si_session = SessionRef ''r'' ''s'', si_provider_id = ''p'', si_game_id = ''g'',
      si_target = \<lparr>tpr_pid = 7, tpr_executable = ''w''\<rparr>, si_game_build = None\<rparr>"

abbreviation demo_state :: "u64 \<Rightarrow> JsonPayload \<Rightarrow> TopicSnapshot" where
  "demo_state n payload \<equiv>
     \<lparr>ts_source = demo_source, ts_generation = 1, ts_health = Available, ts_snapshot = Some (demo_data n payload)\<rparr>"

abbreviation demo_bootstrap :: "SubscriptionItem list" where
  "demo_bootstrap \<equiv> [Begin (demo_cursor 4), Session demo_session, Topic (demo_state 4 ''a''), Ready (demo_cursor 4)]"

abbreviation demo_change :: SubscriptionItem where
  "demo_change \<equiv> Update \<lparr>ue_cursor = demo_cursor 5, ue_update = TopicChanged (demo_state 5 ''b'')\<rparr>"

abbreviation demo_schedule :: "link_event list" where
  "demo_schedule \<equiv>
     [Send (Begin (demo_cursor 4)), Send (Session demo_session), Send (Topic (demo_state 4 ''a'')), Send (Ready (demo_cursor 4)),
      Receive, Receive, Receive, Confirm, Receive, Send demo_change]"

abbreviation demo_selector :: Subscribe where
  "demo_selector \<equiv> \<lparr>sel_sessions = All_sessions, sel_topics = [TopicRef ''p'' ''t'' 1]\<rparr>"

abbreviation demo_start :: link where
  "demo_start \<equiv> link_start [TopicRef ''p'' ''t'' 1] demo_selector True"

lemma unit_sizes_sel [simp]:
  "size_item unit_sizes x = Some 1" "size_info unit_sizes i = Some 1" "size_payload unit_sizes (Full t) = Some 2"
  "size_payload unit_sizes (Delta n h t) = Some 1"
  by (simp_all add: unit_sizes_def)

lemma text_json_sel [simp]:
  "js_parse text_json t = Some t" "js_print text_json t = Some t" "js_diff text_json a b = [b]" "js_patch text_json a [b] = Some b"
  "js_plain text_json p" "js_parse_patch text_json t = Some [t]" "js_print_patch text_json [b] = Some b" "js_hash text_json t = t"
  by (simp_all add: text_json_def)

lemmas delivery_eval =
  serve_item_def serve_ack_def serve_start_def encode_topic_def choose_payload_def delta_allowed_def delta_between_def patch_text_def
  delivery_acknowledge_def source_key_def reader_next_def reader_new_def reader_acknowledge_def remember_topic_def link_start_def
  reconstruct_def frame_payload_def frame_item_def delta_base_def
  accept_def begun_def validation_new_def client_identifier_def metadata_bytes_def seen_bytes_def check_def ok_or_def ensure_def
  va_add_session_def va_topic_def va_source_def selected_def set_generation_def MAX_ACTIVE_METADATA_BYTES_def usize_max_def
  bt_update_def bt_map_def

lemma demo_link_run:
  "\<exists>l. link_run unit_sizes text_json 64 demo_schedule demo_start = Some l
     \<and> lk_sent l = demo_bootstrap @ [demo_change] \<and> lk_got l = demo_bootstrap
     \<and> lk_wire l = [Snapshot \<lparr>sf_cursor = Some (demo_cursor 5), sf_metadata = de_metadata (demo_data 5 ''b''),
          sf_payload = Delta 4 ''b'' ''b''\<rparr>]"
  by (simp add: delivery_eval)

lemma demo_stream_sound: "stream_sound unit_sizes text_json 64 demo_selector (demo_bootstrap @ [demo_change])"
proof -
  have "is_ok (accept_all unit_sizes (validation_new demo_selector) (demo_bootstrap @ [demo_change]))"
    by (simp add: delivery_eval is_ok_iff)
  then show ?thesis
    by (simp add: stream_sound_def item_sound_def ascends_def canonical_def)
qed


end
