(* ===== verification/Client_Feed.thy ===== *)
theory Client_Feed
  imports Client_Listener Snapshot_Delivery
begin

section \<open>Shared feeds of the client SDK\<close>

text \<open>
  \<open>crates/wf-observer-sdk/src/subscription/feed.rs\<close> and \<open>manager.rs\<close>: a feed is one upstream
  stream for one topic, shared by all listeners that select it; it stops when its last listener
  leaves. A hub holds the feeds and listeners of one client, each under a number that stands
  for its \<open>Arc\<close>; an \<open>Arc\<close> that is gone is a number with no entry, which is what upgrading a
  \<open>Weak\<close> observes.

  \<open>fd_sequence\<close> is the local variable of \<open>receive_once\<close>. A feed's selection always has one topic;
  indexing an empty one panics in the code and leaves the hub unchanged here.
\<close>

record Feed =
  fd_selection :: Subscribe
  fd_listeners :: "nat list"
  fd_current :: FeedState
  fd_ready :: bool
  fd_terminal :: "terminal option"
  fd_stopped :: bool
  fd_sequence :: u64

record Hub =
  hub_feeds :: "(nat, Feed) btree"
  hub_listeners :: "(nat, Listener) btree"
  hub_managed :: "nat list"
  hub_next :: nat
  hub_closed :: bool

definition feed_new :: "Subscribe \<Rightarrow> Feed" where
  "feed_new selection =
     \<lparr>fd_selection = selection, fd_listeners = [], fd_current = feed_state_default, fd_ready = False,
      fd_terminal = None, fd_stopped = False, fd_sequence = 0\<rparr>"

definition hub_new :: Hub where
  "hub_new = \<lparr>hub_feeds = [], hub_listeners = [], hub_managed = [], hub_next = 0, hub_closed = False\<rparr>"

subsection \<open>Attaching and detaching\<close>

definition feed_detach :: "nat \<Rightarrow> Feed \<Rightarrow> Feed" where
  "feed_detach l f =
     (let f' = f\<lparr>fd_listeners := filter (\<lambda>other. other \<noteq> l) (fd_listeners f)\<rparr>
      in if fd_listeners f' = [] then f'\<lparr>fd_stopped := True, fd_current := feed_state_default\<rparr> else f')"

definition detach_feeds :: "nat \<Rightarrow> nat list \<Rightarrow> Hub \<Rightarrow> Hub" where
  "detach_feeds l feeds h = h\<lparr>hub_feeds := fold (\<lambda>f. bt_update f (feed_detach l)) feeds (hub_feeds h)\<rparr>"

definition set_listener :: "nat \<Rightarrow> Listener \<Rightarrow> Hub \<Rightarrow> Hub" where
  "set_listener l q h = h\<lparr>hub_listeners := bt_update l (\<lambda>_. q) (hub_listeners h)\<rparr>"

text \<open>Applying a listener function that may finish the listener, and detaching it if it did.\<close>

definition with_listener :: "(Listener \<Rightarrow> Listener \<times> nat list) \<Rightarrow> nat \<Rightarrow> Hub \<Rightarrow> Hub" where
  "with_listener f l h =
     (case bt_get (hub_listeners h) l of
        None \<Rightarrow> h
      | Some q \<Rightarrow> (let (q', feeds) = f q in detach_feeds l feeds (set_listener l q' h)))"

definition hub_finish_listener :: "terminal option \<Rightarrow> nat \<Rightarrow> Hub \<Rightarrow> Hub" where
  "hub_finish_listener terminal = with_listener (listener_finish terminal)"

definition notify_state :: "Feed \<Rightarrow> nat \<Rightarrow> Hub \<Rightarrow> Hub" where
  "notify_state f =
     (case sel_topics (fd_selection f) of
        [] \<Rightarrow> (\<lambda>_ h. h)
      | key # _ \<Rightarrow> with_listener (\<lambda>q. (listener_state key (fd_current f) q, [])))"

definition publish_state :: "nat \<Rightarrow> Hub \<Rightarrow> Hub" where
  "publish_state fid h =
     (case bt_get (hub_feeds h) fid of
        None \<Rightarrow> h
      | Some f \<Rightarrow> if fd_ready f then fold (notify_state f) (fd_listeners f) h else h)"

definition feed_attach :: "nat \<Rightarrow> nat \<Rightarrow> Hub \<Rightarrow> Hub \<times> bool" where
  "feed_attach fid l h =
     (case bt_get (hub_feeds h) fid of
        None \<Rightarrow> (h, False)
      | Some f \<Rightarrow>
        (if fd_stopped f then (h, False)
         else (let h' = h\<lparr>hub_feeds := bt_update fid (\<lambda>f. f\<lparr>fd_listeners := fd_listeners f @ [l]\<rparr>) (hub_feeds h)\<rparr>
               in (if fd_ready f then notify_state f l h' else h', True))))"

subsection \<open>Receiving\<close>

definition session_seen :: "u64 \<Rightarrow> SessionInfo \<Rightarrow> FeedState \<Rightarrow> FeedState" where
  "session_seen sequence info s = s\<lparr>fs_sessions := bt_insert (si_session info) (sequence, info) (fs_sessions s)\<rparr>"

definition topic_seen :: "TopicSnapshot \<Rightarrow> FeedState \<Rightarrow> FeedState" where
  "topic_seen t s = s\<lparr>fs_topics := bt_insert (src_session (ts_source t)) t (fs_topics s)\<rparr>"

fun update_state :: "u64 \<Rightarrow> SubscriptionUpdate \<Rightarrow> FeedState \<Rightarrow> FeedState option" where
  "update_state sequence (SessionStarted info) s = Some (session_seen sequence info s)"
| "update_state sequence (SessionChanged info) s = Some (session_seen sequence info s)"
| "update_state sequence (SessionEnded session _) s =
     Some (s\<lparr>fs_sessions := bt_remove session (fs_sessions s), fs_topics := bt_remove session (fs_topics s)\<rparr>)"
| "update_state sequence (TopicReset source generation _) s =
     Some (topic_seen \<lparr>ts_source = source, ts_generation = generation, ts_health = Initializing, ts_snapshot = None\<rparr> s)"
| "update_state sequence (TopicChanged t) s = Some (topic_seen t s)"
| "update_state sequence (Event _) s = None"

definition feed_change :: "nat \<Rightarrow> (FeedState \<Rightarrow> FeedState) \<Rightarrow> Hub \<Rightarrow> Hub" where
  "feed_change fid change h =
     publish_state fid (h\<lparr>hub_feeds := bt_update fid (\<lambda>f. f\<lparr>fd_current := change (fd_current f)\<rparr>) (hub_feeds h)\<rparr>)"

definition feed_event :: "postcard \<Rightarrow> usize \<Rightarrow> nat \<Rightarrow> EventEnvelope \<Rightarrow> Hub \<Rightarrow> Hub" where
  "feed_event pc limit fid event h =
     (case bt_get (hub_feeds h) fid of
        None \<Rightarrow> h
      | Some f \<Rightarrow> fold (with_listener (listener_event pc limit event)) (fd_listeners f) h)"

definition set_sequence :: "nat \<Rightarrow> u64 \<Rightarrow> Hub \<Rightarrow> Hub" where
  "set_sequence fid sequence h = h\<lparr>hub_feeds := bt_update fid (\<lambda>f. f\<lparr>fd_sequence := sequence\<rparr>) (hub_feeds h)\<rparr>"

definition feed_sequence :: "nat \<Rightarrow> Hub \<Rightarrow> u64" where
  "feed_sequence fid h = (case bt_get (hub_feeds h) fid of None \<Rightarrow> 0 | Some f \<Rightarrow> fd_sequence f)"

text \<open>One item of \<open>receive_once\<close>: the loop goes on (\<open>None\<close>) or returns.\<close>

fun feed_item ::
  "postcard \<Rightarrow> usize \<Rightarrow> nat \<Rightarrow> SubscriptionItem \<Rightarrow> Hub \<Rightarrow> Hub \<times> (SubscriptionEnd, ReadError) result option" where
  "feed_item pc limit fid (Begin cursor) h = (set_sequence fid (cur_sequence cursor) h, None)"
| "feed_item pc limit fid (Session info) h = (feed_change fid (session_seen (feed_sequence fid h) info) h, None)"
| "feed_item pc limit fid (Topic t) h = (feed_change fid (topic_seen t) h, None)"
| "feed_item pc limit fid (Snapshot _) h = (h, Some (Err (Client_failure (Protocol ''snapshot was not reconstructed''))))"
| "feed_item pc limit fid (Ready _) h =
     (publish_state fid (h\<lparr>hub_feeds := bt_update fid (\<lambda>f. f\<lparr>fd_ready := True\<rparr>) (hub_feeds h)\<rparr>), None)"
| "feed_item pc limit fid (Closed reason) h = (h, Some (Ok reason))"
| "feed_item pc limit fid (Update u) h =
     (let sequence = cur_sequence (ue_cursor u); h1 = set_sequence fid sequence h
      in (case ue_update u of
            Event event \<Rightarrow> feed_event pc limit fid event h1
          | update \<Rightarrow> feed_change fid (\<lambda>s. case update_state sequence update s of Some s' \<Rightarrow> s' | None \<Rightarrow> s) h1,
          None))"

text \<open>
  \<open>receive\<close>: after a delta that cannot be applied, the old state is discarded and a second
  stream without deltas starts over; a second failure is an error of the feed.
\<close>

definition feed_resync :: "nat \<Rightarrow> Hub \<Rightarrow> Hub" where
  "feed_resync fid h =
     (let h1 = publish_state fid (h\<lparr>hub_feeds := bt_update fid (\<lambda>f. f\<lparr>fd_current := feed_state_default\<rparr>) (hub_feeds h)\<rparr>)
      in h1\<lparr>hub_feeds := bt_update fid (\<lambda>f. f\<lparr>fd_ready := False, fd_sequence := 0\<rparr>) (hub_feeds h1)\<rparr>)"

fun read_error_client :: "ReadError \<Rightarrow> ClientError" where
  "read_error_client (Client_failure e) = e"
| "read_error_client (Resync message) = Protocol message"

definition feed_finish :: "nat \<Rightarrow> terminal \<Rightarrow> Hub \<Rightarrow> Hub" where
  "feed_finish fid terminal h =
     (case bt_get (hub_feeds h) fid of
        None \<Rightarrow> h
      | Some f \<Rightarrow>
        fold (hub_finish_listener (Some terminal)) (fd_listeners f)
          (h\<lparr>hub_feeds := bt_update fid
               (\<lambda>f. f\<lparr>fd_stopped := True, fd_current := feed_state_default, fd_terminal := Some terminal\<rparr>) (hub_feeds h)\<rparr>))"

text \<open>\<open>run\<close>: what a task does with the result of \<open>receive\<close>, or with a cancellation.\<close>

definition feed_run_ends :: "nat \<Rightarrow> terminal \<Rightarrow> Hub \<Rightarrow> Hub" where
  "feed_run_ends fid result h =
     (case bt_get (hub_feeds h) fid of
        None \<Rightarrow> h
      | Some f \<Rightarrow>
        (if hub_closed h then feed_finish fid (Err Closed_client) h
         else if fd_stopped f then h
         else feed_finish fid result h))"

text \<open>\<open>wait_ready\<close>: \<open>None\<close> while it has to wait.\<close>

definition feed_wait_ready :: "Feed \<Rightarrow> (unit, ClientError) result option" where
  "feed_wait_ready f =
     (case fd_terminal f of
        Some (Err e) \<Rightarrow> Some (Err e)
      | Some (Ok _) \<Rightarrow> Some (Err (Protocol ''subscription ended during setup''))
      | None \<Rightarrow> if fd_stopped f then Some (Err Closed_client) else if fd_ready f then Some (Ok ()) else None)"

subsection \<open>The manager\<close>

definition manager_topics :: "Subscribe \<Rightarrow> (TopicRef list, ClientError) result" where
  "manager_topics request =
     (let topics = remdups_adj (sort (sel_topics request))
      in if topics = [] then Err (Request (InvalidRequest ''empty topic selection'')) else Ok topics)"

definition add_listener :: "bool \<Rightarrow> Hub \<Rightarrow> Hub \<times> nat" where
  "add_listener receive_events h =
     (h\<lparr>hub_listeners := bt_insert (hub_next h) (listener_new receive_events) (hub_listeners h), hub_next := hub_next h + 1\<rparr>,
      hub_next h)"

definition add_feed :: "Subscribe \<Rightarrow> Hub \<Rightarrow> Hub \<times> nat" where
  "add_feed selection h =
     (h\<lparr>hub_feeds := bt_insert (hub_next h) (feed_new selection) (hub_feeds h), hub_next := hub_next h + 1\<rparr>, hub_next h)"

text \<open>The feeds the manager still tracks; a stopped feed is forgotten before a lookup.\<close>

definition feed_running :: "Hub \<Rightarrow> nat \<Rightarrow> bool" where
  "feed_running h fid \<longleftrightarrow> (case bt_get (hub_feeds h) fid of None \<Rightarrow> False | Some f \<Rightarrow> \<not> fd_stopped f)"

definition existing_feed :: "Subscribe \<Rightarrow> Hub \<Rightarrow> nat option" where
  "existing_feed selection h =
     find (\<lambda>fid. case bt_get (hub_feeds h) fid of None \<Rightarrow> False | Some f \<Rightarrow> fd_selection f = selection \<and> \<not> fd_stopped f)
       (hub_managed h)"

text \<open>One topic of \<open>subscribe\<close>; the flag tells whether a task has to be started for the feed.\<close>

definition manager_join :: "SessionSelector \<Rightarrow> TopicRef \<Rightarrow> nat \<Rightarrow> Hub \<Rightarrow> Hub \<times> (nat \<times> bool, ClientError) result" where
  "manager_join sessions key l h =
     (if hub_closed h then (h, Err Closed_client)
      else (let selection = \<lparr>sel_sessions = sessions, sel_topics = [key]\<rparr>;
          h0 = h\<lparr>hub_managed := filter (feed_running h) (hub_managed h)\<rparr>;
          (h1, fid, start) = (case existing_feed selection h0 of
              Some fid \<Rightarrow> (fst (feed_attach fid l h0), fid, False)
            | None \<Rightarrow> (let (h', fid) = add_feed selection h0 in (fst (feed_attach fid l h'), fid, True)))
        in case bt_get (hub_listeners h1) l of
             None \<Rightarrow> (h1, Err Closed_client)
           | Some q \<Rightarrow>
             (case listener_register fid q of
                (q', True) \<Rightarrow>
                  (let h2 = set_listener l q' h1
                   in (if start then h2\<lparr>hub_managed := hub_managed h2 @ [fid]\<rparr> else h2, Ok (fid, start)))
              | (q', False) \<Rightarrow>
                  (detach_feeds l [fid] h1,
                   case listener_check_open q of Err e \<Rightarrow> Err e | Ok _ \<Rightarrow> Err Closed_client))))"

definition manager_close :: "Hub \<Rightarrow> Hub" where
  "manager_close h =
     fold (\<lambda>fid. feed_finish fid (Err Closed_client)) (hub_managed h) (h\<lparr>hub_closed := True, hub_managed := []\<rparr>)"

end
