(* ===== verification/Client_Hub.thy ===== *)
theory Client_Hub
  imports Client_Feed
begin

section \<open>Interest in shared feeds\<close>

text \<open>
  Feeds and listeners refer to each other. The invariant: a running feed has a listener, every
  listener of a feed is open and knows the feed, and every feed of an open listener runs.
\<close>

definition feed_inv :: "nat set \<Rightarrow> nat set \<Rightarrow> Hub \<Rightarrow> nat \<Rightarrow> Feed \<Rightarrow> bool" where
  "feed_inv X M h fid f \<longleftrightarrow>
     (fid \<notin> X \<longrightarrow> (fd_listeners f = [] \<longleftrightarrow> fd_stopped f))
     \<and> (\<forall>l \<in> set (fd_listeners f). \<exists>q. bt_get (hub_listeners h) l = Some q \<and> \<not> ls_closed q \<and> fid \<in> set (ls_feeds q))
     \<and> (\<not> fd_stopped f \<longrightarrow> fid \<in> M)"

definition listener_inv :: "Hub \<Rightarrow> nat \<Rightarrow> Listener \<Rightarrow> bool" where
  "listener_inv h l q \<longleftrightarrow>
     (ls_closed q \<longrightarrow> ls_feeds q = [])
     \<and> (\<forall>fid \<in> set (ls_feeds q). \<exists>f. bt_get (hub_feeds h) fid = Some f \<and> l \<in> set (fd_listeners f))"

text \<open>
  \<open>X\<close> are feeds in the middle of a change: new ones that wait for their first listener and stopped
  ones whose listeners are still being told; \<open>M\<close> are the feeds that may run.
\<close>

definition hub_inv :: "nat set \<Rightarrow> nat set \<Rightarrow> Hub \<Rightarrow> bool" where
  "hub_inv X M h \<longleftrightarrow>
     bt_inv (hub_feeds h) \<and> bt_inv (hub_listeners h)
     \<and> (\<forall>fid f. bt_get (hub_feeds h) fid = Some f \<longrightarrow> feed_inv X M h fid f \<and> fid < hub_next h)
     \<and> (\<forall>l q. bt_get (hub_listeners h) l = Some q \<longrightarrow> listener_inv h l q \<and> l < hub_next h)"

definition hub_wf :: "Hub \<Rightarrow> bool" where
  "hub_wf h \<longleftrightarrow> hub_inv {} (set (hub_managed h)) h \<and> (hub_closed h \<longrightarrow> hub_managed h = [])"

lemma hub_invI:
  assumes "bt_inv (hub_feeds h)" and "bt_inv (hub_listeners h)"
    and "\<And>fid f. bt_get (hub_feeds h) fid = Some f \<Longrightarrow> feed_inv X M h fid f \<and> fid < hub_next h"
    and "\<And>l q. bt_get (hub_listeners h) l = Some q \<Longrightarrow> listener_inv h l q \<and> l < hub_next h"
  shows "hub_inv X M h"
  using assms by (simp add: hub_inv_def)

lemma hub_invD:
  assumes "hub_inv X M h"
  shows "bt_inv (hub_feeds h)" and "bt_inv (hub_listeners h)"
    and "bt_get (hub_feeds h) fid = Some f \<Longrightarrow> feed_inv X M h fid f"
    and "bt_get (hub_feeds h) fid = Some f \<Longrightarrow> fid < hub_next h"
    and "bt_get (hub_listeners h) l = Some q \<Longrightarrow> listener_inv h l q"
    and "bt_get (hub_listeners h) l = Some q \<Longrightarrow> l < hub_next h"
  using assms by (auto simp: hub_inv_def)

lemma hub_inv_cong:
  assumes "hub_feeds h' = hub_feeds h" and "hub_listeners h' = hub_listeners h" and "hub_next h' = hub_next h"
  shows "hub_inv X M h' = hub_inv X M h"
  using assms by (simp add: hub_inv_def feed_inv_def listener_inv_def)

lemma hub_inv_ext:
  assumes "hub_inv X M h" and "bt_inv (hub_feeds h')" and "bt_inv (hub_listeners h')"
    and "\<And>fid. bt_get (hub_feeds h') fid = bt_get (hub_feeds h) fid"
    and "\<And>l. bt_get (hub_listeners h') l = bt_get (hub_listeners h) l" and "hub_next h' = hub_next h"
  shows "hub_inv X M h'"
  using assms by (simp add: hub_inv_def feed_inv_def listener_inv_def)

lemma hub_inv_restrict:
  assumes "hub_inv X M h"
    and "\<And>fid f. bt_get (hub_feeds h) fid = Some f \<Longrightarrow> \<not> fd_stopped f \<Longrightarrow> fid \<in> M'"
    and "\<And>fid f. bt_get (hub_feeds h) fid = Some f \<Longrightarrow> fid \<in> X \<Longrightarrow> fid \<notin> X' \<Longrightarrow> fd_listeners f = [] \<longleftrightarrow> fd_stopped f"
  shows "hub_inv X' M' h"
proof (rule hub_invI)
  note inv = hub_invD [OF assms(1)]
  show "bt_inv (hub_feeds h)" "bt_inv (hub_listeners h)" by (fact inv)+
  show "feed_inv X' M' h fid f \<and> fid < hub_next h" if "bt_get (hub_feeds h) fid = Some f" for fid f
    using inv(3,4) [OF that] assms(2,3) [OF that] unfolding feed_inv_def by blast
  show "listener_inv h l q \<and> l < hub_next h" if "bt_get (hub_listeners h) l = Some q" for l q
    using inv(5,6) [OF that] by simp
qed

lemma hub_inv_manager [simp]:
  "hub_inv X M (h\<lparr>hub_managed := m\<rparr>) = hub_inv X M h" "hub_inv X M (h\<lparr>hub_closed := c\<rparr>) = hub_inv X M h"
  by (simp_all add: hub_inv_def feed_inv_def listener_inv_def)

lemma hub_inv_running: "hub_inv X M h \<Longrightarrow> bt_get (hub_feeds h) fid = Some f \<Longrightarrow> \<not> fd_stopped f \<Longrightarrow> fid \<in> M"
  by (drule (1) hub_invD(3)) (simp add: feed_inv_def)

lemma hub_inv_mono:
  assumes "hub_inv X M h" and "M \<subseteq> M'"
  shows "hub_inv X M' h"
  by (rule hub_inv_restrict [OF assms(1)]) (use hub_inv_running [OF assms(1)] assms(2) in auto)

lemma feed_detach_sel:
  "fd_listeners (feed_detach l f) = filter (\<lambda>x. x \<noteq> l) (fd_listeners f)"
  "fd_stopped (feed_detach l f) = (fd_stopped f \<or> filter (\<lambda>x. x \<noteq> l) (fd_listeners f) = [])"
  by (simp_all add: feed_detach_def Let_def)

lemma feed_detach_idem: "feed_detach l (feed_detach l f) = feed_detach l f"
  by (simp add: feed_detach_def Let_def)

lemma detach_get:
  "bt_get (fold (\<lambda>f. bt_update f (feed_detach l)) feeds m) fid =
     (if fid \<in> set feeds then map_option (feed_detach l) (bt_get m fid) else bt_get m fid)"
proof (induction feeds arbitrary: m)
  case (Cons f feeds)
  then show ?case by (auto simp: bt_get_update feed_detach_idem option.map_comp o_def)
qed simp

lemma detach_inv: "bt_inv (fold (\<lambda>f. bt_update f (feed_detach l)) feeds m) = bt_inv m"
  by (induction feeds arbitrary: m) simp_all

subsection \<open>Changing one listener\<close>

text \<open>A listener function either keeps the listener's interests or drops all of them.\<close>

definition keeps_interest :: "Listener \<Rightarrow> Listener \<Rightarrow> bool" where
  "keeps_interest q q' \<longleftrightarrow> ls_feeds q' = ls_feeds q \<and> ls_closed q' = ls_closed q"

definition drops_interest :: "Listener \<Rightarrow> Listener \<Rightarrow> bool" where
  "drops_interest q q' \<longleftrightarrow> \<not> ls_closed q \<and> ls_closed q' \<and> ls_feeds q' = []"

lemma set_listener_keeps:
  assumes "hub_inv X M h" and "bt_get (hub_listeners h) l = Some q" and "keeps_interest q q'"
  shows "hub_inv X M (set_listener l q' h)"
proof (rule hub_invI)
  note inv = hub_invD [OF assms(1)]
  show "bt_inv (hub_feeds (set_listener l q' h))" "bt_inv (hub_listeners (set_listener l q' h))"
    using inv(1,2) by (simp_all add: set_listener_def)
  show "feed_inv X M (set_listener l q' h) fid f \<and> fid < hub_next (set_listener l q' h)"
    if "bt_get (hub_feeds (set_listener l q' h)) fid = Some f" for fid f
    using that inv(3,4) [of fid f] assms(2,3)
    by (fastforce simp: set_listener_def feed_inv_def bt_get_update keeps_interest_def)
  show "listener_inv (set_listener l q' h) k p \<and> k < hub_next (set_listener l q' h)"
    if "bt_get (hub_listeners (set_listener l q' h)) k = Some p" for k p
    using that inv(5,6) [of k] assms(2,3)
    by (auto simp: set_listener_def listener_inv_def bt_get_update keeps_interest_def split: if_splits)
qed

lemma drop_listener_inv:
  assumes "hub_inv X M h" and "bt_get (hub_listeners h) l = Some q" and "drops_interest q q'"
  shows "hub_inv X M (detach_feeds l (ls_feeds q) (set_listener l q' h))"
proof (rule hub_invI)
  let ?h = "detach_feeds l (ls_feeds q) (set_listener l q' h)"
  note inv = hub_invD [OF assms(1)]
  show "bt_inv (hub_feeds ?h)" "bt_inv (hub_listeners ?h)"
    using inv(1,2) by (simp_all add: set_listener_def detach_feeds_def detach_inv)
  have other: "l \<notin> set (fd_listeners f)" if "bt_get (hub_feeds h) fid = Some f" "fid \<notin> set (ls_feeds q)" for fid f
    using inv(3) [OF that(1)] that(2) assms(2) by (auto simp: feed_inv_def)
  show "feed_inv X M ?h fid f \<and> fid < hub_next ?h" if get: "bt_get (hub_feeds ?h) fid = Some f" for fid f
  proof -
    obtain f0 where f0: "bt_get (hub_feeds h) fid = Some f0" and f: "f = (if fid \<in> set (ls_feeds q) then feed_detach l f0 else f0)"
      using get by (auto simp: detach_feeds_def set_listener_def detach_get split: if_splits)
    have "l \<notin> set (fd_listeners f)" using other [OF f0] f by (auto simp: feed_detach_sel)
    moreover have "\<forall>x \<in> set (fd_listeners f). x \<in> set (fd_listeners f0)" using f by (auto simp: feed_detach_sel)
    ultimately have "\<forall>x \<in> set (fd_listeners f). \<exists>p. bt_get (hub_listeners ?h) x = Some p \<and> \<not> ls_closed p \<and> fid \<in> set (ls_feeds p)"
      using inv(3) [OF f0] by (auto simp: feed_inv_def detach_feeds_def set_listener_def bt_get_update)
    moreover have "fid \<notin> X \<longrightarrow> (fd_listeners f0 = [] \<longleftrightarrow> fd_stopped f0)" "\<not> fd_stopped f0 \<longrightarrow> fid \<in> M"
      using inv(3) [OF f0] unfolding feed_inv_def by blast+
    then have "fid \<notin> X \<longrightarrow> (fd_listeners f = [] \<longleftrightarrow> fd_stopped f)" "\<not> fd_stopped f \<longrightarrow> fid \<in> M"
      using f by (auto simp: feed_detach_sel)
    moreover have "fid < hub_next ?h" using inv(4) [OF f0] by (simp add: detach_feeds_def set_listener_def)
    ultimately show ?thesis unfolding feed_inv_def by blast
  qed
  show "listener_inv ?h k p \<and> k < hub_next ?h" if get: "bt_get (hub_listeners ?h) k = Some p" for k p
  proof (cases "k = l")
    case True
    then have "p = q'" using get assms(2) by (simp add: detach_feeds_def set_listener_def bt_get_update)
    then show ?thesis
      using assms(2,3) inv(6) True by (simp add: listener_inv_def drops_interest_def detach_feeds_def set_listener_def)
  next
    case False
    then have p: "bt_get (hub_listeners h) k = Some p" using get by (simp add: detach_feeds_def set_listener_def bt_get_update)
    have "\<exists>f. bt_get (hub_feeds ?h) fid = Some f \<and> k \<in> set (fd_listeners f)" if "fid \<in> set (ls_feeds p)" for fid
    proof -
      have "\<exists>f. bt_get (hub_feeds h) fid = Some f \<and> k \<in> set (fd_listeners f)"
        using inv(5) [OF p] that by (simp add: listener_inv_def)
      then obtain f where f: "bt_get (hub_feeds h) fid = Some f" "k \<in> set (fd_listeners f)" by (elim exE conjE)
      show ?thesis
        by (rule exI [of _ "if fid \<in> set (ls_feeds q) then feed_detach l f else f"])
          (use f False in \<open>simp add: detach_feeds_def set_listener_def detach_get feed_detach_sel\<close>)
    qed
    then show ?thesis
      using inv(5,6) [OF p] by (simp add: listener_inv_def) (simp add: detach_feeds_def set_listener_def)
  qed
qed

subsection \<open>Telling listeners\<close>

definition listener_fn :: "(Listener \<Rightarrow> Listener \<times> nat list) \<Rightarrow> bool" where
  "listener_fn f \<longleftrightarrow>
     (\<forall>q. keeps_interest q (fst (f q)) \<and> snd (f q) = [] \<or> drops_interest q (fst (f q)) \<and> snd (f q) = ls_feeds q)"

lemma listener_fn_state: "listener_fn (\<lambda>q. (listener_state key state q, []))"
  by (simp add: listener_fn_def keeps_interest_def listener_state_def Let_def)

lemma listener_fn_next: "listener_fn (\<lambda>q. (fst (listener_next q), []))"
  by (auto simp: listener_fn_def keeps_interest_def listener_next_def split: option.splits list.splits)

lemma listener_fn_finish: "listener_fn (listener_finish terminal)"
  by (simp add: listener_fn_def keeps_interest_def drops_interest_def listener_finish_def)

lemma listener_fn_event: "listener_fn (listener_event pc limit event)"
  by (simp add: listener_fn_def keeps_interest_def drops_interest_def listener_event_def listener_finish_def Let_def)

lemmas listener_fns = listener_fn_state listener_fn_next listener_fn_finish listener_fn_event

lemma detach_none [simp]: "detach_feeds l [] h = h"
  by (simp add: detach_feeds_def)

lemma with_listener_inv:
  assumes "hub_inv X M h" and "listener_fn f"
  shows "hub_inv X M (with_listener f l h)"
proof (cases "bt_get (hub_listeners h) l")
  case (Some q)
  then have "with_listener f l h = detach_feeds l (snd (f q)) (set_listener l (fst (f q)) h)"
    by (simp add: with_listener_def case_prod_unfold Let_def)
  then show ?thesis
    using set_listener_keeps [OF assms(1) Some] drop_listener_inv [OF assms(1) Some] assms(2)
    unfolding listener_fn_def by (metis detach_none)
qed (simp add: with_listener_def assms)

lemma with_listeners_inv:
  "hub_inv X M h \<Longrightarrow> listener_fn f \<Longrightarrow> hub_inv X M (fold (with_listener f) ls h)"
  by (induction ls arbitrary: h) (simp_all add: with_listener_inv)

lemma notify_state_inv: "hub_inv X M h \<Longrightarrow> hub_inv X M (fold (notify_state f) ls h)"
  by (cases "sel_topics (fd_selection f)")
    (simp_all add: notify_state_def with_listeners_inv listener_fns fold_id [unfolded id_def])

lemma publish_state_inv: "hub_inv X M h \<Longrightarrow> hub_inv X M (publish_state fid h)"
  by (simp add: publish_state_def notify_state_inv split: option.split)

text \<open>A change of a feed that leaves its listeners and its token alone.\<close>

lemma feed_update_inv:
  assumes "hub_inv X M h" and "\<And>f. fd_listeners (g f) = fd_listeners f \<and> fd_stopped (g f) = fd_stopped f"
  shows "hub_inv X M (h\<lparr>hub_feeds := bt_update fid g (hub_feeds h)\<rparr>)" (is "hub_inv X M ?h")
proof (rule hub_invI)
  note inv = hub_invD [OF assms(1)]
  show "bt_inv (hub_feeds ?h)" "bt_inv (hub_listeners ?h)" using inv(1,2) by simp_all
  show "feed_inv X M ?h k f \<and> k < hub_next ?h" if "bt_get (hub_feeds ?h) k = Some f" for k f
    using that inv(3,4) [of k] assms(2) by (auto simp: feed_inv_def bt_get_update split: if_splits)
  show "listener_inv ?h l q \<and> l < hub_next ?h" if "bt_get (hub_listeners ?h) l = Some q" for l q
    using that inv(5,6) [of l q] assms(2) by (fastforce simp: listener_inv_def bt_get_update)
qed

lemma feed_change_inv: "hub_inv X M h \<Longrightarrow> hub_inv X M (feed_change fid change h)"
  by (simp add: feed_change_def publish_state_inv feed_update_inv)

lemma feed_event_inv: "hub_inv X M h \<Longrightarrow> hub_inv X M (feed_event pc limit fid event h)"
  by (simp add: feed_event_def with_listeners_inv listener_fns split: option.split)

lemma feed_item_inv: "hub_inv X M h \<Longrightarrow> hub_inv X M (fst (feed_item pc limit fid item h))"
  by (cases item)
    (simp_all add: set_sequence_def Let_def feed_change_inv feed_event_inv feed_update_inv publish_state_inv
      split: SubscriptionUpdate.split)

lemma feed_resync_inv: "hub_inv X M h \<Longrightarrow> hub_inv X M (feed_resync fid h)"
  by (simp add: feed_resync_def Let_def feed_update_inv publish_state_inv)

subsection \<open>Finishing a feed\<close>

definition feed_listeners :: "Hub \<Rightarrow> nat \<Rightarrow> nat set" where
  "feed_listeners h fid = (case bt_get (hub_feeds h) fid of None \<Rightarrow> {} | Some f \<Rightarrow> set (fd_listeners f))"

text \<open>Finishing a listener removes it from every feed and only removes interest.\<close>

lemma finish_listener_feeds:
  assumes "hub_inv X M h"
  shows "feed_listeners (hub_finish_listener terminal l h) fid \<subseteq> feed_listeners h fid - {l}"
proof (cases "bt_get (hub_listeners h) l")
  case None
  then have "l \<notin> feed_listeners h fid"
    using hub_invD(3) [OF assms] by (fastforce simp: feed_listeners_def feed_inv_def split: option.splits)
  then show ?thesis using None by (simp add: hub_finish_listener_def with_listener_def)
next
  case (Some q)
  have "l \<notin> feed_listeners h fid" if "ls_closed q \<or> fid \<notin> set (ls_feeds q)"
    using hub_invD(3) [OF assms] that Some by (fastforce simp: feed_listeners_def feed_inv_def split: option.splits)
  then show ?thesis
    using Some
    by (auto simp: hub_finish_listener_def with_listener_def listener_finish_def detach_feeds_def set_listener_def
        feed_listeners_def detach_get feed_detach_sel split: option.splits if_splits)
qed

lemma finish_listener_stopped:
  "bt_get (hub_feeds h) fid = Some f \<Longrightarrow>
     \<exists>f'. bt_get (hub_feeds (hub_finish_listener terminal l h)) fid = Some f' \<and> (fd_stopped f \<longrightarrow> fd_stopped f')"
  by (cases "bt_get (hub_listeners h) l")
    (simp_all add: hub_finish_listener_def with_listener_def detach_feeds_def set_listener_def detach_get
      feed_detach_sel case_prod_unfold Let_def)

lemma finish_listeners_none:
  assumes "hub_inv X M h" and "feed_listeners h fid \<subseteq> set ls" and "bt_get (hub_feeds h) fid = Some f" and "fd_stopped f"
  shows "hub_inv X M (fold (hub_finish_listener terminal) ls h)
    \<and> (\<exists>f'. bt_get (hub_feeds (fold (hub_finish_listener terminal) ls h)) fid = Some f' \<and> fd_listeners f' = [] \<and> fd_stopped f')"
  using assms
proof (induction ls arbitrary: h f)
  case Nil
  then show ?case by (simp add: feed_listeners_def)
next
  case (Cons l ls)
  let ?h = "hub_finish_listener terminal l h"
  have "hub_inv X M ?h"
    unfolding hub_finish_listener_def by (rule with_listener_inv [OF Cons.prems(1) listener_fn_finish])
  moreover have "feed_listeners ?h fid \<subseteq> set ls"
    using finish_listener_feeds [OF Cons.prems(1)] Cons.prems(2) by fastforce
  moreover obtain f' where "bt_get (hub_feeds ?h) fid = Some f'" "fd_stopped f'"
    using finish_listener_stopped [OF Cons.prems(3)] Cons.prems(4) by blast
  ultimately show ?case using Cons.IH [of ?h f'] by simp
qed

lemma stop_feed_inv:
  assumes "hub_inv X M h" and "\<And>f. fd_listeners (g f) = fd_listeners f \<and> fd_stopped (g f)"
  shows "hub_inv (insert fid X) M (h\<lparr>hub_feeds := bt_update fid g (hub_feeds h)\<rparr>)" (is "hub_inv _ M ?h")
proof (rule hub_invI)
  note inv = hub_invD [OF assms(1)]
  show "bt_inv (hub_feeds ?h)" "bt_inv (hub_listeners ?h)" using inv(1,2) by simp_all
  show "feed_inv (insert fid X) M ?h k f \<and> k < hub_next ?h" if "bt_get (hub_feeds ?h) k = Some f" for k f
    using that inv(3,4) [of k] assms(2) by (auto simp: feed_inv_def bt_get_update split: if_splits)
  show "listener_inv ?h l q \<and> l < hub_next ?h" if "bt_get (hub_listeners ?h) l = Some q" for l q
    using that inv(5,6) [of l q] assms(2) by (fastforce simp: listener_inv_def bt_get_update)
qed

lemma feed_finish_inv:
  assumes "hub_inv X M h"
  shows "hub_inv X (M - {fid}) (feed_finish fid terminal h)"
proof (cases "bt_get (hub_feeds h) fid")
  case None
  then show ?thesis
    by (auto simp: feed_finish_def intro!: hub_inv_restrict [OF assms] dest: hub_invD(3) [OF assms] simp: feed_inv_def)
next
  case (Some f)
  define g :: "Feed \<Rightarrow> Feed" where "g = (\<lambda>f. f\<lparr>fd_stopped := True, fd_current := feed_state_default, fd_terminal := Some terminal\<rparr>)"
  let ?h = "h\<lparr>hub_feeds := bt_update fid g (hub_feeds h)\<rparr>"
  have "hub_inv (insert fid X) M ?h" by (rule stop_feed_inv [OF assms]) (simp add: g_def)
  moreover have "feed_listeners ?h fid \<subseteq> set (fd_listeners f)"
    using Some by (simp add: feed_listeners_def bt_get_update g_def)
  moreover have "bt_get (hub_feeds ?h) fid = Some (g f)" "fd_stopped (g f)"
    using Some by (simp_all add: bt_get_update g_def)
  ultimately have fin: "hub_inv (insert fid X) M (feed_finish fid terminal h)"
    "\<exists>f'. bt_get (hub_feeds (feed_finish fid terminal h)) fid = Some f' \<and> fd_listeners f' = [] \<and> fd_stopped f'"
    using finish_listeners_none [of "insert fid X" M ?h fid "fd_listeners f" "g f" "Some terminal"] Some
    by (simp_all add: feed_finish_def g_def)
  show ?thesis
    by (rule hub_inv_restrict [OF fin(1)]) (use fin(2) hub_invD(3) [OF fin(1)] in \<open>auto simp: feed_inv_def\<close>)
qed

lemma finish_feeds_inv:
  "hub_inv X M h \<Longrightarrow> hub_inv X (M - set fids) (fold (\<lambda>fid. feed_finish fid terminal) fids h)"
proof (induction fids arbitrary: h M)
  case (Cons fid fids)
  then show ?case
    using Cons.IH [OF feed_finish_inv [OF Cons.prems]] by (simp add: Diff_insert2 [of M fid "set fids"])
qed simp

subsection \<open>Joining a feed\<close>

text \<open>The two ends of one iteration of \<open>subscribe\<close>: the listener was open or had closed.\<close>

lemma joined_inv:
  assumes "hub_inv X M h" and "bt_get (hub_feeds h) fid = Some f" and "\<not> fd_stopped f"
    and "bt_get (hub_listeners h) l = Some q" and "\<not> ls_closed q'" and "ls_feeds q' = ls_feeds q @ [fid]"
  shows "hub_inv (X - {fid}) M
    (set_listener l q' (h\<lparr>hub_feeds := bt_update fid (\<lambda>f. f\<lparr>fd_listeners := fd_listeners f @ [l]\<rparr>) (hub_feeds h)\<rparr>))"
    (is "hub_inv _ M ?h")
proof (rule hub_invI)
  note inv = hub_invD [OF assms(1)]
  show "bt_inv (hub_feeds ?h)" "bt_inv (hub_listeners ?h)" using inv(1,2) by (simp_all add: set_listener_def)
  show "feed_inv (X - {fid}) M ?h k g \<and> k < hub_next ?h" if "bt_get (hub_feeds ?h) k = Some g" for k g
    using that inv(3,4) [of k] assms(2-)
    by (fastforce simp: feed_inv_def set_listener_def bt_get_update split: if_splits)
  show "listener_inv ?h k p \<and> k < hub_next ?h" if "bt_get (hub_listeners ?h) k = Some p" for k p
  proof (cases "k = l")
    case True
    then show ?thesis
      using that inv(5,6) [OF assms(4)] assms(2,4-)
      by (fastforce simp: listener_inv_def set_listener_def bt_get_update split: if_splits)
  next
    case False
    then show ?thesis
      using that inv(5,6) [of k p] by (fastforce simp: listener_inv_def set_listener_def bt_get_update)
  qed
qed

lemma rejected_inv:
  assumes "hub_inv X M h" and "bt_get (hub_feeds h) fid = Some f" and "\<not> fd_stopped f"
    and "bt_get (hub_listeners h) l = Some q" and "ls_closed q"
  shows "hub_inv (X - {fid}) M
    (detach_feeds l [fid] (h\<lparr>hub_feeds := bt_update fid (\<lambda>f. f\<lparr>fd_listeners := fd_listeners f @ [l]\<rparr>) (hub_feeds h)\<rparr>))"
    (is "hub_inv _ M ?h")
proof (rule hub_invI)
  note inv = hub_invD [OF assms(1)]
  have "l \<notin> set (fd_listeners f)" using inv(3) [OF assms(2)] assms(4,5) by (auto simp: feed_inv_def)
  then have same: "filter (\<lambda>x. x \<noteq> l) (fd_listeners f) = fd_listeners f" by (auto intro: filter_True)
  show "bt_inv (hub_feeds ?h)" "bt_inv (hub_listeners ?h)" using inv(1,2) by (simp_all add: detach_feeds_def)
  show "feed_inv (X - {fid}) M ?h k g \<and> k < hub_next ?h" if "bt_get (hub_feeds ?h) k = Some g" for k g
    using that inv(3,4) [of k] assms(2,3) same
    by (auto simp: feed_inv_def detach_feeds_def bt_get_update feed_detach_sel split: if_splits)
  show "listener_inv ?h k p \<and> k < hub_next ?h" if "bt_get (hub_listeners ?h) k = Some p" for k p
  proof -
    have p: "bt_get (hub_listeners h) k = Some p" using that by (simp add: detach_feeds_def)
    have "\<exists>g. bt_get (hub_feeds ?h) n = Some g \<and> k \<in> set (fd_listeners g)" if "n \<in> set (ls_feeds p)" for n
      using inv(5) [OF p] that assms(2) same
      by (cases "n = fid") (auto simp: listener_inv_def detach_feeds_def bt_get_update feed_detach_sel)
    then show ?thesis using inv(5,6) [OF p] by (simp add: listener_inv_def detach_feeds_def)
  qed
qed

lemma set_listener_twice: "set_listener l a (set_listener l b h) = set_listener l a h"
  by (simp add: set_listener_def bt_update_def bt_map_def o_def case_prod_unfold cong: if_cong)

text \<open>Attaching adds the listener and may tell it the current state.\<close>

lemma feed_attach_eq:
  assumes "bt_get (hub_feeds h) fid = Some f" and "\<not> fd_stopped f" and "bt_get (hub_listeners h) l = Some q"
  defines "H \<equiv> h\<lparr>hub_feeds := bt_update fid (\<lambda>f. f\<lparr>fd_listeners := fd_listeners f @ [l]\<rparr>) (hub_feeds h)\<rparr>"
  shows "fst (feed_attach fid l h) = H
    \<or> (\<exists>key state. fst (feed_attach fid l h) = set_listener l (listener_state key state q) H)"
  using assms
  by (cases "sel_topics (fd_selection f)")
    (auto simp: feed_attach_def notify_state_def with_listener_def Let_def)

lemma attach_register_inv:
  assumes "hub_inv X M h" and "bt_get (hub_feeds h) fid = Some f" and "\<not> fd_stopped f"
    and "bt_get (hub_listeners h) l = Some q"
  shows "\<exists>q1. bt_get (hub_listeners (fst (feed_attach fid l h))) l = Some q1
    \<and> (\<not> ls_closed q1 \<longrightarrow> hub_inv (X - {fid}) M (set_listener l (q1\<lparr>ls_feeds := ls_feeds q1 @ [fid]\<rparr>) (fst (feed_attach fid l h))))
    \<and> (ls_closed q1 \<longrightarrow> hub_inv (X - {fid}) M (detach_feeds l [fid] (fst (feed_attach fid l h))))"
proof -
  let ?H = "h\<lparr>hub_feeds := bt_update fid (\<lambda>f. f\<lparr>fd_listeners := fd_listeners f @ [l]\<rparr>) (hub_feeds h)\<rparr>"
  have get: "bt_get (hub_listeners (set_listener l p ?H)) l = Some p" for p
    using assms(4) by (simp add: set_listener_def bt_get_update)
  consider (plain) "fst (feed_attach fid l h) = ?H"
    | (told) key state where "fst (feed_attach fid l h) = set_listener l (listener_state key state q) ?H"
    using feed_attach_eq [OF assms(2-4)] by blast
  then show ?thesis
  proof cases
    case plain
    then show ?thesis
      using joined_inv [OF assms] rejected_inv [OF assms] assms(4) by simp
  next
    case told
    have interest: "keeps_interest q (listener_state key state q)" "ls_closed q \<Longrightarrow> listener_state key state q = q"
      by (simp_all add: keeps_interest_def listener_state_def Let_def)
    have "detach_feeds l [fid] (set_listener l p ?H) = set_listener l p (detach_feeds l [fid] ?H)" for p
      by (simp add: detach_feeds_def set_listener_def)
    moreover have "bt_get (hub_listeners (detach_feeds l [fid] ?H)) l = Some q"
      using assms(4) by (simp add: detach_feeds_def)
    then have "hub_inv (X - {fid}) M (set_listener l q (detach_feeds l [fid] ?H))" if "ls_closed q"
      by (rule set_listener_keeps [OF rejected_inv [OF assms that]]) (simp add: keeps_interest_def)
    moreover have "hub_inv (X - {fid}) M (set_listener l (q1\<lparr>ls_feeds := ls_feeds q1 @ [fid]\<rparr>) ?H)"
      if "\<not> ls_closed q1" "ls_feeds q1 = ls_feeds q" for q1
      by (rule joined_inv [OF assms]) (simp_all add: that)
    ultimately show ?thesis
      unfolding told using interest by (auto simp: get set_listener_twice keeps_interest_def)
  qed
qed

subsection \<open>What every operation leaves alone\<close>

definition same_manager :: "Hub \<Rightarrow> Hub \<Rightarrow> bool" where
  "same_manager h h' \<longleftrightarrow> hub_managed h' = hub_managed h \<and> hub_closed h' = hub_closed h"

lemma same_manager_basic [simp]:
  "same_manager h h"
  "same_manager h (set_listener l q h') = same_manager h h'"
  "same_manager h (detach_feeds l feeds h') = same_manager h h'"
  "same_manager h (h'\<lparr>hub_feeds := m\<rparr>) = same_manager h h'"
  "same_manager h (with_listener f l h') = same_manager h h'"
  "same_manager h (notify_state g l h') = same_manager h h'"
  by (simp_all add: same_manager_def set_listener_def detach_feeds_def with_listener_def notify_state_def Let_def
      split: option.split list.split prod.split)

lemma same_manager_fold:
  "(\<And>x h'. same_manager h (g x h') = same_manager h h') \<Longrightarrow> same_manager h (fold g xs h') = same_manager h h'"
  by (induction xs arbitrary: h') simp_all

lemma same_manager_ops [simp]:
  "same_manager h (publish_state fid h') = same_manager h h'"
  "same_manager h (feed_event pc limit fid event h') = same_manager h h'"
  "same_manager h (hub_finish_listener terminal l h') = same_manager h h'"
  by (simp_all add: publish_state_def feed_event_def hub_finish_listener_def same_manager_fold split: option.split)

lemma same_manager_feed [simp]:
  "same_manager h (feed_change fid change h') = same_manager h h'"
  "same_manager h (feed_resync fid h') = same_manager h h'"
  "same_manager h (feed_finish fid t h') = same_manager h h'"
  "same_manager h (fst (feed_attach fid l h')) = same_manager h h'"
  "same_manager h (set_sequence fid n h') = same_manager h h'"
  by (simp_all add: feed_change_def feed_resync_def feed_finish_def feed_attach_def set_sequence_def same_manager_fold Let_def
      split: option.split)

lemma same_manager_item: "same_manager h (fst (feed_item pc limit fid item h))"
  by (cases item) (simp_all add: Let_def split: SubscriptionUpdate.split)

lemma hub_wf_keep:
  assumes "hub_wf h" and "same_manager h h'" and "hub_inv {} (set (hub_managed h)) h \<Longrightarrow> hub_inv {} (set (hub_managed h)) h'"
  shows "hub_wf h'"
  using assms by (simp add: hub_wf_def same_manager_def)

subsection \<open>Subscribing and closing\<close>

lemma add_feed_inv:
  assumes "hub_inv X M h"
  shows "hub_inv (insert (hub_next h) X) (insert (hub_next h) M) (fst (add_feed selection h))" (is "hub_inv ?X ?M ?h")
proof (rule hub_invI)
  note inv = hub_invD [OF assms]
  show "bt_inv (hub_feeds ?h)" "bt_inv (hub_listeners ?h)" using inv(1,2) by (simp_all add: add_feed_def bt_inv_insert)
  show "feed_inv ?X ?M ?h fid f \<and> fid < hub_next ?h" if "bt_get (hub_feeds ?h) fid = Some f" for fid f
    using that inv(3,4) [of fid f] by (auto simp: add_feed_def bt_get_insert feed_inv_def feed_new_def split: if_splits)
  have fresh: "bt_get (hub_feeds h) (hub_next h) = None" using inv(4) [of "hub_next h"] by (cases "bt_get (hub_feeds h) (hub_next h)") auto
  show "listener_inv ?h l q \<and> l < hub_next ?h" if "bt_get (hub_listeners ?h) l = Some q" for l q
    using that inv(5,6) [of l q] fresh by (fastforce simp: add_feed_def listener_inv_def bt_get_insert)
qed

lemma add_listener_inv:
  assumes "hub_inv X M h"
  shows "hub_inv X M (fst (add_listener receive_events h))" (is "hub_inv X M ?h")
proof (rule hub_invI)
  note inv = hub_invD [OF assms]
  show "bt_inv (hub_feeds ?h)" "bt_inv (hub_listeners ?h)" using inv(1,2) by (simp_all add: add_listener_def bt_inv_insert)
  have fresh: "bt_get (hub_listeners h) (hub_next h) = None" using inv(6) [of "hub_next h"] by (cases "bt_get (hub_listeners h) (hub_next h)") auto
  show "feed_inv X M ?h fid f \<and> fid < hub_next ?h" if "bt_get (hub_feeds ?h) fid = Some f" for fid f
    using that inv(3,4) [of fid f] fresh by (fastforce simp: add_listener_def bt_get_insert feed_inv_def)
  show "listener_inv ?h l q \<and> l < hub_next ?h" if "bt_get (hub_listeners ?h) l = Some q" for l q
    using that inv(5,6) [of l q] by (auto simp: add_listener_def listener_inv_def bt_get_insert listener_new_def split: if_splits)
qed

text \<open>The end of one iteration, with the feed it selected and whether that feed is new.\<close>

lemma join_end_wf:
  assumes "hub_inv X (insert fid (set (hub_managed h))) h" and "X \<subseteq> {fid}"
    and "bt_get (hub_feeds h) fid = Some f" and "\<not> fd_stopped f" and "bt_get (hub_listeners h) l = Some q"
    and "\<not> hub_closed h" and "start \<and> fd_listeners f = [] \<or> fid \<in> set (hub_managed h)"
  defines "h1 \<equiv> fst (feed_attach fid l h)"
  shows "hub_wf (fst (case bt_get (hub_listeners h1) l of
       None \<Rightarrow> (h1, Err Closed_client)
     | Some q \<Rightarrow>
       (case listener_register fid q of
          (q', True) \<Rightarrow>
            (let h2 = set_listener l q' h1
             in (if start then h2\<lparr>hub_managed := hub_managed h2 @ [fid]\<rparr> else h2, Ok (fid, start)))
        | (q', False) \<Rightarrow> (detach_feeds l [fid] h1, e q))))"
proof -
  have man: "same_manager h h1" by (simp add: h1_def)
  obtain q1 where q1: "bt_get (hub_listeners h1) l = Some q1"
    and opened: "\<not> ls_closed q1 \<Longrightarrow> hub_inv {} (insert fid (set (hub_managed h))) (set_listener l (q1\<lparr>ls_feeds := ls_feeds q1 @ [fid]\<rparr>) h1)"
    and refused: "ls_closed q1 \<Longrightarrow> hub_inv {} (insert fid (set (hub_managed h))) (detach_feeds l [fid] h1)"
    using attach_register_inv [OF assms(1,3-5)] assms(2) unfolding h1_def by (metis Diff_eq_empty_iff)
  show ?thesis
  proof (cases "ls_closed q1")
    case True
    have "fid' \<in> set (hub_managed h)"
      if "bt_get (hub_feeds (detach_feeds l [fid] h1)) fid' = Some g" "\<not> fd_stopped g" for fid' g
    proof (cases "fid' = fid")
      case True
      have "hub_feeds h1 = bt_update fid (\<lambda>f. f\<lparr>fd_listeners := fd_listeners f @ [l]\<rparr>) (hub_feeds h)"
        using feed_attach_eq [OF assms(3-5)] unfolding h1_def by (auto simp: set_listener_def)
      then show ?thesis
        using that True assms(3,7) by (auto simp: detach_feeds_def bt_get_update feed_detach_sel)
    next
      case False
      then show ?thesis using hub_invD(3) [OF refused [OF \<open>ls_closed q1\<close>] that(1)] that(2) by (simp add: feed_inv_def)
    qed
    then have "hub_inv {} (set (hub_managed h)) (detach_feeds l [fid] h1)"
      by (intro hub_inv_restrict [OF refused [OF True]]) auto
    then show ?thesis
      using q1 True man assms(6) by (simp add: listener_register_def hub_wf_def same_manager_def detach_feeds_def)
  next
    case False
    then show ?thesis
      using opened q1 man assms(6,7)
      by (auto simp: listener_register_def hub_wf_def same_manager_def set_listener_def Let_def insert_absorb)
  qed
qed

lemma manager_join_wf:
  assumes "hub_wf h" and "bt_get (hub_listeners h) l = Some q"
  shows "hub_wf (fst (manager_join sessions key l h))"
proof (cases "hub_closed h")
  case False
  let ?sel = "\<lparr>sel_sessions = sessions, sel_topics = [key]\<rparr>"
  define h0 where "h0 = h\<lparr>hub_managed := filter (feed_running h) (hub_managed h)\<rparr>"
  have man: "hub_managed h0 = filter (feed_running h) (hub_managed h)" by (simp add: h0_def)
  have "hub_inv {} (set (hub_managed h)) h" using assms(1) by (simp add: hub_wf_def)
  then have "hub_inv {} (set (filter (feed_running h) (hub_managed h))) h"
    by (rule hub_inv_restrict) (auto simp: feed_running_def dest: hub_inv_running [OF \<open>hub_inv {} (set (hub_managed h)) h\<close>])
  then have inv0: "hub_inv {} (set (hub_managed h0)) h0" by (simp add: h0_def)
  have l0: "bt_get (hub_listeners h0) l = Some q" "\<not> hub_closed h0" using assms(2) False by (simp_all add: h0_def)
  show ?thesis
  proof (cases "existing_feed ?sel h0")
    case (Some fid)
    then obtain f where f: "fid \<in> set (hub_managed h0)" "bt_get (hub_feeds h0) fid = Some f" "\<not> fd_stopped f"
      unfolding existing_feed_def by (auto dest!: find_Some_in_set split: option.splits)
    have "insert fid (set (hub_managed h0)) = set (hub_managed h0)" using f(1) by auto
    then show ?thesis
      using join_end_wf [of "{}" fid h0 f l q False "\<lambda>q. case listener_check_open q of Err e \<Rightarrow> Err e | Ok _ \<Rightarrow> Err Closed_client"]
        inv0 f l0 False Some
      by (simp add: manager_join_def h0_def [symmetric])
  next
    case None
    obtain h' where h': "add_feed ?sel h0 = (h', hub_next h0)" by (simp add: add_feed_def)
    then have "bt_get (hub_feeds h') (hub_next h0) = Some (feed_new ?sel)" "hub_managed h' = hub_managed h0"
      "hub_listeners h' = hub_listeners h0" "hub_closed h' = hub_closed h0"
      by (auto simp: add_feed_def bt_get_insert)
    moreover have "hub_inv {hub_next h0} (insert (hub_next h0) (set (hub_managed h0))) h'"
      using add_feed_inv [OF inv0, of ?sel] h' by simp
    moreover have "\<not> fd_stopped (feed_new ?sel)" "fd_listeners (feed_new ?sel) = []" by (simp_all add: feed_new_def)
    ultimately show ?thesis
      using join_end_wf [of "{hub_next h0}" "hub_next h0" h' "feed_new ?sel" l q True
        "\<lambda>q. case listener_check_open q of Err e \<Rightarrow> Err e | Ok _ \<Rightarrow> Err Closed_client"] l0 False None h'
      by (simp add: manager_join_def h0_def [symmetric])
  qed
qed (simp add: manager_join_def assms)

lemma manager_close_wf:
  assumes "hub_wf h"
  shows "hub_wf (manager_close h)"
proof -
  let ?h = "h\<lparr>hub_closed := True, hub_managed := []\<rparr>"
  have "hub_inv {} (set (hub_managed h)) ?h"
    using assms by (simp add: hub_wf_def)
  then have "hub_inv {} {} (manager_close h)"
    using finish_feeds_inv [of "{}" "set (hub_managed h)" ?h "hub_managed h" "Err Closed_client"]
    by (simp add: manager_close_def)
  moreover have "same_manager ?h (manager_close h)"
    by (simp add: manager_close_def same_manager_fold)
  ultimately show ?thesis by (simp add: hub_wf_def same_manager_def)
qed

lemma feed_run_ends_wf:
  assumes "hub_wf h"
  shows "hub_wf (feed_run_ends fid result h)"
proof -
  have "hub_wf (feed_finish fid t h)" for t
    by (rule hub_wf_keep [OF assms]) (auto intro: hub_inv_mono [OF feed_finish_inv])
  then show ?thesis using assms by (simp add: feed_run_ends_def split: option.split)
qed

subsection \<open>Every interleaving\<close>

text \<open>
  The steps of one client: applications open, poll and close subscriptions, subscriptions join
  feeds, feed tasks handle items, start over or end, and the client closes. A task of a stopped
  feed may still handle an item it had received.
\<close>

inductive hub_step :: "postcard \<Rightarrow> usize \<Rightarrow> Hub \<Rightarrow> Hub \<Rightarrow> bool" for pc :: postcard and limit :: usize where
  hub_open: "hub_step pc limit h (fst (add_listener receive_events h))"
| hub_join: "bt_get (hub_listeners h) l = Some q \<Longrightarrow> hub_step pc limit h (fst (manager_join sessions key l h))"
| hub_next: "hub_step pc limit h (with_listener (\<lambda>q. (fst (listener_next q), [])) l h)"
| hub_leave: "hub_step pc limit h (hub_finish_listener None l h)"
| hub_item: "hub_step pc limit h (fst (feed_item pc limit fid item h))"
| hub_resync: "hub_step pc limit h (feed_resync fid h)"
| hub_ends: "hub_step pc limit h (feed_run_ends fid result h)"
| hub_close: "hub_step pc limit h (manager_close h)"

lemma hub_step_wf:
  assumes "hub_wf h" and "hub_step pc limit h h'"
  shows "hub_wf h'"
  using assms(2)
proof cases
  case (hub_open e)
  then show ?thesis
    using hub_wf_keep [OF assms(1), of h'] add_listener_inv by (simp add: add_listener_def same_manager_def)
next
  case (hub_next l)
  then show ?thesis using hub_wf_keep [OF assms(1), of h'] by (simp add: with_listener_inv listener_fns)
next
  case (hub_leave l)
  then show ?thesis
    using hub_wf_keep [OF assms(1), of h'] by (simp add: hub_finish_listener_def with_listener_inv listener_fns)
next
  case (hub_item fid item)
  then show ?thesis using hub_wf_keep [OF assms(1), of h'] by (simp add: same_manager_item feed_item_inv)
next
  case (hub_resync fid)
  then show ?thesis using hub_wf_keep [OF assms(1), of h'] by (simp add: feed_resync_inv)
qed (simp_all add: assms(1) manager_join_wf feed_run_ends_wf manager_close_wf)

interpretation hub: safe_system "\<lambda>h. h = hub_new" "hub_step pc limit" hub_wf for pc limit
proof
  show "hub_wf h" if "h = hub_new" for h
    using that by (simp add: hub_wf_def hub_inv_def hub_new_def)
qed (rule hub_step_wf)

definition listener_open_on :: "Hub \<Rightarrow> nat \<Rightarrow> nat \<Rightarrow> bool" where
  "listener_open_on h fid l \<longleftrightarrow>
     (case bt_get (hub_listeners h) l of None \<Rightarrow> False | Some q \<Rightarrow> \<not> ls_closed q \<and> fid \<in> set (ls_feeds q))"

text \<open>
  C19: under every interleaving, a shared feed runs exactly while some listener is interested in
  it: a running feed has a listener, every listener it tells is open and lists the feed, every
  feed an open subscription lists runs (no subscription waits on a dead stream), and no feed
  runs once the client is closed.
\<close>

theorem hub_no_leak:
  assumes "reach (\<lambda>h. h = hub_new) (hub_step pc limit) h"
  shows "(feed_running h fid \<longrightarrow> (\<exists>l. l \<in> feed_listeners h fid) \<and> \<not> hub_closed h)
    \<and> (l \<in> feed_listeners h fid \<longleftrightarrow> listener_open_on h fid l)
    \<and> (listener_open_on h fid l \<longrightarrow> feed_running h fid)"
proof -
  have "hub_wf h" by (rule hub.reach_good [OF assms])
  then have inv: "hub_inv {} (set (hub_managed h)) h" and closed: "hub_closed h \<Longrightarrow> hub_managed h = []"
    by (simp_all add: hub_wf_def)
  have run: "(\<exists>l. l \<in> feed_listeners h fid) \<longleftrightarrow> feed_running h fid"
    using hub_invD(3) [OF inv, of fid]
    by (cases "bt_get (hub_feeds h) fid") (auto simp: feed_running_def feed_listeners_def feed_inv_def ex_in_conv)
  moreover have "l \<in> feed_listeners h fid \<longleftrightarrow> listener_open_on h fid l"
    using hub_invD(3) [OF inv, of fid] hub_invD(5) [OF inv, of l]
    by (cases "bt_get (hub_feeds h) fid"; cases "bt_get (hub_listeners h) l")
      (fastforce simp: feed_listeners_def listener_open_on_def feed_inv_def listener_inv_def)+
  moreover have "\<not> hub_closed h" if "feed_running h fid"
    using that hub_inv_running [OF inv, of fid] closed by (auto simp: feed_running_def split: option.splits)
  ultimately show ?thesis by blast
qed

abbreviation hub_topic :: TopicRef where "hub_topic \<equiv> TopicRef ''p'' ''t'' 1"

definition demo_joined :: Hub where
  "demo_joined = fst (manager_join All_sessions hub_topic 0 (fst (add_listener True hub_new)))"

lemma demo_joined_eq:
  "demo_joined =
     \<lparr>hub_feeds = [(1, (feed_new \<lparr>sel_sessions = All_sessions, sel_topics = [hub_topic]\<rparr>)\<lparr>fd_listeners := [0]\<rparr>)],
      hub_listeners = [(0, (listener_new True)\<lparr>ls_feeds := [1]\<rparr>)], hub_managed = [1], hub_next = 2, hub_closed = False\<rparr>"
  by (simp add: demo_joined_def manager_join_def add_listener_def hub_new_def existing_feed_def add_feed_def feed_attach_def
      feed_new_def listener_new_def listener_register_def set_listener_def bt_update_def bt_map_def Let_def)

lemma demo_joined_reachable: "reach (\<lambda>h. h = hub_new) (hub_step pc limit) demo_joined"
proof -
  have "reach (\<lambda>h. h = hub_new) (hub_step pc limit) (fst (add_listener True hub_new))"
    by (rule reach_step [of _ _ hub_new]) (simp_all add: reach_init hub_open)
  moreover have "bt_get (hub_listeners (fst (add_listener True hub_new))) 0 = Some (listener_new True)"
    by (simp add: add_listener_def hub_new_def)
  ultimately show ?thesis
    unfolding demo_joined_def by (rule reach_step [of _ "hub_step pc limit", OF _ hub_join])
qed

text \<open>A subscription that reads, and leaves: its feed stops with it.\<close>

theorem hub_no_leak_witness:
  "feed_running demo_joined 1 \<and> feed_listeners demo_joined 1 = {0} \<and> listener_open_on demo_joined 1 0
   \<and> \<not> listener_open_on (hub_finish_listener None 0 demo_joined) 1 0 \<and> \<not> feed_running (hub_finish_listener None 0 demo_joined) 1"
proof -
  let ?left = "hub_finish_listener None 0 demo_joined"
  have joined: "feed_listeners demo_joined 1 = {0}"
    by (simp add: feed_listeners_def demo_joined_eq)
  have "feed_listeners ?left 1 = {}"
    by (simp add: hub_finish_listener_def with_listener_def listener_finish_def demo_joined_eq feed_listeners_def listener_new_def
        detach_feeds_def set_listener_def bt_update_def bt_map_def feed_detach_def)
  moreover have "reach (\<lambda>h. h = hub_new) (hub_step unit_sizes 50) ?left"
    by (rule reach_step [of _ "hub_step unit_sizes 50", OF demo_joined_reachable hub_leave])
  ultimately have "\<not> feed_running ?left 1 \<and> \<not> listener_open_on ?left 1 0"
    using hub_no_leak [of unit_sizes 50 ?left 1 0] by blast
  moreover have "feed_running demo_joined 1 \<and> listener_open_on demo_joined 1 0"
    using hub_no_leak [OF demo_joined_reachable [of unit_sizes 50], of 1 0] joined by blast
  ultimately show ?thesis using joined by blast
qed

end
