(* ===== verification/Host_Lifecycle.thy ===== *)
theory Host_Lifecycle
  imports Host_Status Prelude
begin

section \<open>Discovery and attachment\<close>

text \<open>
  \<open>crates/wf-observer-cli/src/lifecycle/worker.rs\<close>: the worker enumerates processes when due and
  attaches to each at most once per round. Everything outside it is a parameter: \<open>world\<close> has the
  operations of the trait \<open>Backend\<close>, the stop channel, the clock, the generator of session
  identifiers, the publication of a status and the poll of an attachment, over a state \<open>'b\<close> of
  their own, so each may answer differently every time. \<open>'c\<close> are candidates and \<open>'a\<close> attachments.
\<close>

record ('b, 'c, 'a) world =
  wo_stopping :: "'b \<Rightarrow> 'b \<times> bool"
  wo_now :: "'b \<Rightarrow> 'b \<times> instant"
  wo_session_id :: "'b \<Rightarrow> 'b \<times> string option"
  wo_publish :: "HostStatus \<Rightarrow> 'b \<Rightarrow> 'b \<times> string option"
  wo_discover :: "'b \<Rightarrow> 'b \<times> ('c list, string) result"
  wo_target :: "'c \<Rightarrow> TargetInfo"
  wo_attach :: "'c \<Rightarrow> 'b \<Rightarrow> 'b \<times> ('a, string) result"
  wo_is_current :: "'a \<Rightarrow> 'b \<Rightarrow> 'b \<times> bool"
  wo_poll :: "'a \<Rightarrow> string \<Rightarrow> 'b \<Rightarrow> 'b \<times> 'a \<times> (duration option, string) result"

definition DISCOVERY_INTERVAL :: duration where
  "DISCOVERY_INTERVAL = 1000000000"

definition RETRY_INTERVAL :: duration where
  "RETRY_INTERVAL = 5000000000"

record 'a TrackedTarget =
  tt_status :: HostTarget
  tt_attachment :: "'a option"
  tt_retry_at :: "instant option"

record 'a Lifecycle =
  lc_targets :: "(RecordedProcess, 'a TrackedTarget) btree"
  lc_discovery_error :: "string option"
  lc_next_discovery :: "instant option"

definition lifecycle_new :: "'a Lifecycle" where
  "lifecycle_new = \<lparr>lc_targets = [], lc_discovery_error = None, lc_next_discovery = None\<rparr>"

definition lifecycle_status :: "'a Lifecycle \<Rightarrow> HostStatus" where
  "lifecycle_status l = \<lparr>hs_discovery_error = lc_discovery_error l, hs_targets = map tt_status (bt_values (lc_targets l))\<rparr>"

definition tracked_retry :: "string \<Rightarrow> instant \<Rightarrow> 'a TrackedTarget \<Rightarrow> 'a TrackedTarget" where
  "tracked_retry error now t =
     t\<lparr>tt_attachment := None, tt_status := (tt_status t)\<lparr>ht_activity := Retrying error\<rparr>, tt_retry_at := Some (now + RETRY_INTERVAL)\<rparr>"

subsection \<open>Actions\<close>

text \<open>An action goes on, stops (\<open>Ok(None)\<close>) or fails with an error.\<close>

datatype 'x flow = Go 'x | Stop | Fail string

type_synonym ('b, 'a, 'x) action = "'b \<times> 'a Lifecycle \<Rightarrow> ('b \<times> 'a Lifecycle) \<times> 'x flow"

definition seq :: "('b, 'a, 'x) action \<Rightarrow> ('x \<Rightarrow> ('b, 'a, 'y) action) \<Rightarrow> ('b, 'a, 'y) action" where
  "seq m f s = (case m s of (s', Go x) \<Rightarrow> f x s' | (s', Stop) \<Rightarrow> (s', Stop) | (s', Fail e) \<Rightarrow> (s', Fail e))"

definition go :: "'x \<Rightarrow> ('b, 'a, 'x) action" where
  "go x s = (s, Go x)"

definition asks :: "('b \<Rightarrow> 'b \<times> 'x) \<Rightarrow> ('b, 'a, 'x) action" where
  "asks f = (\<lambda>(b, l). case f b of (b', x) \<Rightarrow> ((b', l), Go x))"

definition changes :: "('a Lifecycle \<Rightarrow> 'a Lifecycle) \<Rightarrow> ('b, 'a, unit) action" where
  "changes f = (\<lambda>(b, l). ((b, f l), Go ()))"

definition reads :: "('a Lifecycle \<Rightarrow> 'x) \<Rightarrow> ('b, 'a, 'x) action" where
  "reads f = (\<lambda>(b, l). ((b, l), Go (f l)))"

fun each :: "('x \<Rightarrow> ('b, 'a, unit) action) \<Rightarrow> 'x list \<Rightarrow> ('b, 'a, unit) action" where
  "each f [] = go ()"
| "each f (x # xs) = seq (f x) (\<lambda>_. each f xs)"

definition check_stop :: "('b, 'c, 'a) world \<Rightarrow> ('b, 'a, unit) action" where
  "check_stop w = seq (asks (wo_stopping w)) (\<lambda>stop s. if stop then (s, Stop) else (s, Go ()))"

definition publish_status :: "('b, 'c, 'a) world \<Rightarrow> ('b, 'a, unit) action" where
  "publish_status w =
     seq (reads lifecycle_status) (\<lambda>status.
     seq (asks (wo_publish w status)) (\<lambda>refused s. case refused of None \<Rightarrow> (s, Go ()) | Some e \<Rightarrow> (s, Fail e)))"

subsection \<open>One round\<close>

definition set_target :: "RecordedProcess \<Rightarrow> 'a TrackedTarget \<Rightarrow> ('b, 'a, unit) action" where
  "set_target process t = changes (\<lambda>l. l\<lparr>lc_targets := bt_insert process t (lc_targets l)\<rparr>)"

text \<open>\<open>targets.retain\<close> on whether the attachment is still current, entry by entry in key order.\<close>

fun retain_entries ::
  "('b, 'c, 'a) world \<Rightarrow> (RecordedProcess, 'a TrackedTarget) btree \<Rightarrow> 'b \<Rightarrow> 'b \<times> (RecordedProcess, 'a TrackedTarget) btree" where
  "retain_entries w [] b = (b, [])"
| "retain_entries w ((process, t) # rest) b =
     (case (case tt_attachment t of None \<Rightarrow> (b, True) | Some a \<Rightarrow> wo_is_current w a b) of
        (b', keep) \<Rightarrow>
          (case retain_entries w rest b' of
             (b'', kept) \<Rightarrow> (b'', if keep then (process, t) # kept else kept)))"

definition retain_current :: "('b, 'c, 'a) world \<Rightarrow> ('b, 'a, unit) action" where
  "retain_current w = (\<lambda>(b, l). case retain_entries w (lc_targets l) b of (b', ts) \<Rightarrow> ((b', l\<lparr>lc_targets := ts\<rparr>), Go ()))"

definition attach_target ::
  "('b, 'c, 'a) world \<Rightarrow> 'c \<Rightarrow> 'b \<Rightarrow> 'b \<times> ('a \<times> Activity, string) result" where
  "attach_target w candidate b =
     (case wo_attach w candidate b of
        (b1, Err e) \<Rightarrow> (b1, Err e)
      | (b1, Ok attachment) \<Rightarrow>
        (case wo_is_current w attachment b1 of
           (b2, False) \<Rightarrow> (b2, Err ''target exited during attachment'')
         | (b2, True) \<Rightarrow>
           (case wo_session_id w b2 of
              (b3, None) \<Rightarrow> (b3, Err ''failed to generate a session ID'')
            | (b3, Some session_id) \<Rightarrow> (b3, Ok (attachment, Observing session_id)))))"

text \<open>Whether a candidate is left alone this round: it is attached, or its retry is not due.\<close>

definition not_eligible :: "('b, 'c, 'a) world \<Rightarrow> RecordedProcess \<Rightarrow> ('b, 'a, bool) action" where
  "not_eligible w process =
     seq (reads (\<lambda>l. bt_get (lc_targets l) process)) (\<lambda>target.
       case target of
         None \<Rightarrow> go False
       | Some t \<Rightarrow>
         (if tt_attachment t \<noteq> None then go True
          else (case tt_retry_at t of
              None \<Rightarrow> go False
            | Some deadline \<Rightarrow> seq (asks (wo_now w)) (\<lambda>now. go (now < deadline)))))"

definition attach_candidate :: "('b, 'c, 'a) world \<Rightarrow> RecordedProcess \<times> 'c \<Rightarrow> ('b, 'a, unit) action" where
  "attach_candidate w = (\<lambda>(process, candidate).
     seq (check_stop w) (\<lambda>_.
     seq (not_eligible w process) (\<lambda>skip.
     if skip then go ()
     else (let target = wo_target w candidate
       in seq (set_target process \<lparr>tt_status = \<lparr>ht_target = target, ht_activity = Attaching\<rparr>, tt_attachment = None, tt_retry_at = None\<rparr>) (\<lambda>_.
          seq (publish_status w) (\<lambda>_.
          seq (check_stop w) (\<lambda>_.
          seq (asks (attach_target w candidate)) (\<lambda>attached.
          seq (check_stop w) (\<lambda>_.
          seq (case attached of
                 Ok (attachment, activity) \<Rightarrow>
                   go \<lparr>tt_status = \<lparr>ht_target = target, ht_activity = activity\<rparr>, tt_attachment = Some attachment, tt_retry_at = None\<rparr>
               | Err error \<Rightarrow>
                   seq (asks (wo_now w)) (\<lambda>now.
                   go \<lparr>tt_status = \<lparr>ht_target = target, ht_activity = Retrying error\<rparr>, tt_attachment = None,
                       tt_retry_at = Some (now + RETRY_INTERVAL)\<rparr>)) (\<lambda>tracked.
          seq (set_target process tracked) (\<lambda>_.
          publish_status w)))))))))))"

definition discover_round :: "('b, 'c, 'a) world \<Rightarrow> ('b, 'a, unit) action" where
  "discover_round w =
     seq (asks (wo_discover w)) (\<lambda>discovered.
     seq (check_stop w) (\<lambda>_.
     seq (asks (wo_now w)) (\<lambda>now.
     case discovered of
       Err error \<Rightarrow>
         seq (changes (\<lambda>l. l\<lparr>lc_discovery_error := Some error, lc_next_discovery := Some (now + RETRY_INTERVAL)\<rparr>)) (\<lambda>_.
         publish_status w)
     | Ok found \<Rightarrow>
         (let candidates = bt_collect (map (\<lambda>c. (ti_process (wo_target w c), c)) found)
          in seq (changes (\<lambda>l. l\<lparr>lc_discovery_error := None, lc_next_discovery := Some (now + DISCOVERY_INTERVAL),
                lc_targets := bt_retain (\<lambda>process t. tt_attachment t \<noteq> None \<or> bt_contains candidates process) (lc_targets l)\<rparr>)) (\<lambda>_.
             seq (publish_status w) (\<lambda>_.
             each (attach_candidate w) candidates))))))"

definition discovery_pending :: "('b, 'c, 'a) world \<Rightarrow> ('b, 'a, bool) action" where
  "discovery_pending w =
     seq (reads lc_next_discovery) (\<lambda>deadline.
       case deadline of None \<Rightarrow> go False | Some t \<Rightarrow> seq (asks (wo_now w)) (\<lambda>now. go (now < t)))"

text \<open>\<open>step\<close>; the delay it returns is always \<open>DISCOVERY_INTERVAL\<close>.\<close>

definition lifecycle_step :: "('b, 'c, 'a) world \<Rightarrow> ('b, 'a, duration) action" where
  "lifecycle_step w =
     seq (check_stop w) (\<lambda>_.
     seq (retain_current w) (\<lambda>_.
     seq (publish_status w) (\<lambda>_.
     seq (check_stop w) (\<lambda>_.
     seq (discovery_pending w) (\<lambda>pending.
     seq (if pending then go () else discover_round w) (\<lambda>_.
     go DISCOVERY_INTERVAL))))))"

text \<open>One round of \<open>run\<close>: the step, then a poll of every observed target.\<close>

definition poll_target :: "('b, 'c, 'a) world \<Rightarrow> RecordedProcess \<Rightarrow> duration \<times> bool \<Rightarrow> ('b, 'a, duration \<times> bool) action" where
  "poll_target w process = (\<lambda>(delay, retired).
     seq (check_stop w) (\<lambda>_.
     seq (reads (\<lambda>l. bt_get (lc_targets l) process)) (\<lambda>target.
       case target of
         Some t \<Rightarrow>
           (case (tt_attachment t, ht_activity (tt_status t)) of
              (Some attachment, Observing session_id) \<Rightarrow>
                seq (asks (wo_poll w attachment session_id)) (\<lambda>(attachment', result).
                seq (set_target process (t\<lparr>tt_attachment := Some attachment'\<rparr>)) (\<lambda>_.
                case result of
                  Ok (Some poll_delay) \<Rightarrow> go (min delay poll_delay, retired)
                | Ok None \<Rightarrow> go (delay, retired)
                | Err error \<Rightarrow>
                    seq (asks (wo_now w)) (\<lambda>now.
                    seq (set_target process (tracked_retry error now t)) (\<lambda>_.
                    go (delay, True)))))
            | _ \<Rightarrow> go (delay, retired))
       | None \<Rightarrow> go (delay, retired))))"

fun poll_targets :: "('b, 'c, 'a) world \<Rightarrow> RecordedProcess list \<Rightarrow> duration \<times> bool \<Rightarrow> ('b, 'a, duration \<times> bool) action" where
  "poll_targets w [] acc = go acc"
| "poll_targets w (process # rest) acc = seq (poll_target w process acc) (poll_targets w rest)"

definition run_round :: "('b, 'c, 'a) world \<Rightarrow> ('b, 'a, duration) action" where
  "run_round w =
     seq (lifecycle_step w) (\<lambda>delay.
     seq (reads (\<lambda>l. bt_keys (lc_targets l))) (\<lambda>processes.
     seq (poll_targets w processes (delay, False)) (\<lambda>(delay', retired).
     seq (if retired then publish_status w else go ()) (\<lambda>_.
     go delay'))))"

subsection \<open>Invariants of actions\<close>

definition keeps :: "('b \<times> 'a Lifecycle \<Rightarrow> bool) \<Rightarrow> ('b, 'a, 'x) action \<Rightarrow> bool" where
  "keeps P m \<longleftrightarrow> (\<forall>s. P s \<longrightarrow> P (fst (m s)))"

named_theorems keeps_intros \<open>rules that split an invariant of a composed action\<close>

lemma keepsI: "(\<And>s. P s \<Longrightarrow> P (fst (m s))) \<Longrightarrow> keeps P m"
  by (simp add: keeps_def)

lemma keeps_seq_on:
  assumes "keeps P m" and "\<And>s s' x. m s = (s', Go x) \<Longrightarrow> keeps P (f x)"
  shows "keeps P (seq m f)"
proof (rule keepsI)
  show "P (fst (seq m f s))" if "P s" for s
  proof -
    obtain s' r where m: "m s = (s', r)" by (cases "m s")
    then have "P s'" using assms(1) that unfolding keeps_def by (metis fst_conv)
    moreover have "P (fst (f x s'))" if "r = Go x" for x using assms(2) [of s s' x] m that \<open>P s'\<close> unfolding keeps_def by blast
    ultimately show ?thesis using m by (cases r) (simp_all add: seq_def)
  qed
qed

lemma keeps_seq [keeps_intros]: "keeps P m \<Longrightarrow> (\<And>x. keeps P (f x)) \<Longrightarrow> keeps P (seq m f)"
  by (rule keeps_seq_on)

lemma keeps_go [keeps_intros]: "keeps P (go x)"
  by (simp add: keeps_def go_def)

lemma keeps_reads [keeps_intros]: "keeps P (reads f)"
  by (auto simp: keeps_def reads_def)

lemma keeps_each [keeps_intros]: "(\<And>x. x \<in> set xs \<Longrightarrow> keeps P (f x)) \<Longrightarrow> keeps P (each f xs)"
  by (induction xs) (auto intro: keeps_intros)

subsection \<open>Consistent targets\<close>

definition target_ok :: "RecordedProcess \<Rightarrow> 'a TrackedTarget \<Rightarrow> bool" where
  "target_ok process t \<longleftrightarrow>
     ti_process (ht_target (tt_status t)) = process
     \<and> (case ht_activity (tt_status t) of
          Observing _ \<Rightarrow> tt_attachment t \<noteq> None \<and> tt_retry_at t = None
        | Attaching \<Rightarrow> tt_attachment t = None \<and> tt_retry_at t = None
        | Retrying _ \<Rightarrow> tt_attachment t = None \<and> tt_retry_at t \<noteq> None)"

definition lifecycle_wf :: "'a Lifecycle \<Rightarrow> bool" where
  "lifecycle_wf l \<longleftrightarrow> bt_inv (lc_targets l) \<and> list_all (\<lambda>(process, t). target_ok process t) (lc_targets l)"

text \<open>A world that records what was published and which processes were attached to.\<close>

datatype log_entry = Log_publish HostStatus | Log_attach RecordedProcess

definition recorded :: "('b, 'c, 'a) world \<Rightarrow> ('b \<times> log_entry list, 'c, 'a) world" where
  "recorded w =
     \<lparr>wo_stopping = (\<lambda>(b, log). case wo_stopping w b of (b', x) \<Rightarrow> ((b', log), x)),
      wo_now = (\<lambda>(b, log). case wo_now w b of (b', x) \<Rightarrow> ((b', log), x)),
      wo_session_id = (\<lambda>(b, log). case wo_session_id w b of (b', x) \<Rightarrow> ((b', log), x)),
      wo_publish = (\<lambda>status (b, log). case wo_publish w status b of (b', x) \<Rightarrow> ((b', log @ [Log_publish status]), x)),
      wo_discover = (\<lambda>(b, log). case wo_discover w b of (b', x) \<Rightarrow> ((b', log), x)),
      wo_target = wo_target w,
      wo_attach = (\<lambda>c (b, log). case wo_attach w c b of (b', x) \<Rightarrow> ((b', log @ [Log_attach (ti_process (wo_target w c))]), x)),
      wo_is_current = (\<lambda>a (b, log). case wo_is_current w a b of (b', x) \<Rightarrow> ((b', log), x)),
      wo_poll = (\<lambda>a sid (b, log). case wo_poll w a sid b of (b', x) \<Rightarrow> ((b', log), x))\<rparr>"

fun attempted :: "log_entry \<Rightarrow> RecordedProcess list" where
  "attempted (Log_publish _) = []"
| "attempted (Log_attach process) = [process]"

definition status_ok :: "HostStatus \<Rightarrow> bool" where
  "status_ok status \<longleftrightarrow> sorted_wrt (<) (map (ti_process \<circ> ht_target) (hs_targets status))"

fun entry_ok :: "log_entry \<Rightarrow> bool" where
  "entry_ok (Log_publish status) = status_ok status"
| "entry_ok (Log_attach _) = True"

definition good_run :: "('b \<times> log_entry list) \<times> 'a Lifecycle \<Rightarrow> bool" where
  "good_run s \<longleftrightarrow> lifecycle_wf (snd s) \<and> list_all entry_ok (snd (fst s))"

lemma status_of_wf: "lifecycle_wf l \<Longrightarrow> status_ok (lifecycle_status l)"
proof -
  assume wf: "lifecycle_wf l"
  have "map (\<lambda>x. ti_process (ht_target (tt_status (snd x)))) (lc_targets l) = map fst (lc_targets l)"
    using wf by (auto simp: lifecycle_wf_def list_all_iff target_ok_def)
  moreover have "sorted_wrt (<) (map fst (lc_targets l))" using wf by (simp add: lifecycle_wf_def bt_inv_def)
  ultimately show ?thesis by (simp add: status_ok_def lifecycle_status_def o_def del: map_eq_conv)
qed

lemma keeps_asks:
  assumes "\<And>b log. snd (fst (f (b, log))) = log \<or> (\<exists>process. snd (fst (f (b, log))) = log @ [Log_attach process])"
  shows "keeps good_run (asks f)"
proof (rule keepsI)
  show "good_run (fst (asks f s))" if "good_run s" for s
  proof -
    obtain b log l where s: "s = ((b, log), l)" by (cases s) auto
    show ?thesis
      using that assms [of b log]
      by (cases "f (b, log)") (auto simp: s asks_def good_run_def)
  qed
qed

lemma keeps_changes:
  assumes "\<And>l. lifecycle_wf l \<Longrightarrow> lifecycle_wf (f l)"
  shows "keeps good_run (changes f)"
  using assms by (auto simp: keeps_def changes_def good_run_def)

lemma recorded_asks [keeps_intros]:
  "keeps good_run (asks (wo_stopping (recorded w)))"
  "keeps good_run (asks (wo_now (recorded w)))"
  "keeps good_run (asks (wo_discover (recorded w)))"
  "keeps good_run (asks (wo_poll (recorded w) a sid))"
  by (rule keeps_asks; auto simp: recorded_def split: prod.splits)+

lemma recorded_attach [keeps_intros]: "keeps good_run (asks (attach_target (recorded w) candidate))"
  by (rule keeps_asks) (auto simp: attach_target_def recorded_def split: prod.splits result.splits option.splits bool.splits)

lemma check_stop_keeps [keeps_intros]: "keeps good_run (check_stop (recorded w))"
  unfolding check_stop_def by (rule keeps_seq [OF recorded_asks(1)]) (simp add: keeps_def)

lemma publish_keeps [keeps_intros]: "keeps good_run (publish_status (recorded w))"
proof (rule keepsI)
  show "good_run (fst (publish_status (recorded w) s))" if "good_run s" for s
  proof -
    obtain b log l where s: "s = ((b, log), l)" by (cases s) auto
    then show ?thesis
      using that status_of_wf [of l]
      by (cases "wo_publish w (lifecycle_status l) b"; cases "snd (wo_publish w (lifecycle_status l) b)")
        (simp_all add: publish_status_def seq_def reads_def asks_def recorded_def good_run_def)
  qed
qed

lemma wf_insert: "lifecycle_wf l \<Longrightarrow> target_ok process t \<Longrightarrow> lifecycle_wf (l\<lparr>lc_targets := bt_insert process t (lc_targets l)\<rparr>)"
  by (auto simp: lifecycle_wf_def bt_inv_insert list_all_iff bt.entries_ins)

lemma set_target_keeps: "target_ok process t \<Longrightarrow> keeps good_run (set_target process t)"
  unfolding set_target_def by (rule keeps_changes) (rule wf_insert)

lemma wf_get: "lifecycle_wf l \<Longrightarrow> bt_get (lc_targets l) process = Some t \<Longrightarrow> target_ok process t"
  by (auto simp: lifecycle_wf_def list_all_iff dest: bt_get_member)

lemma retain_entries_log:
  assumes "retain_entries (recorded w) ts (b, log) = ((b', log'), kept)"
  shows "log' = log \<and> set kept \<subseteq> set ts \<and> (bt_inv ts \<longrightarrow> bt_inv kept)"
  using assms
proof (induction ts arbitrary: b log b' log' kept)
  case (Cons pt ts)
  obtain process t where pt: "pt = (process, t)" by (cases pt)
  obtain b1 keep where first: "(case tt_attachment t of None \<Rightarrow> ((b, log), True) | Some a \<Rightarrow> wo_is_current (recorded w) a (b, log)) = ((b1, log), keep)"
    by (cases "tt_attachment t"; cases "wo_is_current w (the (tt_attachment t)) b") (auto simp: recorded_def)
  obtain b2 log2 kept2 where rest: "retain_entries (recorded w) ts (b1, log) = ((b2, log2), kept2)"
    by (metis prod.exhaust)
  note IH = Cons.IH [OF rest]
  have "log' = log2" "kept = (if keep then (process, t) # kept2 else kept2)"
    using Cons.prems by (simp_all add: pt first rest)
  then show ?case using IH by (auto simp: pt)
qed simp

lemma retain_current_keeps [keeps_intros]: "keeps good_run (retain_current (recorded w))"
proof (rule keepsI)
  show "good_run (fst (retain_current (recorded w) s))" if "good_run s" for s
  proof -
    obtain b log l where s: "s = ((b, log), l)" by (cases s) auto
    obtain b' log' kept where r: "retain_entries (recorded w) (lc_targets l) (b, log) = ((b', log'), kept)" by (metis prod.exhaust)
    show ?thesis
      using that retain_entries_log [OF r] r
      by (auto simp: s retain_current_def good_run_def lifecycle_wf_def list_all_iff)
  qed
qed

lemma not_eligible_keeps [keeps_intros]: "keeps good_run (not_eligible (recorded w) process)"
  unfolding not_eligible_def by (intro keeps_intros) (auto split: option.split intro!: keeps_intros)

lemma attach_target_observing:
  "attach_target w candidate b = (b', Ok (attachment, activity)) \<Longrightarrow> \<exists>sid. activity = Observing sid"
  by (auto simp: attach_target_def split: prod.splits result.splits option.splits bool.splits)

lemma attach_candidate_keeps:
  assumes "process = ti_process (wo_target w candidate)"
  shows "keeps good_run (attach_candidate (recorded w) (process, candidate))"
proof -
  have target: "wo_target (recorded w) candidate = wo_target w candidate" by (simp add: recorded_def)
  let ?t = "\<lambda>activity a r. \<lparr>tt_status = \<lparr>ht_target = wo_target w candidate, ht_activity = activity\<rparr>, tt_attachment = a, tt_retry_at = r\<rparr>"
  have tail: "keeps good_run (seq m (\<lambda>tracked. seq (set_target process tracked) (\<lambda>_. publish_status (recorded w))))"
    if "keeps good_run m" "\<And>s s' x. m s = (s', Go x) \<Longrightarrow> target_ok process x" for m :: "(_, _, _) action"
    by (rule keeps_seq_on [OF that(1)]) (intro keeps_intros set_target_keeps that(2))
  have tracked: "keeps good_run (seq (case attached of
        Ok (attachment, activity) \<Rightarrow> go (?t activity (Some attachment) None)
      | Err error \<Rightarrow> seq (asks (wo_now (recorded w))) (\<lambda>now. go (?t (Retrying error) None (Some (now + RETRY_INTERVAL)))))
      (\<lambda>tracked. seq (set_target process tracked) (\<lambda>_. publish_status (recorded w))))"
    if "\<And>a activity. attached = Ok (a, activity) \<Longrightarrow> \<exists>sid. activity = Observing sid" for attached
  proof (rule tail)
    show "keeps good_run (case attached of
        Ok (attachment, activity) \<Rightarrow> go (?t activity (Some attachment) None)
      | Err error \<Rightarrow> seq (asks (wo_now (recorded w))) (\<lambda>now. go (?t (Retrying error) None (Some (now + RETRY_INTERVAL)))))"
      by (auto split: result.splits prod.splits intro!: keeps_intros)
  qed (use that in \<open>auto split: result.splits prod.splits simp: go_def seq_def asks_def target_ok_def assms\<close>)
  have attach: "keeps good_run (seq (asks (attach_target (recorded w) candidate)) (\<lambda>attached. seq (check_stop (recorded w)) (\<lambda>_.
      seq (case attached of
        Ok (attachment, activity) \<Rightarrow> go (?t activity (Some attachment) None)
      | Err error \<Rightarrow> seq (asks (wo_now (recorded w))) (\<lambda>now. go (?t (Retrying error) None (Some (now + RETRY_INTERVAL)))))
      (\<lambda>tracked. seq (set_target process tracked) (\<lambda>_. publish_status (recorded w))))))"
    by (rule keeps_seq_on [OF recorded_attach], rule keeps_seq [OF check_stop_keeps], rule tracked)
      (auto simp: asks_def split: prod.splits dest: attach_target_observing)
  have "target_ok process (?t Attaching None None)" by (simp add: target_ok_def assms)
  note entry = keeps_seq [OF set_target_keeps [OF this] keeps_seq [OF publish_keeps keeps_seq [OF check_stop_keeps attach]]]
  show ?thesis
    unfolding attach_candidate_def case_prod_conv target Let_def
    by (rule keeps_seq [OF check_stop_keeps], rule keeps_seq [OF not_eligible_keeps]) (simp add: keeps_go entry)
qed

lemma collected_process:
  "(process, c) \<in> set (bt_collect (map (\<lambda>c. (ti_process (wo_target w c), c)) found)) \<Longrightarrow> process = ti_process (wo_target w c)"
  by (auto simp: bt_inv_collect bt_get_collect dest!: iffD1 [OF bt_member_get [OF bt_inv_collect]] map_of_SomeD)

lemma wf_error: "lifecycle_wf l \<Longrightarrow> lifecycle_wf (l\<lparr>lc_discovery_error := e, lc_next_discovery := n\<rparr>)"
  by (simp add: lifecycle_wf_def)

lemma wf_retain:
  "lifecycle_wf l \<Longrightarrow> lifecycle_wf (l\<lparr>lc_discovery_error := e, lc_next_discovery := n, lc_targets := bt_retain P (lc_targets l)\<rparr>)"
  using bt_inv_retain [of "lc_targets l" P] by (auto simp: lifecycle_wf_def list_all_iff bt_retain_def)

lemma keeps_reads_then:
  assumes "\<And>l. lifecycle_wf l \<Longrightarrow> keeps good_run (f (g l))"
  shows "keeps good_run (seq (reads g) f)"
proof (rule keepsI)
  show "good_run (fst (seq (reads g) f s))" if "good_run s" for s
    using that assms [of "snd s"] unfolding keeps_def by (cases s) (auto simp: seq_def reads_def good_run_def)
qed

lemma discover_round_keeps [keeps_intros]: "keeps good_run (discover_round (recorded w))"
proof -
  have target: "wo_target (recorded w) = wo_target w" by (simp add: recorded_def)
  have each: "keeps good_run (each (attach_candidate (recorded w)) (bt_collect (map (\<lambda>c. (ti_process (wo_target w c), c)) found)))" for found
    by (rule keeps_each) (auto intro: attach_candidate_keeps dest: collected_process)
  show ?thesis
    unfolding discover_round_def Let_def target
    by (intro keeps_seq recorded_asks check_stop_keeps)
      (auto split: result.split intro!: keeps_intros keeps_changes each wf_retain wf_error)
qed

lemma lifecycle_step_keeps [keeps_intros]: "keeps good_run (lifecycle_step (recorded w))"
  unfolding lifecycle_step_def discovery_pending_def
  by (intro keeps_seq check_stop_keeps retain_current_keeps publish_keeps keeps_reads)
    (auto split: option.split intro!: keeps_intros)

lemma poll_target_keeps [keeps_intros]: "keeps good_run (poll_target (recorded w) process acc)"
proof -
  obtain delay retired where acc: "acc = (delay, retired)" by (cases acc)
  have polled: "keeps good_run (seq (asks (wo_poll (recorded w) attachment sid)) (\<lambda>(attachment', result).
      seq (set_target process (t\<lparr>tt_attachment := Some attachment'\<rparr>)) (\<lambda>_.
        case result of
          Ok (Some poll_delay) \<Rightarrow> go (min delay poll_delay, retired)
        | Ok None \<Rightarrow> go (delay, retired)
        | Err error \<Rightarrow> seq (asks (wo_now (recorded w))) (\<lambda>now. seq (set_target process (tracked_retry error now t)) (\<lambda>_. go (delay, True))))))"
    if "target_ok process t" "tt_attachment t = Some attachment" "ht_activity (tt_status t) = Observing sid" for t attachment sid
    using that
    by (auto split: prod.splits result.splits option.splits simp: target_ok_def tracked_retry_def
        intro!: keeps_intros set_target_keeps)
  show ?thesis
    unfolding poll_target_def acc case_prod_conv
  proof (rule keeps_seq [OF check_stop_keeps], rule keeps_reads_then, goal_cases)
    case (1 _ l)
    show ?case
    proof (cases "bt_get (lc_targets l) process")
      case (Some t)
      note ok = wf_get [OF 1 Some]
      show ?thesis
        using polled [OF ok] by (cases "tt_attachment t"; cases "ht_activity (tt_status t)") (simp_all add: Some keeps_go)
    qed (simp add: keeps_go)
  qed
qed

lemma run_round_keeps: "keeps good_run (run_round (recorded w))"
proof -
  have "keeps good_run (poll_targets (recorded w) ps acc)" for ps acc
    by (induction ps arbitrary: acc) (auto intro!: keeps_intros)
  then show ?thesis
    unfolding run_round_def by (intro keeps_seq lifecycle_step_keeps keeps_reads) (auto intro!: keeps_intros)
qed

subsection \<open>Rounds\<close>

fun rounds :: "('b, 'c, 'a) world \<Rightarrow> nat \<Rightarrow> 'b \<times> 'a Lifecycle \<Rightarrow> 'b \<times> 'a Lifecycle" where
  "rounds w 0 s = s"
| "rounds w (Suc n) s = (case run_round w s of (s', Go _) \<Rightarrow> rounds w n s' | (s', _) \<Rightarrow> s')"


text \<open>A world with one process that is found, attached and polled.\<close>

abbreviation demo_process :: TargetInfo where
  "demo_process \<equiv> \<lparr>ti_process = RecordedProcess 7 9, ti_executable = ''x'', ti_provider_id = ''p'', ti_game_id = ''g''\<rparr>"

definition demo_world :: "(unit, TargetInfo, unit) world" where
  "demo_world =
     \<lparr>wo_stopping = (\<lambda>b. (b, False)), wo_now = (\<lambda>b. (b, 2)), wo_session_id = (\<lambda>b. (b, Some ''s'')),
      wo_publish = (\<lambda>_ b. (b, None)), wo_discover = (\<lambda>b. (b, Ok [demo_process])), wo_target = (\<lambda>c. c),
      wo_attach = (\<lambda>_ b. (b, Ok ())), wo_is_current = (\<lambda>_ b. (b, True)), wo_poll = (\<lambda>a _ b. (b, a, Ok None))\<rparr>"

lemmas lifecycle_eval =
  run_round_def lifecycle_step_def discover_round_def discovery_pending_def attach_candidate_def not_eligible_def attach_target_def
  retain_current_def check_stop_def publish_status_def set_target_def poll_target_def seq_def go_def asks_def changes_def reads_def
  lifecycle_status_def lifecycle_new_def demo_world_def recorded_def bt_collect_def bt_retain_def Let_def

lemma demo_rounds:
  "\<exists>log. rounds (recorded demo_world) 1 (((), []), lifecycle_new) = (((), log),
     \<lparr>lc_targets = [(RecordedProcess 7 9, \<lparr>tt_status = \<lparr>ht_target = demo_process, ht_activity = Observing ''s''\<rparr>,
        tt_attachment = Some (), tt_retry_at = None\<rparr>)],
      lc_discovery_error = None, lc_next_discovery = Some (2 + DISCOVERY_INTERVAL)\<rparr>)"
  by (simp add: lifecycle_eval)


end
