(* ===== verification/Transport_Admission.thy ===== *)
theory Transport_Admission
  imports Service_State
begin

section \<open>Admission of connections, requests and streams\<close>

text \<open>
  \<open>crates/wf-observer-cli/src/transport/connection.rs\<close> and the admission part of \<open>requests.rs\<close>:
  semaphores bound the connections, the requests being processed and the open subscriptions,
  per connection and in total. A semaphore is its number of free permits; a permit that is
  dropped is added back. A connection's tasks are counted by what they hold: \<open>cn_processing\<close> hold the
  two request permits, \<open>cn_streaming\<close> hold a stream slot. Connections are numbered.

  The answer of \<open>view.subscribe\<close> is an argument of \<open>dispatch_subscribe\<close>.
  \<open>authorization.rs\<close> decides which peers may connect; reading the allowlist file is not modelled,
  \<open>load_allowlist\<close> starts from the parsed entries.
\<close>

subsection \<open>Authorization\<close>

type_synonym EndpointId = "u8 list"

datatype AccessMode = Local_access | Remote_access

record Peer =
  pr_endpoint_id :: EndpointId
  pr_name :: "string option"

record Policy =
  po_mode :: AccessMode
  po_approved_peers :: "EndpointId set"

text \<open>
  \<open>char::is_control\<close>: the code points up to 1F and from 7F to 9F, which UTF-8 encodes in one byte
  or, from 80 on, after the byte C2.
\<close>

definition control_char :: "string \<Rightarrow> bool" where
  "control_char c \<longleftrightarrow>
     (case map of_char c :: nat list of
        [b] \<Rightarrow> b < 32 \<or> b = 127
      | [b, b'] \<Rightarrow> b = 0xC2 \<and> 0x80 \<le> b' \<and> b' \<le> 0x9F
      | _ \<Rightarrow> False)"

definition validate_name :: "string option \<Rightarrow> (unit, string) result" where
  "validate_name name =
     ensure (case name of None \<Rightarrow> True | Some n \<Rightarrow> \<not> list_ex control_char (chars n)) ''peer names cannot contain control characters''"

definition load_allowlist :: "Peer list \<Rightarrow> (Peer list, string) result" where
  "load_allowlist peers =
     rbind (try_fold (\<lambda>ids peer.
         rbind (ensure (pr_endpoint_id peer \<notin> ids) ''duplicate endpoint ID'') (\<lambda>_.
         rbind (validate_name (pr_name peer)) (\<lambda>_. Ok (insert (pr_endpoint_id peer) ids)))) {} peers)
       (\<lambda>_. Ok peers)"

definition allowlist_allow :: "EndpointId \<Rightarrow> string option \<Rightarrow> Peer list \<Rightarrow> (Peer list, string) result" where
  "allowlist_allow endpoint_id name peers =
     rbind (validate_name name) (\<lambda>_.
       Ok (if list_ex (\<lambda>peer. pr_endpoint_id peer = endpoint_id) peers
           then (if name = None then peers
                 else update_first (\<lambda>peer. pr_endpoint_id peer = endpoint_id) (\<lambda>peer. peer\<lparr>pr_name := name\<rparr>) peers)
           else sort_key pr_endpoint_id (peers @ [\<lparr>pr_endpoint_id = endpoint_id, pr_name = name\<rparr>])))"

definition allowlist_revoke :: "EndpointId \<Rightarrow> Peer list \<Rightarrow> Peer list" where
  "allowlist_revoke endpoint_id peers = filter (\<lambda>peer. pr_endpoint_id peer \<noteq> endpoint_id) peers"

definition policy_new :: "AccessMode \<Rightarrow> EndpointId list \<Rightarrow> Policy" where
  "policy_new mode allowed = \<lparr>po_mode = mode, po_approved_peers = (if mode = Remote_access then set allowed else {})\<rparr>"

definition allowlist_policy :: "AccessMode \<Rightarrow> Peer list \<Rightarrow> Policy" where
  "allowlist_policy mode peers = policy_new mode (map pr_endpoint_id peers)"

definition permits :: "Policy \<Rightarrow> EndpointId \<Rightarrow> bool" where
  "permits policy peer \<longleftrightarrow> po_mode policy = Local_access \<or> peer \<in> po_approved_peers policy"

subsection \<open>Admission\<close>

definition CONNECTIONS :: nat where "CONNECTIONS = 16"
definition REQUESTS :: nat where "REQUESTS = 128"
definition REQUESTS_PER_CONNECTION :: nat where "REQUESTS_PER_CONNECTION = 32"

record SubscriptionLimits =
  lim_per_connection :: nat
  lim_global :: nat

definition subscription_limits_default :: SubscriptionLimits where
  "subscription_limits_default = \<lparr>lim_per_connection = 16, lim_global = 32\<rparr>"

record Streams =
  cn_requests :: nat
  cn_local :: nat
  cn_active :: u32
  cn_credit :: nat
  cn_processing :: nat
  cn_streaming :: nat

record Handler =
  hn_connections :: nat
  hn_requests :: nat
  hn_subscriptions :: nat
  hn_per_connection :: nat
  hn_streams :: "(nat, Streams) btree"
  hn_next :: nat

definition handler_new :: "SubscriptionLimits \<Rightarrow> Handler" where
  "handler_new limits =
     \<lparr>hn_connections = CONNECTIONS, hn_requests = REQUESTS, hn_subscriptions = lim_global limits,
      hn_per_connection = lim_per_connection limits, hn_streams = [], hn_next = 0\<rparr>"

datatype admission = Admitted nat | Not_approved | Connection_limit

definition accept_connection :: "Policy \<Rightarrow> EndpointId \<Rightarrow> Handler \<Rightarrow> Handler \<times> admission" where
  "accept_connection policy peer h =
     (if \<not> permits policy peer then (h, Not_approved)
      else if hn_connections h = 0 then (h, Connection_limit)
      else (h\<lparr>hn_connections := hn_connections h - 1, hn_next := hn_next h + 1,
              hn_streams := bt_insert (hn_next h)
                \<lparr>cn_requests = REQUESTS_PER_CONNECTION, cn_local = hn_per_connection h, cn_active = 0, cn_credit = 32,
                 cn_processing = 0, cn_streaming = 0\<rparr> (hn_streams h)\<rparr>,
            Admitted (hn_next h)))"

definition set_streams :: "nat \<Rightarrow> Streams \<Rightarrow> Handler \<Rightarrow> Handler" where
  "set_streams c st h = h\<lparr>hn_streams := bt_update c (\<lambda>_. st) (hn_streams h)\<rparr>"

text \<open>An incoming stream: both permits are taken, or neither.\<close>

definition incoming_stream :: "nat \<Rightarrow> Handler \<Rightarrow> Handler \<times> bool" where
  "incoming_stream c h =
     (case bt_get (hn_streams h) c of
        None \<Rightarrow> (h, False)
      | Some st \<Rightarrow>
        (if 0 < hn_requests h \<and> 0 < cn_requests st
         then (set_streams c (st\<lparr>cn_requests := cn_requests st - 1, cn_processing := cn_processing st + 1\<rparr>)
                 (h\<lparr>hn_requests := hn_requests h - 1\<rparr>), True)
         else (h, False)))"

definition finish_request :: "nat \<Rightarrow> Handler \<Rightarrow> Handler" where
  "finish_request c h =
     (case bt_get (hn_streams h) c of
        None \<Rightarrow> h
      | Some st \<Rightarrow>
        (if cn_processing st = 0 then h
         else set_streams c (st\<lparr>cn_requests := cn_requests st + 1, cn_processing := cn_processing st - 1\<rparr>)
                (h\<lparr>hn_requests := hn_requests h + 1\<rparr>)))"

text \<open>\<open>Streams::open\<close>: a slot, or the limit error with every permit given back.\<close>

definition open_stream :: "nat \<Rightarrow> Handler \<Rightarrow> Handler \<times> (unit, RequestError) result" where
  "open_stream c h =
     (case bt_get (hn_streams h) c of
        None \<Rightarrow> (h, Err (limit Subscriptions))
      | Some st \<Rightarrow>
        (if hn_subscriptions h = 0 \<or> cn_local st = 0 then (h, Err (limit Subscriptions))
         else (case checked_add (cn_active st) 1 of
             None \<Rightarrow> (h, Err (limit Subscriptions))
           | Some next \<Rightarrow>
             (case checked_add next (of_nat REQUESTS_PER_CONNECTION) of
                None \<Rightarrow> (h, Err (limit Subscriptions))
              | Some credit \<Rightarrow>
                (set_streams c (st\<lparr>cn_local := cn_local st - 1, cn_active := next, cn_credit := unat credit\<rparr>)
                   (h\<lparr>hn_subscriptions := hn_subscriptions h - 1\<rparr>), Ok ())))))"

text \<open>Dropping a slot; \<open>*active -= 1\<close> panics at zero, which the model leaves unchanged.\<close>

definition drop_slot :: "nat \<Rightarrow> Handler \<Rightarrow> Handler" where
  "drop_slot c h =
     (case bt_get (hn_streams h) c of
        None \<Rightarrow> h
      | Some st \<Rightarrow>
        (if cn_active st = 0 then h
         else set_streams c
                (st\<lparr>cn_local := cn_local st + 1, cn_active := cn_active st - 1,
                    cn_credit := unat (cn_active st - 1 + of_nat REQUESTS_PER_CONNECTION :: u32)\<rparr>)
                (h\<lparr>hn_subscriptions := hn_subscriptions h + 1\<rparr>)))"

definition move_to_streaming :: "nat \<Rightarrow> Handler \<Rightarrow> Handler" where
  "move_to_streaming c h = h\<lparr>hn_streams := bt_update c (\<lambda>st. st\<lparr>cn_streaming := cn_streaming st + 1\<rparr>) (hn_streams h)\<rparr>"

text \<open>
  The \<open>Subscribe\<close> branch of \<open>dispatch\<close>, in a task that holds request permits: on success the
  permits are dropped and the task streams; on an error the slot, if any, is dropped and the task
  goes on to write the error.
\<close>

definition dispatch_subscribe :: "('s, RequestError) result \<Rightarrow> nat \<Rightarrow> Handler \<Rightarrow> Handler \<times> ('s, RequestError) result" where
  "dispatch_subscribe subscribed c h =
     (case open_stream c h of
        (h1, Err e) \<Rightarrow> (h1, Err e)
      | (h1, Ok _) \<Rightarrow>
        (case subscribed of
           Err e \<Rightarrow> (drop_slot c h1, Err e)
         | Ok s \<Rightarrow> (move_to_streaming c (finish_request c h1), Ok s)))"

definition end_stream :: "nat \<Rightarrow> Handler \<Rightarrow> Handler" where
  "end_stream c h =
     (case bt_get (hn_streams h) c of
        None \<Rightarrow> h
      | Some st \<Rightarrow>
        (if cn_streaming st = 0 then h
         else drop_slot c (set_streams c (st\<lparr>cn_streaming := cn_streaming st - 1\<rparr>) h)))"

text \<open>The connection ends: its tasks are aborted, which drops what they hold, and its slot is released.\<close>

definition close_connection :: "nat \<Rightarrow> Handler \<Rightarrow> Handler" where
  "close_connection c h =
     (case bt_get (hn_streams h) c of
        None \<Rightarrow> h
      | Some st \<Rightarrow>
        h\<lparr>hn_connections := hn_connections h + 1, hn_requests := hn_requests h + cn_processing st,
          hn_subscriptions := hn_subscriptions h + cn_streaming st, hn_streams := bt_remove c (hn_streams h)\<rparr>)"

subsection \<open>Who may connect\<close>

lemma update_first_ids: "map pr_endpoint_id (update_first P (\<lambda>peer. peer\<lparr>pr_name := name\<rparr>) peers) = map pr_endpoint_id peers"
  by (induction peers) simp_all

lemma allow_ids:
  "allowlist_allow endpoint_id name peers = Ok peers' \<Longrightarrow>
     set (map pr_endpoint_id peers') = insert endpoint_id (set (map pr_endpoint_id peers))"
  using update_first_ids [of "\<lambda>peer. pr_endpoint_id peer = endpoint_id" name peers]
  by (auto simp: allowlist_allow_def list_ex_iff simp del: map_eq_conv split: if_splits)
    (metis image_eqI list.set_map)+

datatype approval = Allow EndpointId "string option" | Revoke EndpointId

fun approve :: "approval \<Rightarrow> Peer list \<Rightarrow> Peer list" where
  "approve (Allow endpoint_id name) peers = (case allowlist_allow endpoint_id name peers of Ok peers' \<Rightarrow> peers' | Err _ \<Rightarrow> peers)"
| "approve (Revoke endpoint_id) peers = allowlist_revoke endpoint_id peers"

text \<open>The latest decision about a peer; an approval with a refused name decides nothing.\<close>

fun decided :: "EndpointId \<Rightarrow> approval list \<Rightarrow> bool option" where
  "decided peer [] = None"
| "decided peer (a # later) =
     (case decided peer later of
        Some d \<Rightarrow> Some d
      | None \<Rightarrow>
        (case a of
           Allow endpoint_id name \<Rightarrow> if endpoint_id = peer \<and> is_ok (validate_name name) then Some True else None
         | Revoke endpoint_id \<Rightarrow> if endpoint_id = peer then Some False else None))"

lemma approve_ids:
  "peer \<in> pr_endpoint_id ` set (approve a peers) \<longleftrightarrow>
     (case decided peer [a] of Some d \<Rightarrow> d | None \<Rightarrow> peer \<in> pr_endpoint_id ` set peers)"
proof (cases a)
  case (Allow endpoint_id name)
  then show ?thesis
    using allow_ids [of endpoint_id name peers]
    by (cases "validate_name name") (auto simp: allowlist_allow_def)
next
  case (Revoke endpoint_id)
  then show ?thesis by (auto simp: allowlist_revoke_def)
qed

lemma approvals_ids:
  "peer \<in> pr_endpoint_id ` set (fold approve as peers) \<longleftrightarrow>
     (case decided peer as of Some d \<Rightarrow> d | None \<Rightarrow> peer \<in> pr_endpoint_id ` set peers)"
proof (induction as arbitrary: peers)
  case (Cons a as)
  then show ?case
    using approve_ids [of peer a peers] by (cases "decided peer as") (auto split: option.splits)
qed simp


subsection \<open>Sums over connections\<close>

definition sum_over :: "(Streams \<Rightarrow> nat) \<Rightarrow> (nat, Streams) btree \<Rightarrow> nat" where
  "sum_over f m = sum_list (map (f \<circ> snd) m)"

lemma sum_over_update:
  assumes "bt_inv m" and "bt_get m c = Some st"
  shows "sum_over f (bt_update c g m) + f st = sum_over f m + f (g st)"
  using assms
proof (induction m)
  case (Cons kv m)
  obtain k v where kv: "kv = (k, v)" by (cases kv)
  have "bt_update k g m = m" if "\<forall>k' \<in> fst ` set m. k < k'"
    using that by (intro bt_update_absent) (auto simp: bt_get_none_iff)
  then show ?case
    using Cons kv by (cases "c = k") (auto simp: sum_over_def bt_update_def bt_map_def)
qed simp

lemma sum_over_insert:
  assumes "bt_get m c = None"
  shows "sum_over f (bt_insert c st m) = sum_over f m + f st"
  using assms by (induction m) (auto simp: sum_over_def split: if_splits)

lemma sum_over_remove:
  assumes "bt_inv m" and "bt_get m c = Some st"
  shows "sum_over f (bt_remove c m) + f st = sum_over f m"
  using assms
proof (induction m)
  case (Cons kv m)
  obtain k v where kv: "kv = (k, v)" by (cases kv)
  have "bt_remove k m = m" if "\<forall>k' \<in> fst ` set m. k < k'"
    using that by (auto simp: bt_remove_def bt_retain_def intro!: filter_True)
  then show ?case
    using Cons kv by (cases "c = k") (auto simp: sum_over_def bt_remove_def bt_retain_def)
qed simp

subsection \<open>Every permit is accounted for\<close>

definition streams_ok :: "nat \<Rightarrow> Streams \<Rightarrow> bool" where
  "streams_ok per_connection st \<longleftrightarrow>
     cn_requests st + cn_processing st = REQUESTS_PER_CONNECTION
     \<and> cn_local st + cn_streaming st = per_connection
     \<and> unat (cn_active st) = cn_streaming st
     \<and> cn_credit st = cn_streaming st + REQUESTS_PER_CONNECTION
     \<and> cn_credit st < 2 ^ 32"

definition handler_wf :: "SubscriptionLimits \<Rightarrow> Handler \<Rightarrow> bool" where
  "handler_wf limits h \<longleftrightarrow>
     bt_inv (hn_streams h) \<and> hn_per_connection h = lim_per_connection limits
     \<and> (\<forall>c st. bt_get (hn_streams h) c = Some st \<longrightarrow> c < hn_next h \<and> streams_ok (lim_per_connection limits) st)
     \<and> hn_connections h + sum_over (\<lambda>_. 1) (hn_streams h) = CONNECTIONS
     \<and> hn_requests h + sum_over cn_processing (hn_streams h) = REQUESTS
     \<and> hn_subscriptions h + sum_over cn_streaming (hn_streams h) = lim_global limits"

lemma handler_wf_set:
  assumes wf: "handler_wf limits h" and get: "bt_get (hn_streams h) c = Some st" and ok: "streams_ok (lim_per_connection limits) st'"
    and req: "r + cn_processing st' = hn_requests h + cn_processing st"
    and sub: "n + cn_streaming st' = hn_subscriptions h + cn_streaming st"
  shows "handler_wf limits (set_streams c st' (h\<lparr>hn_requests := r, hn_subscriptions := n\<rparr>))"
proof -
  have inv: "bt_inv (hn_streams h)" using wf by (simp add: handler_wf_def)
  have "r + sum_over cn_processing (bt_update c (\<lambda>_. st') (hn_streams h)) = REQUESTS"
    "n + sum_over cn_streaming (bt_update c (\<lambda>_. st') (hn_streams h)) = lim_global limits"
    "sum_over (\<lambda>_. 1) (bt_update c (\<lambda>_. st') (hn_streams h)) = sum_over (\<lambda>_. 1) (hn_streams h)"
    using sum_over_update [OF inv get, of cn_processing "\<lambda>_. st'"] sum_over_update [OF inv get, of cn_streaming "\<lambda>_. st'"]
      sum_over_update [OF inv get, of "\<lambda>_. 1" "\<lambda>_. st'"] req sub wf
    by (simp_all add: handler_wf_def)
  then show ?thesis
    using wf get ok by (auto simp: handler_wf_def set_streams_def bt_get_update split: if_splits)
qed

lemma streamsD: "handler_wf limits h \<Longrightarrow> bt_get (hn_streams h) c = Some st \<Longrightarrow> streams_ok (lim_per_connection limits) st"
  by (auto simp: handler_wf_def)

lemma set_streams_sel [simp]:
  "bt_get (hn_streams h) c = Some st0 \<Longrightarrow> bt_get (hn_streams (set_streams c st h)) c = Some st"
  "hn_requests (set_streams c st h) = hn_requests h" "hn_subscriptions (set_streams c st h) = hn_subscriptions h"
  by (simp_all add: set_streams_def bt_get_update)

lemma set_streams_twice [simp]:
  "set_streams c a ((set_streams c b h)\<lparr>hn_requests := r\<rparr>) = set_streams c a (h\<lparr>hn_requests := r\<rparr>)"
  "set_streams c a ((set_streams c b h)\<lparr>hn_subscriptions := n\<rparr>) = set_streams c a (h\<lparr>hn_subscriptions := n\<rparr>)"
  by (simp_all add: set_streams_def bt_update_def bt_map_def o_def case_prod_unfold cong: if_cong)

lemma move_set_streams:
  "move_to_streaming c (set_streams c st h) = set_streams c (st\<lparr>cn_streaming := cn_streaming st + 1\<rparr>) h"
  by (simp add: move_to_streaming_def set_streams_def bt_update_def bt_map_def o_def case_prod_unfold if_distrib cong: if_cong)

lemma accept_wf:
  assumes "handler_wf limits h"
  shows "handler_wf limits (fst (accept_connection policy peer h))"
proof -
  have fresh: "bt_get (hn_streams h) (hn_next h) = None"
    using assms by (cases "bt_get (hn_streams h) (hn_next h)") (auto simp: handler_wf_def)
  have "streams_ok n \<lparr>cn_requests = REQUESTS_PER_CONNECTION, cn_local = n, cn_active = 0, cn_credit = 32, cn_processing = 0,
      cn_streaming = 0\<rparr>" for n
    by (simp add: streams_ok_def REQUESTS_PER_CONNECTION_def)
  then show ?thesis
    using assms
    by (auto simp: accept_connection_def handler_wf_def bt_inv_insert bt_get_insert sum_over_insert [OF fresh] less_SucI
        split: if_splits)
qed

lemma incoming_wf: "handler_wf limits h \<Longrightarrow> handler_wf limits (fst (incoming_stream c h))"
proof (cases "bt_get (hn_streams h) c")
  case (Some st)
  assume wf: "handler_wf limits h"
  show ?thesis
    using wf Some streamsD [OF wf Some]
      handler_wf_set [OF wf Some, of "st\<lparr>cn_requests := cn_requests st - 1, cn_processing := cn_processing st + 1\<rparr>" "hn_requests h - 1" "hn_subscriptions h"]
    by (simp add: incoming_stream_def streams_ok_def)
qed (simp add: incoming_stream_def)

lemma finish_wf: "handler_wf limits h \<Longrightarrow> handler_wf limits (finish_request c h)"
proof (cases "bt_get (hn_streams h) c")
  case (Some st)
  assume wf: "handler_wf limits h"
  show ?thesis
    using wf Some streamsD [OF wf Some]
      handler_wf_set [OF wf Some, of "st\<lparr>cn_requests := cn_requests st + 1, cn_processing := cn_processing st - 1\<rparr>" "hn_requests h + 1" "hn_subscriptions h"]
    by (simp add: finish_request_def streams_ok_def)
qed (simp add: finish_request_def)

lemma end_stream_wf: "handler_wf limits h \<Longrightarrow> handler_wf limits (end_stream c h)"
proof (cases "bt_get (hn_streams h) c")
  case (Some st)
  assume wf: "handler_wf limits h"
  show ?thesis
  proof (cases "cn_streaming st = 0")
    case False
    have ok: "streams_ok (lim_per_connection limits) st" by (rule streamsD [OF wf Some])
    have "cn_active st \<noteq> 0" using ok False by (auto simp: streams_ok_def)
    then have "unat (cn_active st - 1) = unat (cn_active st) - 1" by (rule unat_minus_one)
    moreover from this have "unat (cn_active st - 1 + of_nat REQUESTS_PER_CONNECTION :: u32) = cn_streaming st - 1 + REQUESTS_PER_CONNECTION"
      using ok False by (simp add: streams_ok_def unat_word_ariths REQUESTS_PER_CONNECTION_def)
    moreover have "cn_streaming st + REQUESTS_PER_CONNECTION - 1 < 2 ^ 32" using ok by (auto simp: streams_ok_def)
    ultimately show ?thesis
      using handler_wf_set [OF wf Some, of "st\<lparr>cn_streaming := cn_streaming st - 1, cn_local := cn_local st + 1, cn_active := cn_active st - 1,
          cn_credit := unat (cn_active st - 1 + of_nat REQUESTS_PER_CONNECTION :: u32)\<rparr>" "hn_requests h" "hn_subscriptions h + 1"]
        ok False Some \<open>cn_active st \<noteq> 0\<close>
      by (simp add: end_stream_def drop_slot_def streams_ok_def)
  qed (use wf Some in \<open>simp add: end_stream_def\<close>)
qed (simp add: end_stream_def)

lemma close_wf:
  assumes "handler_wf limits h"
  shows "handler_wf limits (close_connection c h)"
proof (cases "bt_get (hn_streams h) c")
  case (Some st)
  have inv: "bt_inv (hn_streams h)" using assms by (simp add: handler_wf_def)
  show ?thesis
    using assms Some sum_over_remove [OF inv Some, of cn_processing] sum_over_remove [OF inv Some, of cn_streaming]
      sum_over_remove [OF inv Some, of "\<lambda>_. 1"]
    by (auto simp: close_connection_def handler_wf_def bt_inv_remove bt_get_remove split: if_splits)
qed (simp add: close_connection_def assms)

text \<open>The task that dispatches a subscription holds request permits: it is one of \<open>cn_processing\<close>.\<close>

lemma open_stream_eq:
  assumes "handler_wf limits h" and "bt_get (hn_streams h) c = Some st" and "open_stream c h = (h1, Ok ())"
  shows "0 < hn_subscriptions h" and "0 < cn_local st" and "unat (cn_active st + 1) = cn_streaming st + 1"
    and "unat (cn_active st + 1) + 32 < 2 ^ 32"
    and "h1 = set_streams c (st\<lparr>cn_local := cn_local st - 1, cn_active := cn_active st + 1, cn_credit := cn_streaming st + 1 + 32\<rparr>)
           (h\<lparr>hn_subscriptions := hn_subscriptions h - 1\<rparr>)"
proof -
  have ok: "streams_ok (lim_per_connection limits) st" by (rule streamsD [OF assms(1,2)])
  obtain nxt credit where opened: "\<not> (hn_subscriptions h = 0 \<or> cn_local st = 0)" "checked_add (cn_active st) 1 = Some nxt"
      "checked_add nxt (of_nat REQUESTS_PER_CONNECTION) = Some credit"
      "h1 = set_streams c (st\<lparr>cn_local := cn_local st - 1, cn_active := nxt, cn_credit := unat credit\<rparr>) (h\<lparr>hn_subscriptions := hn_subscriptions h - 1\<rparr>)"
    using assms(2,3) by (auto simp: open_stream_def split: if_splits option.splits)
  have "nxt = cn_active st + 1" "unat nxt = unat (cn_active st) + 1"
    using checked_add_SomeD [OF opened(2)] by simp_all
  moreover have "unat credit = unat nxt + 32" "unat nxt + 32 < 2 ^ 32"
    using checked_add_SomeD [OF opened(3)] opened(3) by (simp_all add: REQUESTS_PER_CONNECTION_def checked_add_def split: if_splits)
  ultimately show "0 < hn_subscriptions h" "0 < cn_local st" "unat (cn_active st + 1) = cn_streaming st + 1"
      "unat (cn_active st + 1) + 32 < 2 ^ 32"
      "h1 = set_streams c (st\<lparr>cn_local := cn_local st - 1, cn_active := cn_active st + 1, cn_credit := cn_streaming st + 1 + 32\<rparr>)
           (h\<lparr>hn_subscriptions := hn_subscriptions h - 1\<rparr>)"
    using ok opened(1,4) by (simp_all add: streams_ok_def)
qed

lemma handler_update_order:
  "h\<lparr>hn_subscriptions := n, hn_requests := r\<rparr> = h\<lparr>hn_requests := r, hn_subscriptions := n\<rparr>"
  by (rule Handler.equality) simp_all

lemma dispatch_wf:
  assumes wf: "handler_wf limits h" and st: "bt_get (hn_streams h) c = Some st" and busy: "0 < cn_processing st"
  shows "handler_wf limits (fst (dispatch_subscribe subscribed c h))"
proof (cases "open_stream c h")
  case (Pair h1 r)
  show ?thesis
  proof (cases r)
    case (Err e)
    moreover have "h1 = h" using Pair Err st by (auto simp: open_stream_def split: if_splits option.splits)
    ultimately show ?thesis using wf Pair by (simp add: dispatch_subscribe_def)
  next
    case (Ok u)
    note opened = open_stream_eq [OF wf st, of h1]
    have eq: "open_stream c h = (h1, Ok ())" using Pair Ok by simp
    have ok: "streams_ok (lim_per_connection limits) st" by (rule streamsD [OF wf st])
    show ?thesis
    proof (cases subscribed)
      case (Err e)
      have "drop_slot c h1 = set_streams c (st\<lparr>cn_credit := cn_streaming st + 32\<rparr>) h"
      proof -
        have "cn_active st + 1 \<noteq> 0" using opened(3) [OF eq] by auto
        moreover have "unat (cn_active st + of_nat REQUESTS_PER_CONNECTION :: u32) = cn_streaming st + 32"
          using ok by (simp add: streams_ok_def unat_word_ariths REQUESTS_PER_CONNECTION_def)
        ultimately show ?thesis
          using opened [OF eq] st ok by (simp add: drop_slot_def streams_ok_def)
      qed
      moreover have "handler_wf limits (set_streams c (st\<lparr>cn_credit := cn_streaming st + 32\<rparr>) h)"
        using handler_wf_set [OF wf st, of "st\<lparr>cn_credit := cn_streaming st + 32\<rparr>" "hn_requests h" "hn_subscriptions h"] ok
        by (simp add: streams_ok_def REQUESTS_PER_CONNECTION_def)
      ultimately show ?thesis by (simp add: dispatch_subscribe_def eq Err)
    next
      case (Ok s)
      then show ?thesis
        using handler_wf_set [OF wf st, of "st\<lparr>cn_local := cn_local st - 1, cn_active := cn_active st + 1, cn_credit := cn_streaming st + 1 + 32,
            cn_requests := cn_requests st + 1, cn_processing := cn_processing st - 1, cn_streaming := cn_streaming st + 1\<rparr>"
            "hn_requests h + 1" "hn_subscriptions h - 1"] opened [OF eq] ok busy st
        by (simp add: dispatch_subscribe_def eq finish_request_def streams_ok_def REQUESTS_PER_CONNECTION_def move_set_streams handler_update_order)
    qed
  qed
qed

subsection \<open>Every interleaving\<close>

inductive handler_step :: "Policy \<Rightarrow> Handler \<Rightarrow> Handler \<Rightarrow> bool" for policy :: Policy where
  hs_accept: "handler_step policy h (fst (accept_connection policy peer h))"
| hs_incoming: "handler_step policy h (fst (incoming_stream c h))"
| hs_finish: "handler_step policy h (finish_request c h)"
| hs_subscribe: "bt_get (hn_streams h) c = Some st \<Longrightarrow> 0 < cn_processing st \<Longrightarrow>
    handler_step policy h (fst (dispatch_subscribe (subscribed :: (unit, RequestError) result) c h))"
| hs_end: "handler_step policy h (end_stream c h)"
| hs_close: "handler_step policy h (close_connection c h)"

inductive_cases handler_stepE: "handler_step policy h h'"

interpretation handler: safe_system "\<lambda>h. h = handler_new limits" "handler_step policy" "handler_wf limits" for limits policy
proof
  show "handler_wf limits h" if "h = handler_new limits" for h
    using that by (simp add: handler_new_def handler_wf_def sum_over_def)
  show "handler_wf limits h'" if "handler_wf limits h" "handler_step policy h h'" for h h'
    using that(2)
    by cases (use that(1) in \<open>simp_all add: accept_wf incoming_wf finish_wf dispatch_wf end_stream_wf close_wf\<close>)
qed

lemma sum_over_member: "bt_get m c = Some st \<Longrightarrow> f st \<le> sum_over f m"
  unfolding sum_over_def by (rule sum_list_le_member) (force dest: bt_get_member)

text \<open>
  C28: whatever peers do, admission stays within its limits: at most 16 connections, 128
  requests being processed and the configured number of subscriptions in total, at most 32
  requests and the configured number of subscriptions per connection; every connection has stream
  credit for its subscriptions plus the full request headroom, and no permit is ever lost.
\<close>

theorem transport_bounded:
  assumes "reach (\<lambda>h. h = handler_new limits) (handler_step policy) h"
  shows "length (hn_streams h) + hn_connections h = 16
    \<and> sum_over cn_processing (hn_streams h) + hn_requests h = 128
    \<and> sum_over cn_streaming (hn_streams h) + hn_subscriptions h = lim_global limits
    \<and> (bt_get (hn_streams h) c = Some st \<longrightarrow>
         cn_processing st \<le> 32 \<and> cn_streaming st \<le> lim_per_connection limits \<and> cn_credit st = cn_streaming st + 32)"
proof -
  have wf: "handler_wf limits h" by (rule handler.reach_good [OF assms])
  have "sum_over (\<lambda>_. 1) (hn_streams h) = length (hn_streams h)" by (simp add: sum_over_def sum_list_triv o_def)
  moreover have "cn_processing st \<le> 32 \<and> cn_streaming st \<le> lim_per_connection limits \<and> cn_credit st = cn_streaming st + 32"
    if "bt_get (hn_streams h) c = Some st"
    using streamsD [OF wf that] by (auto simp: streams_ok_def REQUESTS_PER_CONNECTION_def)
  ultimately show ?thesis
    using wf by (auto simp: handler_wf_def CONNECTIONS_def REQUESTS_def)
qed

definition demo_handler :: Handler where
  "demo_handler =
     fst (dispatch_subscribe (Ok () :: (unit, RequestError) result) 0
       (fst (incoming_stream 0 (fst (accept_connection (policy_new Local_access []) [] (handler_new subscription_limits_default))))))"

lemmas handler_eval =
  dispatch_subscribe_def open_stream_def finish_request_def move_to_streaming_def set_streams_def incoming_stream_def accept_connection_def
  permits_def policy_new_def handler_new_def subscription_limits_default_def CONNECTIONS_def REQUESTS_def REQUESTS_PER_CONNECTION_def
  bt_update_def bt_map_def checked_add_def

lemma demo_handler_reachable:
  "reach (\<lambda>h. h = handler_new subscription_limits_default) (handler_step (policy_new Local_access [])) demo_handler"
  (is "reach ?init ?step _")
proof -
  let ?h1 = "fst (accept_connection (policy_new Local_access []) [] (handler_new subscription_limits_default))"
  let ?h2 = "fst (incoming_stream 0 ?h1)"
  have "reach ?init ?step ?h1" by (rule reach_step [of ?init ?step "handler_new subscription_limits_default"]) (simp_all add: reach_init hs_accept)
  then have "reach ?init ?step ?h2" by (rule reach_step [of ?init ?step ?h1]) (rule hs_incoming)
  moreover obtain st where "bt_get (hn_streams ?h2) 0 = Some st" "0 < cn_processing st"
    by (simp add: handler_eval)
  then have "?step ?h2 demo_handler" unfolding demo_handler_def by (rule hs_subscribe)
  ultimately show ?thesis by (rule reach_step [of ?init ?step ?h2])
qed

theorem transport_bounded_witness:
  "length (hn_streams demo_handler) + hn_connections demo_handler = 16
   \<and> (\<exists>st. bt_get (hn_streams demo_handler) 0 = Some st \<and> cn_streaming st = 1 \<and> cn_credit st = 33)"
proof -
  obtain st where st: "bt_get (hn_streams demo_handler) 0 = Some st" "cn_streaming st = 1"
    by (simp add: demo_handler_def handler_eval)
  from transport_bounded [OF demo_handler_reachable, of 0 st] st show ?thesis by simp
qed


end
