(* ===== verification/Target_Memory.thy ===== *)
theory Target_Memory
  imports Provider_Contract
begin

section \<open>Bounded reads of target memory\<close>

text \<open>
  \<open>crates/provider-sdk/src/memory\<close> and \<open>pe\<close>: the checked addressing and budgeted reads every
  provider goes through, the decoding of record fields, and the inspection of executable
  headers. The process behind it is a parameter: a backend takes its own state, an address and a
  length and gives the bytes it wrote or an error. A buffer keeps its length whatever the backend
  writes into it.
\<close>

unbundle bit_operations_syntax

subsection \<open>Addresses\<close>

datatype Rva = Rva (rva_get: u32)
datatype ObjectOffset = ObjectOffset (offset_get: u32)
datatype VtableSlot = VtableSlot (slot_get: u32)

definition u64_try_from :: "usize \<Rightarrow> u64 option" where
  "u64_try_from n = (if n < 2 ^ 64 then Some (of_nat n) else None)"

definition u32_try_from :: "u64 \<Rightarrow> u32 option" where
  "u32_try_from w = (if w < 2 ^ 32 then Some (ucast w) else None)"

definition checked_add_signed :: "u64 \<Rightarrow> u64 \<Rightarrow> u64 option" where
  "checked_add_signed a d =
     (let t = uint a + sint d in if 0 \<le> t \<and> t < 2 ^ 64 then Some (word_of_int t) else None)"

text \<open>\<open>from_le_bytes\<close> and \<open>to_le_bytes\<close>.\<close>

definition from_le :: "u8 list \<Rightarrow> 'a::len word" where
  "from_le bs = foldr (\<lambda>b acc. ucast b + 256 * acc) bs 0"

definition to_le :: "'a::len word \<Rightarrow> u8 list" where
  "to_le w = map (\<lambda>i. ucast (drop_bit (8 * i) w)) [0..<LENGTH('a) div 8]"

definition rva_checked_add :: "Rva \<Rightarrow> u32 \<Rightarrow> Rva option" where
  "rva_checked_add r bytes = map_option Rva (checked_add (rva_get r) bytes)"

definition rip_target :: "Rva \<Rightarrow> u32 \<Rightarrow> u8 list \<Rightarrow> Rva option" where
  "rip_target r instruction_bytes displacement =
     (if length displacement \<noteq> 4 then None
      else (let d = (scast (from_le displacement :: u32) :: u64)
            in Option.bind (checked_add (ucast (rva_get r)) (ucast instruction_bytes)) (\<lambda>next.
               Option.bind (checked_add_signed next d) (\<lambda>target.
               map_option Rva (u32_try_from target)))))"

subsection \<open>Errors\<close>

datatype MemoryError =
    AddressOverflow
  | InvalidTargetRange u64 usize
  | InvalidModuleRange Rva usize
  | Backend_read string

datatype TargetError =
    Memory_failure MemoryError
  | LayoutMismatch string
  | InvalidData string
  | NotReady string
  | Unstable string
  | SourceLimit string
  | SourceOverflow string

datatype RecordError = Record_overflow string | Record_out_of_bounds string

fun record_read_error :: "RecordError \<Rightarrow> TargetError" where
  "record_read_error (Record_overflow at) = SourceOverflow at"
| "record_read_error (Record_out_of_bounds at) = InvalidData at"

fun read_unavailable :: "TargetError \<Rightarrow> SdkUnavailableReason" where
  "read_unavailable (NotReady _) = SdkTargetNotReady"
| "read_unavailable (Unstable _) = SdkTargetNotReady"
| "read_unavailable (Memory_failure (Backend_read _)) = SdkReadFailed ''target memory could not be read''"
| "read_unavailable _ = SdkValidationFailed ''target memory failed validation''"

subsection \<open>Sequencing\<close>

text \<open>A fallible operation on a state, and Rust's \<open>?\<close> between two of them.\<close>

type_synonym ('s, 'a, 'e) attempt = "'s \<Rightarrow> 's \<times> ('a, 'e) result"

definition and_then :: "('s, 'a, 'e) attempt \<Rightarrow> ('a \<Rightarrow> ('s, 'b, 'e) attempt) \<Rightarrow> ('s, 'b, 'e) attempt" where
  "and_then m f s = (case m s of (s', Ok x) \<Rightarrow> f x s' | (s', Err e) \<Rightarrow> (s', Err e))"

definition done_with :: "('a, 'e) result \<Rightarrow> ('s, 'a, 'e) attempt" where
  "done_with r s = (s, r)"

definition then_map :: "('a \<Rightarrow> 'b) \<Rightarrow> ('s, 'a, 'e) attempt \<Rightarrow> ('s, 'b, 'e) attempt" where
  "then_map f m = and_then m (\<lambda>x. done_with (Ok (f x)))"

text \<open>\<open>read_stable\<close>: two readings that agree.\<close>

definition read_stable :: "('s, 'a, 'e) attempt \<Rightarrow> 'e \<Rightarrow> ('s, 'a, 'e) attempt" where
  "read_stable read changed =
     and_then read (\<lambda>first. and_then read (\<lambda>second.
       done_with (if first = second then Ok second else Err changed)))"

subsection \<open>The reader\<close>

record ReadLimits =
  min_address :: u64
  max_address :: u64
  limit_bytes :: usize
  limit_reads :: usize

definition validate_range :: "ReadLimits \<Rightarrow> u64 \<Rightarrow> usize \<Rightarrow> (unit, MemoryError) result" where
  "validate_range limits address len =
     (if len = 0 then Ok ()
      else if address < min_address limits \<or> max_address limits < address then Err (InvalidTargetRange address len)
      else rbind (ok_or (u64_try_from (len - 1)) AddressOverflow) (\<lambda>span.
           rbind (ok_or (checked_add address span) AddressOverflow) (\<lambda>last.
           if max_address limits < last then Err (InvalidTargetRange address len) else Ok ())))"

type_synonym 'm backend = "u64 \<Rightarrow> usize \<Rightarrow> 'm \<Rightarrow> 'm \<times> (u8 list, string) result"

record 'm TargetReader =
  rd_memory :: 'm
  rd_module_base :: u64
  rd_image_size :: u32
  rd_limits :: ReadLimits

definition target_reader_new :: "'m \<Rightarrow> u64 \<Rightarrow> u32 \<Rightarrow> ReadLimits \<Rightarrow> ('m TargetReader, TargetError) result" where
  "target_reader_new memory module_base image_size limits =
     (if image_size = 0 then Err (Memory_failure (InvalidModuleRange (Rva 0) 0))
      else rbind (map_err Memory_failure (validate_range limits module_base (unat image_size))) (\<lambda>_.
        Ok \<lparr>rd_memory = memory, rd_module_base = module_base, rd_image_size = image_size, rd_limits = limits\<rparr>))"

definition module_address :: "'m TargetReader \<Rightarrow> Rva \<Rightarrow> usize \<Rightarrow> (u64, TargetError) result" where
  "module_address r rva len =
     map_err Memory_failure
       (rbind (ok_or (u64_try_from len) AddressOverflow) (\<lambda>n.
        rbind (ok_or (checked_add (ucast (rva_get rva)) n) AddressOverflow) (\<lambda>end'.
        if ucast (rd_image_size r) < end' then Err (InvalidModuleRange rva len)
        else rbind (ok_or (checked_add (rd_module_base r) (ucast (rva_get rva))) AddressOverflow) (\<lambda>address.
             rbind (validate_range (rd_limits r) address len) (\<lambda>_. Ok address)))))"

definition object_address :: "'m TargetReader \<Rightarrow> u64 \<Rightarrow> ObjectOffset \<Rightarrow> usize \<Rightarrow> (u64, TargetError) result" where
  "object_address r object offset len =
     map_err Memory_failure
       (rbind (ok_or (checked_add object (ucast (offset_get offset))) AddressOverflow) (\<lambda>address.
        rbind (validate_range (rd_limits r) address len) (\<lambda>_. Ok address)))"

definition fill :: "usize \<Rightarrow> u8 list \<Rightarrow> u8 list" where
  "fill n bs = take n (bs @ replicate n 0)"

definition read_unchecked :: "'m backend \<Rightarrow> u64 \<Rightarrow> usize \<Rightarrow> ('m TargetReader, u8 list, TargetError) attempt" where
  "read_unchecked be address len r =
     (if len = 0 then (r, Ok [])
      else (case usize_checked_sub (limit_bytes (rd_limits r)) len of
          None \<Rightarrow> (r, Err (SourceLimit ''acquisition byte budget''))
        | Some bytes \<Rightarrow>
          (case usize_checked_sub (limit_reads (rd_limits r)) 1 of
             None \<Rightarrow> (r, Err (SourceLimit ''acquisition read budget''))
           | Some reads \<Rightarrow>
             (case be address len (rd_memory r) of
                (memory, result) \<Rightarrow>
                  (r\<lparr>rd_memory := memory, rd_limits := (rd_limits r)\<lparr>limit_bytes := bytes, limit_reads := reads\<rparr>\<rparr>,
                   case result of Ok bs \<Rightarrow> Ok (fill len bs) | Err e \<Rightarrow> Err (Memory_failure (Backend_read e)))))))"

definition read_module :: "'m backend \<Rightarrow> Rva \<Rightarrow> usize \<Rightarrow> ('m TargetReader, u8 list, TargetError) attempt" where
  "read_module be rva len r =
     and_then (done_with (module_address r rva len)) (\<lambda>address. read_unchecked be address len) r"

definition read_at :: "'m backend \<Rightarrow> u64 \<Rightarrow> usize \<Rightarrow> ('m TargetReader, u8 list, TargetError) attempt" where
  "read_at be address len r =
     and_then (done_with (map_err Memory_failure (validate_range (rd_limits r) address len)))
       (\<lambda>_. read_unchecked be address len) r"

definition read_object :: "'m backend \<Rightarrow> u64 \<Rightarrow> ObjectOffset \<Rightarrow> usize \<Rightarrow> ('m TargetReader, u8 list, TargetError) attempt" where
  "read_object be object offset len r =
     and_then (done_with (object_address r object offset len)) (\<lambda>address. read_at be address len) r"

definition read_u8 :: "'m backend \<Rightarrow> u64 \<Rightarrow> ('m TargetReader, u8, TargetError) attempt" where
  "read_u8 be address = then_map from_le (read_at be address 1)"

definition read_u32 :: "'m backend \<Rightarrow> u64 \<Rightarrow> ('m TargetReader, u32, TargetError) attempt" where
  "read_u32 be address = then_map from_le (read_at be address 4)"

definition read_u64 :: "'m backend \<Rightarrow> u64 \<Rightarrow> ('m TargetReader, u64, TargetError) attempt" where
  "read_u64 be address = then_map from_le (read_at be address 8)"

definition read_object_u8 :: "'m backend \<Rightarrow> u64 \<Rightarrow> ObjectOffset \<Rightarrow> ('m TargetReader, u8, TargetError) attempt" where
  "read_object_u8 be object offset = then_map from_le (read_object be object offset 1)"

definition read_object_u32 :: "'m backend \<Rightarrow> u64 \<Rightarrow> ObjectOffset \<Rightarrow> ('m TargetReader, u32, TargetError) attempt" where
  "read_object_u32 be object offset = then_map from_le (read_object be object offset 4)"

definition read_object_u64 :: "'m backend \<Rightarrow> u64 \<Rightarrow> ObjectOffset \<Rightarrow> ('m TargetReader, u64, TargetError) attempt" where
  "read_object_u64 be object offset = then_map from_le (read_object be object offset 8)"

definition read_vtable_slot_le64 :: "'m backend \<Rightarrow> u64 \<Rightarrow> VtableSlot \<Rightarrow> ('m TargetReader, u64, TargetError) attempt" where
  "read_vtable_slot_le64 be object slot =
     and_then (read_u64 be object) (\<lambda>vtable r.
       and_then (done_with (object_address r vtable (ObjectOffset (slot_get slot)) 8)) (read_u64 be) r)"

definition require_module_pointer :: "'m TargetReader \<Rightarrow> u64 \<Rightarrow> Rva \<Rightarrow> string \<Rightarrow> (unit, TargetError) result" where
  "require_module_pointer r actual expected at =
     rbind (module_address r expected 1) (\<lambda>address. ensure (actual = address) (InvalidData at))"

definition require_vtable_slot_le64 ::
  "'m backend \<Rightarrow> u64 \<Rightarrow> VtableSlot \<Rightarrow> Rva \<Rightarrow> string \<Rightarrow> ('m TargetReader, unit, TargetError) attempt" where
  "require_vtable_slot_le64 be object slot expected at =
     and_then (read_vtable_slot_le64 be object slot) (\<lambda>actual r. (r, require_module_pointer r actual expected at))"

subsection \<open>Records\<close>

record RecordView =
  rv_bytes :: "u8 list"
  rv_at :: string

definition record_field :: "RecordView \<Rightarrow> ObjectOffset \<Rightarrow> usize \<Rightarrow> (u8 list, RecordError) result" where
  "record_field v offset len =
     (let start = unat (offset_get offset)
      in rbind (ok_or (usize_checked_add start len) (Record_overflow (rv_at v))) (\<lambda>end'.
         if end' \<le> length (rv_bytes v) then Ok (take len (drop start (rv_bytes v)))
         else Err (Record_out_of_bounds (rv_at v))))"

definition record_u16 :: "RecordView \<Rightarrow> ObjectOffset \<Rightarrow> (u16, RecordError) result" where
  "record_u16 v offset = rbind (record_field v offset 2) (\<lambda>bs. Ok (from_le bs))"

definition record_u32 :: "RecordView \<Rightarrow> ObjectOffset \<Rightarrow> (u32, RecordError) result" where
  "record_u32 v offset = rbind (record_field v offset 4) (\<lambda>bs. Ok (from_le bs))"

definition record_u64 :: "RecordView \<Rightarrow> ObjectOffset \<Rightarrow> (u64, RecordError) result" where
  "record_u64 v offset = rbind (record_field v offset 8) (\<lambda>bs. Ok (from_le bs))"

subsection \<open>Executable headers\<close>

record ImageHeaders =
  ih_timestamp :: u32
  ih_image_size :: u32

datatype 'e HeaderError = Header_read 'e | InvalidImage

type_synonym ('s, 'e) callback = "u64 \<Rightarrow> usize \<Rightarrow> ('s, u8 list, 'e) attempt"

definition read_header :: "('s, 'e) callback \<Rightarrow> u64 \<Rightarrow> usize \<Rightarrow> ('s, u8 list, 'e HeaderError) attempt" where
  "read_header read address n s =
     (case read address n s of (s', Ok bs) \<Rightarrow> (s', Ok (fill n bs)) | (s', Err e) \<Rightarrow> (s', Err (Header_read e)))"

definition dos_offset :: "u8 list \<Rightarrow> u32 option" where
  "dos_offset dos =
     (let offset = from_le (take 4 (drop 60 dos))
      in if take 2 dos \<noteq> [0x4D, 0x5A] \<or> \<not> (64 \<le> offset \<and> offset \<le> 1024 * 1024) then None else Some offset)"

definition pe_headers :: "u64 \<Rightarrow> u32 \<Rightarrow> u8 list \<Rightarrow> ImageHeaders option" where
  "pe_headers base offset pe =
     (let image_size = (from_le (take 4 (drop 80 pe)) :: u32);
          optional_bytes = (from_le (take 2 (drop 20 pe)) :: u16)
      in if take 4 pe \<noteq> [0x50, 0x45, 0, 0]
           \<or> take 2 (drop 4 pe) \<noteq> to_le (0x8664 :: u16)
           \<or> optional_bytes < 60
           \<or> take 2 (drop 24 pe) \<noteq> to_le (0x20B :: u16)
           \<or> image_size = 0
           \<or> (case checked_add offset (24 + ucast optional_bytes) of None \<Rightarrow> True | Some end' \<Rightarrow> image_size < end')
           \<or> checked_add base (ucast image_size - 1) = None
         then None
         else Some \<lparr>ih_timestamp = from_le (take 4 (drop 8 pe)), ih_image_size = image_size\<rparr>)"

definition read_amd64_headers :: "u64 \<Rightarrow> ('s, 'e) callback \<Rightarrow> ('s, ImageHeaders, 'e HeaderError) attempt" where
  "read_amd64_headers base read =
     and_then (read_header read base 64) (\<lambda>dos.
     and_then (done_with (ok_or (dos_offset dos) InvalidImage)) (\<lambda>offset.
     and_then (done_with (ok_or (checked_add base (ucast offset)) InvalidImage)) (\<lambda>address.
     and_then (read_header read address 84) (\<lambda>pe.
     done_with (ok_or (pe_headers base offset pe) InvalidImage)))))"

subsection \<open>Ranges\<close>

lemma unat_of_nat64: "n < 2 ^ 64 \<Longrightarrow> unat (of_nat n :: u64) = n"
  by (simp add: unat_of_nat)

lemma unat_ucast64 [simp]: "unat (ucast (w :: u32) :: u64) = unat w"
proof -
  have "unat w < 2 ^ 32" using unsigned_less [of w] by simp
  then show ?thesis by (simp add: unsigned_ucast_eq take_bit_nat_eq_self)
qed

lemma u64_try_from_Some [simp]: "u64_try_from n = Some w \<longleftrightarrow> n < 2 ^ 64 \<and> w = of_nat n"
  by (auto simp: u64_try_from_def)

lemma checked_add_Some_iff:
  "checked_add (a :: 'a::len word) b = Some c \<longleftrightarrow> unat a + unat b < 2 ^ LENGTH('a) \<and> c = a + b"
  by (auto simp: checked_add_def)

text \<open>An accepted span lies between the bounds, last byte included, and does not wrap.\<close>

definition in_bounds :: "ReadLimits \<Rightarrow> u64 \<Rightarrow> usize \<Rightarrow> bool" where
  "in_bounds limits address len \<longleftrightarrow>
     min_address limits \<le> address \<and> unat address + (len - 1) \<le> unat (max_address limits)"

lemma validate_range_Ok:
  "validate_range limits address len = Ok () \<longleftrightarrow> len = 0 \<or> in_bounds limits address len"
proof (cases len)
  case (Suc k)
  have max: "unat (max_address limits) < 2 ^ 64" using unsigned_less [of "max_address limits"] by simp
  consider (below) "unat address < unat (min_address limits)" | (above) "unat (max_address limits) < unat address"
    | (over) "unat (min_address limits) \<le> unat address" "unat address \<le> unat (max_address limits)" "2 ^ 64 \<le> unat address + k"
    | (inside) "unat (min_address limits) \<le> unat address" "unat address \<le> unat (max_address limits)" "unat address + k < 2 ^ 64"
    by linarith
  then show ?thesis
  proof cases
    case over
    then show ?thesis
      using Suc max
      by (auto simp: validate_range_def in_bounds_def checked_add_def unat_of_nat64 word_less_nat_alt word_le_nat_alt)
  next
    case inside
    then have "k < 2 ^ 64" by linarith
    then have k: "unat (of_nat k :: u64) = k" by (rule unat_of_nat64)
    then have "unat (address + of_nat k) = unat address + k" using inside by (simp add: unat_word_ariths)
    then show ?thesis
      using inside Suc k \<open>k < 2 ^ 64\<close>
      by (simp add: validate_range_def in_bounds_def u64_try_from_def checked_add_def ok_or_def word_less_nat_alt word_le_nat_alt not_less)
  qed (simp_all add: Suc validate_range_def in_bounds_def word_less_nat_alt word_le_nat_alt)
qed (simp add: validate_range_def)

lemma module_address_Ok:
  assumes "module_address r rva len = Ok address"
  shows "address = rd_module_base r + ucast (rva_get rva)"
    and "unat address = unat (rd_module_base r) + unat (rva_get rva)"
    and "unat (rva_get rva) + len \<le> unat (rd_image_size r)"
    and "len = 0 \<or> in_bounds (rd_limits r) address len"
proof -
  have rva: "unat (ucast (rva_get rva) :: u64) = unat (rva_get rva)" "unat (ucast (rd_image_size r) :: u64) = unat (rd_image_size r)"
    by simp_all
  from assms have *: "len < 2 ^ 64" "checked_add (ucast (rva_get rva) :: u64) (of_nat len) = Some (ucast (rva_get rva) + of_nat len)"
    "\<not> (ucast (rd_image_size r) :: u64) < ucast (rva_get rva) + of_nat len"
    "checked_add (rd_module_base r) (ucast (rva_get rva)) = Some address" "validate_range (rd_limits r) address len = Ok ()"
    by (auto simp: module_address_def checked_add_Some_iff split: if_splits)
  show "address = rd_module_base r + ucast (rva_get rva)" using checked_add_SomeD(2) [OF *(4)] .
  show "unat address = unat (rd_module_base r) + unat (rva_get rva)" using checked_add_SomeD(1) [OF *(4)] rva by simp
  have "unat (ucast (rva_get rva) + of_nat len :: u64) = unat (rva_get rva) + len"
    using checked_add_SomeD(1) [OF *(2)] *(1) rva by (simp add: unat_of_nat64)
  then show "unat (rva_get rva) + len \<le> unat (rd_image_size r)"
    using *(3) rva by (simp add: word_less_nat_alt not_less)
  show "len = 0 \<or> in_bounds (rd_limits r) address len" using *(5) by (simp only: validate_range_Ok)
qed

subsection \<open>Budgets\<close>

text \<open>A backend that also records what was asked of it.\<close>

definition logged :: "'m backend \<Rightarrow> ('m \<times> (u64 \<times> usize) list) backend" where
  "logged be address len = (\<lambda>(m, log). case be address len m of (m', result) \<Rightarrow> ((m', log @ [(address, len)]), result))"

definition within :: "ReadLimits \<Rightarrow> ('m \<times> (u64 \<times> usize) list) TargetReader \<Rightarrow> bool" where
  "within limits r \<longleftrightarrow>
     min_address (rd_limits r) = min_address limits \<and> max_address (rd_limits r) = max_address limits
     \<and> list_all (\<lambda>(address, len). 0 < len \<and> in_bounds limits address len) (snd (rd_memory r))
     \<and> sum_list (map snd (snd (rd_memory r))) + limit_bytes (rd_limits r) = limit_bytes limits
     \<and> length (snd (rd_memory r)) + limit_reads (rd_limits r) = limit_reads limits"

definition keeps_within :: "ReadLimits \<Rightarrow> (('m \<times> (u64 \<times> usize) list) TargetReader, 'a, 'e) attempt \<Rightarrow> bool" where
  "keeps_within limits m \<longleftrightarrow> (\<forall>r. within limits r \<longrightarrow> within limits (fst (m r)))"

lemma keeps_withinI: "(\<And>r. within limits r \<Longrightarrow> within limits (fst (m r))) \<Longrightarrow> keeps_within limits m"
  by (simp add: keeps_within_def)

lemma keeps_within_and_then:
  "keeps_within limits m \<Longrightarrow> (\<And>x. keeps_within limits (f x)) \<Longrightarrow> keeps_within limits (and_then m f)"
  by (force simp: keeps_within_def and_then_def split: prod.splits result.splits)

lemma keeps_within_done: "keeps_within limits (done_with x)"
  by (simp add: keeps_within_def done_with_def)

lemma keeps_within_map: "keeps_within limits m \<Longrightarrow> keeps_within limits (then_map f m)"
  unfolding then_map_def by (rule keeps_within_and_then [OF _ keeps_within_done])

lemma read_unchecked_within:
  assumes "within limits r" and "len = 0 \<or> in_bounds (rd_limits r) address len"
  shows "within limits (fst (read_unchecked (logged be) address len r))"
proof (cases "len = 0 \<or> limit_bytes (rd_limits r) < len \<or> limit_reads (rd_limits r) = 0")
  case True
  then show ?thesis
    using assms by (auto simp: read_unchecked_def usize_checked_sub_def)
next
  case False
  obtain m log where m: "rd_memory r = (m, log)" by (cases "rd_memory r")
  have "in_bounds limits address len" using assms False by (simp add: in_bounds_def within_def)
  then show ?thesis
    using assms False m
    by (auto simp: read_unchecked_def usize_checked_sub_def logged_def within_def split: prod.splits)
qed

lemma read_at_within: "keeps_within limits (read_at (logged be) address len)"
proof (rule keeps_withinI)
  show "within limits (fst (read_at (logged be) address len r))" if "within limits r" for r
    using that read_unchecked_within [of limits r len address be] validate_range_Ok [of "rd_limits r" address len]
    by (cases "validate_range (rd_limits r) address len") (simp_all add: read_at_def and_then_def done_with_def)
qed

lemma read_module_within: "keeps_within limits (read_module (logged be) rva len)"
proof (rule keeps_withinI)
  show "within limits (fst (read_module (logged be) rva len r))" if "within limits r" for r
    using that read_unchecked_within [of limits r len _ be] module_address_Ok(4) [of r rva len]
    by (cases "module_address r rva len") (simp_all add: read_module_def and_then_def done_with_def)
qed

lemma read_object_within: "keeps_within limits (read_object (logged be) object offset len)"
proof (rule keeps_withinI)
  show "within limits (fst (read_object (logged be) object offset len r))" if "within limits r" for r
    using that read_at_within [of limits be _ len] unfolding keeps_within_def
    by (cases "object_address r object offset len") (simp_all add: read_object_def and_then_def done_with_def)
qed

lemmas reads_within = read_at_within read_module_within read_object_within keeps_within_and_then keeps_within_done keeps_within_map

lemma read_vtable_within: "keeps_within limits (read_vtable_slot_le64 (logged be) object slot)"
proof -
  have "keeps_within limits (\<lambda>r. and_then (done_with (object_address r v off 8)) (read_u64 (logged be)) r)" for v off
  proof (rule keeps_withinI)
    show "within limits (fst (and_then (done_with (object_address r v off 8)) (read_u64 (logged be)) r))"
      if "within limits r" for r
    proof -
      have "keeps_within limits (and_then (done_with (object_address r v off 8)) (read_u64 (logged be)))"
        unfolding read_u64_def by (intro reads_within)
      then show ?thesis using that by (simp add: keeps_within_def)
    qed
  qed
  then show ?thesis
    unfolding read_vtable_slot_le64_def read_u64_def [of "logged be" object] by (intro reads_within)
qed

text \<open>What a provider may call; the fixed-width helpers are calls with a fixed length.\<close>

datatype reader_call =
    Call_module Rva usize
  | Call_at u64 usize
  | Call_object u64 ObjectOffset usize
  | Call_vtable u64 VtableSlot
  | Call_require u64 VtableSlot Rva string

fun perform :: "'m backend \<Rightarrow> reader_call \<Rightarrow> 'm TargetReader \<Rightarrow> 'm TargetReader" where
  "perform be (Call_module rva len) r = fst (read_module be rva len r)"
| "perform be (Call_at address len) r = fst (read_at be address len r)"
| "perform be (Call_object object offset len) r = fst (read_object be object offset len r)"
| "perform be (Call_vtable object slot) r = fst (read_vtable_slot_le64 be object slot r)"
| "perform be (Call_require object slot expected at) r = fst (require_vtable_slot_le64 be object slot expected at r)"

lemma perform_within: "within limits r \<Longrightarrow> within limits (perform (logged be) call r)"
  using reads_within(1-3) [of limits be] read_vtable_within [of limits be]
  by (cases call)
    (auto simp: keeps_within_def require_vtable_slot_le64_def and_then_def split: prod.splits result.splits; metis fst_conv)+

text \<open>
  C29: a provider never reads outside what it was given: whatever calls it makes and whatever the
  process answers, every access that reaches the process is non-empty and lies, last byte
  included, between the permitted addresses, the bytes asked for stay within the byte budget
  and the accesses, failed ones included, within the read budget.
\<close>

theorem target_reads_confined:
  assumes "target_reader_new (m, []) base image_size limits = Ok r"
    and "log = snd (rd_memory (fold (perform (logged be)) calls r))"
  shows "list_all (\<lambda>(address, len). 0 < len \<and> in_bounds limits address len) log
    \<and> sum_list (map snd log) \<le> limit_bytes limits \<and> length log \<le> limit_reads limits"
proof -
  have "within limits r" using assms(1) by (auto simp: target_reader_new_def within_def split: if_splits)
  then have "within limits (fold (perform (logged be)) calls r)"
    by (induction calls arbitrary: r) (simp_all add: perform_within)
  then show ?thesis unfolding assms(2) within_def by linarith
qed

subsection \<open>Little-endian fields\<close>

lemma from_le_Nil [simp]: "from_le [] = 0"
  by (simp add: from_le_def)

lemma from_le_Cons [simp]: "from_le (b # bs) = ucast b + 256 * from_le bs"
  by (simp add: from_le_def)

lemma byte_split:
  fixes x :: "'a::len word"
  assumes "8 \<le> LENGTH('a)"
  shows "ucast (ucast x :: u8) + 256 * take_bit n (drop_bit 8 x) = take_bit (n + 8) x"
proof -
  have low: "ucast (ucast x :: u8) = take_bit 8 x"
    using assms by (intro bit_word_eqI) (auto simp: bit_ucast_iff bit_take_bit_iff)
  have "256 * take_bit n (drop_bit 8 x) = push_bit 8 (take_bit n (drop_bit 8 x))"
    by (simp add: push_bit_eq_mult mult.commute)
  then have "ucast (ucast x :: u8) + 256 * take_bit n (drop_bit 8 x) = take_bit 8 x OR push_bit 8 (take_bit n (drop_bit 8 x))"
    unfolding low by (simp add: disjunctive_add bit_take_bit_iff bit_push_bit_iff)
  also have "\<dots> = take_bit (n + 8) x"
    by (rule bit_word_eqI) (auto simp: bit_or_iff bit_take_bit_iff bit_push_bit_iff bit_drop_bit_eq)
  finally show ?thesis .
qed

lemma from_le_bytes_of:
  fixes w :: "'a::len word"
  assumes "8 \<le> LENGTH('a)"
  shows "from_le (map (\<lambda>i. ucast (drop_bit (8 * (i + k)) w)) [0..<n]) = take_bit (8 * n) (drop_bit (8 * k) w)"
proof (induction n arbitrary: k)
  case (Suc n)
  have "map (\<lambda>i. ucast (drop_bit (8 * (i + k)) w) :: u8) [0..<Suc n] =
      ucast (drop_bit (8 * k) w) # map (\<lambda>i. ucast (drop_bit (8 * (i + Suc k)) w)) [0..<n]"
    by (simp add: upt_conv_Cons map_Suc_upt [symmetric] add.assoc del: upt_Suc)
  moreover have "drop_bit (8 * Suc k) w = drop_bit 8 (drop_bit (8 * k) w)" by (simp add: add.commute)
  ultimately show ?case
    using Suc.IH [of "Suc k"] byte_split [OF assms, of "drop_bit (8 * k) w" "8 * n"] by (simp add: add.commute)
qed simp

lemma from_to_le:
  fixes w :: "'a::len word"
  assumes "8 dvd LENGTH('a)"
  shows "from_le (to_le w) = w"
proof -
  have "0 < LENGTH('a)" by simp
  then have "8 \<le> LENGTH('a)" using assms by (meson dvd_imp_le)
  from from_le_bytes_of [OF this, of 0 w] assms show ?thesis
    by (simp add: to_le_def dvd_mult_div_cancel take_bit_word_eq_self)
qed

lemma length_to_le [simp]: "length (to_le (w :: 'a::len word)) = LENGTH('a) div 8"
  by (simp add: to_le_def)

lemma record_field_at:
  assumes "length pre < 2 ^ 32" and "length pre + length bs \<le> usize_max"
  shows "record_field \<lparr>rv_bytes = pre @ bs @ post, rv_at = at\<rparr> (ObjectOffset (of_nat (length pre))) (length bs) = Ok bs"
proof -
  have "unat (of_nat (length pre) :: u32) = length pre" using assms(1) by (simp add: unat_of_nat)
  then show ?thesis using assms(2) by (simp add: record_field_def usize_checked_add_def ok_or_def)
qed

text \<open>
  fields round-trip: a 16, 32 or 64 bit value stored little-endian at any offset of a record,
  aligned or not, is what the record view decodes there.
\<close>

lemma record_roundtrip:
  assumes "length pre < 2 ^ 32"
  shows "record_u16 \<lparr>rv_bytes = pre @ to_le a @ post, rv_at = at\<rparr> (ObjectOffset (of_nat (length pre))) = Ok a
    \<and> record_u32 \<lparr>rv_bytes = pre @ to_le b @ post, rv_at = at\<rparr> (ObjectOffset (of_nat (length pre))) = Ok b
    \<and> record_u64 \<lparr>rv_bytes = pre @ to_le c @ post, rv_at = at\<rparr> (ObjectOffset (of_nat (length pre))) = Ok c"
proof -
  have room: "length pre + n \<le> usize_max" if "n \<le> 8" for n using assms that by (simp add: usize_max_def)
  show ?thesis
    using record_field_at [OF assms, of "to_le a" post at] record_field_at [OF assms, of "to_le b" post at]
      record_field_at [OF assms, of "to_le c" post at]
      room [of 2] room [of 4] room [of 8]
    by (simp add: record_u16_def record_u32_def record_u64_def from_to_le)
qed

subsection \<open>Instruction operands\<close>

text \<open>
  the target of a RIP-relative operand is computed exactly, never modulo the address space:
  it is found iff the displacement has four bytes and the signed sum lies in the image's 32-bit
  space, and then it is that sum.
\<close>

lemma rip_target_exact:
  "rip_target r n displacement = Some t \<longleftrightarrow>
     length displacement = 4 \<and> uint (rva_get t) = uint (rva_get r) + uint n + sint (from_le displacement :: u32)"
proof -
  define S where "S = uint (rva_get r) + uint n + sint (from_le displacement :: u32)"
  let ?next = "ucast (rva_get r) + ucast n :: u64"
  have small: "uint (rva_get r) < 2 ^ 32" "uint n < 2 ^ 32" "0 \<le> uint (rva_get r)" "0 \<le> uint n"
    using uint_bounded [of "rva_get r"] uint_bounded [of n] by simp_all
  have d: "sint (scast (from_le displacement :: u32) :: u64) = sint (from_le displacement :: u32)"
    by (simp add: sint_up_scast is_up)
  have "sint (from_le displacement :: u32) < 2 ^ 31" using sint_lt [of "from_le displacement :: u32"] by simp
  then have S: "S < 2 ^ 64" unfolding S_def using small by simp
  have add: "checked_add (ucast (rva_get r)) (ucast n) = Some ?next"
    using unsigned_less [of "rva_get r", where 'a = nat] unsigned_less [of n, where 'a = nat] by (simp add: checked_add_def)
  then have "unat ?next = unat (rva_get r) + unat n" by (auto dest: checked_add_SomeD(1))
  then have nxt: "uint ?next = uint (rva_get r) + uint n" by (simp only: uint_nat of_nat_add)
  have signed: "checked_add_signed ?next (scast (from_le displacement :: u32)) = (if 0 \<le> S then Some (word_of_int S) else None)"
    using S by (simp add: checked_add_signed_def nxt d S_def [symmetric])
  have last: "u32_try_from (word_of_int S) = Some w \<longleftrightarrow> uint w = S" if "0 \<le> S" for w
  proof -
    have u: "uint (word_of_int S :: u64) = S" using that S by (simp add: uint_word_of_int_eq take_bit_int_eq_self)
    have "uint w < 2 ^ 32" using uint_bounded [of w] by simp
    moreover have "uint (ucast (word_of_int S :: u64) :: u32) = S" if "S < 2 ^ 32"
      using that \<open>0 \<le> S\<close> u by (simp add: unsigned_ucast_eq take_bit_int_eq_self)
    ultimately show ?thesis
      using u by (auto simp: u32_try_from_def word_less_def word_uint_eq_iff)
  qed
  have "0 \<le> uint (rva_get t)" by simp
  then show ?thesis
    using last by (cases t) (auto simp: rip_target_def Let_def add signed S_def [symmetric] simp del: uint_ge_0)
qed

subsection \<open>Executable headers are bounded\<close>

lemma pe_headers_Some:
  assumes "pe_headers base offset pe = Some h" and "64 \<le> offset" and "offset \<le> 1024 * 1024"
  shows "0 < unat (ih_image_size h)" and "unat base + unat (ih_image_size h) \<le> 2 ^ 64"
    and "unat offset + 84 \<le> unat (ih_image_size h)"
proof -
  define size where "size = (from_le (take 4 (drop 80 pe)) :: u32)"
  define opt where "opt = (from_le (take 2 (drop 20 pe)) :: u16)"
  have h: "ih_image_size h = size" "size \<noteq> 0" "\<not> opt < 60" "checked_add base (ucast size - 1) \<noteq> None"
    and fits: "case checked_add offset (24 + ucast opt) of None \<Rightarrow> False | Some end' \<Rightarrow> \<not> size < end'"
    using assms(1) by (auto simp: pe_headers_def Let_def size_def opt_def split: if_splits option.splits)
  have "0 < unat size" using h(2) by (simp add: unat_gt_0)
  then show "0 < unat (ih_image_size h)" using h(1) by simp
  have "(ucast size :: u64) \<noteq> 0" using \<open>0 < unat size\<close> by (metis less_irrefl unat_0 unat_ucast64)
  then have "unat (ucast size - 1 :: u64) = unat size - 1" by (simp add: unat_minus_one)
  then show "unat base + unat (ih_image_size h) \<le> 2 ^ 64"
    using h(1,4) \<open>0 < unat size\<close> by (auto simp: checked_add_eq_None_iff)
  have "unat (ucast opt :: u32) = unat opt"
  proof -
    have "unat opt < 2 ^ 16" using unsigned_less [of opt] by simp
    then show ?thesis by (simp add: unsigned_ucast_eq take_bit_nat_eq_self)
  qed
  moreover have "unat opt < 2 ^ 16" using unsigned_less [of opt] by simp
  ultimately have "unat (24 + ucast opt :: u32) = 24 + unat opt" by (simp add: unat_word_ariths)
  moreover have "60 \<le> unat opt" using h(3) by (simp add: word_less_nat_alt)
  moreover from fits obtain e where "checked_add offset (24 + ucast opt) = Some e" "\<not> size < e" by (auto split: option.splits)
  ultimately show "unat offset + 84 \<le> unat (ih_image_size h)"
    using h(1) by (auto dest!: checked_add_SomeD(1) simp: word_less_nat_alt)
qed

lemma dos_offset_Some: "dos_offset dos = Some offset \<Longrightarrow> 64 \<le> offset \<and> offset \<le> 1024 * 1024"
  by (auto simp: dos_offset_def Let_def split: if_splits)

text \<open>
  an executable whose headers are accepted is bounded: the image is not empty and does not
  wrap the address space, both header reads (of 64 and 84 bytes, no others) lie inside the image
  they describe, and a reader is granted for it exactly when the image lies in the permitted
  addresses.
\<close>

lemma headers_bounded:
  assumes "read_amd64_headers base read s = (s', Ok h)"
  shows "0 < unat (ih_image_size h) \<and> unat base + unat (ih_image_size h) \<le> 2 ^ 64
    \<and> (\<exists>offset dos pe s1. 64 \<le> unat offset \<and> unat offset + 84 \<le> unat (ih_image_size h)
          \<and> read base 64 s = (s1, Ok dos) \<and> read (base + ucast (offset :: u32)) 84 s1 = (s', Ok pe))
    \<and> (is_ok (target_reader_new m base (ih_image_size h) limits) \<longleftrightarrow> in_bounds limits base (unat (ih_image_size h)))"
proof -
  obtain dos s1 offset pe where run: "read base 64 s = (s1, Ok dos)" "dos_offset (fill 64 dos) = Some offset"
    "read (base + ucast offset) 84 s1 = (s', Ok pe)" "pe_headers base offset (fill 84 pe) = Some h"
    using assms
    by (auto simp: read_amd64_headers_def and_then_def done_with_def read_header_def ok_or_def checked_add_def
        split: prod.splits result.splits option.splits if_splits)
  note off = dos_offset_Some [OF run(2)]
  note size = pe_headers_Some [OF run(4) conjunct1 [OF off] conjunct2 [OF off]]
  have "64 \<le> unat offset" using off by (simp add: word_le_nat_alt)
  moreover have "is_ok (target_reader_new m base (ih_image_size h) limits) \<longleftrightarrow> in_bounds limits base (unat (ih_image_size h))"
    using size(1) validate_range_Ok [of limits base "unat (ih_image_size h)"]
    by (cases "validate_range limits base (unat (ih_image_size h))") (auto simp: target_reader_new_def)
  ultimately show ?thesis using run(1,3) size by blast
qed

subsection \<open>Witnesses\<close>

definition demo_limits :: ReadLimits where
  "demo_limits = \<lparr>min_address = 0x1000, max_address = 0x1FFF, limit_bytes = 10, limit_reads = 2\<rparr>"

text \<open>A process of zeroes; the second read would run over the upper bound and the fourth over the budget.\<close>

lemmas reader_eval =
  target_reader_new_def demo_limits_def validate_range_def u64_try_from_def checked_add_def ok_or_def
  read_at_def read_module_def module_address_def and_then_def done_with_def read_unchecked_def usize_checked_sub_def
  logged_def fill_def

theorem target_reads_confined_witness:
  "\<exists>r. target_reader_new ((), []) 0x1000 0x100 demo_limits = Ok r
     \<and> snd (rd_memory (fold (perform (logged (\<lambda>_ n m. (m, Ok (replicate n 0)))))
           [Call_at 0x1004 8, Call_at 0x1FFE 4, Call_module (Rva 16) 1, Call_at 0x1000 1] r)) = [(0x1004, 8), (0x1010, 1)]
     \<and> sum_list (map snd [(0x1004 :: u64, 8 :: nat), (0x1010, 1)]) \<le> limit_bytes demo_limits"
proof -
  have new: "target_reader_new ((), []) 0x1000 0x100 demo_limits =
      Ok \<lparr>rd_memory = ((), []), rd_module_base = 0x1000, rd_image_size = 0x100, rd_limits = demo_limits\<rparr>" (is "_ = Ok ?r")
    by (simp add: reader_eval)
  have log: "[(0x1004, 8), (0x1010, 1)] =
      snd (rd_memory (fold (perform (logged (\<lambda>_ n m. (m, Ok (replicate n 0)))))
           [Call_at 0x1004 8, Call_at 0x1FFE 4, Call_module (Rva 16) 1, Call_at 0x1000 1] ?r))"
    by (simp add: reader_eval)
  show ?thesis
    by (rule exI [of _ ?r], intro conjI) (fact new, fact log [symmetric],
      rule conjunct1 [OF conjunct2 [OF target_reads_confined [OF new log]]])
qed

text \<open>A minimal image at address zero, with its second header right after the first.\<close>

definition demo_image :: "u8 list" where
  "demo_image =
     [0x4D, 0x5A] @ replicate 58 0 @ to_le (64 :: u32) @
     [0x50, 0x45, 0, 0] @ to_le (0x8664 :: u16) @ [0, 0] @ to_le (7 :: u32) @ replicate 8 0 @ to_le (240 :: u16) @ [0, 0] @
     to_le (0x20B :: u16) @ replicate 54 0 @ to_le (0x1000 :: u32)"

end
