(* ===== verification/Native_String.thy ===== *)
theory Native_String
  imports Target_Memory Poll_Batch
begin

section \<open>Strings of the observed process\<close>

text \<open>
  \<open>crates/games/warframe/provider/src/native_string.rs\<close>: a native string is a header of 16 bytes
  that holds either up to 15 bytes inline or a pointer and a length. It is read twice, and its
  length is bounded before its storage is touched. A string of the model is the list of its UTF-8
  bytes, so \<open>String::from_utf8\<close> is the check \<open>valid_utf8\<close> of the byte ranges the encoding allows.
\<close>

definition byte_in :: "nat \<Rightarrow> nat \<Rightarrow> u8 \<Rightarrow> bool" where
  "byte_in lo hi b \<longleftrightarrow> lo \<le> unat b \<and> unat b \<le> hi"

fun valid_utf8 :: "u8 list \<Rightarrow> bool" where
  "valid_utf8 [] = True"
| "valid_utf8 (a # bs) =
     (if byte_in 0 0x7F a then valid_utf8 bs
      else (case bs of
          [] \<Rightarrow> False
        | b # cs \<Rightarrow>
          if byte_in 0xC2 0xDF a then byte_in 0x80 0xBF b \<and> valid_utf8 cs
          else (case cs of
              [] \<Rightarrow> False
            | c # ds \<Rightarrow>
              if byte_in 0xE0 0xEF a
              then byte_in (if a = 0xE0 then 0xA0 else 0x80) (if a = 0xED then 0x9F else 0xBF) b
                   \<and> byte_in 0x80 0xBF c \<and> valid_utf8 ds
              else (case ds of
                  [] \<Rightarrow> False
                | d # es \<Rightarrow>
                  byte_in 0xF0 0xF4 a
                  \<and> byte_in (if a = 0xF0 then 0x90 else 0x80) (if a = 0xF4 then 0x8F else 0xBF) b
                  \<and> byte_in 0x80 0xBF c \<and> byte_in 0x80 0xBF d \<and> valid_utf8 es))))"

definition string_of_bytes :: "u8 list \<Rightarrow> string" where
  "string_of_bytes bs = map (\<lambda>b. char_of (unat b)) bs"

subsection \<open>Headers\<close>

datatype Storage = Inline usize | External u64 usize

fun storage_length :: "Storage \<Rightarrow> usize" where
  "storage_length (Inline len) = len"
| "storage_length (External _ len) = len"

definition header_storage :: "u8 list \<Rightarrow> (Storage, TargetError) result" where
  "header_storage header =
     (let unused = header ! 15
      in if unused \<le> 15 then Ok (Inline (unat (15 - unused)))
         else if unused = 0xFF
         then (let pointer = from_le (take 8 header);
                   len = unat ((from_le (take 4 (drop 8 header)) :: u32) AND 0x0FFFFFFF)
               in if len \<noteq> 0 \<and> pointer = 0 then Err (InvalidData ''native string pointer'')
                  else Ok (External pointer len))
         else Err (InvalidData ''native string representation''))"

definition decode_header :: "u8 list \<Rightarrow> usize \<Rightarrow> (Storage, TargetError) result" where
  "decode_header header maximum =
     rbind (header_storage header) (\<lambda>storage.
       if maximum < storage_length storage then Err (SourceLimit ''native string length'') else Ok storage)"

definition encoded_length :: "u8 list \<Rightarrow> (usize, TargetError) result" where
  "encoded_length header = rbind (decode_header header usize_max) (\<lambda>storage. Ok (storage_length storage))"

subsection \<open>Reading\<close>

definition string_contents :: "'m backend \<Rightarrow> u8 list \<Rightarrow> Storage \<Rightarrow> ('m TargetReader, u8 list, TargetError) attempt" where
  "string_contents be header storage =
     (case storage of
        Inline len \<Rightarrow> done_with (Ok (take len header))
      | External pointer len \<Rightarrow> if len = 0 then done_with (Ok []) else read_at be pointer len)"

definition checked_string :: "u8 list \<Rightarrow> (string, TargetError) result" where
  "checked_string bytes =
     (if 0 \<in> set bytes then Err (InvalidData ''native string NUL'')
      else if \<not> valid_utf8 bytes then Err (InvalidData ''native string UTF-8'')
      else Ok (string_of_bytes bytes))"

definition read_string_once :: "'m backend \<Rightarrow> u64 \<Rightarrow> usize \<Rightarrow> ('m TargetReader, string, TargetError) attempt" where
  "read_string_once be address maximum =
     and_then (read_at be address 16) (\<lambda>header.
     and_then (done_with (decode_header header maximum)) (\<lambda>storage.
     and_then (string_contents be header storage) (\<lambda>bytes.
     and_then (read_at be address 16) (\<lambda>again.
     done_with (if again \<noteq> header then Err (Unstable ''native string header'') else checked_string bytes)))))"

definition read_string :: "'m backend \<Rightarrow> u64 \<Rightarrow> ObjectOffset \<Rightarrow> usize \<Rightarrow> ('m TargetReader, string, TargetError) attempt" where
  "read_string be object offset maximum r =
     and_then (done_with (object_address r object offset 16))
       (\<lambda>address. read_stable (read_string_once be address maximum) (Unstable ''native string contents'')) r"

text \<open>
  \<open>player_name\<close> drops trailing private-use characters (U+E000 to U+F8FF), which the game uses as
  platform icons. They take three bytes.
\<close>

definition private_use :: "string \<Rightarrow> bool" where
  "private_use c \<longleftrightarrow>
     (case map of_char c :: nat list of
        [a, b, d] \<Rightarrow> (let code = (a - 0xE0) * 4096 + (b - 0x80) * 64 + (d - 0x80)
                     in 0xE0 \<le> a \<and> a \<le> 0xEF \<and> 0xE000 \<le> code \<and> code \<le> 0xF8FF)
      | _ \<Rightarrow> False)"

definition player_name :: "string \<Rightarrow> string" where
  "player_name value = concat (rev (dropWhile private_use (rev (chars value))))"

subsection \<open>Facts about attempts\<close>

lemma and_then_Ok:
  "and_then m f s = (s', Ok y) \<longleftrightarrow> (\<exists>s1 x. m s = (s1, Ok x) \<and> f x s1 = (s', Ok y))"
  by (auto simp: and_then_def split: prod.splits result.splits)

lemma done_with_eq [simp]: "done_with r s = (s', r') \<longleftrightarrow> s' = s \<and> r = r'"
  by (auto simp: done_with_def)

lemma read_stable_Ok: "read_stable read changed s = (s', Ok x) \<Longrightarrow> \<exists>s1. read s = (s1, Ok x)"
  by (auto simp: read_stable_def and_then_Ok split: if_splits)

lemma read_unchecked_length: "read_unchecked be address len r = (r', Ok bs) \<Longrightarrow> length bs = len"
  by (auto simp: read_unchecked_def fill_def split: if_splits option.splits prod.splits result.splits)

lemma read_at_length: "read_at be address len r = (r', Ok bs) \<Longrightarrow> length bs = len"
  by (auto simp: read_at_def and_then_Ok dest: read_unchecked_length)

subsection \<open>What is read is a string\<close>

lemma string_contents_length:
  "string_contents be header storage r = (r', Ok bytes) \<Longrightarrow> length bytes \<le> storage_length storage"
  by (cases storage) (auto simp: string_contents_def dest: read_at_length split: if_splits)

lemma read_string_once_bounded:
  assumes "read_string_once be address maximum r = (r', Ok s)"
  shows "length s \<le> maximum" and "CHR 0x00 \<notin> set s"
proof -
  obtain header storage bytes r1 r2 where d: "decode_header header maximum = Ok storage"
      "string_contents be header storage r1 = (r2, Ok bytes)" "checked_string bytes = Ok s"
    using assms by (auto simp: read_string_once_def and_then_Ok split: if_splits)
  have "storage_length storage \<le> maximum" using d(1) by (auto simp: decode_header_def split: if_splits)
  moreover have s: "s = string_of_bytes bytes" "0 \<notin> set bytes" using d(3) by (auto simp: checked_string_def split: if_splits)
  ultimately show "length s \<le> maximum" using string_contents_length [OF d(2)] by (simp add: string_of_bytes_def)
  show "CHR 0x00 \<notin> set s"
  proof
    assume "CHR 0x00 \<in> set s"
    then obtain b where b: "b \<in> set bytes" "CHR 0x00 = char_of (unat b)" by (auto simp: s(1) string_of_bytes_def)
    have "unat b < 256" using unsigned_less [of b, where 'a = nat] by simp
    moreover have "(of_char (char_of (unat b) :: char) :: nat) = 0" unfolding b(2) [symmetric] by simp
    ultimately have "unat b = 0" by simp
    then show False using b(1) s(2) by (simp add: unat_eq_zero)
  qed
qed

lemma read_string_bounded:
  assumes "read_string be object offset maximum r = (r', Ok s)"
  shows "length s \<le> maximum" and "CHR 0x00 \<notin> set s"
proof -
  obtain address r1 r2 where "read_string_once be address maximum r1 = (r2, Ok s)"
    using assms by (auto simp: read_string_def and_then_Ok dest!: read_stable_Ok)
  then show "length s \<le> maximum" and "CHR 0x00 \<notin> set s" using read_string_once_bounded by blast+
qed

end
