(* ===== verification/Chat_Model.thy ===== *)
theory Chat_Model
  imports Native_String
begin

section \<open>Chat messages\<close>

text \<open>
  \<open>crates/games/warframe/model/src/chat.rs\<close> and \<open>provider/src/topics/chat/layout.rs\<close>: the public chat
  types, and what a native entry means: its clock time, its channel, its direction and its peer.
\<close>

subsection \<open>The public types\<close>

record ChatTime =
  ct_hour :: u8
  ct_minute :: u8

definition chat_time_new :: "u8 \<Rightarrow> u8 \<Rightarrow> ChatTime option" where
  "chat_time_new hour minute =
     (if hour < 24 \<and> minute < 60 then Some \<lparr>ct_hour = hour, ct_minute = minute\<rparr> else None)"

datatype ChatChannel =
  Direct_chat | Squad_chat | Clan_chat | Alliance_chat | Region_chat | QuestionsAndAnswers | Recruiting_chat | Trade_chat
  | DesignCouncil | Hub_chat | Other_chat

datatype ChatDirection = Incoming | Outgoing | System_direction | Unknown_direction

record ChatMessage =
  cm_channel :: ChatChannel
  cm_sender :: "string option"
  cm_text :: string
  cm_game_time :: "ChatTime option"
  cm_direction :: ChatDirection
  cm_conversation_id :: string
  cm_peer :: "string option"

datatype ChatUpdate = Message_update ChatMessage | Gap_update ChatChannel

subsection \<open>Native history\<close>

text \<open>The types of \<open>acquisition.rs\<close>. An occurrence is an entry up to its \<open>next\<close> link, which changes when one is appended.\<close>

record Links =
  ln_next :: u64
  ln_previous :: u64

record Entry =
  en_address :: u64
  en_links :: Links
  en_role :: u32
  en_sender :: string
  en_text :: string
  en_game_time :: "ChatTime option"

record Channel =
  ch_address :: u64
  ch_links :: Links
  ch_key :: string
  ch_entry_links :: Links
  ch_entries :: "Entry list"

type_synonym History = "Channel list"

definition same_occurrence :: "Entry \<Rightarrow> Entry \<Rightarrow> bool" where
  "same_occurrence e f \<longleftrightarrow>
     en_address e = en_address f \<and> ln_previous (en_links e) = ln_previous (en_links f) \<and> en_role e = en_role f
     \<and> en_sender e = en_sender f \<and> en_text e = en_text f \<and> en_game_time e = en_game_time f"

subsection \<open>Interpretation\<close>

definition digit_value :: "char \<Rightarrow> u8" where
  "digit_value c = of_nat (of_char c) - 48"

definition ascii_digit :: "char \<Rightarrow> bool" where
  "ascii_digit c \<longleftrightarrow> CHR ''0'' \<le> c \<and> c \<le> CHR ''9''"

definition chat_time :: "string \<Rightarrow> (ChatTime option, TargetError) result" where
  "chat_time text =
     (if text = [] then Ok None
      else (case text of
          [a, h1, h2, b, m1, m2, c, d] \<Rightarrow>
            if a = CHR ''['' \<and> b = CHR '':'' \<and> c = CHR '']'' \<and> d = CHR '' '' \<and> list_all ascii_digit [h1, h2, m1, m2]
            then ok_or (map_option Some (chat_time_new (digit_value h1 * 10 + digit_value h2) (digit_value m1 * 10 + digit_value m2)))
                   (InvalidData ''chat clock time'')
            else Err (InvalidData ''chat timestamp representation'')
        | _ \<Rightarrow> Err (InvalidData ''chat timestamp representation'')))"

definition starts_with :: "string \<Rightarrow> string \<Rightarrow> bool" where
  "starts_with p s \<longleftrightarrow> take (length p) s = p"

fun split_once :: "char \<Rightarrow> string \<Rightarrow> (string \<times> string) option" where
  "split_once c [] = None"
| "split_once c (x # xs) = (if x = c then Some ([], xs) else map_option (\<lambda>(a, b). (x # a, b)) (split_once c xs))"

definition participants :: "string \<Rightarrow> (string \<times> string) option" where
  "participants key =
     (if starts_with ''#'' key then None
      else Option.bind (split_once (CHR '','') key) (\<lambda>(first, second).
        (let first = player_name first; second = player_name second
         in if first \<noteq> [] \<and> second \<noteq> [] \<and> CHR '','' \<notin> set second then Some (first, second) else None)))"

definition chat_channel :: "string \<Rightarrow> ChatChannel" where
  "chat_channel key =
     (if starts_with ''#Q_'' key then QuestionsAndAnswers
      else if starts_with ''#R_'' key then Recruiting_chat
      else if starts_with ''#T_'' key then Trade_chat
      else if starts_with ''#H_'' key then Hub_chat
      else if starts_with ''#G_'' key then Region_chat
      else if starts_with ''#S'' key then Squad_chat
      else if starts_with ''#C'' key then Clan_chat
      else if key = ''#D'' \<or> starts_with ''#D_'' key then DesignCouncil
      else if participants key \<noteq> None then Direct_chat
      else Other_chat)"

definition ascii_lower :: "char \<Rightarrow> char" where
  "ascii_lower c = (if CHR ''A'' \<le> c \<and> c \<le> CHR ''Z'' then char_of (of_char c + 32 :: nat) else c)"

definition eq_ignore_ascii_case :: "string \<Rightarrow> string \<Rightarrow> bool" where
  "eq_ignore_ascii_case a b \<longleftrightarrow> map ascii_lower a = map ascii_lower b"

definition known_local :: "string option \<Rightarrow> string option" where
  "known_local local =
     (case local of None \<Rightarrow> None | Some name \<Rightarrow> if player_name name = [] then None else Some (player_name name))"

definition message_direction :: "string \<Rightarrow> string option \<Rightarrow> ChatDirection" where
  "message_direction raw_sender local =
     (if raw_sender = [] then System_direction
      else if player_name raw_sender = [] then Unknown_direction
      else (case local of
          None \<Rightarrow> Unknown_direction
        | Some name \<Rightarrow> if eq_ignore_ascii_case (player_name raw_sender) name then Outgoing else Incoming))"

definition message_peer :: "string \<Rightarrow> string option \<Rightarrow> string option" where
  "message_peer key local =
     Option.bind local (\<lambda>name.
     Option.bind (participants key) (\<lambda>(first, second).
       (case (eq_ignore_ascii_case first name, eq_ignore_ascii_case second name) of
          (True, False) \<Rightarrow> Some second
        | (False, True) \<Rightarrow> Some first
        | _ \<Rightarrow> None)))"

definition chat_message :: "Entry \<Rightarrow> string \<Rightarrow> string \<Rightarrow> string option \<Rightarrow> ChatMessage" where
  "chat_message entry key conversation_id local =
     (let sender = player_name (en_sender entry); local = known_local local
      in \<lparr>cm_channel = chat_channel key, cm_sender = (if sender = [] then None else Some sender), cm_text = en_text entry,
          cm_game_time = en_game_time entry, cm_direction = message_direction (en_sender entry) local,
          cm_conversation_id = conversation_id, cm_peer = message_peer key local\<rparr>)"

lemma same_occurrence_refl [simp]: "same_occurrence e e"
  by (simp add: same_occurrence_def)

lemma same_occurrence_sym: "same_occurrence e f \<Longrightarrow> same_occurrence f e"
  by (simp add: same_occurrence_def)

lemma same_occurrence_trans: "same_occurrence e f \<Longrightarrow> same_occurrence f g \<Longrightarrow> same_occurrence e g"
  by (simp add: same_occurrence_def)

lemma same_occurrence_message: "same_occurrence e f \<Longrightarrow> chat_message e = chat_message f"
  by (intro ext) (simp add: same_occurrence_def chat_message_def)

lemma message_id [simp]: "cm_conversation_id (chat_message e key cid local) = cid"
  by (simp add: chat_message_def Let_def)

end
