(* ===== verification/Chat_Cursor.thy ===== *)
theory Chat_Cursor
  imports Chat_Model Ordered_Map
begin

section \<open>Chat positions\<close>

text \<open>
  \<open>crates/games/warframe/provider/src/topics/chat/cursor.rs\<close>: the cursor remembers, for every channel
  instance, the last entry that was published and an opaque conversation ID. \<open>chat_prepare\<close> turns
  a history into the updates to publish and the cursor to use if they are accepted; a rejected
  publication keeps the old cursor.
\<close>

definition MAX_EVENTS :: nat where "MAX_EVENTS = 32"

record Position =
  ps_channel_address :: u64
  ps_conversation_id :: string
  ps_anchor :: "Entry option"

record ChatCursor =
  cc_positions :: "(string, Position) btree option"
  cc_next_conversation :: u64

definition chat_cursor_default :: ChatCursor where
  "chat_cursor_default = \<lparr>cc_positions = None, cc_next_conversation = 0\<rparr>"

text \<open>\<open>format!("c{n}")\<close>.\<close>

fun decimal :: "nat \<Rightarrow> string" where
  "decimal n = (if n < 10 then [char_of (48 + n)] else decimal (n div 10) @ [char_of (48 + n mod 10)])"

declare decimal.simps [simp del]

definition conversation_name :: "u64 \<Rightarrow> string" where
  "conversation_name n = CHR ''c'' # decimal (unat n)"

fun find_index :: "('a \<Rightarrow> bool) \<Rightarrow> 'a list \<Rightarrow> nat option" where
  "find_index P [] = None"
| "find_index P (x # xs) = (if P x then Some 0 else map_option Suc (find_index P xs))"

definition last_entry :: "Entry list \<Rightarrow> Entry option" where
  "last_entry es = (if es = [] then None else Some (last es))"

definition previous_position :: "ChatCursor \<Rightarrow> Channel \<Rightarrow> Position option" where
  "previous_position cursor channel =
     (case cc_positions cursor of
        None \<Rightarrow> None
      | Some positions \<Rightarrow>
        (case bt_get positions (ch_key channel) of
           None \<Rightarrow> None
         | Some p \<Rightarrow> if ps_channel_address p = ch_address channel then Some p else None))"

definition channel_position :: "ChatCursor \<Rightarrow> u64 \<Rightarrow> Channel \<Rightarrow> (u64 \<times> Position, TargetError) result" where
  "channel_position cursor next channel =
     (case previous_position cursor channel of
        Some p \<Rightarrow> Ok (next, p)
      | None \<Rightarrow> rbind (ok_or (checked_add next 1) (SourceLimit ''chat conversation IDs'')) (\<lambda>n.
          Ok (n, \<lparr>ps_channel_address = ch_address channel, ps_conversation_id = conversation_name n, ps_anchor = None\<rparr>)))"

definition resume_index :: "Entry list \<Rightarrow> Entry option \<Rightarrow> nat option" where
  "resume_index entries anchor =
     (case anchor of
        None \<Rightarrow> Some 0
      | Some a \<Rightarrow> map_option (\<lambda>i. i + 1) (find_index (\<lambda>entry. same_occurrence entry a) entries))"

definition channel_updates ::
  "bool \<Rightarrow> nat \<Rightarrow> string option \<Rightarrow> Channel \<Rightarrow> Position \<Rightarrow> Position \<times> ChatUpdate list \<times> bool" where
  "channel_updates initial allowance local channel position =
     (let entries = ch_entries channel; key = ch_key channel
      in if initial then (position\<lparr>ps_anchor := last_entry entries\<rparr>, [], False)
         else (case resume_index entries (ps_anchor position) of
             None \<Rightarrow> (position\<lparr>ps_anchor := last_entry entries\<rparr>, [Gap_update (chat_channel key)], False)
           | Some start \<Rightarrow>
             (let pending = drop start entries; sent = take allowance pending
              in (if sent = [] then position else position\<lparr>ps_anchor := Some (last sent)\<rparr>,
                  map (\<lambda>entry. Message_update (chat_message entry key (ps_conversation_id position) local)) sent,
                  allowance < length pending))))"

record Preparation =
  pp_positions :: "(string, Position) btree"
  pp_next :: u64
  pp_updates :: "ChatUpdate list"
  pp_more :: bool

definition prepare_channel ::
  "ChatCursor \<Rightarrow> nat \<Rightarrow> string option \<Rightarrow> Preparation \<Rightarrow> Channel \<Rightarrow> (Preparation, TargetError) result" where
  "prepare_channel cursor allowance local st channel =
     rbind (channel_position cursor (pp_next st) channel) (\<lambda>(next, position).
       (case channel_updates (cc_positions cursor = None) allowance local channel position of
          (position', updates, rest) \<Rightarrow>
            Ok \<lparr>pp_positions = bt_insert (ch_key channel) position' (pp_positions st), pp_next = next,
                pp_updates = pp_updates st @ updates, pp_more = (pp_more st \<or> rest)\<rparr>))"

definition chat_allowance :: "History \<Rightarrow> nat" where
  "chat_allowance history = MAX_EVENTS div max (length history) 1"

definition chat_prepare ::
  "ChatCursor \<Rightarrow> History \<Rightarrow> string option \<Rightarrow> (ChatCursor \<times> ChatUpdate list \<times> bool, TargetError) result" where
  "chat_prepare cursor history local =
     rbind (try_fold (prepare_channel cursor (chat_allowance history) local)
              \<lparr>pp_positions = [], pp_next = cc_next_conversation cursor, pp_updates = [], pp_more = False\<rparr> history)
       (\<lambda>st. Ok (\<lparr>cc_positions = Some (pp_positions st), cc_next_conversation = pp_next st\<rparr>, pp_updates st, pp_more st))"

subsection \<open>Conversation names are distinct\<close>

fun number :: "string \<Rightarrow> nat" where
  "number s = foldl (\<lambda>n c. 10 * n + (of_char c - 48)) 0 s"

declare number.simps [simp del]

lemma number_decimal: "number (decimal n) = n"
proof (induction n rule: decimal.induct)
  case (1 n)
  have digit: "(of_char (char_of (48 + d) :: char) :: nat) - 48 = d" if "d < 10" for d using that by simp
  show ?case
  proof (cases "n < 10")
    case True
    then show ?thesis using digit by (simp add: decimal.simps [of n] number.simps)
  next
    case False
    have "number (decimal n) = 10 * number (decimal (n div 10)) + n mod 10"
      using False digit [of "n mod 10"] by (subst decimal.simps) (simp add: number.simps)
    then show ?thesis using 1 [OF False] by simp
  qed
qed

lemma conversation_name_inject [simp]: "conversation_name m = conversation_name n \<longleftrightarrow> m = n"
proof
  assume "conversation_name m = conversation_name n"
  then have "number (decimal (unat m)) = number (decimal (unat n))" by (simp add: conversation_name_def)
  then show "m = n" unfolding number_decimal by (rule word_unat_eq_iff [THEN iffD2])
qed simp

subsection \<open>One preparation\<close>

text \<open>
  What a preparation does to every channel: each keeps the position it had if it is still the same
  instance, and gets a new one with the next name otherwise. \<open>assigned\<close> are the positions before
  the updates of the channels, with the name counter threaded through.
\<close>

fun assigned :: "ChatCursor \<Rightarrow> u64 \<Rightarrow> History \<Rightarrow> (u64 \<times> Position list) option" where
  "assigned cursor next [] = Some (next, [])"
| "assigned cursor next (channel # history) =
     (case channel_position cursor next channel of
        Err _ \<Rightarrow> None
      | Ok (next', p) \<Rightarrow> map_option (\<lambda>(next'', ps). (next'', p # ps)) (assigned cursor next' history))"

definition outcome :: "ChatCursor \<Rightarrow> nat \<Rightarrow> string option \<Rightarrow> Channel \<times> Position \<Rightarrow> Position \<times> ChatUpdate list \<times> bool" where
  "outcome cursor allowance local = (\<lambda>(channel, position). channel_updates (cc_positions cursor = None) allowance local channel position)"

definition prepared_from ::
  "ChatCursor \<Rightarrow> nat \<Rightarrow> string option \<Rightarrow> Preparation \<Rightarrow> u64 \<Rightarrow> (Channel \<times> Position) list \<Rightarrow> Preparation" where
  "prepared_from cursor allowance local st next cps =
     \<lparr>pp_positions = fold (\<lambda>cp. bt_insert (ch_key (fst cp)) (fst (outcome cursor allowance local cp))) cps (pp_positions st),
      pp_next = next,
      pp_updates = pp_updates st @ concat (map (\<lambda>cp. fst (snd (outcome cursor allowance local cp))) cps),
      pp_more = (pp_more st \<or> list_ex (\<lambda>cp. snd (snd (outcome cursor allowance local cp))) cps)\<rparr>"

lemma prepared_from_Nil: "prepared_from cursor allowance local st (pp_next st) [] = st"
  by (simp add: prepared_from_def)

lemma prepared_from_Cons:
  "prepared_from cursor allowance local (prepared_from cursor allowance local st n [cp]) n' cps =
     prepared_from cursor allowance local st n' (cp # cps)"
  by (simp add: prepared_from_def disj_assoc)

lemma prepare_channel_eq:
  "prepare_channel cursor allowance local st channel =
     rbind (channel_position cursor (pp_next st) channel) (\<lambda>(next, position).
       Ok (prepared_from cursor allowance local st next [(channel, position)]))"
  by (cases "channel_position cursor (pp_next st) channel")
    (auto simp: prepare_channel_def prepared_from_def outcome_def split: prod.split)

lemma try_fold_prepare:
  "try_fold (prepare_channel cursor allowance local) st history =
     (case assigned cursor (pp_next st) history of
        None \<Rightarrow> Err (SourceLimit ''chat conversation IDs'')
      | Some (next, ps) \<Rightarrow> Ok (prepared_from cursor allowance local st next (zip history ps)))"
proof (induction history arbitrary: st)
  case Nil
  show ?case by (simp add: prepared_from_Nil)
next
  case (Cons channel history)
  show ?case
  proof (cases "channel_position cursor (pp_next st) channel")
    case (Err e)
    then have "e = SourceLimit ''chat conversation IDs''" by (auto simp: channel_position_def ok_or_def split: option.splits)
    then show ?thesis using Err by (simp add: prepare_channel_eq)
  next
    case (Ok np)
    obtain next' position where np: "np = (next', position)" by (cases np)
    let ?st = "prepared_from cursor allowance local st next' [(channel, position)]"
    have "pp_next ?st = next'" by (simp add: prepared_from_def)
    then show ?thesis
      using Cons.IH [of ?st] Ok np by (auto simp: prepare_channel_eq prepared_from_Cons split: option.split)
  qed
qed

lemma chat_prepare_Ok:
  "chat_prepare cursor history local = Ok (cursor', updates, again) \<longleftrightarrow>
     (\<exists>ps. assigned cursor (cc_next_conversation cursor) history = Some (cc_next_conversation cursor', ps)
        \<and> cc_positions cursor' = Some (fold (\<lambda>cp. bt_insert (ch_key (fst cp)) (fst (outcome cursor (chat_allowance history) local cp))) (zip history ps) [])
        \<and> updates = concat (map (\<lambda>cp. fst (snd (outcome cursor (chat_allowance history) local cp))) (zip history ps))
        \<and> again = list_ex (\<lambda>cp. snd (snd (outcome cursor (chat_allowance history) local cp))) (zip history ps))"
  by (cases cursor') (auto simp: chat_prepare_def try_fold_prepare prepared_from_def split: option.split)

subsection \<open>Names\<close>

definition names_bounded :: "u64 \<Rightarrow> string \<Rightarrow> bool" where
  "names_bounded n name \<longleftrightarrow> (\<exists>m \<le> n. name = conversation_name m)"

definition cursor_wf :: "ChatCursor \<Rightarrow> bool" where
  "cursor_wf cursor \<longleftrightarrow>
     (case cc_positions cursor of
        None \<Rightarrow> True
      | Some positions \<Rightarrow>
          list_all (\<lambda>(k, p). names_bounded (cc_next_conversation cursor) (ps_conversation_id p)) positions
          \<and> distinct (map (ps_conversation_id \<circ> snd) positions))"

lemma channel_updates_keeps:
  "ps_conversation_id (fst (channel_updates initial allowance local channel position)) = ps_conversation_id position"
  "ps_channel_address (fst (channel_updates initial allowance local channel position)) = ps_channel_address position"
  by (auto simp: channel_updates_def Let_def split: option.split)

lemma outcome_keeps:
  "ps_conversation_id (fst (outcome cursor allowance local cp)) = ps_conversation_id (snd cp)"
  "ps_channel_address (fst (outcome cursor allowance local cp)) = ps_channel_address (snd cp)"
  by (simp_all add: outcome_def channel_updates_keeps case_prod_beta)

text \<open>Where a position comes from: it is the one the cursor had, or it is new, with a name above \<open>n\<close>.\<close>

definition position_origin :: "ChatCursor \<Rightarrow> u64 \<Rightarrow> Channel \<Rightarrow> Position \<Rightarrow> bool" where
  "position_origin cursor n channel p \<longleftrightarrow>
     (case previous_position cursor channel of
        Some q \<Rightarrow> p = q
      | None \<Rightarrow> \<exists>m > n. p = \<lparr>ps_channel_address = ch_address channel, ps_conversation_id = conversation_name m, ps_anchor = None\<rparr>)"

lemma previous_position_member:
  "previous_position cursor channel = Some p \<Longrightarrow>
     \<exists>positions. cc_positions cursor = Some positions \<and> (ch_key channel, p) \<in> set positions"
  by (auto simp: previous_position_def split: option.splits if_splits dest: bt_get_member)

lemma previous_position_name:
  "cursor_wf cursor \<Longrightarrow> previous_position cursor channel = Some p \<Longrightarrow> names_bounded (cc_next_conversation cursor) (ps_conversation_id p)"
  by (drule previous_position_member) (auto simp: cursor_wf_def list_all_iff)

lemma previous_position_distinct:
  assumes "cursor_wf cursor" and "previous_position cursor channel = Some p" and "previous_position cursor channel' = Some p'"
    and "ps_conversation_id p = ps_conversation_id p'"
  shows "ch_key channel = ch_key channel'"
proof -
  obtain positions where ps: "cc_positions cursor = Some positions" "(ch_key channel, p) \<in> set positions" "(ch_key channel', p') \<in> set positions"
    using previous_position_member [OF assms(2)] previous_position_member [OF assms(3)] by auto
  have "inj_on (ps_conversation_id \<circ> snd) (set positions)" using assms(1) ps(1) by (simp add: cursor_wf_def distinct_map)
  then have "(ch_key channel, p) = (ch_key channel', p')"
    by (rule inj_onD [of _ _ "(ch_key channel, p)" "(ch_key channel', p')"]) (use ps(2,3) assms(4) in simp_all)
  then show ?thesis by simp
qed

lemma checked_next: "checked_add (n :: u64) 1 = Some m \<Longrightarrow> n < m"
  by (rule checked_add_1_less)

lemma channel_position_Ok:
  assumes "channel_position cursor n channel = Ok (n', p)"
  shows "n \<le> n'" and "position_origin cursor n channel p"
    and "previous_position cursor channel = None \<Longrightarrow> ps_conversation_id p = conversation_name n' \<and> n < n'"
  using assms checked_next [of n n']
  by (auto simp: channel_position_def position_origin_def ok_or_def split: option.splits)

lemma position_origin_mono: "position_origin cursor n channel p \<Longrightarrow> m \<le> n \<Longrightarrow> position_origin cursor m channel p"
  by (fastforce simp: position_origin_def split: option.splits)

lemma assigned_names:
  assumes "cursor_wf cursor" and "distinct (map ch_key history)" and "cc_next_conversation cursor \<le> n"
    and "assigned cursor n history = Some (n', ps)"
  shows "n \<le> n' \<and> length ps = length history \<and> list_all2 (position_origin cursor n) history ps
    \<and> list_all (\<lambda>p. names_bounded n' (ps_conversation_id p)) ps \<and> distinct (map ps_conversation_id ps)"
  using assms(2-4)
proof (induction history arbitrary: n ps)
  case (Cons channel history)
  obtain n1 p ps' where p: "channel_position cursor n channel = Ok (n1, p)" "assigned cursor n1 history = Some (n', ps')" "ps = p # ps'"
    using Cons.prems(3) by (auto split: result.splits)
  note head = channel_position_Ok [OF p(1)]
  have IH: "n1 \<le> n'" "length ps' = length history" "list_all2 (position_origin cursor n1) history ps'"
      "list_all (\<lambda>p. names_bounded n' (ps_conversation_id p)) ps'" "distinct (map ps_conversation_id ps')"
    using Cons.IH [of n1 ps'] Cons.prems(1,2) head(1) p(2) by auto
  have bounded: "names_bounded n1 (ps_conversation_id p)"
  proof (cases "previous_position cursor channel")
    case None
    then show ?thesis using head(3) by (auto simp: names_bounded_def)
  next
    case (Some q)
    then have "names_bounded (cc_next_conversation cursor) (ps_conversation_id p)"
      using head(2) previous_position_name [OF assms(1) Some] by (simp add: position_origin_def)
    then show ?thesis using Cons.prems(2) head(1) by (auto simp: names_bounded_def intro: order.trans)
  qed
  have origin: "position_origin cursor n1 channel' q" if "(channel', q) \<in> set (zip history ps')" for channel' q
    using IH(3) that by (auto simp: list_all2_iff split: prod.splits)
  have differ: "ps_conversation_id q \<noteq> ps_conversation_id p" if at: "(channel', q) \<in> set (zip history ps')" for channel' q
  proof (cases "previous_position cursor channel'")
    case None
    then obtain m where "n1 < m" "ps_conversation_id q = conversation_name m"
      using origin [OF at] by (auto simp: position_origin_def)
    then show ?thesis using bounded by (auto simp: names_bounded_def)
  next
    case (Some q')
    then have q: "q = q'" using origin [OF at] by (simp add: position_origin_def)
    have key: "ch_key channel' \<noteq> ch_key channel"
      using set_zip_leftD [OF at] Cons.prems(1) by (metis distinct.simps(2) image_eqI list.set_map list.simps(9))
    show ?thesis
    proof (cases "previous_position cursor channel")
      case None
      then have "ps_conversation_id p = conversation_name n1" "n < n1" using head(3) by auto
      then show ?thesis
        using previous_position_name [OF assms(1) Some] Cons.prems(2) q by (auto simp: names_bounded_def)
    next
      case (Some p')
      then show ?thesis
        using previous_position_distinct [OF assms(1) \<open>previous_position cursor channel' = Some q'\<close> Some] head(2) key q
        by (auto simp: position_origin_def)
    qed
  qed
  have "ps_conversation_id p \<notin> ps_conversation_id ` set ps'"
  proof
    assume "ps_conversation_id p \<in> ps_conversation_id ` set ps'"
    then obtain q where "q \<in> set ps'" "ps_conversation_id q = ps_conversation_id p" by auto
    then show False using differ in_set_impl_in_set_zip2 [OF IH(2) [symmetric]] by metis
  qed
  moreover have "list_all2 (position_origin cursor n) history ps'"
    using IH(3) position_origin_mono head(1) by (auto elim: list_all2_mono)
  ultimately show ?case
    using IH bounded head p(3) by (auto simp: names_bounded_def intro: order.trans)
qed (simp)

subsection \<open>What a preparation does for one channel\<close>

text \<open>The position of the instance \<open>address\<close> of the channel \<open>key\<close>, and the messages a batch has for a conversation.\<close>

definition position_of :: "ChatCursor \<Rightarrow> string \<Rightarrow> u64 \<Rightarrow> Position option" where
  "position_of cursor key address =
     (case cc_positions cursor of
        None \<Rightarrow> None
      | Some positions \<Rightarrow>
        (case bt_get positions key of
           None \<Rightarrow> None
         | Some p \<Rightarrow> if ps_channel_address p = address then Some p else None))"

lemma previous_position_of: "previous_position cursor channel = position_of cursor (ch_key channel) (ch_address channel)"
  by (simp add: previous_position_def position_of_def)

fun conversation :: "string \<Rightarrow> ChatUpdate list \<Rightarrow> ChatMessage list" where
  "conversation cid [] = []"
| "conversation cid (Message_update m # us) = (if cm_conversation_id m = cid then m # conversation cid us else conversation cid us)"
| "conversation cid (Gap_update c # us) = conversation cid us"

lemma conversation_append [simp]: "conversation cid (us @ vs) = conversation cid us @ conversation cid vs"
  by (induction cid us rule: conversation.induct) auto

lemma conversation_messages:
  "conversation cid (map (\<lambda>e. Message_update (chat_message e key cid' local)) es) =
     (if cid' = cid then map (\<lambda>e. chat_message e key cid local) es else [])"
  by (induction es) auto

lemma conversation_updates:
  "ps_conversation_id position \<noteq> cid \<Longrightarrow>
     conversation cid (fst (snd (channel_updates initial allowance local channel position))) = []"
  by (auto simp: channel_updates_def Let_def conversation_messages split: option.split)

lemma conversation_outcome:
  "ps_conversation_id (snd cp) \<noteq> cid \<Longrightarrow> conversation cid (fst (snd (outcome cursor allowance local cp))) = []"
  by (simp add: outcome_def case_prod_beta conversation_updates)

lemma conversation_others:
  "(\<And>cp. cp \<in> set cps \<Longrightarrow> ps_conversation_id (snd cp) \<noteq> cid) \<Longrightarrow>
     conversation cid (concat (map (\<lambda>cp. fst (snd (outcome cursor allowance local cp))) cps)) = []"
  by (induction cps) (simp_all add: conversation_outcome)

lemma fold_insert_get:
  "distinct (map (ch_key \<circ> fst) cps) \<Longrightarrow> cp \<in> set cps \<Longrightarrow>
     bt_get (fold (\<lambda>cp. bt_insert (ch_key (fst cp)) (f cp)) cps m) (ch_key (fst cp)) = Some (f cp)"
proof (induction cps arbitrary: m rule: rev_induct)
  case (snoc dp cps)
  then show ?case by (cases "cp = dp") (auto simp: bt_get_insert image_iff)
qed simp

lemma fold_insert_member:
  "x \<in> set (fold (\<lambda>cp. bt_insert (ch_key (fst cp)) (f cp)) cps []) \<Longrightarrow> \<exists>cp \<in> set cps. x = (ch_key (fst cp), f cp)"
proof (induction cps arbitrary: x rule: rev_induct)
  case (snoc dp cps)
  let ?m = "fold (\<lambda>cp. bt_insert (ch_key (fst cp)) (f cp)) cps []"
  have inv: "bt_inv ?m" by (induction cps rule: rev_induct) (auto intro: bt_inv_insert)
  have "bt_get (bt_insert (ch_key (fst dp)) (f dp) ?m) (fst x) = Some (snd x)"
    using snoc.prems bt_member_get [OF bt_inv_insert [OF inv], of "fst x" "snd x"] by simp
  then have "x = (ch_key (fst dp), f dp) \<or> x \<in> set ?m"
    by (auto simp: bt_get_insert prod_eq_iff split: if_splits dest: bt_get_member)
  then show ?case
  proof
    assume "x \<in> set ?m"
    from snoc.IH [OF this] show ?case by force
  qed simp
qed simp

text \<open>A successful preparation, taken apart: the assigned positions, and their names.\<close>

lemma chat_prepare_parts:
  assumes "cursor_wf cursor" and "distinct (map ch_key history)"
    and "chat_prepare cursor history local = Ok (cursor', updates, again)"
  obtains ps where "length ps = length history" and "list_all2 (position_origin cursor (cc_next_conversation cursor)) history ps"
    and "list_all (\<lambda>p. names_bounded (cc_next_conversation cursor') (ps_conversation_id p)) ps"
    and "distinct (map ps_conversation_id ps)" and "cc_next_conversation cursor \<le> cc_next_conversation cursor'"
    and "cc_positions cursor' = Some (fold (\<lambda>cp. bt_insert (ch_key (fst cp)) (fst (outcome cursor (chat_allowance history) local cp))) (zip history ps) [])"
    and "updates = concat (map (\<lambda>cp. fst (snd (outcome cursor (chat_allowance history) local cp))) (zip history ps))"
    and "again = list_ex (\<lambda>cp. snd (snd (outcome cursor (chat_allowance history) local cp))) (zip history ps)"
proof -
  obtain ps where ps: "assigned cursor (cc_next_conversation cursor) history = Some (cc_next_conversation cursor', ps)"
    "cc_positions cursor' = Some (fold (\<lambda>cp. bt_insert (ch_key (fst cp)) (fst (outcome cursor (chat_allowance history) local cp))) (zip history ps) [])"
    "updates = concat (map (\<lambda>cp. fst (snd (outcome cursor (chat_allowance history) local cp))) (zip history ps))"
    "again = list_ex (\<lambda>cp. snd (snd (outcome cursor (chat_allowance history) local cp))) (zip history ps)"
    using assms(3) unfolding chat_prepare_Ok by blast
  show thesis
    using assigned_names [OF assms(1,2) order_refl ps(1)] ps(2-4) by (intro that [of ps]) simp_all
qed

end
