(* ===== verification/Chat_Delivery.thy ===== *)
theory Chat_Delivery
  imports Chat_Cursor
begin

section \<open>Chat delivery\<close>

text \<open>
  What the batches of \<open>chat_prepare\<close> deliver of a channel, against the log the game appends to. The
  game keeps a window of the log and the provider sees the window at each poll, so the
  specification is: no entry twice, the order of the log, and none missing unless a gap is reported.
\<close>

subsection \<open>The log and its windows\<close>

definition distinct_log :: "Entry list \<Rightarrow> bool" where
  "distinct_log log \<longleftrightarrow> (\<forall>i < length log. \<forall>j < length log. same_occurrence (log ! i) (log ! j) \<longrightarrow> i = j)"

definition window :: "Entry list \<Rightarrow> nat \<Rightarrow> nat \<Rightarrow> Entry list \<Rightarrow> bool" where
  "window log lo hi es \<longleftrightarrow>
     lo \<le> hi \<and> hi \<le> length log \<and> length es = hi - lo \<and> list_all (\<lambda>i. same_occurrence (es ! i) (log ! (lo + i))) [0..<hi - lo]"

text \<open>The entries of the log before \<open>n\<close> have been dealt with.\<close>

definition tracked :: "Entry list \<Rightarrow> nat \<Rightarrow> nat \<Rightarrow> nat \<Rightarrow> Position \<Rightarrow> bool" where
  "tracked log n lo hi p \<longleftrightarrow>
     (case ps_anchor p of
        None \<Rightarrow> n \<le> lo \<and> n \<le> hi
      | Some e \<Rightarrow> 0 < n \<and> n \<le> hi \<and> same_occurrence e (log ! (n - 1)))"

lemma tracked_mono: "tracked log n lo hi p \<Longrightarrow> lo \<le> lo' \<Longrightarrow> hi \<le> hi' \<Longrightarrow> tracked log n lo' hi' p"
  by (auto simp: tracked_def split: option.splits)

lemma window_nth: "window log lo hi es \<Longrightarrow> i < hi - lo \<Longrightarrow> same_occurrence (es ! i) (log ! (lo + i))"
  by (simp add: window_def list_all_iff)

lemma window_messages:
  assumes "window log lo hi es"
  shows "map (\<lambda>e. chat_message e key cid local) (take a (drop s es)) =
    map (\<lambda>i. chat_message (log ! i) key cid local) [lo + s..<min hi (lo + s + a)]"
proof (rule nth_equalityI)
  show "length (map (\<lambda>e. chat_message e key cid local) (take a (drop s es))) =
      length (map (\<lambda>i. chat_message (log ! i) key cid local) [lo + s..<min hi (lo + s + a)])"
    using assms by (auto simp: window_def min_def)
next
  fix i assume "i < length (map (\<lambda>e. chat_message e key cid local) (take a (drop s es)))"
  then have i: "i < a" "s + i < hi - lo" using assms by (auto simp: window_def)
  have "chat_message (es ! (s + i)) = chat_message (log ! (lo + s + i))"
    using same_occurrence_message [OF window_nth [OF assms i(2)]] by (simp add: add.assoc)
  then show "map (\<lambda>e. chat_message e key cid local) (take a (drop s es)) ! i =
      map (\<lambda>i. chat_message (log ! i) key cid local) [lo + s..<min hi (lo + s + a)] ! i"
    using i assms by (simp add: window_def)
qed

lemma find_index_unique:
  "i < length xs \<Longrightarrow> P (xs ! i) \<Longrightarrow> (\<And>j. j < i \<Longrightarrow> \<not> P (xs ! j)) \<Longrightarrow> find_index P xs = Some i"
proof (induction xs arbitrary: i)
  case (Cons x xs)
  show ?case
  proof (cases i)
    case 0
    then show ?thesis using Cons.prems(2) by simp
  next
    case (Suc k)
    have "\<not> P (xs ! j)" if "j < k" for j using Cons.prems(3) [of "Suc j"] Suc that by simp
    then have "find_index P xs = Some k" using Cons.IH [of k] Cons.prems(1,2) Suc by simp
    then show ?thesis using Cons.prems(3) [of 0] Suc by simp
  qed
qed simp

lemma find_index_None: "(\<And>j. j < length xs \<Longrightarrow> \<not> P (xs ! j)) \<Longrightarrow> find_index P xs = None"
proof (induction xs)
  case (Cons x xs)
  have "\<not> P (xs ! j)" if "j < length xs" for j using Cons.prems [of "Suc j"] that by simp
  then show ?case using Cons.IH Cons.prems [of 0] by simp
qed simp

lemma resume_window:
  assumes log: "distinct_log log" and w: "window log lo hi es" and n: "0 < n" "n \<le> hi" and a: "same_occurrence a (log ! (n - 1))"
  shows "resume_index es (Some a) = (if lo < n then Some (n - lo) else None)"
proof -
  have at: "same_occurrence (es ! i) a \<longleftrightarrow> lo + i = n - 1" if "i < hi - lo" for i
  proof
    assume "same_occurrence (es ! i) a"
    then have "same_occurrence (log ! (lo + i)) (log ! (n - 1))"
      using same_occurrence_trans a same_occurrence_sym window_nth [OF w that] by metis
    then show "lo + i = n - 1" using log w n that by (auto simp: distinct_log_def window_def)
  next
    assume "lo + i = n - 1"
    then show "same_occurrence (es ! i) a"
      using same_occurrence_trans same_occurrence_sym [OF a] window_nth [OF w that] by metis
  qed
  show ?thesis
  proof (cases "lo < n")
    case True
    then have "find_index (\<lambda>entry. same_occurrence entry a) es = Some (n - 1 - lo)"
      using w n by (intro find_index_unique) (auto simp: window_def at)
    then show ?thesis using True n by (simp add: resume_index_def)
  next
    case False
    then have "find_index (\<lambda>entry. same_occurrence entry a) es = None"
      using w n by (intro find_index_None) (auto simp: window_def at)
    then show ?thesis using False by (simp add: resume_index_def)
  qed
qed

lemma last_window: "window log lo hi es \<Longrightarrow> lo < hi \<Longrightarrow> \<exists>e. last_entry es = Some e \<and> same_occurrence e (log ! (hi - 1))"
  using window_nth [of log lo hi es "hi - lo - 1"] by (auto simp: last_entry_def window_def last_conv_nth)

subsection \<open>One channel, one poll\<close>

text \<open>
  What one poll does of a channel at \<open>n\<close>: it delivers the entries from \<open>s\<close> to \<open>m\<close> and is at \<open>m\<close>;
  without a gap \<open>s\<close> is \<open>n\<close>.
\<close>

definition delivers ::
  "Entry list \<Rightarrow> nat \<Rightarrow> nat \<Rightarrow> nat \<Rightarrow> nat \<Rightarrow> nat \<Rightarrow> string \<Rightarrow> string option \<Rightarrow> Position \<Rightarrow> Position \<times> ChatUpdate list \<times> bool \<Rightarrow> bool" where
  "delivers log n lo hi s m key local p out \<longleftrightarrow>
     n \<le> s \<and> s \<le> m \<and> m \<le> hi \<and> tracked log m lo hi (fst out)
     \<and> ps_conversation_id (fst out) = ps_conversation_id p \<and> ps_channel_address (fst out) = ps_channel_address p
     \<and> conversation (ps_conversation_id p) (fst (snd out)) =
         map (\<lambda>i. chat_message (log ! i) key (ps_conversation_id p) local) [s..<m]
     \<and> (snd (snd out) \<longleftrightarrow> m < hi)
     \<and> (Gap_update (chat_channel key) \<notin> set (fst (snd out)) \<longrightarrow> (ps_anchor p \<noteq> None \<longrightarrow> s = n) \<and> (ps_anchor (fst out) = None \<longrightarrow> s = m \<and> ps_anchor p = None))"

lemma sent_anchor:
  assumes w: "window log lo hi es" and s: "s < hi - lo" and a: "0 < a"
  shows "same_occurrence (last (take a (drop s es))) (log ! (min hi (lo + s + a) - 1))"
proof -
  let ?sent = "take a (drop s es)"
  have len: "length ?sent = min (hi - lo - s) a" using w by (simp add: window_def)
  then have "?sent \<noteq> []" using s a by auto
  then have "last ?sent = ?sent ! (length ?sent - 1)" by (rule last_conv_nth)
  also have "\<dots> = es ! (s + (length ?sent - 1))" using len s a w by (simp add: window_def min_def)
  finally have "last ?sent = es ! (s + (length ?sent - 1))" .
  moreover have "s + (length ?sent - 1) < hi - lo" using len s a by (auto simp: min_def)
  moreover have "lo + (s + (length ?sent - 1)) = min hi (lo + s + a) - 1" using len s a by (auto simp: min_def)
  ultimately show ?thesis using window_nth [OF w, of "s + (length ?sent - 1)"] by simp
qed

lemma updates_found:
  assumes w: "window log lo hi (ch_entries channel)" and a: "0 < allowance"
    and start: "resume_index (ch_entries channel) (ps_anchor p) = Some s" and s: "lo + s \<le> hi" "n \<le> lo + s"
    and anchored: "ps_anchor p \<noteq> None \<Longrightarrow> lo + s = n" and p: "tracked log n lo hi p" and none: "ps_anchor p = None \<Longrightarrow> s = 0"
  shows "delivers log n lo hi (lo + s) (min hi (lo + s + allowance)) (ch_key channel) local p (channel_updates False allowance local channel p)"
proof -
  let ?sent = "take allowance (drop s (ch_entries channel))"
  have len: "length (ch_entries channel) = hi - lo" using w by (simp add: window_def)
  have out: "channel_updates False allowance local channel p =
      (if ?sent = [] then p else p\<lparr>ps_anchor := Some (last ?sent)\<rparr>,
       map (\<lambda>e. Message_update (chat_message e (ch_key channel) (ps_conversation_id p) local)) ?sent, allowance < hi - lo - s)"
    using start len by (simp add: channel_updates_def Let_def)
  have empty: "?sent = [] \<longleftrightarrow> lo + s = hi" using len a s by auto
  have "tracked log (min hi (lo + s + allowance)) lo hi (fst (channel_updates False allowance local channel p))"
  proof (cases "lo + s = hi")
    case True
    then show ?thesis
      using p anchored none empty by (auto simp: out tracked_def split: option.splits)
  next
    case False
    then show ?thesis
      using sent_anchor [OF w _ a, of s] s a empty by (simp add: out tracked_def)
  qed
  then show ?thesis
    using s a anchored none empty w
    by (auto simp: delivers_def out conversation_messages window_messages [OF w] min_def)
qed

lemma updates_lost:
  assumes w: "window log lo hi (ch_entries channel)"
    and start: "resume_index (ch_entries channel) (ps_anchor p) = None" and "n \<le> hi"
  shows "delivers log n lo hi hi hi (ch_key channel) local p (channel_updates False allowance local channel p)"
proof -
  have "lo = hi \<or> lo < hi" using w by (auto simp: window_def)
  moreover have "last_entry (ch_entries channel) = None" if "lo = hi" using w that by (simp add: window_def last_entry_def)
  ultimately show ?thesis
    using last_window [OF w] assms(3) by (auto simp: delivers_def channel_updates_def Let_def start tracked_def)
qed

lemma updates_step:
  assumes log: "distinct_log log" and w: "window log lo hi (ch_entries channel)" and a: "0 < allowance" and p: "tracked log n lo hi p"
  shows "\<exists>s m. delivers log n lo hi s m (ch_key channel) local p (channel_updates False allowance local channel p)"
proof (cases "ps_anchor p")
  case None
  then have "delivers log n lo hi (lo + 0) (min hi (lo + 0 + allowance)) (ch_key channel) local p (channel_updates False allowance local channel p)"
    using p w by (intro updates_found a) (auto simp: resume_index_def tracked_def window_def)
  then show ?thesis by blast
next
  case (Some e)
  then have e: "0 < n" "n \<le> hi" "same_occurrence e (log ! (n - 1))" using p by (simp_all add: tracked_def)
  note at = resume_window [OF log w e]
  show ?thesis
  proof (cases "lo < n")
    case True
    then have "delivers log n lo hi (lo + (n - lo)) (min hi (lo + (n - lo) + allowance)) (ch_key channel) local p
        (channel_updates False allowance local channel p)"
      using p w e Some at by (intro updates_found a) auto
    then show ?thesis by blast
  next
    case False
    then show ?thesis using updates_lost [OF w, of p n local allowance] at Some e by auto
  qed
qed

subsection \<open>One channel in a preparation\<close>

lemma position_origin_prev:
  "position_origin cursor n channel q \<Longrightarrow> previous_position cursor channel = Some p \<Longrightarrow> q = p"
  by (simp add: position_origin_def)

lemma fold_insert_distinct:
  assumes "distinct (map (ps_conversation_id \<circ> f) cps)"
  shows "distinct (map (ps_conversation_id \<circ> snd) (fold (\<lambda>cp. bt_insert (ch_key (fst cp)) (f cp)) cps []))"
proof -
  let ?m = "fold (\<lambda>cp. bt_insert (ch_key (fst cp)) (f cp)) cps []"
  have inv: "bt_inv ?m" by (induction cps rule: rev_induct) (auto intro: bt_inv_insert)
  have "inj_on (ps_conversation_id \<circ> snd) (set ?m)"
  proof (rule inj_onI)
    fix x y assume x: "x \<in> set ?m" and y: "y \<in> set ?m" and eq: "(ps_conversation_id \<circ> snd) x = (ps_conversation_id \<circ> snd) y"
    obtain cp where cp: "cp \<in> set cps" "x = (ch_key (fst cp), f cp)" using fold_insert_member [OF x] by blast
    obtain dp where dp: "dp \<in> set cps" "y = (ch_key (fst dp), f dp)" using fold_insert_member [OF y] by blast
    have "inj_on (ps_conversation_id \<circ> f) (set cps)" using assms by (simp add: distinct_map)
    then have "cp = dp" by (rule inj_onD) (use cp dp eq in simp_all)
    then show "x = y" using cp dp by simp
  qed
  moreover have "distinct ?m" using bt_inv_distinct [OF inv] by (simp add: distinct_map)
  ultimately show ?thesis by (simp add: distinct_map)
qed

lemma chat_prepare_wf:
  assumes "cursor_wf cursor" and "distinct (map ch_key history)"
    and "chat_prepare cursor history local = Ok (cursor', updates, again)"
  shows "cursor_wf cursor'"
proof -
  let ?f = "\<lambda>cp. fst (outcome cursor (chat_allowance history) local cp)"
  obtain ps where ps: "length ps = length history" "list_all (\<lambda>p. names_bounded (cc_next_conversation cursor') (ps_conversation_id p)) ps"
    "distinct (map ps_conversation_id ps)"
    "cc_positions cursor' = Some (fold (\<lambda>cp. bt_insert (ch_key (fst cp)) (?f cp)) (zip history ps) [])"
    by (rule chat_prepare_parts [OF assms]) blast
  let ?m = "fold (\<lambda>cp. bt_insert (ch_key (fst cp)) (?f cp)) (zip history ps) []"
  have "map (ps_conversation_id \<circ> ?f) (zip history ps) = map ps_conversation_id (map snd (zip history ps))"
    by (simp add: outcome_keeps)
  also have "\<dots> = map ps_conversation_id ps" using ps(1) by simp
  finally have "distinct (map (ps_conversation_id \<circ> ?f) (zip history ps))" using ps(3) by simp
  then have "distinct (map (ps_conversation_id \<circ> snd) ?m)" by (rule fold_insert_distinct)
  moreover have "list_all (\<lambda>(k, p). names_bounded (cc_next_conversation cursor') (ps_conversation_id p)) ?m"
    using ps(2) by (fastforce simp: list_all_iff outcome_keeps dest: fold_insert_member set_zip_rightD)
  ultimately show ?thesis using ps(4) by (simp add: cursor_wf_def)
qed

lemma prepare_one:
  assumes wf: "cursor_wf cursor" and keys: "distinct (map ch_key history)"
    and ok: "chat_prepare cursor history local = Ok (cursor', updates, again)"
    and ch: "channel \<in> set history" and p: "previous_position cursor channel = Some p"
  defines "out \<equiv> channel_updates False (chat_allowance history) local channel p"
  shows "previous_position cursor' channel = Some (fst out)"
    and "conversation (ps_conversation_id p) updates = conversation (ps_conversation_id p) (fst (snd out))"
    and "set (fst (snd out)) \<subseteq> set updates" and "snd (snd out) \<Longrightarrow> again"
proof -
  let ?o = "outcome cursor (chat_allowance history) local"
  obtain ps where ps: "length ps = length history" "list_all2 (position_origin cursor (cc_next_conversation cursor)) history ps"
    "distinct (map ps_conversation_id ps)"
    "cc_positions cursor' = Some (fold (\<lambda>cp. bt_insert (ch_key (fst cp)) (fst (?o cp))) (zip history ps) [])"
    "updates = concat (map (\<lambda>cp. fst (snd (?o cp))) (zip history ps))"
    "again = list_ex (\<lambda>cp. snd (snd (?o cp))) (zip history ps)"
    by (rule chat_prepare_parts [OF wf keys ok]) blast
  obtain q where q: "(channel, q) \<in> set (zip history ps)" using in_set_impl_in_set_zip1 [OF ps(1) [symmetric] ch] by blast
  then have "position_origin cursor (cc_next_conversation cursor) channel q" using ps(2) by (auto simp: list_all2_iff)
  then have qp: "q = p" using p by (rule position_origin_prev)
  have "cc_positions cursor \<noteq> None" using p by (auto simp: previous_position_def split: option.splits)
  then have out: "?o (channel, p) = out" by (simp only: outcome_def out_def prod.case simp_thms)
  have "map (ch_key \<circ> fst) (zip history ps) = map ch_key (map fst (zip history ps))" by simp
  then have dk: "distinct (map (ch_key \<circ> fst) (zip history ps))" using keys ps(1) by simp
  have "bt_get (fold (\<lambda>cp. bt_insert (ch_key (fst cp)) (fst (?o cp))) (zip history ps) []) (ch_key channel) = Some (fst out)"
    using fold_insert_get [OF dk q, of "\<lambda>cp. fst (?o cp)" "[]"] qp out by simp
  moreover have "ps_channel_address (fst out) = ch_address channel"
    using p by (auto simp: out_def channel_updates_keeps previous_position_def split: option.splits if_splits)
  ultimately show "previous_position cursor' channel = Some (fst out)" by (simp add: previous_position_def ps(4))
  obtain l r where lr: "zip history ps = l @ (channel, p) # r" using q qp by (auto simp: in_set_conv_decomp)
  have "map (ps_conversation_id \<circ> snd) (zip history ps) = map ps_conversation_id (map snd (zip history ps))" by simp
  also have "\<dots> = map ps_conversation_id ps" using ps(1) by simp
  finally have "distinct (map (ps_conversation_id \<circ> snd) (l @ (channel, p) # r))" using ps(3) lr by simp
  then have "ps_conversation_id (snd cp) \<noteq> ps_conversation_id p" if "cp \<in> set l \<or> cp \<in> set r" for cp
    using that by (auto simp: image_iff)
  then show "conversation (ps_conversation_id p) updates = conversation (ps_conversation_id p) (fst (snd out))"
    unfolding ps(5) lr by (simp add: conversation_others out)
  show "set (fst (snd out)) \<subseteq> set updates" unfolding ps(5) lr by (auto simp: out)
  show "snd (snd out) \<Longrightarrow> again" unfolding ps(6) lr by (simp add: out)
qed

subsection \<open>A run of accepted batches\<close>

fun chat_run :: "ChatCursor \<Rightarrow> (History \<times> string option) list \<Rightarrow> (ChatCursor \<times> ChatUpdate list, TargetError) result" where
  "chat_run cursor [] = Ok (cursor, [])"
| "chat_run cursor ((history, local) # polls) =
     rbind (chat_prepare cursor history local) (\<lambda>(cursor', updates, _).
     rbind (chat_run cursor' polls) (\<lambda>(cursor'', later). Ok (cursor'', updates @ later)))"

text \<open>Every poll sees at most 32 channels with distinct keys, and the channel's window, which only moves forward.\<close>

fun observed :: "Entry list \<Rightarrow> string \<Rightarrow> u64 \<Rightarrow> nat \<Rightarrow> nat \<Rightarrow> (History \<times> string option) list \<Rightarrow> bool" where
  "observed log key address lo hi [] = True"
| "observed log key address lo hi ((history, local) # polls) =
     (length history \<le> MAX_EVENTS \<and> distinct (map ch_key history)
      \<and> (\<exists>channel \<in> set history. ch_key channel = key \<and> ch_address channel = address
          \<and> (\<exists>lo' \<ge> lo. \<exists>hi' \<ge> hi. window log lo' hi' (ch_entries channel) \<and> observed log key address lo' hi' polls)))"

lemma allowance_pos: "length history \<le> MAX_EVENTS \<Longrightarrow> 0 < chat_allowance history"
  by (cases history) (simp_all add: chat_allowance_def MAX_EVENTS_def div_greater_zero_iff max_def)

lemma chat_step:
  assumes log: "distinct_log log" and wf: "cursor_wf cursor" and p: "position_of cursor key address = Some p"
    and t: "tracked log n lo hi p" and few: "length history \<le> MAX_EVENTS" and keys: "distinct (map ch_key history)"
    and ch: "channel \<in> set history" "ch_key channel = key" "ch_address channel = address"
    and w: "window log lo hi (ch_entries channel)"
    and ok: "chat_prepare cursor history local = Ok (cursor', updates, again)"
  obtains s m p' where "position_of cursor' key address = Some p'" and "cursor_wf cursor'" and "tracked log m lo hi p'"
    and "ps_conversation_id p' = ps_conversation_id p" and "n \<le> s" and "s \<le> m"
    and "conversation (ps_conversation_id p) updates = map (\<lambda>i. chat_message (log ! i) key (ps_conversation_id p) local) [s..<m]"
    and "Gap_update (chat_channel key) \<notin> set updates \<longrightarrow>
      (ps_anchor p \<noteq> None \<longrightarrow> s = n) \<and> (ps_anchor p' = None \<longrightarrow> s = m \<and> ps_anchor p = None)"
proof -
  let ?out = "channel_updates False (chat_allowance history) local channel p"
  have prev: "previous_position cursor channel = Some p" using p ch by (simp add: previous_position_of)
  note one = prepare_one [OF wf keys ok ch(1) prev]
  obtain s m where d: "delivers log n lo hi s m key local p ?out"
    using updates_step [OF log w allowance_pos [OF few] t] ch(2) by blast
  show thesis
  proof (rule that)
    show "position_of cursor' key address = Some (fst ?out)" using one(1) ch by (simp add: previous_position_of)
    show "cursor_wf cursor'" by (rule chat_prepare_wf [OF wf keys ok])
    show "conversation (ps_conversation_id p) updates = map (\<lambda>i. chat_message (log ! i) key (ps_conversation_id p) local) [s..<m]"
      using one(2) d by (simp add: delivers_def)
    show "Gap_update (chat_channel key) \<notin> set updates \<longrightarrow>
        (ps_anchor p \<noteq> None \<longrightarrow> s = n) \<and> (ps_anchor (fst ?out) = None \<longrightarrow> s = m \<and> ps_anchor p = None)"
      using d one(3) by (auto simp: delivers_def)
  qed (use d in \<open>simp_all add: delivers_def\<close>)
qed

text \<open>
  C20: A run of accepted batches delivers the messages of a tracked channel at most once and in the
  order of the game's log, all under the conversation ID the channel had at the start; and unless
  a gap is reported, it delivers every entry from the position the channel had to the position it
  is left with.
\<close>

theorem chat_exactly_once:
  assumes "distinct_log log" and "cursor_wf cursor" and "position_of cursor key address = Some p" and "tracked log n lo hi p"
    and "observed log key address lo hi polls" and "chat_run cursor polls = Ok (cursor', updates)"
  shows "\<exists>sent m p'. position_of cursor' key address = Some p' \<and> ps_conversation_id p' = ps_conversation_id p
    \<and> conversation (ps_conversation_id p) updates =
        map (\<lambda>(i, local). chat_message (log ! i) key (ps_conversation_id p) local) sent
    \<and> sorted_wrt (<) (map fst sent) \<and> set (map fst sent) \<subseteq> {n..<m} \<and> n \<le> m
    \<and> (case ps_anchor p' of None \<Rightarrow> True | Some e \<Rightarrow> 0 < m \<and> same_occurrence e (log ! (m - 1)))
    \<and> (Gap_update (chat_channel key) \<notin> set updates \<longrightarrow>
        (\<exists>s. n \<le> s \<and> (ps_anchor p \<noteq> None \<longrightarrow> s = n) \<and> map fst sent = [s..<m]))"
  using assms(2-6)
proof (induction polls arbitrary: cursor p n lo hi updates)
  case Nil
  then show ?case by (intro exI [of _ "[]"] exI [of _ n] exI [of _ p]) (auto simp: tracked_def split: option.splits)
next
  case (Cons poll polls)
  obtain history local where poll: "poll = (history, local)" by (cases poll)
  obtain channel lo' hi' where ob: "length history \<le> MAX_EVENTS" "distinct (map ch_key history)" "channel \<in> set history"
    "ch_key channel = key" "ch_address channel = address" "lo \<le> lo'" "hi \<le> hi'" "window log lo' hi' (ch_entries channel)"
    "observed log key address lo' hi' polls"
    using Cons.prems(4) poll by auto
  obtain cursor1 first again later where run: "chat_prepare cursor history local = Ok (cursor1, first, again)"
    "chat_run cursor1 polls = Ok (cursor', later)" "updates = first @ later"
    using Cons.prems(5) poll by (auto simp: rbind_Ok_iff)
  obtain s m p1 where step: "position_of cursor1 key address = Some p1" "cursor_wf cursor1" "tracked log m lo' hi' p1"
    "ps_conversation_id p1 = ps_conversation_id p" "n \<le> s" "s \<le> m"
    "conversation (ps_conversation_id p) first = map (\<lambda>i. chat_message (log ! i) key (ps_conversation_id p) local) [s..<m]"
    "Gap_update (chat_channel key) \<notin> set first \<longrightarrow>
      (ps_anchor p \<noteq> None \<longrightarrow> s = n) \<and> (ps_anchor p1 = None \<longrightarrow> s = m \<and> ps_anchor p = None)"
    by (rule chat_step [OF assms(1) Cons.prems(1,2) tracked_mono [OF Cons.prems(3) ob(6,7)] ob(1-5,8) run(1)], rule that)
  obtain sent m' p' where IH: "position_of cursor' key address = Some p'" "ps_conversation_id p' = ps_conversation_id p1"
    "conversation (ps_conversation_id p1) later = map (\<lambda>(i, local). chat_message (log ! i) key (ps_conversation_id p1) local) sent"
    "sorted_wrt (<) (map fst sent)" "set (map fst sent) \<subseteq> {m..<m'}"
    "case ps_anchor p' of None \<Rightarrow> True | Some e \<Rightarrow> 0 < m' \<and> same_occurrence e (log ! (m' - 1))"
    "m \<le> m'"
    "Gap_update (chat_channel key) \<notin> set later \<longrightarrow> (\<exists>s. m \<le> s \<and> (ps_anchor p1 \<noteq> None \<longrightarrow> s = m) \<and> map fst sent = [s..<m'])"
    using Cons.IH [OF step(2,1,3) ob(9) run(2)] by blast
  let ?sent = "map (\<lambda>i. (i, local)) [s..<m] @ sent"
  have fst: "map fst ?sent = [s..<m] @ map fst sent" by (simp add: comp_def)
  have contiguous: "\<exists>s. n \<le> s \<and> (ps_anchor p \<noteq> None \<longrightarrow> s = n) \<and> map fst ?sent = [s..<m']"
    if silent: "Gap_update (chat_channel key) \<notin> set updates"
  proof -
    have first: "(ps_anchor p \<noteq> None \<longrightarrow> s = n) \<and> (ps_anchor p1 = None \<longrightarrow> s = m \<and> ps_anchor p = None)"
      using silent step(8) run(3) by simp
    obtain s2 where s2: "m \<le> s2" "ps_anchor p1 \<noteq> None \<longrightarrow> s2 = m" "map fst sent = [s2..<m']"
      using silent IH(8) run(3) by auto
    show ?thesis
    proof (cases "ps_anchor p1")
      case None
      then show ?thesis using first s2 step(5) unfolding fst by (intro exI [of _ s2]) auto
    next
      case (Some e)
      then have "[s..<m] @ map fst sent = [s..<m']" using s2 step(6) IH(7) upt_add_eq_append [of s m "m' - m"] by simp
      then show ?thesis using first step(5) unfolding fst by auto
    qed
  qed
  have "conversation (ps_conversation_id p) updates =
      map (\<lambda>(i, local). chat_message (log ! i) key (ps_conversation_id p) local) ?sent"
    using step(4,7) IH(3) run(3) by (simp add: comp_def)
  moreover have "sorted_wrt (<) (map fst ?sent)"
    unfolding fst using IH(4,5) by (fastforce simp: sorted_wrt_append)
  moreover have "set (map fst ?sent) \<subseteq> {n..<m'}" unfolding fst using IH(5,7) step(5,6) by auto
  moreover have "n \<le> m'" using step(5,6) IH(7) by simp
  ultimately show ?case using IH(1,2,6) step(4) contiguous by (intro exI [of _ ?sent] exI [of _ m'] exI [of _ p']) auto
qed

subsection \<open>The size of a batch\<close>

lemma find_index_SomeD: "find_index P xs = Some i \<Longrightarrow> i < length xs \<and> P (xs ! i)"
  by (induction P xs arbitrary: i rule: find_index.induct) (auto split: if_splits)

lemma channel_updates_bounded:
  "0 < allowance \<Longrightarrow> length (fst (snd (channel_updates initial allowance local channel position))) \<le> allowance"
  by (auto simp: channel_updates_def Let_def split: option.split)

lemma resume_drained:
  assumes "resume_index entries anchor = Some s" and "length entries \<le> s"
  shows "rel_option same_occurrence anchor (last_entry entries)"
proof (cases anchor)
  case None
  then show ?thesis using assms by (simp add: resume_index_def last_entry_def)
next
  case (Some a)
  then obtain i where i: "find_index (\<lambda>entry. same_occurrence entry a) entries = Some i" "s = i + 1"
    using assms(1) by (auto simp: resume_index_def)
  then have "i < length entries" "same_occurrence (entries ! i) a" using find_index_SomeD by blast+
  moreover from this have "length entries - 1 = i" "entries \<noteq> []" using assms(2) i(2) by auto
  then have "last_entry entries = Some (entries ! i)" by (simp add: last_entry_def last_conv_nth)
  ultimately show ?thesis using Some same_occurrence_sym by simp
qed

lemma rel_option_refl: "(\<And>x. R x x) \<Longrightarrow> rel_option R x x"
  by (cases x) auto

lemma channel_updates_drained:
  assumes "\<not> snd (snd (channel_updates initial allowance local channel position))"
  shows "rel_option same_occurrence (ps_anchor (fst (channel_updates initial allowance local channel position))) (last_entry (ch_entries channel))"
proof (cases "initial \<or> resume_index (ch_entries channel) (ps_anchor position) = None")
  case True
  then show ?thesis by (auto simp: channel_updates_def Let_def intro: rel_option_refl split: option.split)
next
  case False
  then obtain s where s: "resume_index (ch_entries channel) (ps_anchor position) = Some s" by auto
  let ?pending = "drop s (ch_entries channel)"
  have all: "length ?pending \<le> allowance" using assms s False by (simp add: channel_updates_def Let_def)
  have out: "fst (channel_updates initial allowance local channel position) =
      (if ?pending = [] then position else position\<lparr>ps_anchor := Some (last ?pending)\<rparr>)"
    using False s all by (simp add: channel_updates_def Let_def)
  show ?thesis
  proof (cases "?pending = []")
    case True
    then show ?thesis using out resume_drained [OF s] by simp
  next
    case nonempty: False
    then have "last ?pending = last (ch_entries channel)" "ch_entries channel \<noteq> []" by (auto simp: last_drop)
    then show ?thesis using out nonempty by (simp add: last_entry_def)
  qed
qed

lemma concat_bounded: "(\<And>x. x \<in> set xs \<Longrightarrow> length (f x) \<le> k) \<Longrightarrow> length (concat (map f xs)) \<le> length xs * k"
  by (induction xs) (auto intro: add_mono)

text \<open>
  C31: One batch has at most 32 updates, whatever the game retains; and a batch that does not ask for
  another leaves the position of every channel at the last entry of the channel's history, so
  nothing that was seen waits without a further poll being scheduled for it.
\<close>

theorem chat_batch_complete:
  assumes wf: "cursor_wf cursor" and keys: "distinct (map ch_key history)" and few: "length history \<le> MAX_EVENTS"
    and ok: "chat_prepare cursor history local = Ok (cursor', updates, again)"
  shows "length updates \<le> MAX_EVENTS \<and>
    (again \<or> (\<forall>channel \<in> set history. \<exists>p. position_of cursor' (ch_key channel) (ch_address channel) = Some p
      \<and> rel_option same_occurrence (ps_anchor p) (last_entry (ch_entries channel))))"
proof -
  let ?o = "outcome cursor (chat_allowance history) local"
  obtain ps where ps: "length ps = length history" "list_all2 (position_origin cursor (cc_next_conversation cursor)) history ps"
    "cc_positions cursor' = Some (fold (\<lambda>cp. bt_insert (ch_key (fst cp)) (fst (?o cp))) (zip history ps) [])"
    "updates = concat (map (\<lambda>cp. fst (snd (?o cp))) (zip history ps))"
    "again = list_ex (\<lambda>cp. snd (snd (?o cp))) (zip history ps)"
    by (rule chat_prepare_parts [OF wf keys ok]) blast
  have "length (fst (snd (?o cp))) \<le> chat_allowance history" for cp
    using channel_updates_bounded [OF allowance_pos [OF few]] by (simp add: outcome_def case_prod_beta)
  then have "length updates \<le> length (zip history ps) * chat_allowance history" unfolding ps(4) by (intro concat_bounded) blast
  also have "\<dots> \<le> max (length history) 1 * (MAX_EVENTS div max (length history) 1)"
    using ps(1) unfolding chat_allowance_def by (intro mult_le_mono1) simp
  also have "\<dots> \<le> MAX_EVENTS" by simp
  finally have bounded: "length updates \<le> MAX_EVENTS" .
  have "\<exists>p. position_of cursor' (ch_key channel) (ch_address channel) = Some p
      \<and> rel_option same_occurrence (ps_anchor p) (last_entry (ch_entries channel))"
    if "\<not> again" and ch: "channel \<in> set history" for channel
  proof -
    obtain q where q: "(channel, q) \<in> set (zip history ps)" using in_set_impl_in_set_zip1 [OF ps(1) [symmetric] ch] by blast
    have "map (ch_key \<circ> fst) (zip history ps) = map ch_key (map fst (zip history ps))" by simp
    then have dk: "distinct (map (ch_key \<circ> fst) (zip history ps))" using keys ps(1) by simp
    have get: "bt_get (fold (\<lambda>cp. bt_insert (ch_key (fst cp)) (fst (?o cp))) (zip history ps) []) (ch_key channel) = Some (fst (?o (channel, q)))"
      using fold_insert_get [OF dk q, of "\<lambda>cp. fst (?o cp)" "[]"] by simp
    have "position_origin cursor (cc_next_conversation cursor) channel q" using ps(2) q by (auto simp: list_all2_iff)
    then have "ps_channel_address q = ch_address channel"
      by (auto simp: position_origin_def previous_position_def split: option.splits if_splits)
    then have "ps_channel_address (fst (?o (channel, q))) = ch_address channel" by (simp add: outcome_keeps)
    moreover have "\<not> snd (snd (?o (channel, q)))" using that(1) q unfolding ps(5) list_ex_iff by blast
    then have "rel_option same_occurrence (ps_anchor (fst (?o (channel, q)))) (last_entry (ch_entries channel))"
      using channel_updates_drained by (simp add: outcome_def)
    ultimately show ?thesis using get by (simp add: position_of_def ps(3))
  qed
  then show ?thesis using bounded by blast
qed

subsection \<open>A concrete run\<close>

definition demo_entry :: "u64 \<Rightarrow> string \<Rightarrow> Entry" where
  "demo_entry n t =
     \<lparr>en_address = 16 * n, en_links = \<lparr>ln_next = 16 * (n + 1), ln_previous = 16 * (n - 1)\<rparr>, en_role = 0, en_sender = ''Ann'',
      en_text = t, en_game_time = None\<rparr>"

definition demo_log :: "Entry list" where
  "demo_log = [demo_entry 1 ''a'', demo_entry 2 ''b'', demo_entry 3 ''b'', demo_entry 4 ''c'']"

definition demo_channel :: "Entry list \<Rightarrow> Channel" where
  "demo_channel es =
     \<lparr>ch_address = 4096, ch_links = \<lparr>ln_next = 0, ln_previous = 0\<rparr>, ch_key = ''#T_1'', ch_entry_links = \<lparr>ln_next = 0, ln_previous = 0\<rparr>,
      ch_entries = es\<rparr>"

definition demo_position :: "Entry \<Rightarrow> Position" where
  "demo_position e = \<lparr>ps_channel_address = 4096, ps_conversation_id = ''c1'', ps_anchor = Some e\<rparr>"

definition demo_cursor :: "Entry \<Rightarrow> ChatCursor" where
  "demo_cursor e = \<lparr>cc_positions = Some [(''#T_1'', demo_position e)], cc_next_conversation = 1\<rparr>"

definition demo_polls :: "(History \<times> string option) list" where
  "demo_polls = [([demo_channel (take 3 demo_log)], None), ([demo_channel (drop 1 demo_log)], Some ''Ann'')]"

definition demo_updates :: "ChatUpdate list" where
  "demo_updates = map Message_update
     [chat_message (demo_entry 2 ''b'') ''#T_1'' ''c1'' None, chat_message (demo_entry 3 ''b'') ''#T_1'' ''c1'' None,
      chat_message (demo_entry 4 ''c'') ''#T_1'' ''c1'' (Some ''Ann'')]"

lemmas demo_chat_defs = demo_log_def demo_channel_def demo_position_def demo_cursor_def demo_polls_def demo_updates_def

lemma demo_same [simp]: "same_occurrence (demo_entry m s) (demo_entry n t) \<longleftrightarrow> 16 * m = 16 * n \<and> 16 * (m - 1) = 16 * (n - 1) \<and> s = t"
  by (auto simp: same_occurrence_def demo_entry_def)

lemma demo_distinct: "distinct_log demo_log"
  by (simp add: distinct_log_def demo_log_def All_less_Suc nth_Cons')

lemma demo_cursor_wf: "cursor_wf (demo_cursor e)"
proof -
  have "(of_char (CHR ''1'') :: nat) = 49" by simp
  then have "char_of (49 :: nat) = CHR ''1''" using char_of_char [where 'a = nat, of "CHR ''1''"] by simp
  then have "conversation_name 1 = ''c1''" by (simp add: conversation_name_def decimal.simps)
  then show ?thesis by (auto simp: cursor_wf_def demo_cursor_def demo_position_def names_bounded_def intro!: exI [of _ 1])
qed

lemma demo_parts:
  "take 3 demo_log = [demo_entry 1 ''a'', demo_entry 2 ''b'', demo_entry 3 ''b'']"
  "drop 1 demo_log = [demo_entry 2 ''b'', demo_entry 3 ''b'', demo_entry 4 ''c'']"
  "take 2 demo_updates = map (\<lambda>e. Message_update (chat_message e ''#T_1'' ''c1'' None)) [demo_entry 2 ''b'', demo_entry 3 ''b'']"
  "drop 2 demo_updates = [Message_update (chat_message (demo_entry 4 ''c'') ''#T_1'' ''c1'' (Some ''Ann''))]"
  by (simp_all add: demo_log_def demo_updates_def numeral_eq_Suc)

lemma demo_prepare:
  "chat_prepare (demo_cursor (demo_entry 1 ''a'')) [demo_channel (take 3 demo_log)] None =
     Ok (demo_cursor (demo_entry 3 ''b''), take 2 demo_updates, False)"
  "chat_prepare (demo_cursor (demo_entry 3 ''b'')) [demo_channel (drop 1 demo_log)] (Some ''Ann'') =
     Ok (demo_cursor (demo_entry 4 ''c''), drop 2 demo_updates, False)"
  unfolding demo_parts
  by (simp_all add: chat_prepare_def prepare_channel_def channel_position_def previous_position_def channel_updates_def
      chat_allowance_def MAX_EVENTS_def resume_index_def demo_channel_def demo_cursor_def demo_position_def Let_def)

lemma demo_chat_run: "chat_run (demo_cursor (demo_entry 1 ''a'')) demo_polls = Ok (demo_cursor (demo_entry 4 ''c''), demo_updates)"
  unfolding demo_polls_def chat_run.simps demo_prepare rbind.simps prod.case by simp

lemma observed_one:
  "lo \<le> lo' \<Longrightarrow> hi \<le> hi' \<Longrightarrow> window log lo' hi' (ch_entries c) \<Longrightarrow>
     observed log (ch_key c) (ch_address c) lo' hi' polls \<Longrightarrow>
     observed log (ch_key c) (ch_address c) lo hi (([c], local) # polls)"
  by (auto simp: MAX_EVENTS_def)

lemma demo_observed: "observed demo_log ''#T_1'' 4096 0 1 demo_polls"
proof -
  have w: "window demo_log 0 3 (ch_entries (demo_channel (take 3 demo_log)))" "window demo_log 1 4 (ch_entries (demo_channel (drop 1 demo_log)))"
    by (simp_all add: window_def demo_log_def demo_channel_def numeral_eq_Suc)
  have ids: "ch_key (demo_channel es) = ''#T_1''" "ch_address (demo_channel es) = 4096" for es by (simp_all add: demo_channel_def)
  have "observed demo_log ''#T_1'' 4096 1 4 []" by simp
  then have "observed demo_log ''#T_1'' 4096 0 3 [([demo_channel (drop 1 demo_log)], Some ''Ann'')]"
    by (intro observed_one [OF _ _ w(2), unfolded ids]) simp_all
  then show ?thesis
    unfolding demo_polls_def by (intro observed_one [OF _ _ w(1), unfolded ids]) simp_all
qed

theorem chat_exactly_once_witness:
  "\<exists>sent. conversation ''c1'' demo_updates = map (\<lambda>(i, local). chat_message (demo_log ! i) ''#T_1'' ''c1'' local) sent
     \<and> sorted_wrt (<) (map fst sent) \<and> map fst sent = [1..<4]"
proof -
  let ?p = "demo_position (demo_entry 1 ''a'')"
  have p: "position_of (demo_cursor (demo_entry 1 ''a'')) ''#T_1'' 4096 = Some ?p" "ps_conversation_id ?p = ''c1''" "ps_anchor ?p \<noteq> None"
    by (simp_all add: position_of_def demo_cursor_def demo_position_def)
  have t: "tracked demo_log 1 0 1 ?p" by (simp add: tracked_def demo_position_def demo_log_def)
  have quiet: "Gap_update (chat_channel ''#T_1'') \<notin> set demo_updates" by (simp add: demo_updates_def)
  have len: "length (conversation ''c1'' demo_updates) = 3" by (simp add: demo_updates_def)
  obtain sent m where sent: "conversation ''c1'' demo_updates = map (\<lambda>(i, local). chat_message (demo_log ! i) ''#T_1'' ''c1'' local) sent"
    "sorted_wrt (<) (map fst sent)" "map fst sent = [1..<m]"
    using chat_exactly_once [OF demo_distinct demo_cursor_wf p(1) t demo_observed demo_chat_run] p quiet by fastforce
  have "length (map fst sent) = 3" using len sent(1) by simp
  then have "m = 4" using sent(3) by simp
  then show ?thesis using sent by blast
qed

theorem chat_batch_complete_witness:
  "length (take 2 demo_updates) \<le> MAX_EVENTS
     \<and> rel_option same_occurrence (ps_anchor (demo_position (demo_entry 3 ''b''))) (last_entry (take 3 demo_log))"
  using chat_batch_complete [OF demo_cursor_wf _ _ demo_prepare(1)]
  by (simp add: MAX_EVENTS_def position_of_def demo_cursor_def demo_channel_def demo_position_def)

end
