(* ===== verification/Chat_Acquisition.thy ===== *)
theory Chat_Acquisition
  imports Chat_Delivery
begin

section \<open>Reading the chat history\<close>

text \<open>
  \<open>topics/chat/acquisition.rs\<close>, with the constants of \<open>topics/chat/facts.rs\<close> and \<open>target.rs\<close>. The game keeps the
  channels in a circular doubly linked list, and the entries of every channel in another; both are
  walked in memory that changes while it is read, so every walk is bounded and checks the links.
\<close>

definition READ_LIMITS :: ReadLimits where
  "READ_LIMITS = \<lparr>min_address = 1, max_address = 0x00007FFFFFFFFFFF, limit_bytes = 32 * 1024 * 1024, limit_reads = 64 * 1024\<rparr>"

definition MAX_CHANNELS :: usize where "MAX_CHANNELS = 32"
definition MAX_ENTRIES :: usize where "MAX_ENTRIES = 100"
definition MAX_TOTAL_ENTRIES :: usize where "MAX_TOTAL_ENTRIES = 1000"
definition MAX_STRING_BYTES :: usize where "MAX_STRING_BYTES = 512 * 1024"
definition MAX_MESSAGE_BYTES :: usize where "MAX_MESSAGE_BYTES = 4096"

record ChatFacts =
  cf_handler :: Rva
  cf_handler_slot :: VtableSlot
  cf_insert_call :: Rva
  cf_insert :: Rva
  cf_channels :: ObjectOffset
  cf_channels_reference :: Rva
  cf_channel_name :: ObjectOffset
  cf_channel_name_reference :: Rva
  cf_public_prefix_reference :: Rva
  cf_private_key_reference :: Rva
  cf_append_separator :: Rva
  cf_append_recipient :: Rva
  cf_channel_entries :: ObjectOffset
  cf_channel_entries_reference :: Rva
  cf_sender :: ObjectOffset
  cf_text :: ObjectOffset
  cf_timestamp :: ObjectOffset
  cf_role :: ObjectOffset
  cf_entry_fields :: Rva
  cf_string_copy :: Rva
  cf_retention_check :: Rva

definition CHAT_FACTS :: ChatFacts where
  "CHAT_FACTS =
     \<lparr>cf_handler = Rva 0x00F0F100, cf_handler_slot = VtableSlot 0x248, cf_insert_call = Rva 0x00F0F62C, cf_insert = Rva 0x00BAA300,
      cf_channels = ObjectOffset 0x11EA8, cf_channels_reference = Rva 0x00BAA4EB,
      cf_channel_name = ObjectOffset 0x18, cf_channel_name_reference = Rva 0x00BAA500,
      cf_public_prefix_reference = Rva 0x00BAA3B8, cf_private_key_reference = Rva 0x00BAA98D,
      cf_append_separator = Rva 0x0015A550, cf_append_recipient = Rva 0x01743080,
      cf_channel_entries = ObjectOffset 0x28, cf_channel_entries_reference = Rva 0x00BAB41A,
      cf_sender = ObjectOffset 0x18, cf_text = ObjectOffset 0x28, cf_timestamp = ObjectOffset 0x38, cf_role = ObjectOffset 0x48,
      cf_entry_fields = Rva 0x00BAB440, cf_string_copy = Rva 0x01330FC0, cf_retention_check = Rva 0x00BAB4CE\<rparr>"

subsection \<open>Nodes\<close>

definition chat_links :: "'m backend \<Rightarrow> u64 \<Rightarrow> ('m TargetReader, Links, TargetError) attempt" where
  "chat_links be address =
     (if address = 0 \<or> address mod 8 \<noteq> 0 then done_with (Err (InvalidData ''chat node pointer''))
      else and_then (read_at be address 16) (\<lambda>bytes.
        done_with (Ok \<lparr>ln_next = from_le (take 8 bytes), ln_previous = from_le (take 8 (drop 8 bytes))\<rparr>)))"

definition read_entry :: "'m backend \<Rightarrow> u64 \<Rightarrow> ('m TargetReader, Entry, TargetError) attempt" where
  "read_entry be address =
     and_then (chat_links be address) (\<lambda>first.
     and_then (read_string be address (cf_sender CHAT_FACTS) 128) (\<lambda>sender.
     and_then (read_string be address (cf_text CHAT_FACTS) MAX_MESSAGE_BYTES) (\<lambda>text.
     and_then (read_string be address (cf_timestamp CHAT_FACTS) 64) (\<lambda>time.
     and_then (read_object_u32 be address (cf_role CHAT_FACTS)) (\<lambda>role.
     and_then (chat_links be address) (\<lambda>again.
     done_with (if first \<noteq> again then Err (Unstable ''chat entry'')
       else rbind (chat_time time) (\<lambda>game_time.
         Ok \<lparr>en_address = address, en_links = first, en_role = role, en_sender = sender, en_text = text, en_game_time = game_time\<rparr>))))))))"

subsection \<open>Channel headers\<close>

definition read_channel :: "'m backend \<Rightarrow> u64 \<Rightarrow> Links \<Rightarrow> string \<Rightarrow> ('m TargetReader, Channel, TargetError) attempt" where
  "read_channel be address node key r =
     and_then (done_with (object_address r address (cf_channel_entries CHAT_FACTS) 16)) (\<lambda>entries.
     and_then (chat_links be entries) (\<lambda>entry_links.
     done_with (Ok \<lparr>ch_address = address, ch_links = node, ch_key = key, ch_entry_links = entry_links, ch_entries = []\<rparr>))) r"

text \<open>The loop; the addresses seen and the keys are those of the channels so far.\<close>

function walk_headers ::
  "'m backend \<Rightarrow> u64 \<Rightarrow> u64 \<Rightarrow> u64 \<Rightarrow> Channel list \<Rightarrow> u64 set \<Rightarrow> string set \<Rightarrow> ('m TargetReader, Channel list \<times> u64, TargetError) attempt"
where
  "walk_headers be sentinel current previous channels seen keys =
     (if current = sentinel then done_with (Ok (channels, previous))
      else if MAX_CHANNELS \<le> length channels then done_with (Err (SourceLimit ''chat channels''))
      else if current \<in> seen then done_with (Err (InvalidData ''chat channel cycle''))
      else and_then (chat_links be current) (\<lambda>node.
        if ln_previous node \<noteq> previous then done_with (Err (Unstable ''chat channel links''))
        else and_then (read_string be current (cf_channel_name CHAT_FACTS) 128) (\<lambda>key.
          if key \<in> keys then done_with (Err (InvalidData ''chat channel name''))
          else and_then (read_channel be current node key) (\<lambda>channel.
            walk_headers be sentinel (ln_next node) current (channels @ [channel]) (insert current seen) (insert key keys)))))"
  by pat_completeness auto
termination by (relation "measure (\<lambda>(be, sentinel, current, previous, channels, seen, keys). MAX_CHANNELS - length channels)") auto

declare walk_headers.simps [simp del]

definition chat_headers :: "'m backend \<Rightarrow> u64 \<Rightarrow> ('m TargetReader, Channel list, TargetError) attempt" where
  "chat_headers be sentinel =
     and_then (chat_links be sentinel) (\<lambda>head.
     and_then (walk_headers be sentinel (ln_next head) sentinel [] {} {}) (\<lambda>(channels, previous).
       if ln_previous head \<noteq> previous then done_with (Err (Unstable ''chat channel head''))
       else and_then (chat_links be sentinel) (\<lambda>again.
         done_with (if head \<noteq> again then Err (Unstable ''chat channel head'') else Ok channels))))"

definition same_header :: "Channel \<Rightarrow> Channel \<Rightarrow> bool" where
  "same_header a b \<longleftrightarrow>
     ch_address a = ch_address b \<and> ch_links a = ch_links b \<and> ch_key a = ch_key b \<and> ch_entry_links a = ch_entry_links b"

definition same_headers :: "Channel list \<Rightarrow> Channel list \<Rightarrow> bool" where
  "same_headers first second \<longleftrightarrow>
     length first = length second \<and> list_all (\<lambda>(a, b). same_header a b) (zip first second)"

subsection \<open>Entries\<close>

function walk_entries ::
  "'m backend \<Rightarrow> u64 \<Rightarrow> u64 \<Rightarrow> u64 \<Rightarrow> u64 set \<Rightarrow> Entry list \<Rightarrow> usize \<Rightarrow> usize \<Rightarrow> ('m TargetReader, Entry list \<times> u64 \<times> usize \<times> usize, TargetError) attempt"
where
  "walk_entries be sentinel current previous seen entries count bytes =
     (if current = sentinel then done_with (Ok (entries, previous, count, bytes))
      else if MAX_ENTRIES \<le> length entries \<or> MAX_TOTAL_ENTRIES \<le> count then done_with (Err (SourceLimit ''chat entries''))
      else if current \<in> seen then done_with (Err (InvalidData ''chat entry cycle''))
      else and_then (read_entry be current) (\<lambda>entry.
        if ln_previous (en_links entry) \<noteq> previous then done_with (Err (Unstable ''chat entry links''))
        else (let bytes = bytes + (length (en_text entry) + length (en_sender entry))
              in if MAX_STRING_BYTES < bytes then done_with (Err (SourceLimit ''chat strings''))
                 else walk_entries be sentinel (ln_next (en_links entry)) current (insert current seen) (entries @ [entry]) (count + 1) bytes)))"
  by pat_completeness auto
termination by (relation "measure (\<lambda>(be, sentinel, current, previous, seen, entries, count, bytes). MAX_ENTRIES - length entries)") auto

declare walk_entries.simps [simp del]

definition fill_channel ::
  "'m backend \<Rightarrow> Channel \<Rightarrow> usize \<Rightarrow> usize \<Rightarrow> ('m TargetReader, Channel \<times> usize \<times> usize, TargetError) attempt" where
  "fill_channel be channel count bytes r =
     and_then (done_with (object_address r (ch_address channel) (cf_channel_entries CHAT_FACTS) 16)) (\<lambda>sentinel.
     and_then (walk_entries be sentinel (ln_next (ch_entry_links channel)) sentinel {} (ch_entries channel) count (bytes + length (ch_key channel)))
       (\<lambda>(entries, previous, count, bytes).
         done_with (if previous \<noteq> ln_previous (ch_entry_links channel) then Err (Unstable ''chat entry tail'')
           else Ok (channel\<lparr>ch_entries := entries\<rparr>, count, bytes)))) r"

fun fill_channels :: "'m backend \<Rightarrow> Channel list \<Rightarrow> usize \<Rightarrow> usize \<Rightarrow> ('m TargetReader, Channel list, TargetError) attempt" where
  "fill_channels be [] count bytes = done_with (Ok [])"
| "fill_channels be (channel # channels) count bytes =
     and_then (fill_channel be channel count bytes) (\<lambda>(channel', count', bytes').
     and_then (fill_channels be channels count' bytes') (\<lambda>channels'. done_with (Ok (channel' # channels'))))"

definition read_history :: "'m backend \<Rightarrow> u64 \<Rightarrow> ('m TargetReader, History, TargetError) attempt" where
  "read_history be sentinel =
     and_then (chat_headers be sentinel) (\<lambda>headers.
     and_then (fill_channels be headers 0 0) (\<lambda>channels.
     and_then (chat_headers be sentinel) (\<lambda>again.
     done_with (if same_headers again channels then Ok channels else Err (Unstable ''chat channel headers'')))))"

subsection \<open>A poll of the chat\<close>

text \<open>
  \<open>tails_unchanged\<close> rereads the last entry of every channel of the cached history. \<open>Ok None\<close> means the
  cached history is still the current one.
\<close>

fun tails_unchanged :: "'m backend \<Rightarrow> Channel list \<Rightarrow> ('m TargetReader, bool, TargetError) attempt" where
  "tails_unchanged be [] = done_with (Ok True)"
| "tails_unchanged be (channel # channels) =
     (case last_entry (ch_entries channel) of
        None \<Rightarrow> tails_unchanged be channels
      | Some tail \<Rightarrow>
        and_then (read_entry be (en_address tail)) (\<lambda>entry.
        and_then (tails_unchanged be channels) (\<lambda>rest. done_with (Ok (entry = tail \<and> rest)))))"

definition history_unchanged :: "'m backend \<Rightarrow> u64 \<Rightarrow> Channel list \<Rightarrow> History option \<Rightarrow> ('m TargetReader, bool, TargetError) attempt" where
  "history_unchanged be sentinel first cached =
     (case cached of
        None \<Rightarrow> done_with (Ok False)
      | Some history \<Rightarrow>
        if \<not> same_headers first history then done_with (Ok False)
        else and_then (tails_unchanged be history) (\<lambda>unchanged.
          if \<not> unchanged then done_with (Ok False)
          else and_then (chat_headers be sentinel) (\<lambda>again. done_with (Ok (same_headers again first)))))"

definition read_chat_from :: "'m backend \<Rightarrow> u64 \<Rightarrow> History option \<Rightarrow> ('m TargetReader, History option, TargetError) attempt" where
  "read_chat_from be object cached =
     and_then (require_vtable_slot_le64 be object (cf_handler_slot CHAT_FACTS) (cf_handler CHAT_FACTS) ''chat message handler'') (\<lambda>_ r.
     and_then (done_with (object_address r object (cf_channels CHAT_FACTS) 16)) (\<lambda>sentinel.
     and_then (chat_headers be sentinel) (\<lambda>first.
     and_then (history_unchanged be sentinel first cached) (\<lambda>unchanged.
       if unchanged then done_with (Ok None)
       else then_map Some (read_stable (read_history be sentinel) (Unstable ''chat history''))))) r)"

definition read_chat :: "'m backend \<Rightarrow> u64 \<Rightarrow> u32 \<Rightarrow> u64 \<Rightarrow> History option \<Rightarrow> ('m, History option, TargetError) attempt" where
  "read_chat be base image_size object cached memory =
     (case target_reader_new memory base image_size READ_LIMITS of
        Err e \<Rightarrow> (memory, Err e)
      | Ok r \<Rightarrow> (case read_chat_from be object cached r of (r', result) \<Rightarrow> (rd_memory r', result)))"

subsection \<open>What is acquired\<close>

text \<open>
  A walk along the links of nodes: it starts at \<open>current\<close> after \<open>previous\<close>, the nodes are linked in both
  directions, and it ends at the sentinel.
\<close>

fun chained :: "u64 \<Rightarrow> u64 \<Rightarrow> u64 \<Rightarrow> (u64 \<times> Links) list \<Rightarrow> u64 \<Rightarrow> bool" where
  "chained sentinel previous current [] tail \<longleftrightarrow> current = sentinel \<and> tail = previous"
| "chained sentinel previous current ((address, links) # nodes) tail \<longleftrightarrow>
     address = current \<and> current \<noteq> sentinel \<and> ln_previous links = previous \<and> chained sentinel current (ln_next links) nodes tail"

definition channel_node :: "Channel \<Rightarrow> u64 \<times> Links" where
  "channel_node c = (ch_address c, ch_links c)"

definition entry_node :: "Entry \<Rightarrow> u64 \<times> Links" where
  "entry_node e = (en_address e, en_links e)"

definition entry_bytes :: "Entry list \<Rightarrow> nat" where
  "entry_bytes es = sum_list (map (\<lambda>e. length (en_text e) + length (en_sender e)) es)"

definition entries_sound :: "u64 \<Rightarrow> Links \<Rightarrow> Entry list \<Rightarrow> bool" where
  "entries_sound sentinel links es \<longleftrightarrow>
     chained sentinel sentinel (ln_next links) (map entry_node es) (ln_previous links)
     \<and> distinct (map en_address es) \<and> length es \<le> MAX_ENTRIES
     \<and> list_all (\<lambda>e. length (en_text e) \<le> MAX_MESSAGE_BYTES \<and> length (en_sender e) \<le> 128) es"

definition history_sound :: "History \<Rightarrow> bool" where
  "history_sound history \<longleftrightarrow>
     length history \<le> MAX_CHANNELS \<and> distinct (map ch_key history) \<and> distinct (map ch_address history)
     \<and> list_all (\<lambda>c. length (ch_key c) \<le> 128) history
     \<and> (\<exists>sentinel. \<exists>links :: Links. chained sentinel sentinel (ln_next links) (map channel_node history) (ln_previous links))
     \<and> list_all (\<lambda>c. \<exists>sentinel. entries_sound sentinel (ch_entry_links c) (ch_entries c)) history
     \<and> sum_list (map (length \<circ> ch_entries) history) \<le> MAX_TOTAL_ENTRIES
     \<and> entry_bytes (concat (map ch_entries history)) \<le> MAX_STRING_BYTES"

lemma read_entry_Ok:
  assumes "read_entry be address r = (r', Ok e)"
  shows "en_address e = address" and "length (en_text e) \<le> MAX_MESSAGE_BYTES" and "length (en_sender e) \<le> 128"
proof -
  obtain r1 r2 r3 r4 where "read_string be address (cf_sender CHAT_FACTS) 128 r1 = (r2, Ok (en_sender e))"
    "read_string be address (cf_text CHAT_FACTS) MAX_MESSAGE_BYTES r3 = (r4, Ok (en_text e))" "en_address e = address"
    using assms by (auto simp: read_entry_def and_then_Ok split: if_splits)
  then show "en_address e = address" and "length (en_text e) \<le> MAX_MESSAGE_BYTES" and "length (en_sender e) \<le> 128"
    using read_string_bounded(1) by blast+
qed

lemma entry_bytes_simps [simp]:
  "entry_bytes [] = 0" "entry_bytes (es @ fs) = entry_bytes es + entry_bytes fs"
  "entry_bytes [e] = length (en_text e) + length (en_sender e)"
  by (simp_all add: entry_bytes_def)

lemma walk_entries_Ok:
  assumes "walk_entries be sentinel current previous seen entries count bytes r = (r', Ok (entries', last', count', bytes'))"
    and "seen = set (map en_address entries)" and "distinct (map en_address entries)" and "length entries \<le> MAX_ENTRIES"
    and "list_all (\<lambda>e. length (en_text e) \<le> MAX_MESSAGE_BYTES \<and> length (en_sender e) \<le> 128) entries"
    and "count \<le> MAX_TOTAL_ENTRIES"
  shows "\<exists>es. entries' = entries @ es \<and> chained sentinel previous current (map entry_node es) last'
    \<and> distinct (map en_address entries') \<and> length entries' \<le> MAX_ENTRIES
    \<and> list_all (\<lambda>e. length (en_text e) \<le> MAX_MESSAGE_BYTES \<and> length (en_sender e) \<le> 128) entries'
    \<and> count' = count + length es \<and> count' \<le> MAX_TOTAL_ENTRIES
    \<and> bytes' = bytes + entry_bytes es \<and> (es = [] \<or> bytes' \<le> MAX_STRING_BYTES)"
  using assms
proof (induction be sentinel current previous seen entries count bytes arbitrary: r rule: walk_entries.induct)
  case (1 be sentinel current previous seen entries count bytes)
  show ?case
  proof (cases "current = sentinel")
    case True
    then have "entries' = entries \<and> last' = previous \<and> count' = count \<and> bytes' = bytes"
      using 1(2) by (simp add: walk_entries.simps)
    then show ?thesis using 1(4-7) True by (intro exI [of _ "[]"]) simp
  next
    case False
    then have room: "length entries < MAX_ENTRIES" "count < MAX_TOTAL_ENTRIES" "current \<notin> seen"
      using 1(2) by (auto simp: walk_entries.simps [of be sentinel current] split: if_splits)
    then obtain e r1 where e: "read_entry be current r = (r1, Ok e)" "ln_previous (en_links e) = previous"
      "bytes + (length (en_text e) + length (en_sender e)) \<le> MAX_STRING_BYTES"
      "walk_entries be sentinel (ln_next (en_links e)) current (insert current seen) (entries @ [e]) (count + 1)
        (bytes + (length (en_text e) + length (en_sender e))) r1 = (r', Ok (entries', last', count', bytes'))"
      using False 1(2) by (subst (asm) walk_entries.simps) (auto simp: and_then_Ok Let_def split: if_splits)
    note entry = read_entry_Ok [OF e(1)]
    have "\<exists>es. entries' = (entries @ [e]) @ es \<and> chained sentinel current (ln_next (en_links e)) (map entry_node es) last'
      \<and> distinct (map en_address entries') \<and> length entries' \<le> MAX_ENTRIES
      \<and> list_all (\<lambda>e. length (en_text e) \<le> MAX_MESSAGE_BYTES \<and> length (en_sender e) \<le> 128) entries'
      \<and> count' = (count + 1) + length es \<and> count' \<le> MAX_TOTAL_ENTRIES
      \<and> bytes' = (bytes + (length (en_text e) + length (en_sender e))) + entry_bytes es \<and> (es = [] \<or> bytes' \<le> MAX_STRING_BYTES)"
      by (rule 1(1) [OF False _ _ _ _ _ e(4)]) (use room e 1(3-7) entry in \<open>simp_all add: not_le\<close>)
    then obtain es where es: "entries' = (entries @ [e]) @ es" "chained sentinel current (ln_next (en_links e)) (map entry_node es) last'"
      "distinct (map en_address entries')" "length entries' \<le> MAX_ENTRIES"
      "list_all (\<lambda>e. length (en_text e) \<le> MAX_MESSAGE_BYTES \<and> length (en_sender e) \<le> 128) entries'"
      "count' = (count + 1) + length es" "count' \<le> MAX_TOTAL_ENTRIES"
      "bytes' = (bytes + (length (en_text e) + length (en_sender e))) + entry_bytes es" "es = [] \<or> bytes' \<le> MAX_STRING_BYTES"
      by blast
    have "bytes' \<le> MAX_STRING_BYTES" using es(8,9) e(3) by auto
    moreover have "entry_bytes (e # es) = length (en_text e) + length (en_sender e) + entry_bytes es" by (simp add: entry_bytes_def)
    ultimately show ?thesis
      using es e(2) entry(1) False by (intro exI [of _ "e # es"]) (simp add: entry_node_def [of e])
  qed
qed

lemma read_channel_Ok:
  "read_channel be address node key r = (r', Ok c) \<Longrightarrow>
     ch_address c = address \<and> ch_links c = node \<and> ch_key c = key \<and> ch_entries c = []"
  by (auto simp: read_channel_def and_then_Ok)

lemma walk_headers_Ok:
  assumes "walk_headers be sentinel current previous channels seen keys r = (r', Ok (channels', tail))"
    and "seen = set (map ch_address channels)" and "keys = set (map ch_key channels)"
    and "distinct (map ch_address channels)" and "distinct (map ch_key channels)" and "length channels \<le> MAX_CHANNELS"
    and "list_all (\<lambda>c. length (ch_key c) \<le> 128 \<and> ch_entries c = []) channels"
  shows "\<exists>cs. channels' = channels @ cs \<and> chained sentinel previous current (map channel_node cs) tail
    \<and> distinct (map ch_address channels') \<and> distinct (map ch_key channels') \<and> length channels' \<le> MAX_CHANNELS
    \<and> list_all (\<lambda>c. length (ch_key c) \<le> 128 \<and> ch_entries c = []) channels'"
  using assms
proof (induction be sentinel current previous channels seen keys arbitrary: r rule: walk_headers.induct)
  case (1 be sentinel current previous channels seen keys)
  show ?case
  proof (cases "current = sentinel")
    case True
    then have "channels' = channels \<and> tail = previous" using 1(2) by (simp add: walk_headers.simps)
    then show ?thesis using 1(5-8) True by (intro exI [of _ "[]"]) simp
  next
    case False
    then have room: "length channels < MAX_CHANNELS" "current \<notin> seen"
      using 1(2) by (auto simp: walk_headers.simps [of be sentinel current] split: if_splits)
    then obtain node key c r1 r2 r3 where c: "ln_previous node = previous" "read_string be current (cf_channel_name CHAT_FACTS) 128 r1 = (r2, Ok key)"
      "key \<notin> keys" "read_channel be current node key r2 = (r3, Ok c)"
      "walk_headers be sentinel (ln_next node) current (channels @ [c]) (insert current seen) (insert key keys) r3 = (r', Ok (channels', tail))"
      using False 1(2) by (subst (asm) walk_headers.simps) (auto simp: and_then_Ok split: if_splits)
    note channel = read_channel_Ok [OF c(4)] and key = read_string_bounded(1) [OF c(2)]
    have "\<exists>cs. channels' = (channels @ [c]) @ cs \<and> chained sentinel current (ln_next node) (map channel_node cs) tail
      \<and> distinct (map ch_address channels') \<and> distinct (map ch_key channels') \<and> length channels' \<le> MAX_CHANNELS
      \<and> list_all (\<lambda>c. length (ch_key c) \<le> 128 \<and> ch_entries c = []) channels'"
      by (rule 1(1) [OF False _ _ _ _ c(5)]) (use room c 1(3-8) channel key in \<open>simp_all add: not_le\<close>)
    then obtain cs where "channels' = (channels @ [c]) @ cs" "chained sentinel current (ln_next node) (map channel_node cs) tail"
      "distinct (map ch_address channels')" "distinct (map ch_key channels')" "length channels' \<le> MAX_CHANNELS"
      "list_all (\<lambda>c. length (ch_key c) \<le> 128 \<and> ch_entries c = []) channels'"
      by blast
    then show ?thesis
      using c(1) channel False by (intro exI [of _ "c # cs"]) (simp add: channel_node_def [of c])
  qed
qed

lemma chat_headers_Ok:
  assumes "chat_headers be sentinel r = (r', Ok channels)"
  shows "\<exists>links :: Links. chained sentinel sentinel (ln_next links) (map channel_node channels) (ln_previous links)"
    and "distinct (map ch_address channels)" and "distinct (map ch_key channels)" and "length channels \<le> MAX_CHANNELS"
    and "list_all (\<lambda>c. length (ch_key c) \<le> 128 \<and> ch_entries c = []) channels"
proof -
  obtain head :: Links and r1 r2 where w: "walk_headers be sentinel (ln_next head) sentinel [] {} {} r1 = (r2, Ok (channels, ln_previous head))"
    using assms by (auto simp: chat_headers_def and_then_Ok split: if_splits)
  have "\<exists>cs. channels = [] @ cs \<and> chained sentinel sentinel (ln_next head) (map channel_node cs) (ln_previous head)
      \<and> distinct (map ch_address channels) \<and> distinct (map ch_key channels) \<and> length channels \<le> MAX_CHANNELS
      \<and> list_all (\<lambda>c. length (ch_key c) \<le> 128 \<and> ch_entries c = []) channels"
    by (rule walk_headers_Ok [OF w]) simp_all
  then show "\<exists>links :: Links. chained sentinel sentinel (ln_next links) (map channel_node channels) (ln_previous links)"
    and "distinct (map ch_address channels)" and "distinct (map ch_key channels)" and "length channels \<le> MAX_CHANNELS"
    and "list_all (\<lambda>c. length (ch_key c) \<le> 128 \<and> ch_entries c = []) channels"
    by auto
qed

lemma fill_channel_Ok:
  assumes "fill_channel be channel count bytes r = (r', Ok (channel', count', bytes'))"
    and "ch_entries channel = []" and "count \<le> MAX_TOTAL_ENTRIES"
  shows "channel' = channel\<lparr>ch_entries := ch_entries channel'\<rparr>"
    and "\<exists>sentinel. entries_sound sentinel (ch_entry_links channel') (ch_entries channel')"
    and "count' = count + length (ch_entries channel')" and "count' \<le> MAX_TOTAL_ENTRIES"
    and "bytes + entry_bytes (ch_entries channel') \<le> bytes'" and "ch_entries channel' = [] \<or> bytes' \<le> MAX_STRING_BYTES"
proof -
  obtain sentinel es where w: "walk_entries be sentinel (ln_next (ch_entry_links channel)) sentinel {} [] count (bytes + length (ch_key channel)) r =
      (r', Ok (es, ln_previous (ch_entry_links channel), count', bytes'))" and ch: "channel' = channel\<lparr>ch_entries := es\<rparr>"
    using assms(1,2) by (auto simp: fill_channel_def and_then_Ok split: if_splits)
  have "\<exists>fs. es = [] @ fs \<and> chained sentinel sentinel (ln_next (ch_entry_links channel)) (map entry_node fs) (ln_previous (ch_entry_links channel))
      \<and> distinct (map en_address es) \<and> length es \<le> MAX_ENTRIES
      \<and> list_all (\<lambda>e. length (en_text e) \<le> MAX_MESSAGE_BYTES \<and> length (en_sender e) \<le> 128) es
      \<and> count' = count + length fs \<and> count' \<le> MAX_TOTAL_ENTRIES
      \<and> bytes' = (bytes + length (ch_key channel)) + entry_bytes fs \<and> (fs = [] \<or> bytes' \<le> MAX_STRING_BYTES)"
    by (rule walk_entries_Ok [OF w]) (simp_all add: assms(3))
  then show "channel' = channel\<lparr>ch_entries := ch_entries channel'\<rparr>"
    and "\<exists>sentinel. entries_sound sentinel (ch_entry_links channel') (ch_entries channel')"
    and "count' = count + length (ch_entries channel')" and "count' \<le> MAX_TOTAL_ENTRIES"
    and "bytes + entry_bytes (ch_entries channel') \<le> bytes'" and "ch_entries channel' = [] \<or> bytes' \<le> MAX_STRING_BYTES"
    by (auto simp: ch entries_sound_def)
qed

lemma fill_channels_Ok:
  assumes "fill_channels be channels count bytes r = (r', Ok channels')"
    and "list_all (\<lambda>c. ch_entries c = []) channels" and "count \<le> MAX_TOTAL_ENTRIES"
  shows "map (\<lambda>c. c\<lparr>ch_entries := []\<rparr>) channels' = channels
    \<and> list_all (\<lambda>c. \<exists>sentinel. entries_sound sentinel (ch_entry_links c) (ch_entries c)) channels'
    \<and> count + sum_list (map (length \<circ> ch_entries) channels') \<le> MAX_TOTAL_ENTRIES
    \<and> (concat (map ch_entries channels') = [] \<or> bytes + entry_bytes (concat (map ch_entries channels')) \<le> MAX_STRING_BYTES)"
  using assms
proof (induction channels arbitrary: channels' count bytes r)
  case Nil
  then show ?case by simp
next
  case (Cons channel channels)
  obtain c r1 count1 bytes1 cs where f: "fill_channel be channel count bytes r = (r1, Ok (c, count1, bytes1))"
    "fill_channels be channels count1 bytes1 r1 = (r', Ok cs)" "channels' = c # cs"
    using Cons.prems(1) by (auto simp: and_then_Ok)
  have none: "ch_entries channel = []" "list_all (\<lambda>c. ch_entries c = []) channels" using Cons.prems(2) by simp_all
  note one = fill_channel_Ok [OF f(1) none(1) Cons.prems(3)]
  note rest = Cons.IH [OF f(2) none(2) one(4)]
  have "c\<lparr>ch_entries := []\<rparr> = channel" using one(1) none(1) by (metis Channel.surjective Channel.update_convs(5) old.unit.exhaust)
  moreover have "concat (map ch_entries (c # cs)) = [] \<or> bytes + entry_bytes (concat (map ch_entries (c # cs))) \<le> MAX_STRING_BYTES"
  proof (cases "concat (map ch_entries cs) = []")
    case True
    then have whole: "concat (map ch_entries (c # cs)) = ch_entries c" by (simp del: concat_eq_Nil_conv)
    show ?thesis unfolding whole using one(5,6) by auto
  next
    case False
    then have "bytes1 + entry_bytes (concat (map ch_entries cs)) \<le> MAX_STRING_BYTES" using rest by blast
    then show ?thesis using one(5) by simp
  qed
  ultimately show ?case using one(2-4) rest f(3) by (simp del: concat_eq_Nil_conv)
qed

lemma same_headers_strip:
  assumes "same_headers first second"
  shows "map channel_node first = map channel_node second" and "map ch_key first = map ch_key second"
proof -
  have "length first = length second" and "list_all2 same_header first second"
    using assms by (auto simp: same_headers_def list_all_iff list_all2_iff)
  then show "map channel_node first = map channel_node second" and "map ch_key first = map ch_key second"
    by (auto simp: list_all2_conv_all_nth same_header_def channel_node_def intro!: nth_equalityI)
qed

lemma read_history_Ok:
  assumes "read_history be sentinel r = (r', Ok history)"
  shows "history_sound history"
proof -
  obtain headers r1 r2 r3 r4 where h: "chat_headers be sentinel r1 = (r2, Ok headers)"
    and f: "fill_channels be headers 0 0 r3 = (r4, Ok history)"
    using assms by (auto simp: read_history_def and_then_Ok split: if_splits)
  note heads = chat_headers_Ok [OF h]
  have none: "list_all (\<lambda>c. ch_entries c = []) headers" using heads(5) by (simp add: list_all_iff)
  note fill = fill_channels_Ok [OF f none]
  have strip: "headers = map (\<lambda>c. c\<lparr>ch_entries := []\<rparr>) history" using fill by simp
  have same: "map ch_key headers = map ch_key history" "map ch_address headers = map ch_address history"
    "map channel_node headers = map channel_node history" "length headers = length history"
    unfolding strip by (simp_all add: channel_node_def)
  have "list_all (\<lambda>c. length (ch_key c) \<le> 128) history" using heads(5) unfolding strip by (simp add: list_all_iff)
  moreover have "entry_bytes (concat (map ch_entries history)) \<le> MAX_STRING_BYTES"
  proof (cases "concat (map ch_entries history) = []")
    case True
    show ?thesis unfolding True by simp
  next
    case False
    then show ?thesis using fill by auto
  qed
  ultimately show ?thesis using heads(1-4) fill unfolding history_sound_def same by auto
qed

text \<open>
  C21: Whatever the memory of the process holds, and however it changes while it is read, a history
  the provider acquires has at most 32 channels with distinct keys, no entry twice, and lists that
  are linked consistently in both directions; and it is bounded by 100 entries a channel, 1000
  entries and 512 KiB of text in all.
\<close>

theorem chat_acquisition_sound:
  assumes "read_chat be base image_size object cached memory = (memory', Ok (Some history))"
  shows "history_sound history"
proof -
  obtain sentinel r r' where "read_history be sentinel r = (r', Ok history)"
    using assms
    by (auto simp: read_chat_def read_chat_from_def and_then_Ok then_map_def split: result.splits prod.splits if_splits
        dest!: read_stable_Ok)
  then show ?thesis by (rule read_history_Ok)
qed

lemma sound_publishable:
  "history_sound history \<Longrightarrow> length history \<le> MAX_EVENTS \<and> distinct (map ch_key history)"
  by (simp add: history_sound_def MAX_CHANNELS_def MAX_EVENTS_def)

end
