(* ===== verification/Static_Memory.thy ===== *)
theory Static_Memory
  imports Chat_Acquisition
begin

section \<open>Processes with fixed contents\<close>

text \<open>
  Concrete memories for the witnesses: what a read returns depends on the address, and reading does not
  change the process. Every kind of read is evaluated once, at any remaining budget.
\<close>

definition static_backend :: "('m \<Rightarrow> u64 \<Rightarrow> u8 list) \<Rightarrow> 'm backend" where
  "static_backend f address len m = (m, Ok (f m address))"

definition static_reader :: "'m \<Rightarrow> nat \<Rightarrow> nat \<Rightarrow> 'm TargetReader" where
  "static_reader m b n =
     \<lparr>rd_memory = m, rd_module_base = 0x140000000, rd_image_size = 0x02CD8000,
      rd_limits = \<lparr>min_address = 1, max_address = 0x00007FFFFFFFFFFF, limit_bytes = b, limit_reads = n\<rparr>\<rparr>"

definition inline_string :: "u8 list \<Rightarrow> u8 list" where
  "inline_string bs = bs @ replicate (15 - length bs) 0 @ [15 - of_nat (length bs)]"

lemma static_read_at:
  assumes "0 < len" and "len \<le> b" and "0 < n" and "address \<noteq> 0" and "unat address + len \<le> 0x00007FFFFFFFFFFF"
  shows "read_at (static_backend f) address len (static_reader m b n) = (static_reader m (b - len) (n - 1), Ok (fill len (f m address)))"
proof -
  have "in_bounds (rd_limits (static_reader m b n)) address len"
    using assms by (simp add: in_bounds_def static_reader_def word_le_nat_alt) (simp add: Suc_le_eq unat_gt_0)
  then have "validate_range (rd_limits (static_reader m b n)) address len = Ok ()" by (simp add: validate_range_Ok)
  then show ?thesis
    using assms by (simp add: read_at_def and_then_def done_with_def read_unchecked_def usize_checked_sub_def static_backend_def static_reader_def)
qed

lemma static_object:
  assumes "unat object + unat offset + len \<le> 0x00007FFFFFFFFFFF" and "0 < len" and "object \<noteq> 0"
  shows "object_address (static_reader m b n) object (ObjectOffset offset) len = Ok (object + ucast offset)"
proof -
  have small: "unat object + unat (ucast offset :: u64) < 2 ^ 64" using assms(1) by simp
  then have sum: "unat (object + ucast offset) = unat object + unat offset"
    using unat_add_lem [of object "ucast offset :: u64"] by simp
  have "0 < unat object" using assms(3) by (simp add: unat_gt_0)
  then have "in_bounds (rd_limits (static_reader m b n)) (object + ucast offset) len"
    using assms(1,2) sum by (simp add: in_bounds_def static_reader_def word_le_nat_alt)
  then have "validate_range (rd_limits (static_reader m b n)) (object + ucast offset) len = Ok ()" by (simp add: validate_range_Ok)
  moreover have "checked_add object (ucast offset) = Some (object + ucast offset)" using small by (simp add: checked_add_Some_iff)
  ultimately show ?thesis by (simp add: object_address_def ok_or_def)
qed

lemma static_string_once:
  assumes "f m address = inline_string bs" and "length bs \<le> 15" and "length bs \<le> maximum" and "0 \<notin> set bs" and "valid_utf8 bs"
    and "address \<noteq> 0" and "unat address + 16 \<le> 0x00007FFFFFFFFFFF" and "32 \<le> b" and "2 \<le> n"
  shows "read_string_once (static_backend f) address maximum (static_reader m b n) = (static_reader m (b - 32) (n - 2), Ok (string_of_bytes bs))"
proof -
  have len: "length (inline_string bs) = 16" using assms(2) by (simp add: inline_string_def)
  have full: "fill 16 (inline_string bs) = inline_string bs" using len by (simp add: fill_def)
  have last: "inline_string bs ! 15 = 15 - of_nat (length bs)" using assms(2) by (simp add: inline_string_def nth_append)
  have n: "(of_nat (length bs) :: u8) \<le> 15" using assms(2) by (simp add: word_le_nat_alt unat_of_nat)
  then have "15 - (of_nat (length bs) :: u8) \<le> 15" by (simp add: word_le_nat_alt unat_sub)
  then have storage: "decode_header (inline_string bs) maximum = Ok (Inline (length bs))"
    using assms(2,3) by (simp add: decode_header_def header_storage_def last unat_of_nat)
  have "take (length bs) (inline_string bs) = bs" by (simp add: inline_string_def)
  then show ?thesis
    using assms(4-9) storage full
    by (simp add: read_string_once_def and_then_def static_read_at assms(1) done_with_def string_contents_def checked_string_def
        numeral_2_eq_2)
qed

lemma static_string:
  assumes "f m (object + ucast offset) = inline_string bs" and "length bs \<le> 15" and "length bs \<le> maximum" and "0 \<notin> set bs" and "valid_utf8 bs"
    and "object \<noteq> 0" and "unat object + unat offset + 16 \<le> 0x00007FFFFFFFFFFF" and "64 \<le> b" and "4 \<le> n"
  shows "read_string (static_backend f) object (ObjectOffset offset) maximum (static_reader m b n) = (static_reader m (b - 64) (n - 4), Ok (string_of_bytes bs))"
proof -
  have small: "unat object + unat (ucast offset :: u64) < 2 ^ 64" using assms(7) by simp
  then have sum: "unat (object + ucast offset) = unat object + unat offset"
    using unat_add_lem [of object "ucast offset :: u64"] by simp
  moreover have "0 < unat object" using assms(6) by (simp add: unat_gt_0)
  ultimately have "object + ucast offset \<noteq> 0" by auto
  then show ?thesis
    using assms sum
    by (simp add: read_string_def and_then_def done_with_def static_object read_stable_def
        static_string_once [where f = f and m = m, OF assms(1-5)])
qed

lemma static_fill: "length bs = len \<Longrightarrow> fill len bs = bs"
  by (simp add: fill_def)

lemma string_of_ascii: "string_of_bytes (map (\<lambda>c. of_nat (of_char c)) s) = s"
proof -
  have "unat (of_nat (of_char c) :: u8) = of_char c" for c :: char
    using nat_of_char_less_256 [of c] by (simp add: unat_of_nat)
  then show ?thesis by (simp add: string_of_bytes_def comp_def)
qed

lemma static_new: "target_reader_new m 0x140000000 0x02CD8000 READ_LIMITS = Ok (static_reader m 33554432 65536)"
  by (simp add: target_reader_new_def READ_LIMITS_def static_reader_def validate_range_def u64_try_from_def ok_or_def checked_add_def)

text \<open>Reads of the executable.\<close>

lemma static_module:
  assumes "0 < len" and "unat rva + len \<le> 0x02CD8000"
  shows "module_address (static_reader m b n) (Rva rva) len = Ok (0x140000000 + ucast rva)"
proof -
  have len: "len < 2 ^ 64" and rva: "unat (ucast rva :: u64) = unat rva" using assms(2) by simp_all
  have n: "unat (of_nat len :: u64) = len" using len by (simp add: unat_of_nat)
  have sum: "unat (ucast rva + of_nat len :: u64) = unat rva + len"
    using unat_add_lem [of "ucast rva :: u64" "of_nat len"] n assms(2) by simp
  have at: "unat (0x140000000 + ucast rva :: u64) = 0x140000000 + unat rva"
    using unat_add_lem [of "0x140000000 :: u64" "ucast rva"] assms(2) by simp
  have "in_bounds (rd_limits (static_reader m b n)) (0x140000000 + ucast rva) len"
    using assms at by (simp add: in_bounds_def static_reader_def word_le_nat_alt)
  then have valid: "validate_range (rd_limits (static_reader m b n)) (0x140000000 + ucast rva) len = Ok ()" by (simp add: validate_range_Ok)
  have "checked_add (ucast rva) (of_nat len :: u64) = Some (ucast rva + of_nat len)"
    using assms(2) n by (simp add: checked_add_Some_iff)
  moreover have "\<not> ucast (rd_image_size (static_reader m b n)) < (ucast rva + of_nat len :: u64)"
    using sum assms(2) by (simp add: word_less_nat_alt static_reader_def)
  moreover have "checked_add (rd_module_base (static_reader m b n)) (ucast rva) = Some (0x140000000 + ucast rva)"
    using assms(2) by (simp add: checked_add_Some_iff static_reader_def)
  moreover have "u64_try_from len = Some (of_nat len)" using len by (simp add: u64_try_from_def)
  ultimately show ?thesis using valid len by (simp add: module_address_def ok_or_def u64_try_from_def)
qed

lemma static_pointer:
  assumes "unat rva + 1 \<le> 0x02CD8000"
  shows "require_module_pointer (static_reader m b n) v (Rva rva) at = (if v = 0x140000000 + ucast rva then Ok () else Err (InvalidData at))"
  using static_module [of 1 rva m b n] assms by (simp add: require_module_pointer_def ensure_def)

lemma static_read_module:
  assumes "0 < len" and "unat rva + len \<le> 0x02CD8000" and "len \<le> b" and "0 < n"
  shows "read_module (static_backend f) (Rva rva) len (static_reader m b n) =
    (static_reader m (b - len) (n - 1), Ok (fill len (f m (0x140000000 + ucast rva))))"
  using assms
  by (simp add: read_module_def and_then_def done_with_def static_module read_unchecked_def usize_checked_sub_def static_backend_def)
    (simp add: static_reader_def)

lemma static_slot:
  assumes "f m object = to_le vtable" and "f m (vtable + ucast slot) = to_le (0x140000000 + ucast rva :: u64)"
    and "unat object + 8 \<le> 0x00007FFFFFFFFFFF" and "object \<noteq> 0" and "unat vtable + unat slot + 8 \<le> 0x00007FFFFFFFFFFF" and "vtable \<noteq> 0"
    and "unat rva + 1 \<le> 0x02CD8000" and "16 \<le> b" and "2 \<le> n"
  shows "require_vtable_slot_le64 (static_backend f) object (VtableSlot slot) (Rva rva) at (static_reader m b n) =
    (static_reader m (b - 16) (n - 2), Ok ())"
proof -
  obtain c d where bn: "b = 16 + c" "n = 2 + d" using le_Suc_ex [OF assms(8)] le_Suc_ex [OF assms(9)] by blast
  have "unat vtable + unat (ucast slot :: u64) < 2 ^ 64" using assms(5) by simp
  then have sum: "unat (vtable + ucast slot) = unat vtable + unat slot"
    using unat_add_lem [of vtable "ucast slot :: u64"] by simp
  moreover have "0 < unat vtable" using assms(6) by (simp add: unat_gt_0)
  ultimately have "vtable + ucast slot \<noteq> 0" by auto
  then show ?thesis
    unfolding bn using assms(1-7) sum
    by (simp add: require_vtable_slot_le64_def read_vtable_slot_le64_def read_u64_def then_map_def and_then_def done_with_def
        static_read_at static_fill from_to_le static_object static_pointer)
qed

end
