(* ===== verification/Chat_Demo.thy ===== *)
theory Chat_Demo
  imports Static_Memory
begin

section \<open>A process with one chat channel\<close>

text \<open>
  A concrete memory: profile data at \<open>0x1000\<close> whose handler slot holds the expected address, one
  channel at \<open>0x20000\<close> with one entry at \<open>0x30000\<close>. Reading it is evaluated step by step, at any
  remaining budget.
\<close>

definition demo_bytes :: "u64 \<Rightarrow> u8 list" where
  "demo_bytes address =
     (case map_of
        [(0x1000, to_le (0x2000 :: u64)), (0x2248, to_le (0x140F0F100 :: u64)),
         (0x12EA8, to_le (0x20000 :: u64) @ to_le (0x20000 :: u64)),
         (0x20000, to_le (0x12EA8 :: u64) @ to_le (0x12EA8 :: u64)),
         (0x20018, inline_string [35, 84, 95, 49]),
         (0x20028, to_le (0x30000 :: u64) @ to_le (0x30000 :: u64)),
         (0x30000, to_le (0x20028 :: u64) @ to_le (0x20028 :: u64)),
         (0x30018, inline_string [65, 110, 110]), (0x30028, inline_string [104, 105]),
         (0x30038, inline_string []), (0x30048, to_le (0 :: u32))] address of
        Some bs \<Rightarrow> bs
      | None \<Rightarrow> [])"

abbreviation demo_backend :: "unit backend" where
  "demo_backend \<equiv> static_backend (\<lambda>_. demo_bytes)"

abbreviation demo_reader :: "nat \<Rightarrow> nat \<Rightarrow> unit TargetReader" where
  "demo_reader \<equiv> static_reader ()"

subsection \<open>Evaluation\<close>

lemma demo_links:
  assumes "demo_bytes address = to_le (a :: u64) @ to_le (b' :: u64)" and "address mod 8 = 0"
    and "address \<noteq> 0" and "unat address + 16 \<le> 0x00007FFFFFFFFFFF" and "16 \<le> b" and "0 < n"
  shows "chat_links demo_backend address (demo_reader b n) = (demo_reader (b - 16) (n - 1), Ok \<lparr>ln_next = a, ln_previous = b'\<rparr>)"
  using assms by (simp add: chat_links_def and_then_def static_read_at done_with_def static_fill from_to_le)

lemma demo_memory:
  "demo_bytes 0x12EA8 = to_le (0x20000 :: u64) @ to_le (0x20000 :: u64)"
  "demo_bytes 0x20000 = to_le (0x12EA8 :: u64) @ to_le (0x12EA8 :: u64)"
  "demo_bytes 0x20028 = to_le (0x30000 :: u64) @ to_le (0x30000 :: u64)"
  "demo_bytes 0x30000 = to_le (0x20028 :: u64) @ to_le (0x20028 :: u64)"
  "demo_bytes 0x20018 = inline_string [35, 84, 95, 49]" "demo_bytes 0x30018 = inline_string [65, 110, 110]"
  "demo_bytes 0x30028 = inline_string [104, 105]" "demo_bytes 0x30038 = inline_string []"
  "demo_bytes 0x30048 = to_le (0 :: u32)" "demo_bytes 0x1000 = to_le (0x2000 :: u64)" "demo_bytes 0x2248 = to_le (0x140F0F100 :: u64)"
  by (simp_all add: demo_bytes_def)

lemma demo_strings:
  "string_of_bytes [35, 84, 95, 49] = ''#T_1''" "string_of_bytes [65, 110, 110] = ''Ann''" "string_of_bytes [104, 105] = ''hi''"
  "string_of_bytes [] = []"
  using string_of_ascii [of "''#T_1''"] string_of_ascii [of "''Ann''"] string_of_ascii [of "''hi''"] by (simp_all add: string_of_bytes_def)

definition demo_chat_entry :: Entry where
  "demo_chat_entry =
     \<lparr>en_address = 0x30000, en_links = \<lparr>ln_next = 0x20028, ln_previous = 0x20028\<rparr>, en_role = 0, en_sender = ''Ann'', en_text = ''hi'',
      en_game_time = None\<rparr>"

definition demo_chat_channel :: "Entry list \<Rightarrow> Channel" where
  "demo_chat_channel es =
     \<lparr>ch_address = 0x20000, ch_links = \<lparr>ln_next = 0x12EA8, ln_previous = 0x12EA8\<rparr>, ch_key = ''#T_1'',
      ch_entry_links = \<lparr>ln_next = 0x30000, ln_previous = 0x30000\<rparr>, ch_entries = es\<rparr>"

lemma demo_role:
  "4 \<le> b \<Longrightarrow> 0 < n \<Longrightarrow> read_object_u32 demo_backend 0x30000 (ObjectOffset 0x48) (demo_reader b n) = (demo_reader (b - 4) (n - 1), Ok 0)"
  by (simp add: read_object_u32_def read_object_def then_map_def and_then_def done_with_def static_object static_read_at demo_memory static_fill from_to_le)

lemmas demo_string_eval =
  static_string [where f = "\<lambda>_. demo_bytes" and bs = "[65, 110, 110]"] static_string [where f = "\<lambda>_. demo_bytes" and bs = "[104, 105]"] static_string [where f = "\<lambda>_. demo_bytes" and bs = "[]"]
  static_string [where f = "\<lambda>_. demo_bytes" and bs = "[35, 84, 95, 49]"]

lemma demo_read_entry:
  assumes "228 \<le> b" and "15 \<le> n"
  shows "read_entry demo_backend 0x30000 (demo_reader b n) = (demo_reader (b - 228) (n - 15), Ok demo_chat_entry)"
proof -
  obtain c m where bn: "b = 228 + c" "n = 15 + m" using le_Suc_ex [OF assms(1)] le_Suc_ex [OF assms(2)] by blast
  have "read_entry demo_backend 0x30000 (demo_reader (228 + c) (15 + m)) = (demo_reader c m, Ok demo_chat_entry)"
    by (simp add: read_entry_def and_then_def done_with_def demo_links [where a = "0x20028" and b' = "0x20028"] demo_memory CHAT_FACTS_def
      demo_string_eval byte_in_def demo_strings demo_role MAX_MESSAGE_BYTES_def chat_time_def demo_chat_entry_def)
  then show ?thesis by (simp add: bn)
qed

lemma demo_walk_entries:
  assumes "228 \<le> b" and "15 \<le> n"
  shows "walk_entries demo_backend 0x20028 0x30000 0x20028 {} [] 0 4 (demo_reader b n) =
    (demo_reader (b - 228) (n - 15), Ok ([demo_chat_entry], 0x30000, 1, 9))"
proof -
  have "walk_entries demo_backend 0x20028 0x20028 0x30000 {0x30000} [demo_chat_entry] 1 9 = done_with (Ok ([demo_chat_entry], 0x30000, 1, 9))"
    by (simp add: walk_entries.simps)
  moreover have "ln_previous (en_links demo_chat_entry) = 0x20028" "ln_next (en_links demo_chat_entry) = 0x20028"
    "length (en_text demo_chat_entry) = 2" "length (en_sender demo_chat_entry) = 3"
    by (simp_all add: demo_chat_entry_def)
  ultimately show ?thesis
    using assms
    by (subst walk_entries.simps) (simp add: and_then_def demo_read_entry MAX_ENTRIES_def MAX_TOTAL_ENTRIES_def MAX_STRING_BYTES_def done_with_def)
qed

lemma demo_headers:
  assumes "128 \<le> b" and "8 \<le> n"
  shows "chat_headers demo_backend 0x12EA8 (demo_reader b n) = (demo_reader (b - 128) (n - 8), Ok [demo_chat_channel []])"
proof -
  obtain c m where bn: "b = 128 + c" "n = 8 + m" using le_Suc_ex [OF assms(1)] le_Suc_ex [OF assms(2)] by blast
  have stop: "walk_headers demo_backend 0x12EA8 0x12EA8 0x20000 [demo_chat_channel []] {0x20000} {''#T_1''} = done_with (Ok ([demo_chat_channel []], 0x20000))"
    by (simp add: walk_headers.simps)
  have "read_channel demo_backend 0x20000 \<lparr>ln_next = 0x12EA8, ln_previous = 0x12EA8\<rparr> ''#T_1'' (demo_reader (32 + c) (2 + m)) =
      (demo_reader (16 + c) (1 + m), Ok (demo_chat_channel []))"
    by (simp add: read_channel_def and_then_def done_with_def static_object CHAT_FACTS_def demo_memory demo_chat_channel_def
        demo_links [where a = "0x30000" and b' = "0x30000"])
  then have "walk_headers demo_backend 0x12EA8 0x20000 0x12EA8 [] {} {} (demo_reader (112 + c) (7 + m)) =
      (demo_reader (16 + c) (1 + m), Ok ([demo_chat_channel []], 0x20000))"
    by (subst walk_headers.simps)
      (simp add: and_then_def done_with_def MAX_CHANNELS_def demo_memory CHAT_FACTS_def demo_string_eval byte_in_def demo_strings stop
        demo_links [where a = "0x12EA8" and b' = "0x12EA8"])
  then have "chat_headers demo_backend 0x12EA8 (demo_reader (128 + c) (8 + m)) = (demo_reader c m, Ok [demo_chat_channel []])"
    by (simp add: chat_headers_def and_then_def done_with_def demo_memory demo_links [where a = "0x20000" and b' = "0x20000"])
  then show ?thesis by (simp add: bn)
qed

definition demo_chat_history :: History where
  "demo_chat_history = [demo_chat_channel [demo_chat_entry]]"

lemma demo_read_history:
  assumes "484 \<le> b" and "31 \<le> n"
  shows "read_history demo_backend 0x12EA8 (demo_reader b n) = (demo_reader (b - 484) (n - 31), Ok demo_chat_history)"
proof -
  obtain c m where bn: "b = 484 + c" "n = 31 + m" using le_Suc_ex [OF assms(1)] le_Suc_ex [OF assms(2)] by blast
  have four: "length ''#T_1'' = 4" by simp
  have "walk_entries demo_backend 0x20028 0x30000 0x20028 {} [] 0 (length ''#T_1'') (demo_reader (356 + c) (23 + m)) =
      (demo_reader (128 + c) (8 + m), Ok ([demo_chat_entry], 0x30000, 1, 9))"
    unfolding four using demo_walk_entries [of "356 + c" "23 + m"] by simp
  then have "fill_channel demo_backend (demo_chat_channel []) 0 0 (demo_reader (356 + c) (23 + m)) =
      (demo_reader (128 + c) (8 + m), Ok (demo_chat_channel [demo_chat_entry], 1, 9))"
    by (simp add: fill_channel_def and_then_def done_with_def demo_chat_channel_def static_object CHAT_FACTS_def)
  moreover have "same_headers [demo_chat_channel []] [demo_chat_channel [demo_chat_entry]]"
    by (simp add: same_headers_def same_header_def demo_chat_channel_def)
  ultimately show ?thesis
    by (simp add: bn read_history_def and_then_def done_with_def demo_headers demo_chat_history_def)
qed

lemma demo_read_chat: "read_chat demo_backend 0x140000000 0x02CD8000 0x1000 None () = ((), Ok (Some demo_chat_history))"
proof -
  have handler: "require_vtable_slot_le64 demo_backend 0x1000 (VtableSlot 0x248) (Rva 0x00F0F100) at (demo_reader b n) =
      (demo_reader (b - 16) (n - 2), Ok ())" if budget: "16 \<le> b" "2 \<le> n" for at b n
    using budget by (simp add: static_slot [where vtable = "0x2000"] demo_memory)
  show ?thesis
    by (simp add: read_chat_def static_new read_chat_from_def and_then_def done_with_def then_map_def read_stable_def CHAT_FACTS_def handler static_object
        demo_headers history_unchanged_def demo_read_history)
qed

theorem chat_acquisition_sound_witness: "history_sound demo_chat_history"
  by (rule chat_acquisition_sound [OF demo_read_chat])

end
