(* ===== verification/Account_Roots.thy ===== *)
theory Account_Roots
  imports Chat_Acquisition
begin

section \<open>The logged-in account\<close>

text \<open>
  \<open>crates/games/warframe/provider/src/roots\<close>: from the manager root of the executable to the selected
  profile, its account identifier and its profile data. A control is the game's ownership object;
  its first pointer leads to the object. Every traversal is done twice and both must agree.
\<close>

subsection \<open>Identities\<close>

text \<open>\<open>AccountId\<close> of the model crate: 24 lowercase hexadecimal characters.\<close>

datatype AccountId = AccountId (account_text: string)

definition lowercase_hex :: "char \<Rightarrow> bool" where
  "lowercase_hex c \<longleftrightarrow> ascii_digit c \<or> CHR ''a'' \<le> c \<and> c \<le> CHR ''f''"

definition account_id_new :: "string \<Rightarrow> (AccountId, unit) result" where
  "account_id_new value = (if length value = 24 \<and> list_all lowercase_hex value then Ok (AccountId value) else Err ())"

datatype ObjectIdentity = ObjectIdentity (identity_get: u64)

definition object_identity_new :: "u64 \<Rightarrow> ObjectIdentity option" where
  "object_identity_new value = (if value = 0 then None else Some (ObjectIdentity value))"

definition identity_from_address :: "u64 \<Rightarrow> ObjectIdentity option" where
  "identity_from_address value = (if value mod 8 = 0 then object_identity_new value else None)"

record AccountIdentity =
  ai_account_id :: AccountId
  ai_manager_control :: ObjectIdentity
  ai_manager :: ObjectIdentity
  ai_profile_control :: ObjectIdentity
  ai_profile :: ObjectIdentity

record ProfileDataIdentity =
  pd_account :: AccountIdentity
  pd_control :: ObjectIdentity
  pd_object :: ObjectIdentity

datatype AccountResolution = Absent | Present AccountIdentity

datatype DecodeError = UnsupportedStringRepresentation | InvalidAccountLength | InvalidAccountBytes

datatype ResolveError =
    Resolve_read TargetError
  | Resolve_decode DecodeError
  | Resolve_unsupported string
  | Contradiction string
  | AmbiguousProfile

definition decode_account_string_header :: "u8 list \<Rightarrow> (u64, DecodeError) result" where
  "decode_account_string_header header =
     (if header ! 15 \<noteq> 0xFF then Err UnsupportedStringRepresentation
      else if (from_le (take 4 (drop 8 header)) :: u32) AND 0x0FFFFFFF \<noteq> 24 then Err InvalidAccountLength
      else Ok (from_le (take 8 header)))"

definition decode_account_id :: "u8 list \<Rightarrow> (AccountId, DecodeError) result" where
  "decode_account_id bytes =
     (if \<not> valid_utf8 bytes then Err InvalidAccountBytes
      else map_err (\<lambda>_. InvalidAccountBytes) (account_id_new (string_of_bytes bytes)))"

definition object_identity :: "u64 \<Rightarrow> string \<Rightarrow> (ObjectIdentity, ResolveError) result" where
  "object_identity value location = ok_or (identity_from_address value) (Contradiction location)"

subsection \<open>Facts about the executable\<close>

record ProfileManagerFacts =
  mf_root :: Rva
  mf_getter :: Rva
  mf_vtable :: Rva
  mf_lookup :: Rva
  mf_logged_in :: Rva
  mf_lookup_slot :: VtableSlot
  mf_logged_in_slot :: VtableSlot
  mf_state :: ObjectOffset
  mf_vector :: ObjectOffset
  mf_vector_size :: ObjectOffset
  mf_vector_capacity :: ObjectOffset

record ActiveProfileFacts =
  af_vtable :: Rva
  af_identity_getter :: Rva
  af_account_getter :: Rva
  af_identity_slot :: VtableSlot
  af_account_slot :: VtableSlot
  af_selector :: ObjectOffset
  af_logged_in :: ObjectOffset
  af_account :: ObjectOffset

record AccountRootFacts =
  rf_shared_null_sentinel :: Rva
  rf_manager :: ProfileManagerFacts
  rf_profile :: ActiveProfileFacts

record ProfileDataFacts =
  pf_slot :: VtableSlot
  pf_getter :: Rva
  pf_field :: ObjectOffset
  pf_vtable :: Rva

definition MANAGER_FACTS :: ProfileManagerFacts where
  "MANAGER_FACTS =
     \<lparr>mf_root = Rva 0x0278A2D0, mf_getter = Rva 0x01243DD0, mf_vtable = Rva 0x021185F0, mf_lookup = Rva 0x00A52EC0,
      mf_logged_in = Rva 0x013FDF80, mf_lookup_slot = VtableSlot 0xB8, mf_logged_in_slot = VtableSlot 0x148,
      mf_state = ObjectOffset 0x168, mf_vector = ObjectOffset 0x230, mf_vector_size = ObjectOffset 0x238,
      mf_vector_capacity = ObjectOffset 0x23C\<rparr>"

definition PROFILE_FACTS :: ActiveProfileFacts where
  "PROFILE_FACTS =
     \<lparr>af_vtable = Rva 0x0211DDC8, af_identity_getter = Rva 0x0119F7A0, af_account_getter = Rva 0x002C1760,
      af_identity_slot = VtableSlot 0x18, af_account_slot = VtableSlot 0x28, af_selector = ObjectOffset 0x1D8,
      af_logged_in = ObjectOffset 0x1E1, af_account = ObjectOffset 0x118\<rparr>"

definition ACCOUNT_FACTS :: AccountRootFacts where
  "ACCOUNT_FACTS = \<lparr>rf_shared_null_sentinel = Rva 0x027083A8, rf_manager = MANAGER_FACTS, rf_profile = PROFILE_FACTS\<rparr>"

definition PROFILE_DATA_FACTS :: ProfileDataFacts where
  "PROFILE_DATA_FACTS =
     \<lparr>pf_slot = VtableSlot 0x388, pf_getter = Rva 0x00866C20, pf_field = ObjectOffset 0x208, pf_vtable = Rva 0x0234C958\<rparr>"

definition LOGGED_IN_MANAGER_STATE :: u32 where "LOGGED_IN_MANAGER_STATE = 4"
definition PROFILE_VECTOR_BYTES :: usize where "PROFILE_VECTOR_BYTES = 16 * 8"

subsection \<open>Reading\<close>

text \<open>\<open>From<ReadError>\<close> on the way out of a read, and a computation on the reader alone.\<close>

definition reading :: "('s, 'a, TargetError) attempt \<Rightarrow> ('s, 'a, ResolveError) attempt" where
  "reading m s = (case m s of (s', r) \<Rightarrow> (s', map_err Resolve_read r))"

definition of_reader :: "('s \<Rightarrow> ('a, 'e) result) \<Rightarrow> ('s, 'a, 'e) attempt" where
  "of_reader f s = (s, f s)"

definition read_control_target ::
  "'m backend \<Rightarrow> u64 \<Rightarrow> u64 \<Rightarrow> ('m TargetReader, (ObjectIdentity \<times> ObjectIdentity) option, ResolveError) attempt" where
  "read_control_target be control sentinel =
     (if control = 0 \<or> control = sentinel then done_with (Ok None)
      else and_then (done_with (object_identity control ''shared ownership control'')) (\<lambda>control.
        and_then (reading (read_u64 be (identity_get control))) (\<lambda>target.
          if target = 0 then done_with (Ok None)
          else and_then (done_with (object_identity target ''shared ownership target'')) (\<lambda>object.
            done_with (Ok (Some (control, object)))))))"

definition read_profile_vector ::
  "'m backend \<Rightarrow> u64 \<Rightarrow> ProfileManagerFacts \<Rightarrow> ('m TargetReader, u8 list, ResolveError) attempt" where
  "read_profile_vector be manager facts =
     and_then (reading (read_object_u64 be manager (mf_vector facts))) (\<lambda>pointer.
     and_then (reading (read_object_u32 be manager (mf_vector_size facts))) (\<lambda>len.
     and_then (reading (read_object_u32 be manager (mf_vector_capacity facts))) (\<lambda>capacity.
       if capacity < len \<or> PROFILE_VECTOR_BYTES < unat capacity \<or> unat len mod 8 \<noteq> 0 \<or> unat capacity mod 8 \<noteq> 0
          \<or> capacity \<noteq> 0 \<and> pointer = 0
       then done_with (Err (Contradiction ''profile vector header''))
       else and_then (done_with (if pointer \<noteq> 0 then rbind (object_identity pointer ''profile vector allocation'') (\<lambda>_. Ok ()) else Ok ())) (\<lambda>_.
         if len = 0 then done_with (Ok []) else reading (read_at be pointer (unat len))))))"

text \<open>\<open>as_chunks::<8>().0\<close>: the whole chunks of a slice.\<close>

function chunks8 :: "u8 list \<Rightarrow> u8 list list" where
  "chunks8 bytes = (if length bytes < 8 then [] else take 8 bytes # chunks8 (drop 8 bytes))"
  by pat_completeness auto
termination by (relation "measure length") auto

declare chunks8.simps [simp del]

text \<open>One entry of the profile vector: \<open>None\<close> if it is not the active profile.\<close>

definition active_profile ::
  "'m backend \<Rightarrow> ActiveProfileFacts \<Rightarrow> u64 \<Rightarrow> ('m TargetReader, (ObjectIdentity \<times> ObjectIdentity) option, ResolveError) attempt" where
  "active_profile be facts control_value =
     (if control_value = 0 then done_with (Ok None)
      else and_then (done_with (object_identity control_value ''profile control'')) (\<lambda>control.
        and_then (reading (read_u64 be (identity_get control))) (\<lambda>profile_value.
          if profile_value = 0 then done_with (Ok None)
          else and_then (done_with (object_identity profile_value ''profile object'')) (\<lambda>profile.
            and_then (reading (read_object_u64 be (identity_get profile) (af_selector facts))) (\<lambda>selector.
              if selector \<noteq> 0 then done_with (Ok None)
              else and_then (reading (read_object_u8 be (identity_get profile) (af_logged_in facts))) (\<lambda>logged_in.
                if logged_in = 0 then done_with (Ok None)
                else and_then (reading (read_u64 be (identity_get profile))) (\<lambda>vtable.
                  and_then (of_reader (\<lambda>r. map_err Resolve_read (require_module_pointer r vtable (af_vtable facts) ''profile vtable''))) (\<lambda>_.
                  and_then (reading (require_vtable_slot_le64 be (identity_get profile) (af_identity_slot facts) (af_identity_getter facts)
                    ''profile identity slot'')) (\<lambda>_.
                  and_then (reading (require_vtable_slot_le64 be (identity_get profile) (af_account_slot facts) (af_account_getter facts)
                    ''profile account slot'')) (\<lambda>_.
                  done_with (Ok (Some (control, profile)))))))))))))"

fun select_from ::
  "'m backend \<Rightarrow> ActiveProfileFacts \<Rightarrow> u8 list list \<Rightarrow> (ObjectIdentity \<times> ObjectIdentity) option \<Rightarrow>
   ('m TargetReader, (ObjectIdentity \<times> ObjectIdentity) option, ResolveError) attempt" where
  "select_from be facts [] selected = done_with (Ok selected)"
| "select_from be facts (bytes # rest) selected =
     and_then (active_profile be facts (from_le bytes)) (\<lambda>found.
       (case found of
          None \<Rightarrow> select_from be facts rest selected
        | Some p \<Rightarrow> if selected \<noteq> None then done_with (Err AmbiguousProfile) else select_from be facts rest (Some p)))"

definition select_profile ::
  "'m backend \<Rightarrow> u8 list \<Rightarrow> ActiveProfileFacts \<Rightarrow> ('m TargetReader, ObjectIdentity \<times> ObjectIdentity, ResolveError) attempt" where
  "select_profile be controls facts =
     and_then (select_from be facts (chunks8 controls) None) (\<lambda>selected.
       done_with (ok_or selected (Contradiction ''active profile selection'')))"

definition read_account_id :: "'m backend \<Rightarrow> u64 \<Rightarrow> ObjectOffset \<Rightarrow> ('m TargetReader, AccountId, ResolveError) attempt" where
  "read_account_id be profile offset =
     and_then (of_reader (\<lambda>r. map_err Resolve_read (object_address r profile offset 16))) (\<lambda>address.
     and_then (reading (read_at be address 16)) (\<lambda>first_header.
     and_then (done_with (map_err Resolve_decode (decode_account_string_header first_header))) (\<lambda>storage.
     and_then (done_with (object_identity storage ''account identifier storage'')) (\<lambda>_.
     and_then (reading (read_at be storage 24)) (\<lambda>bytes.
     and_then (reading (read_at be address 16)) (\<lambda>second_header.
     done_with (if first_header \<noteq> second_header then Err (Resolve_read (Unstable ''account identifier''))
       else map_err Resolve_decode (decode_account_id bytes))))))))"

subsection \<open>Resolution\<close>

definition resolve_profile ::
  "'m backend \<Rightarrow> AccountRootFacts \<Rightarrow> ObjectIdentity \<Rightarrow> ObjectIdentity \<Rightarrow> ('m TargetReader, AccountResolution, ResolveError) attempt" where
  "resolve_profile be facts manager_control manager =
     and_then (read_profile_vector be (identity_get manager) (rf_manager facts)) (\<lambda>vector.
       if vector = [] then done_with (Ok Absent)
       else and_then (select_profile be vector (rf_profile facts)) (\<lambda>(profile_control, profile).
         and_then (read_account_id be (identity_get profile) (af_account (rf_profile facts))) (\<lambda>account_id.
           done_with (Ok (Present
             \<lparr>ai_account_id = account_id, ai_manager_control = manager_control, ai_manager = manager,
              ai_profile_control = profile_control, ai_profile = profile\<rparr>)))))"

definition resolve_once :: "'m backend \<Rightarrow> AccountRootFacts \<Rightarrow> ('m TargetReader, AccountResolution, ResolveError) attempt" where
  "resolve_once be facts =
     and_then (of_reader (\<lambda>r. map_err Resolve_read (module_address r (mf_root (rf_manager facts)) 8))) (\<lambda>manager_root.
     and_then (reading (read_u64 be manager_root)) (\<lambda>manager_control.
     and_then (of_reader (\<lambda>r. map_err Resolve_read (module_address r (rf_shared_null_sentinel facts) 1))) (\<lambda>sentinel.
     and_then (read_control_target be manager_control sentinel) (\<lambda>target.
       (case target of
          None \<Rightarrow> done_with (Ok Absent)
        | Some (manager_control, manager) \<Rightarrow>
          and_then (reading (read_u64 be (identity_get manager))) (\<lambda>manager_vtable.
          and_then (of_reader (\<lambda>r. map_err Resolve_read
            (require_module_pointer r manager_vtable (mf_vtable (rf_manager facts)) ''profile manager vtable''))) (\<lambda>_.
          and_then (reading (require_vtable_slot_le64 be (identity_get manager) (mf_lookup_slot (rf_manager facts))
            (mf_lookup (rf_manager facts)) ''profile manager lookup slot'')) (\<lambda>_.
          and_then (reading (require_vtable_slot_le64 be (identity_get manager) (mf_logged_in_slot (rf_manager facts))
            (mf_logged_in (rf_manager facts)) ''profile manager login slot'')) (\<lambda>_.
          and_then (reading (read_object_u32 be (identity_get manager) (mf_state (rf_manager facts)))) (\<lambda>state.
            if state \<noteq> LOGGED_IN_MANAGER_STATE then done_with (Ok Absent)
            else resolve_profile be facts manager_control manager))))))))))"

definition with_reader ::
  "('m TargetReader, 'a, ResolveError) attempt \<Rightarrow> u64 \<Rightarrow> u32 \<Rightarrow> ('m, 'a, ResolveError) attempt" where
  "with_reader run module_base image_size memory =
     (case target_reader_new memory module_base image_size READ_LIMITS of
        Err e \<Rightarrow> (memory, Err (Resolve_read e))
      | Ok r \<Rightarrow> (case run r of (r', result) \<Rightarrow> (rd_memory r', result)))"

definition resolve_account :: "'m backend \<Rightarrow> u64 \<Rightarrow> u32 \<Rightarrow> ('m, AccountResolution, ResolveError) attempt" where
  "resolve_account be = with_reader (read_stable (resolve_once be ACCOUNT_FACTS) (Resolve_read (Unstable ''login roots'')))"

definition resolve_profile_data_once ::
  "'m backend \<Rightarrow> AccountIdentity \<Rightarrow> ('m TargetReader, ProfileDataIdentity option, ResolveError) attempt" where
  "resolve_profile_data_once be account =
     (let profile = identity_get (ai_profile account); facts = PROFILE_DATA_FACTS
      in and_then (reading (require_vtable_slot_le64 be profile (pf_slot facts) (pf_getter facts) ''profile-data getter slot'')) (\<lambda>_.
         and_then (reading (read_object_u64 be profile (pf_field facts))) (\<lambda>control.
         and_then (of_reader (\<lambda>r. map_err Resolve_read (module_address r (rf_shared_null_sentinel ACCOUNT_FACTS) 1))) (\<lambda>sentinel.
         and_then (read_control_target be control sentinel) (\<lambda>target.
           (case target of
              None \<Rightarrow> done_with (Ok None)
            | Some (control, object) \<Rightarrow>
              and_then (reading (read_u64 be (identity_get object))) (\<lambda>vtable.
              and_then (of_reader (\<lambda>r. map_err Resolve_read (require_module_pointer r vtable (pf_vtable facts) ''profile-data vtable''))) (\<lambda>_.
              done_with (Ok (Some \<lparr>pd_account = account, pd_control = control, pd_object = object\<rparr>))))))))))"

definition resolve_profile_data ::
  "'m backend \<Rightarrow> u64 \<Rightarrow> u32 \<Rightarrow> AccountIdentity \<Rightarrow> ('m, ProfileDataIdentity option, ResolveError) attempt" where
  "resolve_profile_data be module_base image_size account =
     with_reader (read_stable (resolve_profile_data_once be account) (Resolve_read (Unstable ''profile-data ownership'')))
       module_base image_size"

subsection \<open>The instructions the offsets come from\<close>

text \<open>Every offset used above is compared with the code of the executable that uses it.\<close>

definition validate_dereferenced_member_getter ::
  "'m backend \<Rightarrow> Rva \<Rightarrow> ObjectOffset \<Rightarrow> string \<Rightarrow> ('m TargetReader, unit, ResolveError) attempt" where
  "validate_dereferenced_member_getter be function' offset location =
     and_then (reading (read_module be function' 11)) (\<lambda>code.
       done_with (if take 3 code \<noteq> [0x48, 0x8B, 0x81] \<or> take 4 (drop 3 code) \<noteq> to_le (offset_get offset) \<or> drop 7 code \<noteq> [0x48, 0x8B, 0x00, 0xC3]
         then Err (Resolve_unsupported location) else Ok ()))"

definition validate_manager_getter :: "'m backend \<Rightarrow> ProfileManagerFacts \<Rightarrow> ('m TargetReader, unit, ResolveError) attempt" where
  "validate_manager_getter be facts =
     and_then (reading (read_module be (mf_getter facts) 11)) (\<lambda>code.
       done_with
         (if take 3 code \<noteq> [0x48, 0x8B, 0x05] \<or> drop 7 code \<noteq> [0x48, 0x8B, 0x00, 0xC3]
          then Err (Resolve_unsupported ''profile manager getter'')
          else rbind (ok_or (rip_target (mf_getter facts) 7 (take 4 (drop 3 code))) (Resolve_unsupported ''profile manager getter'')) (\<lambda>target.
            if target = mf_root facts then Ok () else Err (Resolve_unsupported ''profile manager root''))))"

definition validate_member_getter ::
  "'m backend \<Rightarrow> Rva \<Rightarrow> u8 \<Rightarrow> ObjectOffset \<Rightarrow> string \<Rightarrow> ('m TargetReader, unit, ResolveError) attempt" where
  "validate_member_getter be function' operation offset location =
     and_then (reading (read_module be function' 8)) (\<lambda>code.
       done_with (if take 3 code \<noteq> [0x48, operation, 0x81] \<or> take 4 (drop 3 code) \<noteq> to_le (offset_get offset) \<or> code ! 7 \<noteq> 0xC3
         then Err (Resolve_unsupported location) else Ok ()))"

definition validate_manager_functions :: "'m backend \<Rightarrow> ProfileManagerFacts \<Rightarrow> ('m TargetReader, unit, ResolveError) attempt" where
  "validate_manager_functions be facts =
     and_then (reading (read_module be (mf_lookup facts) 31)) (\<lambda>lookup.
       if take 3 (drop 15 lookup) \<noteq> [0x48, 0x8B, 0x99] \<or> take 4 (drop 18 lookup) \<noteq> to_le (offset_get (mf_vector facts))
          \<or> take 2 (drop 25 lookup) \<noteq> [0x8B, 0x81] \<or> take 4 (drop 27 lookup) \<noteq> to_le (offset_get (mf_vector_size facts))
       then done_with (Err (Resolve_unsupported ''profile manager lookup''))
       else and_then (reading (read_module be (mf_logged_in facts) 11)) (\<lambda>logged_in.
         done_with (if take 2 logged_in \<noteq> [0x83, 0xB9] \<or> take 4 (drop 2 logged_in) \<noteq> to_le (offset_get (mf_state facts))
              \<or> drop 6 logged_in \<noteq> [0x04, 0x0F, 0x94, 0xC0, 0xC3]
           then Err (Resolve_unsupported ''profile manager login predicate'') else Ok ())))"

definition validate_layout :: "'m backend \<Rightarrow> AccountRootFacts \<Rightarrow> ('m TargetReader, unit, ResolveError) attempt" where
  "validate_layout be facts =
     and_then (validate_manager_getter be (rf_manager facts)) (\<lambda>_.
     and_then (validate_member_getter be (af_identity_getter (rf_profile facts)) 0x8B (af_selector (rf_profile facts)) ''profile identity getter'') (\<lambda>_.
     and_then (validate_member_getter be (af_account_getter (rf_profile facts)) 0x8D (af_account (rf_profile facts)) ''profile account getter'') (\<lambda>_.
     validate_manager_functions be (rf_manager facts))))"

definition validate_account_layout :: "'m backend \<Rightarrow> u64 \<Rightarrow> u32 \<Rightarrow> ('m, unit, ResolveError) attempt" where
  "validate_account_layout be = with_reader (validate_layout be ACCOUNT_FACTS)"

definition validate_profile_data_layout :: "'m backend \<Rightarrow> u64 \<Rightarrow> u32 \<Rightarrow> ('m, unit, ResolveError) attempt" where
  "validate_profile_data_layout be =
     with_reader (validate_dereferenced_member_getter be (pf_getter PROFILE_DATA_FACTS) (pf_field PROFILE_DATA_FACTS) ''profile-data getter'')"

subsection \<open>What a resolution establishes\<close>

definition account_id_wf :: "AccountId \<Rightarrow> bool" where
  "account_id_wf account \<longleftrightarrow> length (account_text account) = 24 \<and> list_all lowercase_hex (account_text account)"

definition object_wf :: "ObjectIdentity \<Rightarrow> bool" where
  "object_wf object \<longleftrightarrow> identity_get object \<noteq> 0 \<and> 8 dvd identity_get object"

definition account_wf :: "AccountIdentity \<Rightarrow> bool" where
  "account_wf account \<longleftrightarrow>
     account_id_wf (ai_account_id account) \<and> object_wf (ai_manager_control account) \<and> object_wf (ai_manager account)
     \<and> object_wf (ai_profile_control account) \<and> object_wf (ai_profile account)"

lemma reading_Ok [simp]: "reading m s = (s', Ok x) \<longleftrightarrow> m s = (s', Ok x)"
  by (auto simp: reading_def split: prod.splits)

lemma of_reader_Ok [simp]: "of_reader f s = (s', r) \<longleftrightarrow> s' = s \<and> f s = r"
  by (auto simp: of_reader_def)

lemma object_identity_wf: "object_identity value location = Ok object \<Longrightarrow> object_wf object \<and> identity_get object = value"
  by (auto simp: object_identity_def identity_from_address_def object_identity_new_def object_wf_def split: if_splits)

lemma decode_account_id_wf: "decode_account_id bytes = Ok account \<Longrightarrow> account_id_wf account"
  by (auto simp: decode_account_id_def account_id_new_def account_id_wf_def split: if_splits)

lemma read_account_id_wf: "read_account_id be profile offset r = (r', Ok account) \<Longrightarrow> account_id_wf account"
  by (auto simp: read_account_id_def and_then_Ok dest: decode_account_id_wf split: if_splits)

lemma read_control_target_wf:
  "read_control_target be control sentinel r = (r', Ok (Some (c, object))) \<Longrightarrow> object_wf c \<and> object_wf object"
  by (auto simp: read_control_target_def and_then_Ok dest: object_identity_wf split: if_splits)

lemma active_profile_wf: "active_profile be facts value r = (r', Ok (Some (c, p))) \<Longrightarrow> object_wf c \<and> object_wf p"
  by (auto simp: active_profile_def and_then_Ok dest: object_identity_wf split: if_splits)

lemma select_from_wf:
  "select_from be facts chunks selected r = (r', Ok (Some (c, p))) \<Longrightarrow>
     (case selected of None \<Rightarrow> True | Some (c, p) \<Rightarrow> object_wf c \<and> object_wf p) \<Longrightarrow> object_wf c \<and> object_wf p"
proof (induction chunks arbitrary: selected r)
  case (Cons bytes rest)
  obtain r1 found where f: "active_profile be facts (from_le bytes) r = (r1, Ok found)"
    "(case found of None \<Rightarrow> select_from be facts rest selected
        | Some p \<Rightarrow> if selected \<noteq> None then done_with (Err AmbiguousProfile) else select_from be facts rest (Some p)) r1 = (r', Ok (Some (c, p)))"
    using Cons.prems(1) unfolding select_from.simps and_then_Ok by blast
  show ?case
  proof (cases found)
    case None
    then show ?thesis using Cons.IH [of selected r1] Cons.prems(2) f(2) by simp
  next
    case (Some q)
    then have "select_from be facts rest (Some q) r1 = (r', Ok (Some (c, p)))" using f(2) by (auto split: if_splits)
    then show ?thesis using Cons.IH [of "Some q" r1] active_profile_wf [of be facts "from_le bytes" r r1 "fst q" "snd q"] f(1) Some by (simp add: case_prod_beta)
  qed
qed simp

text \<open>
  C32: A resolved account is well formed: its identifier has 24 lowercase hexadecimal characters,
  whatever the process holds in its place, and every object of its ownership chain has a nonzero,
  aligned address.
\<close>

theorem resolve_account_wf:
  assumes "resolve_account be base image_size memory = (memory', Ok (Present account))"
  shows "account_wf account"
proof -
  obtain r r' where "resolve_once be ACCOUNT_FACTS r = (r', Ok (Present account))"
    using assms by (auto simp: resolve_account_def with_reader_def split: result.splits prod.splits dest!: read_stable_Ok)
  then obtain sentinel v r1 r2 control manager r3 r4 where t: "read_control_target be v sentinel r1 = (r2, Ok (Some (control, manager)))"
    "resolve_profile be ACCOUNT_FACTS control manager r3 = (r4, Ok (Present account))"
    by (auto simp: resolve_once_def and_then_Ok split: option.splits if_splits)
  obtain chunks c p r5 r6 offset r7 r8 id where s: "select_from be (rf_profile ACCOUNT_FACTS) chunks None r5 = (r6, Ok (Some (c, p)))"
    "read_account_id be (identity_get p) offset r7 = (r8, Ok id)"
    "account = \<lparr>ai_account_id = id, ai_manager_control = control, ai_manager = manager, ai_profile_control = c, ai_profile = p\<rparr>"
    using t(2) by (auto simp: resolve_profile_def select_profile_def and_then_Ok split: if_splits)
  show ?thesis
    using read_control_target_wf [OF t(1)] select_from_wf [OF s(1)] read_account_id_wf [OF s(2)] s(3) by (simp add: account_wf_def)
qed

lemma resolve_profile_data_account:
  assumes "resolve_profile_data be base image_size account memory = (memory', Ok (Some owner))"
  shows "pd_account owner = account \<and> object_wf (pd_control owner) \<and> object_wf (pd_object owner)"
proof -
  obtain r r' where "resolve_profile_data_once be account r = (r', Ok (Some owner))"
    using assms by (auto simp: resolve_profile_data_def with_reader_def split: result.splits prod.splits dest!: read_stable_Ok)
  then show ?thesis
    by (auto simp: resolve_profile_data_once_def and_then_Ok Let_def dest!: read_control_target_wf split: option.splits)
qed

end
