(* ===== verification/Exact_Numbers.thy ===== *)
theory Exact_Numbers
  imports Chat_Cursor Account_Roots
begin

section \<open>Numbers as text\<close>

text \<open>
  \<open>model/src/mastery/points.rs\<close> and \<open>model/src/inventory/quantity.rs\<close>: 64-bit values travel as canonical
  decimal text, so that no JSON reader rounds them. A quantity is positive, points may be zero.
\<close>

text \<open>\<open>u64::from_str\<close> on digits: a checked multiplication and a checked addition for each.\<close>

definition checked_mul10 :: "u64 \<Rightarrow> u64 option" where
  "checked_mul10 a = (if unat a * 10 < 2 ^ 64 then Some (a * 10) else None)"

definition decimal_digit :: "char \<Rightarrow> u64" where
  "decimal_digit c = of_nat (of_char c - 48)"

fun parse_digits :: "u64 \<Rightarrow> string \<Rightarrow> u64 option" where
  "parse_digits acc [] = Some acc"
| "parse_digits acc (c # cs) =
     Option.bind (checked_mul10 acc) (\<lambda>tens. Option.bind (checked_add tens (decimal_digit c)) (\<lambda>acc'. parse_digits acc' cs))"

definition points_serialize :: "u64 \<Rightarrow> string" where
  "points_serialize v = decimal (unat v)"

definition points_deserialize :: "string \<Rightarrow> (u64, string) result" where
  "points_deserialize text =
     (if text = [] \<or> 20 < length text \<or> 1 < length text \<and> hd text = CHR ''0'' \<or> \<not> list_all ascii_digit text
      then Err ''expected a canonical unsigned decimal u64 string''
      else ok_or (parse_digits 0 text) ''number too large to fit in target type'')"

definition quantity_serialize :: "u64 \<Rightarrow> (string, string) result" where
  "quantity_serialize v = (if v = 0 then Err ''inventory quantity must be positive'' else Ok (decimal (unat v)))"

definition quantity_deserialize :: "string \<Rightarrow> (u64, string) result" where
  "quantity_deserialize text =
     (if text = [] \<or> 20 < length text \<or> hd text = CHR ''0'' \<or> \<not> list_all ascii_digit text
      then Err ''expected a positive canonical decimal u64 string''
      else ok_or (parse_digits 0 text) ''number too large to fit in target type'')"

subsection \<open>Digits\<close>

abbreviation digits_value :: "nat \<Rightarrow> string \<Rightarrow> nat" where
  "digits_value n s \<equiv> foldl (\<lambda>n c. 10 * n + (of_char c - 48)) n s"

lemma digit_bounds:
  assumes "ascii_digit c"
  shows "48 \<le> (of_char c :: nat)" and "(of_char c :: nat) \<le> 57"
  using assms by (simp_all add: ascii_digit_def less_eq_char_def)

lemma zero_char: "char_of (48 :: nat) = CHR ''0''"
  by (simp add: char_of_def bit_0)

lemma nonzero_char: "c \<noteq> CHR ''0'' \<Longrightarrow> (of_char c :: nat) \<noteq> 48"
  using char_of_char [of c] zero_char by metis

lemma of_zero_char: "(of_char (CHR ''0'') :: nat) = 48"
  by simp

lemma digit_unat:
  assumes "ascii_digit c"
  shows "unat (decimal_digit c) = of_char c - 48"
proof -
  have small: "unat (of_nat n :: u64) = n" if "n \<le> 9" for n using that by (simp add: unat_of_nat)
  have "of_char c - 48 \<le> (9 :: nat)" using digit_bounds [OF assms] by linarith
  then show ?thesis unfolding decimal_digit_def by (rule small)
qed

lemma digits_value_ge: "n \<le> digits_value n s"
proof (induction s arbitrary: n)
  case (Cons c s)
  have "n \<le> 10 * n + (of_char c - 48)" by simp
  also have "\<dots> \<le> digits_value (10 * n + (of_char c - 48)) s" by (rule Cons.IH)
  finally show ?case by simp
qed simp

lemma parse_digits_value:
  "list_all ascii_digit s \<Longrightarrow>
     parse_digits acc s = (if digits_value (unat acc) s < 2 ^ 64 then Some (of_nat (digits_value (unat acc) s)) else None)"
proof (induction s arbitrary: acc)
  case (Cons c s)
  let ?d = "of_char c - 48 :: nat"
  have d: "?d \<le> 9" "unat (decimal_digit c) = ?d"
    using digit_bounds [of c] digit_unat [of c] Cons.prems by simp_all
  have ge: "10 * unat acc + ?d \<le> digits_value (unat acc) (c # s)" using digits_value_ge [of "10 * unat acc + ?d" s] by simp
  show ?case
  proof (cases "10 * unat acc + ?d < 2 ^ 64")
    case False
    then have "\<not> digits_value (unat acc) (c # s) < 2 ^ 64" using ge by linarith
    moreover have "parse_digits acc (c # s) = None"
    proof (cases "unat acc * 10 < 2 ^ 64")
      case True
      then have "unat (acc * 10) = unat acc * 10" using unat_mult_lem [of acc 10] by simp
      then have "\<not> unat (acc * 10) + unat (decimal_digit c) < 2 ^ 64" using False d(2) by linarith
      then have "checked_add (acc * 10) (decimal_digit c) = None" by (simp add: checked_add_def)
      then show ?thesis using True by (simp add: checked_mul10_def)
    qed (simp add: checked_mul10_def)
    ultimately show ?thesis by simp
  next
    case True
    then have "unat acc * 10 < 2 ^ 64" by simp
    then have ten: "unat (acc * 10) = unat acc * 10" "checked_mul10 acc = Some (acc * 10)"
      using unat_mult_lem [of acc 10] by (simp_all add: checked_mul10_def)
    then have add: "checked_add (acc * 10) (decimal_digit c) = Some (acc * 10 + decimal_digit c)" "unat (acc * 10 + decimal_digit c) = 10 * unat acc + ?d"
      using True d(2) unat_add_lem [of "acc * 10" "decimal_digit c"] by (simp_all add: checked_add_def)
    then show ?thesis using Cons ten by simp
  qed
next
  case Nil
  show ?case using unsigned_less [of acc, where ?'a = nat] by simp
qed

subsection \<open>Canonical text\<close>

lemma decimal_digits: "list_all ascii_digit (decimal n)"
proof (induction n rule: decimal.induct)
  case (1 n)
  have "ascii_digit (char_of (48 + d))" if "d < 10" for d :: nat
    using that by (simp add: ascii_digit_def less_eq_char_def)
  then show ?case using 1 by (subst decimal.simps) simp
qed

lemma decimal_nonempty: "decimal n \<noteq> []"
  by (subst decimal.simps) simp

lemma decimal_leading: "0 < n \<Longrightarrow> hd (decimal n) \<noteq> CHR ''0''"
proof (induction n rule: decimal.induct)
  case (1 n)
  show ?case
  proof (cases "n < 10")
    case True
    then have "(of_char (char_of (48 + n) :: char) :: nat) = 48 + n" by simp
    then have "char_of (48 + n) \<noteq> CHR ''0''" using 1(2) of_zero_char by fastforce
    then show ?thesis using True by (subst decimal.simps) simp
  next
    case False
    then show ?thesis using 1(1) decimal_nonempty [of "n div 10"] by (subst decimal.simps) (simp add: div_greater_zero_iff)
  qed
qed

lemma decimal_length: "n < 10 ^ k \<Longrightarrow> 0 < k \<Longrightarrow> length (decimal n) \<le> k"
proof (induction n arbitrary: k rule: decimal.induct)
  case (1 n)
  show ?case
  proof (cases "n < 10")
    case False
    then obtain j where k: "k = Suc j" "0 < j" using 1(2,3) by (cases k; cases "k = 1") auto
    then have "n div 10 < 10 ^ j" using 1(2) by (simp add: less_mult_imp_div_less mult.commute)
    then show ?thesis using 1(1) [OF False, of j] k False by (subst decimal.simps) simp
  qed (use 1(3) in \<open>subst decimal.simps, simp\<close>)
qed

lemma decimal_of_digits:
  "list_all ascii_digit s \<Longrightarrow> s \<noteq> [] \<Longrightarrow> length s = 1 \<or> hd s \<noteq> CHR ''0'' \<Longrightarrow> decimal (digits_value 0 s) = s"
proof (induction s rule: rev_induct)
  case (snoc c s)
  let ?d = "of_char c - 48 :: nat"
  have d: "?d < 10" "char_of (48 + ?d) = c" using digit_bounds [of c] snoc.prems(1) by simp_all
  show ?case
  proof (cases "s = []")
    case True
    then show ?thesis using d by (subst decimal.simps) simp
  next
    case False
    then have head: "hd s \<noteq> CHR ''0''" using snoc.prems(3) by simp
    obtain a t where s: "s = a # t" using False by (cases s) auto
    have a: "ascii_digit a" "a \<noteq> CHR ''0''" using snoc.prems(1) head by (simp_all add: s)
    have "(of_char a :: nat) \<noteq> 48" using nonzero_char a(2) by blast
    then have "1 \<le> (of_char a - 48 :: nat)" using digit_bounds [OF a(1)] by linarith
    also have "\<dots> \<le> digits_value (of_char a - 48) t" by (rule digits_value_ge)
    finally have pos: "1 \<le> digits_value 0 s" by (simp add: s)
    have "decimal (digits_value 0 s) = s" using snoc.IH snoc.prems(1) False head by simp
    then show ?thesis using pos d by (subst decimal.simps) simp
  qed
qed simp

lemma parse_decimal:
  fixes v :: u64
  shows "parse_digits 0 (decimal (unat v)) = Some v"
  using parse_digits_value [OF decimal_digits, of 0 "unat v"] number_decimal [of "unat v"] unsigned_less [of v, where ?'a = nat]
  by (simp add: number.simps)

lemma parse_exact:
  assumes "list_all ascii_digit s" and "s \<noteq> []" and "length s = 1 \<or> hd s \<noteq> CHR ''0''" and "parse_digits 0 s = Some v"
  shows "s = decimal (unat v)"
  using parse_digits_value [OF assms(1), of 0] decimal_of_digits [OF assms(1-3)] assms(4)
  by (auto simp: unat_of_nat split: if_splits)

lemma decimal_u64_length:
  fixes v :: u64
  shows "length (decimal (unat v)) \<le> 20"
  using decimal_length [of "unat v" 20] unsigned_less [of v, where ?'a = nat] by simp

text \<open>
  C40: Points and quantities survive their text exactly, and each value has one text: a string parses to a value
  exactly when it is the string written for it. No leading zero, sign, empty string or value
  beyond 64 bits is accepted, and zero is accepted for points and refused, both ways, for quantities.
\<close>

theorem exact_numbers:
  "(points_deserialize s = Ok v) = (s = points_serialize v) \<and> (quantity_deserialize s = Ok v) = (quantity_serialize v = Ok s)"
proof (intro conjI)
  have zero: "decimal 0 = ''0''" by (subst decimal.simps) (simp add: zero_char)
  have leading: "\<not> (1 < length (decimal (unat v)) \<and> hd (decimal (unat v)) = CHR ''0'')"
    using decimal_leading [of "unat v"] zero by (cases "unat v = 0") auto
  show "(points_deserialize s = Ok v) = (s = points_serialize v)"
  proof
    assume "points_deserialize s = Ok v"
    then show "s = points_serialize v"
      using parse_exact [of s v] by (cases s) (auto simp: points_deserialize_def points_serialize_def ok_or_def split: if_splits option.splits)
  next
    assume "s = points_serialize v"
    then show "points_deserialize s = Ok v"
      using leading decimal_digits [of "unat v"] decimal_nonempty [of "unat v"] decimal_u64_length [of v] parse_decimal [of v]
      by (auto simp: points_deserialize_def points_serialize_def ok_or_def)
  qed
  show "(quantity_deserialize s = Ok v) = (quantity_serialize v = Ok s)"
  proof
    assume ok: "quantity_deserialize s = Ok v"
    then have s: "s = decimal (unat v)" "hd s \<noteq> CHR ''0''"
      using parse_exact [of s v] by (auto simp: quantity_deserialize_def ok_or_def split: if_splits option.splits)
    then have "v \<noteq> 0" using zero by auto
    then show "quantity_serialize v = Ok s" using s(1) by (simp add: quantity_serialize_def)
  next
    assume "quantity_serialize v = Ok s"
    then have v: "v \<noteq> 0" "s = decimal (unat v)" by (auto simp: quantity_serialize_def split: if_splits)
    then have "hd s \<noteq> CHR ''0''" using decimal_leading [of "unat v"] by (simp add: unat_gt_0)
    then show "quantity_deserialize s = Ok v"
      using v(2) decimal_digits [of "unat v"] decimal_nonempty [of "unat v"] decimal_u64_length [of v] parse_decimal [of v]
      by (simp add: quantity_deserialize_def ok_or_def)
  qed
qed

end
