(* ===== verification/Provider_Host.thy ===== *)
theory Provider_Host
  imports Service_Properties
begin

section \<open>Hosted provider sessions\<close>

text \<open>
  \<open>crates/wf-observer-cli/src/provider_host/session.rs\<close>: one attachment polls one provider. A
  poll takes a ticket, asks the provider for the demanded topics outside the service lock, and
  publishes or discards what it staged. Other threads use the service in between, so a poll
  reads the service twice: \<open>s\<close> is the state the ticket comes from, \<open>s2\<close> the state at the end.

  The provider and the process memory it borrows are parameters: \<open>provider_api\<close> is the part of
  the traits \<open>ProviderSession\<close> and \<open>ProcessMemory\<close> the host uses, over a state of its own. What
  a provider publishes during a poll is a list of sink calls. \<open>clock\<close> is the latest instant the
  platform can represent.
\<close>

record ('p, 'v) provider_api =
  pv_verify :: "'p \<Rightarrow> 'p \<times> string option"
  pv_begin_generation :: "SdkCapability \<Rightarrow> 'p \<Rightarrow> 'p"
  pv_poll :: "SdkCapability list \<Rightarrow> duration \<Rightarrow> 'p \<Rightarrow> 'p \<times> 'v sink_call list \<times> (PollResult, ProviderError) result"
  pv_game_build :: "'p \<Rightarrow> string option"
  pv_poll_completed :: "bool \<Rightarrow> 'p \<Rightarrow> 'p"

definition MIN_POLL :: duration where
  "MIN_POLL = 25 * 1000000"

definition RETRY_POLL :: duration where
  "RETRY_POLL = 1000000000"

record 'p HostedSession =
  ho_provider :: 'p
  ho_manifest :: ProviderManifest
  ho_started :: instant
  ho_last_demand :: "PollTicket option"
  ho_generations :: "PollTicket option"
  ho_next_poll :: "instant option"

text \<open>\<open>start\<close>: the provider's session exists only if the process is verified around its start.\<close>

definition host_start ::
  "('p, 'v) provider_api \<Rightarrow> ProviderManifest \<Rightarrow> ('p \<Rightarrow> 'p \<times> string option) \<Rightarrow> instant \<Rightarrow> 'p \<Rightarrow> ('p HostedSession, string) result" where
  "host_start api manifest start now p =
     (case pv_verify api p of
        (p1, Some e) \<Rightarrow> Err e
      | (p1, None) \<Rightarrow>
        (case start p1 of (p2, started) \<Rightarrow>
          (case pv_verify api p2 of
             (p3, Some e) \<Rightarrow> Err e
           | (p3, None) \<Rightarrow>
             (case started of
                Some e \<Rightarrow> Err e
              | None \<Rightarrow> Ok \<lparr>ho_provider = p3, ho_manifest = manifest, ho_started = now, ho_last_demand = None,
                            ho_generations = None, ho_next_poll = None\<rparr>))))"

subsection \<open>Scheduling\<close>

definition instant_checked_add :: "instant \<Rightarrow> instant \<Rightarrow> duration \<Rightarrow> instant option" where
  "instant_checked_add clock t d = (if t + d \<le> clock then Some (t + d) else None)"

definition deadlines :: "instant \<Rightarrow> PollResult \<Rightarrow> instant \<Rightarrow> (instant option \<times> instant) option" where
  "deadlines clock schedule fin =
     Option.bind
       (case schedule of
          After delay \<Rightarrow> map_option Some (instant_checked_add clock fin (max delay MIN_POLL))
        | Idle_poll \<Rightarrow> Some None)
       (\<lambda>next_poll. map_option (\<lambda>deadline. (next_poll, deadline))
          (instant_checked_add clock (case next_poll of Some t \<Rightarrow> t | None \<Rightarrow> fin) POLL_GRACE))"

definition demand_changed :: "PollTicket \<Rightarrow> 'p HostedSession \<Rightarrow> bool" where
  "demand_changed ticket h \<longleftrightarrow>
     (case ho_last_demand h of None \<Rightarrow> True | Some previous \<Rightarrow> \<not> same_demand ticket previous)"

definition poll_due :: "PollTicket \<Rightarrow> instant \<Rightarrow> 'p HostedSession \<Rightarrow> bool" where
  "poll_due ticket now h \<longleftrightarrow>
     demand_changed ticket h \<or> (case ho_next_poll h of None \<Rightarrow> False | Some deadline \<Rightarrow> deadline \<le> now)"

definition ticket_for :: "PollTicket \<Rightarrow> SdkCapability \<Rightarrow> Demand option" where
  "ticket_for ticket cap =
     find (\<lambda>d. topic (dm_key d) = sc_topic cap \<and> schema_version (dm_key d) = sc_schema_version cap) (tk_topics ticket)"

definition host_demand :: "ProviderManifest \<Rightarrow> PollTicket \<Rightarrow> SdkCapability list" where
  "host_demand manifest ticket = filter (\<lambda>cap. ticket_for ticket cap \<noteq> None) (pm_capabilities manifest)"

definition generation_changed :: "PollTicket \<Rightarrow> PollTicket option \<Rightarrow> SdkCapability \<Rightarrow> bool" where
  "generation_changed ticket generations cap \<longleftrightarrow>
     (case ticket_for ticket cap of
        None \<Rightarrow> False
      | Some d \<Rightarrow> (case generations of None \<Rightarrow> True | Some previous \<Rightarrow> \<not> same_generation ticket previous (dm_key d)))"

subsection \<open>Acquisition\<close>

text \<open>\<open>Err\<close> is a process that could not be verified, before or after the provider ran.\<close>

definition host_acquire ::
  "('p, 'v) provider_api \<Rightarrow> ('v \<Rightarrow> string option) \<Rightarrow> usize \<Rightarrow> PollTicket \<Rightarrow> instant \<Rightarrow> 'p HostedSession \<Rightarrow>
   'p HostedSession \<times> (PollBatch \<times> (PollResult, ProviderError) result, string) result" where
  "host_acquire api ts n ticket now h =
     (let demand = host_demand (ho_manifest h) ticket
      in case pv_verify api (ho_provider h) of
           (p1, Some e) \<Rightarrow> (h\<lparr>ho_provider := p1\<rparr>, Err e)
         | (p1, None) \<Rightarrow>
           (let p2 = fold (pv_begin_generation api) (filter (generation_changed ticket (ho_generations h)) demand) p1;
                (p3, calls, schedule) = pv_poll api demand (now - ho_started h) p2;
                b1 = poll_batch ts n (ho_manifest h) calls;
                (b2, result) = (case schedule of
                    Err e \<Rightarrow> (b1, Err e)
                  | Ok r \<Rightarrow> (case batch_game_build (pv_game_build api p3) b1 of
                        (b, Ok _) \<Rightarrow> (b, Ok r)
                      | (b, Err e) \<Rightarrow> (b, Err e)));
                h1 = h\<lparr>ho_generations := Some ticket\<rparr>
            in case pv_verify api p3 of
                 (p4, Some e) \<Rightarrow> (h1\<lparr>ho_provider := pv_poll_completed api False p4\<rparr>, Err e)
               | (p4, None) \<Rightarrow> (h1\<lparr>ho_provider := p4\<rparr>, Ok (b2, result))))"

subsection \<open>Conclusion\<close>

definition host_discard ::
  "postcard \<Rightarrow> ('p, 'v) provider_api \<Rightarrow> instant \<Rightarrow> PollTicket \<Rightarrow> TopicRef list \<Rightarrow> bool \<Rightarrow> Inner \<Rightarrow> 'p HostedSession \<Rightarrow>
   'p HostedSession \<times> Inner" where
  "host_discard pc api fin ticket resets failed s h =
     (case discard_poll pc fin ticket resets failed s of
        (s', retry) \<Rightarrow>
          (h\<lparr>ho_provider := pv_poll_completed api False (ho_provider h), ho_last_demand := retry,
             ho_next_poll := Some (fin + RETRY_POLL)\<rparr>, s'))"

definition host_conclude ::
  "postcard \<Rightarrow> ('p, 'v) provider_api \<Rightarrow> instant \<Rightarrow> instant \<Rightarrow> PollTicket \<Rightarrow> PollBatch \<Rightarrow> (PollResult, ProviderError) result \<Rightarrow>
   Inner \<Rightarrow> 'p HostedSession \<Rightarrow> 'p HostedSession \<times> Inner" where
  "host_conclude pc api clock fin ticket batch result s h =
     (let resets = reset_intents batch;
          h1 = h\<lparr>ho_last_demand := Some ticket\<rparr>
      in case rbind result (\<lambda>schedule.
                ok_or (deadlines clock schedule fin) (Failed_provider ''poll delay exceeds the clock range'')) of
           Ok (next_poll, deadline) \<Rightarrow>
             (let h2 = h1\<lparr>ho_next_poll := next_poll\<rparr>
              in case commit_poll pc fin ticket batch deadline s of
                   (s', Ok True) \<Rightarrow>
                     (h2\<lparr>ho_generations := map_option (rebase_resets resets) (ho_generations h2),
                         ho_last_demand := map_option (rebase_resets resets) (ho_last_demand h2),
                         ho_provider := pv_poll_completed api True (ho_provider h2)\<rparr>, s')
                 | (s', Ok False) \<Rightarrow> host_discard pc api fin ticket resets False s' h2
                 | (s', Err _) \<Rightarrow> host_discard pc api fin ticket resets True s' h2)
         | Err _ \<Rightarrow> host_discard pc api fin ticket resets True s h1)"

definition host_poll ::
  "postcard \<Rightarrow> ('p, 'v) provider_api \<Rightarrow> ('v \<Rightarrow> string option) \<Rightarrow> usize \<Rightarrow> instant \<Rightarrow> instant \<Rightarrow> instant \<Rightarrow> string \<Rightarrow>
   Inner \<Rightarrow> Inner \<Rightarrow> 'p HostedSession \<Rightarrow> 'p HostedSession \<times> Inner \<times> (duration option, string) result" where
  "host_poll pc api ts n clock now fin sid s s2 h =
     (case poll_ticket s sid of
        None \<Rightarrow> (h, s2, Ok None)
      | Some ticket \<Rightarrow>
        (if \<not> poll_due ticket now h
         then (h, s2, Ok (map_option (\<lambda>deadline. deadline - now) (ho_next_poll h)))
         else (case host_acquire api ts n ticket now h of
             (h1, Err e) \<Rightarrow> (h1, fail_poll pc fin ticket s2, Err e)
           | (h1, Ok (batch, result)) \<Rightarrow>
             (case host_conclude pc api clock fin ticket batch result s2 h1 of
                (h2, s3) \<Rightarrow> (h2, s3, Ok (map_option (\<lambda>deadline. deadline - fin) (ho_next_poll h2)))))))"

subsection \<open>A poll is a service operation\<close>

lemma host_acquire_batch:
  assumes "host_acquire api ts n ticket now h = (h', Ok (batch, result))"
  shows "batch_wf batch"
proof -
  obtain calls b1 where b1: "b1 = poll_batch ts n (ho_manifest h) calls"
    and batch: "batch = b1 \<or> (\<exists>build. batch = fst (perform_call ts n (Call_Build build) b1))"
    using assms
    by (auto simp: host_acquire_def Let_def split: prod.splits option.splits result.splits) (metis fst_conv perform_call.simps(5))+
  have "batch_wf b1" unfolding b1 by (rule poll_batch_wf)
  then show ?thesis using batch batch_wf_build by auto
qed

lemma reachable_commit: "reachable pc s \<Longrightarrow> batch_wf batch \<Longrightarrow> reachable pc (fst (commit_poll pc now ticket batch deadline s))"
  by (rule reach_step [of service_init "service_step pc" s, OF _ step_commit])

lemma reachable_discard: "reachable pc s \<Longrightarrow> reachable pc (fst (discard_poll pc now ticket resets failed s))"
  by (rule reach_step [of service_init "service_step pc" s, OF _ step_discard])

lemma host_discard_reachable: "reachable pc s \<Longrightarrow> reachable pc (snd (host_discard pc api fin ticket resets failed s h))"
  using reachable_discard [of pc s fin ticket resets failed]
  by (cases "discard_poll pc fin ticket resets failed s") (simp add: host_discard_def)

lemma host_conclude_reachable:
  assumes "reachable pc s" and "batch_wf batch"
  shows "reachable pc (snd (host_conclude pc api clock fin ticket batch result s h))"
proof (cases "rbind result (\<lambda>schedule. ok_or (deadlines clock schedule fin) (Failed_provider ''poll delay exceeds the clock range''))")
  case (Ok p)
  obtain next_poll deadline where p: "p = (next_poll, deadline)" by (cases p)
  obtain s' r where c: "commit_poll pc fin ticket batch deadline s = (s', r)" by (cases "commit_poll pc fin ticket batch deadline s")
  then have "reachable pc s'" using reachable_commit [OF assms, of fin ticket deadline] by simp
  then show ?thesis
    using host_discard_reachable
    by (cases r) (auto simp: host_conclude_def Let_def Ok p c split: bool.split)
next
  case (Err e)
  then show ?thesis using host_discard_reachable [OF assms(1)] by (simp add: host_conclude_def Let_def)
qed


subsection \<open>What the provider is told\<close>

datatype host_event = Ev_generation SdkCapability | Ev_poll "SdkCapability list" | Ev_completed bool

text \<open>A provider that also records what the host tells it.\<close>

definition traced :: "('p, 'v) provider_api \<Rightarrow> ('p \<times> host_event list, 'v) provider_api" where
  "traced api =
     \<lparr>pv_verify = (\<lambda>(p, es). case pv_verify api p of (p', e) \<Rightarrow> ((p', es), e)),
      pv_begin_generation = (\<lambda>cap (p, es). (pv_begin_generation api cap p, es @ [Ev_generation cap])),
      pv_poll = (\<lambda>demand now (p, es). case pv_poll api demand now p of (p', r) \<Rightarrow> ((p', es @ [Ev_poll demand]), r)),
      pv_game_build = (\<lambda>(p, es). pv_game_build api p),
      pv_poll_completed = (\<lambda>b (p, es). (pv_poll_completed api b p, es @ [Ev_completed b]))\<rparr>"

definition trace :: "('p \<times> host_event list) HostedSession \<Rightarrow> host_event list" where
  "trace h = snd (ho_provider h)"

lemma traced_sel [simp]:
  "pv_verify (traced api) (p, es) = (case pv_verify api p of (p', e) \<Rightarrow> ((p', es), e))"
  "pv_begin_generation (traced api) cap (p, es) = (pv_begin_generation api cap p, es @ [Ev_generation cap])"
  "pv_poll (traced api) demand now (p, es) = (case pv_poll api demand now p of (p', r) \<Rightarrow> ((p', es @ [Ev_poll demand]), r))"
  "pv_game_build (traced api) (p, es) = pv_game_build api p"
  "pv_poll_completed (traced api) b (p, es) = (pv_poll_completed api b p, es @ [Ev_completed b])"
  by (simp_all add: traced_def)

lemma traced_generations:
  "fold (pv_begin_generation (traced api)) caps (p, es) = (fold (pv_begin_generation api) caps p, es @ map Ev_generation caps)"
  by (induction caps arbitrary: p es) simp_all

lemma traced_acquire:
  assumes "host_acquire (traced api) ts n ticket now h = (h', acquired)"
  defines "demand \<equiv> host_demand (ho_manifest h) ticket"
  shows "(trace h' = trace h \<and> (\<exists>e. acquired = Err e) \<and> snd (pv_verify api (fst (ho_provider h))) \<noteq> None)
    \<or> (snd (pv_verify api (fst (ho_provider h))) = None \<and> (\<exists>told. trace h' = trace h @ map Ev_generation (filter (generation_changed ticket (ho_generations h)) demand) @ [Ev_poll demand] @ told
         \<and> (case acquired of Ok _ \<Rightarrow> told = [] | Err _ \<Rightarrow> told = [Ev_completed False])))"
proof -
  obtain p es where h: "ho_provider h = (p, es)" by (cases "ho_provider h")
  show ?thesis
    using assms(1)
    by (auto simp: host_acquire_def Let_def h trace_def demand_def traced_generations
        split: prod.splits option.splits result.splits)
qed

lemma traced_discard: "trace (fst (host_discard pc (traced api) fin ticket resets failed s h)) = trace h @ [Ev_completed False]"
  by (cases "discard_poll pc fin ticket resets failed s"; cases "ho_provider h")
    (simp add: host_discard_def trace_def)

lemma traced_discard_next:
  assumes "host_discard pc (traced api) fin ticket resets failed s h = (h', s')"
  shows "trace h' = trace h @ [Ev_completed False]" and "ho_next_poll h' = Some (fin + RETRY_POLL)"
    and "s' = fst (discard_poll pc fin ticket resets failed s)"
  using traced_discard [of pc api fin ticket resets failed s h] assms
  by (auto simp: host_discard_def split: prod.splits)

text \<open>The effect of a rejected poll: a commit that refused, if it was tried, and a discard.\<close>

definition discarded :: "postcard \<Rightarrow> instant \<Rightarrow> PollTicket \<Rightarrow> Inner \<Rightarrow> Inner \<Rightarrow> bool" where
  "discarded pc fin ticket s s' \<longleftrightarrow>
     (\<exists>resets failed s1. s' = fst (discard_poll pc fin ticket resets failed s1)
        \<and> (s1 = s \<or> (\<exists>batch deadline r. commit_poll pc fin ticket batch deadline s = (s1, r) \<and> r \<noteq> Ok True)))"

lemma discarded_untried: "discarded pc fin ticket s (fst (discard_poll pc fin ticket resets failed s))"
  unfolding discarded_def by blast

lemma discarded_refused:
  "commit_poll pc fin ticket batch deadline s = (s1, r) \<Longrightarrow> r \<noteq> Ok True
     \<Longrightarrow> discarded pc fin ticket s (fst (discard_poll pc fin ticket resets failed s1))"
  unfolding discarded_def by blast

lemma traced_conclude:
  assumes "host_conclude pc (traced api) clock fin ticket batch result s h = (h', s')"
  shows "(trace h' = trace h @ [Ev_completed True] \<and> (\<exists>deadline. commit_poll pc fin ticket batch deadline s = (s', Ok True)))
    \<or> (trace h' = trace h @ [Ev_completed False] \<and> ho_next_poll h' = Some (fin + RETRY_POLL)
        \<and> discarded pc fin ticket s s')"
proof (cases "rbind result (\<lambda>schedule. ok_or (deadlines clock schedule fin) (Failed_provider ''poll delay exceeds the clock range''))")
  case (Ok p)
  obtain next_poll deadline where p: "p = (next_poll, deadline)" by (cases p)
  obtain s1 r where c: "commit_poll pc fin ticket batch deadline s = (s1, r)" by (cases "commit_poll pc fin ticket batch deadline s")
  obtain q es where h: "ho_provider h = (q, es)" by (cases "ho_provider h")
  consider (published) "r = Ok True"
    | (rest) failed h2 where "host_discard pc (traced api) fin ticket (reset_intents batch) failed s1 h2 = (h', s')" "trace h2 = trace h" "r \<noteq> Ok True"
    using assms by (cases r) (auto simp: host_conclude_def Let_def Ok p c trace_def split: bool.splits)
  then show ?thesis
  proof cases
    case published
    then show ?thesis using assms c h by (auto simp: host_conclude_def Let_def Ok p trace_def)
  next
    case rest
    then show ?thesis using traced_discard_next [OF rest(1)] discarded_refused [OF c rest(3)] by simp
  qed
next
  case (Err e)
  then have "host_discard pc (traced api) fin ticket (reset_intents batch) True s (h\<lparr>ho_last_demand := Some ticket\<rparr>) = (h', s')"
    using assms by (simp add: host_conclude_def Let_def)
  from traced_discard_next [OF this] show ?thesis using discarded_untried by (simp add: trace_def)
qed


text \<open>A provider whose process is always there and whose poll fails.\<close>

definition failing_api :: "(unit, string) provider_api" where
  "failing_api =
     \<lparr>pv_verify = (\<lambda>p. (p, None)), pv_begin_generation = (\<lambda>_ p. p), pv_poll = (\<lambda>_ _ p. (p, [], Err InvalidTarget)),
      pv_game_build = (\<lambda>_. None), pv_poll_completed = (\<lambda>_ p. p)\<rparr>"

definition demo_host :: "'p \<Rightarrow> 'p HostedSession" where
  "demo_host p =
     \<lparr>ho_provider = p, ho_manifest = demo_manifest, ho_started = 0, ho_last_demand = None, ho_generations = None,
      ho_next_poll = None\<rparr>"

lemma demo_host_sel [simp]:
  "ho_provider (demo_host p) = p" "ho_manifest (demo_host p) = demo_manifest" "ho_generations (demo_host p) = None"
  by (simp_all add: demo_host_def)

lemma failing_sel [simp]:
  "pv_verify failing_api p = ((), None)" "pv_poll failing_api demand now p = ((), [], Err InvalidTarget)"
  by (simp_all add: failing_api_def)

lemma demo_host_due: "poll_due demo_ticket 30 (demo_host p)"
  by (simp add: poll_due_def demand_changed_def demo_host_def)



end
