(* ===== verification/Session_Checks.thy ===== *)
theory Session_Checks
  imports Account_Roots Provider_Host
begin

section \<open>Checks of an attachment\<close>

text \<open>
  \<open>session/validation.rs\<close>: the executable is identified once, and every layout is validated once, for
  all topics that rely on it. A failure is remembered with its own deadline, so no topic can make
  another retry earlier. \<open>session/health.rs\<close> gives every acquisition error its public category.
\<close>

subsection \<open>Durations\<close>

text \<open>\<open>Duration::MAX\<close> in nanoseconds; \<open>saturating_add\<close> stops there.\<close>

definition DURATION_MAX :: duration where
  "DURATION_MAX = 2 ^ 64 * 1000000000 - 1"

definition duration_saturating_add :: "duration \<Rightarrow> duration \<Rightarrow> duration" where
  "duration_saturating_add a b = min (a + b) DURATION_MAX"

definition milliseconds :: "nat \<Rightarrow> duration" where
  "milliseconds n = n * 1000000"

definition seconds :: "nat \<Rightarrow> duration" where
  "seconds n = n * 1000000000"

definition VALIDATION_RETRY :: duration where
  "VALIDATION_RETRY = seconds 5"

subsection \<open>Cached checks\<close>

record Retry =
  rt_reason :: SdkUnavailableReason
  rt_at :: duration

datatype 'a CachedCheck = Unchecked | Passed 'a | Failed_check Retry

text \<open>
  The check runs on the state \<open>'s\<close> it reads; the result is the new state, the new cache and the
  outcome.
\<close>

definition check_ensure ::
  "duration \<Rightarrow> ('s, 'a, SdkUnavailableReason) attempt \<Rightarrow> 'a CachedCheck \<Rightarrow> 's \<Rightarrow> 's \<times> 'a CachedCheck \<times> ('a, Retry) result" where
  "check_ensure now check cache s =
     (let run = (case check s of
            (s', Ok x) \<Rightarrow> (s', Passed x, Ok x)
          | (s', Err reason) \<Rightarrow>
            (let retry = \<lparr>rt_reason = reason, rt_at = duration_saturating_add now VALIDATION_RETRY\<rparr>
             in (s', Failed_check retry, Err retry)))
      in case cache of
           Passed x \<Rightarrow> (s, cache, Ok x)
         | Failed_check retry \<Rightarrow> if now < rt_at retry then (s, cache, Err retry) else run
         | Unchecked \<Rightarrow> run)"

definition validation_reason :: "SdkUnavailableReason \<Rightarrow> string \<Rightarrow> SdkUnavailableReason" where
  "validation_reason reason name =
     with_dependency (case reason of SdkReadFailed _ \<Rightarrow> reason | _ \<Rightarrow> SdkUnsupportedBuild) name"

definition check_validate ::
  "duration \<Rightarrow> string \<Rightarrow> ('s, unit, SdkUnavailableReason) attempt \<Rightarrow> unit CachedCheck \<Rightarrow> 's \<Rightarrow> 's \<times> unit CachedCheck \<times> (unit, Retry) result" where
  "check_validate now name check =
     check_ensure now (\<lambda>s. case check s of (s', r) \<Rightarrow> (s', map_err (\<lambda>reason. validation_reason reason name) r))"

subsection \<open>The executable\<close>

record ExecutableFingerprint =
  ef_timestamp :: u32
  ef_image_size :: u32

record Executable =
  ex_base :: u64
  ex_actual :: ExecutableFingerprint

text \<open>
  \<open>read_executable_fingerprint\<close>: the headers are read through the process backend directly, and the
  whole image must lie in the address space. A module is its name, path and base.
\<close>

definition read_executable_fingerprint :: "'m backend \<Rightarrow> u64 \<Rightarrow> ('m, ExecutableFingerprint, string HeaderError) attempt" where
  "read_executable_fingerprint be base =
     and_then (read_amd64_headers base be) (\<lambda>headers.
       done_with
         (case checked_add base (ucast (ih_image_size headers) - 1) of
            None \<Rightarrow> Err InvalidImage
          | Some end' \<Rightarrow>
            if max_address READ_LIMITS < end' then Err InvalidImage
            else Ok \<lparr>ef_timestamp = ih_timestamp headers, ef_image_size = ih_image_size headers\<rparr>))"

record MemoryModule =
  mm_name :: string
  mm_path :: string
  mm_base :: u64

text \<open>\<open>min_by_key\<close>: the first of the smallest.\<close>

fun min_by_base :: "MemoryModule list \<Rightarrow> MemoryModule option" where
  "min_by_base [] = None"
| "min_by_base (m # ms) =
     (case min_by_base ms of None \<Rightarrow> Some m | Some n \<Rightarrow> Some (if mm_base n < mm_base m then n else m))"

text \<open>\<open>trim_matches\<close> of quotes, \<open>executable_basename\<close> and \<open>matched_target_executable\<close> of \<open>matching.rs\<close>, on Linux.\<close>

definition trim_quotes :: "string \<Rightarrow> string" where
  "trim_quotes value =
     (let quote = (\<lambda>c. c = char_of (34 :: nat) \<or> c = char_of (39 :: nat))
      in rev (dropWhile quote (rev (dropWhile quote value))))"

definition path_separator :: "char \<Rightarrow> bool" where
  "path_separator c \<longleftrightarrow> c = CHR ''/'' \<or> c = char_of (92 :: nat)"

definition executable_basename :: "string \<Rightarrow> string" where
  "executable_basename value = trim_quotes (rev (takeWhile (\<lambda>c. \<not> path_separator c) (rev (trim_quotes value))))"

definition TARGET_EXECUTABLES :: "string list" where
  "TARGET_EXECUTABLES = [''Warframe.x64.exe'', ''Warframe.exe'']"

definition TRUNCATED_TARGET_EXECUTABLES :: "string list" where
  "TRUNCATED_TARGET_EXECUTABLES = [''Warframe.x64.ex'']"

definition matched_target_executable :: "string \<Rightarrow> string option" where
  "matched_target_executable value =
     (let basename = executable_basename value
      in case find (eq_ignore_ascii_case basename) TARGET_EXECUTABLES of
           Some candidate \<Rightarrow> Some candidate
         | None \<Rightarrow> if list_ex (eq_ignore_ascii_case basename) TRUNCATED_TARGET_EXECUTABLES then Some ''Warframe.x64.exe'' else None)"

definition target_module :: "string \<Rightarrow> MemoryModule list \<Rightarrow> MemoryModule option" where
  "target_module executable modules =
     min_by_base (filter (\<lambda>m. matched_target_executable (mm_name m) = Some executable \<or> matched_target_executable (mm_path m) = Some executable) modules)"

text \<open>\<open>executable\<close> and \<open>modules\<close> are \<open>ProcessMemory::target\<close> and \<open>ProcessMemory::modules\<close>.\<close>

definition identify ::
  "'m backend \<Rightarrow> string \<Rightarrow> ('m, MemoryModule list, string) attempt \<Rightarrow> ('m, Executable, SdkUnavailableReason) attempt" where
  "identify be executable modules m =
     (case modules m of
        (m', Err _) \<Rightarrow> (m', Err (SdkReadFailed ''game modules could not be read''))
      | (m', Ok ms) \<Rightarrow>
        (case target_module executable ms of
           None \<Rightarrow> (m', Err SdkTargetNotReady)
         | Some module \<Rightarrow>
           (case read_executable_fingerprint be (mm_base module) m' of
              (m'', Err (Header_read _)) \<Rightarrow> (m'', Err (SdkReadFailed ''game executable could not be read''))
            | (m'', Err InvalidImage) \<Rightarrow> (m'', Err SdkUnsupportedBuild)
            | (m'', Ok actual) \<Rightarrow> (m'', Ok \<lparr>ex_base = mm_base module, ex_actual = actual\<rparr>))))"

subsection \<open>Categories of acquisition errors\<close>

definition resolve_unavailable :: "ResolveError \<Rightarrow> SdkUnavailableReason" where
  "resolve_unavailable error =
     (case error of
        Resolve_read e \<Rightarrow> read_unavailable e
      | Resolve_unsupported _ \<Rightarrow> SdkUnsupportedBuild
      | _ \<Rightarrow> SdkValidationFailed ''account ownership could not be validated'')"

subsection \<open>What a cached check promises\<close>

lemma check_ensure_passed: "check_ensure now check (Passed x) s = (s, Passed x, Ok x)"
  by (simp add: check_ensure_def Let_def)

lemma check_ensure_waits: "now < rt_at retry \<Longrightarrow> check_ensure now check (Failed_check retry) s = (s, Failed_check retry, Err retry)"
  by (simp add: check_ensure_def Let_def)

lemma check_ensure_outcome:
  assumes "check_ensure now check cache s = (s', cache', r)"
  shows "(case r of Ok x \<Rightarrow> cache' = Passed x | Err retry \<Rightarrow> cache' = Failed_check retry \<and> (now < rt_at retry \<or> rt_at retry = DURATION_MAX))"
proof -
  have later: "now < duration_saturating_add now VALIDATION_RETRY \<or> duration_saturating_add now VALIDATION_RETRY = DURATION_MAX"
    by (auto simp: duration_saturating_add_def VALIDATION_RETRY_def seconds_def)
  show ?thesis
    using assms later by (auto simp: check_ensure_def Let_def split: CachedCheck.splits result.splits prod.splits if_splits)
qed

end
