(* ===== verification/Process_Matching.thy ===== *)
theory Process_Matching
  imports Session_Checks
begin

section \<open>Recognising the game\<close>

text \<open>
  \<open>provider/src/matching.rs\<close> on Linux and the provider's \<open>identify_process\<close> and \<open>start\<close>: a process is the
  game by its name, its path or the one executable argument of its command line, directly or behind a Wine loader.
  Strings are their UTF-8 bytes.
\<close>

record ProcessMetadata =
  pm_pid :: u32
  pm_name :: string
  pm_path :: string
  pm_command_line :: string

subsection \<open>White space\<close>

text \<open>
  \<open>char::is_whitespace\<close>: how many bytes the white-space character at the front of a string takes. The first
  bytes of multi-byte characters occur nowhere else in UTF-8, so a scan by bytes finds whole characters.
\<close>

definition byte_of :: "char \<Rightarrow> nat" where
  "byte_of c = of_char c"

definition white_length :: "string \<Rightarrow> nat" where
  "white_length s =
     (case map byte_of (take 3 s) of
        [] \<Rightarrow> 0
      | a # rest \<Rightarrow>
        if 9 \<le> a \<and> a \<le> 13 \<or> a = 32 then 1
        else (case rest of
            [] \<Rightarrow> 0
          | b # rest \<Rightarrow>
            if a = 0xC2 \<and> (b = 0x85 \<or> b = 0xA0) then 2
            else (case rest of
                [] \<Rightarrow> 0
              | c # _ \<Rightarrow>
                if a = 0xE1 \<and> b = 0x9A \<and> c = 0x80
                   \<or> a = 0xE2 \<and> b = 0x80 \<and> (0x80 \<le> c \<and> c \<le> 0x8A \<or> c = 0xA8 \<or> c = 0xA9 \<or> c = 0xAF)
                   \<or> a = 0xE2 \<and> b = 0x81 \<and> c = 0x9F
                   \<or> a = 0xE3 \<and> b = 0x80 \<and> c = 0x80
                then 3 else 0)))"

abbreviation starts_white :: "string \<Rightarrow> bool" where
  "starts_white s \<equiv> white_length s \<noteq> 0"

lemma white_length_le: "white_length s \<le> length s"
  by (cases s rule: list.exhaust [case_product list.exhaust]; cases "tl s"; cases "tl (tl s)") (auto simp: white_length_def)

function trim_start :: "string \<Rightarrow> string" where
  "trim_start s = (if starts_white s then trim_start (drop (white_length s) s) else s)"
  by pat_completeness auto

termination
proof (relation "measure length")
  fix s assume "starts_white s"
  then have "0 < white_length s" by simp
  moreover have "white_length s \<le> length s" by (rule white_length_le)
  ultimately show "(drop (white_length s) s, s) \<in> measure length" by (simp only: in_measure length_drop)
qed simp

declare trim_start.simps [simp del]

text \<open>\<open>find(char::is_whitespace)\<close> as the split it is used for: what stands before, and the rest.\<close>

fun split_white :: "string \<Rightarrow> string \<times> string" where
  "split_white [] = ([], [])"
| "split_white (c # s) = (if starts_white (c # s) then ([], c # s) else (case split_white s of (word, rest) \<Rightarrow> (c # word, rest)))"

subsection \<open>The command line\<close>

definition is_quote :: "char \<Rightarrow> bool" where
  "is_quote c \<longleftrightarrow> byte_of c = 34 \<or> byte_of c = 39"

definition first_argument :: "string \<Rightarrow> (string \<times> string) option" where
  "first_argument value =
     (case trim_start value of
        [] \<Rightarrow> None
      | c # quoted \<Rightarrow>
        if is_quote c then
          (let argument = takeWhile (\<lambda>d. d \<noteq> c) quoted; tail = drop (length argument + 1) quoted
           in if c \<notin> set quoted then None
              else if tail \<noteq> [] \<and> \<not> starts_white tail then None
              else Some (argument, tail))
        else Some (split_white (c # quoted)))"

definition is_wine_loader :: "string \<Rightarrow> bool" where
  "is_wine_loader value \<longleftrightarrow> executable_basename value \<in> {''wine'', ''wine64'', ''wine-preloader'', ''wine64-preloader''}"

definition loader_arguments :: "ProcessMetadata \<Rightarrow> string \<Rightarrow> string \<Rightarrow> string option" where
  "loader_arguments p executable remaining =
     (let line = trim_start (pm_command_line p);
          tail = (if is_wine_loader (pm_path p) \<and> take (length (pm_path p)) line = pm_path p then Some (drop (length (pm_path p)) line) else None)
      in case tail of
           Some t \<Rightarrow> if starts_white t then Some t else if is_wine_loader executable then Some remaining else None
         | None \<Rightarrow> if is_wine_loader executable then Some remaining else None)"

definition match_command_line :: "ProcessMetadata \<Rightarrow> string option" where
  "match_command_line p =
     Option.bind (first_argument (pm_command_line p)) (\<lambda>(executable, remaining).
       (case matched_target_executable executable of
          Some matched \<Rightarrow> Some matched
        | None \<Rightarrow>
          if is_wine_loader (pm_name p) \<or> is_wine_loader (pm_path p) then
            Option.bind (loader_arguments p executable remaining) (\<lambda>arguments.
            Option.bind (first_argument arguments) (\<lambda>(game, _). matched_target_executable game))
          else None))"

definition match_process :: "ProcessMetadata \<Rightarrow> string option" where
  "match_process p =
     (case matched_target_executable (pm_name p) of
        Some matched \<Rightarrow> Some matched
      | None \<Rightarrow> (case matched_target_executable (pm_path p) of Some matched \<Rightarrow> Some matched | None \<Rightarrow> match_command_line p))"

text \<open>\<open>Provider::start\<close>: the target must be one that could have been identified, and the memory must be the target's.\<close>

definition provider_start :: "'target \<Rightarrow> string \<Rightarrow> 'target \<Rightarrow> 's \<Rightarrow> ('s, ProviderError) result" where
  "provider_start target executable memory_target session =
     (if matched_target_executable executable = None \<or> memory_target \<noteq> target then Err InvalidTarget else Ok session)"

subsection \<open>Identification and start agree\<close>

lemma matched_in: "matched_target_executable value = Some e \<Longrightarrow> e \<in> set TARGET_EXECUTABLES"
  by (auto simp: matched_target_executable_def Let_def TARGET_EXECUTABLES_def find_Some_iff less_Suc_eq nth_Cons' split: option.splits if_splits)

lemma matched_command_line: "match_command_line p = Some e \<Longrightarrow> e \<in> set TARGET_EXECUTABLES"
  by (auto simp: match_command_line_def bind_eq_Some_conv matched_in split: option.splits if_splits prod.splits)

lemma quote_codes: "char_of (34 :: nat) = CHR 0x22" "char_of (39 :: nat) = CHR 0x27" "char_of (92 :: nat) = CHR 0x5C"
  by (simp_all add: char_of_def bit_0)

lemma targets_match: "e \<in> set TARGET_EXECUTABLES \<Longrightarrow> matched_target_executable e = Some e"
  by (auto simp: TARGET_EXECUTABLES_def matched_target_executable_def executable_basename_def trim_quotes_def path_separator_def
      quote_codes eq_ignore_ascii_case_def ascii_lower_def less_eq_char_def)

text \<open>The argument of a command line is literal: it is cut out of the line, and nothing is skipped before it.\<close>

lemma trim_start_suffix: "\<exists>pre. s = pre @ trim_start s"
proof (induction s rule: trim_start.induct)
  case (1 s)
  show ?case
  proof (cases "starts_white s")
    case True
    then have "trim_start s = trim_start (drop (white_length s) s)" by (simp add: trim_start.simps [of s])
    then obtain pre where "drop (white_length s) s = pre @ trim_start s" using 1 [OF True] by auto
    then have "s = (take (white_length s) s @ pre) @ trim_start s" by (metis append.assoc append_take_drop_id)
    then show ?thesis by blast
  qed (simp add: trim_start.simps)
qed

lemma split_white_append: "split_white s = (word, rest) \<Longrightarrow> s = word @ rest \<and> (rest = [] \<or> starts_white rest)"
proof (induction s arbitrary: word)
  case (Cons c s)
  then show ?case by (auto split: if_splits prod.splits)
qed simp

lemma first_argument_cut:
  assumes "first_argument value = Some (argument, rest)"
  obtains pre mid where "value = pre @ argument @ mid @ rest" and "length mid \<le> 1" and "rest = [] \<or> starts_white rest"
proof -
  obtain pre where pre: "value = pre @ trim_start value" using trim_start_suffix [of "value"] by blast
  obtain c quoted where line: "trim_start value = c # quoted"
    using assms by (cases "trim_start value") (auto simp: first_argument_def)
  show ?thesis
  proof (cases "is_quote c")
    case True
    let ?a = "takeWhile (\<lambda>d. d \<noteq> c) quoted"
    have in_quoted: "c \<in> set quoted" and cut: "argument = ?a" "rest = drop (length ?a + 1) quoted" "rest = [] \<or> starts_white rest"
      using assms True line by (auto simp: first_argument_def Let_def split: if_splits)
    have "quoted = ?a @ dropWhile (\<lambda>d. d \<noteq> c) quoted" by simp
    moreover obtain d tail where d: "dropWhile (\<lambda>d. d \<noteq> c) quoted = d # tail"
      using in_quoted by (cases "dropWhile (\<lambda>d. d \<noteq> c) quoted") (auto simp: dropWhile_eq_Nil_conv)
    ultimately have "quoted = ?a @ d # tail" by simp
    then have "rest = tail" using cut(2) by (metis add.commute append_Cons append_eq_conv_conj drop_drop length_Cons list.size(3) plus_1_eq_Suc drop_Suc_Cons drop0)
    then show ?thesis using that [of "pre @ [c]" "[d]"] pre line \<open>quoted = ?a @ d # tail\<close> cut by simp
  next
    case False
    then have "split_white (c # quoted) = (argument, rest)" using assms line by (simp add: first_argument_def)
    from split_white_append [OF this] show ?thesis using that [of pre "[]"] pre line by simp
  qed
qed

text \<open>
  What identifies a process is what the provider can start: an executable that is matched is one of the bundled
  names, the name matches itself, and so starting it on the memory of its own target never fails - whichever of
  name, path, command line or Wine loader matched.
\<close>

lemma identified_starts:
  assumes "match_process p = Some executable"
  shows "executable \<in> set TARGET_EXECUTABLES" and "matched_target_executable executable = Some executable"
    and "provider_start target executable target session = Ok session"
proof -
  show e: "executable \<in> set TARGET_EXECUTABLES"
    using assms matched_in matched_command_line by (fastforce simp: match_process_def split: option.splits)
  show "matched_target_executable executable = Some executable" by (rule targets_match [OF e])
  then show "provider_start target executable target session = Ok session" by (simp add: provider_start_def)
qed

end
