(* ===== verification/World_Objects.thy ===== *)
theory World_Objects
  imports Account_Roots
begin

section \<open>The client and the world\<close>

text \<open>
  \<open>crates/games/warframe/provider/src/world.rs\<close>: the objects reached from the client root. A missing
  object is an observed transition, not an error; a pointer of the wrong shape is one.
\<close>

definition CLIENT_ROOT :: Rva where "CLIENT_ROOT = Rva 0x02708D80"
definition CLIENT_STORAGE :: Rva where "CLIENT_STORAGE = Rva 0x02708CD0"
definition CLIENT_INSTALLER :: Rva where "CLIENT_INSTALLER = Rva 0x0001F7A7"
definition CLIENT_VTABLE :: Rva where "CLIENT_VTABLE = Rva 0x02197448"
definition CONTEXT_VTABLE :: Rva where "CONTEXT_VTABLE = Rva 0x0219BBC0"
definition REGION_VTABLE :: Rva where "REGION_VTABLE = Rva 0x0219F8E8"
definition RULES_GETTER :: Rva where "RULES_GETTER = Rva 0x004C7600"
definition MISSION_VTABLE :: Rva where "MISSION_VTABLE = Rva 0x0231B9C8"
definition MISSION_REFERENCE :: Rva where "MISSION_REFERENCE = Rva 0x0122234C"

record SharedObject =
  so_control :: ObjectIdentity
  so_object :: ObjectIdentity

record WorldIdentity =
  wi_client :: "SharedObject option"
  wi_context :: "SharedObject option"
  wi_region :: "SharedObject option"
  wi_rules :: "SharedObject option"

definition world_default :: WorldIdentity where
  "world_default = \<lparr>wi_client = None, wi_context = None, wi_region = None, wi_rules = None\<rparr>"

definition world_object :: "u64 \<Rightarrow> (ObjectIdentity, TargetError) result" where
  "world_object address = ok_or (identity_from_address address) (InvalidData ''world object alignment'')"

definition shared :: "'m backend \<Rightarrow> u64 \<Rightarrow> ('m TargetReader, SharedObject option, TargetError) attempt" where
  "shared be control =
     (if control = 0 then done_with (Ok None)
      else and_then (of_reader (\<lambda>r. module_address r (rf_shared_null_sentinel ACCOUNT_FACTS) 1)) (\<lambda>sentinel.
        if control = sentinel then done_with (Ok None)
        else and_then (done_with (world_object control)) (\<lambda>control.
          and_then (read_u64 be (identity_get control)) (\<lambda>object.
            if object = 0 then done_with (Ok None)
            else and_then (done_with (world_object object)) (\<lambda>object.
              done_with (Ok (Some \<lparr>so_control = control, so_object = object\<rparr>)))))))"

definition shared_field ::
  "'m backend \<Rightarrow> SharedObject \<Rightarrow> ObjectOffset \<Rightarrow> ('m TargetReader, SharedObject option, TargetError) attempt" where
  "shared_field be owner offset = and_then (read_object_u64 be (identity_get (so_object owner)) offset) (shared be)"

definition require_vtable :: "'m backend \<Rightarrow> SharedObject \<Rightarrow> Rva \<Rightarrow> ('m TargetReader, unit, TargetError) attempt" where
  "require_vtable be object vtable =
     and_then (read_u64 be (identity_get (so_object object))) (\<lambda>actual.
       of_reader (\<lambda>r. require_module_pointer r actual vtable ''world object vtable''))"

text \<open>A field of an object that may be missing, after the object has been checked.\<close>

definition field_of ::
  "SharedObject option \<Rightarrow> (SharedObject \<Rightarrow> ('m TargetReader, unit, TargetError) attempt) \<Rightarrow> ObjectOffset \<Rightarrow> 'm backend \<Rightarrow>
   ('m TargetReader, SharedObject option, TargetError) attempt" where
  "field_of owner check offset be =
     (case owner of
        None \<Rightarrow> done_with (Ok None)
      | Some object \<Rightarrow> and_then (check object) (\<lambda>_. shared_field be object offset))"

definition world_client :: "'m backend \<Rightarrow> ('m TargetReader, SharedObject option, TargetError) attempt" where
  "world_client be =
     and_then (read_module be CLIENT_ROOT 8) (\<lambda>bytes.
     and_then (shared be (from_le bytes)) (\<lambda>client.
       (case client of
          None \<Rightarrow> done_with (Ok None)
        | Some object \<Rightarrow> and_then (require_vtable be object CLIENT_VTABLE) (\<lambda>_. done_with (Ok (Some object))))))"

definition check_region :: "'m backend \<Rightarrow> SharedObject \<Rightarrow> ('m TargetReader, unit, TargetError) attempt" where
  "check_region be region =
     and_then (require_vtable be region REGION_VTABLE) (\<lambda>_.
       require_vtable_slot_le64 be (identity_get (so_object region)) (VtableSlot 0x300) RULES_GETTER ''region rules getter'')"

definition resolve_world :: "'m backend \<Rightarrow> ('m TargetReader, WorldIdentity, TargetError) attempt" where
  "resolve_world be =
     and_then (world_client be) (\<lambda>client.
     and_then (field_of client (\<lambda>_. done_with (Ok ())) (ObjectOffset 0x788) be) (\<lambda>context'.
     and_then (field_of context' (\<lambda>object. require_vtable be object CONTEXT_VTABLE) (ObjectOffset 0x120) be) (\<lambda>region.
     and_then (field_of region (check_region be) (ObjectOffset 0x240) be) (\<lambda>rules.
     done_with (Ok \<lparr>wi_client = client, wi_context = context', wi_region = region, wi_rules = rules\<rparr>)))))"

definition validate_client :: "'m backend \<Rightarrow> ('m TargetReader, unit, TargetError) attempt" where
  "validate_client be =
     and_then (read_module be CLIENT_INSTALLER 12) (\<lambda>code.
       done_with (if take 8 code \<noteq> [0xB9, 2, 0, 0, 0, 0x48, 0x8D, 5] \<or> rip_target CLIENT_INSTALLER 12 (drop 8 code) \<noteq> Some CLIENT_STORAGE
            \<or> rva_checked_add CLIENT_STORAGE 0xB0 \<noteq> Some CLIENT_ROOT
         then Err (LayoutMismatch ''client root installer'') else Ok ()))"

definition validate_rules :: "'m backend \<Rightarrow> ('m TargetReader, unit, TargetError) attempt" where
  "validate_rules be =
     and_then (read_module be RULES_GETTER 11) (\<lambda>getter.
       if getter \<noteq> [0x48, 0x8B, 0x81, 0x40, 2, 0, 0, 0x48, 0x8B, 0, 0xC3] then done_with (Err (LayoutMismatch ''region rules field''))
       else and_then (read_module be MISSION_REFERENCE 10) (\<lambda>code.
         done_with (if take 3 code \<noteq> [0x48, 0x8D, 5] \<or> rip_target MISSION_REFERENCE 7 (take 4 (drop 3 code)) \<noteq> Some MISSION_VTABLE
              \<or> drop 7 code \<noteq> [0x48, 0x89, 6]
           then Err (LayoutMismatch ''mission rules constructor'') else Ok ())))"

text \<open>An object is known only below the ones it is reached through.\<close>

definition world_chain :: "WorldIdentity \<Rightarrow> bool" where
  "world_chain w \<longleftrightarrow>
     (wi_client w = None \<longrightarrow> wi_context w = None) \<and> (wi_context w = None \<longrightarrow> wi_region w = None) \<and> (wi_region w = None \<longrightarrow> wi_rules w = None)"

lemma field_of_None: "field_of None check offset be r = (r', Ok x) \<Longrightarrow> x = None"
  by (simp add: field_of_def)

lemma resolve_world_chain: "resolve_world be r = (r', Ok w) \<Longrightarrow> world_chain w"
  by (auto simp: resolve_world_def and_then_Ok world_chain_def dest: field_of_None)

end
