(* ===== verification/Screen_Topic.thy ===== *)
theory Screen_Topic
  imports World_Objects Session_Checks
begin

section \<open>Visible screens\<close>

text \<open>
  \<open>model/src/screens.rs\<close>, \<open>provider/src/topics/screens.rs\<close> and \<open>session/screen_demand.rs\<close>: which interface
  movies are visible, and when to look.
\<close>

subsection \<open>Screens\<close>

datatype Screen = Loadout | Navigation | Progress | RelicRewards | Other_screen string

fun screen_rank :: "Screen \<Rightarrow> nat \<times> string" where
  "screen_rank Loadout = (0, [])"
| "screen_rank Navigation = (1, [])"
| "screen_rank Progress = (2, [])"
| "screen_rank RelicRewards = (3, [])"
| "screen_rank (Other_screen path) = (4, path)"

lemma screen_rank_inject: "screen_rank a = screen_rank b \<longleftrightarrow> a = b"
  by (cases a; cases b) auto

text \<open>The derived order: by variant, then by path.\<close>

instantiation Screen :: linorder
begin

definition less_eq_Screen :: "Screen \<Rightarrow> Screen \<Rightarrow> bool" where
  "less_eq_Screen a b \<longleftrightarrow> screen_rank a \<le> screen_rank b"

definition less_Screen :: "Screen \<Rightarrow> Screen \<Rightarrow> bool" where
  "less_Screen a b \<longleftrightarrow> screen_rank a < screen_rank b"

instance
  by intro_classes
    (auto simp: less_eq_Screen_def less_Screen_def less_le_not_le screen_rank_inject dest: antisym
      simp del: less_eq_prod_simp less_prod_simp)

end

definition from_asset_path :: "string \<Rightarrow> Screen" where
  "from_asset_path path =
     (if path = ''/Lotus/Interface/LoadOutRedux.swf'' then Loadout
      else if path = ''/Lotus/Interface/MapRedux.swf'' then Navigation
      else if path = ''/Lotus/Interface/Progress.swf'' then Progress
      else if path = ''/Lotus/Interface/ProjectionRewardChoice.swf'' then RelicRewards
      else Other_screen path)"

definition ends_with :: "string \<Rightarrow> string \<Rightarrow> bool" where
  "ends_with p s \<longleftrightarrow> starts_with (rev p) (rev s)"

text \<open>Collecting into a \<open>BTreeSet\<close>: the distinct elements in order.\<close>

definition bt_set :: "'a::linorder list \<Rightarrow> 'a list" where
  "bt_set xs = map fst (bt_collect (map (\<lambda>x. (x, ())) xs))"

subsection \<open>Reading the movies\<close>

definition OVERLAY_VTABLE :: Rva where "OVERLAY_VTABLE = Rva 0x021EF380"
definition FLASH_VTABLE :: Rva where "FLASH_VTABLE = Rva 0x021EE588"
definition MOVIE_VTABLE :: Rva where "MOVIE_VTABLE = Rva 0x021ED0C0"
definition VISIBILITY :: Rva where "VISIBILITY = Rva 0x0178E190"
definition SCREEN_VECTOR :: ObjectOffset where "SCREEN_VECTOR = ObjectOffset 0xD0"
definition MAX_MOVIES :: usize where "MAX_MOVIES = 128"

record UiIdentity =
  ui_client :: "SharedObject option"
  ui_overlay :: "SharedObject option"
  ui_flash :: "SharedObject option"

record ScreenSample =
  sa_owner :: UiIdentity
  sa_screens :: "Screen list"
  sa_visible_movies :: "(SharedObject \<times> SharedObject \<times> Screen) list"

definition resolve_ui :: "'m backend \<Rightarrow> ('m TargetReader, UiIdentity, TargetError) attempt" where
  "resolve_ui be =
     and_then (world_client be) (\<lambda>client.
     and_then (field_of client (\<lambda>_. done_with (Ok ())) (ObjectOffset 0x5E0) be) (\<lambda>overlay.
     and_then (field_of overlay (\<lambda>object. require_vtable be object OVERLAY_VTABLE) (ObjectOffset 0x48) be) (\<lambda>flash.
     and_then (case flash of None \<Rightarrow> done_with (Ok ()) | Some object \<Rightarrow> require_vtable be object FLASH_VTABLE) (\<lambda>_.
     done_with (Ok \<lparr>ui_client = client, ui_overlay = overlay, ui_flash = flash\<rparr>)))))"

definition screen_flag :: "'m backend \<Rightarrow> u64 \<Rightarrow> u32 \<Rightarrow> ('m TargetReader, bool, TargetError) attempt" where
  "screen_flag be object offset =
     and_then (read_object_u8 be object (ObjectOffset offset)) (\<lambda>flag.
       done_with (if flag = 0 then Ok False else if flag = 1 then Ok True else Err (InvalidData ''screen visibility flag'')))"

definition asset_path :: "u8 list \<Rightarrow> (string, TargetError) result" where
  "asset_path bytes =
     (case find_index (\<lambda>b. b = 0) bytes of
        None \<Rightarrow> Err (SourceLimit ''screen asset path'')
      | Some end' \<Rightarrow>
        (let path = string_of_bytes (take end' bytes)
         in if \<not> valid_utf8 (take end' bytes) then Err (InvalidData ''screen asset UTF-8'')
            else if \<not> starts_with ''/Lotus/Interface/'' path \<or> \<not> ends_with ''.swf'' path then Err (InvalidData ''screen asset path'')
            else Ok path))"

text \<open>One movie: \<open>None\<close> if it is not visible.\<close>

definition visible_movie :: "'m backend \<Rightarrow> u64 \<Rightarrow> ('m TargetReader, (SharedObject \<times> SharedObject \<times> Screen) option, TargetError) attempt" where
  "visible_movie be control =
     and_then (shared be control) (\<lambda>found.
       (case found of
          None \<Rightarrow> done_with (Ok None)
        | Some movie \<Rightarrow>
          (let address = identity_get (so_object movie)
           in and_then (require_vtable be movie MOVIE_VTABLE) (\<lambda>_.
              and_then (screen_flag be address 0xFA) (\<lambda>shown.
              and_then (if shown then screen_flag be address 0x118 else done_with (Ok True)) (\<lambda>hidden.
                if \<not> shown \<or> hidden then done_with (Ok None)
                else and_then (shared_field be movie (ObjectOffset 0x140)) (\<lambda>owner.
                  (case owner of
                     None \<Rightarrow> done_with (Ok None)
                   | Some movie_owner \<Rightarrow>
                     and_then (screen_flag be address 0x5440) (\<lambda>suppressed.
                       if suppressed then done_with (Ok None)
                       else and_then (read_object_u64 be address (ObjectOffset 0x120)) (\<lambda>path.
                         and_then (read_at be path 256) (\<lambda>bytes.
                           done_with (rbind (asset_path bytes) (\<lambda>path. Ok (Some (movie, movie_owner, from_asset_path path))))))))))))))) "

fun visible_movies :: "'m backend \<Rightarrow> u8 list list \<Rightarrow> ('m TargetReader, (SharedObject \<times> SharedObject \<times> Screen) list, TargetError) attempt" where
  "visible_movies be [] = done_with (Ok [])"
| "visible_movies be (control # controls) =
     and_then (visible_movie be (from_le control)) (\<lambda>movie.
     and_then (visible_movies be controls) (\<lambda>rest.
     done_with (Ok (case movie of None \<Rightarrow> rest | Some m \<Rightarrow> m # rest))))"

definition screen_vector_bounds :: "u8 list \<Rightarrow> (u64 \<times> usize, TargetError) result" where
  "screen_vector_bounds header =
     (let pointer = from_le (take 8 header);
          len = unat (from_le (take 4 (drop 8 header)) :: u32);
          capacity = unat (from_le (take 4 (drop 12 header)) :: u32)
      in if capacity < len \<or> MAX_MOVIES * 8 < capacity \<or> len mod 8 \<noteq> 0 \<or> capacity mod 8 \<noteq> 0 \<or> capacity \<noteq> 0 \<and> pointer = 0
         then Err (InvalidData ''screen vector bounds'')
         else if pointer \<noteq> 0 then rbind (world_object pointer) (\<lambda>_. Ok (pointer, len)) else Ok (pointer, len))"

definition flash_movies :: "'m backend \<Rightarrow> SharedObject \<Rightarrow> ('m TargetReader, (SharedObject \<times> SharedObject \<times> Screen) list, TargetError) attempt" where
  "flash_movies be flash =
     and_then (read_object be (identity_get (so_object flash)) SCREEN_VECTOR 16) (\<lambda>header.
     and_then (done_with (screen_vector_bounds header)) (\<lambda>(pointer, len).
     and_then (read_at be pointer len) (\<lambda>controls.
     and_then (visible_movies be (chunks8 controls)) (\<lambda>movies.
     and_then (read_object be (identity_get (so_object flash)) SCREEN_VECTOR 16) (\<lambda>again.
     done_with (if again \<noteq> header then Err (Unstable ''screen vector'') else Ok movies))))))"

definition screens_read_once :: "'m backend \<Rightarrow> ('m TargetReader, ScreenSample, TargetError) attempt" where
  "screens_read_once be =
     and_then (resolve_ui be) (\<lambda>owner.
     and_then (case ui_flash owner of None \<Rightarrow> done_with (Ok []) | Some flash \<Rightarrow> flash_movies be flash) (\<lambda>movies.
     and_then (resolve_ui be) (\<lambda>again.
     done_with (if again \<noteq> owner then Err (Unstable ''screen owner'')
       else Ok \<lparr>sa_owner = owner, sa_screens = bt_set (map (\<lambda>(_, _, screen). screen) movies), sa_visible_movies = movies\<rparr>))))"

definition screens_read :: "'m backend \<Rightarrow> ('m TargetReader, ScreenSample, TargetError) attempt" where
  "screens_read be = read_stable (screens_read_once be) (Unstable ''visible screens'')"

definition screens_validate :: "'m backend \<Rightarrow> ('m TargetReader, unit, TargetError) attempt" where
  "screens_validate be =
     and_then (done_with (ok_or (rva_checked_add MOVIE_VTABLE 0x770) (SourceOverflow ''movie visibility method''))) (\<lambda>slot.
     and_then (read_module be slot 8) (\<lambda>method'.
     and_then (of_reader (\<lambda>r. require_module_pointer r (from_le method') VISIBILITY ''movie visibility method'')) (\<lambda>_.
     and_then (read_module be VISIBILITY 46) (\<lambda>code.
     done_with (if code \<noteq> [0x80, 0xB9, 0x40, 0x54, 0, 0, 0, 0x75, 0x22, 0x80, 0xB9, 0x18, 1, 0, 0, 0, 0x75, 0x0D,
           0x48, 0x8B, 0x81, 0x40, 1, 0, 0, 0x48, 0x83, 0x38, 0, 0x74, 0x0C, 0x80, 0xB9, 0xFA, 0,
           0, 0, 0, 0x74, 3, 0xB0, 1, 0xC3, 0x32, 0xC0, 0xC3]
       then Err (LayoutMismatch ''movie visibility fields'') else Ok ())))))"

subsection \<open>When to look\<close>

datatype Consumer = Screens_consumer | RelicRewards_consumer

datatype ScreenCondition = Any_screen | Visible Screen

record ScreenRequirement =
  sr_condition :: ScreenCondition
  sr_preferred_interval :: duration

type_synonym SourcePlan = "(Consumer \<times> ScreenRequirement) list"

definition require_screens :: "Consumer \<Rightarrow> ScreenRequirement \<Rightarrow> SourcePlan \<Rightarrow> SourcePlan" where
  "require_screens consumer requirement plan = plan @ [(consumer, requirement)]"

fun plan_interval :: "SourcePlan \<Rightarrow> duration option" where
  "plan_interval [] = None"
| "plan_interval ((_, request) # plan) =
     Some (case plan_interval plan of None \<Rightarrow> sr_preferred_interval request | Some d \<Rightarrow> min (sr_preferred_interval request) d)"

definition plan_matches :: "SourcePlan \<Rightarrow> Consumer \<Rightarrow> Screen list \<Rightarrow> bool" where
  "plan_matches plan consumer screens \<longleftrightarrow>
     list_ex (\<lambda>(who, request). who = consumer
       \<and> (case sr_condition request of Any_screen \<Rightarrow> True | Visible screen \<Rightarrow> screen \<in> set screens)) plan"

record ScreenSource =
  ss_plan :: SourcePlan
  ss_next :: "duration option"
  ss_last :: "duration option"

definition source_default :: ScreenSource where
  "source_default = \<lparr>ss_plan = [], ss_next = None, ss_last = None\<rparr>"

definition source_update :: "SourcePlan \<Rightarrow> duration \<Rightarrow> ScreenSource \<Rightarrow> ScreenSource" where
  "source_update plan now s =
     (let interval = plan_interval plan;
          s' = (if interval = None then s\<lparr>ss_next := None, ss_last := None\<rparr>
                else if plan \<noteq> ss_plan s
                then s\<lparr>ss_next := Some (if list_ex (\<lambda>request. request \<notin> set (ss_plan s)) plan then now
                  else max (duration_saturating_add (case ss_last s of None \<Rightarrow> now | Some t \<Rightarrow> t)
                             (case interval of None \<Rightarrow> 0 | Some d \<Rightarrow> d)) now)\<rparr>
                else s)
      in s'\<lparr>ss_plan := plan\<rparr>)"

definition source_wake :: "ScreenSource \<Rightarrow> ScreenSource" where
  "source_wake s = (if ss_next s = None then s else s\<lparr>ss_next := Some 0\<rparr>)"

definition source_due :: "duration \<Rightarrow> ScreenSource \<Rightarrow> bool" where
  "source_due now s \<longleftrightarrow> (case ss_next s of None \<Rightarrow> False | Some at \<Rightarrow> at \<le> now)"

definition source_sampled :: "duration \<Rightarrow> ScreenSource \<Rightarrow> ScreenSource" where
  "source_sampled now s =
     s\<lparr>ss_last := Some now, ss_next := map_option (\<lambda>interval. duration_saturating_add now interval) (plan_interval (ss_plan s))\<rparr>"

definition source_defer :: "duration \<Rightarrow> ScreenSource \<Rightarrow> ScreenSource" where
  "source_defer until s = s\<lparr>ss_next := Some until\<rparr>"

lemma plan_interval_None [simp]: "plan_interval plan = None \<longleftrightarrow> plan = []"
  by (cases plan rule: plan_interval.cases) auto

lemma plan_interval_least: "request \<in> set plan \<Longrightarrow> \<exists>d. plan_interval plan = Some d \<and> d \<le> sr_preferred_interval (snd request)"
  by (induction plan rule: plan_interval.induct) (auto split: option.splits simp: min_def)

text \<open>A source is scheduled exactly while somebody needs it, and a new requirement is looked at now.\<close>

lemma source_update_next: "ss_next (source_update plan now s) = None \<longleftrightarrow> plan = [] \<or> plan = ss_plan s \<and> ss_next s = None"
  by (auto simp: source_update_def Let_def)

lemma source_update_new: "request \<in> set plan \<Longrightarrow> request \<notin> set (ss_plan s) \<Longrightarrow> source_due now (source_update plan now s)"
  by (auto simp: source_update_def source_due_def Let_def list_ex_iff)

end
