(* ===== verification/Player_Topic.thy ===== *)
theory Player_Topic
  imports Account_Roots
begin

section \<open>The player's name\<close>

text \<open>
  \<open>model/src/player_name.rs\<close>, \<open>model/src/player.rs\<close> and \<open>provider/src/topics/player\<close>: the active profile's
  preferred name, or its fallback when that is empty.
\<close>

datatype PlayerName = PlayerName (name_text: string)

definition player_name_new :: "string \<Rightarrow> (PlayerName, unit) result" where
  "player_name_new value =
     (if value = [] \<or> 128 < length value \<or> CHR 0x00 \<in> set value then Err () else Ok (PlayerName value))"

record PlayerSnapshot =
  ps_account_id :: AccountId
  ps_username :: PlayerName

record PlayerFacts =
  yf_getter :: Rva
  yf_slot :: VtableSlot
  yf_fallback :: ObjectOffset
  yf_preferred :: ObjectOffset

definition PLAYER_FACTS :: PlayerFacts where
  "PLAYER_FACTS = \<lparr>yf_getter = Rva 0x01460580, yf_slot = VtableSlot 8, yf_fallback = ObjectOffset 0x40, yf_preferred = ObjectOffset 0x50\<rparr>"

text \<open>\<open>TargetReader::new\<close> on the process memory for one acquisition.\<close>

definition with_target_reader ::
  "('m TargetReader, 'a, TargetError) attempt \<Rightarrow> u64 \<Rightarrow> u32 \<Rightarrow> ('m, 'a, TargetError) attempt" where
  "with_target_reader run module_base image_size memory =
     (case target_reader_new memory module_base image_size READ_LIMITS of
        Err e \<Rightarrow> (memory, Err e)
      | Ok r \<Rightarrow> (case run r of (r', result) \<Rightarrow> (rd_memory r', result)))"

definition read_username :: "'m backend \<Rightarrow> u64 \<Rightarrow> ('m TargetReader, PlayerName, TargetError) attempt" where
  "read_username be profile =
     and_then (read_string be profile (yf_preferred PLAYER_FACTS) 128) (\<lambda>preferred.
     and_then (if preferred = [] then read_string be profile (yf_fallback PLAYER_FACTS) 128 else done_with (Ok preferred)) (\<lambda>name.
     done_with (map_err (\<lambda>_. InvalidData ''player name'') (player_name_new (player_name name)))))"

definition read_player :: "'m backend \<Rightarrow> u64 \<Rightarrow> u32 \<Rightarrow> AccountIdentity \<Rightarrow> ('m, PlayerSnapshot, TargetError) attempt" where
  "read_player be base image_size login =
     with_target_reader
       (let profile = identity_get (ai_profile login)
        in and_then (require_vtable_slot_le64 be profile (yf_slot PLAYER_FACTS) (yf_getter PLAYER_FACTS) ''player name getter'') (\<lambda>_.
           and_then (read_stable (read_username be profile) (Unstable ''player name'')) (\<lambda>username.
           done_with (Ok \<lparr>ps_account_id = ai_account_id login, ps_username = username\<rparr>))))
       base image_size"

definition player_getter_code :: "u8 \<Rightarrow> u8 \<Rightarrow> u8 list" where
  "player_getter_code fallback preferred =
     (let marker = preferred + 15
      in [0x84, 0xD2, 0x75, 0x37, 0x0F, 0xB6, 0x41, marker, 0x48, 0x8D, 0x51, preferred, 0x3C,
          0xFF, 0x75, 0x19, 0x8B, 0x42, 0x08, 0x48, 0xA9, 0xFF, 0xFF, 0xFF, 0x0F, 0x48, 0x8D,
          0x41, fallback, 0x41, 0x0F, 0x94, 0xC0, 0x45, 0x84, 0xC0, 0x48, 0x0F, 0x44, 0xC2, 0xC3,
          0x3C, 0x0F, 0x48, 0x8D, 0x41, fallback, 0x41, 0x0F, 0x94, 0xC0, 0x45, 0x84, 0xC0, 0x48,
          0x0F, 0x44, 0xC2, 0xC3, 0x48, 0x8D, 0x41, fallback, 0xC3])"

definition u8_try_from :: "u32 \<Rightarrow> u8 option" where
  "u8_try_from w = (if w < 256 then Some (ucast w) else None)"

definition validate_player_layout :: "'m backend \<Rightarrow> u64 \<Rightarrow> u32 \<Rightarrow> ('m, unit, TargetError) attempt" where
  "validate_player_layout be =
     with_target_reader
       (and_then (done_with (ok_or (u8_try_from (offset_get (yf_fallback PLAYER_FACTS))) (LayoutMismatch ''player name''))) (\<lambda>fallback.
        and_then (done_with (ok_or (u8_try_from (offset_get (yf_preferred PLAYER_FACTS))) (LayoutMismatch ''player name''))) (\<lambda>preferred.
        and_then (done_with (ok_or (checked_add preferred 15) (LayoutMismatch ''player name''))) (\<lambda>_.
        and_then (read_module be (yf_getter PLAYER_FACTS) 64) (\<lambda>code.
        done_with (if code \<noteq> player_getter_code fallback preferred then Err (LayoutMismatch ''player name getter'') else Ok ()))))))"

lemma with_target_reader_Ok:
  "with_target_reader run base image_size m = (m', Ok x) \<Longrightarrow> \<exists>r r'. run r = (r', Ok x)"
  by (auto simp: with_target_reader_def split: result.splits prod.splits)

lemma read_player_account:
  "read_player be base image_size login m = (m', Ok player) \<Longrightarrow>
     ps_account_id player = ai_account_id login \<and> name_text (ps_username player) \<noteq> [] \<and> length (name_text (ps_username player)) \<le> 128"
  by (auto simp: read_player_def Let_def and_then_Ok read_username_def player_name_new_def
      dest!: with_target_reader_Ok read_stable_Ok split: if_splits)

end
