(* ===== verification/Session_State.thy ===== *)
theory Session_State
  imports Screen_Topic Player_Topic Chat_Delivery
begin

section \<open>The state of a Warframe session\<close>

text \<open>
  \<open>crates/games/warframe/provider/src/session\<close>: the state one attachment keeps between polls, and the
  operations every part of a poll is made of. A poll runs on \<open>Polling\<close>: the session, the process
  memory it reads and the sink calls it has made.

  The decoders of the data topics and of the relic picker, and the instruction checks of their
  layouts, are the fields of \<open>Readers\<close>, as are the process (\<open>ProcessMemory\<close>), \<open>serde_json::to_value\<close>,
  the text of an acquisition error and the answers of the host's sinks. Everything that decides whether, when and for whom they are
  called is defined here.
\<close>

subsection \<open>Topics\<close>

datatype AccountTopic = INVENTORY | CURRENCIES | PLAYER | CHAT | MASTERY | INTRINSICS | STAR_CHART

definition capability :: "string \<Rightarrow> SnapshotDelivery option \<Rightarrow> bool \<Rightarrow> SdkCapability" where
  "capability name snapshots events = \<lparr>sc_topic = name, sc_schema_version = 1, sc_snapshots = snapshots, sc_events = events\<rparr>"

fun account_cap :: "AccountTopic \<Rightarrow> SdkCapability" where
  "account_cap INVENTORY = capability ''warframe.inventory'' (Some Delta_delivery) False"
| "account_cap CURRENCIES = capability ''warframe.currencies'' (Some Full_delivery) False"
| "account_cap PLAYER = capability ''warframe.player'' (Some Full_delivery) False"
| "account_cap CHAT = capability ''warframe.chat'' None True"
| "account_cap MASTERY = capability ''warframe.mastery'' (Some Delta_delivery) False"
| "account_cap INTRINSICS = capability ''warframe.intrinsics'' (Some Full_delivery) False"
| "account_cap STAR_CHART = capability ''warframe.star_chart'' (Some Delta_delivery) False"

definition SCREENS_CAP :: SdkCapability where
  "SCREENS_CAP = capability ''warframe.screens'' (Some Full_delivery) False"

definition RELIC_REWARDS_CAP :: SdkCapability where
  "RELIC_REWARDS_CAP = capability ''warframe.relic_rewards'' (Some Full_delivery) False"

definition account_topics :: "AccountTopic list" where
  "account_topics = [INVENTORY, CURRENCIES, PLAYER, CHAT, MASTERY, INTRINSICS, STAR_CHART]"

definition data_topics :: "AccountTopic list" where
  "data_topics = [INVENTORY, CURRENCIES, CHAT, MASTERY, INTRINSICS, STAR_CHART]"

definition WARFRAME_CAPABILITIES :: "SdkCapability list" where
  "WARFRAME_CAPABILITIES =
     [account_cap INVENTORY, account_cap CURRENCIES, account_cap PLAYER, account_cap CHAT, SCREENS_CAP, RELIC_REWARDS_CAP,
      account_cap MASTERY, account_cap INTRINSICS, account_cap STAR_CHART]"

definition demanded_in :: "SdkCapability list \<Rightarrow> SdkCapability \<Rightarrow> bool" where
  "demanded_in demand cap \<longleftrightarrow> list_ex (\<lambda>wanted. sc_topic wanted = sc_topic cap \<and> sc_schema_version wanted = sc_schema_version cap) demand"

subsection \<open>State\<close>

record TopicState =
  tt_layout :: "unit CachedCheck"
  tt_demanded :: bool
  tt_next_poll :: duration

definition topic_state_default :: TopicState where
  "topic_state_default = \<lparr>tt_layout = Unchecked, tt_demanded = False, tt_next_poll = 0\<rparr>"

definition topic_demand :: "bool \<Rightarrow> duration \<Rightarrow> TopicState \<Rightarrow> TopicState" where
  "topic_demand demanded now t =
     (let t' = (if demanded \<and> \<not> tt_demanded t then t\<lparr>tt_next_poll := now\<rparr> else t) in t'\<lparr>tt_demanded := demanded\<rparr>)"

definition topic_due :: "duration \<Rightarrow> TopicState \<Rightarrow> bool" where
  "topic_due now t \<longleftrightarrow> tt_demanded t \<and> tt_next_poll t \<le> now"

record SharedLayouts =
  sl_account :: "unit CachedCheck"
  sl_profile_data :: "unit CachedCheck"
  sl_profile_commit :: "unit CachedCheck"
  sl_client :: "unit CachedCheck"
  sl_world :: "unit CachedCheck"
  sl_strings :: "unit CachedCheck"
  sl_items :: "unit CachedCheck"
  sl_inventory_owner :: "unit CachedCheck"

definition shared_layouts_default :: SharedLayouts where
  "shared_layouts_default =
     \<lparr>sl_account = Unchecked, sl_profile_data = Unchecked, sl_profile_commit = Unchecked, sl_client = Unchecked, sl_world = Unchecked,
      sl_strings = Unchecked, sl_items = Unchecked, sl_inventory_owner = Unchecked\<rparr>"

record RelicOwner =
  ro_login :: AccountIdentity
  ro_world :: WorldIdentity
  ro_ui :: UiIdentity

record VisualTopics =
  vt_source :: ScreenSource
  vt_screens_demanded :: bool
  vt_relic_demanded :: bool
  vt_screen_layout :: "unit CachedCheck"
  vt_relic_layout :: "unit CachedCheck"
  vt_relic_retry :: duration
  vt_relic_read_delay :: duration
  vt_ui :: "UiIdentity option"
  vt_owner :: "RelicOwner option"

definition visual_default :: VisualTopics where
  "visual_default =
     \<lparr>vt_source = source_default, vt_screens_demanded = False, vt_relic_demanded = False, vt_screen_layout = Unchecked,
      vt_relic_layout = Unchecked, vt_relic_retry = 0, vt_relic_read_delay = 0, vt_ui = None, vt_owner = None\<rparr>"

record ChatEvent =
  ce_account_id :: AccountId
  ce_update :: ChatUpdate

record PendingChat =
  pc_history :: "History option"
  pc_cursor :: ChatCursor
  pc_events :: "ChatEvent list"
  pc_more :: bool

text \<open>\<open>WarframeSession\<close>; the seven topic fields are one function, and the item and string caches are \<open>'c\<close>.\<close>

record 'c WarframeSession =
  ws_visual :: VisualTopics
  ws_executable :: "Executable CachedCheck"
  ws_build_name :: "ExecutableFingerprint option"
  ws_layouts :: SharedLayouts
  ws_topics :: "AccountTopic \<Rightarrow> TopicState"
  ws_login :: "AccountIdentity option"
  ws_profile_data :: "ProfileDataIdentity option"
  ws_caches :: 'c
  ws_chat_history :: "History option"
  ws_chat_cursor :: ChatCursor
  ws_pending_chat :: "PendingChat option"
  ws_chat_staged :: bool

definition session_default :: "'c \<Rightarrow> 'c WarframeSession" where
  "session_default caches =
     \<lparr>ws_visual = visual_default, ws_executable = Unchecked, ws_build_name = None, ws_layouts = shared_layouts_default,
      ws_topics = (\<lambda>_. topic_state_default), ws_login = None, ws_profile_data = None, ws_caches = caches,
      ws_chat_history = None, ws_chat_cursor = chat_cursor_default, ws_pending_chat = None, ws_chat_staged = False\<rparr>"

record ('c, 'm, 'v) Polling =
  pl_session :: "'c WarframeSession"
  pl_memory :: 'm
  pl_calls :: "'v sink_call list"

subsection \<open>What a poll relies on\<close>

datatype 'choice RelicRewardPicker = Picker_closed | Picker_open "'choice list"

record 'choice RelicRewardsSnapshot =
  rs_account_id :: AccountId
  rs_picker :: "'choice RelicRewardPicker"

datatype ('d, 'choice) Published =
    Published_data 'd
  | Published_player PlayerSnapshot
  | Published_chat ChatEvent
  | Published_screens "Screen list"
  | Published_relic "'choice RelicRewardsSnapshot"

record ('c, 'm, 'v, 'd, 'choice) Readers =
  wr_backend :: "'m backend"
  wr_executable :: string
  wr_modules :: "('m, MemoryModule list, string) attempt"
  wr_inventory_owner :: "Executable \<Rightarrow> ('m, unit, SdkUnavailableReason) attempt"
  wr_profile_commit :: "Executable \<Rightarrow> ('m, unit, SdkUnavailableReason) attempt"
  wr_string_pool :: "Executable \<Rightarrow> ('m, unit, SdkUnavailableReason) attempt"
  wr_item_types :: "Executable \<Rightarrow> ('m, unit, SdkUnavailableReason) attempt"
  wr_relic_layout :: "Executable \<Rightarrow> ('m, unit, SdkUnavailableReason) attempt"
  wr_topic_layout :: "AccountTopic \<Rightarrow> Executable \<Rightarrow> ('m, unit, SdkUnavailableReason) attempt"
  wr_sample :: "AccountTopic \<Rightarrow> Executable \<Rightarrow> ProfileDataIdentity \<Rightarrow> ('m \<times> 'c, 'd, SdkUnavailableReason) attempt"
  wr_relic_choices :: "SharedObject \<Rightarrow> AccountId \<Rightarrow> Executable \<Rightarrow> ('m \<times> 'c, 'choice list, TargetError) attempt"
  wr_to_value :: "('d, 'choice) Published \<Rightarrow> ('v, string) result"
  wr_error_text :: "TargetError \<Rightarrow> string"
  wr_host :: "'v sink_call list \<Rightarrow> 'v sink_call \<Rightarrow> (unit, ProviderError) result"

subsection \<open>Steps of a poll\<close>

definition session_update :: "('c WarframeSession \<Rightarrow> 'c WarframeSession) \<Rightarrow> ('c, 'm, 'v) Polling \<Rightarrow> ('c, 'm, 'v) Polling" where
  "session_update f st = st\<lparr>pl_session := f (pl_session st)\<rparr>"

definition gets :: "('c WarframeSession \<Rightarrow> 'a) \<Rightarrow> (('c, 'm, 'v) Polling, 'a, 'e) attempt" where
  "gets f st = (st, Ok (f (pl_session st)))"

definition modify :: "('c WarframeSession \<Rightarrow> 'c WarframeSession) \<Rightarrow> (('c, 'm, 'v) Polling, unit, 'e) attempt" where
  "modify f st = (session_update f st, Ok ())"

text \<open>An outcome as a value, where the code inspects a \<open>Result\<close> instead of returning its error.\<close>

definition outcome_of :: "('s, 'a, 'e) attempt \<Rightarrow> ('s, ('a, 'e) result, 'f) attempt" where
  "outcome_of m s = (case m s of (s', r) \<Rightarrow> (s', Ok r))"

fun each_of :: "'a list \<Rightarrow> ('a \<Rightarrow> ('s, unit, 'e) attempt) \<Rightarrow> ('s, unit, 'e) attempt" where
  "each_of [] f = done_with (Ok ())"
| "each_of (x # xs) f = and_then (f x) (\<lambda>_. each_of xs f)"

definition on_memory :: "('m, 'a, 'e) attempt \<Rightarrow> (('c, 'm, 'v) Polling, 'a, 'e) attempt" where
  "on_memory m st = (case m (pl_memory st) of (mem, r) \<Rightarrow> (st\<lparr>pl_memory := mem\<rparr>, r))"

definition on_caches :: "('m \<times> 'c, 'a, 'e) attempt \<Rightarrow> (('c, 'm, 'v) Polling, 'a, 'e) attempt" where
  "on_caches m st =
     (case m (pl_memory st, ws_caches (pl_session st)) of
        ((mem, caches), r) \<Rightarrow> (session_update (\<lambda>s. s\<lparr>ws_caches := caches\<rparr>) (st\<lparr>pl_memory := mem\<rparr>), r))"

definition emit :: "('c, 'm, 'v, 'd, 'choice) Readers \<Rightarrow> 'v sink_call \<Rightarrow> (('c, 'm, 'v) Polling, unit, ProviderError) attempt" where
  "emit R call st = (st\<lparr>pl_calls := pl_calls st @ [call]\<rparr>, wr_host R (pl_calls st) call)"

definition to_payload :: "('c, 'm, 'v, 'd, 'choice) Readers \<Rightarrow> ('d, 'choice) Published \<Rightarrow> ('v, ProviderError) result" where
  "to_payload R x = map_err Failed_provider (wr_to_value R x)"

definition publish :: "('c, 'm, 'v, 'd, 'choice) Readers \<Rightarrow> SdkCapability \<Rightarrow> ('d, 'choice) Published \<Rightarrow> (('c, 'm, 'v) Polling, unit, ProviderError) attempt" where
  "publish R cap x = and_then (done_with (to_payload R x)) (\<lambda>payload. emit R (Call_Snapshot cap payload))"

text \<open>A cached check stored somewhere in the session, run on the process memory.\<close>

definition cached_ensure ::
  "('c WarframeSession \<Rightarrow> 'a CachedCheck) \<Rightarrow> ('a CachedCheck \<Rightarrow> 'c WarframeSession \<Rightarrow> 'c WarframeSession) \<Rightarrow> duration \<Rightarrow>
   ('m, 'a, SdkUnavailableReason) attempt \<Rightarrow> (('c, 'm, 'v) Polling, 'a, Retry) attempt" where
  "cached_ensure get put now check st =
     (case check_ensure now check (get (pl_session st)) (pl_memory st) of
        (mem, cache, r) \<Rightarrow> (session_update (put cache) (st\<lparr>pl_memory := mem\<rparr>), r))"

definition cached_validate ::
  "('c WarframeSession \<Rightarrow> unit CachedCheck) \<Rightarrow> (unit CachedCheck \<Rightarrow> 'c WarframeSession \<Rightarrow> 'c WarframeSession) \<Rightarrow> duration \<Rightarrow> string \<Rightarrow>
   ('m, unit, SdkUnavailableReason) attempt \<Rightarrow> (('c, 'm, 'v) Polling, unit, Retry) attempt" where
  "cached_validate get put now name check st =
     (case check_validate now name check (get (pl_session st)) (pl_memory st) of
        (mem, cache, r) \<Rightarrow> (session_update (put cache) (st\<lparr>pl_memory := mem\<rparr>), r))"

definition layouts_update :: "(SharedLayouts \<Rightarrow> SharedLayouts) \<Rightarrow> 'c WarframeSession \<Rightarrow> 'c WarframeSession" where
  "layouts_update f s = s\<lparr>ws_layouts := f (ws_layouts s)\<rparr>"

definition topic_update :: "AccountTopic \<Rightarrow> (TopicState \<Rightarrow> TopicState) \<Rightarrow> 'c WarframeSession \<Rightarrow> 'c WarframeSession" where
  "topic_update t f s = s\<lparr>ws_topics := (ws_topics s)(t := f (ws_topics s t))\<rparr>"

definition visual_update :: "(VisualTopics \<Rightarrow> VisualTopics) \<Rightarrow> 'c WarframeSession \<Rightarrow> 'c WarframeSession" where
  "visual_update f s = s\<lparr>ws_visual := f (ws_visual s)\<rparr>"

text \<open>An acquisition through a fresh reader, its errors as public categories.\<close>

definition reader_check :: "('m TargetReader, unit, TargetError) attempt \<Rightarrow> Executable \<Rightarrow> ('m, unit, SdkUnavailableReason) attempt" where
  "reader_check run exe m =
     (case with_target_reader run (ex_base exe) (ef_image_size (ex_actual exe)) m of (m', r) \<Rightarrow> (m', map_err read_unavailable r))"

subsection \<open>Shared layouts\<close>

definition layout_profile_commit :: "('c, 'm, 'v, 'd, 'choice) Readers \<Rightarrow> Executable \<Rightarrow> duration \<Rightarrow> (('c, 'm, 'v) Polling, unit, Retry) attempt" where
  "layout_profile_commit R exe now =
     cached_validate (\<lambda>s. sl_profile_commit (ws_layouts s)) (\<lambda>c. layouts_update (\<lambda>l. l\<lparr>sl_profile_commit := c\<rparr>)) now ''profile commit''
       (wr_profile_commit R exe)"

definition layout_inventory_owner :: "('c, 'm, 'v, 'd, 'choice) Readers \<Rightarrow> Executable \<Rightarrow> duration \<Rightarrow> (('c, 'm, 'v) Polling, unit, Retry) attempt" where
  "layout_inventory_owner R exe now =
     and_then (layout_profile_commit R exe now) (\<lambda>_.
       cached_validate (\<lambda>s. sl_inventory_owner (ws_layouts s)) (\<lambda>c. layouts_update (\<lambda>l. l\<lparr>sl_inventory_owner := c\<rparr>)) now
         ''inventory ownership'' (wr_inventory_owner R exe))"

definition layout_client :: "('c, 'm, 'v, 'd, 'choice) Readers \<Rightarrow> Executable \<Rightarrow> duration \<Rightarrow> (('c, 'm, 'v) Polling, unit, Retry) attempt" where
  "layout_client R exe now =
     cached_validate (\<lambda>s. sl_client (ws_layouts s)) (\<lambda>c. layouts_update (\<lambda>l. l\<lparr>sl_client := c\<rparr>)) now ''client root''
       (reader_check (validate_client (wr_backend R)) exe)"

definition layout_world :: "('c, 'm, 'v, 'd, 'choice) Readers \<Rightarrow> Executable \<Rightarrow> duration \<Rightarrow> (('c, 'm, 'v) Polling, unit, Retry) attempt" where
  "layout_world R exe now =
     cached_validate (\<lambda>s. sl_world (ws_layouts s)) (\<lambda>c. layouts_update (\<lambda>l. l\<lparr>sl_world := c\<rparr>)) now ''world ownership''
       (reader_check (validate_rules (wr_backend R)) exe)"

definition layout_string_tokens :: "('c, 'm, 'v, 'd, 'choice) Readers \<Rightarrow> Executable \<Rightarrow> duration \<Rightarrow> (('c, 'm, 'v) Polling, unit, Retry) attempt" where
  "layout_string_tokens R exe now =
     cached_validate (\<lambda>s. sl_strings (ws_layouts s)) (\<lambda>c. layouts_update (\<lambda>l. l\<lparr>sl_strings := c\<rparr>)) now ''string pool''
       (wr_string_pool R exe)"

definition layout_item_paths :: "('c, 'm, 'v, 'd, 'choice) Readers \<Rightarrow> Executable \<Rightarrow> duration \<Rightarrow> (('c, 'm, 'v) Polling, unit, Retry) attempt" where
  "layout_item_paths R exe now =
     and_then (layout_string_tokens R exe now) (\<lambda>_.
       cached_validate (\<lambda>s. sl_items (ws_layouts s)) (\<lambda>c. layouts_update (\<lambda>l. l\<lparr>sl_items := c\<rparr>)) now ''item types''
         (wr_item_types R exe))"

definition layout_account :: "('c, 'm, 'v, 'd, 'choice) Readers \<Rightarrow> Executable \<Rightarrow> duration \<Rightarrow> (('c, 'm, 'v) Polling, unit, Retry) attempt" where
  "layout_account R exe now =
     cached_validate (\<lambda>s. sl_account (ws_layouts s)) (\<lambda>c. layouts_update (\<lambda>l. l\<lparr>sl_account := c\<rparr>)) now ''account identity''
       (\<lambda>m. case validate_account_layout (wr_backend R) (ex_base exe) (ef_image_size (ex_actual exe)) m of
          (m', r) \<Rightarrow> (m', map_err resolve_unavailable r))"

definition layout_profile_data :: "('c, 'm, 'v, 'd, 'choice) Readers \<Rightarrow> Executable \<Rightarrow> duration \<Rightarrow> (('c, 'm, 'v) Polling, unit, Retry) attempt" where
  "layout_profile_data R exe now =
     cached_validate (\<lambda>s. sl_profile_data (ws_layouts s)) (\<lambda>c. layouts_update (\<lambda>l. l\<lparr>sl_profile_data := c\<rparr>)) now ''profile data''
       (\<lambda>m. case validate_profile_data_layout (wr_backend R) (ex_base exe) (ef_image_size (ex_actual exe)) m of
          (m', r) \<Rightarrow> (m', map_err resolve_unavailable r))"

text \<open>The executable: identified once, and its fingerprint is the build name.\<close>

definition ensure_executable :: "('c, 'm, 'v, 'd, 'choice) Readers \<Rightarrow> duration \<Rightarrow> (('c, 'm, 'v) Polling, Executable, Retry) attempt" where
  "ensure_executable R now =
     and_then (cached_ensure ws_executable (\<lambda>c s. s\<lparr>ws_executable := c\<rparr>) now
         (\<lambda>m. case identify (wr_backend R) (wr_executable R) (wr_modules R) m of
            (m', r) \<Rightarrow> (m', map_err (\<lambda>reason. with_dependency reason ''executable'') r))) (\<lambda>exe.
     and_then (modify (\<lambda>s. s\<lparr>ws_build_name := Some (case ws_build_name s of None \<Rightarrow> ex_actual exe | Some b \<Rightarrow> b)\<rparr>)) (\<lambda>_.
     done_with (Ok exe)))"

end
