(* ===== verification/Visual_Topics.thy ===== *)
theory Visual_Topics
  imports Session_State
begin

section \<open>Screens and relic rewards\<close>

text \<open>
  \<open>session/visual.rs\<close>: both topics share one sample of the visible screens. The relic picker belongs to
  an account, a world and an interface; its owner is resolved before and after the acquisition.
\<close>

definition SCREENS_INTERVAL :: duration where "SCREENS_INTERVAL = milliseconds 250"
definition RELIC_INTERVAL :: duration where "RELIC_INTERVAL = milliseconds 50"
definition READ_RETRY :: duration where "READ_RETRY = seconds 1"

record RelicAcquisition =
  ra_screens :: ScreenSample
  ra_before :: "(AccountIdentity \<times> WorldIdentity, Retry) result"
  ra_retry_at :: duration

subsection \<open>Demand and scheduling\<close>

definition visual_plan :: "bool \<Rightarrow> bool \<Rightarrow> SourcePlan" where
  "visual_plan screens relic =
     (let plan = (if screens then require_screens Screens_consumer \<lparr>sr_condition = Any_screen, sr_preferred_interval = SCREENS_INTERVAL\<rparr> [] else [])
      in if relic then require_screens RelicRewards_consumer \<lparr>sr_condition = Visible RelicRewards, sr_preferred_interval = RELIC_INTERVAL\<rparr> plan
         else plan)"

definition visual_demand :: "SdkCapability list \<Rightarrow> duration \<Rightarrow> VisualTopics \<Rightarrow> VisualTopics" where
  "visual_demand demand now v =
     (let screens = demanded_in demand SCREENS_CAP;
          relic = demanded_in demand RELIC_REWARDS_CAP;
          v1 = v\<lparr>vt_screens_demanded := screens\<rparr>;
          v2 = (if relic \<and> \<not> vt_relic_demanded v1 then v1\<lparr>vt_relic_retry := now, vt_relic_read_delay := 0\<rparr> else v1);
          v3 = v2\<lparr>vt_relic_demanded := relic, vt_source := source_update (visual_plan screens relic) now (vt_source v2)\<rparr>;
          v4 = (if relic then v3 else v3\<lparr>vt_owner := None\<rparr>)
      in if relic \<or> screens then v4 else v4\<lparr>vt_ui := None\<rparr>)"

definition visual_wake :: "SdkCapability \<Rightarrow> VisualTopics \<Rightarrow> VisualTopics" where
  "visual_wake cap v =
     (if sc_topic cap = sc_topic SCREENS_CAP \<or> sc_topic cap = sc_topic RELIC_REWARDS_CAP
      then v\<lparr>vt_source := source_wake (vt_source v), vt_relic_retry := 0\<rparr> else v)"

definition visual_poll_completed :: "bool \<Rightarrow> VisualTopics \<Rightarrow> VisualTopics" where
  "visual_poll_completed committed v =
     (if committed then v else v\<lparr>vt_source := source_wake (vt_source v), vt_relic_retry := 0\<rparr>)"

definition visual_deadline :: "VisualTopics \<Rightarrow> duration option" where
  "visual_deadline v = ss_next (vt_source v)"

definition visual_due :: "duration \<Rightarrow> VisualTopics \<Rightarrow> bool" where
  "visual_due now v \<longleftrightarrow> source_due now (vt_source v)"

subsection \<open>Unavailable\<close>

definition visual_unavailable :: "('c, 'm, 'v, 'd, 'choice) Readers \<Rightarrow> Retry \<Rightarrow> (('c, 'm, 'v) Polling, unit, ProviderError) attempt" where
  "visual_unavailable R retry =
     and_then (gets (\<lambda>s. [(SCREENS_CAP, vt_screens_demanded (ws_visual s)), (RELIC_REWARDS_CAP, vt_relic_demanded (ws_visual s))])) (\<lambda>caps.
     and_then (each_of caps (\<lambda>(cap, demanded).
         if demanded then emit R (Call_Health cap (SdkUnavailable (rt_reason retry))) else done_with (Ok ()))) (\<lambda>_.
     modify (visual_update (\<lambda>v. v\<lparr>vt_source := source_defer (rt_at retry) (vt_source v)\<rparr>))))"

definition visual_retry :: "TargetError \<Rightarrow> duration \<Rightarrow> string \<Rightarrow> Retry" where
  "visual_retry error at dependency = \<lparr>rt_reason = with_dependency (read_unavailable error) dependency, rt_at = at\<rparr>"

definition relic_unavailable ::
  "('c, 'm, 'v, 'd, 'choice) Readers \<Rightarrow> duration \<Rightarrow> Retry \<Rightarrow> (('c, 'm, 'v) Polling, unit, ProviderError) attempt" where
  "relic_unavailable R now retry =
     (let settling = failure (rt_reason retry) = SdkDep_TargetNotReady;
          at = (if settling then duration_saturating_add now RELIC_INTERVAL else rt_at retry)
      in and_then (modify (visual_update (\<lambda>v. v\<lparr>vt_relic_read_delay :=
             (if settling then 0 else min (min (max (vt_relic_read_delay v) RELIC_INTERVAL * 2) DURATION_MAX) READ_RETRY)\<rparr>))) (\<lambda>_.
         and_then (emit R (Call_Health RELIC_REWARDS_CAP (SdkUnavailable (rt_reason retry)))) (\<lambda>_.
         modify (visual_update (\<lambda>v. v\<lparr>vt_relic_retry := at\<rparr>)))))"

text \<open>\<open>clear_owner\<close>; the flag is whether a reset has been declared in this poll.\<close>

definition clear_owner :: "('c, 'm, 'v, 'd, 'choice) Readers \<Rightarrow> bool \<Rightarrow> (('c, 'm, 'v) Polling, bool, ProviderError) attempt" where
  "clear_owner R reset =
     and_then (gets (\<lambda>s. vt_owner (ws_visual s))) (\<lambda>owner.
     and_then (modify (visual_update (\<lambda>v. v\<lparr>vt_owner := None\<rparr>))) (\<lambda>_.
       if owner \<noteq> None \<and> \<not> reset then and_then (emit R (Call_Reset RELIC_REWARDS_CAP)) (\<lambda>_. done_with (Ok True))
       else done_with (Ok reset)))"

subsection \<open>The owner of the picker\<close>

definition validate_relic :: "('c, 'm, 'v, 'd, 'choice) Readers \<Rightarrow> Executable \<Rightarrow> duration \<Rightarrow> (('c, 'm, 'v) Polling, unit, Retry) attempt" where
  "validate_relic R exe now =
     and_then (layout_account R exe now) (\<lambda>_.
     and_then (layout_world R exe now) (\<lambda>_.
     cached_validate (\<lambda>s. vt_relic_layout (ws_visual s)) (\<lambda>c. visual_update (\<lambda>v. v\<lparr>vt_relic_layout := c\<rparr>)) now (sc_topic RELIC_REWARDS_CAP)
       (wr_relic_layout R exe)))"

definition resolve_login :: "('c, 'm, 'v, 'd, 'choice) Readers \<Rightarrow> Executable \<Rightarrow> ('m, AccountResolution, ResolveError) attempt" where
  "resolve_login R exe = resolve_account (wr_backend R) (ex_base exe) (ef_image_size (ex_actual exe))"

definition resolve_owner ::
  "('c, 'm, 'v, 'd, 'choice) Readers \<Rightarrow> Executable \<Rightarrow> duration \<Rightarrow> (('c, 'm, 'v) Polling, AccountIdentity \<times> WorldIdentity, Retry) attempt" where
  "resolve_owner R exe retry_at =
     and_then (outcome_of (on_memory (resolve_login R exe))) (\<lambda>login.
       (case login of
          Ok Absent \<Rightarrow> done_with (Err \<lparr>rt_reason = with_dependency SdkTargetNotReady ''account identity'', rt_at = retry_at\<rparr>)
        | Err e \<Rightarrow> done_with (Err \<lparr>rt_reason = with_dependency (resolve_unavailable e) ''account identity'', rt_at = retry_at\<rparr>)
        | Ok (Present login) \<Rightarrow>
          and_then (outcome_of (on_memory (with_target_reader (resolve_world (wr_backend R)) (ex_base exe) (ef_image_size (ex_actual exe))))) (\<lambda>world.
            done_with (case world of
                Err e \<Rightarrow> Err (visual_retry e retry_at ''world ownership'')
              | Ok world \<Rightarrow> Ok (login, world)))))"

definition read_screens :: "('c, 'm, 'v, 'd, 'choice) Readers \<Rightarrow> Executable \<Rightarrow> ('m, ScreenSample, TargetError) attempt" where
  "read_screens R exe = with_target_reader (screens_read (wr_backend R)) (ex_base exe) (ef_image_size (ex_actual exe))"

definition recheck_screens ::
  "('c, 'm, 'v, 'd, 'choice) Readers \<Rightarrow> Executable \<Rightarrow> ScreenSample \<Rightarrow> bool \<Rightarrow> duration \<Rightarrow> (('c, 'm, 'v) Polling, unit, Retry) attempt" where
  "recheck_screens R exe sample open' retry_at =
     (if open'
      then and_then (outcome_of (on_memory (read_screens R exe))) (\<lambda>after.
        done_with (case after of
            Err e \<Rightarrow> Err (visual_retry e retry_at (sc_topic SCREENS_CAP))
          | Ok after \<Rightarrow> if after \<noteq> sample then Err (visual_retry (Unstable ''reward screen'') retry_at (sc_topic SCREENS_CAP)) else Ok ()))
      else done_with (Ok ()))"

definition read_choices ::
  "('c, 'm, 'v, 'd, 'choice) Readers \<Rightarrow> Executable \<Rightarrow> duration \<Rightarrow> RelicOwner \<Rightarrow> duration \<Rightarrow> (('c, 'm, 'v) Polling, 'choice RelicRewardPicker, Retry) attempt" where
  "read_choices R exe now owner retry_at =
     and_then (layout_item_paths R exe now) (\<lambda>_.
       (case wi_rules (ro_world owner) of
          None \<Rightarrow> done_with (Err (visual_retry (Unstable ''reward world'') retry_at ''world ownership''))
        | Some rules \<Rightarrow>
          and_then (outcome_of (on_caches (wr_relic_choices R rules (ai_account_id (ro_login owner)) exe))) (\<lambda>choices.
            done_with (case choices of
                Err e \<Rightarrow> Err (visual_retry e retry_at (sc_topic RELIC_REWARDS_CAP))
              | Ok choices \<Rightarrow> Ok (Picker_open choices)))))"

subsection \<open>Polling\<close>

definition relic_before :: "ScreenSample \<Rightarrow> RelicAcquisition \<Rightarrow> (RelicOwner, Retry) result" where
  "relic_before sample acquisition =
     rbind (ra_before acquisition) (\<lambda>(login, world).
       if wi_client world \<noteq> ui_client (sa_owner sample)
       then Err (visual_retry (Unstable ''reward client'') (ra_retry_at acquisition) ''world ownership'')
       else Ok \<lparr>ro_login = login, ro_world = world, ro_ui = sa_owner sample\<rparr>)"

definition relic_after ::
  "('c, 'm, 'v, 'd, 'choice) Readers \<Rightarrow> Executable \<Rightarrow> ScreenSample \<Rightarrow> bool \<Rightarrow> duration \<Rightarrow> (('c, 'm, 'v) Polling, RelicOwner, Retry) attempt" where
  "relic_after R exe sample open' retry_at =
     and_then (recheck_screens R exe sample open' retry_at) (\<lambda>_.
     and_then (resolve_owner R exe retry_at) (\<lambda>(login, world).
     done_with (Ok \<lparr>ro_login = login, ro_world = world, ro_ui = sa_owner sample\<rparr>)))"

definition publish_relic ::
  "('c, 'm, 'v, 'd, 'choice) Readers \<Rightarrow> duration \<Rightarrow> RelicOwner \<Rightarrow> ('choice RelicRewardPicker, Retry) result \<Rightarrow> (('c, 'm, 'v) Polling, unit, ProviderError) attempt" where
  "publish_relic R now before result =
     (case result of
        Ok picker \<Rightarrow>
          and_then (modify (visual_update (\<lambda>v. v\<lparr>vt_relic_read_delay := 0\<rparr>))) (\<lambda>_.
            publish R RELIC_REWARDS_CAP (Published_relic \<lparr>rs_account_id = ai_account_id (ro_login before), rs_picker = picker\<rparr>))
      | Err retry \<Rightarrow> relic_unavailable R now retry)"

definition poll_relic ::
  "('c, 'm, 'v, 'd, 'choice) Readers \<Rightarrow> Executable \<Rightarrow> duration \<Rightarrow> RelicAcquisition \<Rightarrow> (('c, 'm, 'v) Polling, unit, ProviderError) attempt" where
  "poll_relic R exe now acquisition =
     (let sample = ra_screens acquisition; retry_at = ra_retry_at acquisition
      in case relic_before sample acquisition of
           Err retry \<Rightarrow> and_then (clear_owner R False) (\<lambda>_. relic_unavailable R now retry)
         | Ok before \<Rightarrow>
           and_then (gets (\<lambda>s. vt_owner (ws_visual s))) (\<lambda>old.
           and_then (if old \<noteq> None \<and> old \<noteq> Some before then clear_owner R False else done_with (Ok False)) (\<lambda>reset.
           and_then (modify (visual_update (\<lambda>v. v\<lparr>vt_owner := Some before\<rparr>))) (\<lambda>_.
           and_then (gets (\<lambda>s. plan_matches (ss_plan (vt_source (ws_visual s))) RelicRewards_consumer (sa_screens sample))) (\<lambda>open'.
           and_then (if open' then outcome_of (read_choices R exe now before retry_at) else done_with (Ok (Ok Picker_closed))) (\<lambda>result.
           and_then (outcome_of (relic_after R exe sample open' retry_at)) (\<lambda>after.
             if after = Ok before then publish_relic R now before result
             else and_then (clear_owner R reset) (\<lambda>_.
               relic_unavailable R now
                 (case after of Err retry \<Rightarrow> retry
                  | Ok _ \<Rightarrow> \<lparr>rt_reason = with_dependency SdkTargetNotReady ''relic ownership'', rt_at = retry_at\<rparr>)))))))))"

definition screens_delay :: "VisualTopics \<Rightarrow> TargetError \<Rightarrow> duration" where
  "screens_delay v error =
     (case error of
        NotReady _ \<Rightarrow> (if vt_relic_demanded v then RELIC_INTERVAL else SCREENS_INTERVAL)
      | Unstable _ \<Rightarrow> (if vt_relic_demanded v then RELIC_INTERVAL else SCREENS_INTERVAL)
      | _ \<Rightarrow> READ_RETRY)"

definition publish_screens :: "('c, 'm, 'v, 'd, 'choice) Readers \<Rightarrow> ScreenSample \<Rightarrow> (('c, 'm, 'v) Polling, unit, ProviderError) attempt" where
  "publish_screens R sample =
     and_then (gets ws_visual) (\<lambda>v.
       if vt_screens_demanded v
       then and_then (if vt_ui v \<noteq> None \<and> vt_ui v \<noteq> Some (sa_owner sample) then emit R (Call_Reset SCREENS_CAP) else done_with (Ok ())) (\<lambda>_.
         publish R SCREENS_CAP (Published_screens (sa_screens sample)))
       else done_with (Ok ()))"

definition visual_poll :: "('c, 'm, 'v, 'd, 'choice) Readers \<Rightarrow> Executable \<Rightarrow> duration \<Rightarrow> (('c, 'm, 'v) Polling, unit, ProviderError) attempt" where
  "visual_poll R exe now =
     and_then (outcome_of (and_then (layout_client R exe now) (\<lambda>_.
         cached_validate (\<lambda>s. vt_screen_layout (ws_visual s)) (\<lambda>c. visual_update (\<lambda>v. v\<lparr>vt_screen_layout := c\<rparr>)) now (sc_topic SCREENS_CAP)
           (reader_check (screens_validate (wr_backend R)) exe)))) (\<lambda>ready.
       (case ready of
          Err retry \<Rightarrow> visual_unavailable R retry
        | Ok _ \<Rightarrow>
          and_then (gets ws_visual) (\<lambda>v.
            (let retry_at = duration_saturating_add now (max (vt_relic_read_delay v) RELIC_INTERVAL)
             in and_then (if vt_relic_demanded v \<and> vt_relic_retry v \<le> now
                  then then_map Some (outcome_of (and_then (validate_relic R exe now) (\<lambda>_. resolve_owner R exe retry_at)))
                  else done_with (Ok None)) (\<lambda>relic_owner.
                and_then (outcome_of (on_memory (read_screens R exe))) (\<lambda>result.
                  (case result of
                     Err e \<Rightarrow> visual_unavailable R (visual_retry e (duration_saturating_add now (screens_delay v e)) (sc_topic SCREENS_CAP))
                   | Ok sample \<Rightarrow>
                     and_then (publish_screens R sample) (\<lambda>_.
                     and_then (modify (visual_update (\<lambda>v. v\<lparr>vt_ui := Some (sa_owner sample), vt_source := source_sampled now (vt_source v)\<rparr>))) (\<lambda>_.
                       (case relic_owner of
                          None \<Rightarrow> done_with (Ok ())
                        | Some before \<Rightarrow> poll_relic R exe now \<lparr>ra_screens = sample, ra_before = before, ra_retry_at = retry_at\<rparr>)))))))))) "

end
