(* ===== verification/Account_Session.thy ===== *)
theory Account_Session
  imports Visual_Topics
begin

section \<open>Account topics of a session\<close>

text \<open>
  \<open>session/polling.rs\<close> and \<open>session/profile_data.rs\<close>: seven topics belong to the logged-in account, six
  of them to its profile data. Everything due in a poll is acquired between two resolutions of the
  account; what an older owner published is reset before anything of a new one is.
\<close>

definition SAMPLE_INTERVAL :: duration where "SAMPLE_INTERVAL = seconds 1"
definition CHAT_INTERVAL :: duration where "CHAT_INTERVAL = milliseconds 250"
definition CHAT_BACKLOG_INTERVAL :: duration where "CHAT_BACKLOG_INTERVAL = milliseconds 25"

subsection \<open>Demand and scheduling\<close>

definition any_topic :: "AccountTopic list \<Rightarrow> (TopicState \<Rightarrow> bool) \<Rightarrow> 'c WarframeSession \<Rightarrow> bool" where
  "any_topic topics P s \<longleftrightarrow> list_ex (\<lambda>t. P (ws_topics s t)) topics"

fun earliest :: "duration list \<Rightarrow> duration option" where
  "earliest [] = None"
| "earliest (d # ds) = Some (case earliest ds of None \<Rightarrow> d | Some e \<Rightarrow> min d e)"

definition schedule :: "duration \<Rightarrow> 'c WarframeSession \<Rightarrow> PollResult" where
  "schedule now s =
     (let visual = (case visual_deadline (ws_visual s) of None \<Rightarrow> [] | Some at \<Rightarrow> [at - now]);
          topics = map (\<lambda>t. tt_next_poll (ws_topics s t) - now) (filter (\<lambda>t. tt_demanded (ws_topics s t)) account_topics)
      in case earliest (topics @ visual) of None \<Rightarrow> Idle_poll | Some d \<Rightarrow> After d)"

definition clear_chat :: "'c WarframeSession \<Rightarrow> 'c WarframeSession" where
  "clear_chat s = s\<lparr>ws_chat_history := None, ws_chat_cursor := chat_cursor_default, ws_pending_chat := None, ws_chat_staged := False\<rparr>"

text \<open>\<open>begin_generation\<close>, \<open>poll_completed\<close> and \<open>game_build\<close>.\<close>

definition session_begin_generation :: "SdkCapability \<Rightarrow> 'c WarframeSession \<Rightarrow> 'c WarframeSession" where
  "session_begin_generation cap s =
     (let s1 = visual_update (visual_wake cap) s;
          s2 = (if sc_topic cap = sc_topic (account_cap CHAT) then clear_chat s1 else s1)
      in fold (\<lambda>t s. if sc_topic (account_cap t) = sc_topic cap then topic_update t (\<lambda>u. u\<lparr>tt_next_poll := 0\<rparr>) s else s) account_topics s2)"

definition session_poll_completed :: "bool \<Rightarrow> 'c WarframeSession \<Rightarrow> 'c WarframeSession" where
  "session_poll_completed committed s =
     (let s1 = visual_update (visual_poll_completed committed) s;
          s2 = s1\<lparr>ws_chat_staged := False\<rparr>
      in if \<not> ws_chat_staged s1 then s2
         else if committed
         then (case ws_pending_chat s2 of
                 None \<Rightarrow> s2
               | Some pending \<Rightarrow>
                 s2\<lparr>ws_pending_chat := None,
                    ws_chat_history := (case pc_history pending of None \<Rightarrow> ws_chat_history s2 | Some history \<Rightarrow> Some history),
                    ws_chat_cursor := pc_cursor pending\<rparr>)
         else topic_update CHAT (\<lambda>u. u\<lparr>tt_next_poll := 0\<rparr>) s2)"

definition hex_char :: "nat \<Rightarrow> char" where
  "hex_char n = (if n < 10 then char_of (48 + n) else char_of (87 + n))"

definition hex8 :: "u32 \<Rightarrow> string" where
  "hex8 w = map (\<lambda>i. hex_char (unat (drop_bit (4 * i) w AND 15))) (rev [0..<8])"

definition fingerprint_text :: "ExecutableFingerprint \<Rightarrow> string" where
  "fingerprint_text f = hex8 (ef_timestamp f) @ ''-'' @ hex8 (ef_image_size f)"

definition session_game_build :: "'c WarframeSession \<Rightarrow> string option" where
  "session_game_build s = map_option fingerprint_text (ws_build_name s)"

subsection \<open>Resets and unavailable topics\<close>

text \<open>A loop over topics that acts on the demanded ones.\<close>

definition each_demanded ::
  "AccountTopic list \<Rightarrow> (AccountTopic \<Rightarrow> (('c, 'm, 'v) Polling, unit, 'e) attempt) \<Rightarrow> (('c, 'm, 'v) Polling, unit, 'e) attempt" where
  "each_demanded topics f =
     each_of topics (\<lambda>t. and_then (gets (\<lambda>s. tt_demanded (ws_topics s t))) (\<lambda>demanded. if demanded then f t else done_with (Ok ())))"

definition next_poll :: "AccountTopic \<Rightarrow> duration \<Rightarrow> (('c, 'm, 'v) Polling, unit, 'e) attempt" where
  "next_poll t at = modify (topic_update t (\<lambda>u. u\<lparr>tt_next_poll := at\<rparr>))"

definition topic_unavailable ::
  "('c, 'm, 'v, 'd, 'choice) Readers \<Rightarrow> AccountTopic \<Rightarrow> Retry \<Rightarrow> (('c, 'm, 'v) Polling, unit, ProviderError) attempt" where
  "topic_unavailable R t retry =
     and_then (emit R (Call_Health (account_cap t) (SdkUnavailable (rt_reason retry)))) (\<lambda>_. next_poll t (rt_at retry))"

definition account_unavailable :: "('c, 'm, 'v, 'd, 'choice) Readers \<Rightarrow> Retry \<Rightarrow> (('c, 'm, 'v) Polling, unit, ProviderError) attempt" where
  "account_unavailable R retry = each_demanded account_topics (\<lambda>t. topic_unavailable R t retry)"

definition data_unavailable :: "('c, 'm, 'v, 'd, 'choice) Readers \<Rightarrow> Retry \<Rightarrow> (('c, 'm, 'v) Polling, unit, ProviderError) attempt" where
  "data_unavailable R retry = each_demanded data_topics (\<lambda>t. topic_unavailable R t retry)"

definition reset_topics ::
  "('c, 'm, 'v, 'd, 'choice) Readers \<Rightarrow> duration \<Rightarrow> AccountTopic list \<Rightarrow> (('c, 'm, 'v) Polling, unit, ProviderError) attempt" where
  "reset_topics R now topics = each_demanded topics (\<lambda>t. and_then (emit R (Call_Reset (account_cap t))) (\<lambda>_. next_poll t now))"

definition reset_account :: "('c, 'm, 'v, 'd, 'choice) Readers \<Rightarrow> duration \<Rightarrow> (('c, 'm, 'v) Polling, unit, ProviderError) attempt" where
  "reset_account R now = and_then (modify (\<lambda>s. clear_chat (s\<lparr>ws_profile_data := None\<rparr>))) (\<lambda>_. reset_topics R now account_topics)"

definition reset_player :: "('c, 'm, 'v, 'd, 'choice) Readers \<Rightarrow> duration \<Rightarrow> (('c, 'm, 'v) Polling, unit, ProviderError) attempt" where
  "reset_player R now = reset_topics R now [PLAYER]"

definition clear_login :: "('c, 'm, 'v, 'd, 'choice) Readers \<Rightarrow> duration \<Rightarrow> (('c, 'm, 'v) Polling, unit, ProviderError) attempt" where
  "clear_login R now =
     and_then (gets ws_login) (\<lambda>login.
     and_then (modify (\<lambda>s. s\<lparr>ws_login := None\<rparr>)) (\<lambda>_.
       if login \<noteq> None then reset_account R now else done_with (Ok ())))"

text \<open>\<open>clear_profile_data\<close>; the flag is whether the data topics were reset in this poll.\<close>

definition clear_profile_data :: "('c, 'm, 'v, 'd, 'choice) Readers \<Rightarrow> duration \<Rightarrow> bool \<Rightarrow> (('c, 'm, 'v) Polling, bool, ProviderError) attempt" where
  "clear_profile_data R now reset =
     and_then (gets ws_profile_data) (\<lambda>old.
     and_then (modify (\<lambda>s. s\<lparr>ws_profile_data := None\<rparr>)) (\<lambda>_.
       if old \<noteq> None
       then and_then (modify clear_chat) (\<lambda>_.
         if reset then done_with (Ok reset) else and_then (reset_topics R now data_topics) (\<lambda>_. done_with (Ok True)))
       else done_with (Ok reset)))"

subsection \<open>Validation of the due topics\<close>

definition topic_check :: "('c, 'm, 'v, 'd, 'choice) Readers \<Rightarrow> AccountTopic \<Rightarrow> Executable \<Rightarrow> ('m, unit, SdkUnavailableReason) attempt" where
  "topic_check R t exe =
     (if t = PLAYER
      then (\<lambda>m. case validate_player_layout (wr_backend R) (ex_base exe) (ef_image_size (ex_actual exe)) m of
             (m', r) \<Rightarrow> (m', map_err read_unavailable r))
      else wr_topic_layout R t exe)"

definition layout_topic ::
  "('c, 'm, 'v, 'd, 'choice) Readers \<Rightarrow> Executable \<Rightarrow> duration \<Rightarrow> AccountTopic \<Rightarrow> (('c, 'm, 'v) Polling, unit, Retry) attempt" where
  "layout_topic R exe now t =
     cached_validate (\<lambda>s. tt_layout (ws_topics s t)) (\<lambda>c. topic_update t (\<lambda>u. u\<lparr>tt_layout := c\<rparr>)) now (sc_topic (account_cap t))
       (topic_check R t exe)"

text \<open>Everything the acquisition of a topic relies on.\<close>

definition layout_ready ::
  "('c, 'm, 'v, 'd, 'choice) Readers \<Rightarrow> Executable \<Rightarrow> duration \<Rightarrow> AccountTopic \<Rightarrow> (('c, 'm, 'v) Polling, unit, Retry) attempt" where
  "layout_ready R exe now t =
     (if t = INVENTORY \<or> t = MASTERY
      then and_then (layout_item_paths R exe now) (\<lambda>_. and_then (layout_inventory_owner R exe now) (\<lambda>_. layout_topic R exe now t))
      else if t = INTRINSICS
      then and_then (layout_profile_commit R exe now) (\<lambda>_. layout_topic R exe now t)
      else if t = STAR_CHART
      then and_then (layout_profile_commit R exe now) (\<lambda>_. and_then (layout_string_tokens R exe now) (\<lambda>_. layout_topic R exe now t))
      else layout_topic R exe now t)"

definition validate_account_topic ::
  "('c, 'm, 'v, 'd, 'choice) Readers \<Rightarrow> Executable \<Rightarrow> duration \<Rightarrow> AccountTopic \<Rightarrow> (('c, 'm, 'v) Polling, unit, ProviderError) attempt" where
  "validate_account_topic R exe now t =
     and_then (gets (\<lambda>s. topic_due now (ws_topics s t))) (\<lambda>due.
       if due
       then and_then (outcome_of (layout_ready R exe now t)) (\<lambda>ready.
         (case ready of Err retry \<Rightarrow> topic_unavailable R t retry | Ok _ \<Rightarrow> done_with (Ok ())))
       else done_with (Ok ()))"

definition validate_profile_data ::
  "('c, 'm, 'v, 'd, 'choice) Readers \<Rightarrow> Executable \<Rightarrow> duration \<Rightarrow> (('c, 'm, 'v) Polling, unit, ProviderError) attempt" where
  "validate_profile_data R exe now =
     and_then (gets (any_topic data_topics (topic_due now))) (\<lambda>due.
       if due
       then and_then (outcome_of (layout_profile_data R exe now)) (\<lambda>ready.
         (case ready of Err retry \<Rightarrow> data_unavailable R retry | Ok _ \<Rightarrow> done_with (Ok ())))
       else done_with (Ok ()))"

definition validate_progression_due ::
  "('c, 'm, 'v, 'd, 'choice) Readers \<Rightarrow> Executable \<Rightarrow> duration \<Rightarrow> (('c, 'm, 'v) Polling, unit, ProviderError) attempt" where
  "validate_progression_due R exe now = each_of [MASTERY, INTRINSICS, STAR_CHART] (validate_account_topic R exe now)"

definition validate_due ::
  "('c, 'm, 'v, 'd, 'choice) Readers \<Rightarrow> Executable \<Rightarrow> duration \<Rightarrow> (('c, 'm, 'v) Polling, unit, ProviderError) attempt" where
  "validate_due R exe now =
     and_then (validate_profile_data R exe now) (\<lambda>_.
     and_then (validate_account_topic R exe now INVENTORY) (\<lambda>_.
     and_then (validate_progression_due R exe now) (\<lambda>_.
     each_of [CURRENCIES, PLAYER, CHAT] (validate_account_topic R exe now))))"

subsection \<open>The owner, before and after\<close>

definition account_retry :: "SdkUnavailableReason \<Rightarrow> duration \<Rightarrow> Retry" where
  "account_retry reason now = \<lparr>rt_reason = with_dependency reason ''account identity'', rt_at = duration_saturating_add now SAMPLE_INTERVAL\<rparr>"

definition account_lost ::
  "('c, 'm, 'v, 'd, 'choice) Readers \<Rightarrow> duration \<Rightarrow> SdkUnavailableReason \<Rightarrow> (('c, 'm, 'v) Polling, (AccountIdentity \<times> bool) option, ProviderError) attempt" where
  "account_lost R now reason =
     and_then (clear_login R now) (\<lambda>_. and_then (account_unavailable R (account_retry reason now)) (\<lambda>_. done_with (Ok None)))"

definition account_found ::
  "('c, 'm, 'v, 'd, 'choice) Readers \<Rightarrow> Executable \<Rightarrow> duration \<Rightarrow> AccountIdentity \<Rightarrow>
   (('c, 'm, 'v) Polling, (AccountIdentity \<times> bool) option, ProviderError) attempt" where
  "account_found R exe now before =
     and_then (gets (\<lambda>s. ws_login s \<noteq> None \<and> ws_login s \<noteq> Some before)) (\<lambda>reset.
     and_then (if reset then and_then (reset_account R now) (\<lambda>_. validate_due R exe now) else done_with (Ok ())) (\<lambda>_.
     and_then (modify (\<lambda>s. s\<lparr>ws_login := Some before\<rparr>)) (\<lambda>_. done_with (Ok (Some (before, reset))))))"

definition account_before ::
  "('c, 'm, 'v, 'd, 'choice) Readers \<Rightarrow> Executable \<Rightarrow> duration \<Rightarrow> (('c, 'm, 'v) Polling, (AccountIdentity \<times> bool) option, ProviderError) attempt" where
  "account_before R exe now =
     and_then (outcome_of (on_memory (resolve_login R exe))) (\<lambda>resolved.
       (case resolved of
          Ok (Present before) \<Rightarrow> account_found R exe now before
        | Ok Absent \<Rightarrow> account_lost R now SdkTargetNotReady
        | Err e \<Rightarrow> account_lost R now (resolve_unavailable e)))"

definition account_unchanged ::
  "('c, 'm, 'v, 'd, 'choice) Readers \<Rightarrow> Executable \<Rightarrow> duration \<Rightarrow> AccountIdentity \<Rightarrow> bool \<Rightarrow> bool \<Rightarrow> (('c, 'm, 'v) Polling, bool, ProviderError) attempt" where
  "account_unchanged R exe now before reset data_reset =
     and_then (outcome_of (on_memory (resolve_login R exe))) (\<lambda>after.
       if after \<noteq> Ok (Present before)
       then and_then (if \<not> reset then (if data_reset then reset_player R now else reset_account R now) else done_with (Ok ())) (\<lambda>_.
            and_then (modify (\<lambda>s. clear_chat (s\<lparr>ws_login := None, ws_profile_data := None\<rparr>))) (\<lambda>_.
            and_then (account_unavailable R (account_retry SdkTargetNotReady now)) (\<lambda>_. done_with (Ok False))))
       else done_with (Ok True))"

definition resolve_data ::
  "('c, 'm, 'v, 'd, 'choice) Readers \<Rightarrow> Executable \<Rightarrow> AccountIdentity \<Rightarrow> ('m, ProfileDataIdentity option, ResolveError) attempt" where
  "resolve_data R exe account = resolve_profile_data (wr_backend R) (ex_base exe) (ef_image_size (ex_actual exe)) account"

definition data_retry :: "SdkUnavailableReason \<Rightarrow> duration \<Rightarrow> Retry" where
  "data_retry reason now = \<lparr>rt_reason = with_dependency reason ''profile data'', rt_at = duration_saturating_add now SAMPLE_INTERVAL\<rparr>"

definition profile_data_lost ::
  "('c, 'm, 'v, 'd, 'choice) Readers \<Rightarrow> duration \<Rightarrow> SdkUnavailableReason \<Rightarrow> bool \<Rightarrow>
   (('c, 'm, 'v) Polling, ProfileDataIdentity option \<times> bool, ProviderError) attempt" where
  "profile_data_lost R now reason reset =
     and_then (clear_profile_data R now reset) (\<lambda>reset'.
     and_then (data_unavailable R (data_retry reason now)) (\<lambda>_. done_with (Ok (None, reset'))))"

definition profile_data_found ::
  "('c, 'm, 'v, 'd, 'choice) Readers \<Rightarrow> Executable \<Rightarrow> duration \<Rightarrow> ProfileDataIdentity \<Rightarrow> bool \<Rightarrow>
   (('c, 'm, 'v) Polling, ProfileDataIdentity option \<times> bool, ProviderError) attempt" where
  "profile_data_found R exe now owner reset =
     and_then (gets (\<lambda>s. ws_profile_data s \<noteq> None \<and> ws_profile_data s \<noteq> Some owner)) (\<lambda>changed.
     and_then (if changed
         then and_then (clear_profile_data R now reset) (\<lambda>reset'. and_then (validate_due R exe now) (\<lambda>_. done_with (Ok reset')))
         else done_with (Ok reset)) (\<lambda>reset'.
     and_then (modify (\<lambda>s. s\<lparr>ws_profile_data := Some owner\<rparr>)) (\<lambda>_. done_with (Ok (Some owner, reset')))))"

definition profile_data_before ::
  "('c, 'm, 'v, 'd, 'choice) Readers \<Rightarrow> Executable \<Rightarrow> duration \<Rightarrow> AccountIdentity \<Rightarrow> bool \<Rightarrow>
   (('c, 'm, 'v) Polling, ProfileDataIdentity option \<times> bool, ProviderError) attempt" where
  "profile_data_before R exe now account reset =
     and_then (gets (any_topic data_topics (topic_due now))) (\<lambda>due.
       if \<not> due then done_with (Ok (None, reset))
       else and_then (outcome_of (on_memory (resolve_data R exe account))) (\<lambda>result.
         (case result of
            Ok (Some owner) \<Rightarrow> profile_data_found R exe now owner reset
          | Ok None \<Rightarrow> profile_data_lost R now SdkTargetNotReady reset
          | Err e \<Rightarrow> profile_data_lost R now (resolve_unavailable e) reset)))"

subsection \<open>Samples\<close>

definition sample_retry :: "SdkUnavailableReason \<Rightarrow> duration \<Rightarrow> AccountTopic \<Rightarrow> Retry" where
  "sample_retry reason now t =
     \<lparr>rt_reason = with_dependency reason (sc_topic (account_cap t)), rt_at = duration_saturating_add now SAMPLE_INTERVAL\<rparr>"

definition sample_data ::
  "('c, 'm, 'v, 'd, 'choice) Readers \<Rightarrow> Executable \<Rightarrow> duration \<Rightarrow> ProfileDataIdentity option \<Rightarrow> AccountTopic \<Rightarrow>
   (('c, 'm, 'v) Polling, ('d, Retry) result option, ProviderError) attempt" where
  "sample_data R exe now data t =
     and_then (gets (\<lambda>s. topic_due now (ws_topics s t))) (\<lambda>due.
       (case data of
          Some owner \<Rightarrow>
            if due then then_map (\<lambda>r. Some (map_err (\<lambda>e. sample_retry e now t) r)) (outcome_of (on_caches (wr_sample R t exe owner)))
            else done_with (Ok None)
        | None \<Rightarrow> done_with (Ok None)))"

definition sample_player ::
  "('c, 'm, 'v, 'd, 'choice) Readers \<Rightarrow> Executable \<Rightarrow> duration \<Rightarrow> AccountIdentity \<Rightarrow> (('c, 'm, 'v) Polling, PlayerSnapshot, Retry) attempt" where
  "sample_player R exe now login =
     and_then (layout_topic R exe now PLAYER) (\<lambda>_.
     and_then (outcome_of (on_memory (read_player (wr_backend R) (ex_base exe) (ef_image_size (ex_actual exe)) login))) (\<lambda>sample.
     done_with (map_err (\<lambda>e. sample_retry (read_unavailable e) now PLAYER) sample)))"

definition sample_chat ::
  "('c, 'm, 'v, 'd, 'choice) Readers \<Rightarrow> Executable \<Rightarrow> duration \<Rightarrow> ProfileDataIdentity option \<Rightarrow>
   (('c, 'm, 'v) Polling, (History option, Retry) result option, ProviderError) attempt" where
  "sample_chat R exe now data =
     and_then (gets (\<lambda>s. topic_due now (ws_topics s CHAT))) (\<lambda>due.
       (case data of
          Some owner \<Rightarrow>
            if \<not> due then done_with (Ok None)
            else and_then (gets (\<lambda>s. (ws_pending_chat s \<noteq> None, ws_chat_history s))) (\<lambda>(pending, history).
              if pending then done_with (Ok (Some (Ok None)))
              else then_map (\<lambda>r. Some (map_err (\<lambda>e. sample_retry (read_unavailable e) now CHAT) r))
                (outcome_of (on_memory (read_chat (wr_backend R) (ex_base exe) (ef_image_size (ex_actual exe)) (identity_get (pd_object owner)) history))))
        | None \<Rightarrow> done_with (Ok None)))"

subsection \<open>Publication\<close>

definition publish_sample ::
  "('c, 'm, 'v, 'd, 'choice) Readers \<Rightarrow> duration \<Rightarrow> AccountTopic \<Rightarrow> (('d, 'choice) Published, Retry) result option \<Rightarrow>
   (('c, 'm, 'v) Polling, unit, ProviderError) attempt" where
  "publish_sample R now t sample =
     (case sample of
        Some (Ok x) \<Rightarrow> and_then (publish R (account_cap t) x) (\<lambda>_. next_poll t (duration_saturating_add now SAMPLE_INTERVAL))
      | Some (Err retry) \<Rightarrow> topic_unavailable R t retry
      | None \<Rightarrow> done_with (Ok ()))"

definition prepare_pending ::
  "('c, 'm, 'v, 'd, 'choice) Readers \<Rightarrow> AccountIdentity \<Rightarrow> History option \<Rightarrow> string option \<Rightarrow> (('c, 'm, 'v) Polling, PendingChat, ProviderError) attempt" where
  "prepare_pending R before history local_name =
     and_then (gets (\<lambda>s. (ws_pending_chat s, ws_chat_history s, ws_chat_cursor s))) (\<lambda>(pending, committed, cursor).
       (case pending of
          Some p \<Rightarrow> done_with (Ok p)
        | None \<Rightarrow>
          and_then (done_with (ok_or (case history of Some h \<Rightarrow> Some h | None \<Rightarrow> committed) (Failed_provider ''chat baseline missing''))) (\<lambda>current.
          and_then (done_with (map_err (\<lambda>e. Failed_provider (wr_error_text R e)) (chat_prepare cursor current local_name))) (\<lambda>(cursor', updates, more).
            (let p = \<lparr>pc_history = history, pc_cursor = cursor',
                      pc_events = map (\<lambda>update. \<lparr>ce_account_id = ai_account_id before, ce_update = update\<rparr>) updates, pc_more = more\<rparr>
             in and_then (modify (\<lambda>s. s\<lparr>ws_pending_chat := Some p\<rparr>)) (\<lambda>_. done_with (Ok p)))))))"

definition publish_events :: "('c, 'm, 'v, 'd, 'choice) Readers \<Rightarrow> ChatEvent list \<Rightarrow> (('c, 'm, 'v) Polling, unit, ProviderError) attempt" where
  "publish_events R events =
     each_of events (\<lambda>event. and_then (done_with (to_payload R (Published_chat event))) (\<lambda>payload. emit R (Call_Event (account_cap CHAT) payload)))"

definition publish_chat ::
  "('c, 'm, 'v, 'd, 'choice) Readers \<Rightarrow> duration \<Rightarrow> AccountIdentity \<Rightarrow> (History option, Retry) result option \<Rightarrow> string option \<Rightarrow>
   (('c, 'm, 'v) Polling, unit, ProviderError) attempt" where
  "publish_chat R now before chat local_name =
     (case chat of
        Some (Ok history) \<Rightarrow>
          and_then (prepare_pending R before history local_name) (\<lambda>pending.
          and_then (modify (\<lambda>s. s\<lparr>ws_chat_staged := True\<rparr>)) (\<lambda>_.
          and_then (emit R (Call_Health (account_cap CHAT) SdkAvailable)) (\<lambda>_.
          and_then (publish_events R (pc_events pending)) (\<lambda>_.
          next_poll CHAT (duration_saturating_add now (if pc_more pending then CHAT_BACKLOG_INTERVAL else CHAT_INTERVAL))))))
      | Some (Err retry) \<Rightarrow> topic_unavailable R CHAT retry
      | None \<Rightarrow> done_with (Ok ()))"

subsection \<open>Acquisition\<close>

record 'd Samples =
  sm_inventory :: "('d, Retry) result option"
  sm_currencies :: "('d, Retry) result option"
  sm_mastery :: "('d, Retry) result option"
  sm_intrinsics :: "('d, Retry) result option"
  sm_star_chart :: "('d, Retry) result option"
  sm_player :: "(PlayerSnapshot, Retry) result option"
  sm_local_name :: "string option"
  sm_chat :: "(History option, Retry) result option"
  sm_data_after :: "(ProfileDataIdentity option, ResolveError) result option"

text \<open>Everything read between the two resolutions of the account; nothing is published yet.\<close>

definition acquire_samples ::
  "('c, 'm, 'v, 'd, 'choice) Readers \<Rightarrow> Executable \<Rightarrow> duration \<Rightarrow> AccountIdentity \<Rightarrow> ProfileDataIdentity option \<Rightarrow>
   (('c, 'm, 'v) Polling, 'd Samples, ProviderError) attempt" where
  "acquire_samples R exe now before data =
     and_then (sample_data R exe now data INVENTORY) (\<lambda>inventory.
     and_then (sample_data R exe now data CURRENCIES) (\<lambda>currencies.
     and_then (sample_data R exe now data MASTERY) (\<lambda>mastery.
     and_then (sample_data R exe now data INTRINSICS) (\<lambda>intrinsics.
     and_then (sample_data R exe now data STAR_CHART) (\<lambda>star_chart.
     and_then (gets (\<lambda>s. (topic_due now (ws_topics s PLAYER), topic_due now (ws_topics s CHAT) \<and> ws_pending_chat s = None))) (\<lambda>(player_due, name_needed).
     and_then (if player_due \<or> name_needed then then_map Some (outcome_of (sample_player R exe now before)) else done_with (Ok None)) (\<lambda>player.
     and_then (sample_chat R exe now data) (\<lambda>chat.
     and_then (if data \<noteq> None then then_map Some (outcome_of (on_memory (resolve_data R exe before))) else done_with (Ok None)) (\<lambda>data_after.
     done_with (Ok
       \<lparr>sm_inventory = inventory, sm_currencies = currencies, sm_mastery = mastery, sm_intrinsics = intrinsics, sm_star_chart = star_chart,
        sm_player = (if player_due then player else None),
        sm_local_name = (case player of Some (Ok sample) \<Rightarrow> Some (name_text (ps_username sample)) | _ \<Rightarrow> None),
        sm_chat = chat, sm_data_after = data_after\<rparr>))))))))))"

definition published :: "('a \<Rightarrow> 'b) \<Rightarrow> ('a, 'e) result option \<Rightarrow> ('b, 'e) result option" where
  "published f sample = map_option (\<lambda>r. case r of Ok x \<Rightarrow> Ok (f x) | Err e \<Rightarrow> Err e) sample"

definition publish_samples ::
  "('c, 'm, 'v, 'd, 'choice) Readers \<Rightarrow> duration \<Rightarrow> AccountIdentity \<Rightarrow> ProfileDataIdentity option \<Rightarrow> bool \<Rightarrow> 'd Samples \<Rightarrow>
   (('c, 'm, 'v) Polling, unit, ProviderError) attempt" where
  "publish_samples R now before data data_reset samples =
     and_then (publish_sample R now PLAYER (published Published_player (sm_player samples))) (\<lambda>_.
       if data \<noteq> None \<and> sm_data_after samples \<noteq> Some (Ok data)
       then and_then (clear_profile_data R now data_reset) (\<lambda>_. data_unavailable R (data_retry SdkTargetNotReady now))
       else
         and_then (publish_sample R now INVENTORY (published Published_data (sm_inventory samples))) (\<lambda>_.
         and_then (publish_sample R now CURRENCIES (published Published_data (sm_currencies samples))) (\<lambda>_.
         and_then (publish_sample R now MASTERY (published Published_data (sm_mastery samples))) (\<lambda>_.
         and_then (publish_sample R now INTRINSICS (published Published_data (sm_intrinsics samples))) (\<lambda>_.
         and_then (publish_sample R now STAR_CHART (published Published_data (sm_star_chart samples))) (\<lambda>_.
         publish_chat R now before (sm_chat samples) (sm_local_name samples)))))))"

definition acquire :: "('c, 'm, 'v, 'd, 'choice) Readers \<Rightarrow> Executable \<Rightarrow> duration \<Rightarrow> (('c, 'm, 'v) Polling, unit, ProviderError) attempt" where
  "acquire R exe now =
     and_then (account_before R exe now) (\<lambda>owner.
       (case owner of
          None \<Rightarrow> done_with (Ok ())
        | Some (before, reset) \<Rightarrow>
          and_then (profile_data_before R exe now before reset) (\<lambda>(data, data_reset).
          and_then (acquire_samples R exe now before data) (\<lambda>samples.
          and_then (account_unchanged R exe now before reset data_reset) (\<lambda>unchanged.
            if unchanged then publish_samples R now before data data_reset samples else done_with (Ok ()))))))"

subsection \<open>A poll\<close>

definition poll_visual :: "('c, 'm, 'v, 'd, 'choice) Readers \<Rightarrow> duration \<Rightarrow> (('c, 'm, 'v) Polling, unit, ProviderError) attempt" where
  "poll_visual R now =
     and_then (gets (\<lambda>s. visual_due now (ws_visual s))) (\<lambda>due.
       if due
       then and_then (outcome_of (ensure_executable R now)) (\<lambda>ready.
         (case ready of Ok exe \<Rightarrow> visual_poll R exe now | Err retry \<Rightarrow> visual_unavailable R retry))
       else done_with (Ok ()))"

text \<open>Demand of the account topics; the last step is the early return when none is demanded.\<close>

definition demand_topics :: "SdkCapability list \<Rightarrow> duration \<Rightarrow> 'c WarframeSession \<Rightarrow> 'c WarframeSession" where
  "demand_topics demand now s =
     (let s1 = fold (\<lambda>t. topic_update t (topic_demand (demanded_in demand (account_cap t)) now)) account_topics s;
          s2 = (if tt_demanded (ws_topics s1 CHAT) then s1 else clear_chat s1);
          s3 = (if any_topic data_topics tt_demanded s2 then s2 else s2\<lparr>ws_profile_data := None\<rparr>)
      in if any_topic account_topics tt_demanded s3 then s3 else s3\<lparr>ws_login := None\<rparr>)"

definition poll_account :: "('c, 'm, 'v, 'd, 'choice) Readers \<Rightarrow> duration \<Rightarrow> (('c, 'm, 'v) Polling, unit, ProviderError) attempt" where
  "poll_account R now =
     and_then (gets (any_topic account_topics (topic_due now))) (\<lambda>due.
       if \<not> due then done_with (Ok ())
       else and_then (outcome_of (and_then (ensure_executable R now) (\<lambda>exe. and_then (layout_account R exe now) (\<lambda>_. done_with (Ok exe))))) (\<lambda>ready.
         (case ready of
            Err retry \<Rightarrow> account_unavailable R retry
          | Ok exe \<Rightarrow>
            and_then (validate_due R exe now) (\<lambda>_.
            and_then (gets (any_topic account_topics (topic_due now))) (\<lambda>due.
              if due then acquire R exe now else done_with (Ok ()))))))"

definition session_poll ::
  "('c, 'm, 'v, 'd, 'choice) Readers \<Rightarrow> SdkCapability list \<Rightarrow> duration \<Rightarrow> (('c, 'm, 'v) Polling, PollResult, ProviderError) attempt" where
  "session_poll R demand now =
     and_then (modify (visual_update (visual_demand demand now))) (\<lambda>_.
     and_then (poll_visual R now) (\<lambda>_.
     and_then (modify (demand_topics demand now)) (\<lambda>_.
     and_then (gets (any_topic account_topics tt_demanded)) (\<lambda>demanded.
     and_then (if demanded then poll_account R now else done_with (Ok ())) (\<lambda>_.
     gets (schedule now))))))"

end
