(* ===== verification/Session_Ownership.thy ===== *)
theory Session_Ownership
  imports Account_Session
begin

section \<open>Nothing of one account follows another account's\<close>

text \<open>
  What subscribers see of a topic between two resets is one account's. \<open>wire\<close> is the account of the last
  publication of every topic that no reset followed; a poll that is not committed publishes its resets
  only. Polls run against any memory, so the account may change at any moment, belongs a poll too.
\<close>

subsection \<open>What a poll publishes\<close>

type_synonym wire = "string \<Rightarrow> AccountId option"

fun wire_call :: "('v \<Rightarrow> AccountId option) \<Rightarrow> 'v sink_call \<Rightarrow> wire \<Rightarrow> wire" where
  "wire_call acc (Call_Reset cap) w = w(sc_topic cap := None)"
| "wire_call acc (Call_Snapshot cap v) w = w(sc_topic cap := acc v)"
| "wire_call acc (Call_Event cap v) w = w(sc_topic cap := acc v)"
| "wire_call acc (Call_Health cap h) w = w"
| "wire_call acc (Call_Build build) w = w"

fun wire_reset :: "'v sink_call \<Rightarrow> wire \<Rightarrow> wire" where
  "wire_reset (Call_Reset cap) w = w(sc_topic cap := None)"
| "wire_reset call w = w"

definition belongs :: "'a option \<Rightarrow> 'a option \<Rightarrow> bool" where
  "belongs owner x \<longleftrightarrow> x = None \<or> x = owner"

fun admissible :: "('v \<Rightarrow> AccountId option) \<Rightarrow> wire \<Rightarrow> 'v sink_call \<Rightarrow> bool" where
  "admissible acc w (Call_Snapshot cap v) = belongs (acc v) (w (sc_topic cap))"
| "admissible acc w (Call_Event cap v) = belongs (acc v) (w (sc_topic cap))"
| "admissible acc w call = True"

fun unmixed :: "('v \<Rightarrow> AccountId option) \<Rightarrow> wire \<Rightarrow> 'v sink_call list \<Rightarrow> bool" where
  "unmixed acc w [] = True"
| "unmixed acc w (call # calls) = (admissible acc w call \<and> unmixed acc (wire_call acc call w) calls)"

definition full_wire :: "('v \<Rightarrow> AccountId option) \<Rightarrow> wire \<Rightarrow> 'v sink_call list \<Rightarrow> wire" where
  "full_wire acc w calls = fold (wire_call acc) calls w"

definition kept_wire :: "wire \<Rightarrow> 'v sink_call list \<Rightarrow> wire" where
  "kept_wire w calls = fold wire_reset calls w"

text \<open>A topic nobody wants any more starts afresh.\<close>

definition wire_demand :: "SdkCapability list \<Rightarrow> wire \<Rightarrow> wire" where
  "wire_demand demand w = (\<lambda>name. if list_ex (\<lambda>cap. sc_topic cap = name \<and> demanded_in demand cap) WARFRAME_CAPABILITIES then w name else None)"

subsection \<open>Any sequence of polls\<close>

datatype 'm session_event =
    Generation SdkCapability
  | Polled "SdkCapability list" duration 'm bool

text \<open>The last flag of a poll is whether the host commits it, which it cannot if the poll fails.\<close>

definition run_poll ::
  "('c, 'm, 'v, 'd, 'choice) Readers \<Rightarrow> SdkCapability list \<Rightarrow> duration \<Rightarrow> 'm \<Rightarrow> 'c WarframeSession \<Rightarrow>
   ('c, 'm, 'v) Polling \<times> (PollResult, ProviderError) result" where
  "run_poll R demand now m s = session_poll R demand now \<lparr>pl_session = s, pl_memory = m, pl_calls = []\<rparr>"

fun accounts_separate ::
  "('c, 'm, 'v, 'd, 'choice) Readers \<Rightarrow> ('v \<Rightarrow> AccountId option) \<Rightarrow> 'c WarframeSession \<Rightarrow> wire \<Rightarrow> 'm session_event list \<Rightarrow> bool" where
  "accounts_separate R acc s w [] = True"
| "accounts_separate R acc s w (Generation cap # events) = accounts_separate R acc (session_begin_generation cap s) w events"
| "accounts_separate R acc s w (Polled demand now m commit # events) =
     (case run_poll R demand now m s of
        (st, r) \<Rightarrow>
          (let w' = wire_demand demand w; calls = pl_calls st; committed = (commit \<and> is_ok r)
           in (committed \<longrightarrow> unmixed acc w' calls)
              \<and> accounts_separate R acc (session_poll_completed committed (pl_session st))
                  (if committed then full_wire acc w' calls else kept_wire w' calls) events))"

text \<open>The host's side of a poll, and what the data of every publication says.\<close>

definition host_answer :: "('v \<Rightarrow> string option) \<Rightarrow> usize \<Rightarrow> ProviderManifest \<Rightarrow> 'v sink_call list \<Rightarrow> 'v sink_call \<Rightarrow> (unit, ProviderError) result" where
  "host_answer ts n manifest calls call = snd (perform_call ts n call (poll_batch ts n manifest calls))"

fun published_account :: "('d \<Rightarrow> AccountId) \<Rightarrow> ('d, 'choice) Published \<Rightarrow> AccountId option" where
  "published_account of_data (Published_data d) = Some (of_data d)"
| "published_account of_data (Published_player p) = Some (ps_account_id p)"
| "published_account of_data (Published_chat e) = Some (ce_account_id e)"
| "published_account of_data (Published_screens s) = None"
| "published_account of_data (Published_relic r) = Some (rs_account_id r)"

subsection \<open>Calls\<close>

definition resets_of :: "'v sink_call list \<Rightarrow> string set" where
  "resets_of calls = {sc_topic cap | cap. Call_Reset cap \<in> set calls}"

lemma resets_of_simps [simp]:
  "resets_of [] = {}" "resets_of (xs @ ys) = resets_of xs \<union> resets_of ys"
  "resets_of [Call_Reset cap] = {sc_topic cap}" "resets_of [Call_Health cap h] = {}"
  "resets_of [Call_Snapshot cap v] = {}" "resets_of [Call_Event cap v] = {}"
  by (auto simp: resets_of_def)

lemma full_wire_simps [simp]:
  "full_wire acc w [] = w" "full_wire acc w (xs @ ys) = full_wire acc (full_wire acc w xs) ys"
  "full_wire acc w [c] = wire_call acc c w"
  by (simp_all add: full_wire_def)

lemma kept_wire_simps [simp]:
  "kept_wire w [] = w" "kept_wire w (xs @ ys) = kept_wire (kept_wire w xs) ys" "kept_wire w [c] = wire_reset c w"
  by (simp_all add: kept_wire_def)

lemma unmixed_append [simp]: "unmixed acc w (xs @ ys) \<longleftrightarrow> unmixed acc w xs \<and> unmixed acc (full_wire acc w xs) ys"
  by (induction xs arbitrary: w) (simp_all add: full_wire_def)

fun is_health :: "'v sink_call \<Rightarrow> bool" where
  "is_health (Call_Health cap h) = True"
| "is_health call = False"

lemma health_calls:
  assumes "list_all is_health hs"
  shows "full_wire acc w hs = w" and "kept_wire w hs = w" and "unmixed acc w hs" and "resets_of hs = {}"
proof -
  have "full_wire acc w hs = w \<and> kept_wire w hs = w \<and> unmixed acc w hs \<and> resets_of hs = {}"
    using assms
  proof (induction hs)
    case Nil
    then show ?case by simp
  next
    case (Cons h hs)
    then obtain cap x where "h = Call_Health cap x" by (cases h) auto
    then show ?case using Cons by (auto simp: full_wire_def kept_wire_def resets_of_def)
  qed
  then show "full_wire acc w hs = w" and "kept_wire w hs = w" and "unmixed acc w hs" and "resets_of hs = {}" by blast+
qed

subsection \<open>The host accepts a first reset\<close>

lemma push_resets [simp]: "reset_intents (fst (batch_push n op k b)) = reset_intents b"
  by (simp add: batch_push_def Let_def reset_intents_def)

lemma reject_resets [simp]: "reset_intents (fst (batch_reject b)) = reset_intents b"
  by (simp add: batch_reject_def reset_intents_def)

lemma push_manifest [simp]: "pb_manifest (fst (batch_push n op k b)) = pb_manifest b"
  by (simp add: batch_push_def Let_def)

lemma reject_manifest [simp]: "pb_manifest (fst (batch_reject b)) = pb_manifest b"
  by (simp add: batch_reject_def)

lemma perform_call_frame:
  "pb_manifest (fst (perform_call ts n call b)) = pb_manifest b
   \<and> set (reset_intents (fst (perform_call ts n call b))) \<subseteq>
       set (reset_intents b) \<union> {TopicRef (pm_id (pb_manifest b)) name v | name v. name \<in> resets_of [call]}"
proof (cases call)
  case (Call_Reset cap)
  then show ?thesis
    by (auto simp: events_reset_def batch_reject_def reset_intents_def batch_key_def Let_def split: option.splits if_splits)
next
  case (Call_Build build)
  then show ?thesis by (auto simp: batch_game_build_def batch_reject_def reset_intents_def split: option.splits)
qed (auto simp: events_snapshot_def events_event_def health_update_def split: option.splits result.splits)

lemma poll_batch_frame:
  "pb_manifest (poll_batch ts n manifest calls) = manifest
   \<and> set (reset_intents (poll_batch ts n manifest calls)) \<subseteq> {TopicRef (pm_id manifest) name v | name v. name \<in> resets_of calls}"
proof (induction calls rule: rev_induct)
  case Nil
  then show ?case by (simp add: poll_batch_def batch_new_def reset_intents_def)
next
  case (snoc call calls)
  have step: "poll_batch ts n manifest (calls @ [call]) = fst (perform_call ts n call (poll_batch ts n manifest calls))"
    by (simp add: poll_batch_def)
  show ?case
    using snoc perform_call_frame [of ts n call "poll_batch ts n manifest calls"] unfolding step by fastforce
qed

lemma host_answer_reset:
  assumes "cap \<in> set (pm_capabilities manifest)" and "sc_topic cap \<notin> resets_of calls"
  shows "host_answer ts n manifest calls (Call_Reset cap) = Ok ()"
proof -
  let ?b = "poll_batch ts n manifest calls"
  note frame = poll_batch_frame [of ts n manifest calls]
  have key: "batch_key ?b cap = Some (TopicRef (pm_id manifest) (sc_topic cap) (sc_schema_version cap))"
    using assms(1) frame by (auto simp: batch_key_def declared_def list_ex_iff)
  have "TopicRef (pm_id manifest) (sc_topic cap) (sc_schema_version cap) \<notin> set (pn_resets (pb_pending ?b))"
    using frame assms(2) by (auto simp: reset_intents_def)
  then show ?thesis by (simp add: host_answer_def events_reset_def key Let_def)
qed

end
