(* ===== verification/Session_Safety.thy ===== *)
theory Session_Safety
  imports Session_Ownership
begin

section \<open>Ownership through a poll\<close>

text \<open>
  Steps that keep the owner of everything are \<open>quiet\<close>; what remains are the resets, the changes of the
  login and of the relic owner, and the publications.
\<close>

subsection \<open>Quiet steps\<close>

definition same_owner :: "'c WarframeSession \<Rightarrow> 'c WarframeSession \<Rightarrow> bool" where
  "same_owner s s' \<longleftrightarrow>
     ws_login s' = ws_login s \<and> (ws_pending_chat s' = ws_pending_chat s \<or> ws_pending_chat s' = None)
     \<and> (\<forall>t. tt_demanded (ws_topics s' t) = tt_demanded (ws_topics s t)) \<and> vt_owner (ws_visual s') = vt_owner (ws_visual s)"

definition undisturbed :: "('c, 'm, 'v) Polling \<Rightarrow> ('c, 'm, 'v) Polling \<Rightarrow> bool" where
  "undisturbed st st' \<longleftrightarrow>
     same_owner (pl_session st) (pl_session st') \<and> (\<exists>hs. pl_calls st' = pl_calls st @ hs \<and> list_all is_health hs)"

definition quiet :: "(('c, 'm, 'v) Polling, 'a, 'e) attempt \<Rightarrow> ('a \<Rightarrow> bool) \<Rightarrow> bool" where
  "quiet m Q \<longleftrightarrow> (\<forall>st st' r. m st = (st', r) \<longrightarrow> undisturbed st st' \<and> (\<forall>x. r = Ok x \<longrightarrow> Q x))"

named_theorems quiet_rules

lemma same_owner_refl [simp]: "same_owner s s"
  by (simp add: same_owner_def)

lemma same_owner_trans: "same_owner s s' \<Longrightarrow> same_owner s' s'' \<Longrightarrow> same_owner s s''"
  by (auto simp: same_owner_def)

lemma undisturbed_refl [simp]: "undisturbed st st"
  by (auto simp: undisturbed_def)

lemma undisturbed_trans:
  assumes "undisturbed st st'" and "undisturbed st' st''"
  shows "undisturbed st st''"
proof -
  obtain hs hs' where "pl_calls st' = pl_calls st @ hs" "list_all is_health hs" "pl_calls st'' = pl_calls st' @ hs'" "list_all is_health hs'"
    using assms by (auto simp: undisturbed_def)
  then have "pl_calls st'' = pl_calls st @ (hs @ hs') \<and> list_all is_health (hs @ hs')" by simp
  then show ?thesis using assms same_owner_trans unfolding undisturbed_def by blast
qed

lemma quietD: "quiet m Q \<Longrightarrow> m st = (st', r) \<Longrightarrow> undisturbed st st'"
  by (simp add: quiet_def)

lemma quiet_value: "quiet m Q \<Longrightarrow> m st = (st', Ok x) \<Longrightarrow> Q x"
  by (simp add: quiet_def)

lemma quiet_weaken: "quiet m Q \<Longrightarrow> (\<And>x. Q x \<Longrightarrow> Q' x) \<Longrightarrow> quiet m Q'"
  by (auto simp: quiet_def)

lemma quiet_any: "quiet m Q \<Longrightarrow> quiet m (\<lambda>_. True)"
  by (erule quiet_weaken) simp

lemma quiet_and_then:
  assumes "quiet m Q" and "\<And>x. Q x \<Longrightarrow> quiet (f x) Q'"
  shows "quiet (and_then m f) Q'"
  unfolding quiet_def
proof (intro allI impI)
  fix st st' r assume run: "and_then m f st = (st', r)"
  obtain st1 r1 where m: "m st = (st1, r1)" by fastforce
  show "undisturbed st st' \<and> (\<forall>x. r = Ok x \<longrightarrow> Q' x)"
  proof (cases r1)
    case (Ok x)
    then have "f x st1 = (st', r)" using run m by (simp add: and_then_def)
    moreover have "quiet (f x) Q'" using assms(2) quiet_value [OF assms(1)] m Ok by simp
    ultimately show ?thesis using quietD [OF assms(1) m] undisturbed_trans unfolding quiet_def by blast
  next
    case (Err e)
    then show ?thesis using run m quietD [OF assms(1) m] by (auto simp: and_then_def)
  qed
qed

lemma quiet_seq [quiet_rules]:
  "quiet m (\<lambda>_. True) \<Longrightarrow> (\<And>x. quiet (f x) (\<lambda>_. True)) \<Longrightarrow> quiet (and_then m f) (\<lambda>_. True)"
  by (rule quiet_and_then)

lemma quiet_done: "(\<And>x. r = Ok x \<Longrightarrow> Q x) \<Longrightarrow> quiet (done_with r) Q"
  by (simp add: quiet_def done_with_def)

lemma quiet_done_any [quiet_rules]: "quiet (done_with r) (\<lambda>_. True)"
  by (simp add: quiet_done)

lemma quiet_gets [quiet_rules]: "quiet (gets f) (\<lambda>_. True)"
  by (auto simp: quiet_def gets_def)

lemma quiet_modify [quiet_rules]: "(\<And>s. same_owner s (f s)) \<Longrightarrow> quiet (modify f) (\<lambda>_. True)"
  by (auto simp: quiet_def modify_def session_update_def undisturbed_def)

lemma quiet_outcome: "quiet m Q \<Longrightarrow> quiet (outcome_of m) (\<lambda>r. \<forall>x. r = Ok x \<longrightarrow> Q x)"
  by (auto simp: quiet_def outcome_of_def split: prod.splits)

lemma quiet_outcome_any [quiet_rules]: "quiet m (\<lambda>_. True) \<Longrightarrow> quiet (outcome_of m) (\<lambda>_. True)"
  by (rule quiet_any [OF quiet_outcome])

lemma quiet_then_map: "quiet m Q \<Longrightarrow> (\<And>x. Q x \<Longrightarrow> Q' (f x)) \<Longrightarrow> quiet (then_map f m) Q'"
  unfolding then_map_def by (erule quiet_and_then, rule quiet_done) auto

lemma quiet_then_map_any [quiet_rules]: "quiet m (\<lambda>_. True) \<Longrightarrow> quiet (then_map f m) (\<lambda>_. True)"
  by (erule quiet_then_map) simp

lemma quiet_each [quiet_rules]: "(\<And>x. quiet (f x) (\<lambda>_. True)) \<Longrightarrow> quiet (each_of xs f) (\<lambda>_. True)"
  by (induction xs) (auto intro: quiet_rules)

lemma quiet_on_memory: "(\<And>m m' x. run m = (m', Ok x) \<Longrightarrow> Q x) \<Longrightarrow> quiet (on_memory run) Q"
  by (auto simp: quiet_def on_memory_def undisturbed_def split: prod.splits)

lemma quiet_on_memory_any [quiet_rules]: "quiet (on_memory run) (\<lambda>_. True)"
  by (rule quiet_on_memory) simp

lemma quiet_on_caches: "(\<And>m m' x. run m = (m', Ok x) \<Longrightarrow> Q x) \<Longrightarrow> quiet (on_caches run) Q"
  by (auto simp: quiet_def on_caches_def undisturbed_def same_owner_def session_update_def split: prod.splits)

lemma quiet_on_caches_any [quiet_rules]: "quiet (on_caches run) (\<lambda>_. True)"
  by (rule quiet_on_caches) simp

lemma quiet_health [quiet_rules]: "quiet (emit R (Call_Health cap h)) (\<lambda>_. True)"
  by (auto simp: quiet_def emit_def undisturbed_def)

lemma quiet_cached_ensure [quiet_rules]:
  "(\<And>c s. same_owner s (put c s)) \<Longrightarrow> quiet (cached_ensure get put now check) (\<lambda>_. True)"
  by (auto simp: quiet_def cached_ensure_def undisturbed_def session_update_def split: prod.splits)

lemma quiet_cached_validate [quiet_rules]:
  "(\<And>c s. same_owner s (put c s)) \<Longrightarrow> quiet (cached_validate get put now name check) (\<lambda>_. True)"
  by (auto simp: quiet_def cached_validate_def undisturbed_def session_update_def split: prod.splits)

lemma quiet_if [quiet_rules]: "(b \<Longrightarrow> quiet m Q) \<Longrightarrow> (\<not> b \<Longrightarrow> quiet m' Q) \<Longrightarrow> quiet (if b then m else m') Q"
  by simp

lemma quiet_result [quiet_rules]:
  "(\<And>x. r = Ok x \<Longrightarrow> quiet (f x) Q) \<Longrightarrow> (\<And>e. r = Err e \<Longrightarrow> quiet (g e) Q) \<Longrightarrow> quiet (case r of Ok x \<Rightarrow> f x | Err e \<Rightarrow> g e) Q"
  by (cases r) simp_all

lemma quiet_option [quiet_rules]:
  "(r = None \<Longrightarrow> quiet g Q) \<Longrightarrow> (\<And>x. r = Some x \<Longrightarrow> quiet (f x) Q) \<Longrightarrow> quiet (case r of None \<Rightarrow> g | Some x \<Rightarrow> f x) Q"
  by (cases r) simp_all

lemma quiet_prod [quiet_rules]: "(\<And>x y. p = (x, y) \<Longrightarrow> quiet (f x y) Q) \<Longrightarrow> quiet (case p of (x, y) \<Rightarrow> f x y) Q"
  by (cases p) simp

lemma quiet_resolution [quiet_rules]:
  "quiet f Q \<Longrightarrow> (\<And>x. quiet (g x) Q) \<Longrightarrow> quiet (case r of Absent \<Rightarrow> f | Present x \<Rightarrow> g x) Q"
  by (cases r) simp_all

subsection \<open>Checks and samples are quiet\<close>

lemma same_owner_layouts [quiet_rules, simp]: "same_owner s (layouts_update f s)"
  by (simp add: same_owner_def layouts_update_def)

lemma same_owner_topic [quiet_rules]: "(\<And>u. tt_demanded (f u) = tt_demanded u) \<Longrightarrow> same_owner s (topic_update t f s)"
  by (simp add: same_owner_def topic_update_def)

lemma same_owner_visual [quiet_rules]: "(\<And>v. vt_owner (f v) = vt_owner v) \<Longrightarrow> same_owner s (visual_update f s)"
  by (simp add: same_owner_def visual_update_def)

lemma same_owner_clear_chat [quiet_rules]: "same_owner s (clear_chat s)"
  by (simp add: same_owner_def clear_chat_def)

lemma same_owner_fields [simp]:
  "same_owner s (s\<lparr>ws_profile_data := p\<rparr>)" "same_owner s (s\<lparr>ws_executable := e\<rparr>)" "same_owner s (s\<lparr>ws_build_name := b\<rparr>)"
  "same_owner s (s\<lparr>ws_chat_staged := g\<rparr>)"
  by (simp_all add: same_owner_def)

lemma quiet_layouts [quiet_rules]:
  "quiet (layout_profile_commit R exe now) (\<lambda>_. True)" "quiet (layout_inventory_owner R exe now) (\<lambda>_. True)"
  "quiet (layout_client R exe now) (\<lambda>_. True)" "quiet (layout_world R exe now) (\<lambda>_. True)"
  "quiet (layout_string_tokens R exe now) (\<lambda>_. True)" "quiet (layout_item_paths R exe now) (\<lambda>_. True)"
  "quiet (layout_account R exe now) (\<lambda>_. True)" "quiet (layout_profile_data R exe now) (\<lambda>_. True)"
  unfolding layout_profile_commit_def layout_inventory_owner_def layout_client_def layout_world_def layout_string_tokens_def
    layout_item_paths_def layout_account_def layout_profile_data_def
  by (rule quiet_rules same_owner_layouts | assumption)+

lemma quiet_executable [quiet_rules]: "quiet (ensure_executable R now) (\<lambda>_. True)"
  unfolding ensure_executable_def by (intro quiet_rules) simp_all

lemma quiet_layout_topic [quiet_rules]: "quiet (layout_topic R exe now t) (\<lambda>_. True)"
  unfolding layout_topic_def by (intro quiet_rules) simp

lemma quiet_layout_ready [quiet_rules]: "quiet (layout_ready R exe now t) (\<lambda>_. True)"
  unfolding layout_ready_def by (intro quiet_rules)

lemma quiet_next_poll [quiet_rules]: "quiet (next_poll t at) (\<lambda>_. True)"
  unfolding next_poll_def by (intro quiet_rules) simp

lemma quiet_topic_unavailable [quiet_rules]: "quiet (topic_unavailable R t retry) (\<lambda>_. True)"
  unfolding topic_unavailable_def by (intro quiet_rules)

lemma quiet_each_demanded [quiet_rules]: "(\<And>t. quiet (f t) (\<lambda>_. True)) \<Longrightarrow> quiet (each_demanded topics f) (\<lambda>_. True)"
  unfolding each_demanded_def by (intro quiet_rules)

lemma quiet_unavailable [quiet_rules]:
  "quiet (account_unavailable R retry) (\<lambda>_. True)" "quiet (data_unavailable R retry) (\<lambda>_. True)"
  unfolding account_unavailable_def data_unavailable_def by (intro quiet_rules)+

lemma quiet_validate_account_topic [quiet_rules]: "quiet (validate_account_topic R exe now t) (\<lambda>_. True)"
  unfolding validate_account_topic_def by (intro quiet_rules)

lemma quiet_validate_due [quiet_rules]: "quiet (validate_due R exe now) (\<lambda>_. True)"
  unfolding validate_due_def validate_profile_data_def validate_progression_due_def by (intro quiet_rules)


subsection \<open>What samples say\<close>

text \<open>The account of every sample is the one of the owner it was read from.\<close>

definition sampled_for :: "('a \<Rightarrow> AccountId) \<Rightarrow> AccountId \<Rightarrow> ('a, 'e) result option \<Rightarrow> bool" where
  "sampled_for account owner sample \<longleftrightarrow> (\<forall>x. sample = Some (Ok x) \<longrightarrow> account x = owner)"

definition data_named :: "('c, 'm, 'v, 'd, 'choice) Readers \<Rightarrow> ('d \<Rightarrow> AccountId) \<Rightarrow> bool" where
  "data_named R of_data \<longleftrightarrow>
     (\<forall>t exe owner s s' d. wr_sample R t exe owner s = (s', Ok d) \<longrightarrow> of_data d = ai_account_id (pd_account owner))"

lemma map_err_Ok [simp]: "map_err f r = Ok x \<longleftrightarrow> r = Ok x"
  by (cases r) simp_all

lemma quiet_sample_data:
  assumes named: "data_named R of_data" and owner: "\<And>p. data = Some p \<Longrightarrow> pd_account p = before"
  shows "quiet (sample_data R exe now data t) (sampled_for of_data (ai_account_id before))"
proof (cases data)
  case None
  then show ?thesis
    unfolding sample_data_def by (auto intro!: quiet_and_then [OF quiet_gets] quiet_done simp: sampled_for_def)
next
  case (Some o')
  have "quiet (on_caches (wr_sample R t exe o')) (\<lambda>d. of_data d = ai_account_id before)"
    using named owner [OF Some] by (auto intro!: quiet_on_caches simp: data_named_def)
  then have "quiet (then_map (\<lambda>r. Some (map_err (\<lambda>e. sample_retry e now t) r)) (outcome_of (on_caches (wr_sample R t exe o'))))
      (sampled_for of_data (ai_account_id before))"
    by (intro quiet_then_map [OF quiet_outcome]) (auto simp: sampled_for_def)
  then show ?thesis
    unfolding sample_data_def Some by (auto intro!: quiet_and_then [OF quiet_gets] quiet_done simp: sampled_for_def)
qed

lemma quiet_sample_player:
  "quiet (sample_player R exe now before) (\<lambda>p. ps_account_id p = ai_account_id before)"
  unfolding sample_player_def
proof (rule quiet_and_then [OF quiet_layout_topic])
  fix u :: unit
  have "quiet (on_memory (read_player (wr_backend R) (ex_base exe) (ef_image_size (ex_actual exe)) before)) (\<lambda>p. ps_account_id p = ai_account_id before)"
    by (rule quiet_on_memory) (simp add: read_player_account)
  then show "quiet (and_then (outcome_of (on_memory (read_player (wr_backend R) (ex_base exe) (ef_image_size (ex_actual exe)) before)))
      (\<lambda>sample. done_with (map_err (\<lambda>e. sample_retry (read_unavailable e) now PLAYER) sample))) (\<lambda>p. ps_account_id p = ai_account_id before)"
    by (rule quiet_and_then [OF quiet_outcome]) (auto intro!: quiet_done)
qed

lemma quiet_sample_chat [quiet_rules]: "quiet (sample_chat R exe now data) (\<lambda>_. True)"
  unfolding sample_chat_def by (intro quiet_rules)

lemma quiet_acquire_samples:
  assumes "data_named R of_data" and "\<And>p. data = Some p \<Longrightarrow> pd_account p = before"
  shows "quiet (acquire_samples R exe now before data) (\<lambda>s.
    sampled_for of_data (ai_account_id before) (sm_inventory s) \<and> sampled_for of_data (ai_account_id before) (sm_currencies s)
    \<and> sampled_for of_data (ai_account_id before) (sm_mastery s) \<and> sampled_for of_data (ai_account_id before) (sm_intrinsics s)
    \<and> sampled_for of_data (ai_account_id before) (sm_star_chart s) \<and> sampled_for ps_account_id (ai_account_id before) (sm_player s))"
proof -
  have data: "quiet (sample_data R exe now data t) (sampled_for of_data (ai_account_id before))" for t
    by (rule quiet_sample_data [OF assms(1)]) (rule assms(2))
  have player: "quiet (if b then then_map Some (outcome_of (sample_player R exe now before)) else done_with (Ok None))
      (sampled_for ps_account_id (ai_account_id before))" for b
    by (auto intro!: quiet_if quiet_then_map [OF quiet_outcome [OF quiet_sample_player]] quiet_done simp: sampled_for_def)
  show ?thesis
    unfolding acquire_samples_def
    apply (rule quiet_and_then [OF data])+
    apply (rule quiet_and_then [OF quiet_gets])
    apply (rule quiet_prod)
    apply (rule quiet_and_then [OF player])
    apply (rule quiet_and_then [OF quiet_sample_chat])
    apply (rule quiet_and_then [where Q = "\<lambda>_. True"])
     apply (intro quiet_rules)
    apply (rule quiet_done)
    apply (auto simp: sampled_for_def split: if_splits)
    done
qed


subsection \<open>The invariant\<close>

definition login_account :: "'c WarframeSession \<Rightarrow> AccountId option" where
  "login_account s = map_option ai_account_id (ws_login s)"

definition relic_account :: "'c WarframeSession \<Rightarrow> AccountId option" where
  "relic_account s = map_option (\<lambda>r. ai_account_id (ro_login r)) (vt_owner (ws_visual s))"

definition account_topic :: "AccountTopic \<Rightarrow> string" where
  "account_topic t = sc_topic (account_cap t)"

definition pending_owned :: "'c WarframeSession \<Rightarrow> bool" where
  "pending_owned s \<longleftrightarrow>
     (case ws_pending_chat s of None \<Rightarrow> True | Some p \<Rightarrow> list_all (\<lambda>e. Some (ce_account_id e) = login_account s) (pc_events p))"

definition wire_owned :: "'c WarframeSession \<Rightarrow> wire \<Rightarrow> bool" where
  "wire_owned s w \<longleftrightarrow>
     (\<forall>t. belongs (login_account s) (w (account_topic t))) \<and> belongs (relic_account s) (w (sc_topic RELIC_REWARDS_CAP))
     \<and> w (sc_topic SCREENS_CAP) = None"

definition owned :: "'c WarframeSession \<Rightarrow> wire \<Rightarrow> bool" where
  "owned s w \<longleftrightarrow> pending_owned s \<and> wire_owned s w"

text \<open>During a poll that started with \<open>w\<close>: what holds if it fails, and what holds if it goes on.\<close>

definition keeps :: "wire \<Rightarrow> ('c, 'm, 'v) Polling \<Rightarrow> bool" where
  "keeps w st \<longleftrightarrow> owned (pl_session st) (kept_wire w (pl_calls st))"

definition going :: "('v \<Rightarrow> AccountId option) \<Rightarrow> wire \<Rightarrow> ('c, 'm, 'v) Polling \<Rightarrow> bool" where
  "going acc w st \<longleftrightarrow> keeps w st \<and> owned (pl_session st) (full_wire acc w (pl_calls st)) \<and> unmixed acc w (pl_calls st)"

definition fresh :: "AccountTopic list \<Rightarrow> ('c, 'm, 'v) Polling \<Rightarrow> bool" where
  "fresh ts st \<longleftrightarrow> (\<forall>t \<in> set ts. account_topic t \<notin> resets_of (pl_calls st))"

definition cleared :: "('v \<Rightarrow> AccountId option) \<Rightarrow> wire \<Rightarrow> AccountTopic list \<Rightarrow> ('c, 'm, 'v) Polling \<Rightarrow> bool" where
  "cleared acc w ts st \<longleftrightarrow>
     (\<forall>t \<in> set ts. full_wire acc w (pl_calls st) (account_topic t) = None \<and> kept_wire w (pl_calls st) (account_topic t) = None)"

text \<open>Topics nobody wants have nothing on the wire.\<close>

definition idle :: "('v \<Rightarrow> AccountId option) \<Rightarrow> wire \<Rightarrow> ('c, 'm, 'v) Polling \<Rightarrow> bool" where
  "idle acc w st \<longleftrightarrow> (\<forall>t. \<not> tt_demanded (ws_topics (pl_session st) t) \<longrightarrow> cleared acc w [t] st)"

lemma belongs_simps [simp]: "belongs x None" "belongs x x" "belongs None x \<longleftrightarrow> x = None"
  by (auto simp: belongs_def)

lemma going_keeps: "going acc w st \<Longrightarrow> keeps w st"
  by (simp add: going_def)

lemma account_topic_inject [simp]: "account_topic t = account_topic u \<longleftrightarrow> t = u"
  by (cases t; cases u) (simp_all add: account_topic_def capability_def)

lemma account_topic_visual [simp]:
  "account_topic t \<noteq> sc_topic SCREENS_CAP" "account_topic t \<noteq> sc_topic RELIC_REWARDS_CAP"
  "sc_topic SCREENS_CAP \<noteq> account_topic t" "sc_topic RELIC_REWARDS_CAP \<noteq> account_topic t"
  "sc_topic RELIC_REWARDS_CAP \<noteq> sc_topic SCREENS_CAP" "sc_topic SCREENS_CAP \<noteq> sc_topic RELIC_REWARDS_CAP"
  by (cases t; simp add: account_topic_def capability_def SCREENS_CAP_def RELIC_REWARDS_CAP_def)+

lemma account_cap_topic [simp]: "sc_topic (account_cap t) = account_topic t"
  by (simp add: account_topic_def)

lemma all_account_topics [simp]: "t \<in> set account_topics"
  by (cases t) (simp_all add: account_topics_def)

lemma data_topics_set: "t \<in> set data_topics \<longleftrightarrow> t \<noteq> PLAYER"
  by (cases t) (simp_all add: data_topics_def)

lemma same_owner_owned: "same_owner s s' \<Longrightarrow> owned s w \<Longrightarrow> owned s' w"
  by (auto simp: same_owner_def owned_def pending_owned_def wire_owned_def login_account_def relic_account_def split: option.splits)

lemma undisturbed_calls:
  assumes "undisturbed st st'"
  shows "full_wire acc w (pl_calls st') = full_wire acc w (pl_calls st)" and "kept_wire w (pl_calls st') = kept_wire w (pl_calls st)"
    and "unmixed acc w (pl_calls st') = unmixed acc w (pl_calls st)" and "resets_of (pl_calls st') = resets_of (pl_calls st)"
  using assms by (auto simp: undisturbed_def health_calls)

lemma undisturbed_keeps: "undisturbed st st' \<Longrightarrow> keeps w st \<Longrightarrow> keeps w st'"
  using undisturbed_calls(2) [of st st' w] same_owner_owned by (fastforce simp: keeps_def undisturbed_def)

lemma undisturbed_going:
  assumes "undisturbed st st'" and "going acc w st"
  shows "going acc w st'"
  using assms undisturbed_keeps undisturbed_calls [OF assms(1)] same_owner_owned
  by (auto simp: going_def undisturbed_def)

lemma undisturbed_fresh: "undisturbed st st' \<Longrightarrow> fresh ts st' = fresh ts st"
  by (simp add: fresh_def undisturbed_calls)

lemma undisturbed_cleared: "undisturbed st st' \<Longrightarrow> cleared acc w ts st' = cleared acc w ts st"
  by (simp add: cleared_def undisturbed_calls)

lemma undisturbed_idle: "undisturbed st st' \<Longrightarrow> idle acc w st' = idle acc w st"
  by (simp add: idle_def undisturbed_cleared) (simp add: undisturbed_def same_owner_def)

lemma undisturbed_login: "undisturbed st st' \<Longrightarrow> ws_login (pl_session st') = ws_login (pl_session st)"
  by (simp add: undisturbed_def same_owner_def)

lemmas undisturbed_frame = undisturbed_fresh undisturbed_cleared undisturbed_idle undisturbed_login


subsection \<open>Resets\<close>

definition real_host :: "('c, 'm, 'v, 'd, 'choice) Readers \<Rightarrow> ('v \<Rightarrow> string option) \<Rightarrow> usize \<Rightarrow> ProviderManifest \<Rightarrow> bool" where
  "real_host R ts n manifest \<longleftrightarrow> wr_host R = host_answer ts n manifest \<and> pm_capabilities manifest = WARFRAME_CAPABILITIES"

lemma account_cap_declared [simp]: "account_cap t \<in> set WARFRAME_CAPABILITIES"
  by (cases t) (simp_all add: WARFRAME_CAPABILITIES_def)

definition reset_calls :: "AccountTopic list \<Rightarrow> 'v sink_call list" where
  "reset_calls ts = map (\<lambda>t. Call_Reset (account_cap t)) ts"

lemma reset_calls_wire:
  "full_wire acc w (reset_calls ts) name = (if name \<in> account_topic ` set ts then None else w name)"
  "kept_wire w (reset_calls ts) name = (if name \<in> account_topic ` set ts then None else w name)"
  by (induction ts arbitrary: w) (auto simp: reset_calls_def full_wire_def kept_wire_def)

lemma reset_calls_frame: "unmixed acc w (reset_calls ts)" "resets_of (reset_calls ts :: 'v sink_call list) = account_topic ` set ts"
proof -
  show "unmixed acc w (reset_calls ts)" by (induction ts arbitrary: w) (auto simp: reset_calls_def)
  show "resets_of (reset_calls ts :: 'v sink_call list) = account_topic ` set ts"
  proof (induction ts)
    case Nil
    then show ?case by (simp add: reset_calls_def)
  next
    case (Cons t ts)
    have "reset_calls (t # ts) = [Call_Reset (account_cap t)] @ (reset_calls ts :: 'v sink_call list)" by (simp add: reset_calls_def)
    then show ?case using Cons by (simp only: resets_of_simps) simp
  qed
qed

text \<open>What the reset of some topics changes.\<close>

definition reset_to :: "AccountTopic list \<Rightarrow> ('c, 'm, 'v) Polling \<Rightarrow> ('c, 'm, 'v) Polling \<Rightarrow> bool" where
  "reset_to ts st st' \<longleftrightarrow>
     same_owner (pl_session st) (pl_session st')
     \<and> pl_calls st' = pl_calls st @ reset_calls (filter (\<lambda>t. tt_demanded (ws_topics (pl_session st) t)) ts)"

lemma reset_topics_run:
  assumes host: "real_host R tx n manifest" and "distinct ts" and "fresh ts st"
  shows "\<exists>st'. reset_topics R now ts st = (st', Ok ()) \<and> reset_to ts st st'"
  using assms(2,3)
proof (induction ts arbitrary: st)
  case Nil
  then show ?case by (simp add: reset_topics_def each_demanded_def done_with_def reset_to_def reset_calls_def)
next
  case (Cons t ts)
  have later: "\<exists>st'. reset_topics R now ts u = (st', Ok ()) \<and> reset_to ts u st'" if "fresh ts u" for u
    using Cons.IH [OF _ that] Cons.prems(1) by simp
  let ?u = "session_update (topic_update t (\<lambda>u. u\<lparr>tt_next_poll := now\<rparr>)) (st\<lparr>pl_calls := pl_calls st @ [Call_Reset (account_cap t)]\<rparr>)"
  have flags: "tt_demanded (ws_topics (pl_session ?u) x) = tt_demanded (ws_topics (pl_session st) x)" for x
    by (simp add: session_update_def topic_update_def)
  have same: "same_owner (pl_session st) (pl_session ?u)"
    by (simp add: session_update_def same_owner_topic)
  show ?case
  proof (cases "tt_demanded (ws_topics (pl_session st) t)")
    case True
    have accept: "wr_host R (pl_calls st) (Call_Reset (account_cap t)) = Ok ()"
      using host host_answer_reset [of "account_cap t" manifest "pl_calls st" tx n] Cons.prems(2) by (simp add: real_host_def fresh_def)
    have "fresh ts ?u"
      using Cons.prems by (auto simp: fresh_def session_update_def)
    then obtain st' where st': "reset_topics R now ts ?u = (st', Ok ())" "reset_to ts ?u st'" using later by blast
    have "reset_topics R now (t # ts) st = (st', Ok ())"
      using st'(1) True accept
      by (simp add: reset_topics_def each_demanded_def and_then_def gets_def emit_def next_poll_def modify_def session_update_def)
    moreover have "reset_to (t # ts) st st'"
      using st'(2) True same_owner_trans [OF same] flags by (auto simp: reset_to_def reset_calls_def session_update_def)
    ultimately show ?thesis by blast
  next
    case False
    then have "fresh ts st" using Cons.prems(2) by (simp add: fresh_def)
    then obtain st' where "reset_topics R now ts st = (st', Ok ())" "reset_to ts st st'" using later by blast
    then show ?thesis
      using False by (auto simp: reset_topics_def each_demanded_def and_then_def gets_def done_with_def reset_to_def)
  qed
qed

text \<open>The wire afterwards.\<close>

lemma reset_to_wire:
  assumes "reset_to ts st st'"
  shows "full_wire acc w (pl_calls st') name = None \<or> full_wire acc w (pl_calls st') name = full_wire acc w (pl_calls st) name"
    and "kept_wire w (pl_calls st') name = None \<or> kept_wire w (pl_calls st') name = kept_wire w (pl_calls st) name"
    and "unmixed acc w (pl_calls st') = unmixed acc w (pl_calls st)"
  using assms by (auto simp: reset_to_def reset_calls_wire reset_calls_frame)

lemma reset_to_cleared:
  assumes "reset_to ts st st'" and "idle acc w st"
  shows "cleared acc w ts st'" and "idle acc w st'"
proof -
  have flags: "tt_demanded (ws_topics (pl_session st') t) = tt_demanded (ws_topics (pl_session st) t)" for t
    using assms(1) by (simp add: reset_to_def same_owner_def)
  show "idle acc w st'"
    using assms(2) reset_to_wire(1,2) [OF assms(1)] unfolding idle_def cleared_def flags by (metis (full_types))
  show "cleared acc w ts st'"
    using assms by (auto simp: cleared_def reset_to_def reset_calls_wire idle_def image_iff)
qed

lemma reset_to_keeps_cleared: "reset_to ts st st' \<Longrightarrow> cleared acc w us st \<Longrightarrow> cleared acc w us st'"
  using reset_to_wire(1,2) unfolding cleared_def by (metis (full_types))

lemma reset_to_fresh: "reset_to ts st st' \<Longrightarrow> fresh us st \<Longrightarrow> set us \<inter> set ts = {} \<Longrightarrow> fresh us st'"
  by (auto simp: fresh_def reset_to_def reset_calls_frame)

lemma owned_shrinks: "owned s w \<Longrightarrow> (\<And>name. w' name = None \<or> w' name = w name) \<Longrightarrow> owned s w'"
  unfolding owned_def wire_owned_def belongs_def by metis

lemma reset_to_going:
  assumes "reset_to ts st st'" and "going acc w st"
  shows "going acc w st'"
proof -
  have same: "same_owner (pl_session st) (pl_session st')" using assms(1) by (simp add: reset_to_def)
  have "owned (pl_session st) (full_wire acc w (pl_calls st'))"
    by (rule owned_shrinks [OF _ reset_to_wire(1) [OF assms(1)]]) (use assms(2) in \<open>simp add: going_def\<close>)
  moreover have "owned (pl_session st) (kept_wire w (pl_calls st'))"
    by (rule owned_shrinks [OF _ reset_to_wire(2) [OF assms(1)]]) (use assms(2) in \<open>simp add: going_def keeps_def\<close>)
  ultimately show ?thesis
    using assms(2) reset_to_wire(3) [OF assms(1)] same_owner_owned [OF same] by (simp add: going_def keeps_def)
qed

subsection \<open>Steps of the account part\<close>

definition holds :: "('s \<Rightarrow> bool) \<Rightarrow> ('s, 'a, 'e) attempt \<Rightarrow> ('a \<Rightarrow> 's \<Rightarrow> bool) \<Rightarrow> ('s \<Rightarrow> bool) \<Rightarrow> bool" where
  "holds P m Q E \<longleftrightarrow> (\<forall>s s' r. P s \<longrightarrow> m s = (s', r) \<longrightarrow> (case r of Ok x \<Rightarrow> Q x s' | Err e \<Rightarrow> E s'))"

definition steady :: "(('c, 'm, 'v) Polling \<Rightarrow> bool) \<Rightarrow> bool" where
  "steady P \<longleftrightarrow> (\<forall>st st'. undisturbed st st' \<longrightarrow> P st \<longrightarrow> P st')"

lemma holds_and_then:
  "holds P m Q E \<Longrightarrow> (\<And>x. holds (Q x) (f x) R E) \<Longrightarrow> holds P (and_then m f) R E"
  unfolding holds_def and_then_def by (fastforce split: prod.splits result.splits)

lemma holds_consequence:
  "holds P' m Q' E \<Longrightarrow> (\<And>s. P s \<Longrightarrow> P' s) \<Longrightarrow> (\<And>x s. Q' x s \<Longrightarrow> Q x s) \<Longrightarrow> holds P m Q E"
  unfolding holds_def by (fastforce split: result.splits)

lemma holds_pre: "holds P' m Q E \<Longrightarrow> (\<And>s. P s \<Longrightarrow> P' s) \<Longrightarrow> holds P m Q E"
  unfolding holds_def by blast

lemma holds_quiet:
  assumes "quiet m Q" and "steady P" and "\<And>s. P s \<Longrightarrow> E s"
  shows "holds P m (\<lambda>x s. P s \<and> Q x) E"
  unfolding holds_def
proof (intro allI impI)
  fix s s' r assume "P s" "m s = (s', r)"
  moreover from this have "P s'" using assms(1,2) unfolding steady_def quiet_def by blast
  ultimately show "case r of Ok x \<Rightarrow> P s' \<and> Q x | Err e \<Rightarrow> E s'" using assms(1,3) by (auto simp: quiet_def split: result.splits)
qed

lemma holds_silent: "quiet m (\<lambda>_. True) \<Longrightarrow> steady P \<Longrightarrow> (\<And>s. P s \<Longrightarrow> E s) \<Longrightarrow> holds P m (\<lambda>_. P) E"
  by (rule holds_consequence [OF holds_quiet [of m "\<lambda>_. True" P E]]) auto

lemma holds_done: "(\<And>s x. P s \<Longrightarrow> r = Ok x \<Longrightarrow> Q x s) \<Longrightarrow> (\<And>s. P s \<Longrightarrow> E s) \<Longrightarrow> holds P (done_with r) Q E"
  by (auto simp: holds_def done_with_def split: result.splits)

lemma holds_gets: "holds P (gets f) (\<lambda>x s. P s \<and> x = f (pl_session s)) E"
  by (simp add: holds_def gets_def)

lemma holds_modify: "(\<And>s. P s \<Longrightarrow> Q (session_update f s)) \<Longrightarrow> holds P (modify f) (\<lambda>_. Q) E"
  by (simp add: holds_def modify_def)

lemma steady_going [simp]: "steady (going acc w)"
  by (auto simp: steady_def undisturbed_going)

lemma steady_keeps [simp]: "steady (keeps w)"
  by (auto simp: steady_def undisturbed_keeps)

definition entering :: "('v \<Rightarrow> AccountId option) \<Rightarrow> wire \<Rightarrow> ('c, 'm, 'v) Polling \<Rightarrow> bool" where
  "entering acc w st \<longleftrightarrow> going acc w st \<and> idle acc w st \<and> fresh account_topics st"

text \<open>Between the two resolutions: \<open>reset\<close> and \<open>data_reset\<close> are the code's flags.\<close>

definition attending ::
  "('v \<Rightarrow> AccountId option) \<Rightarrow> wire \<Rightarrow> AccountIdentity \<Rightarrow> bool \<Rightarrow> bool \<Rightarrow> ('c, 'm, 'v) Polling \<Rightarrow> bool" where
  "attending acc w before reset data_reset st \<longleftrightarrow>
     going acc w st \<and> idle acc w st \<and> ws_login (pl_session st) = Some before
     \<and> (reset \<longrightarrow> cleared acc w account_topics st) \<and> (\<not> reset \<longrightarrow> fresh [PLAYER] st)
     \<and> (data_reset \<longrightarrow> cleared acc w data_topics st) \<and> (\<not> data_reset \<longrightarrow> fresh data_topics st) \<and> (reset \<longrightarrow> data_reset)"

lemma steady_entering [simp]: "steady (entering acc w)"
  by (auto simp: steady_def entering_def undisturbed_going undisturbed_frame)

lemma steady_attending [simp]: "steady (attending acc w before reset data_reset)"
  unfolding steady_def attending_def using undisturbed_going by (simp add: undisturbed_frame) blast

lemma fresh_account: "fresh account_topics st \<longleftrightarrow> fresh data_topics st \<and> fresh [PLAYER] st"
  using all_account_topics by (auto simp: fresh_def data_topics_set)

lemma cleared_account: "cleared acc w account_topics st \<longleftrightarrow> cleared acc w data_topics st \<and> cleared acc w [PLAYER] st"
  using all_account_topics by (auto simp: cleared_def data_topics_set)

text \<open>A session whose account topics are cleared belongs to any login, if no chat is pending.\<close>

lemma cleared_going:
  assumes "going acc w st" and "cleared acc w account_topics st"
    and "pl_calls st' = pl_calls st" and "ws_pending_chat (pl_session st') = None" and "relic_account (pl_session st') = relic_account (pl_session st)"
  shows "going acc w st'"
  using assms by (auto simp: going_def keeps_def owned_def pending_owned_def wire_owned_def cleared_def)

lemma distinct_topics [simp]: "distinct account_topics" "distinct data_topics"
  by (simp_all add: account_topics_def data_topics_def)

lemma reset_account_run:
  assumes "real_host R tx n manifest" and "idle acc w st" and "fresh account_topics st"
  obtains st' where "reset_account R now st = (st', Ok ())" and "reset_to account_topics st st'"
    and "cleared acc w account_topics st'" and "idle acc w st'" and "ws_pending_chat (pl_session st') = None"
proof -
  let ?u = "session_update (\<lambda>s. clear_chat (s\<lparr>ws_profile_data := None\<rparr>)) st"
  have u: "fresh account_topics ?u" "same_owner (pl_session st) (pl_session ?u)" "ws_pending_chat (pl_session ?u) = None"
    using assms(3) by (simp_all add: fresh_def session_update_def clear_chat_def same_owner_def)
  obtain st' where run: "reset_topics R now account_topics ?u = (st', Ok ())" "reset_to account_topics ?u st'"
    using reset_topics_run [OF assms(1) _ u(1)] by auto
  have to: "reset_to account_topics st st'"
    using run(2) same_owner_trans [OF u(2)] by (auto simp: reset_to_def session_update_def clear_chat_def)
  have "reset_account R now st = (st', Ok ())" using run(1) by (simp add: reset_account_def and_then_def modify_def)
  moreover have "ws_pending_chat (pl_session st') = None" using run(2) u(3) by (auto simp: reset_to_def same_owner_def)
  ultimately show ?thesis using that to reset_to_cleared [OF to assms(2)] by blast
qed


lemma reset_going:
  assumes "going acc w st" and "pl_calls u = pl_calls st" and "relic_account (pl_session u) = relic_account (pl_session st)"
    and "reset_to account_topics u st'" and "cleared acc w account_topics st'" and "ws_pending_chat (pl_session st') = None"
  shows "going acc w st'"
proof -
  have relic: "relic_account (pl_session st') = relic_account (pl_session st)"
    using assms(3,4) by (simp add: reset_to_def same_owner_def relic_account_def)
  have "wire_owned (pl_session st') (full_wire acc w (pl_calls st'))"
    using assms(1,2,5) reset_to_wire(1) [OF assms(4), of acc w] relic
    unfolding going_def owned_def wire_owned_def cleared_def belongs_def by (metis all_account_topics)
  moreover have "wire_owned (pl_session st') (kept_wire w (pl_calls st'))"
    using assms(1,2,5) reset_to_wire(2) [OF assms(4), of w] relic
    unfolding going_def keeps_def owned_def wire_owned_def cleared_def belongs_def by (metis all_account_topics)
  ultimately show ?thesis
    using assms(1,2,6) reset_to_wire(3) [OF assms(4), of acc w] by (simp add: going_def keeps_def owned_def pending_owned_def)
qed

text \<open>Nothing of any account is published or pending.\<close>

definition blank :: "('v \<Rightarrow> AccountId option) \<Rightarrow> wire \<Rightarrow> ('c, 'm, 'v) Polling \<Rightarrow> bool" where
  "blank acc w st \<longleftrightarrow> going acc w st \<and> idle acc w st \<and> cleared acc w account_topics st \<and> ws_pending_chat (pl_session st) = None"

lemma steady_blank [simp]: "steady (blank acc w)"
  unfolding steady_def
proof (intro allI impI)
  fix st st' assume moved: "undisturbed st st'" and st: "blank acc w st"
  have "ws_pending_chat (pl_session st') = None" using moved st by (auto simp: blank_def undisturbed_def same_owner_def)
  then show "blank acc w st'" using undisturbed_going [OF moved] st by (simp add: blank_def undisturbed_frame [OF moved])
qed

lemma blank_going: "blank acc w st \<Longrightarrow> going acc w st"
  by (simp add: blank_def)

lemma blank_keeps: "blank acc w st \<Longrightarrow> keeps w st"
  by (auto simp: blank_def dest: going_keeps)

lemma holds_reset_account:
  assumes "real_host R tx n manifest"
  shows "holds (entering acc w) (reset_account R now) (\<lambda>_. blank acc w) E"
  unfolding holds_def
proof (intro allI impI)
  fix st st' r assume st: "entering acc w st" and run: "reset_account R now st = (st', r)"
  obtain st'' where st'': "reset_account R now st = (st'', Ok ())" "reset_to account_topics st st''"
    "cleared acc w account_topics st''" "idle acc w st''" "ws_pending_chat (pl_session st'') = None"
    using reset_account_run [OF assms, of acc w st now] st unfolding entering_def by blast
  then have "blank acc w st''" using reset_to_going [OF st''(2)] st unfolding blank_def entering_def by blast
  then show "case r of Ok x \<Rightarrow> blank acc w st' | Err e \<Rightarrow> E st'" using run st''(1) by auto
qed

lemma holds_clear_login:
  assumes "real_host R tx n manifest"
  shows "holds (entering acc w) (clear_login R now) (\<lambda>_. going acc w) E"
  unfolding holds_def
proof (intro allI impI)
  fix st st' :: "('a, 'b, 'c) Polling" and r :: "(unit, ProviderError) result"
  assume st: "entering acc w st" and run: "clear_login R now st = (st', r)"
  let ?u = "session_update (\<lambda>s. s\<lparr>ws_login := None\<rparr>) st"
  show "case r of Ok x \<Rightarrow> going acc w st' | Err e \<Rightarrow> E st'"
  proof (cases "ws_login (pl_session st)")
    case None
    then have "?u = st" by (cases st; cases "pl_session st") (simp add: session_update_def)
    then show ?thesis
      using None run st by (auto simp: clear_login_def and_then_def gets_def modify_def done_with_def entering_def)
  next
    case (Some login)
    have u: "idle acc w ?u" "fresh account_topics ?u" "relic_account (pl_session ?u) = relic_account (pl_session st)" "pl_calls ?u = pl_calls st"
      using st by (simp_all add: entering_def idle_def cleared_def fresh_def session_update_def relic_account_def)
    obtain st'' where st'': "reset_account R now ?u = (st'', Ok ())" "reset_to account_topics ?u st''"
      "cleared acc w account_topics st''" "ws_pending_chat (pl_session st'') = None"
      using reset_account_run [OF assms u(1,2)] by blast
    have "going acc w st" using st by (simp add: entering_def)
    then have "going acc w st''" using reset_going u(3,4) st''(2-4) by blast
    then show ?thesis
      using Some run st''(1) by (auto simp: clear_login_def and_then_def gets_def modify_def)
  qed
qed

subsection \<open>The account before the reads\<close>

lemma login_none_owned:
  assumes "owned s w" and "ws_login s = None"
  shows "owned (s\<lparr>ws_login := x\<rparr>) w"
proof -
  have "pending_owned (s\<lparr>ws_login := x\<rparr>)"
  proof (cases "ws_pending_chat s")
    case (Some p)
    then have "pc_events p = []" using assms by (cases "pc_events p") (auto simp: owned_def pending_owned_def login_account_def)
    then show ?thesis using Some by (simp add: pending_owned_def)
  qed (simp add: pending_owned_def)
  then show ?thesis using assms by (auto simp: owned_def wire_owned_def login_account_def relic_account_def)
qed

lemma entering_login:
  assumes "entering acc w st" and "ws_login (pl_session st) = None \<or> ws_login (pl_session st) = Some before"
  shows "attending acc w before False False (session_update (\<lambda>s. s\<lparr>ws_login := Some before\<rparr>) st)"
proof -
  have same: "(pl_session st)\<lparr>ws_login := Some before\<rparr> = pl_session st" if "ws_login (pl_session st) = Some before"
    using that by (cases "pl_session st") simp
  have "owned ((pl_session st)\<lparr>ws_login := Some before\<rparr>) w'" if "owned (pl_session st) w'" for w'
    using assms(2) login_none_owned [OF that] same that by metis
  then show ?thesis
    using assms(1) by (auto simp: entering_def attending_def going_def keeps_def session_update_def idle_def cleared_def fresh_account
        fresh_def)
qed

lemma blank_login:
  assumes "blank acc w st"
  shows "attending acc w before True True (session_update (\<lambda>s. s\<lparr>ws_login := Some before\<rparr>) st)"
proof -
  have "going acc w (session_update (\<lambda>s. s\<lparr>ws_login := Some before\<rparr>) st)"
    by (rule cleared_going [of acc w st]) (use assms in \<open>simp_all add: blank_def session_update_def relic_account_def\<close>)
  then show ?thesis
    using assms by (auto simp: attending_def blank_def idle_def cleared_def session_update_def)
qed

definition account_settled :: "('v \<Rightarrow> AccountId option) \<Rightarrow> wire \<Rightarrow> (AccountIdentity \<times> bool) option \<Rightarrow> ('c, 'm, 'v) Polling \<Rightarrow> bool" where
  "account_settled acc w r st \<longleftrightarrow> (case r of None \<Rightarrow> going acc w st | Some (before, reset) \<Rightarrow> attending acc w before reset reset st)"

lemma holds_account_lost:
  assumes host: "real_host R tx n manifest"
  shows "holds (entering acc w) (account_lost R now reason) (account_settled acc w) (keeps w)"
  unfolding account_lost_def
  apply (rule holds_and_then [OF holds_clear_login [OF host]])
  apply (rule holds_and_then [OF holds_silent [OF quiet_unavailable(1)]])
    apply (auto intro!: holds_done simp: account_settled_def dest: going_keeps)
  done

lemma holds_account_found:
  assumes host: "real_host R tx n manifest"
  shows "holds (entering acc w) (account_found R exe now before) (account_settled acc w) (keeps w)"
  unfolding account_found_def
proof (rule holds_and_then [OF holds_gets])
  fix reset
  let ?P = "\<lambda>st. if reset then blank acc w st
      else entering acc w st \<and> (ws_login (pl_session st) = None \<or> ws_login (pl_session st) = Some before)"
  let ?start = "\<lambda>s. entering acc w s \<and> reset = (ws_login (pl_session s) \<noteq> None \<and> ws_login (pl_session s) \<noteq> Some before)"
  have "holds (entering acc w) (and_then (reset_account R now) (\<lambda>_. validate_due R exe now)) (\<lambda>_. blank acc w) (keeps w)"
    by (rule holds_and_then [OF holds_reset_account [OF host] holds_silent [OF quiet_validate_due]]) (auto simp: blank_keeps)
  then have first: "holds ?start (if reset then and_then (reset_account R now) (\<lambda>_. validate_due R exe now) else done_with (Ok ())) (\<lambda>_. ?P) (keeps w)"
    by (cases reset) (auto elim: holds_pre intro!: holds_done simp: entering_def dest: going_keeps)
  have last: "holds ?P (and_then (modify (\<lambda>s. s\<lparr>ws_login := Some before\<rparr>)) (\<lambda>_. done_with (Ok (Some (before, reset)))))
      (account_settled acc w) (keeps w)"
  proof (rule holds_and_then [OF holds_modify])
    fix st assume "?P st"
    then show "attending acc w before reset reset (session_update (\<lambda>s. s\<lparr>ws_login := Some before\<rparr>) st)"
      using entering_login blank_login by (cases reset) auto
  qed (auto intro!: holds_done simp: attending_def account_settled_def dest: going_keeps)
  show "holds ?start
      (and_then (if reset then and_then (reset_account R now) (\<lambda>_. validate_due R exe now) else done_with (Ok ())) (\<lambda>_.
       and_then (modify (\<lambda>s. s\<lparr>ws_login := Some before\<rparr>)) (\<lambda>_. done_with (Ok (Some (before, reset))))))
      (account_settled acc w) (keeps w)"
    by (rule holds_and_then [OF first last])
qed

lemma holds_account_before:
  assumes host: "real_host R tx n manifest"
  shows "holds (entering acc w) (account_before R exe now) (account_settled acc w) (keeps w)"
proof -
  have start: "holds (entering acc w) (outcome_of (on_memory (resolve_login R exe))) (\<lambda>_. entering acc w) (keeps w)"
    by (rule holds_silent) (auto intro!: quiet_rules simp: entering_def dest: going_keeps)
  show ?thesis
    unfolding account_before_def
    by (rule holds_and_then [OF start])
      (auto simp: holds_account_lost [OF host] holds_account_found [OF host] split: result.splits AccountResolution.splits)
qed

end
