(* ===== verification/Session_Publishing.thy ===== *)
theory Session_Publishing
  imports Session_Safety
begin

section \<open>Publication belongs to the login\<close>

lemma attending_keeps: "attending acc w before reset dr st \<Longrightarrow> keeps w st"
  by (auto simp: attending_def dest: going_keeps)

subsection \<open>Profile data\<close>

lemma clear_profile_data_run:
  assumes host: "real_host R tx n manifest" and "\<not> dr \<Longrightarrow> fresh data_topics st"
  shows "\<exists>st' dr'. clear_profile_data R now dr st = (st', Ok dr')
    \<and> (dr' = dr \<and> undisturbed st st' \<or> \<not> dr \<and> dr' \<and> reset_to data_topics st st')"
proof (cases "ws_profile_data (pl_session st) = None")
  case True
  then show ?thesis
    by (simp add: clear_profile_data_def and_then_def gets_def modify_def done_with_def undisturbed_def session_update_def)
next
  case False
  let ?u = "session_update (\<lambda>s. clear_chat (s\<lparr>ws_profile_data := None\<rparr>)) st"
  have u: "same_owner (pl_session st) (pl_session ?u)" "pl_calls ?u = pl_calls st"
    by (simp_all add: session_update_def same_owner_def clear_chat_def)
  have run: "clear_profile_data R now dr st =
      (if dr then done_with (Ok dr) else and_then (reset_topics R now data_topics) (\<lambda>_. done_with (Ok True))) ?u"
    using False by (simp add: clear_profile_data_def and_then_def gets_def modify_def session_update_def)
  show ?thesis
  proof (cases dr)
    case True
    then show ?thesis using u unfolding run by (auto simp: done_with_def undisturbed_def)
  next
    case False
    then have "fresh data_topics ?u" using assms(2) by (simp add: fresh_def u(2))
    then obtain st' where "reset_topics R now data_topics ?u = (st', Ok ())" "reset_to data_topics ?u st'"
      using reset_topics_run [OF host distinct_topics(2)] by blast
    moreover have "reset_to data_topics st st'"
      using calculation(2) u same_owner_trans [OF u(1)] by (auto simp: reset_to_def session_update_def clear_chat_def)
    ultimately show ?thesis using False unfolding run by (auto simp: and_then_def done_with_def)
  qed
qed

lemma attending_clear:
  assumes "attending acc w before reset dr st" and "dr' = dr \<and> undisturbed st st' \<or> \<not> dr \<and> dr' \<and> reset_to data_topics st st'"
  shows "attending acc w before reset dr' st'"
proof (cases "dr' = dr \<and> undisturbed st st'")
  case True
  then show ?thesis using assms(1) steady_attending unfolding steady_def by blast
next
  case False
  then have r: "\<not> dr" "dr'" "reset_to data_topics st st'" using assms(2) by auto
  then have st: "going acc w st" "idle acc w st" "\<not> reset" "fresh [PLAYER] st" using assms(1) by (auto simp: attending_def)
  have "fresh [PLAYER] st'" by (rule reset_to_fresh [OF r(3) st(4)]) (simp add: data_topics_def)
  moreover have "ws_login (pl_session st') = Some before" using r(3) assms(1) by (simp add: reset_to_def same_owner_def attending_def)
  ultimately show ?thesis
    using st r(2) reset_to_going [OF r(3) st(1)] reset_to_cleared [OF r(3) st(2)] by (simp add: attending_def)
qed

lemma holds_clear_profile_data:
  assumes "real_host R tx n manifest"
  shows "holds (attending acc w before reset dr) (clear_profile_data R now dr) (\<lambda>dr'. attending acc w before reset dr') E"
  unfolding holds_def
proof (intro allI impI)
  fix st st' r assume st: "attending acc w before reset dr st" and run: "clear_profile_data R now dr st = (st', r)"
  have "\<not> dr \<Longrightarrow> fresh data_topics st" using st by (simp add: attending_def)
  from clear_profile_data_run [OF assms this] obtain u d where u: "clear_profile_data R now dr st = (u, Ok d)"
    "d = dr \<and> undisturbed st u \<or> \<not> dr \<and> d \<and> reset_to data_topics st u" by blast
  then show "case r of Ok dr' \<Rightarrow> attending acc w before reset dr' st' | Err e \<Rightarrow> E st'"
    using attending_clear [OF st u(2)] run by auto
qed

lemma attending_profile:
  "attending acc w before reset dr st \<Longrightarrow> attending acc w before reset dr (session_update (\<lambda>s. s\<lparr>ws_profile_data := p\<rparr>) st)"
  using steady_attending [of acc w before reset dr] unfolding steady_def
  by (metis quietD [OF quiet_modify [of "\<lambda>s. s\<lparr>ws_profile_data := p\<rparr>"]] modify_def same_owner_fields(1))

definition data_of :: "AccountIdentity \<Rightarrow> ProfileDataIdentity option \<Rightarrow> bool" where
  "data_of before data \<longleftrightarrow> (\<forall>p. data = Some p \<longrightarrow> pd_account p = before)"

definition data_settled ::
  "('v \<Rightarrow> AccountId option) \<Rightarrow> wire \<Rightarrow> AccountIdentity \<Rightarrow> bool \<Rightarrow> ProfileDataIdentity option \<times> bool \<Rightarrow> ('c, 'm, 'v) Polling \<Rightarrow> bool" where
  "data_settled acc w before reset r st \<longleftrightarrow> attending acc w before reset (snd r) st \<and> data_of before (fst r)"

lemma holds_profile_data_lost:
  assumes host: "real_host R tx n manifest"
  shows "holds (attending acc w before reset reset) (profile_data_lost R now reason reset) (data_settled acc w before reset) (keeps w)"
  unfolding profile_data_lost_def
  apply (rule holds_and_then [OF holds_clear_profile_data [OF host]])
  apply (rule holds_and_then [OF holds_silent [OF quiet_unavailable(2)]])
    apply (auto intro!: holds_done simp: data_settled_def data_of_def dest: attending_keeps)
  done

lemma holds_profile_data_found:
  assumes host: "real_host R tx n manifest" and account: "pd_account owner = before"
  shows "holds (attending acc w before reset reset) (profile_data_found R exe now owner reset) (data_settled acc w before reset) (keeps w)"
  unfolding profile_data_found_def
proof (rule holds_and_then [OF holds_silent [OF quiet_gets steady_attending]])
  fix changed
  have "holds (attending acc w before reset reset)
      (and_then (clear_profile_data R now reset) (\<lambda>reset'. and_then (validate_due R exe now) (\<lambda>_. done_with (Ok reset'))))
      (\<lambda>dr. attending acc w before reset dr) (keeps w)"
    apply (rule holds_and_then [OF holds_clear_profile_data [OF host]])
    apply (rule holds_and_then [OF holds_silent [OF quiet_validate_due]])
      apply (auto intro!: holds_done dest: attending_keeps)
    done
  then have first: "holds (attending acc w before reset reset)
      (if changed then and_then (clear_profile_data R now reset) (\<lambda>reset'. and_then (validate_due R exe now) (\<lambda>_. done_with (Ok reset')))
       else done_with (Ok reset)) (\<lambda>dr. attending acc w before reset dr) (keeps w)"
    by (auto intro!: holds_done dest: attending_keeps)
  show "holds (attending acc w before reset reset)
    (and_then (if changed then and_then (clear_profile_data R now reset) (\<lambda>reset'. and_then (validate_due R exe now) (\<lambda>_. done_with (Ok reset')))
         else done_with (Ok reset)) (\<lambda>reset'.
     and_then (modify (\<lambda>s. s\<lparr>ws_profile_data := Some owner\<rparr>)) (\<lambda>_. done_with (Ok (Some owner, reset')))))
    (data_settled acc w before reset) (keeps w)"
    apply (rule holds_and_then [OF first])
    apply (rule holds_and_then [OF holds_modify])
     apply (erule attending_profile)
    apply (auto intro!: holds_done simp: data_settled_def data_of_def account dest: attending_keeps)
    done
qed (auto dest: attending_keeps)

lemma holds_profile_data_before:
  assumes host: "real_host R tx n manifest"
  shows "holds (attending acc w before reset reset) (profile_data_before R exe now before reset) (data_settled acc w before reset) (keeps w)"
proof -
  have resolved: "holds (attending acc w before reset reset) (outcome_of (on_memory (resolve_data R exe before)))
      (\<lambda>r st. attending acc w before reset reset st \<and> (\<forall>x. r = Ok x \<longrightarrow> data_of before x)) (keeps w)"
    by (rule holds_quiet [OF quiet_outcome [OF quiet_on_memory]])
      (auto simp: data_of_def resolve_data_def dest: resolve_profile_data_account attending_keeps)
  have settle: "holds (\<lambda>st. attending acc w before reset reset st \<and> (\<forall>x. r = Ok x \<longrightarrow> data_of before x))
      (case r of Ok (Some owner) \<Rightarrow> profile_data_found R exe now owner reset
       | Ok None \<Rightarrow> profile_data_lost R now SdkTargetNotReady reset
       | Err e \<Rightarrow> profile_data_lost R now (resolve_unavailable e) reset) (data_settled acc w before reset) (keeps w)" for r
  proof (cases "\<exists>owner. r = Ok (Some owner)")
    case True
    then obtain owner where r: "r = Ok (Some owner)" by blast
    show ?thesis
    proof (cases "pd_account owner = before")
      case True
      show ?thesis unfolding r result.case option.case by (rule holds_pre [OF holds_profile_data_found [OF host True]]) simp
    qed (simp add: r data_of_def holds_def)
  next
    case False
    then show ?thesis by (auto intro: holds_pre [OF holds_profile_data_lost [OF host]] split: result.splits option.splits)
  qed
  show ?thesis
    unfolding profile_data_before_def
    by (rule holds_and_then [OF holds_silent [OF quiet_gets steady_attending]])
      (auto intro!: holds_and_then [OF resolved settle] holds_done simp: data_settled_def data_of_def dest: attending_keeps)
qed


subsection \<open>The account after the reads\<close>

lemma attending_cleared:
  assumes "attending acc w before reset dr st" and "reset \<or> (dr \<and> cleared acc w [PLAYER] st)"
  shows "cleared acc w account_topics st"
  using assms by (auto simp: attending_def cleared_account)

lemma holds_lose_account:
  assumes host: "real_host R tx n manifest"
  shows "holds (attending acc w before reset dr)
    (if \<not> reset then (if dr then reset_player R now else reset_account R now) else done_with (Ok ()))
    (\<lambda>_ st. going acc w st \<and> cleared acc w account_topics st) E"
  unfolding holds_def
proof (intro allI impI)
  fix st st' and r :: "(unit, ProviderError) result"
  assume st: "attending acc w before reset dr st"
    and run: "(if \<not> reset then (if dr then reset_player R now else reset_account R now) else done_with (Ok ())) st = (st', r)"
  have st0: "going acc w st" "idle acc w st" using st by (auto simp: attending_def)
  consider (all) reset | (player) "\<not> reset" dr | (none) "\<not> reset" "\<not> dr" by blast
  then have "r = Ok () \<and> going acc w st' \<and> cleared acc w account_topics st'"
  proof cases
    case all
    then show ?thesis using run st0 attending_cleared [OF st] by (auto simp: done_with_def)
  next
    case player
    then have "fresh [PLAYER] st" "cleared acc w data_topics st" using st by (auto simp: attending_def)
    then obtain u where u: "reset_topics R now [PLAYER] st = (u, Ok ())" "reset_to [PLAYER] st u"
      using reset_topics_run [OF host, of "[PLAYER]" st] by auto
    have "cleared acc w account_topics u"
      using reset_to_cleared(1) [OF u(2) st0(2)] reset_to_keeps_cleared [OF u(2)] \<open>cleared acc w data_topics st\<close> by (simp add: cleared_account)
    then show ?thesis using reset_to_going [OF u(2) st0(1)] u(1) run player by (simp add: reset_player_def)
  next
    case none
    then have "fresh account_topics st" using st by (auto simp: attending_def fresh_account)
    then obtain u where u: "reset_account R now st = (u, Ok ())" "reset_to account_topics st u" "cleared acc w account_topics u"
      using reset_account_run [OF host st0(2)] by blast
    then show ?thesis using reset_to_going [OF u(2) st0(1)] run none by simp
  qed
  then show "case r of Ok x \<Rightarrow> going acc w st' \<and> cleared acc w account_topics st' | Err e \<Rightarrow> E st'" by simp
qed

lemma holds_account_unchanged:
  assumes host: "real_host R tx n manifest"
  shows "holds (attending acc w before reset dr) (account_unchanged R exe now before reset dr)
    (\<lambda>ok st. if ok then attending acc w before reset dr st else going acc w st) (keeps w)"
  unfolding account_unchanged_def
proof (rule holds_and_then [OF holds_silent [OF quiet_outcome_any [OF quiet_on_memory_any] steady_attending]])
  fix after
  have gone: "holds (attending acc w before reset dr)
     (and_then (if \<not> reset then (if dr then reset_player R now else reset_account R now) else done_with (Ok ())) (\<lambda>_.
      and_then (modify (\<lambda>s. clear_chat (s\<lparr>ws_login := None, ws_profile_data := None\<rparr>))) (\<lambda>_.
      and_then (account_unavailable R (account_retry SdkTargetNotReady now)) (\<lambda>_. done_with (Ok False)))))
     (\<lambda>ok st. if ok then attending acc w before reset dr st else going acc w st) (keeps w)"
    apply (rule holds_and_then [OF holds_lose_account [OF host]])
    apply (rule holds_and_then [OF holds_modify [where Q = "going acc w"]])
     apply (rule cleared_going, erule conjunct1, erule conjunct2)
       apply (simp_all add: session_update_def clear_chat_def relic_account_def)
    apply (rule holds_and_then [OF holds_silent [OF quiet_unavailable(1)]])
      apply (auto intro!: holds_done dest: going_keeps)
    done
  show "holds (attending acc w before reset dr)
     (if after \<noteq> Ok (Present before)
      then and_then (if \<not> reset then (if dr then reset_player R now else reset_account R now) else done_with (Ok ())) (\<lambda>_.
           and_then (modify (\<lambda>s. clear_chat (s\<lparr>ws_login := None, ws_profile_data := None\<rparr>))) (\<lambda>_.
           and_then (account_unavailable R (account_retry SdkTargetNotReady now)) (\<lambda>_. done_with (Ok False))))
      else done_with (Ok True))
     (\<lambda>ok st. if ok then attending acc w before reset dr st else going acc w st) (keeps w)"
    using gone by (auto intro!: holds_done dest: attending_keeps)
qed (auto dest: attending_keeps)

subsection \<open>Publications\<close>

definition publishing :: "('v \<Rightarrow> AccountId option) \<Rightarrow> wire \<Rightarrow> AccountIdentity \<Rightarrow> bool \<Rightarrow> ('c, 'm, 'v) Polling \<Rightarrow> bool" where
  "publishing acc w before dr st \<longleftrightarrow> going acc w st \<and> ws_login (pl_session st) = Some before \<and> (\<not> dr \<longrightarrow> fresh data_topics st)"

definition values_named :: "('c, 'm, 'v, 'd, 'choice) Readers \<Rightarrow> ('v \<Rightarrow> AccountId option) \<Rightarrow> ('d \<Rightarrow> AccountId) \<Rightarrow> bool" where
  "values_named R acc of_data \<longleftrightarrow> (\<forall>x v. wr_to_value R x = Ok v \<longrightarrow> acc v = published_account of_data x)"

lemma steady_publishing [simp]: "steady (publishing acc w before dr)"
  unfolding steady_def publishing_def by (auto simp: undisturbed_frame undisturbed_going)

lemma publishing_keeps: "publishing acc w before dr st \<Longrightarrow> keeps w st"
  by (auto simp: publishing_def dest: going_keeps)

lemma publishing_call:
  assumes "publishing acc w before dr st" and "acc v = Some (ai_account_id before)"
    and "call = Call_Snapshot (account_cap t) v \<or> call = Call_Event (account_cap t) v"
  shows "publishing acc w before dr (st\<lparr>pl_calls := pl_calls st @ [call]\<rparr>)"
proof -
  have account: "login_account (pl_session st) = acc v" using assms(1,2) by (simp add: publishing_def login_account_def)
  then have now: "belongs (acc v) (full_wire acc w (pl_calls st) (account_topic t))"
    using assms(1) by (auto simp: publishing_def going_def owned_def wire_owned_def)
  have wires: "wire_call acc call x = x(account_topic t := acc v)" "wire_reset call x = x" "resets_of [call] = {}" for x
    using assms(3) by auto
  have "owned (pl_session st) ((full_wire acc w (pl_calls st))(account_topic t := acc v))"
    using assms(1) account by (auto simp: publishing_def going_def owned_def wire_owned_def)
  moreover have "admissible acc (full_wire acc w (pl_calls st)) call" using assms(3) now by auto
  ultimately show ?thesis using assms(1) by (simp add: publishing_def going_def keeps_def fresh_def wires)
qed

lemma and_then_done [simp]:
  "and_then (done_with (Ok x)) f = f x" "and_then (done_with (Err e)) f = done_with (Err e)"
  by (rule ext, simp add: and_then_def done_with_def)+

lemma holds_emit:
  assumes "acc v = Some (ai_account_id before)" and "call = Call_Snapshot (account_cap t) v \<or> call = Call_Event (account_cap t) v"
  shows "holds (publishing acc w before dr) (emit R call) (\<lambda>_. publishing acc w before dr) (keeps w)"
proof -
  have "publishing acc w before dr (st\<lparr>pl_calls := pl_calls st @ [call]\<rparr>) \<and> keeps w (st\<lparr>pl_calls := pl_calls st @ [call]\<rparr>)"
    if "publishing acc w before dr st" for st
    using publishing_call [where v = v and t = t, OF that assms] publishing_keeps by blast
  then show ?thesis by (auto simp: holds_def emit_def split: result.splits)
qed

lemma holds_publish_sample:
  assumes named: "values_named R acc of_data"
    and sampled: "\<And>x. sample = Some (Ok x) \<Longrightarrow> published_account of_data x = Some (ai_account_id before)"
  shows "holds (publishing acc w before dr) (publish_sample R now t sample) (\<lambda>_. publishing acc w before dr) (keeps w)"
proof (cases "\<exists>x. sample = Some (Ok x)")
  case True
  then obtain x where x: "sample = Some (Ok x)" by blast
  have "holds (publishing acc w before dr) (publish R (account_cap t) x) (\<lambda>_. publishing acc w before dr) (keeps w)"
  proof (cases "to_payload R x")
    case (Ok v)
    then have "acc v = Some (ai_account_id before)" using named sampled [OF x] by (auto simp: to_payload_def values_named_def)
    from holds_emit [where acc = acc and v = v and t = t and before = before, OF this, of "Call_Snapshot (account_cap t) v"] show ?thesis using Ok by (simp add: publish_def)
  next
    case (Err e)
    then show ?thesis by (auto simp: publish_def intro!: holds_done dest: publishing_keeps)
  qed
  then show ?thesis
    unfolding x publish_sample_def option.case result.case
    by (rule holds_and_then [OF _ holds_silent [OF quiet_next_poll]]) (auto dest: publishing_keeps)
next
  case False
  have "quiet (publish_sample R now t sample) (\<lambda>_. True)"
    using False unfolding publish_sample_def by (auto intro!: quiet_rules split: option.splits result.splits)
  then show ?thesis by (rule holds_silent) (auto dest: publishing_keeps)
qed


lemma publishing_pending:
  assumes "publishing acc w before dr st" and "list_all (\<lambda>e. ce_account_id e = ai_account_id before) (pc_events p)"
  shows "publishing acc w before dr (session_update (\<lambda>s. s\<lparr>ws_pending_chat := Some p\<rparr>) st)"
  using assms by (auto simp: publishing_def going_def keeps_def owned_def pending_owned_def wire_owned_def login_account_def
      relic_account_def session_update_def fresh_def list_all_iff)

definition events_of :: "AccountIdentity \<Rightarrow> PendingChat \<Rightarrow> bool" where
  "events_of before p \<longleftrightarrow> list_all (\<lambda>e. ce_account_id e = ai_account_id before) (pc_events p)"

lemma publishing_events:
  "publishing acc w before dr st \<Longrightarrow> ws_pending_chat (pl_session st) = Some p \<Longrightarrow> events_of before p"
  by (auto simp: publishing_def going_def owned_def pending_owned_def login_account_def events_of_def list_all_iff)

lemma holds_prepare_pending:
  "holds (publishing acc w before dr) (prepare_pending R before history local_name)
    (\<lambda>p st. publishing acc w before dr st \<and> events_of before p) (keeps w)"
  unfolding holds_def
proof (intro allI impI)
  fix st st' and r :: "(PendingChat, ProviderError) result"
  assume st: "publishing acc w before dr st" and run: "prepare_pending R before history local_name st = (st', r)"
  note unfolded = prepare_pending_def and_then_def gets_def done_with_def modify_def Let_def
  show "case r of Ok p \<Rightarrow> publishing acc w before dr st' \<and> events_of before p | Err e \<Rightarrow> keeps w st'"
  proof (cases "ws_pending_chat (pl_session st)")
    case (Some p)
    then show ?thesis using run st publishing_events [OF st Some] by (auto simp: unfolded)
  next
    case None
    have "st' = st \<and> (\<exists>e. r = Err e)
      \<or> (\<exists>p. events_of before p \<and> r = Ok p \<and> st' = session_update (\<lambda>s. s\<lparr>ws_pending_chat := Some p\<rparr>) st)"
      using run None by (auto simp: unfolded events_of_def list_all_iff split: result.splits option.splits prod.splits)
    then show ?thesis
      using st publishing_keeps [OF st] publishing_pending [OF st] by (auto simp: events_of_def)
  qed
qed

lemma holds_publish_events:
  assumes named: "values_named R acc of_data" and "list_all (\<lambda>e. ce_account_id e = ai_account_id before) events"
  shows "holds (publishing acc w before dr) (publish_events R events) (\<lambda>_. publishing acc w before dr) (keeps w)"
  using assms(2)
proof (induction events)
  case Nil
  then show ?case by (auto simp: publish_events_def intro!: holds_done dest: publishing_keeps)
next
  case (Cons e events)
  have one: "holds (publishing acc w before dr)
      (and_then (done_with (to_payload R (Published_chat e))) (\<lambda>payload. emit R (Call_Event (account_cap CHAT) payload)))
      (\<lambda>_. publishing acc w before dr) (keeps w)"
  proof (cases "to_payload R (Published_chat e)")
    case (Ok v)
    then have "acc v = Some (ai_account_id before)" using named Cons.prems by (auto simp: to_payload_def values_named_def)
    from holds_emit [where acc = acc and v = v and t = CHAT and before = before, OF this, of "Call_Event (account_cap CHAT) v"]
    show ?thesis using Ok by (simp del: account_cap.simps)
  next
    case (Err e)
    then show ?thesis by (auto intro!: holds_done dest: publishing_keeps)
  qed
  show ?case
    using Cons holds_and_then [OF one] by (simp add: publish_events_def)
qed

lemma holds_publish_chat:
  assumes named: "values_named R acc of_data"
  shows "holds (publishing acc w before dr) (publish_chat R now before chat local_name) (\<lambda>_. publishing acc w before dr) (keeps w)"
proof (cases "\<exists>history. chat = Some (Ok history)")
  case True
  then obtain history where chat: "chat = Some (Ok history)" by blast
  have publish: "holds (\<lambda>st. publishing acc w before dr st \<and> events_of before p)
      (and_then (modify (\<lambda>s. s\<lparr>ws_chat_staged := True\<rparr>)) (\<lambda>_.
       and_then (emit R (Call_Health (account_cap CHAT) SdkAvailable)) (\<lambda>_.
       and_then (publish_events R (pc_events p)) (\<lambda>_.
       next_poll CHAT (duration_saturating_add now (if pc_more p then CHAT_BACKLOG_INTERVAL else CHAT_INTERVAL))))))
      (\<lambda>_. publishing acc w before dr) (keeps w)" for p
  proof (cases "events_of before p")
    case True
    then have events: "list_all (\<lambda>e. ce_account_id e = ai_account_id before) (pc_events p)" by (simp add: events_of_def)
    have "holds (publishing acc w before dr)
      (and_then (modify (\<lambda>s. s\<lparr>ws_chat_staged := True\<rparr>)) (\<lambda>_.
       and_then (emit R (Call_Health (account_cap CHAT) SdkAvailable)) (\<lambda>_.
       and_then (publish_events R (pc_events p)) (\<lambda>_.
       next_poll CHAT (duration_saturating_add now (if pc_more p then CHAT_BACKLOG_INTERVAL else CHAT_INTERVAL))))))
      (\<lambda>_. publishing acc w before dr) (keeps w)"
      apply (rule holds_and_then [OF holds_silent [OF quiet_modify]])
         apply (rule same_owner_fields)
        apply (rule steady_publishing)
       apply (erule publishing_keeps)
      apply (rule holds_and_then [OF holds_silent [OF quiet_health]])
        apply (rule steady_publishing)
       apply (erule publishing_keeps)
      apply (rule holds_and_then [OF holds_publish_events [OF named events]])
      apply (rule holds_silent [OF quiet_next_poll])
       apply (auto dest: publishing_keeps)
      done
    then show ?thesis by (rule holds_pre) simp
  qed (simp add: holds_def)
  show ?thesis
    unfolding chat publish_chat_def option.case result.case by (rule holds_and_then [OF holds_prepare_pending publish])
next
  case False
  have "quiet (publish_chat R now before chat local_name) (\<lambda>_. True)"
    using False unfolding publish_chat_def by (auto intro!: quiet_rules split: option.splits result.splits)
  then show ?thesis by (rule holds_silent) (auto dest: publishing_keeps)
qed

lemma published_Ok: "published f sample = Some (Ok x) \<longleftrightarrow> (\<exists>y. sample = Some (Ok y) \<and> x = f y)"
  by (cases sample) (auto simp: published_def split: result.splits)

lemma sampled_published:
  "sampled_for ps_account_id a player \<Longrightarrow> published Published_player player = Some (Ok x) \<Longrightarrow> published_account of_data x = Some a"
  "sampled_for of_data a data \<Longrightarrow> published Published_data data = Some (Ok x) \<Longrightarrow> published_account of_data x = Some a"
  by (auto simp: sampled_for_def published_Ok)

definition samples_of :: "('d \<Rightarrow> AccountId) \<Rightarrow> AccountId \<Rightarrow> 'd Samples \<Rightarrow> bool" where
  "samples_of of_data a s \<longleftrightarrow>
     sampled_for of_data a (sm_inventory s) \<and> sampled_for of_data a (sm_currencies s) \<and> sampled_for of_data a (sm_mastery s)
     \<and> sampled_for of_data a (sm_intrinsics s) \<and> sampled_for of_data a (sm_star_chart s) \<and> sampled_for ps_account_id a (sm_player s)"

lemma holds_publish_samples:
  assumes host: "real_host R tx n manifest" and named: "values_named R acc of_data" and samples: "samples_of of_data (ai_account_id before) samples"
  shows "holds (publishing acc w before dr) (publish_samples R now before data dr samples) (\<lambda>_. going acc w) (keeps w)"
proof -
  note player = holds_publish_sample [OF named sampled_published(1)] and data = holds_publish_sample [OF named sampled_published(2)]
  have lost: "holds (publishing acc w before dr) (and_then (clear_profile_data R now dr) (\<lambda>_. data_unavailable R (data_retry SdkTargetNotReady now)))
      (\<lambda>_. going acc w) (keeps w)"
  proof (rule holds_and_then [OF _ holds_silent [OF quiet_unavailable(2)]])
    show "holds (publishing acc w before dr) (clear_profile_data R now dr) (\<lambda>_. going acc w) (keeps w)"
      unfolding holds_def
    proof (intro allI impI)
      fix st st' r assume st: "publishing acc w before dr st" and run: "clear_profile_data R now dr st = (st', r)"
      have "\<not> dr \<Longrightarrow> fresh data_topics st" using st by (simp add: publishing_def)
      from clear_profile_data_run [OF host this, of dr now] obtain u d where u: "clear_profile_data R now dr st = (u, Ok d)"
        "undisturbed st u \<or> reset_to data_topics st u" by blast
      have "going acc w u" using st u(2) undisturbed_going reset_to_going unfolding publishing_def by blast
      then show "case r of Ok _ \<Rightarrow> going acc w st' | Err e \<Rightarrow> keeps w st'" using u(1) run by auto
    qed
  qed (auto dest: going_keeps)
  have chat: "holds (publishing acc w before dr) (publish_chat R now before c l) (\<lambda>_. going acc w) (keeps w)" for c l
    by (rule holds_consequence [OF holds_publish_chat [OF named]]) (auto simp: publishing_def)
  have all: "holds (publishing acc w before dr)
        (and_then (publish_sample R now INVENTORY (published Published_data (sm_inventory samples))) (\<lambda>_.
         and_then (publish_sample R now CURRENCIES (published Published_data (sm_currencies samples))) (\<lambda>_.
         and_then (publish_sample R now MASTERY (published Published_data (sm_mastery samples))) (\<lambda>_.
         and_then (publish_sample R now INTRINSICS (published Published_data (sm_intrinsics samples))) (\<lambda>_.
         and_then (publish_sample R now STAR_CHART (published Published_data (sm_star_chart samples))) (\<lambda>_.
         publish_chat R now before (sm_chat samples) (sm_local_name samples)))))))
        (\<lambda>_. going acc w) (keeps w)"
    using samples unfolding samples_of_def by (intro holds_and_then [OF data] chat) auto
  show ?thesis
    unfolding publish_samples_def
    by (rule holds_and_then [OF player]) (use samples all lost in \<open>auto simp: samples_of_def simp del: not_None_eq\<close>)
qed

end
