(* ===== verification/Account_Isolation.thy ===== *)
theory Account_Isolation
  imports Session_Publishing
begin

section \<open>Accounts are isolated\<close>

text \<open>
  The parts of a poll put together: the visual topics first, then the account's, over any sequence of
  polls of one attachment.
\<close>

subsection \<open>Acquisition\<close>

lemma holds_nothing:
  "holds (going acc w) (done_with (Ok ())) (\<lambda>_. going acc w) (keeps w)"
  "holds (entering acc w) (done_with (Ok ())) (\<lambda>_. going acc w) (keeps w)"
  by (auto intro!: holds_done simp: entering_def dest: going_keeps)

lemma holds_entering: "quiet m (\<lambda>_. True) \<Longrightarrow> holds (entering acc w) m (\<lambda>_. entering acc w) (keeps w)"
  by (rule holds_silent) (auto simp: entering_def dest: going_keeps)

lemma holds_account_unavailable: "holds (entering acc w) (account_unavailable R retry) (\<lambda>_. going acc w) (keeps w)"
  by (rule holds_consequence [OF holds_entering [OF quiet_unavailable(1)]]) (auto simp: entering_def)

lemma account_settled_simps [simp]:
  "account_settled acc w None = going acc w" "account_settled acc w (Some (before, reset)) = attending acc w before reset reset"
  by (rule ext, simp add: account_settled_def)+

lemma holds_acquire:
  assumes host: "real_host R tx n manifest" and named: "values_named R acc of_data" and data: "data_named R of_data"
  shows "holds (entering acc w) (acquire R exe now) (\<lambda>_. going acc w) (keeps w)"
proof -
  have finish: "holds (\<lambda>st. if ok then attending acc w before reset dr st else going acc w st)
      (if ok then publish_samples R now before data dr samples else done_with (Ok ())) (\<lambda>_. going acc w) (keeps w)"
    if "samples_of of_data (ai_account_id before) samples" for ok before reset dr data samples
  proof -
    have "holds (attending acc w before reset dr) (publish_samples R now before data dr samples) (\<lambda>_. going acc w) (keeps w)"
      by (rule holds_pre [OF holds_publish_samples [OF host named that]]) (auto simp: attending_def publishing_def)
    then show ?thesis by (simp add: holds_nothing)
  qed
  have acquired: "holds (data_settled acc w before reset (data, dr))
      (and_then (acquire_samples R exe now before data) (\<lambda>samples.
       and_then (account_unchanged R exe now before reset dr) (\<lambda>unchanged.
         if unchanged then publish_samples R now before data dr samples else done_with (Ok ()))))
      (\<lambda>_. going acc w) (keeps w)" for before reset data dr
  proof (cases "data_of before data")
    case True
    have samples: "quiet (acquire_samples R exe now before data) (samples_of of_data (ai_account_id before))"
      by (rule quiet_weaken [OF quiet_acquire_samples [OF assms(3)]]) (use True in \<open>auto simp: samples_of_def data_of_def\<close>)
    have "holds (attending acc w before reset dr)
        (and_then (acquire_samples R exe now before data) (\<lambda>samples.
         and_then (account_unchanged R exe now before reset dr) (\<lambda>unchanged.
           if unchanged then publish_samples R now before data dr samples else done_with (Ok ()))))
        (\<lambda>_. going acc w) (keeps w)"
    proof (rule holds_and_then [OF holds_quiet [OF samples steady_attending]])
      fix xs
      show "holds (\<lambda>st. attending acc w before reset dr st \<and> samples_of of_data (ai_account_id before) xs)
          (and_then (account_unchanged R exe now before reset dr) (\<lambda>unchanged.
             if unchanged then publish_samples R now before data dr xs else done_with (Ok ())))
          (\<lambda>_. going acc w) (keeps w)"
      proof (cases "samples_of of_data (ai_account_id before) xs")
        case True
        then show ?thesis
          by (auto intro!: holds_pre [OF holds_and_then [OF holds_account_unchanged [OF host] finish [OF True]]])
      qed (simp add: holds_def)
    qed (auto dest: attending_keeps)
    then show ?thesis by (rule holds_pre) (simp add: data_settled_def)
  qed (simp add: holds_def data_settled_def)
  show ?thesis
    unfolding acquire_def
  proof (rule holds_and_then [OF holds_account_before [OF host]])
    fix owner
    show "holds (account_settled acc w owner)
        (case owner of None \<Rightarrow> done_with (Ok ())
         | Some (before, reset) \<Rightarrow>
           and_then (profile_data_before R exe now before reset) (\<lambda>(data, data_reset).
           and_then (acquire_samples R exe now before data) (\<lambda>samples.
           and_then (account_unchanged R exe now before reset data_reset) (\<lambda>unchanged.
             if unchanged then publish_samples R now before data data_reset samples else done_with (Ok ())))))
        (\<lambda>_. going acc w) (keeps w)"
    proof (cases owner)
      case None
      then show ?thesis by (simp add: holds_nothing)
    next
      case (Some p)
      then obtain before reset where p: "owner = Some (before, reset)" by (cases p) auto
      have "holds (attending acc w before reset reset)
          (and_then (profile_data_before R exe now before reset) (\<lambda>(data, data_reset).
           and_then (acquire_samples R exe now before data) (\<lambda>samples.
           and_then (account_unchanged R exe now before reset data_reset) (\<lambda>unchanged.
             if unchanged then publish_samples R now before data data_reset samples else done_with (Ok ())))))
          (\<lambda>_. going acc w) (keeps w)"
        by (rule holds_and_then [OF holds_profile_data_before [OF host]]) (auto intro: acquired)
      then show ?thesis by (simp add: p)
    qed
  qed
qed

lemma holds_poll_account:
  assumes host: "real_host R tx n manifest" and named: "values_named R acc of_data" and data: "data_named R of_data"
  shows "holds (entering acc w) (poll_account R now) (\<lambda>_. going acc w) (keeps w)"
proof -
  have ready: "holds (entering acc w) (and_then (validate_due R exe now) (\<lambda>_.
      and_then (gets (any_topic account_topics (topic_due now))) (\<lambda>due. if due then acquire R exe now else done_with (Ok ()))))
      (\<lambda>_. going acc w) (keeps w)" for exe
    by (rule holds_and_then [OF holds_entering [OF quiet_validate_due] holds_and_then [OF holds_entering [OF quiet_gets]]])
      (auto simp: holds_nothing holds_acquire [OF assms])
  have checked: "holds (entering acc w)
      (outcome_of (and_then (ensure_executable R now) (\<lambda>exe. and_then (layout_account R exe now) (\<lambda>_. done_with (Ok exe)))))
      (\<lambda>_. entering acc w) (keeps w)"
    by (rule holds_entering) (intro quiet_rules)
  show ?thesis
    unfolding poll_account_def
    by (rule holds_and_then [OF holds_entering [OF quiet_gets]])
      (auto simp: holds_nothing holds_account_unavailable ready intro!: holds_and_then [OF checked] split: result.splits)
qed


subsection \<open>The visual topics\<close>

definition relic_fresh :: "('c, 'm, 'v) Polling \<Rightarrow> bool" where
  "relic_fresh st \<longleftrightarrow> sc_topic RELIC_REWARDS_CAP \<notin> resets_of (pl_calls st)"

definition relic_clear :: "('v \<Rightarrow> AccountId option) \<Rightarrow> wire \<Rightarrow> ('c, 'm, 'v) Polling \<Rightarrow> bool" where
  "relic_clear acc w st \<longleftrightarrow>
     full_wire acc w (pl_calls st) (sc_topic RELIC_REWARDS_CAP) = None \<and> kept_wire w (pl_calls st) (sc_topic RELIC_REWARDS_CAP) = None"

text \<open>Before the account's part: its topics are as the poll found them.\<close>

definition untouched :: "('v \<Rightarrow> AccountId option) \<Rightarrow> wire \<Rightarrow> ('c, 'm, 'v) Polling \<Rightarrow> bool" where
  "untouched acc w st \<longleftrightarrow>
     going acc w st \<and> fresh account_topics st
     \<and> (\<forall>t. full_wire acc w (pl_calls st) (account_topic t) = w (account_topic t)
            \<and> kept_wire w (pl_calls st) (account_topic t) = w (account_topic t))"

definition relic_reset :: "('v \<Rightarrow> AccountId option) \<Rightarrow> wire \<Rightarrow> bool \<Rightarrow> ('c, 'm, 'v) Polling \<Rightarrow> bool" where
  "relic_reset acc w reset st \<longleftrightarrow> untouched acc w st \<and> (if reset then relic_clear acc w st else relic_fresh st)"

definition relic_owner :: "('c, 'm, 'v) Polling \<Rightarrow> RelicOwner option" where
  "relic_owner st = vt_owner (ws_visual (pl_session st))"

lemma steady_untouched [simp]: "steady (untouched acc w)"
  unfolding steady_def untouched_def by (auto simp: undisturbed_frame undisturbed_going undisturbed_calls)

lemma undisturbed_relic: "undisturbed st st' \<Longrightarrow> relic_owner st' = relic_owner st"
  by (simp add: relic_owner_def undisturbed_def same_owner_def)

lemma steady_relic_reset [simp]: "steady (relic_reset acc w reset)"
  using steady_untouched [of acc w] unfolding steady_def relic_reset_def relic_clear_def relic_fresh_def
  by (auto simp: undisturbed_calls)

lemma steady_conj: "steady P \<Longrightarrow> steady Q \<Longrightarrow> steady (\<lambda>st. P st \<and> Q st)"
  by (auto simp: steady_def)

lemma steady_owner [simp]: "steady (\<lambda>st. relic_owner st = x)" "steady (\<lambda>st. Q (relic_owner st))"
  by (auto simp: steady_def undisturbed_relic)

lemma untouched_keeps: "untouched acc w st \<Longrightarrow> keeps w st"
  by (auto simp: untouched_def dest: going_keeps)

lemma relic_reset_keeps: "relic_reset acc w reset st \<Longrightarrow> keeps w st"
  by (auto simp: relic_reset_def dest: untouched_keeps)

lemma relic_cap_declared [simp]: "RELIC_REWARDS_CAP \<in> set WARFRAME_CAPABILITIES"
  by (simp add: WARFRAME_CAPABILITIES_def)

text \<open>A change of the relic owner while nothing of it is on the wire.\<close>

lemma untouched_owner:
  assumes "untouched acc w st" and "relic_clear acc w st"
    and "pl_calls st' = pl_calls st" and "ws_login (pl_session st') = ws_login (pl_session st)"
    and "ws_pending_chat (pl_session st') = ws_pending_chat (pl_session st)"
  shows "untouched acc w st'"
proof -
  have "login_account (pl_session st') = login_account (pl_session st)" using assms(4) by (simp add: login_account_def)
  then have "owned (pl_session st') (full_wire acc w (pl_calls st))" "owned (pl_session st') (kept_wire w (pl_calls st))"
    using assms(1,2,5) by (auto simp: untouched_def going_def keeps_def owned_def pending_owned_def wire_owned_def relic_clear_def split: option.splits)
  then show ?thesis using assms(1,3) by (simp add: untouched_def going_def keeps_def fresh_def)
qed

text \<open>A call for one of the two visual topics.\<close>

lemma untouched_call:
  assumes "untouched acc w st" and "topic_name = sc_topic RELIC_REWARDS_CAP \<or> topic_name = sc_topic SCREENS_CAP"
    and "wire_call acc call = (\<lambda>x. x(topic_name := a))" and "wire_reset call = (\<lambda>x. x) \<or> wire_reset call = (\<lambda>x. x(topic_name := None))"
    and "resets_of [call] \<subseteq> {topic_name}" and "admissible acc (full_wire acc w (pl_calls st)) call"
    and "topic_name = sc_topic RELIC_REWARDS_CAP \<Longrightarrow> belongs (relic_account (pl_session st)) a" and "topic_name = sc_topic SCREENS_CAP \<Longrightarrow> a = None"
  shows "untouched acc w (st\<lparr>pl_calls := pl_calls st @ [call]\<rparr>)"
proof -
  have names: "account_topic t \<noteq> topic_name" for t using assms(2) by auto
  have "owned (pl_session st) ((full_wire acc w (pl_calls st))(topic_name := a))"
    using assms(1,2,7,8) names by (auto simp: untouched_def going_def owned_def wire_owned_def)
  moreover have "owned (pl_session st) (wire_reset call (kept_wire w (pl_calls st)))"
    using assms(1,2,4) names by (auto simp: untouched_def going_def keeps_def owned_def wire_owned_def)
  moreover have "fresh account_topics (st\<lparr>pl_calls := pl_calls st @ [call]\<rparr>)"
    using assms(1,5) names by (auto simp: untouched_def fresh_def)
  moreover have "wire_reset call x (account_topic t) = x (account_topic t)" for x t
    using assms(4) names by auto
  ultimately show ?thesis using assms(1,3,6) names by (simp add: untouched_def going_def keeps_def)
qed


lemma quiet_visual_unavailable [quiet_rules]: "quiet (visual_unavailable R retry) (\<lambda>_. True)"
  unfolding visual_unavailable_def by (intro quiet_rules) simp

lemma quiet_relic_unavailable [quiet_rules]: "quiet (relic_unavailable R now retry) (\<lambda>_. True)"
  unfolding relic_unavailable_def Let_def by (intro quiet_rules; simp)

lemma quiet_validate_relic [quiet_rules]: "quiet (validate_relic R exe now) (\<lambda>_. True)"
  unfolding validate_relic_def by (intro quiet_rules) simp

lemma quiet_resolve_owner [quiet_rules]: "quiet (resolve_owner R exe at) (\<lambda>_. True)"
  unfolding resolve_owner_def by (intro quiet_rules)

lemma quiet_relic_after [quiet_rules]: "quiet (relic_after R exe sample open' at) (\<lambda>_. True)"
  unfolding relic_after_def recheck_screens_def by (intro quiet_rules)

lemma quiet_read_choices [quiet_rules]: "quiet (read_choices R exe now owner at) (\<lambda>_. True)"
  unfolding read_choices_def by (intro quiet_rules)

lemma holds_clear_owner:
  assumes host: "real_host R tx n manifest"
  shows "holds (relic_reset acc w reset) (clear_owner R reset) (\<lambda>r st. relic_reset acc w r st \<and> relic_owner st = None) E"
  unfolding holds_def
proof (intro allI impI)
  fix st st' r assume st: "relic_reset acc w reset st" and run: "clear_owner R reset st = (st', r)"
  let ?gone = "visual_update (\<lambda>v. v\<lparr>vt_owner := None\<rparr>)"
  note unfolded = clear_owner_def and_then_def gets_def modify_def done_with_def
  have parts: "untouched acc w st" "if reset then relic_clear acc w st else relic_fresh st" using st by (simp_all add: relic_reset_def)
  show "case r of Ok x \<Rightarrow> relic_reset acc w x st' \<and> relic_owner st' = None | Err e \<Rightarrow> E st'"
  proof (cases "relic_owner st")
    case None
    then have "session_update ?gone st = st"
      by (cases st; cases "pl_session st"; cases "ws_visual (pl_session st)") (simp add: session_update_def visual_update_def relic_owner_def)
    then show ?thesis using run None st by (auto simp: unfolded relic_owner_def)
  next
    case (Some owner)
    show ?thesis
    proof (cases reset)
      case True
      have "untouched acc w (session_update ?gone st)"
        by (rule untouched_owner [OF parts(1)]) (use parts(2) True in \<open>simp_all add: session_update_def visual_update_def\<close>)
      then show ?thesis
        using run Some True parts(2)
        by (auto simp: unfolded relic_owner_def relic_reset_def relic_clear_def session_update_def visual_update_def)
    next
      case False
      let ?call = "Call_Reset RELIC_REWARDS_CAP"
      let ?u = "st\<lparr>pl_calls := pl_calls st @ [?call]\<rparr>"
      have accept: "wr_host R (pl_calls st) ?call = Ok ()"
        using host host_answer_reset [of RELIC_REWARDS_CAP manifest "pl_calls st" tx n] parts(2) False by (simp add: real_host_def relic_fresh_def)
      have u: "untouched acc w ?u"
        by (rule untouched_call [OF parts(1), where topic_name = "sc_topic RELIC_REWARDS_CAP" and a = None]) auto
      have clear: "relic_clear acc w ?u" by (simp add: relic_clear_def)
      have "untouched acc w (session_update ?gone ?u)"
        by (rule untouched_owner [OF u clear]) (simp_all add: session_update_def visual_update_def)
      moreover have "st' = session_update ?gone ?u \<and> r = Ok True"
        using run Some False accept by (auto simp: unfolded relic_owner_def emit_def session_update_def)
      ultimately show ?thesis
        using clear by (simp add: relic_reset_def relic_clear_def relic_owner_def session_update_def visual_update_def)
    qed
  qed
qed

lemma holds_publish_relic:
  assumes named: "values_named R acc of_data"
  shows "holds (\<lambda>st. relic_reset acc w reset st \<and> relic_owner st = Some before) (publish_relic R now before result) (\<lambda>_. untouched acc w) (keeps w)"
proof (cases result)
  case (Ok picker)
  let ?x = "Published_relic \<lparr>rs_account_id = ai_account_id (ro_login before), rs_picker = picker\<rparr>"
  let ?P = "\<lambda>st. untouched acc w st \<and> relic_owner st = Some before"
  have published: "holds ?P (publish R RELIC_REWARDS_CAP ?x) (\<lambda>_. untouched acc w) (keeps w)"
  proof (cases "to_payload R ?x")
    case (Ok v)
    then have v: "acc v = Some (ai_account_id (ro_login before))" using named by (auto simp: to_payload_def values_named_def)
    have "untouched acc w (st\<lparr>pl_calls := pl_calls st @ [Call_Snapshot RELIC_REWARDS_CAP v]\<rparr>)" if "?P st" for st
      by (rule untouched_call [where topic_name = "sc_topic RELIC_REWARDS_CAP" and a = "acc v"])
        (use that v in \<open>auto simp: relic_account_def relic_owner_def untouched_def going_def owned_def wire_owned_def\<close>)
    then have "?P st \<Longrightarrow> untouched acc w (st\<lparr>pl_calls := pl_calls st @ [Call_Snapshot RELIC_REWARDS_CAP v]\<rparr>)
        \<and> keeps w (st\<lparr>pl_calls := pl_calls st @ [Call_Snapshot RELIC_REWARDS_CAP v]\<rparr>)" for st
      using untouched_keeps by blast
    then show ?thesis using Ok by (auto simp: publish_def holds_def emit_def split: result.splits)
  next
    case (Err e)
    then show ?thesis by (auto simp: publish_def intro!: holds_done dest: untouched_keeps)
  qed
  have waiting: "holds ?P (modify (visual_update (\<lambda>v. v\<lparr>vt_relic_read_delay := 0\<rparr>))) (\<lambda>_. ?P) (keeps w)"
    by (rule holds_silent [OF quiet_modify [OF same_owner_visual] steady_conj]) (auto dest: untouched_keeps)
  show ?thesis
    unfolding publish_relic_def Ok result.case
    by (rule holds_pre [OF holds_and_then [OF waiting published]]) (auto simp: relic_reset_def)
next
  case (Err retry)
  have "holds (untouched acc w) (relic_unavailable R now retry) (\<lambda>_. untouched acc w) (keeps w)"
    by (rule holds_silent [OF quiet_relic_unavailable]) (auto dest: untouched_keeps)
  then show ?thesis unfolding publish_relic_def Err result.case by (rule holds_pre) (simp add: relic_reset_def)
qed


lemma holds_lose_relic:
  assumes host: "real_host R tx n manifest"
  shows "holds (relic_reset acc w reset) (and_then (clear_owner R reset) (\<lambda>_. relic_unavailable R now retry)) (\<lambda>_. untouched acc w) (keeps w)"
proof (rule holds_and_then [OF holds_consequence [OF holds_clear_owner [OF host], where Q = "\<lambda>_. untouched acc w"]])
  show "holds (untouched acc w) (relic_unavailable R now retry) (\<lambda>_. untouched acc w) (keeps w)"
    by (rule holds_silent [OF quiet_relic_unavailable]) (auto dest: untouched_keeps)
qed (auto simp: relic_reset_def)

text \<open>The new owner is recorded once nothing of another one is on the wire.\<close>

lemma holds_own_relic:
  "holds (\<lambda>st. relic_reset acc w reset st \<and> (relic_owner st = None \<or> relic_owner st = Some before))
     (modify (visual_update (\<lambda>v. v\<lparr>vt_owner := Some before\<rparr>))) (\<lambda>_ st. relic_reset acc w reset st \<and> relic_owner st = Some before) E"
proof (rule holds_modify)
  fix st assume st: "relic_reset acc w reset st \<and> (relic_owner st = None \<or> relic_owner st = Some before)"
  let ?u = "session_update (visual_update (\<lambda>v. v\<lparr>vt_owner := Some before\<rparr>)) st"
  have "untouched acc w ?u"
  proof (cases "relic_owner st")
    case None
    then have clear: "relic_clear acc w st"
      using st by (auto simp: relic_clear_def relic_owner_def relic_reset_def untouched_def going_def keeps_def owned_def wire_owned_def relic_account_def)
    show ?thesis
      by (rule untouched_owner [OF _ clear]) (use st in \<open>simp_all add: relic_reset_def session_update_def visual_update_def\<close>)
  next
    case (Some owner)
    then have "Some before = vt_owner (ws_visual (pl_session st))" using st by (auto simp: relic_owner_def)
    then have "?u = st" by (simp only: session_update_def visual_update_def) simp
    then show ?thesis using st by (simp add: relic_reset_def)
  qed
  then show "relic_reset acc w reset ?u \<and> relic_owner ?u = Some before"
    using st by (auto simp: relic_reset_def relic_clear_def relic_fresh_def relic_owner_def session_update_def visual_update_def)
qed

lemma holds_poll_relic:
  assumes host: "real_host R tx n manifest" and named: "values_named R acc of_data"
  shows "holds (relic_reset acc w False) (poll_relic R exe now acquisition) (\<lambda>_. untouched acc w) (keeps w)"
proof (cases "relic_before (ra_screens acquisition) acquisition")
  case (Err retry)
  then show ?thesis using holds_lose_relic [OF host] by (simp add: poll_relic_def Let_def)
next
  case (Ok before)
  let ?sample = "ra_screens acquisition" and ?at = "ra_retry_at acquisition"
  let ?owned = "\<lambda>reset st. relic_reset acc w reset st \<and> relic_owner st = Some before"
  have silent: "holds (?owned reset) m (\<lambda>_. ?owned reset) (keeps w)" if "quiet m (\<lambda>_. True)"
    for m :: "(('a, 'b, 'c) Polling, 'x, ProviderError) attempt" and reset
    by (rule holds_silent [OF that steady_conj]) (auto dest: relic_reset_keeps)
  have concluding: "holds (?owned reset)
      (if after = Ok before then publish_relic R now before result
       else and_then (clear_owner R reset) (\<lambda>_. relic_unavailable R now (f after)))
      (\<lambda>_. untouched acc w) (keeps w)" for reset after result f
    using holds_publish_relic [OF named] holds_pre [OF holds_lose_relic [OF host], of "?owned reset"] by auto
  have replace: "holds (\<lambda>s. relic_reset acc w False s \<and> old = vt_owner (ws_visual (pl_session s)))
      (if old \<noteq> None \<and> old \<noteq> Some before then clear_owner R False else done_with (Ok False))
      (\<lambda>reset st. relic_reset acc w reset st \<and> (relic_owner st = None \<or> relic_owner st = Some before)) (keeps w)" for old
    by (auto simp: relic_owner_def [symmetric] intro!: holds_pre [OF holds_consequence [OF holds_clear_owner [OF host]]] holds_done
        dest: relic_reset_keeps)
  show ?thesis
    unfolding poll_relic_def Let_def Ok result.case
    apply (rule holds_and_then [OF holds_gets])
    apply (rule holds_and_then [OF replace])
    apply (rule holds_and_then [OF holds_own_relic])
    apply (rule holds_and_then [OF silent [OF quiet_gets]])
    apply (rule holds_and_then [OF silent])
     apply (intro quiet_rules)
    apply (rule holds_and_then [OF silent])
     apply (intro quiet_rules)
    apply (rule concluding)
    done
qed

end
