(* ===== verification/Account_Switch.thy ===== *)
theory Account_Switch
  imports Account_Isolation
begin

section \<open>A whole session\<close>

text \<open>Every poll of an attachment, from its start: what subscribers see of a topic between resets is one account's.\<close>

lemma holds_ready: "quiet m (\<lambda>_. True) \<Longrightarrow> holds (relic_reset acc w False) m (\<lambda>_. relic_reset acc w False) (keeps w)"
  by (rule holds_silent) (auto dest: relic_reset_keeps)

lemma screens_call:
  assumes "relic_reset acc w False st"
    and "call = Call_Reset SCREENS_CAP \<or> call = Call_Snapshot SCREENS_CAP v \<and> acc v = None"
  shows "relic_reset acc w False (st\<lparr>pl_calls := pl_calls st @ [call]\<rparr>)"
proof -
  have "untouched acc w (st\<lparr>pl_calls := pl_calls st @ [call]\<rparr>)"
    by (rule untouched_call [where topic_name = "sc_topic SCREENS_CAP" and a = None])
      (use assms in \<open>auto simp: relic_reset_def untouched_def going_def owned_def wire_owned_def\<close>)
  then show ?thesis using assms by (auto simp: relic_reset_def relic_fresh_def)
qed

lemma holds_emit_screens:
  assumes "call = Call_Reset SCREENS_CAP \<or> call = Call_Snapshot SCREENS_CAP v \<and> acc v = None"
  shows "holds (relic_reset acc w False) (emit R call) (\<lambda>_. relic_reset acc w False) (keeps w)"
proof -
  have "relic_reset acc w False (st\<lparr>pl_calls := pl_calls st @ [call]\<rparr>) \<and> keeps w (st\<lparr>pl_calls := pl_calls st @ [call]\<rparr>)"
    if "relic_reset acc w False st" for st
    using screens_call [where acc = acc and v = v, OF that assms] relic_reset_keeps by blast
  then show ?thesis by (auto simp: holds_def emit_def split: result.splits)
qed

lemma holds_publish_screens:
  assumes named: "values_named R acc of_data"
  shows "holds (relic_reset acc w False) (publish_screens R sample) (\<lambda>_. relic_reset acc w False) (keeps w)"
proof -
  have "holds (relic_reset acc w False) (publish R SCREENS_CAP (Published_screens (sa_screens sample))) (\<lambda>_. relic_reset acc w False) (keeps w)"
  proof (cases "to_payload R (Published_screens (sa_screens sample))")
    case (Ok v)
    then have "acc v = None" using named by (auto simp: to_payload_def values_named_def)
    then show ?thesis using Ok holds_emit_screens [where acc = acc and v = v, of "Call_Snapshot SCREENS_CAP v"] by (simp add: publish_def)
  next
    case (Err e)
    then show ?thesis by (auto simp: publish_def intro!: holds_done dest: relic_reset_keeps)
  qed
  moreover have "holds (relic_reset acc w False) (emit R (Call_Reset SCREENS_CAP)) (\<lambda>_. relic_reset acc w False) (keeps w)"
    by (rule holds_emit_screens) simp
  moreover have "holds (relic_reset acc w False) (done_with (Ok ())) (\<lambda>_. relic_reset acc w False) (keeps w)"
    by (rule holds_ready) (rule quiet_done_any)
  ultimately show ?thesis
    unfolding publish_screens_def
    by (intro holds_and_then [OF holds_ready [OF quiet_gets]]) (auto intro!: holds_and_then)
qed

lemma holds_visual_unavailable: "holds (relic_reset acc w False) (visual_unavailable R retry) (\<lambda>_. untouched acc w) (keeps w)"
  by (rule holds_consequence [OF holds_ready [OF quiet_visual_unavailable]]) (auto simp: relic_reset_def)

lemma holds_untouched: "holds (relic_reset acc w False) (done_with (Ok ())) (\<lambda>_. untouched acc w) (keeps w)"
  by (auto intro!: holds_done simp: relic_reset_def dest: untouched_keeps)

lemma holds_visual_poll:
  assumes host: "real_host R tx n manifest" and named: "values_named R acc of_data"
  shows "holds (relic_reset acc w False) (visual_poll R exe now) (\<lambda>_. untouched acc w) (keeps w)"
proof -
  have sampled: "holds (relic_reset acc w False)
      (and_then (publish_screens R sample) (\<lambda>_.
       and_then (modify (visual_update (\<lambda>v. v\<lparr>vt_ui := Some (sa_owner sample), vt_source := source_sampled now (vt_source v)\<rparr>))) (\<lambda>_.
         (case relic_owner of
            None \<Rightarrow> done_with (Ok ())
          | Some before \<Rightarrow> poll_relic R exe now \<lparr>ra_screens = sample, ra_before = before, ra_retry_at = retry_at\<rparr>))))
      (\<lambda>_. untouched acc w) (keeps w)" for sample relic_owner retry_at
    apply (rule holds_and_then [OF holds_publish_screens [OF named]])
    apply (rule holds_and_then [OF holds_ready [OF quiet_modify [OF same_owner_visual]]])
     apply simp
    apply (auto simp: holds_untouched holds_poll_relic [OF host named] split: option.splits)
    done
  show ?thesis
    unfolding visual_poll_def Let_def
    apply (rule holds_and_then [OF holds_ready])
     apply (intro quiet_rules; simp)
    apply (auto simp: holds_visual_unavailable split: result.splits)
    apply (rule holds_and_then [OF holds_ready [OF quiet_gets]])
    apply (rule holds_and_then [OF holds_ready])
     apply (intro quiet_rules)
    apply (rule holds_and_then [OF holds_ready])
     apply (intro quiet_rules)
    apply (auto simp: holds_visual_unavailable sampled split: result.splits)
    done
qed

lemma holds_poll_visual:
  assumes host: "real_host R tx n manifest" and named: "values_named R acc of_data"
  shows "holds (relic_reset acc w False) (poll_visual R now) (\<lambda>_. untouched acc w) (keeps w)"
proof -
  have run: "holds (relic_reset acc w False) (and_then (outcome_of (ensure_executable R now)) (\<lambda>ready.
      (case ready of Ok exe \<Rightarrow> visual_poll R exe now | Err retry \<Rightarrow> visual_unavailable R retry))) (\<lambda>_. untouched acc w) (keeps w)"
    apply (rule holds_and_then [OF holds_ready])
     apply (intro quiet_rules)
    apply (auto simp: holds_visual_unavailable holds_visual_poll [OF assms] split: result.splits)
    done
  show ?thesis
    unfolding poll_visual_def by (rule holds_and_then [OF holds_ready [OF quiet_gets]]) (simp add: run holds_untouched)
qed

subsection \<open>Demand\<close>

lemma wire_demand_account: "wire_demand demand w (account_topic t) = (if demanded_in demand (account_cap t) then w (account_topic t) else None)"
  by (cases t) (simp_all add: wire_demand_def WARFRAME_CAPABILITIES_def account_topic_def SCREENS_CAP_def RELIC_REWARDS_CAP_def capability_def)

lemma wire_demand_relic: "wire_demand demand w (sc_topic RELIC_REWARDS_CAP) = (if demanded_in demand RELIC_REWARDS_CAP then w (sc_topic RELIC_REWARDS_CAP) else None)"
  by (simp add: wire_demand_def WARFRAME_CAPABILITIES_def SCREENS_CAP_def RELIC_REWARDS_CAP_def capability_def)

lemma wire_demand_le: "wire_demand demand w name = None \<or> wire_demand demand w name = w name"
  by (simp add: wire_demand_def)

lemma fold_topic_update:
  "distinct ts \<Longrightarrow> ws_topics (fold (\<lambda>t. topic_update t (f t)) ts s) u = (if u \<in> set ts then f u (ws_topics s u) else ws_topics s u)"
  "ws_visual (fold (\<lambda>t. topic_update t (f t)) ts s) = ws_visual s"
  "ws_pending_chat (fold (\<lambda>t. topic_update t (f t)) ts s) = ws_pending_chat s"
  "ws_login (fold (\<lambda>t. topic_update t (f t)) ts s) = ws_login s"
  by (induction ts arbitrary: s) (auto simp: topic_update_def)

lemma topic_demand_flag: "tt_demanded (topic_demand demanded now u) = demanded"
  by (simp add: topic_demand_def Let_def)

lemma demand_topics_frame:
  "tt_demanded (ws_topics (demand_topics demand now s) t) = demanded_in demand (account_cap t)"
  "ws_visual (demand_topics demand now s) = ws_visual s"
  "ws_pending_chat (demand_topics demand now s) = (if demanded_in demand (account_cap CHAT) then ws_pending_chat s else None)"
  "ws_login (demand_topics demand now s) = (if \<exists>t. demanded_in demand (account_cap t) then ws_login s else None)"
proof -
  let ?s1 = "fold (\<lambda>t. topic_update t (topic_demand (demanded_in demand (account_cap t)) now)) account_topics s"
  have flags: "tt_demanded (ws_topics ?s1 t) = demanded_in demand (account_cap t)" for t
    by (simp add: fold_topic_update topic_demand_flag del: account_cap.simps)
  have any: "list_ex (\<lambda>t. demanded_in demand (account_cap t)) account_topics = (\<exists>t. demanded_in demand (account_cap t))"
    using all_account_topics by (auto simp: list_ex_iff)
  have topics: "tt_demanded (ws_topics (s'\<lparr>ws_profile_data := p\<rparr>) t) = tt_demanded (ws_topics s' t)"
    "ws_topics (clear_chat s') = ws_topics s'" for s' :: "'a WarframeSession" and p t
    by (simp_all add: clear_chat_def)
  show "tt_demanded (ws_topics (demand_topics demand now s) t) = demanded_in demand (account_cap t)"
    by (simp add: demand_topics_def Let_def topics flags del: account_cap.simps)
  show "ws_visual (demand_topics demand now s) = ws_visual s"
    by (simp add: demand_topics_def Let_def clear_chat_def fold_topic_update del: account_cap.simps)
  show "ws_pending_chat (demand_topics demand now s) = (if demanded_in demand (account_cap CHAT) then ws_pending_chat s else None)"
    by (simp add: demand_topics_def Let_def clear_chat_def fold_topic_update topic_demand_flag del: account_cap.simps)
  show "ws_login (demand_topics demand now s) = (if \<exists>t. demanded_in demand (account_cap t) then ws_login s else None)"
    by (simp add: demand_topics_def Let_def any_topic_def topics flags any fold_topic_update del: account_cap.simps)
      (auto simp: clear_chat_def fold_topic_update topic_demand_flag any simp del: account_cap.simps)
qed


lemma demanded_login:
  assumes "untouched acc (wire_demand demand w) st"
  shows "entering acc (wire_demand demand w) (session_update (demand_topics demand now) st)"
proof -
  let ?w = "wire_demand demand w" and ?s = "pl_session st"
  let ?s' = "demand_topics demand now ?s"
  have st: "going acc ?w st" "fresh account_topics st"
    "\<And>t. full_wire acc ?w (pl_calls st) (account_topic t) = ?w (account_topic t)"
    "\<And>t. kept_wire ?w (pl_calls st) (account_topic t) = ?w (account_topic t)"
    using assms by (auto simp: untouched_def)
  have none: "?w (account_topic t) = None" if "\<not> demanded_in demand (account_cap t)" for t
    using that by (simp add: wire_demand_account del: account_cap.simps)
  have relic: "relic_account ?s' = relic_account ?s" by (simp add: relic_account_def demand_topics_frame)
  have "owned ?s' x" if x: "owned ?s x" "\<And>t. x (account_topic t) = ?w (account_topic t)" for x
  proof (cases "\<exists>t. demanded_in demand (account_cap t)")
    case True
    then have "login_account ?s' = login_account ?s" by (simp add: login_account_def demand_topics_frame del: account_cap.simps)
    then show ?thesis
      using x relic by (auto simp: owned_def pending_owned_def wire_owned_def demand_topics_frame split: option.splits simp del: account_cap.simps)
  next
    case False
    then have "ws_pending_chat ?s' = None" "\<And>t. x (account_topic t) = None"
      using x(2) none by (simp_all add: demand_topics_frame del: account_cap.simps)
    then show ?thesis using x relic by (simp add: owned_def pending_owned_def wire_owned_def)
  qed
  then have "going acc ?w (session_update (demand_topics demand now) st)"
    using st by (simp add: going_def keeps_def session_update_def)
  moreover have "idle acc ?w (session_update (demand_topics demand now) st)"
    using st none by (auto simp: idle_def cleared_def session_update_def demand_topics_frame simp del: account_cap.simps)
  ultimately show ?thesis using st(2) by (simp add: entering_def fresh_def session_update_def)
qed

lemma visual_demand_owner: "vt_owner (visual_demand demand now v) = (if demanded_in demand RELIC_REWARDS_CAP then vt_owner v else None)"
  by (simp add: visual_demand_def Let_def)

lemma poll_starts:
  assumes "owned s w"
  shows "relic_reset acc (wire_demand demand w) False
    (session_update (visual_update (visual_demand demand now)) \<lparr>pl_session = s, pl_memory = m, pl_calls = []\<rparr>)"
proof -
  let ?w = "wire_demand demand w"
  let ?s = "visual_update (visual_demand demand now) s"
  have shrunk: "owned s ?w" by (rule owned_shrinks [where w = w, OF assms]) (rule wire_demand_le)
  have "login_account ?s = login_account s" "ws_pending_chat ?s = ws_pending_chat s"
    by (simp_all add: login_account_def visual_update_def)
  moreover have "belongs (relic_account ?s) (?w (sc_topic RELIC_REWARDS_CAP))"
    using shrunk by (cases "demanded_in demand RELIC_REWARDS_CAP")
      (simp_all add: owned_def wire_owned_def relic_account_def visual_update_def visual_demand_owner wire_demand_relic)
  ultimately have "owned ?s ?w" using shrunk by (auto simp: owned_def pending_owned_def wire_owned_def split: option.splits)
  then show ?thesis
    by (simp add: relic_reset_def untouched_def going_def keeps_def fresh_def relic_fresh_def session_update_def)
qed

lemma holds_session_poll:
  assumes host: "real_host R tx n manifest" and named: "values_named R acc of_data" and data: "data_named R of_data"
  shows "holds (\<lambda>st. relic_reset acc (wire_demand demand w) False (session_update (visual_update (visual_demand demand now)) st))
    (session_poll R demand now) (\<lambda>_. going acc (wire_demand demand w)) (keeps (wire_demand demand w))"
proof -
  let ?w = "wire_demand demand w"
  have account: "holds (entering acc ?w) (if demanded then poll_account R now else done_with (Ok ())) (\<lambda>_. going acc ?w) (keeps ?w)" for demanded
    by (simp add: holds_poll_account [OF assms] holds_nothing)
  have scheduled: "holds (going acc ?w) (gets (schedule now)) (\<lambda>_. going acc ?w) (keeps ?w)"
    by (rule holds_silent [OF quiet_gets]) (auto dest: going_keeps)
  show ?thesis
    unfolding session_poll_def
    apply (rule holds_and_then [OF holds_modify [where Q = "relic_reset acc ?w False"]])
     apply assumption
    apply (rule holds_and_then [OF holds_poll_visual [OF host named]])
    apply (rule holds_and_then [OF holds_modify [where Q = "entering acc ?w"]])
     apply (erule demanded_login)
    apply (rule holds_and_then [OF holds_entering [OF quiet_gets]])
    apply (rule holds_and_then [OF account scheduled])
    done
qed

subsection \<open>Between polls\<close>

lemma begin_generation_owner: "same_owner s (session_begin_generation cap s)"
proof -
  have topics: "same_owner s (fold (\<lambda>t s. if P t then topic_update t (\<lambda>u. u\<lparr>tt_next_poll := 0\<rparr>) s else s) ts s)"
    for P ts and s :: "'a WarframeSession"
  proof (induction ts arbitrary: s)
    case (Cons t ts)
    have "same_owner s (topic_update t (\<lambda>u. u\<lparr>tt_next_poll := 0\<rparr>) s)" by (rule same_owner_topic) simp
    then show ?case using Cons same_owner_trans by auto
  qed simp
  let ?s1 = "visual_update (visual_wake cap) s"
  let ?s2 = "if sc_topic cap = sc_topic (account_cap CHAT) then clear_chat ?s1 else ?s1"
  have "same_owner s ?s1" by (rule same_owner_visual) (simp add: visual_wake_def)
  moreover have "same_owner ?s1 ?s2" by (simp add: same_owner_clear_chat del: account_cap.simps)
  ultimately have "same_owner s ?s2" by (rule same_owner_trans)
  then show ?thesis unfolding session_begin_generation_def Let_def by (rule same_owner_trans [OF _ topics])
qed

lemma poll_completed_owner: "same_owner s (session_poll_completed committed s)"
  by (auto simp: session_poll_completed_def Let_def same_owner_def visual_update_def visual_poll_completed_def topic_update_def split: option.splits)

lemma session_default_owned: "owned (session_default caches) (\<lambda>_. None)"
  by (simp add: owned_def pending_owned_def wire_owned_def session_default_def)

lemma accounts_separate_from:
  assumes host: "real_host R tx n manifest" and named: "values_named R acc of_data" and data: "data_named R of_data"
    and "owned s w"
  shows "accounts_separate R acc s w events"
  using assms(4)
proof (induction events arbitrary: s w)
  case Nil
  then show ?case by simp
next
  case (Cons event events)
  show ?case
  proof (cases event)
    case (Generation cap)
    have "owned (session_begin_generation cap s) w" by (rule same_owner_owned [OF begin_generation_owner Cons.prems])
    then show ?thesis using Cons.IH Generation by simp
  next
    case (Polled demand now m commit)
    obtain st r where run: "run_poll R demand now m s = (st, r)" by fastforce
    let ?w = "wire_demand demand w"
    have out: "case r of Ok x \<Rightarrow> going acc ?w st | Err e \<Rightarrow> keeps ?w st"
      using holds_session_poll [OF host named data, of demand w now, unfolded holds_def, rule_format, OF poll_starts [OF Cons.prems]]
        run [unfolded run_poll_def] by simp
    then have kept: "keeps ?w st" by (auto dest: going_keeps split: result.splits)
    have committed: "going acc ?w st" if "is_ok r" using out that by (cases r) auto
    show ?thesis
      unfolding Polled accounts_separate.simps run prod.case Let_def
    proof (intro conjI impI)
      show "unmixed acc ?w (pl_calls st)" if "commit \<and> is_ok r" using committed that by (auto simp: going_def)
      show "accounts_separate R acc (session_poll_completed (commit \<and> is_ok r) (pl_session st))
          (if commit \<and> is_ok r then full_wire acc ?w (pl_calls st) else kept_wire ?w (pl_calls st)) events"
        by (rule Cons.IH, rule same_owner_owned [OF poll_completed_owner])
          (use kept committed in \<open>auto simp: going_def keeps_def\<close>)
    qed
  qed
qed

text \<open>
  C3: between two resets, everything a topic publishes belongs to one account. For any sequence of
  generations and polls of a session, each against any memory (so the account, the profile data and the
  interface may change at any read), committed by the host or not, a published snapshot or event never
  follows one of another account on the same topic unless a reset was published in between; a topic
  nobody demands starts afresh. The host is the batch of the service; the data topics' decoders and the
  JSON conversion are parameters that name the account of the owner they were given.
\<close>

theorem account_never_mixed:
  assumes "wr_host R = host_answer ts n manifest" and "pm_capabilities manifest = WARFRAME_CAPABILITIES"
    and "values_named R acc of_data" and "data_named R of_data"
  shows "accounts_separate R acc (session_default caches) (\<lambda>_. None) events"
proof -
  have "real_host R ts n manifest" using assms(1,2) by (simp add: real_host_def)
  from accounts_separate_from [OF this assms(3,4) session_default_owned] show ?thesis .
qed

end
