(* ===== verification/Protected_Scalar.thy ===== *)
theory Protected_Scalar
  imports Player_Topic
begin

section \<open>Values the game hides from memory scanners\<close>

text \<open>
  \<open>provider/src/scalar.rs\<close>: a count or a balance is stored rotated and masked with constants and with
  its own address, beside a check word. \<open>provider/src/code.rs\<close>: comparisons with the executable.
\<close>

subsection \<open>The codecs\<close>

record AddressEncodedScalarFacts =
  sf_check :: ObjectOffset
  sf_stored :: ObjectOffset
  sf_rotate_left :: u32
  sf_address_shift :: u32
  sf_value_xor :: u32
  sf_check_xor :: u32

record AddressEncodedU16Facts =
  hf_check :: ObjectOffset
  hf_stored :: ObjectOffset
  hf_rotate_left :: u32
  hf_address_shift :: u32
  hf_value_xor :: u16
  hf_check_xor :: u16

text \<open>The low bytes of the shifted address.\<close>

definition address_mask :: "usize \<Rightarrow> u64 \<Rightarrow> u32 \<Rightarrow> 'a::len word" where
  "address_mask n stored_address shift = from_le (take n (to_le (drop_bit (unat shift) stored_address)))"

definition scalar_decode :: "AddressEncodedScalarFacts \<Rightarrow> u32 \<Rightarrow> u32 \<Rightarrow> u64 \<Rightarrow> u32 option" where
  "scalar_decode c check stored stored_address =
     (if 32 \<le> sf_rotate_left c \<or> 64 \<le> sf_address_shift c then None
      else if check = stored XOR sf_check_xor c
      then Some (word_rotl (unat (sf_rotate_left c)) stored XOR address_mask 4 stored_address (sf_address_shift c) XOR sf_value_xor c)
      else None)"

definition u16_decode :: "AddressEncodedU16Facts \<Rightarrow> u16 \<Rightarrow> u16 \<Rightarrow> u64 \<Rightarrow> u16 option" where
  "u16_decode c check stored stored_address =
     (if 16 \<le> hf_rotate_left c \<or> 64 \<le> hf_address_shift c then None
      else if check = stored XOR hf_check_xor c
      then Some (word_rotl (unat (hf_rotate_left c)) stored XOR address_mask 2 stored_address (hf_address_shift c) XOR hf_value_xor c)
      else None)"

subsection \<open>Comparisons with the executable\<close>

definition require_bytes :: "'m backend \<Rightarrow> Rva \<Rightarrow> u8 list \<Rightarrow> string \<Rightarrow> ('m TargetReader, unit, TargetError) attempt" where
  "require_bytes be at expected location =
     and_then (read_module be at (length expected)) (\<lambda>actual.
       done_with (if actual \<noteq> expected then Err (LayoutMismatch location) else Ok ()))"

definition require_offset ::
  "'m backend \<Rightarrow> Rva \<Rightarrow> u8 list \<Rightarrow> ObjectOffset \<Rightarrow> string \<Rightarrow> ('m TargetReader, unit, TargetError) attempt" where
  "require_offset be at instruction offset location = require_bytes be at (instruction @ to_le (offset_get offset)) location"

text \<open>The bytes of a text constant.\<close>

definition ascii_bytes :: "string \<Rightarrow> u8 list" where
  "ascii_bytes s = map (\<lambda>c. of_nat (of_char c)) s"

text \<open>\<open>code[at..at + n] == bytes\<close>, and a conjunction of such comparisons.\<close>

definition bytes_at :: "u8 list \<Rightarrow> usize \<times> u8 list \<Rightarrow> bool" where
  "bytes_at code = (\<lambda>(at, bytes). take (length bytes) (drop at code) = bytes)"

definition code_matches :: "u8 list \<Rightarrow> (usize \<times> u8 list) list \<Rightarrow> bool" where
  "code_matches code windows = list_all (bytes_at code) windows"

subsection \<open>What the game wrote\<close>

text \<open>The words that stand for a value at an address: the inverse of the decoder.\<close>

definition codec_ok :: "AddressEncodedScalarFacts \<Rightarrow> bool" where
  "codec_ok c \<longleftrightarrow> sf_rotate_left c < 32 \<and> sf_address_shift c < 64"

definition scalar_encode :: "AddressEncodedScalarFacts \<Rightarrow> u32 \<Rightarrow> u64 \<Rightarrow> u32 \<times> u32" where
  "scalar_encode c value stored_address =
     (let stored = word_rotr (unat (sf_rotate_left c)) (value XOR address_mask 4 stored_address (sf_address_shift c) XOR sf_value_xor c)
      in (stored XOR sf_check_xor c, stored))"

lemma xor_undo: "(a XOR b XOR c) XOR b XOR c = (a :: 'a::len word)"
  by (simp add: bit_eq_iff bit_simps) blast

lemma rotl_eq_iff: "word_rotl n s = v \<longleftrightarrow> s = word_rotr n v"
  by auto

lemma xor_eq_iff: "(a XOR b XOR c = v) \<longleftrightarrow> a = v XOR b XOR (c :: 'a::len word)"
  by (metis xor_undo)

lemma scalar_decode_encode':
  assumes "codec_ok c"
  shows "scalar_decode c check stored address = Some v \<longleftrightarrow> (check, stored) = scalar_encode c v address"
proof -
  have "word_rotl (unat (sf_rotate_left c)) stored XOR address_mask 4 address (sf_address_shift c) XOR sf_value_xor c = v
      \<longleftrightarrow> stored = snd (scalar_encode c v address)"
    by (simp add: xor_eq_iff rotl_eq_iff scalar_encode_def Let_def)
  moreover have "scalar_decode c check stored address = Some v \<longleftrightarrow> check = stored XOR sf_check_xor c
      \<and> word_rotl (unat (sf_rotate_left c)) stored XOR address_mask 4 address (sf_address_shift c) XOR sf_value_xor c = v"
    using assms by (simp add: scalar_decode_def codec_ok_def not_le [symmetric])
  moreover have "fst (scalar_encode c v address) = snd (scalar_encode c v address) XOR sf_check_xor c"
    by (simp add: scalar_encode_def Let_def)
  ultimately show ?thesis by (metis prod.collapse prod.inject)
qed

text \<open>
  C39: A protected value is decoded from exactly the pair of words that encodes it at its address: every
  value has one encoding at every address, it decodes to that value, and any other pair of words,
  including the same pair read at an address whose mask differs, gives another value or none.
\<close>

theorem scalar_decode_encode:
  assumes "codec_ok c"
  shows "scalar_decode c check stored address = Some v \<longleftrightarrow> (check, stored) = scalar_encode c v address"
  by (rule scalar_decode_encode' [OF assms])

definition demo_codec :: AddressEncodedScalarFacts where
  "demo_codec = \<lparr>sf_check = ObjectOffset 0, sf_stored = ObjectOffset 4, sf_rotate_left = 19, sf_address_shift = 3,
     sf_value_xor = 0xAC7E8740, sf_check_xor = 0x9C084A47\<rparr>"

theorem scalar_decode_encode_witness: "scalar_decode demo_codec 0xB4787537 0x28703F70 0x14001D9F4 = Some 0x7FFFFFFF"
proof -
  have "codec_ok demo_codec" by (simp add: codec_ok_def demo_codec_def)
  moreover have "(0xB4787537, 0x28703F70) = scalar_encode demo_codec 0x7FFFFFFF 0x14001D9F4" by code_simp
  ultimately show ?thesis using scalar_decode_encode by blast
qed

end
