(* ===== verification/String_Pool.thy ===== *)
theory String_Pool
  imports Protected_Scalar
begin

section \<open>The string pool of the game\<close>

text \<open>
  \<open>provider/src/string_pool\<close>: a 32-bit token names an immutable string. Its low half selects a bucket of
  the pool and its high half an offset in the bucket. Resolved tokens are cached, within a budget.
\<close>

subsection \<open>Reading a string\<close>

definition MAX_STRING_TOKENS :: usize where "MAX_STRING_TOKENS = 16384"
definition MAX_POOL_STRING_BYTES :: usize where "MAX_POOL_STRING_BYTES = 255"
definition MAX_DECODED_BYTES :: usize where "MAX_DECODED_BYTES = 1024 * 1024"
definition STRING_READ_BYTES :: usize where "STRING_READ_BYTES = 64"

definition require_aligned :: "u64 \<Rightarrow> u64 \<Rightarrow> string \<Rightarrow> (unit, TargetError) result" where
  "require_aligned address alignment location = ensure (address \<noteq> 0 \<and> address mod alignment = 0) (InvalidData location)"

definition ascii_graphic :: "u8 \<Rightarrow> bool" where
  "ascii_graphic b \<longleftrightarrow> 0x21 \<le> b \<and> b \<le> 0x7E"

definition pool_string :: "u8 list \<Rightarrow> (string, TargetError) result" where
  "pool_string value =
     (if MAX_POOL_STRING_BYTES < length value \<or> \<not> list_all ascii_graphic value then Err (InvalidData ''string-pool string'')
      else if \<not> valid_utf8 value then Err (InvalidData ''string-pool string'')
      else Ok (string_of_bytes value))"

text \<open>The bytes one turn of the loop reads: to the end of an aligned block, and no further than allowed.\<close>

definition chunk_bytes :: "u64 \<Rightarrow> usize \<Rightarrow> usize" where
  "chunk_bytes chunk_address len =
     min (MAX_POOL_STRING_BYTES + 1 - len) (STRING_READ_BYTES - unat (chunk_address mod of_nat STRING_READ_BYTES))"

lemma block_offset: "unat (a mod of_nat STRING_READ_BYTES :: u64) < 64"
  by (simp add: STRING_READ_BYTES_def unat_mod)

lemma chunk_bytes_pos: "len \<le> MAX_POOL_STRING_BYTES \<Longrightarrow> 0 < chunk_bytes a len"
  using block_offset [of a] by (simp add: chunk_bytes_def STRING_READ_BYTES_def)

lemma read_at_gives: "(r', Ok chunk) = read_at be address n r \<Longrightarrow> length chunk = n"
  using read_at_length [of be address n r r' chunk] by simp

lemma chunk_shrinks:
  "length value \<le> MAX_POOL_STRING_BYTES \<Longrightarrow> (r', Ok chunk) = read_at be a (chunk_bytes a (length value)) r
    \<Longrightarrow> MAX_POOL_STRING_BYTES + 1 - length (value @ chunk) < MAX_POOL_STRING_BYTES + 1 - length value"
  using chunk_bytes_pos [of "length value" a] by (auto dest!: read_at_gives)

function read_c_string_from :: "'m backend \<Rightarrow> u64 \<Rightarrow> u8 list \<Rightarrow> ('m TargetReader, string, TargetError) attempt" where
  "read_c_string_from be address value r =
     (if MAX_POOL_STRING_BYTES < length value then (r, Err (SourceLimit ''string-pool string length''))
      else (case checked_add address (of_nat (length value)) of
          None \<Rightarrow> (r, Err (SourceOverflow ''string-pool string address''))
        | Some chunk_address \<Rightarrow>
          (case read_at be chunk_address (chunk_bytes chunk_address (length value)) r of
             (r', Err e) \<Rightarrow> (r', Err e)
           | (r', Ok chunk) \<Rightarrow>
             if 0 \<in> set chunk then (r', pool_string (value @ takeWhile (\<lambda>b. b \<noteq> 0) chunk))
             else read_c_string_from be address (value @ chunk) r')))"
  by pat_completeness auto

termination
  by (relation "measure (\<lambda>(_, _, value, _). MAX_POOL_STRING_BYTES + 1 - length value)")
    (simp, simp only: in_measure split_conv, rule chunk_shrinks, simp_all)

declare read_c_string_from.simps [simp del]

definition read_c_string :: "'m backend \<Rightarrow> u64 \<Rightarrow> ('m TargetReader, string, TargetError) attempt" where
  "read_c_string be address = read_c_string_from be address []"

subsection \<open>Tokens\<close>

record StringPoolFacts =
  sp_root :: Rva
  sp_decoder :: Rva

definition STRINGS :: StringPoolFacts where
  "STRINGS = \<lparr>sp_root = Rva 0x0288D610, sp_decoder = Rva 0x00715F40\<rparr>"

record StringTokenCache =
  st_values :: "(u64 \<times> u32, string) btree"
  st_decoded_bytes :: usize

definition string_cache_default :: StringTokenCache where
  "string_cache_default = \<lparr>st_values = [], st_decoded_bytes = 0\<rparr>"

definition string_pool :: "'m backend \<Rightarrow> StringPoolFacts \<Rightarrow> ('m TargetReader, u64, TargetError) attempt" where
  "string_pool be facts =
     and_then (of_reader (\<lambda>r. module_address r (sp_root facts) 8)) (\<lambda>root.
     and_then (read_u64 be root) (\<lambda>pool.
     done_with (rbind (require_aligned pool 8 ''root'') (\<lambda>_. Ok pool))))"

text \<open>A token that is not cached.\<close>

definition read_token :: "'m backend \<Rightarrow> u64 \<Rightarrow> u32 \<Rightarrow> ('m TargetReader, string, TargetError) attempt" where
  "read_token be pool token =
     and_then (done_with (ok_or (checked_add pool (ucast (token AND 0xFFFF) * 16)) (SourceOverflow ''string token address''))) (\<lambda>bucket_slot.
     and_then (read_u64 be bucket_slot) (\<lambda>bucket.
     and_then (done_with (require_aligned bucket 8 ''token bucket'')) (\<lambda>_.
     and_then (done_with (ok_or (checked_add bucket (ucast (drop_bit 16 token))) (SourceOverflow ''string token address''))) (\<lambda>address.
     read_c_string be address))))"

definition remember_token :: "u64 \<times> u32 \<Rightarrow> string \<Rightarrow> StringTokenCache \<Rightarrow> StringTokenCache" where
  "remember_token key value c =
     (if length (st_values c) < MAX_STRING_TOKENS \<and> st_decoded_bytes c + length value \<le> MAX_DECODED_BYTES
      then \<lparr>st_values = bt_insert key value (st_values c), st_decoded_bytes = st_decoded_bytes c + length value\<rparr>
      else c)"

definition resolve_token ::
  "'m backend \<Rightarrow> u64 \<Rightarrow> u32 \<Rightarrow> ('m TargetReader \<times> StringTokenCache, string, TargetError) attempt" where
  "resolve_token be pool token = (\<lambda>(r, c).
     (case bt_get (st_values c) (pool, token) of
        Some value \<Rightarrow> ((r, c), Ok value)
      | None \<Rightarrow>
        (case read_token be pool token r of
           (r', Err e) \<Rightarrow> ((r', c), Err e)
         | (r', Ok value) \<Rightarrow> ((r', remember_token (pool, token) value c), Ok value))))"

definition validate_string_pool_layout :: "'m backend \<Rightarrow> StringPoolFacts \<Rightarrow> ('m TargetReader, unit, TargetError) attempt" where
  "validate_string_pool_layout be facts =
     and_then (read_module be (sp_decoder facts) 37) (\<lambda>code.
     and_then (done_with (ok_or (rva_checked_add (sp_decoder facts) 12) (SourceOverflow ''string-pool decoder''))) (\<lambda>root_reference.
     done_with
       (if take 12 code \<noteq> [0x40, 0x53, 0x48, 0x83, 0xEC, 0x20, 0x44, 0x8B, 0x01, 0x48, 0x8B, 0xDA]
           \<or> take 3 (drop 12 code) \<noteq> [0x48, 0x8B, 0x05]
           \<or> rip_target root_reference 7 (take 4 (drop 15 code)) \<noteq> Some (sp_root facts)
           \<or> drop 19 code \<noteq> [0x41, 0x0F, 0xB7, 0xC8, 0x48, 0x03, 0xC9, 0x49, 0xC1, 0xE8, 0x10, 0x48, 0x8B, 0x0C, 0xC8, 0x49, 0x03, 0xC8]
        then Err (LayoutMismatch ''string-pool decoder'') else Ok ())))"

subsection \<open>The loop ends\<close>

lemma read_unchecked_one: "read_unchecked be address n r = (r', x) \<Longrightarrow> limit_reads (rd_limits r) \<le> limit_reads (rd_limits r') + 1"
  by (auto simp: read_unchecked_def usize_checked_sub_def split: if_splits option.splits prod.splits)

lemma read_at_one: "read_at be address n r = (r', x) \<Longrightarrow> limit_reads (rd_limits r) \<le> limit_reads (rd_limits r') + 1"
  by (auto simp: read_at_def and_then_def done_with_def dest: read_unchecked_one split: prod.splits result.splits)

lemma pool_string_Ok:
  "pool_string value = Ok s \<Longrightarrow> s = string_of_bytes value \<and> length s \<le> 255 \<and> list_all ascii_graphic value"
  by (auto simp: pool_string_def MAX_POOL_STRING_BYTES_def string_of_bytes_def split: if_splits)

text \<open>Once the position is aligned, every turn reads a whole block or the rest of the allowance.\<close>

definition turns_left :: "u64 \<Rightarrow> usize \<Rightarrow> nat" where
  "turns_left address len = (256 - len - chunk_bytes (address + of_nat len) len + 63) div 64 + 1"

lemma block_less:
  assumes "0 < (t :: nat)"
  shows "(t - min t 64 + 63) div 64 < (t + 63) div 64"
proof (cases "t \<le> 64")
  case False
  then have "t + 63 = 64 + (t - 64 + 63)" by simp
  then have "(t + 63) div 64 = 1 + (t - 64 + 63) div 64" by (metis div_add_self1 zero_neq_numeral add.commute)
  then show ?thesis using False by simp
qed (use assms in \<open>simp add: less_eq_div_iff_mult_less_eq\<close>)

lemma turns_step:
  assumes "len \<le> MAX_POOL_STRING_BYTES" and "checked_add address (of_nat len) = Some a" and "n = chunk_bytes a len"
    and "len + n \<le> MAX_POOL_STRING_BYTES" and "checked_add address (of_nat (len + n)) = Some b"
  shows "turns_left address (len + n) < turns_left address len"
proof -
  have a: "a = address + of_nat len" "b = address + of_nat (len + n)" using assms(2,5) by (auto simp: checked_add_Some_iff)
  have off: "unat (a mod 64) < 64" using block_offset [of a] by (simp add: STRING_READ_BYTES_def)
  have n: "n = 64 - unat (a mod 64)" using assms(1,3,4) by (auto simp: chunk_bytes_def MAX_POOL_STRING_BYTES_def STRING_READ_BYTES_def min_def split: if_splits)
  have small: "unat (of_nat len :: u64) = len" "unat (of_nat (len + n) :: u64) = len + n"
    using assms(1,4) unat_of_nat64 [of len] unat_of_nat64 [of "len + n"] by (simp_all add: MAX_POOL_STRING_BYTES_def del: of_nat_add)
  have sum: "unat b = unat address + len + n" and ua: "unat a = unat address + len"
    using checked_add_SomeD(1) [OF assms(5)] checked_add_SomeD(1) [OF assms(2)] small by simp_all
  have "unat (a mod 64) = unat a mod 64" by (simp add: unat_mod)
  moreover have pos_mod: "unat a mod 64 < 64" by simp
  ultimately have "unat b = unat a + (64 - unat a mod 64)" using sum ua n by simp
  then have "unat b = (unat a - unat a mod 64) + 64"
    using pos_mod mod_less_eq_dividend [of "unat a" 64] by (simp only: diff_add_assoc2 [symmetric] Nat.add_diff_assoc less_imp_le_nat)
  then have "64 dvd unat b" by (simp only: dvd_add dvd_minus_mod dvd_refl)
  then have "unat b mod 64 = 0" by (rule dvd_imp_mod_0)
  then have "unat (b mod 64) = 0" by (simp add: unat_mod)
  then have "chunk_bytes b (len + n) = min (256 - (len + n)) 64"
    by (simp add: chunk_bytes_def MAX_POOL_STRING_BYTES_def STRING_READ_BYTES_def)
  then have "turns_left address (len + n) = ((256 - (len + n)) - min (256 - (len + n)) 64 + 63) div 64 + 1"
    by (simp add: turns_left_def a(2))
  moreover have "turns_left address len = ((256 - (len + n)) + 63) div 64 + 1" by (simp add: turns_left_def a(1) assms(3))
  moreover have "0 < 256 - (len + n)" using assms(4) by (simp add: MAX_POOL_STRING_BYTES_def)
  ultimately show ?thesis using block_less [of "256 - (len + n)"] by linarith
qed

lemma read_c_string_from_reads:
  assumes "read_c_string_from be address got r = (r', x)" and "length got \<le> MAX_POOL_STRING_BYTES"
  shows "limit_reads (rd_limits r) \<le> limit_reads (rd_limits r') + turns_left address (length got)"
  using assms
proof (induction be address got r rule: read_c_string_from.induct)
  case (1 be address got r)
  show ?case
  proof (cases "checked_add address (of_nat (length got))")
    case None
    then show ?thesis using "1.prems" by (simp add: read_c_string_from.simps [of be address got])
  next
    case (Some a)
    obtain r1 y where read: "read_at be a (chunk_bytes a (length got)) r = (r1, y)" by fastforce
    have one: "limit_reads (rd_limits r) \<le> limit_reads (rd_limits r1) + 1" by (rule read_at_one [OF read])
    have some: "1 \<le> turns_left address (length got)" by (simp add: turns_left_def)
    show ?thesis
    proof (cases "\<exists>chunk. y = Ok chunk \<and> 0 \<notin> set chunk")
      case False
      then have "r' = r1" using "1.prems" Some read
        by (auto simp: read_c_string_from.simps [of be address got] not_less split: result.splits if_splits)
      then show ?thesis using one some by simp
    next
      case True
      then obtain chunk where y: "y = Ok chunk" "0 \<notin> set chunk" by blast
      have len: "length chunk = chunk_bytes a (length got)" using read_at_length read unfolding y(1) by blast
      have rest: "read_c_string_from be address (got @ chunk) r1 = (r', x)"
        using "1.prems" Some read y by (simp add: read_c_string_from.simps [of be address got] not_less)
      show ?thesis
      proof (cases "MAX_POOL_STRING_BYTES < length (got @ chunk)
          \<or> checked_add address (of_nat (length (got @ chunk))) = None")
        case True
        then have "r' = r1" using rest by (auto simp: read_c_string_from.simps [of be address "got @ chunk"] split: if_splits)
        then show ?thesis using one some by simp
      next
        case False
        then obtain b where b: "length got + length chunk \<le> MAX_POOL_STRING_BYTES"
            "checked_add address (of_nat (length got + length chunk)) = Some b" by (auto simp: not_less)
        have "turns_left address (length got + length chunk) < turns_left address (length got)"
          by (rule turns_step [OF "1.prems"(2) Some len b])
        moreover have "limit_reads (rd_limits r1) \<le> limit_reads (rd_limits r') + turns_left address (length (got @ chunk))"
          using "1.IH" [of a r1 y chunk] "1.prems"(2) Some read y rest b(1) by (simp add: not_less)
        ultimately show ?thesis using one by simp
      qed
    qed
  qed
qed

lemma turns_start: "turns_left address 0 \<le> 5"
proof -
  have "1 \<le> chunk_bytes (address + of_nat 0) 0" using chunk_bytes_pos [of 0] by (simp add: Suc_le_eq)
  then show ?thesis by (simp add: turns_left_def)
qed

lemma read_c_string_from_Ok:
  "read_c_string_from be address got r = (r', Ok s) \<Longrightarrow> length s \<le> 255 \<and> (\<exists>bytes. s = string_of_bytes bytes \<and> list_all ascii_graphic bytes)"
proof (induction be address got r rule: read_c_string_from.induct)
  case (1 be address got r)
  then show ?case
    by (auto simp: read_c_string_from.simps [of be address got] dest: pool_string_Ok split: if_splits option.splits prod.splits result.splits)
qed

text \<open>
  C38: Reading a pool string ends after at most five reads, whatever the memory and the address: no run of
  bytes without a terminator keeps it going, and a string it returns has at most 255 bytes, all visible
  ASCII characters.
\<close>

theorem read_c_string_ends:
  "case read_c_string be address r of
     (r', x) \<Rightarrow> limit_reads (rd_limits r) \<le> limit_reads (rd_limits r') + 5
       \<and> (case x of Ok s \<Rightarrow> length s \<le> 255 \<and> (\<exists>bytes. s = string_of_bytes bytes \<and> list_all ascii_graphic bytes) | Err e \<Rightarrow> True)"
proof -
  obtain r' x where run: "read_c_string_from be address [] r = (r', x)" by fastforce
  have "limit_reads (rd_limits r) \<le> limit_reads (rd_limits r') + turns_left address 0"
    using read_c_string_from_reads [OF run] by simp
  then have "limit_reads (rd_limits r) \<le> limit_reads (rd_limits r') + 5" using turns_start [of address] by simp
  then show ?thesis using run read_c_string_from_Ok [of be address "[]" r r'] by (auto simp: read_c_string_def split: result.splits)
qed

subsection \<open>The cache\<close>

definition string_cache_inv :: "StringTokenCache \<Rightarrow> bool" where
  "string_cache_inv c \<longleftrightarrow>
     bt_inv (st_values c) \<and> length (st_values c) \<le> MAX_STRING_TOKENS
     \<and> st_decoded_bytes c = sum_list (map (length \<circ> snd) (st_values c)) \<and> st_decoded_bytes c \<le> MAX_DECODED_BYTES"

text \<open>Every cached answer is what \<open>meaning\<close> gives the token.\<close>

definition string_cache_true :: "(u64 \<Rightarrow> u32 \<Rightarrow> string) \<Rightarrow> StringTokenCache \<Rightarrow> bool" where
  "string_cache_true meaning c \<longleftrightarrow> (\<forall>pool token value. bt_get (st_values c) (pool, token) = Some value \<longrightarrow> value = meaning pool token)"

lemma string_cache_default [simp]: "string_cache_inv string_cache_default" "string_cache_true meaning string_cache_default"
  by (simp_all add: string_cache_inv_def string_cache_default_def string_cache_true_def)

lemma length_bt_insert: "bt_inv m \<Longrightarrow> length (bt_insert k v m) = (if bt_get m k = None then Suc (length m) else length m)"
proof (induction m)
  case (Cons kv m)
  then show ?case by (cases kv) (force simp: bt_get_none_iff)
qed simp

lemma bytes_bt_insert:
  "bt_inv m \<Longrightarrow> bt_get m k = None \<Longrightarrow> sum_list (map (length \<circ> snd) (bt_insert k v m)) = length v + sum_list (map (length \<circ> snd) m)"
proof (induction m)
  case (Cons kv m)
  then show ?case by (cases kv) (auto split: if_splits)
qed simp

lemma remember_token_inv:
  assumes "string_cache_inv c" and "bt_get (st_values c) key = None"
  shows "string_cache_inv (remember_token key v c)"
  using assms bytes_bt_insert [of "st_values c" key v]
  by (auto simp: string_cache_inv_def remember_token_def bt_inv_insert length_bt_insert)

lemma remember_token_true:
  "string_cache_true meaning c \<Longrightarrow> v = meaning pool token \<Longrightarrow> string_cache_true meaning (remember_token (pool, token) v c)"
  by (auto simp: string_cache_true_def remember_token_def bt_get_insert)

lemma resolve_token_inv:
  "resolve_token be pool token (r, c) = ((r', c'), x) \<Longrightarrow> string_cache_inv c \<Longrightarrow> string_cache_inv c'"
  by (auto simp: resolve_token_def intro: remember_token_inv split: option.splits prod.splits result.splits)

text \<open>
  C36: If tokens are immutable, the cache is transparent: wherever a fresh read of a token succeeds, the
  resolver gives the same string, from any cache filled by earlier answers and at whatever point of the
  process's life; its answers keep the cache true, and its size stays within the stated budgets.
\<close>

theorem string_cache_transparent:
  assumes "\<And>pool token r r' value. read_token be pool token r = (r', Ok value) \<Longrightarrow> value = meaning pool token"
    and "string_cache_true meaning c" and "string_cache_inv c"
    and "resolve_token be pool token (r, c) = ((r', c'), x)"
  shows "(\<forall>r1 value. read_token be pool token r = (r1, Ok value) \<longrightarrow> x = Ok value)
    \<and> (\<forall>value. x = Ok value \<longrightarrow> value = meaning pool token) \<and> string_cache_true meaning c' \<and> string_cache_inv c'
    \<and> length (st_values c') \<le> 16384 \<and> sum_list (map (length \<circ> snd) (st_values c')) \<le> 1048576"
proof -
  have "string_cache_inv c'" by (rule resolve_token_inv [OF assms(4,3)])
  moreover from this have "length (st_values c') \<le> 16384 \<and> sum_list (map (length \<circ> snd) (st_values c')) \<le> 1048576"
    by (simp add: string_cache_inv_def MAX_STRING_TOKENS_def MAX_DECODED_BYTES_def)
  moreover have "(\<forall>r1 value. read_token be pool token r = (r1, Ok value) \<longrightarrow> x = Ok value)
      \<and> (\<forall>value. x = Ok value \<longrightarrow> value = meaning pool token) \<and> string_cache_true meaning c'"
  proof (cases "bt_get (st_values c) (pool, token)")
    case None
    then show ?thesis
      using assms(1) [of pool token r] assms(2,4)
      by (auto simp: resolve_token_def intro: remember_token_true split: prod.splits result.splits)
  next
    case (Some got)
    then have "got = meaning pool token" using assms(2) by (auto simp: string_cache_true_def)
    then show ?thesis using Some assms(1) [of pool token r] assms(2,4) by (auto simp: resolve_token_def)
  qed
  ultimately show ?thesis by blast
qed

end
