(* ===== verification/Item_Types.thy ===== *)
theory Item_Types
  imports String_Pool
begin

section \<open>Item types\<close>

text \<open>
  \<open>model/src/item_key.rs\<close> and \<open>provider/src/item_type\<close>: the canonical path of an item type, from the
  prefix and suffix tokens of its native descriptor, cached for the life of the process. A step on the
  caches works on the reader, the string cache and the item cache.
\<close>

subsection \<open>Item keys\<close>

datatype ItemKey = ItemKey (item_path: string)

instantiation ItemKey :: linorder
begin

definition less_eq_ItemKey :: "ItemKey \<Rightarrow> ItemKey \<Rightarrow> bool" where
  "less_eq_ItemKey a b \<longleftrightarrow> item_path a \<le> item_path b"

definition less_ItemKey :: "ItemKey \<Rightarrow> ItemKey \<Rightarrow> bool" where
  "less_ItemKey a b \<longleftrightarrow> item_path a < item_path b"

instance
  by intro_classes (auto simp: less_eq_ItemKey_def less_ItemKey_def less_le_not_le ItemKey.expand)

end

text \<open>\<open>split('/')\<close>: always one segment more than there are separators.\<close>

fun split_slash :: "string \<Rightarrow> string list" where
  "split_slash [] = [[]]"
| "split_slash (c # cs) =
     (if c = CHR ''/'' then [] # split_slash cs
      else (case split_slash cs of [] \<Rightarrow> [[c]] | segment # rest \<Rightarrow> (c # segment) # rest))"

definition strip_prefix :: "string \<Rightarrow> string \<Rightarrow> string option" where
  "strip_prefix prefix s = (if starts_with prefix s then Some (drop (length prefix) s) else None)"

definition item_key_new :: "string \<Rightarrow> (ItemKey, string) result" where
  "item_key_new value =
     (case strip_prefix ''/Lotus/'' value of
        Some relative \<Rightarrow>
          if relative \<noteq> [] \<and> CHR 0x00 \<notin> set relative \<and> list_all (\<lambda>segment. segment \<noteq> []) (split_slash relative)
          then Ok (ItemKey value) else Err value
      | None \<Rightarrow> Err value)"

subsection \<open>Descriptors\<close>

datatype ItemTypeError = Item_read TargetError | Item_invalid string

definition MAX_ITEM_TYPES :: usize where "MAX_ITEM_TYPES = 4096"
definition MAX_PATH_BYTES :: usize where "MAX_PATH_BYTES = 512"
definition DESCRIPTOR_BYTES :: usize where "DESCRIPTOR_BYTES = 48"

record ItemTypeFacts =
  it_leaf_vtable :: Rva
  it_leaf_constructor :: Rva
  it_prefix_object :: ObjectOffset
  it_parent :: ObjectOffset
  it_suffix_token :: ObjectOffset
  it_type_pair_builder :: Rva
  it_strings :: StringPoolFacts

definition ITEM_TYPES :: ItemTypeFacts where
  "ITEM_TYPES =
     \<lparr>it_leaf_vtable = Rva 0x0200AD18, it_leaf_constructor = Rva 0x01423E40, it_prefix_object = ObjectOffset 0x10,
      it_parent = ObjectOffset 0x18, it_suffix_token = ObjectOffset 0x2C, it_type_pair_builder = Rva 0x00554DE0, it_strings = STRINGS\<rparr>"

type_synonym ItemTypeCache = "(u64, ItemKey) btree"

type_synonym 'm caches = "('m TargetReader \<times> StringTokenCache) \<times> ItemTypeCache"

text \<open>A step on the first part of a state, and the conversions of its error by \<open>?\<close>.\<close>

definition on_fst :: "('s, 'a, 'e) attempt \<Rightarrow> ('s \<times> 't, 'a, 'e) attempt" where
  "on_fst m = (\<lambda>(s, t). case m s of (s', x) \<Rightarrow> ((s', t), x))"

definition with_error :: "('e \<Rightarrow> 'f) \<Rightarrow> ('s, 'a, 'e) attempt \<Rightarrow> ('s, 'a, 'f) attempt" where
  "with_error f m s = (case m s of (s', x) \<Rightarrow> (s', map_err f x))"

abbreviation on_target :: "('m TargetReader, 'a, TargetError) attempt \<Rightarrow> ('m TargetReader \<times> 'c, 'a, ItemTypeError) attempt" where
  "on_target m \<equiv> with_error Item_read (on_fst m)"

definition item_aligned :: "u64 \<Rightarrow> u64 \<Rightarrow> string \<Rightarrow> (unit, ItemTypeError) result" where
  "item_aligned address alignment location = ensure (address \<noteq> 0 \<and> address mod alignment = 0) (Item_invalid location)"

definition join_path :: "string \<Rightarrow> string \<Rightarrow> (ItemKey, ItemTypeError) result" where
  "join_path prefix suffix =
     (if suffix = [] \<or> prefix \<noteq> [] \<and> (last prefix \<noteq> CHR ''/'' \<or> hd suffix = CHR ''/'') then Err (Item_invalid ''item type path'')
      else if MAX_PATH_BYTES < length prefix + length suffix then Err (Item_invalid ''item type path'')
      else map_err (\<lambda>_. Item_invalid ''type path'') (item_key_new (prefix @ suffix)))"

definition resolve_path ::
  "'m backend \<Rightarrow> ItemTypeFacts \<Rightarrow> u64 \<Rightarrow> u64 \<Rightarrow> u64 \<Rightarrow> ('m TargetReader \<times> StringTokenCache, ItemKey, ItemTypeError) attempt" where
  "resolve_path be facts pool expected_vtable descriptor =
     and_then (done_with (item_aligned descriptor 8 ''type descriptor'')) (\<lambda>_.
     and_then (on_target (read_at be descriptor DESCRIPTOR_BYTES)) (\<lambda>bytes.
     and_then (done_with (if from_le (take 8 bytes) \<noteq> expected_vtable then Err (Item_invalid ''type descriptor vtable'') else Ok ())) (\<lambda>_.
     and_then (done_with (map_err (\<lambda>e. Item_read (record_read_error e))
       (record_u64 \<lparr>rv_bytes = bytes, rv_at = ''type descriptor''\<rparr> (it_prefix_object facts)))) (\<lambda>prefix_object.
     and_then
       (if prefix_object = 0 then done_with (Ok [])
        else and_then (done_with (item_aligned prefix_object 4 ''type prefix'')) (\<lambda>_.
             and_then (on_target (read_u32 be prefix_object)) (\<lambda>token. with_error Item_read (resolve_token be pool token)))) (\<lambda>prefix.
     and_then (done_with (map_err (\<lambda>e. Item_read (record_read_error e))
       (record_u32 \<lparr>rv_bytes = bytes, rv_at = ''type descriptor''\<rparr> (it_suffix_token facts)))) (\<lambda>suffix_token.
     and_then (with_error Item_read (resolve_token be pool suffix_token)) (\<lambda>suffix.
     done_with (join_path prefix suffix))))))))"

text \<open>
  \<open>resolve_item_path\<close>. The pool is looked up by the first miss of a batch: the batch threads it, and a miss
  returns the one to use next.
\<close>

definition remember_item :: "u64 \<Rightarrow> ItemKey \<Rightarrow> ItemTypeCache \<Rightarrow> ItemTypeCache" where
  "remember_item item_type item_key items = (if length items < MAX_ITEM_TYPES then bt_insert item_type item_key items else items)"

definition resolve_item_path ::
  "'m backend \<Rightarrow> ItemTypeFacts \<Rightarrow> u64 \<Rightarrow> u64 option \<Rightarrow> ('m caches, ItemKey \<times> u64 option, ItemTypeError) attempt" where
  "resolve_item_path be facts item_type pool = (\<lambda>(s, items).
     (case bt_get items item_type of
        Some path \<Rightarrow> ((s, items), Ok (path, pool))
      | None \<Rightarrow>
        and_then
          (on_fst
            (and_then (case pool of Some p \<Rightarrow> done_with (Ok p) | None \<Rightarrow> on_target (string_pool be (it_strings facts))) (\<lambda>string_pool.
             and_then (on_target (of_reader (\<lambda>r. module_address r (it_leaf_vtable facts) 8))) (\<lambda>leaf_vtable.
             and_then (resolve_path be facts string_pool leaf_vtable item_type) (\<lambda>item_key.
             done_with (Ok (item_key, string_pool)))))))
          (\<lambda>(item_key, string_pool). (\<lambda>(s', items'). ((s', remember_item item_type item_key items'), Ok (item_key, Some string_pool))))
          (s, items)))"

subsection \<open>The instructions\<close>

text \<open>\<open>u8::try_from\<close> of a 32-bit value.\<close>

definition narrow :: "u32 \<Rightarrow> 'e \<Rightarrow> (u8, 'e) result" where
  "narrow w e = (if w < 256 then Ok (ucast w) else Err e)"

definition validate_leaf_constructor :: "'m backend \<Rightarrow> ItemTypeFacts \<Rightarrow> ('m TargetReader, unit, ItemTypeError) attempt" where
  "validate_leaf_constructor be facts =
     (let error = Item_invalid ''item type constructor''
      in and_then (done_with (narrow (offset_get (it_prefix_object facts)) error)) (\<lambda>prefix.
         and_then (done_with (narrow (offset_get (it_parent facts)) error)) (\<lambda>parent.
         and_then (done_with (narrow (offset_get (it_suffix_token facts)) error)) (\<lambda>suffix.
         and_then (with_error Item_read (read_module be (it_leaf_constructor facts) 62)) (\<lambda>code.
         and_then (done_with (ok_or (rva_checked_add (it_leaf_constructor facts) 14) error)) (\<lambda>reference.
         done_with
           (if \<not> code_matches code
                [(0, [0x45, 0x33, 0xC9, 0xC7, 0x41, 0x08, 0xFF, 0xFF, 0xFF, 0xFF, 0x44, 0x89, 0x49, 0x0C, 0x48, 0x8D, 0x05]),
                 (21, [0x4C, 0x89, 0x49, prefix, 0x44, 0x89, 0x49, 0x24, 0x4C, 0x89, 0x41, parent, 0xC7,
                       0x41, 0x20, 0xFF, 0xFF, 0xFF, 0xFF, 0x89, 0x51, suffix, 0xC7, 0x41, 0x28, 0x00,
                       0x40, 0x00, 0x00, 0x4C, 0x89, 0x49, 0x30, 0x66, 0x83, 0x49, 0x28, 0x08, 0x48, 0x89, 0x01])]
               \<or> rip_target reference 7 (take 4 (drop 17 code)) \<noteq> Some (it_leaf_vtable facts)
            then Err error else Ok ())))))))"

definition validate_type_pair_builder :: "'m backend \<Rightarrow> ItemTypeFacts \<Rightarrow> ('m TargetReader, unit, ItemTypeError) attempt" where
  "validate_type_pair_builder be facts =
     (let error = Item_invalid ''item type path builder''
      in and_then (done_with (narrow (offset_get (it_prefix_object facts)) error)) (\<lambda>prefix.
         and_then (done_with (narrow (offset_get (it_suffix_token facts)) error)) (\<lambda>suffix.
         and_then (with_error Item_read (read_module be (it_type_pair_builder facts) 35)) (\<lambda>code.
         done_with
           (if code \<noteq> [0x48, 0x8B, 0x41, prefix, 0x48, 0x85, 0xC0, 0x74, 0x0E, 0x8B, 0x00, 0x89, 0x02, 0x8B,
                       0x41, suffix, 0x89, 0x42, 0x04, 0x48, 0x8B, 0xC2, 0xC3, 0x89, 0x02, 0x8B, 0x41, suffix,
                       0x89, 0x42, 0x04, 0x48, 0x8B, 0xC2, 0xC3]
            then Err error else Ok ())))))"

definition validate_item_types :: "'m backend \<Rightarrow> ItemTypeFacts \<Rightarrow> ('m TargetReader, unit, ItemTypeError) attempt" where
  "validate_item_types be facts = and_then (validate_leaf_constructor be facts) (\<lambda>_. validate_type_pair_builder be facts)"

subsection \<open>What is resolved\<close>

text \<open>A path beneath \<open>/Lotus/\<close> without empty segments.\<close>

definition item_key_wf :: "ItemKey \<Rightarrow> bool" where
  "item_key_wf key \<longleftrightarrow> item_key_new (item_path key) = Ok key"

lemma item_key_new_wf: "item_key_new s = Ok key \<Longrightarrow> item_key_wf key"
  by (auto simp: item_key_wf_def item_key_new_def split: option.splits if_splits)

lemma join_path_wf: "join_path prefix suffix = Ok key \<Longrightarrow> item_key_wf key"
  by (auto simp: join_path_def intro: item_key_new_wf split: if_splits)

definition item_cache_inv :: "ItemTypeCache \<Rightarrow> bool" where
  "item_cache_inv items \<longleftrightarrow> bt_inv items \<and> length items \<le> MAX_ITEM_TYPES \<and> (\<forall>(k, key) \<in> set items. item_key_wf key)"

lemma item_cache_empty [simp]: "item_cache_inv []"
  by (simp add: item_cache_inv_def)

lemma item_cache_hit: "item_cache_inv items \<Longrightarrow> bt_get items k = Some key \<Longrightarrow> item_key_wf key"
  using bt_get_member by (fastforce simp: item_cache_inv_def)

lemma set_bt_insert_subset: "set (bt_insert k v m) \<subseteq> insert (k, v) (set m)"
  by (induction k v m rule: bt_insert.induct) auto

lemma remember_item_inv:
  "item_cache_inv items \<Longrightarrow> item_key_wf key \<Longrightarrow> item_cache_inv (remember_item k key items)"
  using set_bt_insert_subset [of k key items]
  by (fastforce simp: item_cache_inv_def remember_item_def bt_inv_insert length_bt_insert)

lemma with_error_Ok [simp]: "with_error f m s = (s', Ok x) \<longleftrightarrow> m s = (s', Ok x)"
  by (auto simp: with_error_def split: prod.splits)

lemma on_fst_Ok [simp]: "on_fst m s = (s', Ok x) \<longleftrightarrow> m (fst s) = (fst s', Ok x) \<and> snd s' = snd s"
  by (cases s; cases s') (auto simp: on_fst_def split: prod.splits)

lemma resolve_path_wf: "resolve_path be facts pool vtable descriptor s = (s', Ok key) \<Longrightarrow> item_key_wf key"
  unfolding resolve_path_def by (auto simp: and_then_Ok intro: join_path_wf)

lemma resolve_item_path_wf:
  assumes "resolve_item_path be facts item_type pool (s, items) = ((s', items'), x)" and "item_cache_inv items"
  shows "item_cache_inv items'" and "\<And>key pool'. x = Ok (key, pool') \<Longrightarrow> item_key_wf key"
  using assms
  by (auto simp: resolve_item_path_def and_then_def with_error_def on_fst_def of_reader_def done_with_def remember_item_inv
      dest: item_cache_hit resolve_path_wf split: option.splits prod.splits result.splits)

end
