(* ===== verification/Profile_Inventory.thy ===== *)
theory Profile_Inventory
  imports Item_Types
begin

section \<open>Vectors of the profile\<close>

text \<open>
  \<open>provider/src/profile_inventory\<close>: the inventory embedded in profile data, the header that bounds each
  of its vectors, and the marks that tell whether the game is rewriting them.
\<close>

subsection \<open>Facts about the executable\<close>

record InventoryOwnerFacts =
  io_getter :: Rva
  io_offset :: ObjectOffset

record InventoryCommitFacts =
  ic_constructor_vtable :: Rva
  ic_force_update_init :: Rva
  ic_force_update_read :: Rva
  ic_sync_tokens_init :: Rva
  ic_sync_tokens_compare :: Rva
  ic_compare_bytes :: Rva

record ProfileCommitFacts =
  pk_force_update :: ObjectOffset
  pk_sync_tokens :: ObjectOffset
  pk_commit :: InventoryCommitFacts

definition INVENTORY_OWNER :: InventoryOwnerFacts where
  "INVENTORY_OWNER = \<lparr>io_getter = Rva 0x0148FDE0, io_offset = ObjectOffset 0xD608\<rparr>"

definition PROFILE_COMMIT :: ProfileCommitFacts where
  "PROFILE_COMMIT =
     \<lparr>pk_force_update = ObjectOffset 0x00011FF8, pk_sync_tokens = ObjectOffset 0xFFE0,
      pk_commit = \<lparr>ic_constructor_vtable = Rva 0x003EFC20, ic_force_update_init = Rva 0x003F0BBC, ic_force_update_read = Rva 0x01B12A89,
        ic_sync_tokens_init = Rva 0x003F06E5, ic_sync_tokens_compare = Rva 0x0141D6AF, ic_compare_bytes = Rva 0x01FC5670\<rparr>\<rparr>"

subsection \<open>Headers\<close>

definition VECTOR_HEADER_BYTES :: usize where "VECTOR_HEADER_BYTES = 16"
definition MAX_VECTOR_BYTES :: u32 where "MAX_VECTOR_BYTES = 8 * 1024 * 1024"
definition MAX_USER_ADDRESS :: u64 where "MAX_USER_ADDRESS = 0x00007FFFFFFFFFFF"

record NativeVectorHeader =
  nv_pointer :: u64
  nv_bytes :: u32
  nv_capacity :: u32

definition is_user_address :: "u64 \<Rightarrow> bool" where
  "is_user_address address \<longleftrightarrow> 0x10000 \<le> address \<and> address \<le> MAX_USER_ADDRESS"

definition is_user_range :: "u64 \<Rightarrow> u32 \<Rightarrow> bool" where
  "is_user_range address bytes \<longleftrightarrow>
     (if bytes = 0 then address = 0 \<or> is_user_address address
      else is_user_address address \<and>
        (case checked_add address (ucast bytes - 1) of Some end' \<Rightarrow> end' \<le> MAX_USER_ADDRESS | None \<Rightarrow> False))"

definition decode_vector_header :: "u8 list \<Rightarrow> u32 \<Rightarrow> (NativeVectorHeader, TargetError) result" where
  "decode_vector_header bytes record_bytes =
     (if record_bytes = 0 then Err (InvalidData ''native vector stride'')
      else (let header = \<lparr>nv_pointer = from_le (take 8 bytes), nv_bytes = from_le (take 4 (drop 8 bytes)), nv_capacity = from_le (take 4 (drop 12 bytes))\<rparr>
        in if nv_capacity header < nv_bytes header then Err (InvalidData ''native vector length/capacity'')
           else if MAX_VECTOR_BYTES < nv_capacity header then Err (SourceLimit ''native vector capacity'')
           else if nv_bytes header mod record_bytes \<noteq> 0 \<or> nv_capacity header mod record_bytes \<noteq> 0
           then Err (InvalidData ''native vector records'')
           else if \<not> is_user_range (nv_pointer header) (nv_capacity header) then Err (InvalidData ''native vector payload'')
           else Ok header))"

subsection \<open>Reading\<close>

definition read_commit_state :: "'m backend \<Rightarrow> u64 \<Rightarrow> ('m TargetReader, u8 list, TargetError) attempt" where
  "read_commit_state be profile_data =
     and_then (read_object_u8 be profile_data (pk_force_update PROFILE_COMMIT)) (\<lambda>rebuilding.
       if rebuilding \<noteq> 0 then done_with (Err (NotReady ''profile inventory rebuild''))
       else read_object be profile_data (pk_sync_tokens PROFILE_COMMIT) 24)"

definition vector_payload :: "'m backend \<Rightarrow> NativeVectorHeader \<Rightarrow> ('m TargetReader, u8 list, TargetError) attempt" where
  "vector_payload be header =
     (if nv_bytes header = 0 then done_with (Ok []) else read_at be (nv_pointer header) (unat (nv_bytes header)))"

definition read_vector :: "'m backend \<Rightarrow> u64 \<Rightarrow> ObjectOffset \<Rightarrow> u32 \<Rightarrow> ('m TargetReader, u64 \<times> u8 list, TargetError) attempt" where
  "read_vector be inventory vector record_bytes =
     and_then (read_object be inventory vector VECTOR_HEADER_BYTES) (\<lambda>before.
     and_then (done_with (decode_vector_header before record_bytes)) (\<lambda>header.
     and_then (vector_payload be header) (\<lambda>payload.
     and_then (read_object be inventory vector VECTOR_HEADER_BYTES) (\<lambda>after.
     done_with (if before \<noteq> after then Err (Unstable ''inventory vector header'') else Ok (nv_pointer header, payload))))))"

text \<open>\<open>chunks_exact\<close> of a payload whose length is a multiple of the stride.\<close>

fun chunks_exact :: "usize \<Rightarrow> usize \<Rightarrow> 'a list \<Rightarrow> 'a list list" where
  "chunks_exact stride 0 xs = []"
| "chunks_exact stride (Suc n) xs = take stride xs # chunks_exact stride n (drop stride xs)"

definition records_of :: "usize \<Rightarrow> 'a list \<Rightarrow> 'a list list" where
  "records_of stride xs = chunks_exact stride (length xs div stride) xs"

subsection \<open>The instructions\<close>

definition validate_inventory_getter :: "'m backend \<Rightarrow> ('m TargetReader, unit, TargetError) attempt" where
  "validate_inventory_getter be =
     and_then (read_module be (io_getter INVENTORY_OWNER) 8) (\<lambda>getter.
       done_with (if \<not> code_matches getter [(0, [0x48, 0x8D, 0x81]), (3, to_le (offset_get (io_offset INVENTORY_OWNER))), (7, [0xC3])]
         then Err (LayoutMismatch ''inventory getter'') else Ok ()))"

definition validate_commit_fields :: "'m backend \<Rightarrow> ('m TargetReader, unit, TargetError) attempt" where
  "validate_commit_fields be =
     (let facts = pk_commit PROFILE_COMMIT; sync = offset_get (pk_sync_tokens PROFILE_COMMIT);
          flag = to_le (offset_get (pk_force_update PROFILE_COMMIT))
      in and_then (read_module be (ic_constructor_vtable facts) 14) (\<lambda>constructor.
         if \<not> code_matches constructor [(0, [0x48, 0x8D, 0x05]), (7, [0x48, 0x8D, 0x4F, 0x28, 0x48, 0x89, 0x07])]
            \<or> rip_target (ic_constructor_vtable facts) 7 (take 4 (drop 3 constructor)) \<noteq> Some (pf_vtable PROFILE_DATA_FACTS)
         then done_with (Err (LayoutMismatch ''inventory coherence owner''))
         else and_then (read_module be (ic_force_update_init facts) 7) (\<lambda>init.
         and_then (read_module be (ic_force_update_read facts) 7) (\<lambda>read.
         if \<not> code_matches init [(0, [0x40, 0x88, 0xAF]), (3, flag)] \<or> \<not> code_matches read [(0, [0x0F, 0xB6, 0x90]), (3, flag)]
         then done_with (Err (LayoutMismatch ''inventory rebuild flag''))
         else and_then (read_module be (ic_sync_tokens_init facts) 26) (\<lambda>init.
         if \<not> code_matches init [(0, [0x48, 0x89, 0x87]), (3, to_le sync), (7, [0x89, 0x87]), (9, to_le (sync + 8)),
               (13, [0x48, 0x89, 0x87]), (16, to_le (sync + 12)), (20, [0x89, 0x87]), (22, to_le (sync + 20))]
         then done_with (Err (LayoutMismatch ''inventory synchronization fields''))
         else and_then (read_module be (ic_sync_tokens_compare facts) 34) (\<lambda>compare.
         and_then (done_with (ok_or (rva_checked_add (ic_sync_tokens_compare facts) 29) (LayoutMismatch ''inventory synchronization comparison''))) (\<lambda>call.
         done_with
           (if \<not> code_matches compare [(0, [0x48, 0x8D, 0xB9]), (3, to_le (sync + 12)), (7, [0x0F, 0xB6, 0xF2, 0x48, 0x8D, 0x99]),
                 (13, to_le sync), (17, [0x48, 0x8B, 0xD7, 0x48, 0x8B, 0xCB, 0x41, 0xB8, 0x0C, 0, 0, 0, 0xE8])]
               \<or> rip_target call 5 (drop 30 compare) \<noteq> Some (ic_compare_bytes facts)
            then Err (LayoutMismatch ''inventory synchronization comparison'') else Ok ()))))))))"

subsection \<open>What a vector read establishes\<close>

lemma decode_vector_header_bounds:
  assumes "decode_vector_header bytes record_bytes = Ok header"
  shows "unat (nv_bytes header) \<le> 8388608" and "unat (nv_bytes header) mod unat record_bytes = 0"
    and "is_user_range (nv_pointer header) (nv_capacity header)" and "nv_bytes header \<le> nv_capacity header" and "record_bytes \<noteq> 0"
proof -
  have d: "nv_bytes header \<le> nv_capacity header" "nv_capacity header \<le> MAX_VECTOR_BYTES" "nv_bytes header mod record_bytes = 0"
      "is_user_range (nv_pointer header) (nv_capacity header)" "record_bytes \<noteq> 0"
    using assms by (simp_all add: decode_vector_header_def Let_def not_less split: if_splits) (hypsubst, simp)+
  then show "is_user_range (nv_pointer header) (nv_capacity header)" "nv_bytes header \<le> nv_capacity header" "record_bytes \<noteq> 0" by simp_all
  have "nv_bytes header \<le> MAX_VECTOR_BYTES" using d(1,2) by (rule order_trans)
  then show "unat (nv_bytes header) \<le> 8388608" by (simp add: MAX_VECTOR_BYTES_def word_le_nat_alt)
  have "unat (nv_bytes header mod record_bytes) = 0" using d(3) by simp
  then show "unat (nv_bytes header) mod unat record_bytes = 0" by (simp add: unat_mod)
qed

lemma read_vector_bounds:
  assumes "read_vector be inventory vector record_bytes r = (r', Ok (pointer, payload))"
  shows "length payload \<le> 8388608" and "length payload mod unat record_bytes = 0"
    and "payload \<noteq> [] \<longrightarrow> is_user_address pointer \<and> unat pointer + length payload \<le> 2 ^ 47"
proof -
  obtain before header r1 r2 where h: "decode_vector_header before record_bytes = Ok header" "pointer = nv_pointer header"
      "vector_payload be header r1 = (r2, Ok payload)"
    using assms by (auto simp: read_vector_def and_then_Ok split: if_splits)
  have len: "length payload = unat (nv_bytes header)" using h(3) by (auto simp: vector_payload_def dest: read_at_length split: if_splits)
  show "length payload \<le> 8388608" "length payload mod unat record_bytes = 0"
    using decode_vector_header_bounds(1,2) [OF h(1)] len by simp_all
  show "payload \<noteq> [] \<longrightarrow> is_user_address pointer \<and> unat pointer + length payload \<le> 2 ^ 47"
  proof
    assume "payload \<noteq> []"
    then have "0 < length payload" by simp
    then have pos: "0 < unat (nv_capacity header)"
      using len decode_vector_header_bounds(4) [OF h(1)] by (simp add: word_le_nat_alt)
    then have "nv_capacity header \<noteq> 0" by auto
    then obtain last where range: "is_user_address pointer" "checked_add pointer (ucast (nv_capacity header) - 1) = Some last" "last \<le> MAX_USER_ADDRESS"
      using decode_vector_header_bounds(3) [OF h(1)] by (auto simp: is_user_range_def h(2) split: option.splits)
    have "unat (ucast (nv_capacity header) - 1 :: u64) = unat (nv_capacity header) - 1"
      using pos by (simp add: unat_sub word_le_nat_alt)
    then have "unat last = unat pointer + (unat (nv_capacity header) - 1)" using checked_add_SomeD(1) [OF range(2)] by simp
    moreover have "unat last \<le> 2 ^ 47 - 1" using range(3) by (simp add: MAX_USER_ADDRESS_def word_le_nat_alt)
    ultimately show "is_user_address pointer \<and> unat pointer + length payload \<le> 2 ^ 47"
      using range(1) len pos decode_vector_header_bounds(4) [OF h(1)] by (simp add: word_le_nat_alt)
  qed
qed

end
