(* ===== verification/Inventory_Facts.thy ===== *)
theory Inventory_Facts
  imports Profile_Inventory
begin

section \<open>Inventory families\<close>

text \<open>
  \<open>model/src/inventory\<close> and \<open>provider/src/topics/inventory/facts.rs\<close>: the families of the public schema,
  the snapshot that holds each of them once, and where the game keeps their records.
\<close>

subsection \<open>The snapshot\<close>

datatype InventoryFamily =
    LongGuns | Pistols | Warframes | Melee | WeaponSkins | RawUpgrades | Consumables | MiscItems | Sentinels | SentinelWeapons |
    KubrowPets | SpaceSuits | SpaceGuns | SpaceMelee | Scoops | FusionBundles | ShipDecorations | EmailItems | FoundToday | LevelKeys |
    Recipes | OperatorAmps | SpecialItems | MoaPets | Hoverboards | CrewShips | CrewShipWeapons | CrewShipSalvagedWeapons | DrifterGuns |
    DrifterMelee | Gadgets | Horses | CrewShipRawSalvage | DataKnives | MechSuits | CrewShipHarnesses | Motorcycles | OperatorSuits |
    Antiques | BonusMiscItems

text \<open>\<open>InventoryFamily::ALL\<close>, the schema order.\<close>

definition ALL_FAMILIES :: "InventoryFamily list" where
  "ALL_FAMILIES =
     [LongGuns, Pistols, Warframes, Melee, WeaponSkins, RawUpgrades, Consumables, MiscItems, Sentinels, SentinelWeapons, KubrowPets,
      SpaceSuits, SpaceGuns, SpaceMelee, Scoops, FusionBundles, ShipDecorations, EmailItems, FoundToday, LevelKeys, Recipes, OperatorAmps,
      SpecialItems, MoaPets, Hoverboards, CrewShips, CrewShipWeapons, CrewShipSalvagedWeapons, DrifterGuns, DrifterMelee, Gadgets, Horses,
      CrewShipRawSalvage, DataKnives, MechSuits, CrewShipHarnesses, Motorcycles, OperatorSuits, Antiques, BonusMiscItems]"

record InventoryItemCount =
  iq_item_key :: ItemKey
  iq_quantity :: u64

record InventoryFamilySnapshot =
  fs_family :: InventoryFamily
  fs_items :: "InventoryItemCount list"

record InventorySnapshot =
  iv_account_id :: AccountId
  iv_families :: "InventoryFamilySnapshot list"

datatype InvalidInventory = Invalid_families | ItemOrder | ZeroQuantity

text \<open>The loop over the families returns at the first one that fails, with its order checked before its counts.\<close>

fun check_families :: "InventoryFamilySnapshot list \<Rightarrow> (unit, InvalidInventory) result" where
  "check_families [] = Ok ()"
| "check_families (f # fs) =
     (if windows2_any (\<lambda>a b. iq_item_key b \<le> iq_item_key a) (fs_items f) then Err ItemOrder
      else if list_ex (\<lambda>item. iq_quantity item = 0) (fs_items f) then Err ZeroQuantity
      else check_families fs)"

definition inventory_new :: "AccountId \<Rightarrow> InventoryFamilySnapshot list \<Rightarrow> (InventorySnapshot, InvalidInventory) result" where
  "inventory_new account families =
     (if map fs_family families \<noteq> ALL_FAMILIES then Err Invalid_families
      else rbind (check_families families) (\<lambda>_. Ok \<lparr>iv_account_id = account, iv_families = families\<rparr>))"

definition inventory_family :: "InventorySnapshot \<Rightarrow> InventoryFamily \<Rightarrow> InventoryFamilySnapshot option" where
  "inventory_family x family = List.find (\<lambda>f. fs_family f = family) (iv_families x)"

text \<open>\<open>binary_search_by\<close> on the ordered keys.\<close>

definition inventory_quantity :: "InventorySnapshot \<Rightarrow> InventoryFamily \<Rightarrow> ItemKey \<Rightarrow> u64" where
  "inventory_quantity x family key =
     (case Option.bind (inventory_family x family) (\<lambda>f. List.find (\<lambda>item. iq_item_key item = key) (fs_items f)) of
        Some item \<Rightarrow> iq_quantity item
      | None \<Rightarrow> 0)"

subsection \<open>Facts about the executable\<close>

datatype InventoryRecordCountFacts =
    Single_count Rva Rva
  | AddressEncoded_count AddressEncodedScalarFacts Rva Rva
  | Plain_count ObjectOffset Rva Rva Rva

record InventoryRecordFacts =
  rc_bytes :: u32
  rc_item_type :: ObjectOffset
  rc_serializer :: Rva
  rc_count :: InventoryRecordCountFacts

datatype InventoryRegistrationFacts = Named_registration string Rva Rva | Direct_registration Rva

record InventoryFamilyFacts =
  ff_family :: InventoryFamily
  ff_vector :: ObjectOffset
  ff_vector_reference :: Rva
  ff_registration :: InventoryRegistrationFacts
  ff_record :: InventoryRecordFacts

definition EQUIPMENT :: InventoryRecordFacts where
  "EQUIPMENT = \<lparr>rc_bytes = 304, rc_item_type = ObjectOffset 0x8, rc_serializer = Rva 0x01BF1C80,
     rc_count = Single_count (Rva 0x01BF1CE6) (Rva 0x00516D09)\<rparr>"

definition SKINS :: InventoryRecordFacts where
  "SKINS = \<lparr>rc_bytes = 80, rc_item_type = ObjectOffset 0x0, rc_serializer = Rva 0x0120DE20,
     rc_count = Plain_count (ObjectOffset 0x38) (Rva 0x0120DF2A) (Rva 0x004F925F) (Rva 0x004F9337)\<rparr>"

definition UPGRADES :: InventoryRecordFacts where
  "UPGRADES = \<lparr>rc_bytes = 80, rc_item_type = ObjectOffset 0x0, rc_serializer = Rva 0x01BF17F0,
     rc_count = Plain_count (ObjectOffset 0x38) (Rva 0x01BF195F) (Rva 0x004F925F) (Rva 0x004F9337)\<rparr>"

definition CONSUMABLES :: InventoryRecordFacts where
  "CONSUMABLES = \<lparr>rc_bytes = 16, rc_item_type = ObjectOffset 0x0, rc_serializer = Rva 0x01BF10D0,
     rc_count = Plain_count (ObjectOffset 0x8) (Rva 0x01BF119D) (Rva 0x006E477B) (Rva 0x006E4799)\<rparr>"

definition BEASTS :: InventoryRecordFacts where
  "BEASTS = \<lparr>rc_bytes = 528, rc_item_type = ObjectOffset 0x8, rc_serializer = Rva 0x01681EF0,
     rc_count = Single_count (Rva 0x01681FD4) (Rva 0x00516D09)\<rparr>"

definition VESSELS :: InventoryRecordFacts where
  "VESSELS = \<lparr>rc_bytes = 1248, rc_item_type = ObjectOffset 0x8, rc_serializer = Rva 0x01BF19D0,
     rc_count = Single_count (Rva 0x01BF1AC7) (Rva 0x00516D09)\<rparr>"

definition WRECKAGE :: InventoryRecordFacts where
  "WRECKAGE = \<lparr>rc_bytes = 304, rc_item_type = ObjectOffset 0x8, rc_serializer = Rva 0x013ECFC0,
     rc_count = Single_count (Rva 0x013ED0A4) (Rva 0x00516D09)\<rparr>"

definition STACKS :: InventoryRecordFacts where
  "STACKS = \<lparr>rc_bytes = 16, rc_item_type = ObjectOffset 0x0, rc_serializer = Rva 0x01BF12E0,
     rc_count = AddressEncoded_count
       \<lparr>sf_check = ObjectOffset 0x8, sf_stored = ObjectOffset 0xC, sf_rotate_left = 0x13, sf_address_shift = 0x3,
        sf_value_xor = 0xAC7E8740, sf_check_xor = 0x9C084A47\<rparr>
       (Rva 0x01BF130C) (Rva 0x01BF1381)\<rparr>"

definition named_family ::
  "InventoryFamily \<Rightarrow> string \<Rightarrow> u32 \<Rightarrow> u32 \<Rightarrow> u32 \<Rightarrow> u32 \<Rightarrow> InventoryRecordFacts \<Rightarrow> InventoryFamilyFacts" where
  "named_family family field vector vector_reference name_reference name facts =
     \<lparr>ff_family = family, ff_vector = ObjectOffset vector, ff_vector_reference = Rva vector_reference,
      ff_registration = Named_registration field (Rva name_reference) (Rva name), ff_record = facts\<rparr>"

definition direct_family :: "InventoryFamily \<Rightarrow> u32 \<Rightarrow> u32 \<Rightarrow> u32 \<Rightarrow> InventoryRecordFacts \<Rightarrow> InventoryFamilyFacts" where
  "direct_family family vector vector_reference serializer_call facts =
     \<lparr>ff_family = family, ff_vector = ObjectOffset vector, ff_vector_reference = Rva vector_reference,
      ff_registration = Direct_registration (Rva serializer_call), ff_record = facts\<rparr>"

definition FAMILIES :: "InventoryFamilyFacts list" where
  "FAMILIES =
     [named_family LongGuns ''LongGuns'' 0x0 0x13F6515 0x13F6523 0x234E890 EQUIPMENT,
      named_family Pistols ''Pistols'' 0x10 0x13F6532 0x13F653F 0x234E8B0 EQUIPMENT,
      named_family Warframes ''Suits'' 0x20 0x13F654E 0x13F655B 0x22482B4 EQUIPMENT,
      named_family Melee ''Melee'' 0x30 0x13F656A 0x13F6577 0x22482AC EQUIPMENT,
      direct_family WeaponSkins 0x50 0x13F6AAD 0x13F6AB7 SKINS,
      named_family RawUpgrades ''RawUpgrades'' 0x60 0x13F68D7 0x13F68E4 0x23F1CA0 UPGRADES,
      direct_family Consumables 0xB0 0x13F68F3 0x13F690D CONSUMABLES,
      named_family MiscItems ''MiscItems'' 0xD0 0x13F6912 0x13F6922 0x219CB40 STACKS,
      named_family Sentinels ''Sentinels'' 0x100 0x13F6586 0x13F6596 0x234E8B8 EQUIPMENT,
      named_family SentinelWeapons ''SentinelWeapons'' 0x110 0x13F65A5 0x13F65B5 0x234E8C8 EQUIPMENT,
      named_family KubrowPets ''KubrowPets'' 0x178 0x13F66B8 0x13F6696 0x234E8D8 BEASTS,
      named_family SpaceSuits ''SpaceSuits'' 0x198 0x13F65C4 0x13F65D4 0x234E8E8 EQUIPMENT,
      named_family SpaceGuns ''SpaceGuns'' 0x1A8 0x13F65E3 0x13F65F3 0x234E8F8 EQUIPMENT,
      named_family SpaceMelee ''SpaceMelee'' 0x1B8 0x13F6602 0x13F6612 0x234E908 EQUIPMENT,
      named_family Scoops ''Scoops'' 0x208 0x13F6621 0x13F6631 0x234E914 EQUIPMENT,
      named_family FusionBundles ''FusionBundles'' 0x228 0x13F69EB 0x13F69FB 0x23F1CF8 STACKS,
      named_family ShipDecorations ''ShipDecorations'' 0x1D8 0x13F69AD 0x13F69BD 0x2352EA0 STACKS,
      named_family EmailItems ''EmailItems'' 0x1E8 0x13F698E 0x13F699E 0x23F1CD8 STACKS,
      named_family FoundToday ''FoundToday'' 0x1C8 0x13F69CC 0x13F69DC 0x23F1CE8 STACKS,
      named_family LevelKeys ''LevelKeys'' 0x120 0x13F696F 0x13F697F 0x23F1CC8 STACKS,
      named_family Recipes ''Recipes'' 0xE0 0x13F6950 0x13F6960 0x23F1CC0 STACKS,
      named_family OperatorAmps ''OperatorAmps'' 0x258 0x13F6640 0x13F6650 0x234E8A0 EQUIPMENT,
      named_family SpecialItems ''SpecialItems'' 0x268 0x13F665F 0x13F666F 0x234E920 EQUIPMENT,
      named_family MoaPets ''MoaPets'' 0x278 0x13F66C7 0x13F66D7 0x234E930 EQUIPMENT,
      named_family Hoverboards ''Hoverboards'' 0x288 0x13F67DE 0x13F67EE 0x234E938 EQUIPMENT,
      named_family CrewShips ''CrewShips'' 0x298 0x13F67FD 0x13F680D 0x234EA20 VESSELS,
      named_family CrewShipWeapons ''CrewShipWeapons'' 0x2F8 0x13F681C 0x13F682C 0x23F1C78 EQUIPMENT,
      named_family CrewShipSalvagedWeapons ''CrewShipSalvagedWeapons'' 0x308 0x13F686B 0x13F6849 0x23F1C88 WRECKAGE,
      named_family DrifterGuns ''DrifterGuns'' 0x2A8 0x13F6705 0x13F6715 0x23F1C60 EQUIPMENT,
      named_family DrifterMelee ''DrifterMelee'' 0x2B8 0x13F6724 0x13F6734 0x234E988 EQUIPMENT,
      named_family Gadgets ''Gadgets'' 0x2C8 0x13F6743 0x13F6753 0x234E998 EQUIPMENT,
      named_family Horses ''Horses'' 0x2D8 0x13F66E6 0x13F66F6 0x234E97C EQUIPMENT,
      named_family CrewShipRawSalvage ''CrewShipRawSalvage'' 0x358 0x13F6A29 0x13F6A39 0x23F1D08 STACKS,
      named_family DataKnives ''DataKnives'' 0x368 0x13F687A 0x13F688A 0x234E948 EQUIPMENT,
      named_family MechSuits ''MechSuits'' 0x378 0x13F6899 0x13F68A9 0x234E958 EQUIPMENT,
      named_family CrewShipHarnesses ''CrewShipHarnesses'' 0x388 0x13F68B8 0x13F68C8 0x234E968 EQUIPMENT,
      named_family Motorcycles ''Motorcycles'' 0x398 0x13F6762 0x13F6772 0x234E9A0 EQUIPMENT,
      named_family OperatorSuits ''OperatorSuits'' 0x3A8 0x13F6781 0x13F6791 0x234E9B0 EQUIPMENT,
      named_family Antiques ''Antiques'' 0x3B8 0x13F67A0 0x13F67B0 0x234E9C0 EQUIPMENT,
      named_family BonusMiscItems ''BonusMiscItems'' 0xC68 0x13F6931 0x13F6941 0x23F1CB0 STACKS]"

subsection \<open>What a snapshot guarantees\<close>

definition items_wf :: "InventoryItemCount list \<Rightarrow> bool" where
  "items_wf items \<longleftrightarrow> sorted_wrt (<) (map iq_item_key items) \<and> list_all (\<lambda>item. 0 < iq_quantity item) items"

definition inventory_wf :: "InventorySnapshot \<Rightarrow> bool" where
  "inventory_wf x \<longleftrightarrow> map fs_family (iv_families x) = ALL_FAMILIES \<and> list_all (\<lambda>f. items_wf (fs_items f)) (iv_families x)"

lemma check_families_Ok: "check_families fs = Ok u \<longleftrightarrow> list_all (\<lambda>f. items_wf (fs_items f)) fs"
proof (induction fs)
  case (Cons f fs)
  then show ?case
    using windows2_ascending [of iq_item_key "fs_items f"]
    by (auto simp: items_wf_def list_ex_iff list_all_iff word_gt_0)
qed simp

lemma inventory_new_Ok:
  "inventory_new account families = Ok x \<longleftrightarrow>
     x = \<lparr>iv_account_id = account, iv_families = families\<rparr> \<and> inventory_wf x"
  by (auto simp: inventory_new_def inventory_wf_def check_families_Ok)

lemma distinct_families: "distinct ALL_FAMILIES"
  by (simp add: ALL_FAMILIES_def)

lemma FAMILIES_order: "map ff_family FAMILIES = ALL_FAMILIES"
  by (simp add: FAMILIES_def ALL_FAMILIES_def named_family_def direct_family_def)

end
