(* ===== verification/Intrinsics_Topic.thy ===== *)
theory Intrinsics_Topic
  imports Profile_Inventory
begin

section \<open>Intrinsics\<close>

text \<open>
  \<open>provider/src/topics/intrinsics\<close> and \<open>model/src/intrinsics.rs\<close>: one block of profile data with two
  balances and ten ranks.
\<close>

subsection \<open>The snapshot\<close>

record RailjackIntrinsics =
  rj_unspent_points :: u32
  rj_piloting :: u32
  rj_gunnery :: u32
  rj_tactical :: u32
  rj_engineering :: u32
  rj_command :: u32

record DrifterIntrinsics =
  dr_unspent_points :: u32
  dr_combat :: u32
  dr_riding :: u32
  dr_opportunity :: u32
  dr_endurance :: u32

record IntrinsicsSnapshot =
  in_account_id :: AccountId
  in_railjack :: RailjackIntrinsics
  in_drifter :: DrifterIntrinsics

definition purchased_ranks :: "RailjackIntrinsics \<Rightarrow> DrifterIntrinsics \<Rightarrow> u32 list" where
  "purchased_ranks railjack drifter =
     [rj_piloting railjack, rj_gunnery railjack, rj_tactical railjack, rj_engineering railjack, rj_command railjack,
      dr_combat drifter, dr_riding drifter, dr_opportunity drifter, dr_endurance drifter]"

definition intrinsics_new :: "AccountId \<Rightarrow> RailjackIntrinsics \<Rightarrow> DrifterIntrinsics \<Rightarrow> (IntrinsicsSnapshot, unit) result" where
  "intrinsics_new account railjack drifter =
     (if list_ex (\<lambda>rank. 10 < rank) (purchased_ranks railjack drifter) then Err ()
      else Ok \<lparr>in_account_id = account, in_railjack = railjack, in_drifter = drifter\<rparr>)"

subsection \<open>Reading\<close>

definition INTRINSIC_BLOCK :: ObjectOffset where "INTRINSIC_BLOCK = ObjectOffset 0x0001707C"
definition BLOCK_BYTES :: usize where "BLOCK_BYTES = 48"
definition INTRINSIC_RANKS :: ObjectOffset where "INTRINSIC_RANKS = ObjectOffset 0x00017084"
definition POINT_SCALE :: u32 where "POINT_SCALE = 1000"

definition intrinsic_word :: "u8 list \<Rightarrow> u32 \<Rightarrow> (u32, TargetError) result" where
  "intrinsic_word bytes index =
     map_err record_read_error (record_u32 \<lparr>rv_bytes = bytes, rv_at = ''Intrinsic progression''\<rparr> (ObjectOffset (index * 4)))"

definition decode_intrinsics :: "u8 list \<Rightarrow> ProfileDataIdentity \<Rightarrow> (IntrinsicsSnapshot, TargetError) result" where
  "decode_intrinsics bytes login =
     rbind (intrinsic_word bytes 0) (\<lambda>railjack_points.
     rbind (intrinsic_word bytes 3) (\<lambda>piloting.
     rbind (intrinsic_word bytes 4) (\<lambda>gunnery.
     rbind (intrinsic_word bytes 5) (\<lambda>tactical.
     rbind (intrinsic_word bytes 6) (\<lambda>engineering.
     rbind (intrinsic_word bytes 7) (\<lambda>command.
     rbind (intrinsic_word bytes 1) (\<lambda>drifter_points.
     rbind (intrinsic_word bytes 8) (\<lambda>combat.
     rbind (intrinsic_word bytes 9) (\<lambda>riding.
     rbind (intrinsic_word bytes 10) (\<lambda>opportunity.
     rbind (intrinsic_word bytes 11) (\<lambda>endurance.
     map_err (\<lambda>_. InvalidData ''Intrinsic rank'')
       (intrinsics_new (ai_account_id (pd_account login))
         \<lparr>rj_unspent_points = railjack_points div POINT_SCALE, rj_piloting = piloting, rj_gunnery = gunnery, rj_tactical = tactical,
          rj_engineering = engineering, rj_command = command\<rparr>
         \<lparr>dr_unspent_points = drifter_points div POINT_SCALE, dr_combat = combat, dr_riding = riding, dr_opportunity = opportunity,
          dr_endurance = endurance\<rparr>))))))))))))"

definition read_intrinsics :: "'m backend \<Rightarrow> u64 \<Rightarrow> u32 \<Rightarrow> ProfileDataIdentity \<Rightarrow> ('m, IntrinsicsSnapshot, TargetError) attempt" where
  "read_intrinsics be base image_size login =
     with_target_reader
       (let profile = identity_get (pd_object login)
        in and_then (read_commit_state be profile) (\<lambda>commit.
           and_then (read_object be profile INTRINSIC_BLOCK BLOCK_BYTES) (\<lambda>before.
           and_then (done_with (decode_intrinsics before login)) (\<lambda>snapshot.
           and_then (read_object be profile INTRINSIC_BLOCK BLOCK_BYTES) (\<lambda>after.
           if before \<noteq> after then done_with (Err (Unstable ''Intrinsic balances or ranks''))
           else and_then (read_commit_state be profile) (\<lambda>commit'.
             done_with (if commit \<noteq> commit' then Err (Unstable ''Intrinsic balances or ranks'') else Ok snapshot)))))))
       base image_size"

subsection \<open>The instructions\<close>

definition SERIALIZER_FIELD :: Rva where "SERIALIZER_FIELD = Rva 0x003D69C4"
definition SERIALIZER :: Rva where "SERIALIZER = Rva 0x0160D5B0"
definition RANK_UPDATE :: Rva where "RANK_UPDATE = Rva 0x00AC5ECD"
definition POOL_UPDATE :: Rva where "POOL_UPDATE = Rva 0x00AC5F4D"
definition GROUP_CLASSIFIER :: Rva where "GROUP_CLASSIFIER = Rva 0x00FD2AC0"
definition GROUP_TABLE :: Rva where "GROUP_TABLE = Rva 0x00FD2AF4"

definition SKILL_NAMES :: "(u32 \<times> string) list" where
  "SKILL_NAMES =
     [(0x02240A28, ''LPS_NONE''), (0x02240A38, ''LPS_PILOTING''), (0x02240A48, ''LPS_GUNNERY''), (0x02240A70, ''LPS_TACTICAL''),
      (0x02240A98, ''LPS_ENGINEERING''), (0x02240AA8, ''LPS_COMMAND''), (0x02240AB8, ''LPS_DRIFT_COMBAT''), (0x02240AF0, ''LPS_DRIFT_RIDING''),
      (0x02240B28, ''LPS_DRIFT_OPPORTUNITY''), (0x02240B40, ''LPS_DRIFT_ENDURANCE'')]"

definition SKILL_REFERENCES :: "u32 list" where
  "SKILL_REFERENCES =
     [0x00085912, 0x00085924, 0x0008592F, 0x0008593A, 0x00085945, 0x00085950, 0x0008595B, 0x00085966, 0x00085971, 0x0008597C]"

text \<open>A sequence of checks, stopping at the first failure.\<close>

fun all_checks :: "('s, unit, 'e) attempt list \<Rightarrow> ('s, unit, 'e) attempt" where
  "all_checks [] = done_with (Ok ())"
| "all_checks (check # checks) = and_then check (\<lambda>_. all_checks checks)"

definition validate_skill_name :: "'m backend \<Rightarrow> u32 \<Rightarrow> u32 \<times> string \<Rightarrow> ('m TargetReader, unit, TargetError) attempt" where
  "validate_skill_name be reference = (\<lambda>(name, text).
     and_then (read_module be (Rva reference) 7) (\<lambda>code.
       if \<not> code_matches code [(0, [0x48, 0x8D, 5])] \<or> rip_target (Rva reference) 7 (drop 3 code) \<noteq> Some (Rva name)
       then done_with (Err (LayoutMismatch ''Intrinsic rank identity''))
       else require_bytes be (Rva name) (ascii_bytes text @ [0]) ''Intrinsic rank name''))"

definition validate_groups :: "'m backend \<Rightarrow> ('m TargetReader, unit, TargetError) attempt" where
  "validate_groups be = all_checks
     ([require_bytes be GROUP_CLASSIFIER
         [0x80, 0xFA, 0x09, 0x77, 0x25, 0x4C, 0x8D, 0x05, 0x34, 0xD5, 0x02, 0xFF, 0x0F, 0xB6,
          0xC2, 0x41, 0x8B, 0x84, 0x80, 0xF4, 0x2A, 0xFD, 0x00, 0x49, 0x03, 0xC0, 0xFF, 0xE0,
          0xC6, 0x01, 0x00, 0x48, 0x8B, 0xC1, 0xC3, 0xC6, 0x01, 0x01, 0x48, 0x8B, 0xC1, 0xC3,
          0xCD, 0x2C, 0xC6, 0x01, 0x02, 0x48, 0x8B, 0xC1, 0xC3] ''Intrinsic pool classifier'',
       require_bytes be GROUP_TABLE
         (concat (map to_le [0x00FD2AEC :: u32, 0x00FD2ADC, 0x00FD2ADC, 0x00FD2ADC, 0x00FD2ADC, 0x00FD2ADC, 0x00FD2AE3, 0x00FD2AE3, 0x00FD2AE3, 0x00FD2AE3]))
         ''Intrinsic pool membership'']
      @ map2 (validate_skill_name be) SKILL_REFERENCES SKILL_NAMES)"

definition validate_intrinsic_call :: "'m backend \<Rightarrow> ('m TargetReader, unit, TargetError) attempt" where
  "validate_intrinsic_call be =
     and_then (done_with (ok_or (rva_checked_add SERIALIZER_FIELD 11) (LayoutMismatch ''Intrinsic serializer''))) (\<lambda>call.
     and_then (read_module be call 5) (\<lambda>bytes.
     done_with (if \<not> code_matches bytes [(0, [0xE8])] \<or> rip_target call 5 (drop 1 bytes) \<noteq> Some SERIALIZER
       then Err (LayoutMismatch ''Intrinsic serializer call'') else Ok ())))"

definition validate_intrinsics_layout :: "'m backend \<Rightarrow> u64 \<Rightarrow> u32 \<Rightarrow> ('m, unit, TargetError) attempt" where
  "validate_intrinsics_layout be = with_target_reader (all_checks
     [require_offset be SERIALIZER_FIELD [0x49, 0x8D, 0x94, 0x24] INTRINSIC_BLOCK ''Intrinsic block'',
      validate_intrinsic_call be,
      require_offset be RANK_UPDATE [0x89, 0x84, 0x8B] INTRINSIC_RANKS ''Intrinsic rank update'',
      require_offset be POOL_UPDATE [0x44, 0x01, 0x84, 0x83] INTRINSIC_BLOCK ''Intrinsic balance update'',
      require_bytes be (Rva 0x0160D6A1) [0x48, 0x8D, 0x55, 0x04] ''Intrinsic second pool'',
      require_bytes be (Rva 0x0160D6B2) [0x48, 0x83, 0xC5, 0x08] ''Intrinsic rank block'',
      require_bytes be (Rva 0x0160D728)
        [0x48, 0xFF, 0xC6, 0x48, 0x83, 0xC7, 0x10, 0x48, 0x83, 0xC5, 0x04, 0x48, 0x81, 0xFF, 0xA0, 0x00, 0x00, 0x00, 0x72, 0x84]
        ''Intrinsic rank count'',
      require_bytes be (Rva 0x00F1CA58) [0x8B, 0xCA, 0xB8, 0xE8, 0x03, 0x00, 0x00, 0xD3, 0xE0] ''Intrinsic point scale'',
      require_bytes be (Rva 0x00F1CACC) [0x69, 0xC0, 0x88, 0x13, 0x00, 0x00] ''Drifter point scale'',
      validate_groups be])"

definition validate_mastery_sources :: "'m backend \<Rightarrow> ('m TargetReader, unit, TargetError) attempt" where
  "validate_mastery_sources be = all_checks
     [validate_groups be,
      require_offset be (Rva 0x01821ED0) [0x48, 0x8D, 0xBE] INTRINSIC_RANKS ''mastery Intrinsic ranks'',
      require_bytes be (Rva 0x01821EE8) [0xE8, 0xD3, 0x0B, 0x7B, 0xFF, 0x0F, 0xB6, 0x08, 0x80, 0xF9, 0x02] ''mastery Intrinsic grouping'',
      require_bytes be (Rva 0x01821EF5)
        [0x8B, 0xC1, 0x48, 0x8D, 0x4C, 0x24, 0x48, 0x48, 0x8D, 0x0C, 0x81, 0x8B, 0xC5, 0x0F, 0xAF, 0x07, 0x01, 0x01]
        ''mastery rank contributions'',
      require_bytes be (Rva 0x01821F07) [0x48, 0xFF, 0xC3, 0x48, 0x83, 0xC7, 0x04, 0x48, 0x83, 0xFB, 0x0A, 0x72, 0xCC] ''mastery rank iteration'',
      require_offset be (Rva 0x01821F17) [0x4C, 0x8D, 0x9E] (ObjectOffset 0xE4CC) ''Railjack mastery pool'',
      require_bytes be (Rva 0x01821F2F) [0x44, 0x0F, 0xAF, 0x86, 0xAC, 0x70, 0x01, 0x00] ''retained Railjack respec mastery'',
      require_bytes be (Rva 0x01821F4A) [0x44, 0x03, 0x44, 0x24, 0x48] ''retained and current Railjack mastery sum'',
      require_offset be (Rva 0x01821F68) [0x89, 0x8E] (ObjectOffset 0xE4CC) ''Railjack mastery write'',
      require_bytes be (Rva 0x01821F7F) [0x4C, 0x8D, 0x8E, 0xD4, 0xE4, 0x00, 0x00, 0x8B, 0x5C, 0x24, 0x4C] ''Drifter mastery pool'',
      require_offset be (Rva 0x01821FAF) [0x89, 0x96] (ObjectOffset 0xE4D4) ''Drifter mastery write'',
      require_bytes be (Rva 0x010A6A58) [0xE8, 0xB3, 0xEA, 0x7E, 0xFF] ''mission mastery calculation'',
      require_bytes be (Rva 0x010A6A73) [0x48, 0x8D, 0x15, 0x06, 0xC6, 0x24, 0x01] ''mission mastery log reference'',
      require_bytes be (Rva 0x022F3080) (ascii_bytes ''Mission progress XP: '' @ [0]) ''mission mastery identity'',
      require_bytes be (Rva 0x010A6AA5) [0x8B, 0xD7, 0x48, 0x8B, 0xCE, 0xE8, 0x21, 0xD7, 0x95, 0xFF] ''mission mastery pool write'']"

subsection \<open>What is read\<close>

definition intrinsics_wf :: "IntrinsicsSnapshot \<Rightarrow> bool" where
  "intrinsics_wf x \<longleftrightarrow> list_all (\<lambda>rank. rank \<le> 10) (purchased_ranks (in_railjack x) (in_drifter x))"

lemma intrinsics_new_Ok:
  "intrinsics_new account railjack drifter = Ok x \<Longrightarrow> in_account_id x = account \<and> intrinsics_wf x"
  by (auto simp: intrinsics_new_def intrinsics_wf_def list_ex_iff list_all_iff not_less split: if_splits)

lemma decode_intrinsics_Ok:
  "decode_intrinsics bytes login = Ok x \<Longrightarrow> in_account_id x = ai_account_id (pd_account login) \<and> intrinsics_wf x"
  by (auto simp: decode_intrinsics_def dest: intrinsics_new_Ok)

lemma read_intrinsics_Ok:
  "read_intrinsics be base image_size login m = (m', Ok x) \<Longrightarrow> in_account_id x = ai_account_id (pd_account login) \<and> intrinsics_wf x"
  by (auto simp: read_intrinsics_def Let_def and_then_Ok dest!: with_target_reader_Ok dest: decode_intrinsics_Ok split: if_splits)

end
