(* ===== verification/Star_Chart_Topic.thy ===== *)
theory Star_Chart_Topic
  imports Intrinsics_Topic "HOL-Library.Multiset"
begin

section \<open>Star chart\<close>

text \<open>
  \<open>provider/src/topics/star_chart\<close> and \<open>model/src/star_chart.rs\<close>: the retained mission nodes, each named by
  a string token.
\<close>

subsection \<open>The snapshot\<close>

record StarChartNodeProgress =
  sn_node_key :: string
  sn_completions :: u32
  sn_steel_path_completed :: bool

datatype StarChartDifficulty = Normal_path | SteelPath

record StarChartSnapshot =
  ss_account_id :: AccountId
  ss_nodes :: "StarChartNodeProgress list"

datatype InvalidStarChart = NodeKey | NodeOrder

definition visible_ascii :: "char \<Rightarrow> bool" where
  "visible_ascii c \<longleftrightarrow> CHR ''!'' \<le> c \<and> c \<le> CHR ''~''"

definition star_chart_new :: "AccountId \<Rightarrow> StarChartNodeProgress list \<Rightarrow> (StarChartSnapshot, InvalidStarChart) result" where
  "star_chart_new account nodes =
     (if list_ex (\<lambda>n. sn_node_key n = [] \<or> 255 < length (sn_node_key n) \<or> \<not> list_all visible_ascii (sn_node_key n)) nodes then Err NodeKey
      else if windows2_any (\<lambda>a b. sn_node_key b \<le> sn_node_key a) nodes then Err NodeOrder
      else Ok \<lparr>ss_account_id = account, ss_nodes = nodes\<rparr>)"

text \<open>\<open>binary_search_by\<close> on the ordered keys finds the one node with the key, if there is one.\<close>

definition star_chart_get :: "StarChartSnapshot \<Rightarrow> string \<Rightarrow> StarChartNodeProgress option" where
  "star_chart_get s key = List.find (\<lambda>n. sn_node_key n = key) (ss_nodes s)"

definition star_chart_completed :: "StarChartSnapshot \<Rightarrow> string \<Rightarrow> StarChartDifficulty \<Rightarrow> bool" where
  "star_chart_completed s key difficulty =
     (case star_chart_get s key of
        None \<Rightarrow> False
      | Some node \<Rightarrow> (case difficulty of Normal_path \<Rightarrow> True | SteelPath \<Rightarrow> sn_steel_path_completed node))"

subsection \<open>Records\<close>

definition MISSIONS_VECTOR :: ObjectOffset where "MISSIONS_VECTOR = ObjectOffset 0xFF48"
definition MISSION_RECORD_BYTES :: u32 where "MISSION_RECORD_BYTES = 0x30"
definition MISSION_TAG :: ObjectOffset where "MISSION_TAG = ObjectOffset 0"
definition MISSION_COMPLETIONS :: ObjectOffset where "MISSION_COMPLETIONS = ObjectOffset 4"
definition MISSION_TIER :: ObjectOffset where "MISSION_TIER = ObjectOffset 8"
definition MISSIONS_GETTER :: Rva where "MISSIONS_GETTER = Rva 0x006FACE0"
definition SERIALIZER_REFERENCE :: Rva where "SERIALIZER_REFERENCE = Rva 0x003D3777"
definition MISSIONS_NAME :: Rva where "MISSIONS_NAME = Rva 0x022711B0"

record NativeNode =
  nn_token :: u32
  nn_completions :: u32
  nn_tier :: u8

definition decode_node :: "u8 list \<Rightarrow> (NativeNode, TargetError) result" where
  "decode_node bytes =
     (let v = \<lparr>rv_bytes = bytes, rv_at = ''mission progress''\<rparr>
      in rbind (map_err record_read_error (record_u32 v MISSION_TAG)) (\<lambda>token.
         if token = 0 then Err (InvalidData ''mission node tag'')
         else rbind (map_err record_read_error (record_u32 v MISSION_COMPLETIONS)) (\<lambda>completions.
              rbind (map_err record_read_error (record_field v MISSION_TIER 1)) (\<lambda>tier.
              Ok \<lparr>nn_token = token, nn_completions = completions, nn_tier = tier ! 0\<rparr>))))"

text \<open>\<open>collect\<close> of results: the values, or the first error.\<close>

fun collect_results :: "('a \<Rightarrow> ('b, 'e) result) \<Rightarrow> 'a list \<Rightarrow> ('b list, 'e) result" where
  "collect_results f [] = Ok []"
| "collect_results f (x # xs) = rbind (f x) (\<lambda>y. rbind (collect_results f xs) (\<lambda>ys. Ok (y # ys)))"

definition decode_nodes :: "u8 list \<Rightarrow> (NativeNode list, TargetError) result" where
  "decode_nodes bytes =
     (if length bytes mod unat MISSION_RECORD_BYTES \<noteq> 0 then Err (InvalidData ''mission progress stride'')
      else collect_results decode_node (records_of (unat MISSION_RECORD_BYTES) bytes))"

subsection \<open>Reading\<close>

text \<open>The loop over the records; a key that is inserted a second time is an error.\<close>

fun name_nodes ::
  "'m backend \<Rightarrow> u64 \<Rightarrow> NativeNode list \<Rightarrow> (string, StarChartNodeProgress) btree \<Rightarrow>
   ('m TargetReader \<times> StringTokenCache, (string, StarChartNodeProgress) btree, TargetError) attempt" where
  "name_nodes be pool [] nodes = done_with (Ok nodes)"
| "name_nodes be pool (n # ns) nodes =
     and_then (resolve_token be pool (nn_token n)) (\<lambda>key.
       if bt_contains nodes key then done_with (Err (InvalidData ''duplicate mission node''))
       else name_nodes be pool ns
         (bt_insert key \<lparr>sn_node_key = key, sn_completions = nn_completions n, sn_steel_path_completed = 1 \<le> nn_tier n\<rparr> nodes))"

definition named_nodes ::
  "'m backend \<Rightarrow> NativeNode list \<Rightarrow> ('m TargetReader \<times> StringTokenCache, (string, StarChartNodeProgress) btree, TargetError) attempt" where
  "named_nodes be before =
     (if before = [] then done_with (Ok [])
      else and_then (on_fst (string_pool be STRINGS)) (\<lambda>pool. name_nodes be pool before []))"

definition star_chart_once ::
  "'m backend \<Rightarrow> ProfileDataIdentity \<Rightarrow> ('m TargetReader \<times> StringTokenCache, StarChartSnapshot, TargetError) attempt" where
  "star_chart_once be login =
     (let profile = identity_get (pd_object login)
      in and_then (on_fst (read_commit_state be profile)) (\<lambda>commit.
         and_then (on_fst (read_vector be profile MISSIONS_VECTOR MISSION_RECORD_BYTES)) (\<lambda>(address, bytes).
         and_then (done_with (decode_nodes bytes)) (\<lambda>before.
         and_then (named_nodes be before) (\<lambda>nodes.
         and_then (on_fst (read_vector be profile MISSIONS_VECTOR MISSION_RECORD_BYTES)) (\<lambda>(after_address, after).
         if address \<noteq> after_address then done_with (Err (Unstable ''mission progression''))
         else and_then (done_with (decode_nodes after)) (\<lambda>again.
         if before \<noteq> again then done_with (Err (Unstable ''mission progression''))
         else and_then (on_fst (read_commit_state be profile)) (\<lambda>commit'.
         if commit \<noteq> commit' then done_with (Err (Unstable ''mission progression''))
         else done_with (map_err (\<lambda>_. InvalidData ''mission node records'')
           (star_chart_new (ai_account_id (pd_account login)) (bt_values nodes)))))))))))"

text \<open>An acquisition that also uses caches of the session: \<open>TargetReader::new\<close> on the memory, beside the caches.\<close>

definition with_cached_reader ::
  "('m TargetReader \<times> 'c, 'a, TargetError) attempt \<Rightarrow> u64 \<Rightarrow> u32 \<Rightarrow> ('m \<times> 'c, 'a, TargetError) attempt" where
  "with_cached_reader run module_base image_size = (\<lambda>(memory, caches).
     (case target_reader_new memory module_base image_size READ_LIMITS of
        Err e \<Rightarrow> ((memory, caches), Err e)
      | Ok r \<Rightarrow> (case run (r, caches) of ((r', caches'), result) \<Rightarrow> ((rd_memory r', caches'), result))))"

definition read_star_chart ::
  "'m backend \<Rightarrow> u64 \<Rightarrow> u32 \<Rightarrow> ProfileDataIdentity \<Rightarrow> ('m \<times> StringTokenCache, StarChartSnapshot, TargetError) attempt" where
  "read_star_chart be base image_size login = with_cached_reader (star_chart_once be login) base image_size"

subsection \<open>The instructions\<close>

definition validate_missions_name :: "'m backend \<Rightarrow> ('m TargetReader, unit, TargetError) attempt" where
  "validate_missions_name be =
     and_then (read_module be (Rva 0x003D3782) 7) (\<lambda>code.
       done_with (if \<not> code_matches code [(0, [0x48, 0x8D, 0x15])] \<or> rip_target (Rva 0x003D3782) 7 (drop 3 code) \<noteq> Some MISSIONS_NAME
         then Err (LayoutMismatch ''Missions serializer name reference'') else Ok ()))"

definition validate_star_chart_layout :: "'m backend \<Rightarrow> u64 \<Rightarrow> u32 \<Rightarrow> ('m, unit, TargetError) attempt" where
  "validate_star_chart_layout be = with_target_reader (all_checks
     [require_offset be MISSIONS_GETTER [0x48, 0x8D, 0x81] MISSIONS_VECTOR ''mission progress getter'',
      require_bytes be (Rva 0x006FACE7) [0xC3] ''embedded mission progress'',
      require_offset be SERIALIZER_REFERENCE [0x49, 0x8D, 0x8C, 0x24] MISSIONS_VECTOR ''Missions serializer field'',
      validate_missions_name be,
      require_bytes be MISSIONS_NAME (ascii_bytes ''Missions'' @ [0]) ''Missions serializer name'',
      require_bytes be (Rva 0x0050B56B)
        [0x8B, 0x0F, 0x0F, 0x1F, 0x00, 0x39, 0x08, 0x74, 0x28, 0x48, 0x83, 0xC0, 0x30] ''mission tag lookup and stride'',
      require_bytes be (Rva 0x0050B5BB)
        [0x8B, 0x07, 0x48, 0x8D, 0x57, 0x10, 0x89, 0x03, 0x48, 0x8D, 0x4B, 0x10, 0x8B, 0x47,
         0x04, 0x89, 0x43, 0x04, 0x0F, 0xB6, 0x47, 0x08, 0x88, 0x43, 0x08] ''mission progress fields'',
      require_bytes be (Rva 0x0050B59C)
        [0xFF, 0x40, 0x04, 0x0F, 0xB6, 0x4F, 0x08, 0x3A, 0x48, 0x08, 0x76, 0x46, 0x88, 0x48, 0x08]
        ''completion count and highest tier update'',
      require_bytes be (Rva 0x008955BF)
        [0x8D, 0x45, 0x01, 0xA8, 0xFE, 0x75, 0x03, 0x41, 0x03, 0xF8, 0x80, 0x7B, 0x08, 0x01,
         0x72, 0x0A, 0x8D, 0x45, 0x01, 0xA8, 0xFD, 0x75, 0x03, 0x41, 0x03, 0xF0, 0x41, 0x8B,
         0x46, 0x08, 0x48, 0x83, 0xC3, 0x30] ''Normal and Steel Path completion semantics''])"

subsection \<open>What is read\<close>

definition star_chart_wf :: "StarChartSnapshot \<Rightarrow> bool" where
  "star_chart_wf s \<longleftrightarrow>
     sorted_wrt (<) (map sn_node_key (ss_nodes s))
     \<and> list_all (\<lambda>n. sn_node_key n \<noteq> [] \<and> length (sn_node_key n) \<le> 255 \<and> list_all visible_ascii (sn_node_key n)) (ss_nodes s)"

lemma star_chart_new_Ok:
  "star_chart_new account nodes = Ok x \<Longrightarrow> x = \<lparr>ss_account_id = account, ss_nodes = nodes\<rparr> \<and> star_chart_wf x"
  by (auto simp: star_chart_new_def star_chart_wf_def windows2_ascending list_ex_iff list_all_iff not_less split: if_splits)

text \<open>Lookups in an ordered snapshot are exact.\<close>

lemma find_by_key: "distinct (map f xs) \<Longrightarrow> List.find (\<lambda>x. f x = k) xs = Some x \<longleftrightarrow> x \<in> set xs \<and> f x = k"
  by (induction xs) (auto simp: image_iff)

lemma star_chart_get_exact: "star_chart_wf s \<Longrightarrow> star_chart_get s key = Some n \<longleftrightarrow> n \<in> set (ss_nodes s) \<and> sn_node_key n = key"
  by (simp add: star_chart_get_def star_chart_wf_def find_by_key sorted_wrt_less_distinct)

text \<open>Every record of the game gives exactly one node, under the name of its token.\<close>

abbreviation node_credit :: "StarChartNodeProgress \<Rightarrow> u32 \<times> bool" where
  "node_credit n \<equiv> (sn_completions n, sn_steel_path_completed n)"

abbreviation native_credit :: "NativeNode \<Rightarrow> u32 \<times> bool" where
  "native_credit n \<equiv> (nn_completions n, 1 \<le> nn_tier n)"

lemma mset_bt_insert: "bt_get m k = None \<Longrightarrow> mset (bt_insert k v m) = add_mset (k, v) (mset m)"
  by (induction k v m rule: bt_insert.induct) (auto split: if_splits)

lemma name_nodes_inv:
  "name_nodes be pool ns nodes s = (s', Ok named) \<Longrightarrow> bt_inv nodes \<Longrightarrow> bt_inv named"
proof (induction ns arbitrary: nodes s)
  case (Cons n ns)
  then show ?case by (auto simp: and_then_Ok bt_inv_insert split: if_splits)
qed simp

lemma name_nodes_keys:
  "name_nodes be pool ns nodes s = (s', Ok named) \<Longrightarrow> \<forall>(k, n) \<in> set nodes. sn_node_key n = k \<Longrightarrow> \<forall>(k, n) \<in> set named. sn_node_key n = k"
proof (induction ns arbitrary: nodes s)
  case (Cons n ns)
  then obtain key s1 where step: "bt_get nodes key = None" "name_nodes be pool ns
      (bt_insert key \<lparr>sn_node_key = key, sn_completions = nn_completions n, sn_steel_path_completed = 1 \<le> nn_tier n\<rparr> nodes) s1 = (s', Ok named)"
    by (auto simp: and_then_Ok split: if_splits)
  show ?case
    by (rule Cons.IH [OF step(2)]) (use Cons.prems(2) set_bt_insert_subset in \<open>fastforce\<close>)
qed simp

lemma name_nodes_credit:
  "name_nodes be pool ns nodes s = (s', Ok named) \<Longrightarrow>
     image_mset node_credit (mset (bt_values named)) = image_mset native_credit (mset ns) + image_mset node_credit (mset (bt_values nodes))"
proof (induction ns arbitrary: nodes s)
  case (Cons n ns)
  then obtain key s1 where step: "bt_get nodes key = None" "name_nodes be pool ns
      (bt_insert key \<lparr>sn_node_key = key, sn_completions = nn_completions n, sn_steel_path_completed = 1 \<le> nn_tier n\<rparr> nodes) s1 = (s', Ok named)"
    by (auto simp: and_then_Ok split: if_splits)
  show ?case using Cons.IH [OF step(2)] by (simp add: mset_bt_insert [OF step(1)])
qed simp

lemma named_nodes_Ok:
  assumes "named_nodes be before s = (s', Ok nodes)"
  shows "bt_inv nodes" and "\<forall>(k, n) \<in> set nodes. sn_node_key n = k"
    and "image_mset node_credit (mset (bt_values nodes)) = image_mset native_credit (mset before)"
proof -
  have "bt_inv nodes \<and> (\<forall>(k, n) \<in> set nodes. sn_node_key n = k)
      \<and> image_mset node_credit (mset (bt_values nodes)) = image_mset native_credit (mset before)"
  proof (cases "before = []")
    case False
    then obtain pool s1 where "name_nodes be pool before [] s1 = (s', Ok nodes)"
      using assms by (auto simp: named_nodes_def and_then_Ok)
    from name_nodes_inv [OF this] name_nodes_keys [OF this] name_nodes_credit [OF this] show ?thesis by simp
  qed (use assms in \<open>simp add: named_nodes_def\<close>)
  then show "bt_inv nodes" and "\<forall>(k, n) \<in> set nodes. sn_node_key n = k"
    and "image_mset node_credit (mset (bt_values nodes)) = image_mset native_credit (mset before)" by blast+
qed

lemma with_cached_reader_Ok:
  assumes "with_cached_reader run base image_size (m, c) = (s', Ok x)"
  obtains r r' where "run (r, c) = ((r', snd s'), Ok x)"
  using assms by (auto simp: with_cached_reader_def split: result.splits prod.splits)

text \<open>
  C34: A star chart snapshot is complete and canonical: it belongs to the account of the profile data,
  its nodes are strictly ordered by key with visible names of at most 255 characters, and its completion
  counts and Steel Path credits are, one for one, those of the native records of the vector that was
  read before and after.
\<close>

theorem star_chart_complete:
  assumes "read_star_chart be base image_size login (m, c) = (s', Ok x)"
  shows "ss_account_id x = ai_account_id (pd_account login) \<and> star_chart_wf x
    \<and> (\<exists>r r' address bytes native.
      read_vector be (identity_get (pd_object login)) MISSIONS_VECTOR MISSION_RECORD_BYTES r = (r', Ok (address, bytes))
      \<and> decode_nodes bytes = Ok native \<and> image_mset node_credit (mset (ss_nodes x)) = image_mset native_credit (mset native))"
proof (intro conjI)
  obtain r r1 where "star_chart_once be login (r, c) = ((r1, snd s'), Ok x)"
    by (rule with_cached_reader_Ok [OF assms [unfolded read_star_chart_def]])
  then obtain bytes before nodes s2 s3 r2 r3 address where step: "decode_nodes bytes = Ok before" "named_nodes be before s2 = (s3, Ok nodes)"
      "star_chart_new (ai_account_id (pd_account login)) (bt_values nodes) = Ok x"
      "read_vector be (identity_get (pd_object login)) MISSIONS_VECTOR MISSION_RECORD_BYTES r2 = (r3, Ok (address, bytes))"
    by (auto simp: star_chart_once_def Let_def and_then_Ok split: if_splits prod.splits)
  note new = star_chart_new_Ok [OF step(3)]
  show "ss_account_id x = ai_account_id (pd_account login)" "star_chart_wf x" using new by auto
  have "image_mset node_credit (mset (ss_nodes x)) = image_mset native_credit (mset before)"
    using named_nodes_Ok(3) [OF step(2)] new by auto
  then show "\<exists>r r' address bytes native.
      read_vector be (identity_get (pd_object login)) MISSIONS_VECTOR MISSION_RECORD_BYTES r = (r', Ok (address, bytes))
      \<and> decode_nodes bytes = Ok native \<and> image_mset node_credit (mset (ss_nodes x)) = image_mset native_credit (mset native)"
    using step(1,4) by blast
qed

end
