(* ===== verification/Inventory_Topic.thy ===== *)
theory Inventory_Topic
  imports Inventory_Facts Star_Chart_Topic
begin

section \<open>Inventory\<close>

text \<open>
  \<open>provider/src/topics/inventory\<close>: every family's records are decoded to counts by item type, the types are
  resolved to paths, and counts of one path are added up, all between two equal commit states.
\<close>

subsection \<open>Records\<close>

datatype LayoutError =
    Layout_record TargetError
  | InvalidItemType usize u64
  | InvalidCount usize
  | CountOverflow

definition layout_field :: "('a, RecordError) result \<Rightarrow> ('a, LayoutError) result" where
  "layout_field = map_err (\<lambda>e. Layout_record (record_read_error e))"

definition record_count :: "InventoryRecordFacts \<Rightarrow> u64 \<Rightarrow> usize \<Rightarrow> RecordView \<Rightarrow> (u32, LayoutError) result" where
  "record_count facts payload_address index v =
     (case rc_count facts of
        Single_count _ _ \<Rightarrow> Ok 1
      | Plain_count quantity _ _ _ \<Rightarrow> layout_field (record_u32 v quantity)
      | AddressEncoded_count codec _ _ \<Rightarrow>
          rbind (layout_field (record_u32 v (sf_check codec))) (\<lambda>check.
          rbind (layout_field (record_u32 v (sf_stored codec))) (\<lambda>stored.
          rbind (ok_or (checked_add payload_address (of_nat (index * unat (rc_bytes facts) + unat (offset_get (sf_stored codec))))) CountOverflow)
            (\<lambda>stored_address. ok_or (scalar_decode codec check stored stored_address) (InvalidCount index)))))"

definition decode_record :: "InventoryRecordFacts \<Rightarrow> u64 \<Rightarrow> usize \<Rightarrow> u8 list \<Rightarrow> (u64 \<times> u32, LayoutError) result" where
  "decode_record facts payload_address index bytes =
     (let v = \<lparr>rv_bytes = bytes, rv_at = ''inventory record''\<rparr>
      in rbind (layout_field (record_u64 v (rc_item_type facts))) (\<lambda>item_type.
         if \<not> is_user_address item_type then Err (InvalidItemType index item_type)
         else rbind (record_count facts payload_address index v) (\<lambda>quantity. Ok (item_type, quantity))))"

text \<open>\<open>entry(key).or_default()\<close> followed by a checked addition.\<close>

definition add_count :: "'k::linorder \<Rightarrow> u64 \<Rightarrow> ('k, u64) btree \<Rightarrow> (('k, u64) btree, LayoutError) result" where
  "add_count key quantity counts =
     rbind (ok_or (checked_add (case bt_get counts key of Some n \<Rightarrow> n | None \<Rightarrow> 0) quantity) CountOverflow) (\<lambda>total.
     Ok (bt_insert key total counts))"

fun count_records ::
  "InventoryRecordFacts \<Rightarrow> u64 \<Rightarrow> usize \<Rightarrow> u8 list list \<Rightarrow> (u64, u64) btree \<Rightarrow> ((u64, u64) btree, LayoutError) result" where
  "count_records facts payload_address index [] counts = Ok counts"
| "count_records facts payload_address index (bytes # rest) counts =
     rbind (decode_record facts payload_address index bytes) (\<lambda>(item_type, quantity).
       if quantity = 0 then count_records facts payload_address (index + 1) rest counts
       else rbind (add_count item_type (ucast quantity) counts) (count_records facts payload_address (index + 1) rest))"

definition decode_inventory :: "u64 \<Rightarrow> u8 list \<Rightarrow> InventoryRecordFacts \<Rightarrow> ((u64, u64) btree, LayoutError) result" where
  "decode_inventory payload_address payload facts =
     (if rc_bytes facts = 0 \<or> length payload mod unat (rc_bytes facts) \<noteq> 0
      then Err (Layout_record (InvalidData ''inventory record stride''))
      else count_records facts payload_address 0 (records_of (unat (rc_bytes facts)) payload) [])"

subsection \<open>Acquisition\<close>

datatype InventoryError =
    Inventory_read TargetError
  | Inventory_layout LayoutError
  | Inventory_unsupported InventoryFamily string
  | Inventory_item ItemTypeError
  | Inventory_model InvalidInventory

text \<open>\<open>project_items\<close>: the pool is threaded through the misses of one family.\<close>

fun project_counts ::
  "'m backend \<Rightarrow> (u64 \<times> u64) list \<Rightarrow> u64 option \<Rightarrow> (ItemKey, u64) btree \<Rightarrow> ('m caches, (ItemKey, u64) btree, InventoryError) attempt" where
  "project_counts be [] pool counts = done_with (Ok counts)"
| "project_counts be ((item_type, quantity) # rest) pool counts =
     and_then (with_error Inventory_item (resolve_item_path be ITEM_TYPES item_type pool)) (\<lambda>(item_key, pool').
     and_then (done_with (map_err Inventory_layout (add_count item_key quantity counts))) (\<lambda>counts'.
     project_counts be rest pool' counts'))"

definition project_items :: "'m backend \<Rightarrow> (u64, u64) btree \<Rightarrow> ('m caches, InventoryItemCount list, InventoryError) attempt" where
  "project_items be item_counts =
     then_map (map (\<lambda>(key, quantity). \<lparr>iq_item_key = key, iq_quantity = quantity\<rparr>)) (project_counts be item_counts None [])"

definition inventory_read :: "('m TargetReader, 'a, TargetError) attempt \<Rightarrow> ('m caches, 'a, InventoryError) attempt" where
  "inventory_read run = with_error Inventory_read (on_fst (on_fst run))"

definition read_family ::
  "'m backend \<Rightarrow> u64 \<Rightarrow> InventoryFamilyFacts \<Rightarrow> ('m caches, InventoryFamilySnapshot, InventoryError) attempt" where
  "read_family be inventory facts =
     and_then (inventory_read (read_vector be inventory (ff_vector facts) (rc_bytes (ff_record facts)))) (\<lambda>(address, payload).
     and_then (done_with (map_err Inventory_layout (decode_inventory address payload (ff_record facts)))) (\<lambda>counts.
     and_then (project_items be counts) (\<lambda>items.
     done_with (Ok \<lparr>fs_family = ff_family facts, fs_items = items\<rparr>))))"

fun read_families ::
  "'m backend \<Rightarrow> u64 \<Rightarrow> InventoryFamilyFacts list \<Rightarrow> ('m caches, InventoryFamilySnapshot list, InventoryError) attempt" where
  "read_families be inventory [] = done_with (Ok [])"
| "read_families be inventory (facts # rest) =
     and_then (read_family be inventory facts) (\<lambda>family.
     and_then (read_families be inventory rest) (\<lambda>families. done_with (Ok (family # families))))"

definition inventory_once :: "'m backend \<Rightarrow> ProfileDataIdentity \<Rightarrow> ('m caches, InventorySnapshot, InventoryError) attempt" where
  "inventory_once be login =
     (let profile_data = identity_get (pd_object login)
      in and_then (inventory_read (of_reader (\<lambda>r. object_address r profile_data (io_offset INVENTORY_OWNER) VECTOR_HEADER_BYTES))) (\<lambda>inventory.
         and_then (inventory_read (read_commit_state be profile_data)) (\<lambda>before.
         and_then (read_families be inventory FAMILIES) (\<lambda>families.
         and_then (inventory_read (read_commit_state be profile_data)) (\<lambda>after.
         if before \<noteq> after then done_with (Err (Inventory_read (Unstable ''inventory commit markers'')))
         else done_with (map_err Inventory_model (inventory_new (ai_account_id (pd_account login)) families)))))))"

text \<open>\<open>TargetReader::new\<close> on the memory, beside both caches of the session.\<close>

definition with_item_caches ::
  "(TargetError \<Rightarrow> 'e) \<Rightarrow> ('m caches, 'a, 'e) attempt \<Rightarrow> u64 \<Rightarrow> u32 \<Rightarrow> ('m \<times> StringTokenCache \<times> ItemTypeCache, 'a, 'e) attempt" where
  "with_item_caches read_error run module_base image_size = (\<lambda>(memory, strings, items).
     (case target_reader_new memory module_base image_size READ_LIMITS of
        Err e \<Rightarrow> ((memory, strings, items), Err (read_error e))
      | Ok r \<Rightarrow> (case run ((r, strings), items) of (((r', strings'), items'), result) \<Rightarrow> ((rd_memory r', strings', items'), result))))"

definition read_inventory ::
  "'m backend \<Rightarrow> u64 \<Rightarrow> u32 \<Rightarrow> ProfileDataIdentity \<Rightarrow> ('m \<times> StringTokenCache \<times> ItemTypeCache, InventorySnapshot, InventoryError) attempt" where
  "read_inventory be base image_size login = with_item_caches Inventory_read (inventory_once be login) base image_size"

subsection \<open>Counting\<close>

lemma add_count_Ok:
  assumes "add_count key quantity counts = Ok counts'"
  shows "\<And>k. bt_get counts' k = (if k = key then Some ((case bt_get counts key of Some n \<Rightarrow> n | None \<Rightarrow> 0) + quantity) else bt_get counts k)"
    and "unat ((case bt_get counts key of Some n \<Rightarrow> n | None \<Rightarrow> 0) + quantity) = unat (case bt_get counts key of Some n \<Rightarrow> n | None \<Rightarrow> 0) + unat quantity"
    and "bt_inv counts \<Longrightarrow> bt_inv counts'"
  using assms checked_add_SomeD [of "case bt_get counts key of Some n \<Rightarrow> n | None \<Rightarrow> 0" quantity]
  by (auto simp: add_count_def bt_get_insert bt_inv_insert)

text \<open>What a map of counts says of a key.\<close>

definition count_of :: "('k, u64) btree \<Rightarrow> 'k \<Rightarrow> nat" where
  "count_of counts k = (case bt_get counts k of Some n \<Rightarrow> unat n | None \<Rightarrow> 0)"

lemma count_of_add:
  assumes "add_count key quantity counts = Ok counts'"
  shows "count_of counts' k = count_of counts k + (if k = key then unat quantity else 0)"
  using add_count_Ok(1,2) [OF assms] by (auto simp: count_of_def split: option.splits)

definition positive_counts :: "('k, u64) btree \<Rightarrow> bool" where
  "positive_counts counts \<longleftrightarrow> (\<forall>k n. bt_get counts k = Some n \<longrightarrow> 0 < n)"

lemma positive_add:
  assumes "add_count key quantity counts = Ok counts'" and "positive_counts counts" and "0 < quantity"
  shows "positive_counts counts'"
proof -
  have "0 < unat quantity" using assms(3) by (simp add: unat_gt_0)
  then have "0 < unat ((case bt_get counts key of Some n \<Rightarrow> n | None \<Rightarrow> 0) + quantity)" using add_count_Ok(2) [OF assms(1)] by simp
  then have "0 < (case bt_get counts key of Some n \<Rightarrow> n | None \<Rightarrow> 0) + quantity" by (simp only: unat_gt_0 word_neq_0_conv)
  then show ?thesis using add_count_Ok(1) [OF assms(1)] assms(2) by (auto simp: positive_counts_def split: if_splits)
qed

text \<open>The records of a payload, and what they say of an item type.\<close>

definition record_total :: "InventoryRecordFacts \<Rightarrow> u64 \<Rightarrow> usize \<Rightarrow> u8 list list \<Rightarrow> u64 \<Rightarrow> nat" where
  "record_total facts address index records item_type =
     sum_list (map (\<lambda>(i, bytes). case decode_record facts address i bytes of Ok (t, n) \<Rightarrow> if t = item_type then unat n else 0 | Err _ \<Rightarrow> 0)
       (enumerate index records))"

lemma count_records_exact:
  "count_records facts address index records counts = Ok counts' \<Longrightarrow> bt_inv counts \<Longrightarrow> positive_counts counts \<Longrightarrow>
     count_of counts' t = count_of counts t + record_total facts address index records t \<and> bt_inv counts' \<and> positive_counts counts'"
proof (induction records arbitrary: index counts)
  case (Cons bytes records)
  then obtain item_type n where rec: "decode_record facts address index bytes = Ok (item_type, n)" by auto
  have total: "record_total facts address index (bytes # records) t =
      (if item_type = t then unat n else 0) + record_total facts address (Suc index) records t"
    by (simp add: record_total_def rec)
  show ?case
  proof (cases "n = 0")
    case True
    then show ?thesis using Cons rec total by simp
  next
    case False
    then obtain mid where mid: "add_count item_type (ucast n) counts = Ok mid" "count_records facts address (Suc index) records mid = Ok counts'"
      using Cons.prems(1) rec by auto
    have "(0 :: u64) < ucast n" using False by (simp add: word_less_nat_alt unat_gt_0)
    then have "positive_counts mid" using positive_add [OF mid(1)] Cons.prems(3) by simp
    moreover have "bt_inv mid" using add_count_Ok(3) [OF mid(1)] Cons.prems(2) by simp
    ultimately show ?thesis using Cons.IH [OF mid(2)] count_of_add [OF mid(1), of t] total by auto
  qed
qed (simp add: record_total_def)

lemma decode_inventory_exact:
  assumes "decode_inventory address payload facts = Ok counts"
  shows "count_of counts t = record_total facts address 0 (records_of (unat (rc_bytes facts)) payload) t"
    and "bt_inv counts" and "positive_counts counts"
  using assms count_records_exact [of facts address 0 "records_of (unat (rc_bytes facts)) payload" "[]" counts]
  by (auto simp: decode_inventory_def count_of_def positive_counts_def split: if_splits)

subsection \<open>Nothing is lost between records and paths\<close>

definition counts_total :: "('k, u64) btree \<Rightarrow> nat" where
  "counts_total counts = sum_list (map (unat \<circ> snd) counts)"

lemma counts_total_insert:
  "bt_inv m \<Longrightarrow> counts_total (bt_insert k v m) + count_of m k = counts_total m + unat v"
proof (induction m)
  case (Cons kv m)
  obtain k' v' where kv: "kv = (k', v')" by (cases kv)
  have absent: "count_of m x = 0" if "x \<le> k'" for x
  proof -
    have "x \<notin> fst ` set m" using Cons.prems that by (auto simp: kv)
    then show ?thesis using bt_get_none_iff [of m x] by (simp add: count_of_def)
  qed
  show ?case
    using Cons.IH Cons.prems absent [of k]
    by (auto simp: kv counts_total_def count_of_def not_less)
qed (simp add: counts_total_def count_of_def)

lemma add_count_total:
  assumes "add_count key quantity counts = Ok counts'" and "bt_inv counts"
  shows "counts_total counts' = counts_total counts + unat quantity"
proof -
  obtain total where "counts' = bt_insert key total counts" "unat total = count_of counts key + unat quantity"
    using assms(1) add_count_Ok(2) [OF assms(1)] checked_add_SomeD
    by (fastforce simp: add_count_def count_of_def split: option.splits)
  then show ?thesis using counts_total_insert [OF assms(2), of key total] by simp
qed

text \<open>What the records of a payload hold together.\<close>

definition payload_total :: "InventoryRecordFacts \<Rightarrow> u64 \<Rightarrow> usize \<Rightarrow> u8 list list \<Rightarrow> nat" where
  "payload_total facts address index records =
     sum_list (map (\<lambda>(i, bytes). case decode_record facts address i bytes of Ok (_, n) \<Rightarrow> unat n | Err _ \<Rightarrow> 0) (enumerate index records))"

lemma count_records_total:
  "count_records facts address index records counts = Ok counts' \<Longrightarrow> bt_inv counts \<Longrightarrow>
     counts_total counts' = counts_total counts + payload_total facts address index records"
proof (induction records arbitrary: index counts)
  case (Cons bytes records)
  then obtain item_type n where rec: "decode_record facts address index bytes = Ok (item_type, n)" by auto
  have total: "payload_total facts address index (bytes # records) = unat n + payload_total facts address (Suc index) records"
    by (simp add: payload_total_def rec)
  show ?case
  proof (cases "n = 0")
    case True
    then show ?thesis using Cons rec total by simp
  next
    case False
    then obtain mid where mid: "add_count item_type (ucast n) counts = Ok mid" "count_records facts address (Suc index) records mid = Ok counts'"
      using Cons.prems(1) rec by auto
    show ?thesis
      using Cons.IH [OF mid(2) add_count_Ok(3) [OF mid(1) Cons.prems(2)]] add_count_total [OF mid(1) Cons.prems(2)] total by simp
  qed
qed (simp add: payload_total_def)

lemma project_counts_total:
  "project_counts be item_counts pool counts s = (s', Ok counts') \<Longrightarrow> bt_inv counts \<Longrightarrow> positive_counts counts \<Longrightarrow>
     (\<And>t n. (t, n) \<in> set item_counts \<Longrightarrow> 0 < n) \<Longrightarrow> item_cache_inv (snd s) \<Longrightarrow>
     counts_total counts' = counts_total counts + counts_total item_counts \<and> bt_inv counts' \<and> positive_counts counts' \<and> item_cache_inv (snd s')"
proof (induction item_counts arbitrary: pool counts s)
  case (Cons tn rest)
  obtain t n where tn: "tn = (t, n)" by (cases tn)
  obtain key pool' s1 mid where step: "resolve_item_path be ITEM_TYPES t pool s = (s1, Ok (key, pool'))"
      "add_count key n counts = Ok mid" "project_counts be rest pool' mid s1 = (s', Ok counts')"
    using Cons.prems(1) by (auto simp: tn and_then_Ok done_with_def split: result.splits)
  have cache: "item_cache_inv (snd s1)"
    using resolve_item_path_wf(1) [of be ITEM_TYPES t pool "fst s" "snd s" "fst s1" "snd s1"] step(1) Cons.prems(5) by simp
  have mid: "positive_counts mid" "bt_inv mid"
    using positive_add [OF step(2) Cons.prems(3)] Cons.prems(4) add_count_Ok(3) [OF step(2) Cons.prems(2)] by (auto simp: tn)
  have positive: "\<And>t n. (t, n) \<in> set rest \<Longrightarrow> 0 < n" using Cons.prems(4) by (meson list.set_intros(2))
  have "counts_total counts' = counts_total mid + counts_total rest \<and> bt_inv counts' \<and> positive_counts counts' \<and> item_cache_inv (snd s')"
    by (rule Cons.IH [OF step(3) mid(2) mid(1) positive cache])
  then show ?case using add_count_total [OF step(2) Cons.prems(2)] by (simp add: tn counts_total_def)
qed (auto simp: done_with_def counts_total_def)

definition items_total :: "InventoryItemCount list \<Rightarrow> nat" where
  "items_total items = sum_list (map (unat \<circ> iq_quantity) items)"

lemma project_items_total:
  assumes "project_items be counts s = (s', Ok items)" and "bt_inv counts" "positive_counts counts" "item_cache_inv (snd s)"
  shows "items_total items = counts_total counts" and "items_wf items" and "item_cache_inv (snd s')"
proof -
  obtain m where m: "project_counts be counts None [] s = (s', Ok m)"
      "items = map (\<lambda>(key, quantity). \<lparr>iq_item_key = key, iq_quantity = quantity\<rparr>) m"
    using assms(1) by (auto simp: project_items_def then_map_def and_then_Ok done_with_def)
  have positive: "0 < n" if "(t, n) \<in> set counts" for t n
    using that bt_member_get [OF assms(2)] assms(3) by (auto simp: positive_counts_def)
  have m_facts: "counts_total m = counts_total counts \<and> bt_inv m \<and> positive_counts m \<and> item_cache_inv (snd s')"
    using project_counts_total [OF m(1) _ _ positive assms(4)] by (simp add: counts_total_def positive_counts_def)
  have keys: "map iq_item_key items = map fst m" "items_total items = counts_total m"
    by (auto simp: m(2) items_total_def counts_total_def intro!: arg_cong [where f = sum_list])
  then show "items_total items = counts_total counts" "item_cache_inv (snd s')" using m_facts by auto
  have "0 < iq_quantity item" if "item \<in> set items" for item
    using that m_facts by (auto simp: m(2) positive_counts_def bt_member_get)
  then show "items_wf items" using keys(1) m_facts by (simp add: items_wf_def bt_inv_def list_all_iff)
qed

text \<open>The family that was read, against the payload it was read from.\<close>

definition family_read :: "'m backend \<Rightarrow> u64 \<Rightarrow> InventoryFamilyFacts \<Rightarrow> InventoryFamilySnapshot \<Rightarrow> bool" where
  "family_read be inventory facts family \<longleftrightarrow>
     (\<exists>r r' address payload.
        read_vector be inventory (ff_vector facts) (rc_bytes (ff_record facts)) r = (r', Ok (address, payload))
        \<and> fs_family family = ff_family facts \<and> items_wf (fs_items family)
        \<and> items_total (fs_items family) =
            payload_total (ff_record facts) address 0 (records_of (unat (rc_bytes (ff_record facts))) payload))"

lemma read_family_read:
  assumes "read_family be inventory facts s = (s', Ok family)" and "item_cache_inv (snd s)"
  shows "family_read be inventory facts family" and "item_cache_inv (snd s')"
proof -
  obtain s1 address payload counts items where step:
      "read_vector be inventory (ff_vector facts) (rc_bytes (ff_record facts)) (fst (fst s)) = (fst (fst s1), Ok (address, payload))" "snd s1 = snd s"
      "decode_inventory address payload (ff_record facts) = Ok counts" "project_items be counts s1 = (s', Ok items)"
      "family = \<lparr>fs_family = ff_family facts, fs_items = items\<rparr>"
    using assms(1) by (auto simp: read_family_def and_then_Ok inventory_read_def done_with_def split: result.splits)
  have counts: "bt_inv counts" "positive_counts counts"
    using decode_inventory_exact [OF step(3)] by auto
  have total: "counts_total counts = payload_total (ff_record facts) address 0 (records_of (unat (rc_bytes (ff_record facts))) payload)"
    using count_records_total [of "ff_record facts" address 0 "records_of (unat (rc_bytes (ff_record facts))) payload" "[]" counts] step(3)
    by (auto simp: decode_inventory_def counts_total_def split: if_splits)
  note items = project_items_total [OF step(4) counts, unfolded step(2), OF assms(2)]
  show "item_cache_inv (snd s')" using items(3) .
  show "family_read be inventory facts family"
    using step(1,5) items(1,2) total unfolding family_read_def by auto
qed

lemma read_families_read:
  "read_families be inventory facts s = (s', Ok families) \<Longrightarrow> item_cache_inv (snd s) \<Longrightarrow>
     list_all2 (family_read be inventory) facts families \<and> item_cache_inv (snd s')"
proof (induction facts arbitrary: s families)
  case (Cons f facts)
  obtain s1 family rest where step: "read_family be inventory f s = (s1, Ok family)" "read_families be inventory facts s1 = (s', Ok rest)" "families = family # rest"
    using Cons.prems(1) by (auto simp: and_then_Ok done_with_def)
  show ?case using read_family_read [OF step(1) Cons.prems(2)] Cons.IH [OF step(2)] step(3) by simp
qed (auto simp: done_with_def)

text \<open>
  C5: An inventory snapshot is exact: it belongs to the account of the profile data, holds every family of
  the public schema once and in schema order, with strictly ordered item paths and positive quantities, and
  in every family the quantities add up to the counts of the records of that family's native vector - decoding,
  path resolution and the merging of types that share a path lose and invent nothing.
\<close>

theorem inventory_exact:
  assumes "read_inventory be base image_size login (m, strings, items) = ((m', strings', items'), Ok snapshot)"
    and "item_cache_inv items"
  shows "iv_account_id snapshot = ai_account_id (pd_account login) \<and> inventory_wf snapshot
    \<and> (\<exists>inventory. list_all2 (family_read be inventory) FAMILIES (iv_families snapshot)) \<and> item_cache_inv items'"
proof (intro conjI)
  obtain r r' where run: "inventory_once be login ((r, strings), items) = (((r', strings'), items'), Ok snapshot)"
    using assms(1) by (auto simp: read_inventory_def with_item_caches_def split: result.splits prod.splits)
  obtain s1 s2 inventory families where step: "read_families be inventory FAMILIES s1 = (s2, Ok families)" "snd s1 = items" "snd s2 = items'"
      "inventory_new (ai_account_id (pd_account login)) families = Ok snapshot"
    using run by (auto simp: inventory_once_def inventory_read_def Let_def and_then_Ok done_with_def split: if_splits)
  show "iv_account_id snapshot = ai_account_id (pd_account login)" "inventory_wf snapshot"
    using step(4) by (auto simp: inventory_new_Ok)
  have "list_all2 (family_read be inventory) FAMILIES families \<and> item_cache_inv (snd s2)"
    using read_families_read [OF step(1)] assms(2) step(2) by simp
  then show "\<exists>inventory. list_all2 (family_read be inventory) FAMILIES (iv_families snapshot)" "item_cache_inv items'"
    using step(3,4) by (auto simp: inventory_new_Ok)
qed

end
