(* ===== verification/Inventory_Validation.thy ===== *)
theory Inventory_Validation
  imports Inventory_Topic
begin

section \<open>Inventory instructions\<close>

text \<open>
  \<open>provider/src/topics/inventory/validation.rs\<close>: for every family, the vector, the registration and the
  record layout of the bundled facts are compared with the code of the executable.
\<close>

definition MAX_FIELD_NAME_BYTES :: usize where
  "MAX_FIELD_NAME_BYTES = 32"

abbreviation unsupported :: "InventoryFamily \<Rightarrow> string \<Rightarrow> ('s, 'a, InventoryError) attempt" where
  "unsupported family what \<equiv> done_with (Err (Inventory_unsupported family what))"

abbreviation inventory_code :: "'m backend \<Rightarrow> Rva \<Rightarrow> usize \<Rightarrow> ('m TargetReader, u8 list, InventoryError) attempt" where
  "inventory_code be at n \<equiv> with_error Inventory_read (read_module be at n)"

text \<open>The displacement is absent, a byte, or a word.\<close>

definition validate_vector_reference :: "'m backend \<Rightarrow> InventoryFamilyFacts \<Rightarrow> ('m TargetReader, unit, InventoryError) attempt" where
  "validate_vector_reference be facts =
     and_then (inventory_code be (ff_vector_reference facts) 7) (\<lambda>code.
     let offset = offset_get (ff_vector facts);
         valid = (if offset = 0 then code_matches code [(0, [0x48, 0x8B, 0xD1])] \<or> code_matches code [(0, [0x48, 0x8B, 0xD6])]
                  else if offset \<le> 127 then code_matches code [(0, [0x48, 0x8D, 0x56, ucast offset])]
                  else code_matches code [(0, [0x48, 0x8D, 0x96]), (3, to_le offset)])
     in if valid then done_with (Ok ()) else unsupported (ff_family facts) ''inventory family vector'')"

definition validate_named_registration ::
  "'m backend \<Rightarrow> InventoryFamilyFacts \<Rightarrow> string \<Rightarrow> Rva \<Rightarrow> Rva \<Rightarrow> ('m TargetReader, unit, InventoryError) attempt" where
  "validate_named_registration be facts expected_name name_reference name_rva =
     (let text = ascii_bytes expected_name; fails = unsupported (ff_family facts) ''inventory family registration''
      in and_then (inventory_code be name_rva MAX_FIELD_NAME_BYTES) (\<lambda>name.
         if \<not> (length text < length name \<and> take (length text) name = text \<and> name ! length text = 0)
         then unsupported (ff_family facts) ''inventory family name''
         else and_then (inventory_code be name_reference 15) (\<lambda>code.
         if rip_target name_reference 7 (take 4 (drop 3 code)) \<noteq> Some name_rva then fails
         else and_then
           (if code_matches code [(0, [0x4C, 0x8D, 5])] then done_with (Ok (name_reference, code))
            else if code_matches code [(0, [0x48, 0x8D, 5]), (7, [0x4C, 0x89, 0x6D, 0xD0, 0x48, 0x89, 0x45, 0xD8])]
            then then_map (\<lambda>code'. (ff_vector_reference facts, code')) (inventory_code be (ff_vector_reference facts) 15)
            else unsupported (ff_family facts) ''inventory family registration'') (\<lambda>(call_base, code').
         and_then (done_with (ok_or (rva_checked_add call_base 10) (Inventory_unsupported (ff_family facts) ''inventory serializer call''))) (\<lambda>call.
         if \<not> code_matches code' [(7, [0x48, 0x8B, 0xCB, 0xE8])] \<or> rip_target call 5 (drop 11 code') \<noteq> Some (rc_serializer (ff_record facts))
         then fails else done_with (Ok ()))))))"

definition validate_registration :: "'m backend \<Rightarrow> InventoryFamilyFacts \<Rightarrow> ('m TargetReader, unit, InventoryError) attempt" where
  "validate_registration be facts =
     (case ff_registration facts of
        Named_registration field name_reference name \<Rightarrow> validate_named_registration be facts field name_reference name
      | Direct_registration serializer_call \<Rightarrow>
          and_then (inventory_code be serializer_call 5) (\<lambda>code.
          let follows_vector = (rva_get (ff_vector_reference facts) \<le> rva_get serializer_call
                \<and> 7 \<le> rva_get serializer_call - rva_get (ff_vector_reference facts)
                \<and> rva_get serializer_call - rva_get (ff_vector_reference facts) \<le> 32)
          in if follows_vector \<and> code_matches code [(0, [0xE8])] \<and> rip_target serializer_call 5 (drop 1 code) = Some (rc_serializer (ff_record facts))
             then done_with (Ok ()) else unsupported (ff_family facts) ''inventory family registration''))"

definition power_of_two :: "u32 \<Rightarrow> bool" where
  "power_of_two w \<longleftrightarrow> list_ex (\<lambda>n. w = push_bit n 1) [0..<32]"

definition trailing_zeros :: "u32 \<Rightarrow> usize" where
  "trailing_zeros w = length (takeWhile (\<lambda>n. \<not> bit w n) [0..<32])"

definition validate_single_record ::
  "'m backend \<Rightarrow> InventoryFamily \<Rightarrow> InventoryRecordFacts \<Rightarrow> Rva \<Rightarrow> Rva \<Rightarrow> ('m TargetReader, unit, InventoryError) attempt" where
  "validate_single_record be family facts stride_reader item_type_reader =
     and_then (done_with (narrow (offset_get (rc_item_type facts)) (Inventory_unsupported family ''single-item record''))) (\<lambda>item_type.
     and_then (inventory_code be stride_reader 7) (\<lambda>stride.
     and_then (inventory_code be item_type_reader 7) (\<lambda>item.
     let proven_stride = list_ex (\<lambda>bytes. code_matches stride [(0, bytes)]) [[0x49, 0x8D, 0xAE], [0x48, 0x69, 0xDD], [0x4C, 0x8D, 0xB5]]
     in if \<not> proven_stride \<or> drop 3 stride \<noteq> to_le (rc_bytes facts) \<or> item \<noteq> [0x48, 0x8D, 0x4E, item_type, 0x48, 0x8B, 0xD7]
        then unsupported family ''single-item record'' else done_with (Ok ()))))"

definition validate_counted_record ::
  "'m backend \<Rightarrow> InventoryFamily \<Rightarrow> InventoryRecordFacts \<Rightarrow> AddressEncodedScalarFacts \<Rightarrow> Rva \<Rightarrow> Rva \<Rightarrow> ('m TargetReader, unit, InventoryError) attempt" where
  "validate_counted_record be family facts codec stride_reader codec_reader =
     (let error = Inventory_unsupported family ''counted record''
      in if offset_get (rc_item_type facts) \<noteq> 0 \<or> checked_add (offset_get (sf_check codec)) 4 \<noteq> Some (offset_get (sf_stored codec))
            \<or> 32 \<le> sf_rotate_left codec \<or> 64 \<le> sf_address_shift codec \<or> \<not> power_of_two (rc_bytes facts)
         then done_with (Err error)
         else and_then (done_with (narrow (of_nat (trailing_zeros (rc_bytes facts))) error)) (\<lambda>shift.
           and_then (done_with (narrow (offset_get (sf_stored codec)) error)) (\<lambda>stored.
           and_then (done_with (narrow (sf_rotate_left codec) error)) (\<lambda>rot.
           and_then (done_with (narrow (sf_address_shift codec) error)) (\<lambda>address_shift.
           and_then (inventory_code be stride_reader 8) (\<lambda>stride_code.
           and_then (inventory_code be codec_reader 130) (\<lambda>codec_code.
           if stride_code \<noteq> [0x8B, 0xCF, 0x33, 0xDB, 0x48, 0xC1, 0xE9, shift]
              \<or> \<not> code_matches codec_code
                   [(0, [0x4C, 0x8D, 0x53, stored]), (15, [0x41, 0x8B, 0x0A, 0x49, 0x8B, 0xD2, 0x48, 0xC1, 0xFA]), (24, [address_shift]),
                    (25, [0x8B, 0xC2, 0xC1, 0xC1]), (29, [rot, 0x35]), (31, to_le (sf_value_xor codec)), (124, [0x81, 0xF2]),
                    (126, to_le (sf_check_xor codec))]
           then done_with (Err error) else done_with (Ok ()))))))))"

definition validate_plain_record ::
  "'m backend \<Rightarrow> InventoryFamily \<Rightarrow> InventoryRecordFacts \<Rightarrow> ObjectOffset \<Rightarrow> Rva \<Rightarrow> Rva \<Rightarrow> Rva \<Rightarrow> ('m TargetReader, unit, InventoryError) attempt" where
  "validate_plain_record be family facts quantity stride_reader item_type_reader count_reader =
     (let error = Inventory_unsupported family ''plain-count record''
      in and_then (done_with (narrow (rc_bytes facts) error)) (\<lambda>stride.
         and_then (done_with (narrow (offset_get (rc_item_type facts)) error)) (\<lambda>item_type.
         and_then (done_with (narrow (offset_get quantity) error)) (\<lambda>at.
         and_then (inventory_code be stride_reader 4) (\<lambda>stride_code.
         and_then (inventory_code be item_type_reader 3) (\<lambda>item_type_code.
         and_then (inventory_code be count_reader 4) (\<lambda>count_code.
         let valid_stride = (stride_code = [0x48, 0x83, 0xC3, stride] \<or> stride_code = [0x4C, 0x8D, 0x56, stride]);
             valid_item_type = (item_type = 0 \<and> (item_type_code = [0x48, 0x8B, 0xCE] \<or> item_type_code = [0x48, 0x8B, 0xCB]));
             valid_count = (count_code = [0x48, 0x8D, 0x56, at] \<or> count_code = [0x48, 0x8D, 0x53, at])
         in if \<not> valid_stride \<or> \<not> valid_item_type \<or> \<not> valid_count then done_with (Err error) else done_with (Ok ()))))))))"

definition validate_record :: "'m backend \<Rightarrow> InventoryFamily \<Rightarrow> InventoryRecordFacts \<Rightarrow> ('m TargetReader, unit, InventoryError) attempt" where
  "validate_record be family facts =
     (case rc_count facts of
        Single_count stride_reader item_type_reader \<Rightarrow> validate_single_record be family facts stride_reader item_type_reader
      | AddressEncoded_count codec stride_reader codec_reader \<Rightarrow> validate_counted_record be family facts codec stride_reader codec_reader
      | Plain_count quantity stride_reader item_type_reader count_reader \<Rightarrow>
          validate_plain_record be family facts quantity stride_reader item_type_reader count_reader)"

definition validate_family :: "'m backend \<Rightarrow> InventoryFamilyFacts \<Rightarrow> ('m TargetReader, unit, InventoryError) attempt" where
  "validate_family be family =
     all_checks [validate_vector_reference be family, validate_registration be family, validate_record be (ff_family family) (ff_record family)]"

definition validate_inventory_layout :: "'m backend \<Rightarrow> u64 \<Rightarrow> u32 \<Rightarrow> ('m, unit, InventoryError) attempt" where
  "validate_inventory_layout be module_base image_size memory =
     (case target_reader_new memory module_base image_size READ_LIMITS of
        Err e \<Rightarrow> (memory, Err (Inventory_read e))
      | Ok r \<Rightarrow> (case all_checks (map (validate_family be) FAMILIES) r of (r', result) \<Rightarrow> (rd_memory r', result)))"

subsection \<open>The bundled facts are well formed\<close>

text \<open>A failure is of the executable, never of the facts: no fact of a family makes its own check impossible.\<close>

fun record_facts_ok :: "InventoryRecordFacts \<Rightarrow> InventoryRecordCountFacts \<Rightarrow> bool" where
  "record_facts_ok facts (Single_count _ _) \<longleftrightarrow> unat (offset_get (rc_item_type facts)) + 8 \<le> unat (rc_bytes facts)"
| "record_facts_ok facts (AddressEncoded_count codec _ _) \<longleftrightarrow>
     codec_ok codec \<and> power_of_two (rc_bytes facts) \<and> offset_get (rc_item_type facts) = 0 \<and> 8 \<le> unat (offset_get (sf_check codec))
     \<and> unat (offset_get (sf_stored codec)) = unat (offset_get (sf_check codec)) + 4 \<and> unat (offset_get (sf_stored codec)) + 4 \<le> unat (rc_bytes facts)"
| "record_facts_ok facts (Plain_count quantity _ _ _) \<longleftrightarrow>
     rc_bytes facts < 256 \<and> offset_get (rc_item_type facts) = 0 \<and> 8 \<le> unat (offset_get quantity) \<and> unat (offset_get quantity) + 4 \<le> unat (rc_bytes facts)"

lemma families_facts_ok: "list_all (\<lambda>f. record_facts_ok (ff_record f) (rc_count (ff_record f))) FAMILIES"
proof -
  have p: "power_of_two 16"
    by (simp add: power_of_two_def upt_rec)
  have ok: "record_facts_ok f (rc_count f)" if "f \<in> {EQUIPMENT, SKINS, UPGRADES, CONSUMABLES, BEASTS, VESSELS, WRECKAGE, STACKS}" for f
    using that
    by (auto simp: EQUIPMENT_def SKINS_def UPGRADES_def CONSUMABLES_def BEASTS_def VESSELS_def WRECKAGE_def STACKS_def codec_ok_def p)
  have "ff_record ` set FAMILIES \<subseteq> {EQUIPMENT, SKINS, UPGRADES, CONSUMABLES, BEASTS, VESSELS, WRECKAGE, STACKS}"
    by (simp add: FAMILIES_def named_family_def direct_family_def)
  then show ?thesis using ok by (auto simp: list_all_iff)
qed

text \<open>So a record of the right length always decodes to a type, an amount, or a named integrity error - never a field error.\<close>

lemma record_field_within:
  "unat (offset_get offset) + 8 \<le> length bytes \<Longrightarrow> \<exists>w. record_u64 \<lparr>rv_bytes = bytes, rv_at = at\<rparr> offset = Ok w"
  "unat (offset_get offset) + 4 \<le> length bytes \<Longrightarrow> \<exists>w. record_u32 \<lparr>rv_bytes = bytes, rv_at = at\<rparr> offset = Ok w"
proof -
  have small: "unat (offset_get offset) < 2 ^ 32" using unsigned_less [of "offset_get offset", where ?'a = nat] by simp
  then have room: "usize_checked_add (unat (offset_get offset)) n = Some (unat (offset_get offset) + n)" if "n \<le> 8" for n
    using that by (simp add: usize_checked_add_def usize_max_def)
  show "unat (offset_get offset) + 8 \<le> length bytes \<Longrightarrow> \<exists>w. record_u64 \<lparr>rv_bytes = bytes, rv_at = at\<rparr> offset = Ok w"
    and "unat (offset_get offset) + 4 \<le> length bytes \<Longrightarrow> \<exists>w. record_u32 \<lparr>rv_bytes = bytes, rv_at = at\<rparr> offset = Ok w"
    using room [of 8] room [of 4] by (simp_all add: record_u64_def record_u32_def record_field_def Let_def ok_or_def)
qed

definition integrity_error :: "LayoutError \<Rightarrow> bool" where
  "integrity_error e \<longleftrightarrow> (case e of Layout_record _ \<Rightarrow> False | _ \<Rightarrow> True)"

lemma record_fields:
  assumes "record_facts_ok facts (rc_count facts)" and "length bytes = unat (rc_bytes facts)"
  obtains item_type where "record_u64 \<lparr>rv_bytes = bytes, rv_at = at\<rparr> (rc_item_type facts) = Ok item_type"
proof (cases "rc_count facts")
  case (AddressEncoded_count codec r1 r2)
  then show ?thesis using assms record_field_within(1) [of "rc_item_type facts" bytes at] that by auto
qed (use assms record_field_within(1) [of "rc_item_type facts" bytes at] that in auto)

lemma record_count_error:
  assumes "record_facts_ok facts (rc_count facts)" and "length bytes = unat (rc_bytes facts)"
    and "record_count facts address index \<lparr>rv_bytes = bytes, rv_at = at\<rparr> = Err e"
  shows "integrity_error e"
proof (cases "rc_count facts")
  case (AddressEncoded_count codec r1 r2)
  have len: "unat (offset_get (sf_check codec)) + 4 \<le> length bytes" "unat (offset_get (sf_stored codec)) + 4 \<le> length bytes"
    using assms(1,2) AddressEncoded_count by auto
  then show ?thesis
    using assms(3) AddressEncoded_count record_field_within(2) [OF len(1), of at] record_field_within(2) [OF len(2), of at]
    by (auto simp: record_count_def layout_field_def integrity_error_def ok_or_def split: option.splits)
next
  case (Plain_count quantity r1 r2 r3)
  then show ?thesis
    using assms record_field_within(2) [of quantity bytes at] by (auto simp: record_count_def layout_field_def)
qed (use assms in \<open>simp add: record_count_def\<close>)

lemma decode_record_error:
  assumes "record_facts_ok facts (rc_count facts)" and "length bytes = unat (rc_bytes facts)"
    and "decode_record facts address index bytes = Err e"
  shows "integrity_error e"
proof -
  obtain item_type where "record_u64 \<lparr>rv_bytes = bytes, rv_at = ''inventory record''\<rparr> (rc_item_type facts) = Ok item_type"
    by (rule record_fields [OF assms(1,2)])
  then show ?thesis
    using assms(3) record_count_error [OF assms(1,2), of address index "''inventory record''"]
    by (cases "record_count facts address index \<lparr>rv_bytes = bytes, rv_at = ''inventory record''\<rparr>")
      (auto simp: decode_record_def layout_field_def integrity_error_def split: if_splits)
qed

lemma add_count_error: "add_count key n counts = Err e \<Longrightarrow> integrity_error e"
  by (auto simp: add_count_def ok_or_def integrity_error_def split: option.splits)

lemma count_records_error:
  "record_facts_ok facts (rc_count facts) \<Longrightarrow> \<forall>bytes \<in> set records. length bytes = unat (rc_bytes facts) \<Longrightarrow>
     count_records facts address index records counts = Err e \<Longrightarrow> integrity_error e"
proof (induction records arbitrary: index counts)
  case (Cons bytes records)
  have rest: "\<forall>bytes \<in> set records. length bytes = unat (rc_bytes facts)" using Cons.prems(2) by simp
  show ?case
  proof (cases "decode_record facts address index bytes")
    case (Ok x)
    obtain item_type n where x: "x = (item_type, n)" by (cases x)
    show ?thesis
    proof (cases "n = 0")
      case True
      then show ?thesis using Cons.IH [OF Cons.prems(1) rest] Cons.prems(3) Ok x by simp
    next
      case False
      then show ?thesis
        using Cons.IH [OF Cons.prems(1) rest] Cons.prems(3) Ok x
        by (cases "add_count item_type (ucast n) counts") (simp_all add: add_count_error)
    qed
  next
    case (Err e')
    have "length bytes = unat (rc_bytes facts)" using Cons.prems(2) by simp
    from decode_record_error [OF Cons.prems(1) this Err] show ?thesis using Cons.prems(3) Err by simp
  qed
qed simp

lemma chunks_exact_length: "n * stride \<le> length xs \<Longrightarrow> \<forall>c \<in> set (chunks_exact stride n xs). length c = stride"
proof (induction stride n xs rule: chunks_exact.induct)
  case (2 stride n xs)
  have "n * stride \<le> length (drop stride xs)" and "length (take stride xs) = stride"
    using 2(2) unfolding mult_Suc length_drop length_take by linarith+
  moreover have "\<forall>c \<in> set (chunks_exact stride n (drop stride xs)). length c = stride" by (rule 2(1)) fact
  ultimately show ?case by (simp only: chunks_exact.simps set_simps ball_simps simp_thms)
qed simp

lemma records_of_length: "\<forall>c \<in> set (records_of stride xs). length c = stride"
  unfolding records_of_def by (rule chunks_exact_length) simp

text \<open>
  The bundled facts fit their records: whatever a family's vector holds, once its length is a multiple of
  the stride the decoder fails only on what the game wrote - a type that is no address, a broken integrity
  word or a count that overflows - and never because a fact points outside a record.
\<close>

lemma inventory_facts_fit:
  assumes "facts \<in> set FAMILIES" and "length payload mod unat (rc_bytes (ff_record facts)) = 0"
    and "decode_inventory address payload (ff_record facts) = Err e"
  shows "integrity_error e"
proof -
  have ok: "record_facts_ok (ff_record facts) (rc_count (ff_record facts))"
    using families_facts_ok assms(1) by (simp add: list_all_iff)
  then have "rc_bytes (ff_record facts) \<noteq> 0" by (cases "rc_count (ff_record facts)") auto
  then show ?thesis
    using assms(2,3) count_records_error [OF ok records_of_length] by (simp add: decode_inventory_def)
qed

end
