(* ===== verification/Mastery_Topic.thy ===== *)
theory Mastery_Topic
  imports Inventory_Topic
begin

section \<open>Mastery\<close>

text \<open>
  \<open>model/src/mastery\<close> and \<open>provider/src/topics/mastery\<close>: the retained affinity of every item and the points
  of the account, read between two equal samples of the progression and of the commit state.
\<close>

subsection \<open>The snapshot\<close>

record MasteryItemProgress =
  mi_item_key :: ItemKey
  mi_affinity :: u64

record MasteryPointBreakdown =
  mp_item_points :: u64
  mp_mission_points :: u64
  mp_railjack_intrinsic_points :: u64
  mp_drifter_intrinsic_points :: u64

record MasterySnapshot =
  ms_account_id :: AccountId
  ms_rank :: u32
  ms_total_points :: u64
  ms_breakdown :: MasteryPointBreakdown
  ms_items :: "MasteryItemProgress list"

datatype InvalidMastery = Mastery_item_order | Points

definition breakdown_total :: "MasteryPointBreakdown \<Rightarrow> u64 option" where
  "breakdown_total b =
     Option.bind (checked_add (mp_item_points b) (mp_mission_points b)) (\<lambda>sum.
     Option.bind (checked_add sum (mp_railjack_intrinsic_points b)) (\<lambda>sum.
     checked_add sum (mp_drifter_intrinsic_points b)))"

definition mastery_new ::
  "AccountId \<Rightarrow> u32 \<Rightarrow> u64 \<Rightarrow> MasteryPointBreakdown \<Rightarrow> MasteryItemProgress list \<Rightarrow> (MasterySnapshot, InvalidMastery) result" where
  "mastery_new account rank total_points breakdown items =
     (if windows2_any (\<lambda>a b. mi_item_key b \<le> mi_item_key a) items then Err Mastery_item_order
      else if breakdown_total breakdown \<noteq> Some total_points then Err Points
      else Ok \<lparr>ms_account_id = account, ms_rank = rank, ms_total_points = total_points, ms_breakdown = breakdown, ms_items = items\<rparr>)"

definition tracked_items :: "MasterySnapshot \<Rightarrow> u64" where
  "tracked_items s = of_nat (length (ms_items s))"

definition mastery_get :: "MasterySnapshot \<Rightarrow> ItemKey \<Rightarrow> MasteryItemProgress option" where
  "mastery_get s key = List.find (\<lambda>item. mi_item_key item = key) (ms_items s)"

subsection \<open>Facts about the executable\<close>

record MasteryFacts =
  mx_non_item_xp :: "ObjectOffset list"
  mx_non_item_xp_codec :: AddressEncodedScalarFacts
  mx_vector :: ObjectOffset
  mx_record_bytes :: u32
  mx_item_type :: ObjectOffset
  mx_xp :: AddressEncodedScalarFacts
  mx_item_xp_dirty :: ObjectOffset
  mx_item_xp :: ObjectOffset
  mx_rank :: ObjectOffset
  mx_rank_codec :: AddressEncodedU16Facts
  mx_calculation_name_reference :: Rva
  mx_calculation_name :: Rva
  mx_calculation :: Rva
  mx_calculation_reader :: Rva
  mx_non_item_xp_reader :: Rva
  mx_rank_reader :: Rva
  mx_serializer :: Rva

definition MASTERY :: MasteryFacts where
  "MASTERY =
     \<lparr>mx_non_item_xp = [ObjectOffset 0xE4C0, ObjectOffset 0xE4C8, ObjectOffset 0xE4D0],
      mx_non_item_xp_codec =
        \<lparr>sf_check = ObjectOffset 0, sf_stored = ObjectOffset 4, sf_rotate_left = 17, sf_address_shift = 3,
         sf_value_xor = 0x8637D1B6, sf_check_xor = 0x2C67B217\<rparr>,
      mx_vector = ObjectOffset 0xF0, mx_record_bytes = 16, mx_item_type = ObjectOffset 0,
      mx_xp =
        \<lparr>sf_check = ObjectOffset 8, sf_stored = ObjectOffset 12, sf_rotate_left = 17, sf_address_shift = 3,
         sf_value_xor = 0x8637D1B6, sf_check_xor = 0x2C67B217\<rparr>,
      mx_item_xp_dirty = ObjectOffset 0xEA8, mx_item_xp = ObjectOffset 0xEAC, mx_rank = ObjectOffset 0x40C,
      mx_rank_codec =
        \<lparr>hf_check = ObjectOffset 0, hf_stored = ObjectOffset 2, hf_rotate_left = 1, hf_address_shift = 3,
         hf_value_xor = 0x810B, hf_check_xor = 0xE85E\<rparr>,
      mx_calculation_name_reference = Rva 0x007DDA95, mx_calculation_name = Rva 0x023F1C10, mx_calculation = Rva 0x007DDA30,
      mx_calculation_reader = Rva 0x007DDA5C, mx_non_item_xp_reader = Rva 0x00A041D0, mx_rank_reader = Rva 0x007DDBCC,
      mx_serializer = Rva 0x01BD47BF\<rparr>"

subsection \<open>Records\<close>

record NativeItem =
  ni_item_type :: u64
  ni_affinity :: u32

abbreviation record_field_of :: "('a, RecordError) result \<Rightarrow> ('a, TargetError) result" where
  "record_field_of \<equiv> map_err record_read_error"

definition mastery_record :: "u64 \<Rightarrow> usize \<Rightarrow> u8 list \<Rightarrow> (NativeItem option, TargetError) result" where
  "mastery_record payload_address index bytes =
     (let v = \<lparr>rv_bytes = bytes, rv_at = ''mastery record''\<rparr>
      in rbind (record_field_of (record_u64 v (mx_item_type MASTERY))) (\<lambda>item_type.
         if item_type = 0 then Ok None
         else if \<not> is_user_address item_type then Err (InvalidData ''mastery item type'')
         else rbind (ok_or (Option.bind (checked_add payload_address (of_nat (index * unat (mx_record_bytes MASTERY))))
                (\<lambda>address. checked_add address (ucast (offset_get (sf_stored (mx_xp MASTERY)))))) (SourceOverflow ''mastery record address'')) (\<lambda>stored_address.
              rbind (record_field_of (record_u32 v (sf_check (mx_xp MASTERY)))) (\<lambda>check.
              rbind (record_field_of (record_u32 v (sf_stored (mx_xp MASTERY)))) (\<lambda>stored.
              rbind (ok_or (scalar_decode (mx_xp MASTERY) check stored stored_address) (InvalidData ''mastery affinity integrity'')) (\<lambda>affinity.
              Ok (Some \<lparr>ni_item_type = item_type, ni_affinity = affinity\<rparr>)))))))"

fun mastery_records :: "u64 \<Rightarrow> usize \<Rightarrow> u8 list list \<Rightarrow> (NativeItem list, TargetError) result" where
  "mastery_records payload_address index [] = Ok []"
| "mastery_records payload_address index (bytes # rest) =
     rbind (mastery_record payload_address index bytes) (\<lambda>item.
     rbind (mastery_records payload_address (index + 1) rest) (\<lambda>items.
     Ok (case item of None \<Rightarrow> items | Some i \<Rightarrow> i # items)))"

definition decode_mastery :: "u64 \<Rightarrow> u8 list \<Rightarrow> (NativeItem list, TargetError) result" where
  "decode_mastery payload_address payload =
     (let stride = unat (mx_record_bytes MASTERY)
      in if stride = 0 \<or> length payload mod stride \<noteq> 0 then Err (InvalidData ''mastery record stride'')
         else mastery_records payload_address 0 (records_of stride payload))"

subsection \<open>Progression\<close>

record Progression =
  pg_non_item_xp :: "u32 list"
  pg_item_xp :: u32
  pg_rank :: u16

definition require_calculated :: "'m backend \<Rightarrow> u64 \<Rightarrow> ('m TargetReader, unit, TargetError) attempt" where
  "require_calculated be inventory =
     and_then (read_object_u8 be inventory (mx_item_xp_dirty MASTERY)) (\<lambda>dirty.
     done_with (if dirty \<noteq> 0 then Err (NotReady ''mastery calculation'') else Ok ()))"

definition read_pool :: "'m backend \<Rightarrow> u64 \<Rightarrow> ObjectOffset \<Rightarrow> AddressEncodedScalarFacts \<Rightarrow> ('m TargetReader, u32, TargetError) attempt" where
  "read_pool be profile offset codec =
     and_then (of_reader (\<lambda>r. object_address r profile offset 8)) (\<lambda>address.
     and_then (read_at be address 8) (\<lambda>bytes.
     let v = \<lparr>rv_bytes = bytes, rv_at = ''mastery non-item pool''\<rparr>
     in and_then (done_with (record_field_of (record_u32 v (sf_check codec)))) (\<lambda>check.
        and_then (done_with (record_field_of (record_u32 v (sf_stored codec)))) (\<lambda>stored.
        and_then (of_reader (\<lambda>r. object_address r address (sf_stored codec) 4)) (\<lambda>stored_address.
        done_with (ok_or (scalar_decode codec check stored stored_address) (InvalidData ''mastery non-item pool integrity'')))))))"

fun read_pools :: "'m backend \<Rightarrow> u64 \<Rightarrow> ObjectOffset list \<Rightarrow> ('m TargetReader, u32 list, TargetError) attempt" where
  "read_pools be profile [] = done_with (Ok [])"
| "read_pools be profile (offset # rest) =
     and_then (read_pool be profile offset (mx_non_item_xp_codec MASTERY)) (\<lambda>x.
     and_then (read_pools be profile rest) (\<lambda>xs. done_with (Ok (x # xs))))"

definition read_rank :: "'m backend \<Rightarrow> u64 \<Rightarrow> ('m TargetReader, u16, TargetError) attempt" where
  "read_rank be inventory =
     and_then (of_reader (\<lambda>r. object_address r inventory (mx_rank MASTERY) 4)) (\<lambda>rank_address.
     and_then (read_at be rank_address 4) (\<lambda>bytes.
     let v = \<lparr>rv_bytes = bytes, rv_at = ''mastery rank''\<rparr>; codec = mx_rank_codec MASTERY
     in and_then (of_reader (\<lambda>r. object_address r rank_address (hf_stored codec) 2)) (\<lambda>stored_address.
        and_then (done_with (record_field_of (record_u16 v (hf_check codec)))) (\<lambda>check.
        and_then (done_with (record_field_of (record_u16 v (hf_stored codec)))) (\<lambda>stored.
        done_with (ok_or (u16_decode codec check stored stored_address) (InvalidData ''mastery rank integrity'')))))))"

definition read_progression :: "'m backend \<Rightarrow> u64 \<Rightarrow> u64 \<Rightarrow> ('m TargetReader, Progression, TargetError) attempt" where
  "read_progression be profile inventory =
     and_then (require_calculated be inventory) (\<lambda>_.
     and_then (read_pools be profile (mx_non_item_xp MASTERY)) (\<lambda>non_item_xp.
     and_then (read_object_u32 be inventory (mx_item_xp MASTERY)) (\<lambda>item_xp.
     and_then (read_rank be inventory) (\<lambda>rank.
     and_then (require_calculated be inventory) (\<lambda>_.
     done_with (Ok \<lparr>pg_non_item_xp = non_item_xp, pg_item_xp = item_xp, pg_rank = rank\<rparr>))))))"

subsection \<open>Acquisition\<close>

datatype MasteryError =
    Mastery_read TargetError
  | Mastery_item ItemTypeError
  | Mastery_model InvalidMastery

definition mastery_read :: "('m TargetReader, 'a, TargetError) attempt \<Rightarrow> ('m caches, 'a, MasteryError) attempt" where
  "mastery_read run = with_error Mastery_read (on_fst (on_fst run))"

fun key_items ::
  "'m backend \<Rightarrow> NativeItem list \<Rightarrow> u64 option \<Rightarrow> (ItemKey, MasteryItemProgress) btree
    \<Rightarrow> ('m caches, (ItemKey, MasteryItemProgress) btree, MasteryError) attempt" where
  "key_items be [] pool by_key = done_with (Ok by_key)"
| "key_items be (item # rest) pool by_key =
     and_then (with_error Mastery_item (resolve_item_path be ITEM_TYPES (ni_item_type item) pool)) (\<lambda>(key, pool').
     if bt_contains by_key key then done_with (Err (Mastery_read (InvalidData ''duplicate mastery item key'')))
     else key_items be rest pool' (bt_insert key \<lparr>mi_item_key = key, mi_affinity = ucast (ni_affinity item)\<rparr> by_key))"

text \<open>The sum is folded without a check: four 32-bit values do not overflow 64 bits.\<close>

definition total_points :: "Progression \<Rightarrow> u64" where
  "total_points p = foldl (\<lambda>total xp. total + ucast xp) (ucast (pg_item_xp p)) (pg_non_item_xp p)"

definition points_of :: "Progression \<Rightarrow> MasteryPointBreakdown" where
  "points_of p =
     \<lparr>mp_item_points = ucast (pg_item_xp p), mp_mission_points = ucast (pg_non_item_xp p ! 0),
      mp_railjack_intrinsic_points = ucast (pg_non_item_xp p ! 1), mp_drifter_intrinsic_points = ucast (pg_non_item_xp p ! 2)\<rparr>"

definition mastery_once :: "'m backend \<Rightarrow> ProfileDataIdentity \<Rightarrow> ('m caches, MasterySnapshot, MasteryError) attempt" where
  "mastery_once be login =
     (let profile = identity_get (pd_object login); moved = Mastery_read (Unstable ''mastery progression or inventory commit markers'')
      in and_then (mastery_read (of_reader (\<lambda>r. object_address r profile (io_offset INVENTORY_OWNER) VECTOR_HEADER_BYTES))) (\<lambda>inventory.
         and_then (mastery_read (read_commit_state be profile)) (\<lambda>commit.
         and_then (mastery_read (read_progression be profile inventory)) (\<lambda>before.
         and_then (mastery_read (read_vector be inventory (mx_vector MASTERY) (mx_record_bytes MASTERY))) (\<lambda>(address, payload).
         and_then (done_with (map_err Mastery_read (decode_mastery address payload))) (\<lambda>native.
         and_then (key_items be native None []) (\<lambda>by_key.
         and_then (mastery_read (read_progression be profile inventory)) (\<lambda>after.
         if before \<noteq> after then done_with (Err moved)
         else and_then (mastery_read (read_commit_state be profile)) (\<lambda>commit'.
           if commit \<noteq> commit' then done_with (Err moved)
           else done_with (map_err Mastery_model
             (mastery_new (ai_account_id (pd_account login)) (ucast (pg_rank before)) (total_points before) (points_of before)
               (bt_values by_key))))))))))))"

definition read_mastery ::
  "'m backend \<Rightarrow> u64 \<Rightarrow> u32 \<Rightarrow> ProfileDataIdentity \<Rightarrow> ('m \<times> StringTokenCache \<times> ItemTypeCache, MasterySnapshot, MasteryError) attempt" where
  "read_mastery be base image_size login = with_item_caches Mastery_read (mastery_once be login) base image_size"

subsection \<open>The points\<close>

lemma word_sum4_exact:
  fixes a b c d :: u32
  shows "unat (((ucast a :: u64) + ucast b) + ucast c + ucast d) = unat a + unat b + unat c + unat d"
    and "checked_add (ucast a :: u64) (ucast b) = Some (ucast a + ucast b)"
    and "checked_add ((ucast a :: u64) + ucast b) (ucast c) = Some (ucast a + ucast b + ucast c)"
    and "checked_add ((ucast a :: u64) + ucast b + ucast c) (ucast d) = Some (ucast a + ucast b + ucast c + ucast d)"
proof -
  have small: "unat a < 2 ^ 32" "unat b < 2 ^ 32" "unat c < 2 ^ 32" "unat d < 2 ^ 32"
    using unsigned_less [of a, where ?'a = nat] unsigned_less [of b, where ?'a = nat] unsigned_less [of c, where ?'a = nat]
      unsigned_less [of d, where ?'a = nat] by simp_all
  then have ab: "unat ((ucast a :: u64) + ucast b) = unat a + unat b" using unat_add_lem [of "ucast a :: u64" "ucast b"] by simp
  then have abc: "unat ((ucast a :: u64) + ucast b + ucast c) = unat a + unat b + unat c"
    using small unat_add_lem [of "(ucast a :: u64) + ucast b" "ucast c"] by simp
  then show "unat (((ucast a :: u64) + ucast b) + ucast c + ucast d) = unat a + unat b + unat c + unat d"
    using small unat_add_lem [of "(ucast a :: u64) + ucast b + ucast c" "ucast d"] by simp
  show "checked_add (ucast a :: u64) (ucast b) = Some (ucast a + ucast b)"
    "checked_add ((ucast a :: u64) + ucast b) (ucast c) = Some (ucast a + ucast b + ucast c)"
    "checked_add ((ucast a :: u64) + ucast b + ucast c) (ucast d) = Some (ucast a + ucast b + ucast c + ucast d)"
    using small ab abc by (simp_all add: checked_add_def)
qed

lemma length_read_pools: "read_pools be profile offsets r = (r', Ok xs) \<Longrightarrow> length xs = length offsets"
proof (induction offsets arbitrary: r xs)
  case (Cons offset offsets)
  then show ?case by (auto simp: and_then_Ok done_with_def)
qed (simp add: done_with_def)

lemma read_progression_pools: "read_progression be profile inventory r = (r', Ok p) \<Longrightarrow> length (pg_non_item_xp p) = 3"
  by (auto simp: read_progression_def and_then_Ok done_with_def MASTERY_def dest!: length_read_pools)

lemma three_cases: "length xs = 3 \<Longrightarrow> \<exists>a b c. xs = [a, b, c]"
  by (auto simp: numeral_3_eq_3 length_Suc_conv)

lemma points_exact:
  assumes "length (pg_non_item_xp p) = 3"
  shows "breakdown_total (points_of p) = Some (total_points p)"
    and "unat (total_points p) = unat (pg_item_xp p) + sum_list (map unat (pg_non_item_xp p))"
proof -
  obtain a b c where "pg_non_item_xp p = [a, b, c]" using three_cases [OF assms] by blast
  then show "breakdown_total (points_of p) = Some (total_points p)"
    and "unat (total_points p) = unat (pg_item_xp p) + sum_list (map unat (pg_non_item_xp p))"
    using word_sum4_exact(1) [of "pg_item_xp p" a b c] word_sum4_exact(2) [of "pg_item_xp p" a] word_sum4_exact(3) [of "pg_item_xp p" a b]
      word_sum4_exact(4) [of "pg_item_xp p" a b c]
    by (simp_all add: points_of_def total_points_def breakdown_total_def)
qed

subsection \<open>The items\<close>

lemma key_items_Ok:
  "key_items be items pool by_key s = (s', Ok by_key') \<Longrightarrow> bt_inv by_key \<Longrightarrow> \<forall>(k, item) \<in> set by_key. mi_item_key item = k \<Longrightarrow>
     bt_inv by_key' \<and> (\<forall>(k, item) \<in> set by_key'. mi_item_key item = k)
     \<and> image_mset mi_affinity (mset (bt_values by_key')) =
         image_mset (\<lambda>item. ucast (ni_affinity item)) (mset items) + image_mset mi_affinity (mset (bt_values by_key))"
proof (induction items arbitrary: pool by_key s)
  case (Cons item items)
  obtain s1 key pool' where step: "bt_get by_key key = None"
      "key_items be items pool' (bt_insert key \<lparr>mi_item_key = key, mi_affinity = ucast (ni_affinity item)\<rparr> by_key) s1 = (s', Ok by_key')"
    using Cons.prems(1) by (auto simp: and_then_Ok done_with_def split: if_splits)
  have keys: "\<forall>(k, item) \<in> set (bt_insert key \<lparr>mi_item_key = key, mi_affinity = ucast (ni_affinity item)\<rparr> by_key). mi_item_key item = k"
    using Cons.prems(3) set_bt_insert_subset by fastforce
  show ?case using Cons.IH [OF step(2) bt_inv_insert [OF Cons.prems(2)] keys] by (simp add: mset_bt_insert [OF step(1)])
qed (auto simp: done_with_def)

definition mastery_wf :: "MasterySnapshot \<Rightarrow> bool" where
  "mastery_wf x \<longleftrightarrow> sorted_wrt (<) (map mi_item_key (ms_items x)) \<and> breakdown_total (ms_breakdown x) = Some (ms_total_points x)"

lemma mastery_new_Ok:
  "mastery_new account rank points breakdown items = Ok x \<longleftrightarrow>
     x = \<lparr>ms_account_id = account, ms_rank = rank, ms_total_points = points, ms_breakdown = breakdown, ms_items = items\<rparr> \<and> mastery_wf x"
  using windows2_ascending [of mi_item_key items] by (auto simp: mastery_new_def mastery_wf_def)

lemma keyed_items_ascending:
  assumes "bt_inv by_key" and "\<forall>(k, item) \<in> set by_key. mi_item_key item = k"
  shows "sorted_wrt (<) (map mi_item_key (bt_values by_key))"
proof -
  have "map mi_item_key (bt_values by_key) = map fst by_key" using assms(2) by auto
  then show ?thesis using assms(1) unfolding bt_inv_def by (simp only:)
qed

lemma mastery_new_accepts:
  assumes "length (pg_non_item_xp p) = 3" and "bt_inv by_key" and "\<forall>(k, item) \<in> set by_key. mi_item_key item = k"
  obtains x where "mastery_new account rank (total_points p) (points_of p) (bt_values by_key) = Ok x"
  using points_exact(1) [OF assms(1)] keyed_items_ascending [OF assms(2,3)] that
    windows2_ascending [of mi_item_key "bt_values by_key"]
  by (simp add: mastery_new_def)

lemma and_then_Err:
  "and_then m f s = (s', Err e) \<longleftrightarrow> m s = (s', Err e) \<or> (\<exists>s1 x. m s = (s1, Ok x) \<and> f x s1 = (s', Err e))"
  by (auto simp: and_then_def split: prod.splits result.splits)

lemma map_err_Err_iff: "map_err f r = Err e \<longleftrightarrow> (\<exists>e'. r = Err e' \<and> e = f e')"
  by (cases r) auto

lemma with_item_caches_run:
  assumes "with_item_caches f run base image_size (m, strings, items) = ((m', strings', items'), x)"
  shows "(\<exists>e. x = Err (f e) \<and> items' = items) \<or> (\<exists>r r'. run ((r, strings), items) = (((r', strings'), items'), x))"
  using assms by (auto simp: with_item_caches_def split: result.splits prod.splits)


lemma mastery_read_Ok [simp]: "mastery_read run s = (s', Ok x) \<longleftrightarrow> run (fst (fst s)) = (fst (fst s'), Ok x) \<and> snd s' = snd s \<and> snd (fst s') = snd (fst s)"
  by (auto simp: mastery_read_def)

lemma mastery_read_Err [simp]: "mastery_read run s \<noteq> (s', Err (Mastery_model e))"
  by (cases "run (fst (fst s))") (auto simp: mastery_read_def with_error_def on_fst_def split: prod.splits elim: map_err.elims)

lemma key_items_Err: "key_items be items pool by_key s \<noteq> (s', Err (Mastery_model e))"
proof (induction items arbitrary: pool by_key s)
  case (Cons item items)
  then show ?case by (auto simp: and_then_Err done_with_def with_error_def elim: map_err.elims split: prod.splits if_splits)
qed (simp add: done_with_def)

text \<open>
  The mastery that was read always passes the model: whatever the memory of the game holds, an error is a failed read
  or a bad item type, never a total that does not add up or items out of order.
\<close>

lemma mastery_never_refused:
  "snd (read_mastery be base image_size login (m, strings, items)) \<noteq> Err (Mastery_model e)"
proof
  assume "snd (read_mastery be base image_size login (m, strings, items)) = Err (Mastery_model e)"
  then obtain s' where "read_mastery be base image_size login (m, strings, items) = (s', Err (Mastery_model e))" by (metis prod.collapse)
  then obtain r r' where run: "mastery_once be login ((r, strings), items) = (r', Err (Mastery_model e))"
    using with_item_caches_run [of Mastery_read "mastery_once be login" base image_size m strings items "fst s'" "fst (snd s')" "snd (snd s')"]
    by (auto simp: read_mastery_def)
  obtain s1 s2 native by_key p r3 r4 inventory where step:
      "key_items be native None [] s1 = (s2, Ok by_key)"
      "read_progression be (identity_get (pd_object login)) inventory r3 = (r4, Ok p)"
      "mastery_new (ai_account_id (pd_account login)) (ucast (pg_rank p)) (total_points p) (points_of p) (bt_values by_key) = Err e"
    using run by (auto simp: mastery_once_def Let_def and_then_Ok and_then_Err done_with_def map_err_Err_iff key_items_Err split: if_splits)
  show False
    using mastery_new_accepts [OF read_progression_pools [OF step(2)]] key_items_Ok [OF step(1)] step(3)
    by (metis bt_inv_Nil empty_iff empty_set result.distinct(1))
qed

end
