(* ===== verification/Mastery_Validation.thy ===== *)
theory Mastery_Validation
  imports Mastery_Topic
begin

section \<open>Mastery instructions\<close>

text \<open>
  \<open>provider/src/topics/mastery/validation.rs\<close>: the calculation, the codecs and the serializer of the bundled
  facts are compared with the code of the executable.
\<close>

definition CALCULATION_NAME :: "u8 list" where
  "CALCULATION_NAME = ascii_bytes ''Calculating (item based) player XP'' @ [10, 0]"

definition validate_calculation_name :: "'m backend \<Rightarrow> MasteryFacts \<Rightarrow> ('m TargetReader, unit, TargetError) attempt" where
  "validate_calculation_name be facts =
     (let reference = mx_calculation_name_reference facts
      in if rva_get reference < 6 then done_with (Err (LayoutMismatch ''calculation name''))
         else and_then (read_module be (Rva (rva_get reference - 6)) 13) (\<lambda>code.
           if \<not> code_matches code [(0, [0x41, 0xB8]), (2, to_le (35 :: u32)), (6, [0x48, 0x8D, 0x15])]
              \<or> rip_target reference 7 (drop 9 code) \<noteq> Some (mx_calculation_name facts)
           then done_with (Err (LayoutMismatch ''calculation name reference''))
           else and_then (read_module be (mx_calculation_name facts) (length CALCULATION_NAME)) (\<lambda>name.
             done_with (if name \<noteq> CALCULATION_NAME then Err (LayoutMismatch ''calculation name'') else Ok ()))))"

definition validate_calculation_reader :: "'m backend \<Rightarrow> MasteryFacts \<Rightarrow> ('m TargetReader, unit, TargetError) attempt" where
  "validate_calculation_reader be facts =
     and_then (done_with (ok_or (checked_add (offset_get (mx_vector facts)) 8) (LayoutMismatch ''mastery vector''))) (\<lambda>vector_size.
     and_then (done_with (narrow (mx_record_bytes facts) (LayoutMismatch ''mastery record''))) (\<lambda>record_bytes.
     and_then (done_with (narrow (offset_get (sf_stored (mx_xp facts))) (LayoutMismatch ''mastery record''))) (\<lambda>stored.
     and_then (done_with (narrow (sf_rotate_left (mx_xp facts)) (LayoutMismatch ''mastery XP codec''))) (\<lambda>rot.
     and_then (done_with (narrow (sf_address_shift (mx_xp facts)) (LayoutMismatch ''mastery XP codec''))) (\<lambda>shift.
     and_then (read_module be (mx_calculation_reader facts) 327) (\<lambda>code.
     done_with
       (if checked_add (rva_get (mx_calculation facts)) 44 \<noteq> Some (rva_get (mx_calculation_reader facts))
           \<or> offset_get (mx_item_type facts) \<noteq> 0
           \<or> \<not> code_matches code
               [(0, [0x80, 0xBF]), (2, to_le (offset_get (mx_item_xp_dirty facts))), (6, [0]),
                (72, [0xC7, 0x87]), (74, to_le (offset_get (mx_item_xp facts))), (78, [0, 0, 0, 0]),
                (82, [0x48, 0x8D, 0xB7]), (85, to_le (offset_get (mx_item_xp facts))),
                (89, [0x48, 0x8B, 0x9F]), (92, to_le (offset_get (mx_vector facts))),
                (96, [0x8B, 0x87]), (98, to_le vector_size),
                (119, [0x4C, 0x8D, 0x73]), (122, [stored]), (123, [0x48, 0x83, 0x3B, 0]), (136, [0x41, 0x8B, 0x16]),
                (139, [0xC1, 0xC2, rot]), (145, [0x49, 0x8B, 0xC6]), (148, [0x48, 0xC1, 0xF8, shift]), (152, [0x33, 0xD0, 0x81, 0xF2]),
                (156, to_le (sf_value_xor (mx_xp facts))),
                (197, [0x01, 0x87]), (199, to_le (offset_get (mx_item_xp facts))),
                (209, [0x48, 0x83, 0xC3]), (212, [record_bytes]), (220, [0x49, 0x83, 0xC6]), (223, [record_bytes]),
                (279, [0x8B, 0x97]), (281, to_le (offset_get (mx_item_xp facts))),
                (320, [0xC6, 0x87]), (322, to_le (offset_get (mx_item_xp_dirty facts))), (326, [0])]
        then Err (LayoutMismatch ''mastery calculation reader'') else Ok ())))))))"

definition validate_non_item_xp_reader :: "'m backend \<Rightarrow> MasteryFacts \<Rightarrow> ObjectOffset \<Rightarrow> ('m TargetReader, unit, TargetError) attempt" where
  "validate_non_item_xp_reader be facts profile_inventory =
     (let codec = mx_non_item_xp_codec facts; error = LayoutMismatch ''non-item XP reader'';
          fields = map offset_get (mx_non_item_xp facts); pools = map (\<lambda>field. saturating_add field (offset_get (sf_stored codec))) fields
      in and_then (done_with (narrow (sf_rotate_left codec) error)) (\<lambda>rot.
         and_then (done_with (narrow (sf_address_shift codec) error)) (\<lambda>shift.
         and_then (read_module be (mx_non_item_xp_reader facts) 125) (\<lambda>code.
         and_then (done_with (ok_or (rva_checked_add (mx_non_item_xp_reader facts) 120) error)) (\<lambda>jump.
         done_with
           (if fields ! 1 \<noteq> saturating_add (fields ! 0) 8 \<or> fields ! 2 \<noteq> saturating_add (fields ! 1) 8
               \<or> \<not> code_matches code
                   [(0, [0x4C, 0x8D, 0x89]), (3, to_le (pools ! 0)), (10, [0x49, 0xC1, 0xF9, shift]), (17, [0x33, 0xC2]), (19, [0x35]),
                    (20, to_le (sf_value_xor codec)), (24, [0xC1, 0xC8, rot]), (27, [0x89, 0x81]), (29, to_le (pools ! 0)), (33, [0x35]),
                    (34, to_le (sf_check_xor codec)), (38, [0x89, 0x81]), (40, to_le (fields ! 0)), (44, [0x48, 0x8D, 0x81]), (47, to_le (pools ! 1)),
                    (53, [0x48, 0x81, 0xC1]), (56, to_le (pools ! 2)), (60, [0x48, 0xC1, 0xF8, shift]), (64, [0xC1, 0xC2, rot]), (67, [0x33, 0xD0]),
                    (71, [0x81, 0xF2]), (73, to_le (sf_value_xor codec)), (77, [0xC1, 0xC0, rot]), (80, [0x48, 0xC1, 0xF9, shift]), (84, [0x33, 0xC1]),
                    (86, [0x49, 0x8D, 0x8A]), (89, to_le (offset_get profile_inventory)), (93, [0x35]), (94, to_le (sf_value_xor codec)), (98, [0x03, 0xD0]),
                    (100, [0x41, 0x8B, 0x82]), (103, to_le (pools ! 0)), (107, [0xC1, 0xC0, rot]), (110, [0x41, 0x33, 0xC1]), (113, [0x35]),
                    (114, to_le (sf_value_xor codec)), (118, [0x03, 0xD0]), (120, [0xE9])]
               \<or> rip_target jump 5 (take 4 (drop 121 code)) \<noteq> Some (mx_calculation facts)
            then Err error else Ok ()))))))"

definition validate_rank_reader :: "'m backend \<Rightarrow> MasteryFacts \<Rightarrow> ('m TargetReader, unit, TargetError) attempt" where
  "validate_rank_reader be facts =
     (let codec = mx_rank_codec facts; error = LayoutMismatch ''mastery rank reader''
      in and_then (done_with (ok_or (checked_add (offset_get (mx_rank facts)) (offset_get (hf_stored codec))) error)) (\<lambda>stored.
         and_then (done_with (ok_or (checked_add (offset_get (mx_rank facts)) (offset_get (hf_check codec))) error)) (\<lambda>check.
         and_then (done_with (narrow (hf_rotate_left codec) error)) (\<lambda>rot.
         and_then (done_with (narrow (hf_address_shift codec) error)) (\<lambda>shift.
         and_then (read_module be (mx_rank_reader facts) 117) (\<lambda>code.
         done_with
           (if \<not> code_matches code
                 [(0, [0x48, 0x8D, 0x97]), (3, to_le stored), (12, [0xBD]), (13, to_le (ucast (hf_value_xor codec) :: u32)),
                  (17, [0x48, 0xC1, 0xFA, shift]), (26, [0x0F, 0xB7, 0x97]), (29, to_le stored)]
               \<or> rot \<noteq> 1
               \<or> \<not> code_matches code
                 [(33, [0x66, 0xD1, 0xC2]), (40, [0x44, 0x33, 0xC3]), (43, [0x44, 0x33, 0xC5]), (86, [0x66, 0x33, 0xDE]), (89, [0xB8]),
                  (90, to_le (ucast (hf_check_xor codec) :: u32)), (94, [0x66, 0x33, 0xDD]), (97, [0x66, 0xD1, 0xCB]), (100, [0x66, 0x89, 0x9F]),
                  (103, to_le stored), (107, [0x66, 0x33, 0xD8]), (110, [0x66, 0x89, 0x9F]), (113, to_le check)]
            then Err error else Ok ())))))))"

definition validate_mastery_serializer :: "'m backend \<Rightarrow> MasteryFacts \<Rightarrow> ('m TargetReader, unit, TargetError) attempt" where
  "validate_mastery_serializer be facts =
     (let codec = mx_xp facts; error = LayoutMismatch ''mastery serializer''
      in and_then (done_with (narrow (offset_get (sf_stored codec)) error)) (\<lambda>stored.
         and_then (done_with (narrow (offset_get (sf_check codec)) error)) (\<lambda>check.
         and_then (done_with (narrow (sf_rotate_left codec) error)) (\<lambda>rot.
         and_then (done_with (narrow (sf_address_shift codec) error)) (\<lambda>shift.
         and_then (read_module be (mx_serializer facts) 86) (\<lambda>code.
         done_with
           (if \<not> code_matches code
                 [(0, [0x8B, 0x42]), (2, [stored]), (3, [0x48, 0x8D, 0x5A]), (6, [stored]), (7, [0xC1, 0xC0, rot]), (13, [0x48, 0xC1, 0xFB, shift]),
                  (24, [0x35]), (25, to_le (sf_value_xor codec)), (42, [0x8B, 0x47]), (44, [stored]), (49, [0xC1, 0xC0, rot]), (54, [0x35]),
                  (55, to_le (sf_value_xor codec)), (65, [0x81, 0xF3]), (67, to_le (sf_value_xor codec)), (71, [0xC1, 0xCB, rot]), (74, [0x89, 0x5F]),
                  (76, [stored]), (77, [0x81, 0xF3]), (79, to_le (sf_check_xor codec)), (83, [0x89, 0x5F]), (85, [check])]
            then Err error else Ok ())))))))"

definition validate_mastery_layout :: "'m backend \<Rightarrow> u64 \<Rightarrow> u32 \<Rightarrow> ('m, unit, TargetError) attempt" where
  "validate_mastery_layout be = with_target_reader (all_checks
     [validate_calculation_name be MASTERY,
      validate_calculation_reader be MASTERY,
      validate_non_item_xp_reader be MASTERY (io_offset INVENTORY_OWNER),
      validate_mastery_sources be,
      validate_rank_reader be MASTERY,
      validate_mastery_serializer be MASTERY])"

end
