(* ===== verification/Relic_Choices.thy ===== *)
theory Relic_Choices
  imports Star_Chart_Topic World_Objects
begin

section \<open>Relic reward choices\<close>

text \<open>
  \<open>provider/src/topics/relic_rewards\<close>: the rewards of the visible picker, at most one of each player, in the order
  the game shows them. The session owns the checks of the screen, the account and the world.
\<close>

definition RELIC_VECTOR :: ObjectOffset where "RELIC_VECTOR = ObjectOffset 0x18B0"
definition RELIC_RECORD_BYTES :: usize where "RELIC_RECORD_BYTES = 0x70"
definition MAX_CHOICES :: usize where "MAX_CHOICES = 4"

datatype RelicRewardChoice = RelicRewardChoice (choice_item: ItemKey)

definition relic_reader :: "('m TargetReader, 'a, TargetError) attempt \<Rightarrow> ('m caches, 'a, TargetError) attempt" where
  "relic_reader run = on_fst (on_fst run)"

definition vector_bounds :: "u8 list \<Rightarrow> (u64 \<times> usize, TargetError) result" where
  "vector_bounds header =
     (let pointer = from_le (take 8 header); len = unat (from_le (take 4 (drop 8 header)) :: u32);
          capacity = unat (from_le (take 4 (drop 12 header)) :: u32)
      in if MAX_CHOICES * RELIC_RECORD_BYTES < len \<or> capacity < len \<or> 64 * RELIC_RECORD_BYTES < capacity
            \<or> len mod RELIC_RECORD_BYTES \<noteq> 0 \<or> capacity mod RELIC_RECORD_BYTES \<noteq> 0 \<or> capacity \<noteq> 0 \<and> pointer = 0
         then Err (InvalidData ''relic reward vector bounds'')
         else if pointer \<noteq> 0 then rbind (world_object pointer) (\<lambda>_. Ok (pointer, len)) else Ok (pointer, len))"

definition reward_type :: "u8 list \<Rightarrow> (u64 option, TargetError) result" where
  "reward_type bytes =
     (let v = \<lparr>rv_bytes = bytes, rv_at = ''relic reward record''\<rparr>
      in rbind (map_err record_read_error (record_field v (ObjectOffset 0x50) 1)) (\<lambda>flag.
         if flag ! 0 = 0 then Ok None
         else if flag ! 0 = 1 then
           rbind (map_err record_read_error (record_u64 v (ObjectOffset 0x48))) (\<lambda>pointer.
           if pointer = 0 then Err (NotReady ''relic reward item'')
           else rbind (map_err (\<lambda>_. InvalidData ''reward item alignment'') (world_object pointer)) (\<lambda>_. Ok (Some pointer)))
         else Err (InvalidData ''relic reward qualification'')))"

fun relic_item_error :: "ItemTypeError \<Rightarrow> TargetError" where
  "relic_item_error (Item_read e) = e"
| "relic_item_error (Item_invalid at) = InvalidData at"

text \<open>The qualified slots with the item of each, in slot order.\<close>

fun qualified_rewards ::
  "'m backend \<Rightarrow> usize \<Rightarrow> u8 list list \<Rightarrow> u64 option \<Rightarrow> ('m caches, (usize \<times> RelicRewardChoice) list, TargetError) attempt" where
  "qualified_rewards be index [] pool = done_with (Ok [])"
| "qualified_rewards be index (bytes # rest) pool =
     and_then (done_with (reward_type bytes)) (\<lambda>reward.
       (case reward of
          None \<Rightarrow> qualified_rewards be (index + 1) rest pool
        | Some item_type \<Rightarrow>
            and_then (with_error relic_item_error (resolve_item_path be ITEM_TYPES item_type pool)) (\<lambda>(item_key, pool').
            and_then (qualified_rewards be (index + 1) rest pool') (\<lambda>rewards.
            done_with (Ok ((index, RelicRewardChoice item_key) # rewards))))))"

text \<open>One candidate field: the accounts of all qualified slots, or nothing at the first that is not a new account.\<close>

fun field_accounts ::
  "'m backend \<Rightarrow> u64 \<Rightarrow> u8 list \<Rightarrow> u32 \<Rightarrow> usize list \<Rightarrow> AccountId list \<Rightarrow> ('m TargetReader, AccountId list option, TargetError) attempt" where
  "field_accounts be pointer payload field [] accounts = done_with (Ok (Some accounts))"
| "field_accounts be pointer payload field (index # rest) accounts =
     and_then (done_with (encoded_length (take 16 (drop (index * RELIC_RECORD_BYTES + unat field) payload)))) (\<lambda>len.
     if len \<noteq> 24 then done_with (Ok None)
     else and_then (done_with (if 2 ^ 32 \<le> index * RELIC_RECORD_BYTES then Err (SourceOverflow ''reward record'') else Ok ())) (\<lambda>_.
          and_then (of_reader (\<lambda>r. object_address r pointer (ObjectOffset (of_nat (index * RELIC_RECORD_BYTES))) RELIC_RECORD_BYTES)) (\<lambda>object.
          and_then (read_string be object (ObjectOffset field) 24) (\<lambda>text.
            (case account_id_new text of
               Err _ \<Rightarrow> done_with (Ok None)
             | Ok account \<Rightarrow>
                 if account \<in> set accounts then done_with (Ok None)
                 else field_accounts be pointer payload field rest (accounts @ [account]))))))"

fun search_fields ::
  "'m backend \<Rightarrow> u64 \<Rightarrow> u8 list \<Rightarrow> usize list \<Rightarrow> u32 list \<Rightarrow> AccountId list option \<Rightarrow> ('m TargetReader, AccountId list option, TargetError) attempt" where
  "search_fields be pointer payload qualified [] found = done_with (Ok found)"
| "search_fields be pointer payload qualified (field # candidates) found =
     and_then (field_accounts be pointer payload field qualified []) (\<lambda>accounts.
       (case accounts of
          None \<Rightarrow> search_fields be pointer payload qualified candidates found
        | Some accounts \<Rightarrow>
            if found \<noteq> None then done_with (Err (InvalidData ''ambiguous reward account field''))
            else search_fields be pointer payload qualified candidates (Some accounts)))"

definition account_ids :: "'m backend \<Rightarrow> u64 \<Rightarrow> u8 list \<Rightarrow> usize list \<Rightarrow> ('m TargetReader, AccountId list, TargetError) attempt" where
  "account_ids be pointer payload qualified =
     (if qualified = [] then done_with (Ok [])
      else and_then (search_fields be pointer payload qualified [0, 0x10, 0x20, 0x30] None) (\<lambda>found.
        done_with (ok_or found (InvalidData ''reward account field''))))"

text \<open>The player first, then the others by account: the accounts are distinct, so the unstable sort has one result.\<close>

definition display_order ::
  "AccountId list \<Rightarrow> RelicRewardChoice list \<Rightarrow> AccountId \<Rightarrow> ((AccountId \<times> RelicRewardChoice) list, TargetError) result" where
  "display_order accounts choices me =
     (if length accounts \<noteq> length choices \<or> choices \<noteq> [] \<and> length (filter (\<lambda>id. id = me) accounts) \<noteq> 1 \<or> \<not> distinct accounts
      then Err (InvalidData ''reward display order'')
      else Ok (sort_key (\<lambda>(id, _). (id \<noteq> me, account_text id)) (zip accounts choices)))"

definition relic_once :: "'m backend \<Rightarrow> u64 \<Rightarrow> AccountId \<Rightarrow> ('m caches, (AccountId \<times> RelicRewardChoice) list, TargetError) attempt" where
  "relic_once be rules account =
     and_then (relic_reader (read_object be rules RELIC_VECTOR 16)) (\<lambda>header.
     and_then (done_with (vector_bounds header)) (\<lambda>(pointer, len).
     and_then (relic_reader (read_at be pointer len)) (\<lambda>payload.
     and_then (qualified_rewards be 0 (records_of RELIC_RECORD_BYTES payload) None) (\<lambda>rewards.
     and_then (relic_reader (account_ids be pointer payload (map fst rewards))) (\<lambda>accounts.
     and_then (done_with (display_order accounts (map snd rewards) account)) (\<lambda>ordered.
     and_then (relic_reader (read_at be pointer len)) (\<lambda>after.
     if after \<noteq> payload then done_with (Err (Unstable ''relic reward vector''))
     else and_then (relic_reader (read_object be rules RELIC_VECTOR 16)) (\<lambda>header'.
       done_with (if header' \<noteq> header then Err (Unstable ''relic reward vector'') else Ok ordered)))))))))"

definition read_relic_choices ::
  "'m backend \<Rightarrow> SharedObject \<Rightarrow> AccountId \<Rightarrow> ('m caches, RelicRewardChoice list, TargetError) attempt" where
  "read_relic_choices be rules account =
     and_then (relic_reader (require_vtable be rules MISSION_VTABLE)) (\<lambda>_.
     then_map (map snd) (read_stable (relic_once be (identity_get (so_object rules)) account) (Unstable ''ordered relic rewards'')))"

subsection \<open>The instructions\<close>

definition RELIC_OPEN :: Rva where "RELIC_OPEN = Rva 0x0065E370"
definition RELIC_COPY :: Rva where "RELIC_COPY = Rva 0x00E59DF0"
definition RELIC_STRING_COPY :: Rva where "RELIC_STRING_COPY = Rva 0x01330FC0"
definition RELIC_SERIALIZER :: Rva where "RELIC_SERIALIZER = Rva 0x00E83590"
definition STORE_ITEM_TYPE :: Rva where "STORE_ITEM_TYPE = Rva 0x029DB6F0"

definition relic_code :: "'m backend \<Rightarrow> Rva \<Rightarrow> u32 \<Rightarrow> usize \<Rightarrow> ('m TargetReader, u8 list, TargetError) attempt" where
  "relic_code be function offset len =
     and_then (done_with (ok_or (rva_checked_add function offset) (SourceOverflow ''reward instruction''))) (\<lambda>at. read_module be at len)"

abbreviation relic_mismatch :: "bool \<Rightarrow> string \<Rightarrow> ('s, unit, TargetError) attempt" where
  "relic_mismatch bad location \<equiv> done_with (if bad then Err (LayoutMismatch location) else Ok ())"

definition validate_relic_vector :: "'m backend \<Rightarrow> ('m TargetReader, unit, TargetError) attempt" where
  "validate_relic_vector be =
     and_then (relic_code be RELIC_OPEN 0x57 15) (\<lambda>code.
     if code \<noteq> [0x40, 0x38, 0x68, 0x50, 0x75, 0x0E, 0x48, 0x83, 0xC0, 0x70, 0x48, 0x3B, 0xC2, 0x75, 0xF1]
     then done_with (Err (LayoutMismatch ''reward entry loop and vector''))
     else and_then (relic_code be RELIC_OPEN 0xAC 7) (\<lambda>code.
       relic_mismatch (code \<noteq> [0x48, 0x8D, 0x83, 0xB0, 0x18, 0, 0]) ''reward entry loop and vector''))"

definition validate_relic_first_copy :: "'m backend \<Rightarrow> ('m TargetReader, unit, TargetError) attempt" where
  "validate_relic_first_copy be =
     and_then (relic_code be RELIC_COPY 0x10 5) (\<lambda>call.
       relic_mismatch (\<not> code_matches call [(0, [0xE8])] \<or> rip_target RELIC_COPY 0x15 (drop 1 call) \<noteq> Some RELIC_STRING_COPY) ''reward first string copy'')"

definition validate_relic_string_field :: "'m backend \<Rightarrow> u32 \<times> u8 \<Rightarrow> ('m TargetReader, unit, TargetError) attempt" where
  "validate_relic_string_field be = (\<lambda>(offset, field).
     and_then (relic_code be RELIC_COPY offset 13) (\<lambda>code.
       relic_mismatch
         (\<not> code_matches code [(0, [0x48, 0x8D, 0x53, field, 0x48, 0x8D, 0x4F, field, 0xE8])]
          \<or> rip_target RELIC_COPY (offset + 13) (drop 9 code) \<noteq> Some RELIC_STRING_COPY) ''reward string fields''))"

definition validate_relic_serializer :: "'m backend \<Rightarrow> ('m TargetReader, unit, TargetError) attempt" where
  "validate_relic_serializer be =
     and_then (relic_code be RELIC_SERIALIZER 0x110 14) (\<lambda>code.
       relic_mismatch
         (\<not> code_matches code [(0, [0x48, 0x8D, 0x4F, 0x48, 0x48, 0x8B, 0xD3, 0x4C, 0x8D, 5])]
          \<or> rip_target RELIC_SERIALIZER 0x11E (drop 10 code) \<noteq> Some STORE_ITEM_TYPE) ''reward StoreItem serializer'')"

definition validate_relic_layout :: "'m backend \<Rightarrow> ('m TargetReader, unit, TargetError) attempt" where
  "validate_relic_layout be = all_checks
     ([validate_relic_vector be, validate_relic_first_copy be]
      @ map (validate_relic_string_field be) [(0x15, 0x10), (0x22, 0x20), (0x2F, 0x30)]
      @ [and_then (relic_code be RELIC_COPY 0x4A 19) (\<lambda>code.
           relic_mismatch (code \<noteq> [0x48, 0x89, 0x4F, 0x48, 0x48, 0x8B, 0x43, 0x48, 0x48, 0x89, 0x47, 0x48, 0x0F, 0xB6, 0x43, 0x50, 0x88, 0x47, 0x50])
             ''reward item and qualification fields''),
         require_bytes be RELIC_STRING_COPY
           [0x48, 0x89, 0x5C, 0x24, 0x10, 0x48, 0x89, 0x74, 0x24, 0x18, 0x57, 0x48, 0x83, 0xEC, 0x20, 0x48, 0x8B, 0xF9, 0x48, 0x8B,
            0xF2, 0x48, 0x0F, 0xBE, 0x4A, 0x0F, 0x80, 0xF9, 0xFF] ''reward native string representation'',
         validate_relic_serializer be])"

subsection \<open>The order of the picker\<close>

lemma strictly_ordered:
  fixes f :: "'a \<Rightarrow> 'b::linorder"
  assumes "sorted_wrt (\<lambda>a b. f a \<le> f b) xs" and "distinct (map f xs)"
  shows "sorted_wrt (\<lambda>a b. f a < f b) xs"
  using assms by (induction xs) (auto simp: order.strict_iff_order)

lemma display_order_Ok:
  assumes "display_order accounts choices me = Ok ordered"
  shows "mset ordered = mset (zip accounts choices)" and "distinct (map fst ordered)" and "length ordered = length choices"
    and "ordered \<noteq> [] \<Longrightarrow> fst (hd ordered) = me" and "sorted_wrt (\<lambda>a b. account_text (fst a) < account_text (fst b)) (tl ordered)"
proof -
  let ?key = "\<lambda>(id, _). (id \<noteq> me, account_text id)"
  have o: "length accounts = length choices" "choices \<noteq> [] \<Longrightarrow> length (filter (\<lambda>id. id = me) accounts) = 1" "distinct accounts"
      "ordered = sort_key ?key (zip accounts choices)"
    using assms by (auto simp: display_order_def split: if_splits)
  show mset: "mset ordered = mset (zip accounts choices)" and len: "length ordered = length choices" by (simp_all add: o(1,4))
  have "mset (map fst ordered) = mset accounts" using arg_cong [OF mset, of "image_mset fst"] o(1) by (simp flip: mset_map)
  then show dist: "distinct (map fst ordered)" using o(3) by (metis mset_eq_imp_distinct_iff)
  have sorted: "sorted (map ?key ordered)" by (simp add: o(4))
  have me_in: "me \<in> fst ` set ordered" if "ordered \<noteq> []"
  proof -
    have "choices \<noteq> []" using that len by auto
    then have "filter (\<lambda>id. id = me) accounts \<noteq> []" using o(2) by auto
    then have "me \<in> set accounts" by (auto simp: filter_empty_conv)
    then show ?thesis using \<open>mset (map fst ordered) = mset accounts\<close> by (metis list.set_map mset_eq_setD)
  qed
  have first: "fst (hd ordered) = me" and rest: "sorted_wrt (\<lambda>a b. account_text (fst a) < account_text (fst b)) (tl ordered)" if "ordered \<noteq> []"
  proof -
    obtain x xs where xs: "ordered = x # xs" using \<open>ordered \<noteq> []\<close> by (cases ordered) auto
    show head: "fst (hd ordered) = me"
    proof (rule ccontr)
      assume "fst (hd ordered) \<noteq> me"
      moreover obtain y where y: "y \<in> set xs" "fst y = me" using me_in [OF \<open>ordered \<noteq> []\<close>] calculation by (auto simp: xs)
      then have "?key x \<le> ?key y" using sorted by (auto simp: xs)
      ultimately show False using y(2) by (auto simp: xs less_eq_prod_def split: prod.splits)
    qed
    have absent: "fst x \<notin> fst ` set xs" and "fst x = me" using dist head by (auto simp: xs)
    have others: "fst y \<noteq> me" if "y \<in> set xs" for y
    proof
      assume "fst y = me"
      then have "fst x \<in> fst ` set xs" using imageI [OF that, of fst] \<open>fst x = me\<close> by simp
      with absent show False by contradiction
    qed
    have keys: "sorted_wrt (\<lambda>a b. ?key a \<le> ?key b) xs" using sorted by (simp add: xs sorted_map)
    have ascending: "sorted_wrt (\<lambda>a b. account_text (fst a) \<le> account_text (fst b)) xs"
    proof (rule sorted_wrt_mono_rel [OF _ keys])
      fix a b assume "a \<in> set xs" "b \<in> set xs" "?key a \<le> ?key b"
      then show "account_text (fst a) \<le> account_text (fst b)"
        using others [of a] others [of b] by (auto simp: less_eq_prod_def split: prod.splits)
    qed
    have "distinct (map account_text (map fst xs))"
      unfolding distinct_map [of account_text] using dist by (auto simp: xs intro: inj_onI AccountId.expand)
    then show "sorted_wrt (\<lambda>a b. account_text (fst a) < account_text (fst b)) (tl ordered)"
      using strictly_ordered [OF ascending] by (simp add: xs comp_def)
  qed
  show "ordered \<noteq> [] \<Longrightarrow> fst (hd ordered) = me" by (rule first)
  show "sorted_wrt (\<lambda>a b. account_text (fst a) < account_text (fst b)) (tl ordered)" using rest by (cases "ordered = []") auto
qed

lemma records_of_length_eq: "length (records_of stride xs) = length xs div stride"
proof -
  have "length (chunks_exact stride n ys) = n" for n and ys :: "'a list" by (induction stride n ys rule: chunks_exact.induct) auto
  then show ?thesis by (simp add: records_of_def)
qed

lemma qualified_rewards_Ok:
  "qualified_rewards be index records pool s = (s', Ok rewards) \<Longrightarrow> item_cache_inv (snd s) \<Longrightarrow>
     length rewards \<le> length records \<and> list_all (\<lambda>(_, choice). item_key_wf (choice_item choice)) rewards"
proof (induction records arbitrary: index pool s rewards)
  case (Cons bytes rest)
  then obtain reward where reward: "reward_type bytes = Ok reward" by (auto simp: and_then_Ok done_with_def)
  show ?case
  proof (cases reward)
    case None
    then show ?thesis using Cons.IH [OF _ Cons.prems(2)] Cons.prems(1) reward by (fastforce simp: and_then_Ok done_with_def)
  next
    case (Some item_type)
    obtain s1 key pool' rewards' where step: "resolve_item_path be ITEM_TYPES item_type pool s = (s1, Ok (key, pool'))"
        "qualified_rewards be (index + 1) rest pool' s1 = (s', Ok rewards')" "rewards = (index, RelicRewardChoice key) # rewards'"
      using Cons.prems(1) reward Some by (auto simp: and_then_Ok done_with_def)
    note key = resolve_item_path_wf [of be ITEM_TYPES item_type pool "fst s" "snd s" "fst s1" "snd s1"]
    have "item_cache_inv (snd s1)" "item_key_wf key" using key step(1) Cons.prems(2) by auto
    then show ?thesis using Cons.IH [OF step(2)] step(3) by auto
  qed
qed (simp add: done_with_def)

text \<open>
  C35: The picker is read in the order the game shows it: at most four rewards, one of each account, the local
  player's first and the others by account, each with a well-formed path - whatever order the vector keeps them in.
\<close>

theorem relic_order:
  assumes "relic_once be rules account (s, items) = (s', Ok ordered)" and "item_cache_inv items"
  shows "length ordered \<le> 4 \<and> distinct (map fst ordered) \<and> (ordered \<noteq> [] \<longrightarrow> fst (hd ordered) = account)
    \<and> sorted_wrt (\<lambda>a b. account_text (fst a) < account_text (fst b)) (tl ordered)
    \<and> list_all (\<lambda>(_, choice). item_key_wf (choice_item choice)) ordered"
proof (intro conjI impI)
  obtain header pointer len payload rewards accounts s1 s2 where step: "vector_bounds header = Ok (pointer, len)"
      "length payload = len" "qualified_rewards be 0 (records_of RELIC_RECORD_BYTES payload) None s1 = (s2, Ok rewards)" "snd s1 = items"
      "display_order accounts (map snd rewards) account = Ok ordered"
    using assms(1) by (auto simp: relic_once_def relic_reader_def and_then_Ok done_with_def dest!: read_at_length split: if_splits)
  note order = display_order_Ok [OF step(5)]
  have wf: "length rewards \<le> length (records_of RELIC_RECORD_BYTES payload)" "list_all (\<lambda>(_, choice). item_key_wf (choice_item choice)) rewards"
    using qualified_rewards_Ok [OF step(3)] step(4) assms(2) by auto
  have "length (records_of RELIC_RECORD_BYTES payload) \<le> 4"
    using step(1,2) by (auto simp: vector_bounds_def Let_def records_of_length_eq MAX_CHOICES_def RELIC_RECORD_BYTES_def split: if_splits)
  then show "length ordered \<le> 4" using order(3) wf(1) by simp
  show "distinct (map fst ordered)" "ordered \<noteq> [] \<Longrightarrow> fst (hd ordered) = account"
    "sorted_wrt (\<lambda>a b. account_text (fst a) < account_text (fst b)) (tl ordered)" using order by auto
  have "set ordered = set (zip accounts (map snd rewards))" using order(1) by (metis set_mset_mset)
  then show "list_all (\<lambda>(_, choice). item_key_wf (choice_item choice)) ordered"
    using wf by (fastforce simp: list_all_iff dest: set_zip_rightD)
qed

end
