(* ===== verification/Chat_Validation.thy ===== *)
theory Chat_Validation
  imports Intrinsics_Topic Static_Memory
begin

section \<open>Chat instructions\<close>

text \<open>
  \<open>provider/src/topics/chat/validation.rs\<close>: how the game inserts a message, which entry of an entry and a channel it
  writes, and how it builds the key of a private channel, compared with the code of the executable.
\<close>

definition chat_displacement :: "u32 \<Rightarrow> (u8, TargetError) result" where
  "chat_displacement w = (if w \<le> 127 then Ok (ucast w) else Err (LayoutMismatch ''chat instruction displacement''))"

abbreviation chat_mismatch :: "string \<Rightarrow> ('s, 'a, TargetError) attempt" where
  "chat_mismatch location \<equiv> done_with (Err (LayoutMismatch location))"

text \<open>The registration of the history; the retention is read only once the rest agrees.\<close>

definition validate_chat_history :: "'m backend \<Rightarrow> u8 \<Rightarrow> ('m TargetReader, unit, TargetError) attempt" where
  "validate_chat_history be retention =
     and_then (read_module be (cf_insert_call CHAT_FACTS) 5) (\<lambda>call.
     and_then (read_module be (cf_channels_reference CHAT_FACTS) 7) (\<lambda>vector.
     if \<not> code_matches call [(0, [0xE8])] \<or> rip_target (cf_insert_call CHAT_FACTS) 5 (drop 1 call) \<noteq> Some (cf_insert CHAT_FACTS)
        \<or> \<not> code_matches vector [(0, [0x4C, 0x8D, 0xAE]), (3, to_le (offset_get (cf_channels CHAT_FACTS)))]
     then chat_mismatch ''chat history registration''
     else and_then (read_module be (cf_retention_check CHAT_FACTS) 4) (\<lambda>check.
       done_with (if check \<noteq> [0x48, 0x83, 0xF8, retention] then Err (LayoutMismatch ''chat history registration'') else Ok ()))))"

definition chat_string_field :: "u8 list \<Rightarrow> usize \<times> ObjectOffset \<Rightarrow> (unit, TargetError) result" where
  "chat_string_field entry = (\<lambda>(index, offset).
     if offset_get offset < offset_get (cf_sender CHAT_FACTS) then Err (LayoutMismatch ''chat entry strings'')
     else rbind (chat_displacement (offset_get offset - offset_get (cf_sender CHAT_FACTS))) (\<lambda>relative.
       if \<not> code_matches entry [(index, [0x48, 0x8D, 0x4E, relative])] then Err (LayoutMismatch ''chat entry strings'') else Ok ()))"

text \<open>A call at an index of a window, against its target.\<close>

definition chat_call :: "u8 list \<Rightarrow> Rva \<Rightarrow> string \<Rightarrow> string \<Rightarrow> u8 \<times> Rva \<Rightarrow> (unit, TargetError) result" where
  "chat_call code start overflow location = (\<lambda>(index, target).
     rbind (ok_or (rva_checked_add start (ucast index)) (LayoutMismatch overflow)) (\<lambda>call.
       if \<not> code_matches code [(unat index, [0xE8])] \<or> rip_target call 5 (take 4 (drop (unat index + 1) code)) \<noteq> Some target
       then Err (LayoutMismatch location) else Ok ()))"

fun all_results :: "(unit, 'e) result list \<Rightarrow> (unit, 'e) result" where
  "all_results [] = Ok ()"
| "all_results (x # xs) = rbind x (\<lambda>_. all_results xs)"

definition chat_entry_code :: "u8 list \<Rightarrow> (unit, TargetError) result" where
  "chat_entry_code entry =
     rbind (chat_displacement (offset_get (cf_sender CHAT_FACTS))) (\<lambda>sender.
     if \<not> code_matches entry [(0, [0x48, 0x8D, 0x73, sender]), (14, [0x48, 0x8B, 0xCE])] then Err (LayoutMismatch ''chat entry strings'')
     else all_results
       (map (chat_string_field entry) [(27, cf_text CHAT_FACTS), (41, cf_timestamp CHAT_FACTS)]
        @ map (\<lambda>index. chat_call entry (cf_entry_fields CHAT_FACTS) ''chat string copy'' ''chat entry strings'' (index, cf_string_copy CHAT_FACTS))
            [17, 31, 45]
        @ [if offset_get (cf_role CHAT_FACTS) < offset_get (cf_sender CHAT_FACTS) then Err (LayoutMismatch ''chat entry role'')
           else rbind (chat_displacement (offset_get (cf_role CHAT_FACTS) - offset_get (cf_sender CHAT_FACTS))) (\<lambda>role.
             if drop 56 entry \<noteq> [0x89, 0x46, role] then Err (LayoutMismatch ''chat entry role'') else Ok ())]))"

definition validate_chat_entry :: "'m backend \<Rightarrow> ('m TargetReader, unit, TargetError) attempt" where
  "validate_chat_entry be = and_then (read_module be (cf_entry_fields CHAT_FACTS) 59) (\<lambda>entry. done_with (chat_entry_code entry))"

definition validate_chat_channel :: "'m backend \<Rightarrow> ('m TargetReader, unit, TargetError) attempt" where
  "validate_chat_channel be =
     and_then (read_module be (cf_channel_name_reference CHAT_FACTS) 9) (\<lambda>name.
     and_then (done_with (chat_displacement (offset_get (cf_channel_name CHAT_FACTS)))) (\<lambda>name_offset.
     if name \<noteq> [0x48, 0x0F, 0xBE, 0x47, 0x27, 0x48, 0x8D, 0x5F, name_offset] then chat_mismatch ''chat channel entry''
     else and_then (read_module be (cf_channel_entries_reference CHAT_FACTS) 4) (\<lambda>entries.
       and_then (done_with (chat_displacement (offset_get (cf_channel_entries CHAT_FACTS)))) (\<lambda>entries_offset.
       done_with (if entries \<noteq> [0x48, 0x83, 0xC7, entries_offset] then Err (LayoutMismatch ''chat channel entry'') else Ok ())))))"

definition validate_public_prefix :: "'m backend \<Rightarrow> ('m TargetReader, unit, TargetError) attempt" where
  "validate_public_prefix be =
     and_then (read_module be (cf_public_prefix_reference CHAT_FACTS) 7) (\<lambda>public.
     and_then (done_with (ok_or (rip_target (cf_public_prefix_reference CHAT_FACTS) 7 (drop 3 public)) (LayoutMismatch ''chat public prefix''))) (\<lambda>prefix.
     if \<not> code_matches public [(0, [0x48, 0x8D, 0x15])] then chat_mismatch ''chat public prefix''
     else and_then (read_module be prefix 2) (\<lambda>text.
       done_with (if text \<noteq> ascii_bytes ''#'' @ [0] then Err (LayoutMismatch ''chat public prefix'') else Ok ()))))"

definition validate_private_key :: "'m backend \<Rightarrow> ('m TargetReader, unit, TargetError) attempt" where
  "validate_private_key be =
     and_then (read_module be (cf_private_key_reference CHAT_FACTS) 36) (\<lambda>code.
     and_then (done_with (ok_or (rip_target (cf_private_key_reference CHAT_FACTS) 12 (take 4 (drop 8 code))) (LayoutMismatch ''chat private separator''))) (\<lambda>separator.
     if \<not> code_matches code [(0, [0x48, 0x8B, 0x54, 0x24, 0x28, 0x4C, 0x8D, 0x05])] then chat_mismatch ''chat private participants''
     else and_then (read_module be separator 2) (\<lambda>text.
       if text \<noteq> ascii_bytes '','' @ [0]
          \<or> \<not> code_matches code [(12, [0x48, 0x8D, 0x4D, 0xC0]), (21, [0x48, 0x8B, 0xD0, 0x48, 0x8D, 0x4D, 0xD0, 0x4D, 0x8B, 0xC7])]
       then chat_mismatch ''chat private participants''
       else done_with (all_results (map (chat_call code (cf_private_key_reference CHAT_FACTS) ''chat private append'' ''chat private append'')
         [(16, cf_append_separator CHAT_FACTS), (31, cf_append_recipient CHAT_FACTS)])))))"

definition validate_chat_layout :: "'m backend \<Rightarrow> u64 \<Rightarrow> u32 \<Rightarrow> ('m, unit, TargetError) attempt" where
  "validate_chat_layout be = with_target_reader
     (if 255 < MAX_ENTRIES then chat_mismatch ''chat retention''
      else all_checks
        [validate_chat_history be (of_nat MAX_ENTRIES), validate_chat_entry be, validate_chat_channel be,
         validate_public_prefix be, validate_private_key be])"

subsection \<open>What an accepted executable says\<close>

lemma all_results_Ok: "all_results xs = Ok () \<longleftrightarrow> (\<forall>x \<in> set xs. x = Ok ())"
  by (induction xs) auto

lemma chat_call_Ok: "chat_call code start overflow location (index, target) = Ok () \<Longrightarrow>
    \<exists>call. rva_checked_add start (ucast index) = Some call \<and> rip_target call 5 (take 4 (drop (unat index + 1) code)) = Some target"
  by (auto simp: chat_call_def ok_or_def split: if_splits option.splits)

text \<open>
  The windows of an entry fix each field of the facts: whatever executable is accepted, the displacements in its
  instructions are the offsets the reader uses, relative to the sender.
\<close>

lemma chat_entry_code_fixes_offsets:
  assumes "chat_entry_code entry = Ok ()"
  shows "entry ! 3 = ucast (offset_get (cf_sender CHAT_FACTS)) \<and> entry ! 30 = ucast (offset_get (cf_text CHAT_FACTS) - offset_get (cf_sender CHAT_FACTS))
    \<and> entry ! 44 = ucast (offset_get (cf_timestamp CHAT_FACTS) - offset_get (cf_sender CHAT_FACTS))
    \<and> entry ! 58 = ucast (offset_get (cf_role CHAT_FACTS) - offset_get (cf_sender CHAT_FACTS))"
proof -
  have at: "entry ! (i + k) = bs ! k" if "code_matches entry [(i, bs)]" "k < length bs" for i k bs
  proof -
    have bs: "take (length bs) (drop i entry) = bs" using that(1) by (simp add: code_matches_def bytes_at_def)
    then have "bs ! k = take (length bs) (drop i entry) ! k" by simp
    also have "\<dots> = drop i entry ! k" using that(2) by simp
    also have "\<dots> = entry ! (i + k)"
    proof (rule nth_drop)
      have "length (take (length bs) (drop i entry)) = length bs" using bs by simp
      then show "i \<le> length entry" using that(2) by (cases "i \<le> length entry") auto
    qed
    finally show ?thesis by simp
  qed
  have disp: "chat_displacement w = Ok d \<Longrightarrow> d = ucast w" for w d by (auto simp: chat_displacement_def split: if_splits)
  have "code_matches entry [(0, [0x48, 0x8D, 0x73, 0x18])]" "code_matches entry [(27, [0x48, 0x8D, 0x4E, 0x10])]"
      "code_matches entry [(41, [0x48, 0x8D, 0x4E, 0x20])]" "drop 56 entry = [0x89, 0x46, 0x30]"
    using assms
    by (auto simp: chat_entry_code_def all_results_Ok chat_string_field_def chat_displacement_def CHAT_FACTS_def code_matches_def split: if_splits)
  then show ?thesis
    using at [of 0 "[0x48, 0x8D, 0x73, 0x18]" 3] at [of 27 "[0x48, 0x8D, 0x4E, 0x10]" 3] at [of 41 "[0x48, 0x8D, 0x4E, 0x20]" 3]
      nth_drop [of 56 entry 2]
    by (cases "56 \<le> length entry") (simp_all add: CHAT_FACTS_def)
qed

end
