(* ===== verification/Account_Demo.thy ===== *)
theory Account_Demo
  imports Player_Topic Static_Memory
begin

section \<open>A process with a logged-in account\<close>

text \<open>
  A concrete memory: the manager at \<open>0x2000\<close>, one profile at \<open>0x5000\<close> and its account identifier at
  \<open>0x6000\<close>, which is the first of two accounts if the state is \<open>True\<close>. The code the layouts are checked
  against is there too.
\<close>

definition account_digits :: "bool \<Rightarrow> u8 list" where
  "account_digits first = replicate 24 (if first then 97 else 98)"

definition account_text_of :: "bool \<Rightarrow> string" where
  "account_text_of first = replicate 24 (if first then CHR ''a'' else CHR ''b'')"

definition account_memory :: "(u64 \<times> u8 list) list" where
  "account_memory =
     [(0x14278A2D0, to_le (0x1000 :: u64)), (0x1000, to_le (0x2000 :: u64)), (0x2000, to_le (0x1421185F0 :: u64)),
      (0x1421186A8, to_le (0x140A52EC0 :: u64)), (0x142118738, to_le (0x1413FDF80 :: u64)), (0x2168, to_le (4 :: u32)),
      (0x2230, to_le (0x3000 :: u64)), (0x2238, to_le (8 :: u32)), (0x223C, to_le (8 :: u32)), (0x3000, to_le (0x4000 :: u64)),
      (0x4000, to_le (0x5000 :: u64)), (0x51D8, to_le (0 :: u64)), (0x51E1, [1]), (0x5000, to_le (0x14211DDC8 :: u64)),
      (0x14211DDE0, to_le (0x14119F7A0 :: u64)), (0x14211DDF0, to_le (0x1402C1760 :: u64)),
      (0x5118, to_le (0x6000 :: u64) @ [24, 0, 0, 0, 0, 0, 0, 0xFF]),
      (0x14211DDD0, to_le (0x141460580 :: u64)), (0x5050, inline_string [65, 110, 110])]"

definition account_code :: "(u64 \<times> u8 list) list" where
  "account_code =
     [(0x141243DD0, [0x48, 0x8B, 0x05] @ to_le (0x015464F9 :: u32) @ [0x48, 0x8B, 0x00, 0xC3]),
      (0x14119F7A0, [0x48, 0x8B, 0x81] @ to_le (0x1D8 :: u32) @ [0xC3]), (0x1402C1760, [0x48, 0x8D, 0x81] @ to_le (0x118 :: u32) @ [0xC3]),
      (0x140A52EC0, replicate 15 0 @ [0x48, 0x8B, 0x99] @ to_le (0x230 :: u32) @ replicate 3 0 @ [0x8B, 0x81] @ to_le (0x238 :: u32)),
      (0x1413FDF80, [0x83, 0xB9] @ to_le (0x168 :: u32) @ [0x04, 0x0F, 0x94, 0xC0, 0xC3]),
      (0x141460580, player_getter_code 0x40 0x50)]"

text \<open>The headers of the executable.\<close>

definition demo_dos :: "u8 list" where
  "demo_dos = [0x4D, 0x5A] @ replicate 58 0 @ to_le (64 :: u32)"

definition demo_pe :: "u8 list" where
  "demo_pe =
     [0x50, 0x45, 0, 0] @ to_le (0x8664 :: u16) @ replicate 14 0 @ to_le (240 :: u16) @ replicate 2 0 @ to_le (0x20B :: u16)
       @ replicate 54 0 @ to_le (0x02CD8000 :: u32)"

definition account_headers :: "(u64 \<times> u8 list) list" where
  "account_headers = [(0x140000000, demo_dos), (0x140000040, demo_pe)]"

definition account_bytes :: "bool \<Rightarrow> u64 \<Rightarrow> u8 list" where
  "account_bytes first address =
     (if address = 0x6000 then account_digits first
      else case map_of (account_memory @ account_code @ account_headers) address of Some bs \<Rightarrow> bs | None \<Rightarrow> [])"

abbreviation account_backend :: "bool backend" where
  "account_backend \<equiv> static_backend account_bytes"

lemma account_contents [simp]:
  "account_bytes m 0x14278A2D0 = to_le (0x1000 :: u64)" "account_bytes m 0x1000 = to_le (0x2000 :: u64)"
  "account_bytes m 0x2000 = to_le (0x1421185F0 :: u64)" "account_bytes m 0x1421186A8 = to_le (0x140A52EC0 :: u64)"
  "account_bytes m 0x142118738 = to_le (0x1413FDF80 :: u64)" "account_bytes m 0x2168 = to_le (4 :: u32)"
  "account_bytes m 0x2230 = to_le (0x3000 :: u64)" "account_bytes m 0x2238 = to_le (8 :: u32)" "account_bytes m 0x223C = to_le (8 :: u32)"
  "account_bytes m 0x3000 = to_le (0x4000 :: u64)" "account_bytes m 0x4000 = to_le (0x5000 :: u64)"
  "account_bytes m 0x51D8 = to_le (0 :: u64)" "account_bytes m 0x51E1 = [1]" "account_bytes m 0x5000 = to_le (0x14211DDC8 :: u64)"
  "account_bytes m 0x14211DDE0 = to_le (0x14119F7A0 :: u64)" "account_bytes m 0x14211DDF0 = to_le (0x1402C1760 :: u64)"
  "account_bytes m 0x5118 = to_le (0x6000 :: u64) @ [24, 0, 0, 0, 0, 0, 0, 0xFF]" "account_bytes m 0x6000 = account_digits m"
  "account_bytes m 0x14211DDD0 = to_le (0x141460580 :: u64)" "account_bytes m 0x5050 = inline_string [65, 110, 110]"
  by (simp_all add: account_bytes_def account_memory_def)

definition demo_account :: "bool \<Rightarrow> AccountIdentity" where
  "demo_account first =
     \<lparr>ai_account_id = AccountId (account_text_of first), ai_manager_control = ObjectIdentity 0x1000, ai_manager = ObjectIdentity 0x2000,
      ai_profile_control = ObjectIdentity 0x4000, ai_profile = ObjectIdentity 0x5000\<rparr>"

lemmas account_reads =
  read_object_u64_def read_object_u32_def read_object_u8_def read_object_def read_u64_def read_u32_def then_map_def and_then_def done_with_def
  reading_def of_reader_def static_object static_read_at static_fill from_to_le static_pointer static_module

lemma one_byte: "from_le [x] = (x :: u8)"
  by (simp add: from_le_def)

lemma manager_slots:
  "16 \<le> b \<Longrightarrow> 2 \<le> n \<Longrightarrow> require_vtable_slot_le64 account_backend 0x2000 (VtableSlot 0xB8) (Rva 0x00A52EC0) at (static_reader m b n) =
     (static_reader m (b - 16) (n - 2), Ok ())"
  "16 \<le> b \<Longrightarrow> 2 \<le> n \<Longrightarrow> require_vtable_slot_le64 account_backend 0x2000 (VtableSlot 0x148) (Rva 0x013FDF80) at (static_reader m b n) =
     (static_reader m (b - 16) (n - 2), Ok ())"
  by (simp_all add: static_slot [where vtable = "0x1421185F0"])

lemma profile_slots:
  "16 \<le> b \<Longrightarrow> 2 \<le> n \<Longrightarrow> require_vtable_slot_le64 account_backend 0x5000 (VtableSlot 0x18) (Rva 0x0119F7A0) at (static_reader m b n) =
     (static_reader m (b - 16) (n - 2), Ok ())"
  "16 \<le> b \<Longrightarrow> 2 \<le> n \<Longrightarrow> require_vtable_slot_le64 account_backend 0x5000 (VtableSlot 0x28) (Rva 0x002C1760) at (static_reader m b n) =
     (static_reader m (b - 16) (n - 2), Ok ())"
  "16 \<le> b \<Longrightarrow> 2 \<le> n \<Longrightarrow> require_vtable_slot_le64 account_backend 0x5000 (VtableSlot 8) (Rva 0x01460580) at (static_reader m b n) =
     (static_reader m (b - 16) (n - 2), Ok ())"
  by (simp_all add: static_slot [where vtable = "0x14211DDC8"])

lemma demo_profile_vector:
  assumes "24 \<le> b" and "4 \<le> n"
  shows "read_profile_vector account_backend 0x2000 MANAGER_FACTS (static_reader m b n) = (static_reader m (b - 24) (n - 4), Ok (to_le (0x4000 :: u64)))"
proof -
  obtain c d where bn: "b = 24 + c" "n = 4 + d" using le_Suc_ex [OF assms(1)] le_Suc_ex [OF assms(2)] by blast
  show ?thesis
    unfolding bn
    by (simp add: read_profile_vector_def MANAGER_FACTS_def account_reads PROFILE_VECTOR_BYTES_def object_identity_def identity_from_address_def
        object_identity_new_def ok_or_def)
qed

lemma demo_active:
  assumes "57 \<le> b" and "8 \<le> n"
  shows "active_profile account_backend PROFILE_FACTS 0x4000 (static_reader m b n) =
    (static_reader m (b - 57) (n - 8), Ok (Some (ObjectIdentity 0x4000, ObjectIdentity 0x5000)))"
proof -
  obtain c d where bn: "b = 57 + c" "n = 8 + d" using le_Suc_ex [OF assms(1)] le_Suc_ex [OF assms(2)] by blast
  show ?thesis
    unfolding bn
    by (simp add: active_profile_def PROFILE_FACTS_def account_reads profile_slots object_identity_def identity_from_address_def
        object_identity_new_def ok_or_def one_byte)
qed


lemma demo_header: "decode_account_string_header (to_le (0x6000 :: u64) @ [24, 0, 0, 0, 0, 0, 0, 0xFF]) = Ok 0x6000"
proof -
  have len: "length (to_le (0x6000 :: u64)) = 8" by simp
  have number: "(from_le [24, 0, 0, 0] :: u32) = 24" by (simp add: from_le_def)
  show ?thesis
    using from_to_le [of "0x6000 :: u64"] by (simp add: decode_account_string_header_def nth_append number)
qed

lemma ascii_utf8: "(\<And>b. b \<in> set bs \<Longrightarrow> byte_in 0 0x7F b) \<Longrightarrow> valid_utf8 bs"
  by (induction bs) simp_all

lemma demo_identifier: "decode_account_id (account_digits m) = Ok (AccountId (account_text_of m))"
proof -
  have "map (\<lambda>c. of_nat (of_char c)) (account_text_of m) = account_digits m" by (simp add: account_text_of_def account_digits_def)
  then have "string_of_bytes (account_digits m) = account_text_of m" using string_of_ascii [of "account_text_of m"] by simp
  moreover have "valid_utf8 (account_digits m)" unfolding account_digits_def by (rule ascii_utf8) (auto simp: byte_in_def)
  moreover have "list_all lowercase_hex (account_text_of m)" by (simp add: account_text_of_def lowercase_hex_def ascii_digit_def list_all_iff less_eq_char_def)
  ultimately show ?thesis by (simp add: decode_account_id_def account_id_new_def) (simp add: account_text_of_def)
qed

lemma demo_account_id:
  assumes "56 \<le> b" and "3 \<le> n"
  shows "read_account_id account_backend 0x5000 (ObjectOffset 0x118) (static_reader m b n) =
    (static_reader m (b - 56) (n - 3), Ok (AccountId (account_text_of m)))"
proof -
  obtain c d where bn: "b = 56 + c" "n = 3 + d" using le_Suc_ex [OF assms(1)] le_Suc_ex [OF assms(2)] by blast
  have "fill 24 (account_digits m) = account_digits m" by (rule static_fill) (simp add: account_digits_def)
  then show ?thesis
    unfolding bn
    by (simp add: read_account_id_def account_reads demo_header demo_identifier object_identity_def identity_from_address_def
        object_identity_new_def ok_or_def)
qed

lemma to_le_nonempty: "to_le (v :: u64) \<noteq> []"
  using length_to_le [of v] by (cases "to_le v") simp_all

lemma demo_resolve_once:
  assumes "197 \<le> b" and "23 \<le> n"
  shows "resolve_once account_backend ACCOUNT_FACTS (static_reader m b n) = (static_reader m (b - 197) (n - 23), Ok (Present (demo_account m)))"
proof -
  obtain c d where bn: "b = 197 + c" "n = 23 + d" using le_Suc_ex [OF assms(1)] le_Suc_ex [OF assms(2)] by blast
  have chunks: "chunks8 (to_le (0x4000 :: u64)) = [to_le (0x4000 :: u64)]"
    by (simp add: chunks8.simps)
  have profile: "resolve_profile account_backend ACCOUNT_FACTS (ObjectIdentity 0x1000) (ObjectIdentity 0x2000) (static_reader m (137 + c) (15 + d)) =
      (static_reader m c d, Ok (Present (demo_account m)))"
    by (simp add: resolve_profile_def ACCOUNT_FACTS_def demo_profile_vector to_le_nonempty and_then_def select_profile_def chunks demo_active from_to_le
        done_with_def ok_or_def demo_account_def) (simp add: PROFILE_FACTS_def demo_account_id)
  show ?thesis
    unfolding bn
    apply (simp add: resolve_once_def ACCOUNT_FACTS_def MANAGER_FACTS_def account_reads read_control_target_def object_identity_def
        identity_from_address_def object_identity_new_def ok_or_def manager_slots LOGGED_IN_MANAGER_STATE_def)
    using profile by (simp add: ACCOUNT_FACTS_def MANAGER_FACTS_def)
qed

lemma demo_resolve_account:
  "resolve_account account_backend 0x140000000 0x02CD8000 m = (m, Ok (Present (demo_account m)))"
  by (simp add: resolve_account_def with_reader_def static_new read_stable_def and_then_def demo_resolve_once done_with_def)
    (simp add: static_reader_def)

theorem resolve_account_wf_witness: "account_wf (demo_account True)"
  by (rule resolve_account_wf [OF demo_resolve_account])


subsection \<open>Its player and its code\<close>

lemma account_code_contents:
  "account_bytes m 0x141243DD0 = [0x48, 0x8B, 0x05] @ to_le (0x015464F9 :: u32) @ [0x48, 0x8B, 0x00, 0xC3]"
  "account_bytes m 0x14119F7A0 = [0x48, 0x8B, 0x81] @ to_le (0x1D8 :: u32) @ [0xC3]"
  "account_bytes m 0x1402C1760 = [0x48, 0x8D, 0x81] @ to_le (0x118 :: u32) @ [0xC3]"
  "account_bytes m 0x140A52EC0 = replicate 15 0 @ [0x48, 0x8B, 0x99] @ to_le (0x230 :: u32) @ replicate 3 0 @ [0x8B, 0x81] @ to_le (0x238 :: u32)"
  "account_bytes m 0x1413FDF80 = [0x83, 0xB9] @ to_le (0x168 :: u32) @ [0x04, 0x0F, 0x94, 0xC0, 0xC3]"
  "account_bytes m 0x141460580 = player_getter_code 0x40 0x50"
  by (simp_all add: account_bytes_def account_memory_def account_code_def)

lemma demo_name: "player_name ''Ann'' = ''Ann''"
  by (simp add: player_name_def chars.simps continuation_def private_use_def)

lemma demo_username:
  assumes "64 \<le> b" and "4 \<le> n"
  shows "read_username account_backend 0x5000 (static_reader m b n) = (static_reader m (b - 64) (n - 4), Ok (PlayerName ''Ann''))"
proof -
  have "string_of_bytes [65, 110, 110] = ''Ann''" using string_of_ascii [of "''Ann''"] by simp
  then show ?thesis
    using assms
    by (simp add: read_username_def and_then_def done_with_def PLAYER_FACTS_def static_string [where bs = "[65, 110, 110]"] byte_in_def
        demo_name player_name_new_def)
qed

definition demo_player :: "bool \<Rightarrow> PlayerSnapshot" where
  "demo_player first = \<lparr>ps_account_id = AccountId (account_text_of first), ps_username = PlayerName ''Ann''\<rparr>"

lemma demo_read_player:
  "read_player account_backend 0x140000000 0x02CD8000 (demo_account m) m = (m, Ok (demo_player m))"
  by (simp add: read_player_def with_target_reader_def static_new Let_def demo_account_def PLAYER_FACTS_def and_then_def profile_slots
      read_stable_def demo_username done_with_def demo_player_def) (simp add: static_reader_def)

lemma demo_player_layout: "validate_player_layout account_backend 0x140000000 0x02CD8000 m = (m, Ok ())"
proof -
  have code: "fill 64 (account_bytes m 0x141460580) = player_getter_code 0x40 0x50"
    unfolding account_code_contents by (rule static_fill) (simp add: player_getter_code_def Let_def)
  have "checked_add (0x50 :: u8) 15 = Some 0x5F" by (simp add: checked_add_def)
  then show ?thesis
    by (simp add: validate_player_layout_def with_target_reader_def static_new and_then_def done_with_def PLAYER_FACTS_def u8_try_from_def
      ok_or_def static_read_module code) (simp add: static_reader_def)
qed

lemma demo_getter:
  assumes "11 \<le> b" and "1 \<le> n"
  shows "validate_manager_getter account_backend MANAGER_FACTS (static_reader m b n) = (static_reader m (b - 11) (n - 1), Ok ())"
proof -
  have "rip_target (Rva 0x01243DD0) 7 (to_le (0x015464F9 :: u32)) = Some (Rva 0x0278A2D0)"
    by (simp add: rip_target_def from_to_le checked_add_def checked_add_signed_def u32_try_from_def)
  then show ?thesis
    using assms
    by (simp add: validate_manager_getter_def MANAGER_FACTS_def and_then_def done_with_def reading_def static_read_module account_code_contents
        static_fill ok_or_def)
qed

lemma demo_functions:
  assumes "42 \<le> b" and "2 \<le> n"
  shows "validate_manager_functions account_backend MANAGER_FACTS (static_reader m b n) = (static_reader m (b - 42) (n - 2), Ok ())"
proof -
  obtain c d where bn: "b = 42 + c" "n = 2 + d" using le_Suc_ex [OF assms(1)] le_Suc_ex [OF assms(2)] by blast
  show ?thesis
    unfolding bn
    by (simp add: validate_manager_functions_def MANAGER_FACTS_def and_then_def done_with_def reading_def static_read_module
        account_code_contents static_fill)
qed

lemma demo_members:
  "8 \<le> b \<Longrightarrow> 1 \<le> n \<Longrightarrow> validate_member_getter account_backend (Rva 0x0119F7A0) 0x8B (ObjectOffset 0x1D8) at (static_reader m b n) =
     (static_reader m (b - 8) (n - 1), Ok ())"
  "8 \<le> b \<Longrightarrow> 1 \<le> n \<Longrightarrow> validate_member_getter account_backend (Rva 0x002C1760) 0x8D (ObjectOffset 0x118) at (static_reader m b n) =
     (static_reader m (b - 8) (n - 1), Ok ())"
  by (simp_all add: validate_member_getter_def and_then_def done_with_def reading_def static_read_module account_code_contents static_fill nth_append)

lemma demo_account_layout: "validate_account_layout account_backend 0x140000000 0x02CD8000 m = (m, Ok ())"
  by (simp add: validate_account_layout_def with_reader_def static_new validate_layout_def ACCOUNT_FACTS_def PROFILE_FACTS_def and_then_def
      demo_getter demo_functions demo_members) (simp add: static_reader_def)

lemma demo_pe_headers:
  "read_amd64_headers 0x140000000 account_backend m = (m, Ok \<lparr>ih_timestamp = 0, ih_image_size = 0x02CD8000\<rparr>)"
proof -
  have "dos_offset demo_dos = Some 64"
    by (simp add: dos_offset_def demo_dos_def from_to_le)
  moreover have "pe_headers 0x140000000 64 demo_pe = Some \<lparr>ih_timestamp = 0, ih_image_size = 0x02CD8000\<rparr>"
    by (simp add: pe_headers_def demo_pe_def Let_def from_to_le checked_add_def) (simp add: from_le_def eval_nat_numeral)
  moreover have "fill 64 demo_dos = demo_dos" "fill 84 demo_pe = demo_pe"
    by (rule static_fill, simp add: demo_dos_def demo_pe_def)+
  moreover have "account_bytes m 0x140000000 = demo_dos" "account_bytes m 0x140000040 = demo_pe"
    by (simp_all add: account_bytes_def account_memory_def account_code_def account_headers_def)
  ultimately show ?thesis
    by (simp add: read_amd64_headers_def and_then_def read_header_def static_backend_def done_with_def ok_or_def checked_add_def)
qed

end
