(* ===== verification/Session_Demo.thy ===== *)
theory Session_Demo
  imports Account_Switch Account_Demo
begin

section \<open>A change of account, step by step\<close>

declare account_cap.simps [simp del]

text \<open>
  Two polls of the player topic: the first finds one account, the second another one in the same
  objects. The second resets the topic before it publishes.
\<close>

type_synonym demo_value = "(AccountId, unit) Published"

definition player_manifest :: ProviderManifest where
  "player_manifest = \<lparr>pm_id = ''p'', pm_name = ''P'', pm_version = ''1'', pm_game = \<lparr>sg_id = [], sg_name = []\<rparr>, pm_capabilities = WARFRAME_CAPABILITIES\<rparr>"

definition passing :: "Executable \<Rightarrow> (bool, unit, SdkUnavailableReason) attempt" where
  "passing exe m = (m, Ok ())"

definition demo_readers :: "(unit, bool, demo_value, AccountId, unit) Readers" where
  "demo_readers =
     \<lparr>wr_backend = account_backend, wr_executable = ''Warframe.x64.exe'',
      wr_modules = (\<lambda>m. (m, Ok [\<lparr>mm_name = ''Warframe.x64.exe'', mm_path = [], mm_base = 0x140000000\<rparr>])),
      wr_inventory_owner = passing, wr_profile_commit = passing, wr_string_pool = passing, wr_item_types = passing, wr_relic_layout = passing,
      wr_topic_layout = (\<lambda>t. passing), wr_sample = (\<lambda>t exe owner s. (s, Ok (ai_account_id (pd_account owner)))),
      wr_relic_choices = (\<lambda>rules account exe s. (s, Ok [])), wr_to_value = Ok, wr_error_text = (\<lambda>e. []),
      wr_host = host_answer (\<lambda>v. Some ''v'') 64 player_manifest\<rparr>"

definition demo_exe :: Executable where
  "demo_exe = \<lparr>ex_base = 0x140000000, ex_actual = \<lparr>ef_timestamp = 0, ef_image_size = 0x02CD8000\<rparr>\<rparr>"

lemma quote_chars: "char_of (34 :: nat) = CHR 0x22" "char_of (39 :: nat) = CHR 0x27" "char_of (92 :: nat) = CHR 0x5C"
  by (simp_all add: char_of_def bit_0)

lemma demo_identify:
  "identify account_backend ''Warframe.x64.exe'' (\<lambda>m. (m, Ok [\<lparr>mm_name = ''Warframe.x64.exe'', mm_path = [], mm_base = 0x140000000\<rparr>])) m =
     (m, Ok demo_exe)"
proof -
  have "executable_basename ''Warframe.x64.exe'' = ''Warframe.x64.exe''"
    by (simp add: executable_basename_def trim_quotes_def path_separator_def Let_def quote_chars)
  moreover have "eq_ignore_ascii_case ''Warframe.x64.exe'' ''Warframe.x64.exe''" by (simp only: eq_ignore_ascii_case_def)
  ultimately have "matched_target_executable ''Warframe.x64.exe'' = Some ''Warframe.x64.exe''"
    by (simp only: matched_target_executable_def Let_def TARGET_EXECUTABLES_def find.simps if_True option.case)
  then have "target_module ''Warframe.x64.exe'' [\<lparr>mm_name = ''Warframe.x64.exe'', mm_path = [], mm_base = 0x140000000\<rparr>] =
      Some \<lparr>mm_name = ''Warframe.x64.exe'', mm_path = [], mm_base = 0x140000000\<rparr>"
    by (simp add: target_module_def)
  moreover have "read_executable_fingerprint account_backend 0x140000000 m = (m, Ok (ex_actual demo_exe))"
    by (simp add: read_executable_fingerprint_def and_then_def demo_pe_headers done_with_def checked_add_def READ_LIMITS_def demo_exe_def)
  ultimately show ?thesis by (simp add: identify_def demo_exe_def)
qed


text \<open>A session that follows the player topic only.\<close>

definition player_session ::
  "Executable CachedCheck \<Rightarrow> ExecutableFingerprint option \<Rightarrow> unit CachedCheck \<Rightarrow> unit CachedCheck \<Rightarrow> AccountIdentity option \<Rightarrow> duration \<Rightarrow> unit WarframeSession" where
  "player_session exe build account layout login at =
     (session_default ())
       \<lparr>ws_executable := exe, ws_build_name := build, ws_layouts := shared_layouts_default\<lparr>sl_account := account\<rparr>,
        ws_topics := (\<lambda>t. if t = PLAYER then \<lparr>tt_layout = layout, tt_demanded = True, tt_next_poll = at\<rparr> else topic_state_default),
        ws_login := login\<rparr>"

lemma player_session_fields [simp]:
  "ws_executable (player_session exe build account layout login at) = exe" "ws_build_name (player_session exe build account layout login at) = build"
  "ws_layouts (player_session exe build account layout login at) = shared_layouts_default\<lparr>sl_account := account\<rparr>"
  "ws_topics (player_session exe build account layout login at) t =
     (if t = PLAYER then \<lparr>tt_layout = layout, tt_demanded = True, tt_next_poll = at\<rparr> else topic_state_default)"
  "ws_login (player_session exe build account layout login at) = login" "ws_pending_chat (player_session exe build account layout login at) = None"
  "ws_profile_data (player_session exe build account layout login at) = None" "ws_visual (player_session exe build account layout login at) = visual_default"
  by (simp_all add: player_session_def session_default_def)

lemma player_session_updates [simp]:
  "(player_session exe build account layout login at)\<lparr>ws_executable := exe', ws_build_name := build'\<rparr> = player_session exe' build' account layout login at"
  "layouts_update (\<lambda>l. l\<lparr>sl_account := c\<rparr>) (player_session exe build account layout login at) = player_session exe build c layout login at"
  "topic_update PLAYER (\<lambda>u. u\<lparr>tt_layout := d\<rparr>) (player_session exe build account layout login at) = player_session exe build account d login at"
  "topic_update PLAYER (\<lambda>u. u\<lparr>tt_next_poll := at'\<rparr>) (player_session exe build account layout login at) = player_session exe build account layout login at'"
  "(player_session exe build account layout login at)\<lparr>ws_login := login'\<rparr> = player_session exe build account layout login' at"
  "clear_chat ((player_session exe build account layout login at)\<lparr>ws_profile_data := None\<rparr>) = player_session exe build account layout login at"
  by (simp_all add: player_session_def session_default_def layouts_update_def topic_update_def clear_chat_def fun_eq_iff
      cong: if_cong)

definition demo_snapshot :: "bool \<Rightarrow> demo_value sink_call" where
  "demo_snapshot first = Call_Snapshot (account_cap PLAYER) (Published_player (demo_player first))"

lemma demo_readers_simps [simp]:
  "wr_backend demo_readers = account_backend" "wr_executable demo_readers = ''Warframe.x64.exe''"
  "wr_modules demo_readers = (\<lambda>m. (m, Ok [\<lparr>mm_name = ''Warframe.x64.exe'', mm_path = [], mm_base = 0x140000000\<rparr>]))"
  "wr_to_value demo_readers = Ok" "wr_host demo_readers = host_answer (\<lambda>v. Some ''v'') 64 player_manifest"
  by (simp_all add: demo_readers_def)

lemma demo_exe_simps [simp]: "ex_base demo_exe = 0x140000000" "ef_image_size (ex_actual demo_exe) = 0x02CD8000"
  by (simp_all add: demo_exe_def)

lemma demo_ensure: "ws_executable (pl_session st) = Unchecked \<Longrightarrow> ws_build_name (pl_session st) = None \<Longrightarrow>
    ensure_executable demo_readers now st =
      (session_update (\<lambda>s. s\<lparr>ws_executable := Passed demo_exe, ws_build_name := Some (ex_actual demo_exe)\<rparr>) st, Ok demo_exe)"
  by (simp add: ensure_executable_def cached_ensure_def check_ensure_def demo_identify and_then_def modify_def session_update_def done_with_def)

lemma demo_ensure_again: "ws_executable (pl_session st) = Passed demo_exe \<Longrightarrow> ws_build_name (pl_session st) = Some build \<Longrightarrow>
    ensure_executable demo_readers now st = (st, Ok demo_exe)"
  by (cases st) (simp add: ensure_executable_def cached_ensure_def check_ensure_def and_then_def modify_def session_update_def done_with_def)

lemma demo_login: "outcome_of (on_memory (resolve_login demo_readers demo_exe)) st = (st, Ok (Ok (Present (demo_account (pl_memory st)))))"
  by (simp add: outcome_of_def on_memory_def resolve_login_def demo_resolve_account)

lemma demo_layout_account: "sl_account (ws_layouts (pl_session st)) = Unchecked \<Longrightarrow>
    layout_account demo_readers demo_exe now st = (session_update (layouts_update (\<lambda>l. l\<lparr>sl_account := Passed ()\<rparr>)) st, Ok ())"
  by (simp add: layout_account_def cached_validate_def check_validate_def check_ensure_def demo_account_layout session_update_def)

lemma demo_layout_account_again: "sl_account (ws_layouts (pl_session st)) = Passed () \<Longrightarrow> layout_account demo_readers demo_exe now st = (st, Ok ())"
  by (cases st) (simp add: layout_account_def cached_validate_def check_validate_def check_ensure_def session_update_def layouts_update_def)

lemma demo_layout_player: "tt_layout (ws_topics (pl_session st) PLAYER) = Unchecked \<Longrightarrow>
    layout_topic demo_readers demo_exe now PLAYER st = (session_update (topic_update PLAYER (\<lambda>u. u\<lparr>tt_layout := Passed ()\<rparr>)) st, Ok ())"
  by (simp add: layout_topic_def cached_validate_def check_validate_def check_ensure_def topic_check_def demo_player_layout session_update_def)

lemma demo_layout_player_again: "tt_layout (ws_topics (pl_session st) PLAYER) = Passed () \<Longrightarrow> layout_topic demo_readers demo_exe now PLAYER st = (st, Ok ())"
proof -
  assume passed: "tt_layout (ws_topics (pl_session st) PLAYER) = Passed ()"
  then have same: "(ws_topics (pl_session st) PLAYER)\<lparr>tt_layout := Passed ()\<rparr> = ws_topics (pl_session st) PLAYER"
    by (cases "ws_topics (pl_session st) PLAYER") simp
  then have "topic_update PLAYER (\<lambda>u. u\<lparr>tt_layout := Passed ()\<rparr>) (pl_session st) = pl_session st"
    unfolding topic_update_def by (simp only: same fun_upd_triv) simp
  then show ?thesis
    using passed by (simp add: layout_topic_def cached_validate_def check_validate_def check_ensure_def session_update_def)
qed

lemma demo_publish:
  "pl_calls st = calls \<Longrightarrow> host_answer (\<lambda>v. Some ''v'') 64 player_manifest calls (demo_snapshot first) = Ok () \<Longrightarrow>
   publish demo_readers (account_cap PLAYER) (Published_player (demo_player first)) st = (st\<lparr>pl_calls := calls @ [demo_snapshot first]\<rparr>, Ok ())"
  by (simp add: publish_def and_then_def to_payload_def done_with_def emit_def demo_snapshot_def)


lemmas poll_steps =
  and_then_def gets_def modify_def done_with_def outcome_of_def session_update_def topic_update_def layouts_update_def visual_update_def
  any_topic_def data_topics_def account_topics_def topic_due_def topic_demand_def

definition before_account :: "(unit, bool, demo_value) Polling" where
  "before_account =
     \<lparr>pl_session = (session_default ())\<lparr>ws_topics := (\<lambda>_. topic_state_default)(PLAYER := topic_state_default\<lparr>tt_demanded := True\<rparr>)\<rparr>,
      pl_memory = True, pl_calls = []\<rparr>"

lemma fold_topics:
  "distinct ts \<Longrightarrow> fold (\<lambda>t. topic_update t (f t)) ts s = s\<lparr>ws_topics := (\<lambda>u. if u \<in> set ts then f u (ws_topics s u) else ws_topics s u)\<rparr>"
proof (induction ts arbitrary: s)
  case (Cons t ts)
  then show ?case by (auto simp: topic_update_def intro!: arg_cong [where f = "\<lambda>x. s\<lparr>ws_topics := x\<rparr>"])
qed simp

lemma demanded_player: "demanded_in [account_cap PLAYER] (account_cap t) \<longleftrightarrow> t = PLAYER"
  by (simp add: demanded_in_def) (cases t; simp add: capability_def account_cap.simps)

lemma demo_demand:
  "demand_topics [account_cap PLAYER] now s = (clear_chat s)\<lparr>ws_topics := (\<lambda>t. topic_demand (t = PLAYER) now (ws_topics s t)), ws_profile_data := None\<rparr>"
proof -
  have s1: "fold (\<lambda>t. topic_update t (topic_demand (demanded_in [account_cap PLAYER] (account_cap t)) now)) account_topics s
      = s\<lparr>ws_topics := (\<lambda>t. topic_demand (t = PLAYER) now (ws_topics s t))\<rparr>"
    by (subst fold_topics) (simp_all add: demanded_player)
  show ?thesis
    unfolding demand_topics_def s1 Let_def
    by (simp add: topic_demand_flag clear_chat_def any_topic_def data_topics_def account_topics_def)
qed


lemma demo_visual: "visual_demand [account_cap PLAYER] now visual_default = visual_default"
  by (simp add: visual_demand_def demanded_in_def capability_def account_cap.simps SCREENS_CAP_def RELIC_REWARDS_CAP_def Let_def visual_plan_def
      source_update_def visual_default_def source_default_def)

text \<open>Up to the account's part.\<close>

definition demo_start :: "bool \<Rightarrow> 'v sink_call list \<Rightarrow> unit WarframeSession \<Rightarrow> (unit, bool, 'v) Polling" where
  "demo_start m calls s = \<lparr>pl_session = s, pl_memory = m, pl_calls = calls\<rparr>"

lemma demo_start_simps [simp]:
  "pl_session (demo_start m calls s) = s" "pl_memory (demo_start m calls s) = m" "pl_calls (demo_start m calls s) = calls"
  "session_update f (demo_start m calls s) = demo_start m calls (f s)"
  "(demo_start m calls s)\<lparr>pl_calls := calls'\<rparr> = demo_start m calls' s" "(demo_start m calls s)\<lparr>pl_memory := m'\<rparr> = demo_start m' calls s"
  by (simp_all add: demo_start_def session_update_def)

lemma demo_due: "any_topic ts P s = list_ex (\<lambda>t. P (ws_topics s t)) ts"
  by (simp add: any_topic_def)

lemma demo_poll:
  assumes "ws_visual s = visual_default"
  shows "session_poll demo_readers [account_cap PLAYER] now (demo_start m [] s) =
    (case poll_account demo_readers now (demo_start m [] (demand_topics [account_cap PLAYER] now s)) of
       (st, Ok _) \<Rightarrow> (st, Ok (schedule now (pl_session st))) | (st, Err e) \<Rightarrow> (st, Err e))"
proof -
  have v: "visual_update (visual_demand [account_cap PLAYER] now) s = s"
    using assms demo_visual by (simp add: visual_update_def flip: assms)
  have "list_ex (\<lambda>t. tt_demanded (ws_topics (demand_topics [account_cap PLAYER] now s) t)) account_topics"
    by (simp add: demo_demand topic_demand_flag account_topics_def)
  then show ?thesis
    using assms
    by (auto simp: session_poll_def and_then_def modify_def gets_def v poll_visual_def visual_due_def source_due_def visual_default_def
        source_default_def done_with_def demo_due split: prod.splits result.splits)
qed


lemma player_demand:
  "demand_topics [account_cap PLAYER] now (session_default ()) = player_session Unchecked None Unchecked Unchecked None now"
  "demand_topics [account_cap PLAYER] now (player_session exe build account layout login at) = player_session exe build account layout login at"
  by (rule WarframeSession.equality;
    simp add: demo_demand player_session_def session_default_def clear_chat_def topic_demand_def topic_state_default_def Let_def fun_eq_iff
      shared_layouts_default_def)+

lemma not_due [simp]: "\<not> topic_due now topic_state_default"
  by (simp add: topic_due_def topic_state_default_def)

lemma player_validate:
  "validate_due demo_readers demo_exe now (demo_start m calls (player_session exe build account (if first then Unchecked else Passed ()) login now)) =
     (demo_start m calls (player_session exe build account (Passed ()) login now), Ok ())"
  by (cases first)
    (simp_all add: validate_due_def validate_profile_data_def validate_progression_due_def validate_account_topic_def and_then_def gets_def done_with_def
      demo_due data_topics_def topic_due_def topic_state_default_def outcome_of_def layout_ready_def demo_layout_player demo_layout_player_again)

lemma player_found:
  "login = None \<or> login = Some (demo_account m) \<Longrightarrow>
   account_before demo_readers demo_exe now (demo_start m calls (player_session exe build account (Passed ()) login now)) =
     (demo_start m calls (player_session exe build account (Passed ()) (Some (demo_account m)) now), Ok (Some (demo_account m, False)))"
  by (auto simp: account_before_def account_found_def and_then_def demo_login gets_def done_with_def modify_def)

lemma player_replaced:
  assumes "login = Some (demo_account (\<not> m))" and "host_answer (\<lambda>v. Some ''v'') 64 player_manifest calls (Call_Reset (account_cap PLAYER)) = Ok ()"
  shows "account_before demo_readers demo_exe now (demo_start m calls (player_session exe build account (Passed ()) login now)) =
     (demo_start m (calls @ [Call_Reset (account_cap PLAYER)]) (player_session exe build account (Passed ()) (Some (demo_account m)) now),
      Ok (Some (demo_account m, True)))"
proof -
  have "demo_account (\<not> m) \<noteq> demo_account m" by (simp add: demo_account_def account_text_of_def)
  moreover have "validate_due demo_readers demo_exe now (demo_start m cs (player_session exe build account (Passed ()) login now)) =
     (demo_start m cs (player_session exe build account (Passed ()) login now), Ok ())" for cs
    using player_validate [of now m cs exe build account False login] by simp
  ultimately show ?thesis
    using assms
    by (simp add: account_before_def account_found_def and_then_def demo_login gets_def done_with_def modify_def reset_account_def reset_topics_def
        each_demanded_def account_topics_def topic_state_default_def emit_def next_poll_def)
qed


lemma player_sampled:
  "acquire_samples demo_readers demo_exe now (demo_account m) None (demo_start m calls (player_session exe build account (Passed ()) login now)) =
     (demo_start m calls (player_session exe build account (Passed ()) login now),
      Ok \<lparr>sm_inventory = None, sm_currencies = None, sm_mastery = None, sm_intrinsics = None, sm_star_chart = None,
          sm_player = Some (Ok (demo_player m)), sm_local_name = Some ''Ann'', sm_chat = None, sm_data_after = None\<rparr>)"
  by (simp add: acquire_samples_def and_then_def sample_data_def gets_def done_with_def topic_due_def then_map_def outcome_of_def sample_player_def
      demo_layout_player_again on_memory_def demo_read_player sample_chat_def demo_player_def)

lemma player_acquired:
  assumes "account_before demo_readers demo_exe now (demo_start m calls s) =
      (demo_start m calls' (player_session exe build account (Passed ()) (Some (demo_account m)) now), Ok (Some (demo_account m, reset)))"
    and "host_answer (\<lambda>v. Some ''v'') 64 player_manifest calls' (demo_snapshot m) = Ok ()"
  shows "acquire demo_readers demo_exe now (demo_start m calls s) =
      (demo_start m (calls' @ [demo_snapshot m])
         (player_session exe build account (Passed ()) (Some (demo_account m)) (duration_saturating_add now SAMPLE_INTERVAL)), Ok ())"
proof -
  have none: "profile_data_before demo_readers demo_exe now acc reset (demo_start m calls' (player_session exe build account (Passed ()) login now)) =
      (demo_start m calls' (player_session exe build account (Passed ()) login now), Ok (None, reset))" for acc login
    by (simp add: profile_data_before_def and_then_def gets_def demo_due data_topics_def done_with_def)
  have same: "account_unchanged demo_readers demo_exe now (demo_account m) reset dr (demo_start m calls' t) = (demo_start m calls' t, Ok True)" for dr t
    by (simp add: account_unchanged_def and_then_def demo_login done_with_def)
  show ?thesis
    using assms(2)
    by (simp add: acquire_def and_then_def assms(1) none player_sampled same publish_samples_def publish_sample_def published_def demo_publish
        next_poll_def modify_def done_with_def publish_chat_def)
qed

text \<open>The first poll of the session.\<close>

definition followed :: "bool \<Rightarrow> duration \<Rightarrow> unit WarframeSession" where
  "followed first at =
     player_session (Passed demo_exe) (Some (ex_actual demo_exe)) (Passed ()) (Passed ()) (Some (demo_account first)) at"

lemma later: "duration_saturating_add 0 SAMPLE_INTERVAL = seconds 1" "duration_saturating_add (seconds 1) SAMPLE_INTERVAL = seconds 2"
  by (simp_all add: duration_saturating_add_def SAMPLE_INTERVAL_def seconds_def DURATION_MAX_def)

lemma demo_accepts:
  "host_answer (\<lambda>v. Some ''v'') 64 player_manifest [] (demo_snapshot m) = Ok ()"
  "host_answer (\<lambda>v. Some ''v'') 64 player_manifest [] (Call_Reset (account_cap PLAYER)) = Ok ()"
  "host_answer (\<lambda>v. Some ''v'') 64 player_manifest [Call_Reset (account_cap PLAYER)] (demo_snapshot m) = Ok ()"
  by (simp_all add: host_answer_def poll_batch_def demo_snapshot_def batch_new_def events_snapshot_def events_reset_def batch_key_def declared_def
      player_manifest_def WARFRAME_CAPABILITIES_def account_cap.simps capability_def batch_payload_def ok_or_def batch_push_def MAX_BATCH_BYTES_def Let_def)

lemma schedule_player: "schedule now (followed first at) = After (at - now)"
  by (simp add: schedule_def followed_def visual_deadline_def visual_default_def source_default_def account_topics_def topic_state_default_def Let_def)

lemma demo_first_poll:
  "run_poll demo_readers [account_cap PLAYER] 0 True (session_default ()) =
     (demo_start True [demo_snapshot True] (followed True (seconds 1)), Ok (After (seconds 1)))"
proof -
  have start: "run_poll demo_readers [account_cap PLAYER] 0 True (session_default ()) =
      session_poll demo_readers [account_cap PLAYER] 0 (demo_start True [] (session_default ()))"
    by (simp add: run_poll_def demo_start_def)
  have visual: "ws_visual (session_default ()) = visual_default" by (simp add: session_default_def)
  have valid: "validate_due demo_readers demo_exe 0 (demo_start True [] (player_session exe build account Unchecked None 0)) =
      (demo_start True [] (player_session exe build account (Passed ()) None 0), Ok ())" for exe build account
    using player_validate [of 0 True "[]" exe build account True None] by simp
  have got: "acquire demo_readers demo_exe 0 (demo_start True [] (player_session exe build account (Passed ()) None 0)) =
      (demo_start True [demo_snapshot True] (player_session exe build account (Passed ()) (Some (demo_account True)) (seconds 1)), Ok ())"
    for exe build account
    using player_acquired [OF player_found demo_accepts(1), of None True 0 exe build account] by (simp add: later)
  have "poll_account demo_readers 0 (demo_start True [] (player_session Unchecked None Unchecked Unchecked None 0)) =
      (demo_start True [demo_snapshot True] (followed True (seconds 1)), Ok ())"
    by (simp add: poll_account_def and_then_def gets_def demo_due account_topics_def topic_due_def outcome_of_def demo_ensure demo_layout_account
        done_with_def valid got followed_def shared_layouts_default_def)
  then show ?thesis unfolding start demo_poll [OF visual] player_demand by (simp add: schedule_player)
qed


lemma demo_second_poll:
  "run_poll demo_readers [account_cap PLAYER] (seconds 1) False (followed True (seconds 1)) =
     (demo_start False [Call_Reset (account_cap PLAYER), demo_snapshot False] (followed False (seconds 2)), Ok (After (seconds 1)))"
proof -
  let ?s = "\<lambda>login. player_session (Passed demo_exe) (Some (ex_actual demo_exe)) (Passed ()) (Passed ()) login (seconds 1)"
  have start: "run_poll demo_readers [account_cap PLAYER] (seconds 1) False (followed True (seconds 1)) =
      session_poll demo_readers [account_cap PLAYER] (seconds 1) (demo_start False [] (followed True (seconds 1)))"
    by (simp add: run_poll_def demo_start_def)
  have visual: "ws_visual (followed True (seconds 1)) = visual_default" by (simp add: followed_def)
  have valid: "validate_due demo_readers demo_exe (seconds 1) (demo_start False [] (?s login)) = (demo_start False [] (?s login), Ok ())" for login
    using player_validate [of "seconds 1" False "[]" "Passed demo_exe" "Some (ex_actual demo_exe)" "Passed ()" False login] by simp
  have before: "account_before demo_readers demo_exe (seconds 1) (demo_start False [] (?s (Some (demo_account True)))) =
      (demo_start False [Call_Reset (account_cap PLAYER)] (?s (Some (demo_account False))), Ok (Some (demo_account False, True)))"
    using player_replaced [of "Some (demo_account True)" False "[]"] demo_accepts(2) by simp
  have "acquire demo_readers demo_exe (seconds 1) (demo_start False [] (?s (Some (demo_account True)))) =
      (demo_start False [Call_Reset (account_cap PLAYER), demo_snapshot False] (followed False (seconds 2)), Ok ())"
    using player_acquired [OF before demo_accepts(3)] unfolding later followed_def by simp
  then have "poll_account demo_readers (seconds 1) (demo_start False [] (?s (Some (demo_account True)))) =
      (demo_start False [Call_Reset (account_cap PLAYER), demo_snapshot False] (followed False (seconds 2)), Ok ())"
    by (simp add: poll_account_def and_then_def gets_def demo_due account_topics_def topic_due_def outcome_of_def demo_ensure_again
        demo_layout_account_again done_with_def valid del: One_nat_def)
  moreover have "seconds 2 - seconds 1 = seconds 1" by (simp add: seconds_def)
  ultimately show ?thesis
    unfolding start demo_poll [OF visual] unfolding followed_def [of True] player_demand by (simp add: schedule_player del: One_nat_def)
qed

lemma demo_completed: "session_poll_completed True (followed first at) = followed first at"
  by (rule WarframeSession.equality)
    (simp_all add: session_poll_completed_def visual_update_def visual_poll_completed_def Let_def followed_def player_session_def session_default_def)

text \<open>
  The hypotheses hold for these readers, so the accounts of the two polls are kept apart; and both polls
  do publish a player, of two different accounts.
\<close>

theorem account_never_mixed_witness:
  "accounts_separate demo_readers (published_account id) (session_default ()) (\<lambda>_. None)
     [Polled [account_cap PLAYER] 0 True True, Polled [account_cap PLAYER] (seconds 1) False True]
   \<and> fst (run_poll demo_readers [account_cap PLAYER] 0 True (session_default ())) =
       demo_start True [demo_snapshot True] (followed True (seconds 1))
   \<and> pl_calls (fst (run_poll demo_readers [account_cap PLAYER] (seconds 1) False (session_poll_completed True (followed True (seconds 1))))) =
       [Call_Reset (account_cap PLAYER), demo_snapshot False]
   \<and> demo_player True \<noteq> demo_player False"
proof -
  have "values_named demo_readers (published_account id) id" by (simp add: values_named_def demo_readers_def)
  moreover have "data_named demo_readers id" by (simp add: data_named_def demo_readers_def)
  moreover have "pm_capabilities player_manifest = WARFRAME_CAPABILITIES" by (simp add: player_manifest_def)
  ultimately have "accounts_separate demo_readers (published_account id) (session_default ()) (\<lambda>_. None) events" for events
    by (intro account_never_mixed [OF demo_readers_simps(5)])
  moreover have "demo_player True \<noteq> demo_player False" by (simp add: demo_player_def account_text_of_def)
  ultimately show ?thesis
    by (simp only: demo_completed demo_first_poll demo_second_poll fst_conv demo_start_simps) simp
qed

end
