(* ===== verification/Currencies_Topic.thy ===== *)
theory Currencies_Topic
  imports Profile_Inventory Static_Memory
begin

section \<open>Currencies\<close>

text \<open>
  \<open>provider/src/topics/currencies\<close> and \<open>model/src/currencies.rs\<close>: four protected balances of profile data,
  read twice. An \<open>i32\<close> is the integer its word stands for in two's complement.
\<close>

subsection \<open>Facts about the executable\<close>

definition CODEC :: AddressEncodedScalarFacts where
  "CODEC = \<lparr>sf_check = ObjectOffset 0, sf_stored = ObjectOffset 4, sf_rotate_left = 19, sf_address_shift = 3,
     sf_value_xor = 0xAC7E8740, sf_check_xor = 0x9C084A47\<rparr>"

record BalanceFacts =
  bf_field :: ObjectOffset
  bf_reader :: Rva

record EncodedNameFacts =
  ec_text :: string
  ec_reference :: Rva
  ec_object :: Rva
  ec_key_reference :: Rva
  ec_key :: u64

record WalletFieldFacts =
  wf_balance :: BalanceFacts
  wf_name :: EncodedNameFacts

definition ENDO :: BalanceFacts where
  "ENDO = \<lparr>bf_field = ObjectOffset 0xD9E0, bf_reader = Rva 0x01354146\<rparr>"

definition CREDITS :: WalletFieldFacts where
  "CREDITS =
     \<lparr>wf_balance = \<lparr>bf_field = ObjectOffset 0xD9F0, bf_reader = Rva 0x00701A22\<rparr>,
      wf_name = \<lparr>ec_text = ''RegularCredits'', ec_reference = Rva 0x00701A33, ec_object = Rva 0x02857170,
        ec_key_reference = Rva 0x00701A3D, ec_key = 0x8BD761F9775EFE44\<rparr>\<rparr>"

definition TRADABLE_PLATINUM :: WalletFieldFacts where
  "TRADABLE_PLATINUM =
     \<lparr>wf_balance = \<lparr>bf_field = ObjectOffset 0xD9F8, bf_reader = Rva 0x00701AD0\<rparr>,
      wf_name = \<lparr>ec_text = ''mInventory.mPremiumCredits'', ec_reference = Rva 0x00701AC4, ec_object = Rva 0x02857190,
        ec_key_reference = Rva 0x00701A7D, ec_key = 0x3D3520AA87530034\<rparr>\<rparr>"

definition NON_TRADABLE_PLATINUM :: WalletFieldFacts where
  "NON_TRADABLE_PLATINUM =
     \<lparr>wf_balance = \<lparr>bf_field = ObjectOffset 0xDA00, bf_reader = Rva 0x00701AFC\<rparr>,
      wf_name = \<lparr>ec_text = ''mInventory.mPremiumCreditsFree'', ec_reference = Rva 0x00701AEB, ec_object = Rva 0x028571C0,
        ec_key_reference = Rva 0x00701AE1, ec_key = 0x15E400030F4D012C\<rparr>\<rparr>"

definition PLATINUM_SERIALIZER :: Rva where "PLATINUM_SERIALIZER = Rva 0x007E51D0"

subsection \<open>Reading\<close>

record CurrencyBalances =
  cb_credits :: int
  cb_endo :: int
  cb_tradable_platinum :: int
  cb_non_tradable_platinum :: int

record CurrencySnapshot =
  cs_account_id :: AccountId
  cs_balances :: CurrencyBalances

text \<open>The two words of a protected value at an address of the game, decoded in place.\<close>

definition protected_words :: "AddressEncodedScalarFacts \<Rightarrow> string \<Rightarrow> u8 list \<Rightarrow> (u32 \<times> u32, TargetError) result" where
  "protected_words codec location bytes =
     (let v = \<lparr>rv_bytes = bytes, rv_at = location\<rparr>
      in map_err record_read_error (rbind (record_u32 v (sf_check codec)) (\<lambda>check. rbind (record_u32 v (sf_stored codec)) (\<lambda>stored. Ok (check, stored)))))"

definition read_balance :: "'m backend \<Rightarrow> u64 \<Rightarrow> BalanceFacts \<Rightarrow> ('m TargetReader, int, TargetError) attempt" where
  "read_balance be profile facts =
     and_then (of_reader (\<lambda>r. object_address r profile (bf_field facts) 8)) (\<lambda>address.
     and_then (read_at be address 8) (\<lambda>bytes.
     and_then (of_reader (\<lambda>r. object_address r address (sf_stored CODEC) 4)) (\<lambda>stored_address.
     and_then (done_with (protected_words CODEC ''currency balance'' bytes)) (\<lambda>(check, stored).
     done_with (ok_or (map_option sint (scalar_decode CODEC check stored stored_address)) (InvalidData ''currency balance integrity''))))))"

definition read_balances :: "'m backend \<Rightarrow> u64 \<Rightarrow> ('m TargetReader, CurrencyBalances, TargetError) attempt" where
  "read_balances be profile =
     and_then (read_balance be profile (wf_balance CREDITS)) (\<lambda>credits.
     and_then (read_balance be profile ENDO) (\<lambda>endo.
     and_then (read_balance be profile (wf_balance TRADABLE_PLATINUM)) (\<lambda>tradable.
     and_then (read_balance be profile (wf_balance NON_TRADABLE_PLATINUM)) (\<lambda>non_tradable.
     done_with (Ok \<lparr>cb_credits = credits, cb_endo = endo, cb_tradable_platinum = tradable, cb_non_tradable_platinum = non_tradable\<rparr>)))))"

definition read_currencies :: "'m backend \<Rightarrow> u64 \<Rightarrow> u32 \<Rightarrow> ProfileDataIdentity \<Rightarrow> ('m, CurrencySnapshot, TargetError) attempt" where
  "read_currencies be base image_size login =
     with_target_reader
       (and_then (read_stable (read_balances be (identity_get (pd_object login))) (Unstable ''currency balances'')) (\<lambda>balances.
        done_with (Ok \<lparr>cs_account_id = ai_account_id (pd_account login), cs_balances = balances\<rparr>)))
       base image_size"

subsection \<open>The instructions\<close>

definition validate_currency_name :: "'m backend \<Rightarrow> EncodedNameFacts \<Rightarrow> ('m TargetReader, unit, TargetError) attempt" where
  "validate_currency_name be facts =
     and_then (read_module be (ec_reference facts) 7) (\<lambda>reference.
     and_then (read_module be (ec_key_reference facts) 10) (\<lambda>key.
     if \<not> code_matches reference [(0, [0x48, 0x8D, 0x15])] \<or> rip_target (ec_reference facts) 7 (drop 3 reference) \<noteq> Some (ec_object facts)
        \<or> \<not> code_matches key [(0, [0x49, 0xB8]), (2, to_le (ec_key facts))]
     then done_with (Err (LayoutMismatch ''currency field name reference''))
     else and_then (read_module be (ec_object facts) 10) (\<lambda>header.
       let blocks = unat (drop_bit 4 (header ! 9)); text = ascii_bytes (ec_text facts); key_bytes = to_le (ec_key facts)
       in if \<not> (1 \<le> blocks \<and> blocks \<le> 4) then done_with (Err (LayoutMismatch ''currency field name length''))
          else and_then (done_with (ok_or (rva_checked_add (ec_object facts) 16) (LayoutMismatch ''currency field name''))) (\<lambda>data.
            and_then (read_module be data (blocks * 16)) (\<lambda>encoded.
            let decoded = map (\<lambda>(index, byte). byte XOR key_bytes ! (index mod length key_bytes)) (enumerate 0 encoded)
            in done_with (if length decoded < length text \<or> take (length text) decoded \<noteq> text
                  \<or> length decoded \<le> length text \<or> decoded ! length text \<noteq> 0
                then Err (LayoutMismatch ''currency field name'') else Ok ()))))))"

definition validate_credits :: "'m backend \<Rightarrow> u8 \<Rightarrow> u8 \<Rightarrow> ('m TargetReader, unit, TargetError) attempt" where
  "validate_credits be rot shift =
     (let facts = wf_balance CREDITS
      in and_then (done_with (ok_or (checked_add (offset_get (bf_field facts)) (offset_get (sf_stored CODEC))) (LayoutMismatch ''credits field''))) (\<lambda>stored.
         and_then (read_module be (bf_reader facts) 162) (\<lambda>code.
         done_with (if \<not> code_matches code
             [(0, [0x41, 0x8B, 0x87]), (3, to_le stored), (7, [0x49, 0x8D, 0x9F]), (10, to_le stored), (14, [0xC1, 0xC0, rot]),
              (37, [0x48, 0xC1, 0xFB, shift]), (47, [0x48, 0x81, 0xF1]), (50, to_le (sf_value_xor CODEC)), (133, [0x81, 0xF2]),
              (135, to_le (sf_value_xor CODEC)), (139, [0xC1, 0xCA, rot]), (142, [0x41, 0x89, 0x97]), (145, to_le stored),
              (149, [0x81, 0xF2]), (151, to_le (sf_check_xor CODEC)), (155, [0x41, 0x89, 0x97]), (158, to_le (offset_get (bf_field facts)))]
           then Err (LayoutMismatch ''credits codec'') else Ok ()))))"

definition validate_endo :: "'m backend \<Rightarrow> u8 \<Rightarrow> u8 \<Rightarrow> ('m TargetReader, unit, TargetError) attempt" where
  "validate_endo be rot shift =
     and_then (done_with (ok_or (checked_add (offset_get (bf_field ENDO)) (offset_get (sf_stored CODEC))) (LayoutMismatch ''endo field''))) (\<lambda>stored.
     and_then (read_module be (bf_reader ENDO) 96) (\<lambda>code.
     done_with (if \<not> code_matches code
         [(0, [0x49, 0x8D, 0x8E]), (3, to_le stored), (13, [0x48, 0xC1, 0xF9, shift]), (40, [0x41, 0x8B, 0x96]), (43, to_le stored),
          (47, [0xC1, 0xC2, rot]), (50, [0x33, 0xD1]), (52, [0x81, 0xF2]), (54, to_le (sf_value_xor CODEC)), (65, [0x33, 0xD1]),
          (67, [0x81, 0xF2]), (69, to_le (sf_value_xor CODEC)), (73, [0xC1, 0xCA, rot]), (76, [0x41, 0x89, 0x96]), (79, to_le stored),
          (83, [0x81, 0xF2]), (85, to_le (sf_check_xor CODEC)), (89, [0x41, 0x89, 0x96]), (92, to_le (offset_get (bf_field ENDO)))]
       then Err (LayoutMismatch ''endo codec'') else Ok ())))"

definition validate_platinum_reference :: "'m backend \<Rightarrow> BalanceFacts \<Rightarrow> ('m TargetReader, unit, TargetError) attempt" where
  "validate_platinum_reference be field =
     and_then (read_module be (bf_reader field) 17) (\<lambda>reference.
     and_then (done_with (ok_or (rva_checked_add (bf_reader field) 12) (LayoutMismatch ''platinum serializer call''))) (\<lambda>call.
     done_with (if \<not> code_matches reference
           [(0, [0x49, 0x8D, 0x8F]), (3, to_le (offset_get (bf_field field))), (7, [0x48, 0x8D, 0x54, 0x24, 0x60]), (12, [0xE8])]
         \<or> rip_target call 5 (drop 13 reference) \<noteq> Some PLATINUM_SERIALIZER
       then Err (LayoutMismatch ''platinum field reference'') else Ok ())))"

definition validate_platinum :: "'m backend \<Rightarrow> u8 \<Rightarrow> u8 \<Rightarrow> ('m TargetReader, unit, TargetError) attempt" where
  "validate_platinum be rot shift =
     and_then (validate_platinum_reference be (wf_balance TRADABLE_PLATINUM)) (\<lambda>_.
     and_then (validate_platinum_reference be (wf_balance NON_TRADABLE_PLATINUM)) (\<lambda>_.
     and_then (read_module be PLATINUM_SERIALIZER 101) (\<lambda>code.
     done_with (if \<not> code_matches code
         [(20, [0x48, 0x8D, 0x79, 4]), (24, [0x4C, 0x8B, 0xF1]), (74, [0x48, 0x8B, 0xC7]), (77, [0x48, 0xC1, 0xF8, shift]), (81, [0x33, 0x07]),
          (83, [0x35]), (84, to_le (sf_value_xor CODEC)), (88, [0xC1, 0xC8, rot]), (91, [0x89, 0x07]), (93, [0x35]),
          (94, to_le (sf_check_xor CODEC)), (98, [0x41, 0x89, 0x06])]
       then Err (LayoutMismatch ''platinum codec'') else Ok ()))))"

definition validate_currencies_layout :: "'m backend \<Rightarrow> u64 \<Rightarrow> u32 \<Rightarrow> ('m, unit, TargetError) attempt" where
  "validate_currencies_layout be =
     with_target_reader
       (if offset_get (sf_check CODEC) \<noteq> 0 \<or> offset_get (sf_stored CODEC) \<noteq> 4 \<or> 32 \<le> sf_rotate_left CODEC \<or> 64 \<le> sf_address_shift CODEC
        then done_with (Err (LayoutMismatch ''currency codec''))
        else and_then (done_with (narrow (sf_rotate_left CODEC) (LayoutMismatch ''currency rotate''))) (\<lambda>rot.
          and_then (done_with (narrow (sf_address_shift CODEC) (LayoutMismatch ''currency shift''))) (\<lambda>shift.
          and_then (validate_currency_name be (wf_name CREDITS)) (\<lambda>_.
          and_then (validate_currency_name be (wf_name TRADABLE_PLATINUM)) (\<lambda>_.
          and_then (validate_currency_name be (wf_name NON_TRADABLE_PLATINUM)) (\<lambda>_.
          and_then (validate_credits be rot shift) (\<lambda>_.
          and_then (validate_endo be rot shift) (\<lambda>_.
          validate_platinum be rot shift))))))))"

subsection \<open>What is read\<close>

lemma read_currencies_account:
  "read_currencies be base image_size login m = (m', Ok x) \<Longrightarrow> cs_account_id x = ai_account_id (pd_account login)"
  by (auto simp: read_currencies_def and_then_Ok dest!: with_target_reader_Ok)

text \<open>A balance as the game keeps it at an address.\<close>

definition stores_balance :: "('m \<Rightarrow> u64 \<Rightarrow> u8 list) \<Rightarrow> 'm \<Rightarrow> u64 \<Rightarrow> BalanceFacts \<Rightarrow> u32 \<Rightarrow> bool" where
  "stores_balance f m profile facts v \<longleftrightarrow>
     (let address = profile + ucast (offset_get (bf_field facts)); (check, stored) = scalar_encode CODEC v (address + 4)
      in f m address = to_le check @ to_le stored)"

lemma codec_ok_CODEC [simp]: "codec_ok CODEC"
  by (simp add: codec_ok_def CODEC_def)

lemma protected_words_encoded: "protected_words CODEC at (to_le check @ to_le stored) = Ok (check, stored)"
  using record_roundtrip [where pre = "[]" and post = "to_le stored" and b = check and at = at]
    record_roundtrip [where pre = "to_le check" and post = "[]" and b = stored and at = at]
  by (simp add: protected_words_def CODEC_def)

lemma static_balance:
  assumes "stores_balance f m profile facts v" and "profile \<noteq> 0"
    and "unat profile + unat (offset_get (bf_field facts)) + 8 \<le> 0x00007FFFFFFFFFFF" and "8 \<le> b" and "1 \<le> n"
  shows "read_balance (static_backend f) profile facts (static_reader m b n) = (static_reader m (b - 8) (n - 1), Ok (sint v))"
proof -
  let ?offset = "offset_get (bf_field facts)"
  let ?address = "profile + ucast ?offset"
  obtain check stored where enc: "scalar_encode CODEC v (?address + 4) = (check, stored)" by fastforce
  then have mem: "f m ?address = to_le check @ to_le stored" using assms(1) by (simp add: stores_balance_def)
  have "unat profile + unat (ucast ?offset :: u64) < 2 ^ 64" using assms(3) by simp
  then have sum: "unat ?address = unat profile + unat ?offset" using unat_add_lem [of profile "ucast ?offset :: u64"] by simp
  moreover have "0 < unat profile" using assms(2) by (simp add: unat_gt_0)
  ultimately have nonzero: "?address \<noteq> 0" by auto
  have "object_address (static_reader m b n) profile (bf_field facts) 8 = Ok ?address"
    using static_object [of profile ?offset 8 m b n] assms(2,3) by simp
  moreover have "read_at (static_backend f) ?address 8 (static_reader m b n) = (static_reader m (b - 8) (n - 1), Ok (to_le check @ to_le stored))"
    using assms(3-5) sum nonzero by (simp add: static_read_at mem static_fill)
  moreover have "object_address (static_reader m (b - 8) (n - 1)) ?address (sf_stored CODEC) 4 = Ok (?address + 4)"
    using static_object [of ?address 4 4 m "b - 8" "n - 1"] assms(3) sum nonzero by (simp add: CODEC_def)
  moreover have "scalar_decode CODEC check stored (?address + 4) = Some v" using scalar_decode_encode' [of CODEC] enc by simp
  ultimately show ?thesis
    by (simp add: read_balance_def and_then_def of_reader_def done_with_def protected_words_encoded ok_or_def)
qed

text \<open>
  C33: Currencies are read exactly: if the game keeps four balances, each as the protected pair of words
  of its field, then the topic publishes those four signed values, for the account that owns the
  profile data, wherever the profile data lies.
\<close>

theorem currencies_exact:
  assumes "stores_balance f m profile (wf_balance CREDITS) a" and "stores_balance f m profile ENDO b"
    and "stores_balance f m profile (wf_balance TRADABLE_PLATINUM) c" and "stores_balance f m profile (wf_balance NON_TRADABLE_PLATINUM) d"
    and "profile = identity_get (pd_object login)" and "profile \<noteq> 0" and "unat profile \<le> 2 ^ 46"
  shows "read_currencies (static_backend f) 0x140000000 0x02CD8000 login m =
    (m, Ok \<lparr>cs_account_id = ai_account_id (pd_account login),
      cs_balances = \<lparr>cb_credits = sint a, cb_endo = sint b, cb_tradable_platinum = sint c, cb_non_tradable_platinum = sint d\<rparr>\<rparr>)"
proof -
  have once: "read_balances (static_backend f) profile (static_reader m (32 + k) (4 + n)) =
      (static_reader m k n, Ok \<lparr>cb_credits = sint a, cb_endo = sint b, cb_tradable_platinum = sint c, cb_non_tradable_platinum = sint d\<rparr>)"
    for k n
    using assms(6,7) static_balance [OF assms(1)] static_balance [OF assms(2)] static_balance [OF assms(3)] static_balance [OF assms(4)]
    by (simp add: read_balances_def and_then_def done_with_def CREDITS_def ENDO_def TRADABLE_PLATINUM_def NON_TRADABLE_PLATINUM_def)
  have "read_stable (read_balances (static_backend f) profile) (Unstable ''currency balances'') (static_reader m 33554432 65536) =
      (static_reader m 33554368 65528, Ok \<lparr>cb_credits = sint a, cb_endo = sint b, cb_tradable_platinum = sint c, cb_non_tradable_platinum = sint d\<rparr>)"
    using once [of 33554400 65532] once [of 33554368 65528] by (simp add: read_stable_def and_then_def done_with_def)
  then show ?thesis
    by (simp add: read_currencies_def with_target_reader_def static_new and_then_def done_with_def assms(5) [symmetric])
      (simp add: static_reader_def)
qed

end
