(* ===== verification/Warframe_Demo.thy ===== *)
theory Warframe_Demo
  imports Inventory_Validation Mastery_Validation Relic_Choices Currencies_Topic Static_Memory
begin

section \<open>An account in memory\<close>

text \<open>
  A concrete process: profile data at \<open>0x100000\<close> with four balances, one mission, one resource and one mastered
  item, the string pool at \<open>0x300000\<close> and a relic picker with two rewards. Every topic is read from it.
\<close>

definition demo_mine :: AccountId where "demo_mine = AccountId (replicate 24 (CHR ''b''))"
definition demo_other :: AccountId where "demo_other = AccountId (replicate 24 (CHR ''a''))"

definition demo_login :: ProfileDataIdentity where
  "demo_login =
     \<lparr>pd_account = \<lparr>ai_account_id = demo_mine, ai_manager_control = ObjectIdentity 1, ai_manager = ObjectIdentity 2,
        ai_profile_control = ObjectIdentity 3, ai_profile = ObjectIdentity 4\<rparr>,
      pd_control = ObjectIdentity 5, pd_object = ObjectIdentity 0x100000\<rparr>"

text \<open>A protected value as the game stores it at an address, and the header of a vector.\<close>

definition stored_scalar :: "AddressEncodedScalarFacts \<Rightarrow> u32 \<Rightarrow> u64 \<Rightarrow> u8 list" where
  "stored_scalar codec v at = (case scalar_encode codec v at of (check, stored) \<Rightarrow> to_le check @ to_le stored)"

definition vector_header :: "u64 \<Rightarrow> u32 \<Rightarrow> u8 list" where
  "vector_header pointer len = to_le pointer @ to_le len @ to_le len"

definition demo_reward :: "u64 \<Rightarrow> u8 list" where
  "demo_reward account = to_le account @ [24, 0, 0, 0, 0, 0, 0, 0xFF] @ replicate 56 0 @ to_le (0x220000 :: u64) @ [1] @ replicate 31 0"

definition profile_memory :: "(u64 \<times> u8 list) list" where
  "profile_memory =
     [(0x10D9F0, stored_scalar CODEC 2147483647 0x10D9F4), (0x10D9E0, stored_scalar CODEC 0 0x10D9E4),
      (0x10D9F8, stored_scalar CODEC (-7) 0x10D9FC), (0x10DA00, stored_scalar CODEC 50 0x10DA04),
      (0x10FF48, vector_header 0x200000 0x30), (0x200000, to_le (1 :: u32) @ to_le (5 :: u32) @ [1]),
      (0x14288D610, to_le (0x300000 :: u64)), (0x300010, to_le (0x310000 :: u64)), (0x310000, ascii_bytes ''SolNode1''),
      (0x10D6D8, vector_header 0x210000 16),
      (0x210000, to_le (0x220000 :: u64) @ stored_scalar (case rc_count STACKS of AddressEncoded_count c _ _ \<Rightarrow> c | _ \<Rightarrow> CODEC) 7 0x21000C),
      (0x10E4C0, stored_scalar (mx_non_item_xp_codec MASTERY) 10 0x10E4C4), (0x10E4C8, stored_scalar (mx_non_item_xp_codec MASTERY) 20 0x10E4CC),
      (0x10E4D0, stored_scalar (mx_non_item_xp_codec MASTERY) 30 0x10E4D4), (0x10E4B4, to_le (4000000000 :: u32)),
      (0x10DA14, to_le (0xE85E :: u16) @ to_le (0 :: u16)),
      (0x10D6F8, vector_header 0x230000 16), (0x230000, to_le (0x220000 :: u64) @ stored_scalar (mx_xp MASTERY) 900000 0x23000C),
      (0x2418B0, vector_header 0x250000 0xE0), (0x250000, demo_reward 0x260000 @ demo_reward 0x260100),
      (0x250070, demo_reward 0x260100),
      (0x260000, replicate 24 97), (0x260100, replicate 24 98)]"

definition profile_bytes :: "unit \<Rightarrow> u64 \<Rightarrow> u8 list" where
  "profile_bytes m address = (case map_of profile_memory address of Some bs \<Rightarrow> bs | None \<Rightarrow> [])"

abbreviation profile_backend :: "unit backend" where
  "profile_backend \<equiv> static_backend profile_bytes"

definition demo_items :: ItemTypeCache where
  "demo_items = [(0x220000, ItemKey ''/Lotus/Types/A'')]"

lemma demo_items_ok: "item_cache_inv demo_items"
  by (simp add: demo_items_def item_cache_inv_def MAX_ITEM_TYPES_def item_key_wf_def item_key_new_def strip_prefix_def starts_with_def)

lemma demo_profile [simp]: "identity_get (pd_object demo_login) = 0x100000" "ai_account_id (pd_account demo_login) = demo_mine"
  by (simp_all add: demo_login_def)

subsection \<open>Reads at fixed addresses\<close>

lemma static_read_object:
  assumes "unat object + unat offset + len \<le> 0x00007FFFFFFFFFFF" and "0 < len" and "object \<noteq> 0" and "len \<le> b" and "1 \<le> n"
  shows "read_object (static_backend f) object (ObjectOffset offset) len (static_reader m b n) =
    (static_reader m (b - len) (n - 1), Ok (fill len (f m (object + ucast offset))))"
proof -
  have small: "unat object + unat (ucast offset :: u64) < 2 ^ 64" using assms(1) by simp
  then have sum: "unat (object + ucast offset) = unat object + unat offset" using unat_add_lem [of object "ucast offset :: u64"] by simp
  moreover have "0 < unat object" using assms(3) by (simp add: unat_gt_0)
  ultimately have "object + ucast offset \<noteq> 0" by auto
  then show ?thesis
    using assms sum by (simp add: read_object_def and_then_def done_with_def static_object static_read_at)
qed

lemma from_le_zeros: "from_le (replicate n 0) = 0"
  by (induction n) (simp_all add: from_le_def)

lemma static_empty_vector:
  assumes "unat inventory + unat offset + 16 \<le> 0x00007FFFFFFFFFFF" and "inventory \<noteq> 0" and "record_bytes \<noteq> 0"
    and "f m (inventory + ucast offset) = []" and "32 \<le> b" and "2 \<le> n"
  shows "read_vector (static_backend f) inventory (ObjectOffset offset) record_bytes (static_reader m b n) =
    (static_reader m (b - 32) (n - 2), Ok (0, []))"
proof -
  have zeros: "fill 16 (f m (inventory + ucast offset)) = replicate 16 0" by (simp add: fill_def assms(4))
  have header: "decode_vector_header (replicate 16 0) record_bytes = Ok \<lparr>nv_pointer = 0, nv_bytes = 0, nv_capacity = 0\<rparr>"
    using assms(3) by (simp add: decode_vector_header_def from_le_zeros is_user_range_def MAX_VECTOR_BYTES_def)
  obtain b' n' where bn: "b = 32 + b'" "n = 2 + n'" using le_Suc_ex [OF assms(5)] le_Suc_ex [OF assms(6)] by blast
  show ?thesis
    using assms(1,2) unfolding bn
    by (simp add: read_vector_def and_then_def done_with_def static_read_object VECTOR_HEADER_BYTES_def zeros header vector_payload_def)
qed

lemma static_vector:
  assumes "unat inventory + unat offset + 16 \<le> 0x00007FFFFFFFFFFF" and "inventory \<noteq> 0" and "record_bytes \<noteq> 0"
    and "f m (inventory + ucast offset) = vector_header pointer len" and "len mod record_bytes = 0" and "len \<noteq> 0" and "len \<le> 8388608"
    and "0x10000 \<le> pointer" and "unat pointer + unat len \<le> 0x00007FFFFFFFFFFF"
    and "32 + unat len \<le> b" and "3 \<le> n"
  shows "read_vector (static_backend f) inventory (ObjectOffset offset) record_bytes (static_reader m b n) =
    (static_reader m (b - 32 - unat len) (n - 3), Ok (pointer, fill (unat len) (f m pointer)))"
proof -
  let ?h = "vector_header pointer len"
  have full: "fill 16 (f m (inventory + ucast offset)) = ?h" by (simp add: assms(4) vector_header_def static_fill)
  have parts: "take 8 ?h = to_le pointer" "take 4 (drop 8 ?h) = to_le len" "take 4 (drop 12 ?h) = to_le len"
    by (simp_all add: vector_header_def)
  have pos: "0 < unat len" using assms(6) by (simp add: unat_gt_0)
  have minus: "unat (ucast len - 1 :: u64) = unat len - 1" using pos by (simp add: unat_sub word_le_nat_alt)
  have "unat pointer + unat (ucast len - 1 :: u64) < 2 ^ 64" unfolding minus using assms(9) by simp
  then have "checked_add pointer (ucast len - 1) = Some (pointer + (ucast len - 1))" "unat (pointer + (ucast len - 1)) = unat pointer + (unat len - 1)"
    using unat_add_lem [of pointer "ucast len - 1"] minus by (simp_all add: checked_add_Some_iff)
  then have range: "is_user_range pointer len"
    using assms(6,8,9) pos by (simp add: is_user_range_def is_user_address_def MAX_USER_ADDRESS_def word_le_nat_alt)
  have header: "decode_vector_header ?h record_bytes = Ok \<lparr>nv_pointer = pointer, nv_bytes = len, nv_capacity = len\<rparr>"
    using assms(3,5,7) range by (simp add: decode_vector_header_def parts from_to_le MAX_VECTOR_BYTES_def not_less [symmetric] Let_def)
  have pointer: "pointer \<noteq> 0" using assms(8) by auto
  obtain b' n' where bn: "b = 32 + unat len + b'" "n = 3 + n'" using le_Suc_ex [OF assms(10)] le_Suc_ex [OF assms(11)] by blast
  show ?thesis
    using assms(1,2,6,9) pointer pos unfolding bn
    by (simp add: read_vector_def and_then_def done_with_def static_read_object VECTOR_HEADER_BYTES_def full header vector_payload_def static_read_at)
qed

subsection \<open>Currencies\<close>

lemma profile_contents:
  "profile_bytes m 0x10D9F0 = stored_scalar CODEC 2147483647 0x10D9F4" "profile_bytes m 0x10D9E0 = stored_scalar CODEC 0 0x10D9E4"
  "profile_bytes m 0x10D9F8 = stored_scalar CODEC (-7) 0x10D9FC" "profile_bytes m 0x10DA00 = stored_scalar CODEC 50 0x10DA04"
  "profile_bytes m 0x10FF48 = vector_header 0x200000 0x30" "profile_bytes m 0x200000 = to_le (1 :: u32) @ to_le (5 :: u32) @ [1]"
  "profile_bytes m 0x14288D610 = to_le (0x300000 :: u64)" "profile_bytes m 0x300010 = to_le (0x310000 :: u64)"
  "profile_bytes m 0x310000 = ascii_bytes ''SolNode1''" "profile_bytes m 0x10D6D8 = vector_header 0x210000 16"
  "profile_bytes m 0x10E4C0 = stored_scalar (mx_non_item_xp_codec MASTERY) 10 0x10E4C4"
  "profile_bytes m 0x10E4C8 = stored_scalar (mx_non_item_xp_codec MASTERY) 20 0x10E4CC"
  "profile_bytes m 0x10E4D0 = stored_scalar (mx_non_item_xp_codec MASTERY) 30 0x10E4D4"
  "profile_bytes m 0x10E4B4 = to_le (4000000000 :: u32)" "profile_bytes m 0x10DA14 = to_le (0xE85E :: u16) @ to_le (0 :: u16)"
  "profile_bytes m 0x10D6F8 = vector_header 0x230000 16"
  "profile_bytes m 0x230000 = to_le (0x220000 :: u64) @ stored_scalar (mx_xp MASTERY) 900000 0x23000C"
  "profile_bytes m 0x2418B0 = vector_header 0x250000 0xE0" "profile_bytes m 0x250000 = demo_reward 0x260000 @ demo_reward 0x260100"
  "profile_bytes m 0x250070 = demo_reward 0x260100" "profile_bytes m 0x260000 = replicate 24 97" "profile_bytes m 0x260100 = replicate 24 98"
  "profile_bytes m 0x111FF8 = []" "profile_bytes m 0x10FFE0 = []" "profile_bytes m 0x10E4B0 = []"
  unfolding profile_bytes_def profile_memory_def by (simp_all only: map_of.simps fst_conv snd_conv fun_upd_apply) simp_all

theorem currencies_exact_witness:
  "read_currencies profile_backend 0x140000000 0x02CD8000 demo_login () =
     ((), Ok \<lparr>cs_account_id = demo_mine,
       cs_balances = \<lparr>cb_credits = 2147483647, cb_endo = 0, cb_tradable_platinum = -7, cb_non_tradable_platinum = 50\<rparr>\<rparr>)"
proof -
  have "stores_balance profile_bytes () 0x100000 (wf_balance CREDITS) 2147483647" "stores_balance profile_bytes () 0x100000 ENDO 0"
    "stores_balance profile_bytes () 0x100000 (wf_balance TRADABLE_PLATINUM) (-7)" "stores_balance profile_bytes () 0x100000 (wf_balance NON_TRADABLE_PLATINUM) 50"
    by (simp_all add: stores_balance_def CREDITS_def ENDO_def TRADABLE_PLATINUM_def NON_TRADABLE_PLATINUM_def profile_contents stored_scalar_def split: prod.split)
  from currencies_exact [OF this, of demo_login] show ?thesis by simp
qed

subsection \<open>Tokens\<close>

text \<open>A pool in which every token leads into a field of the letter \<open>A\<close>, one to a block.\<close>

definition token_bytes :: "unit \<Rightarrow> u64 \<Rightarrow> u8 list" where
  "token_bytes m address = (if address < 0x20000 then to_le (0x20000 :: u64) else [0x41])"

definition token_meaning :: "u64 \<Rightarrow> u32 \<Rightarrow> string" where
  "token_meaning pool token = (if (0x20000 + unat (drop_bit 16 token)) mod 64 = 63 then ''AA'' else ''A'')"

lemma static_read_Ok: "read_at (static_backend f) address n r = (r', Ok bs) \<Longrightarrow> bs = fill n (f (rd_memory r) address) \<and> rd_memory r' = rd_memory r"
  by (auto simp: read_at_def and_then_def done_with_def read_unchecked_def static_backend_def fill_def split: if_splits option.splits prod.splits result.splits)

lemma pool_letters: "pool_string [0x41] = Ok ''A''" "pool_string [0x41, 0x41] = Ok ''AA''"
  by (simp_all add: pool_string_def MAX_POOL_STRING_BYTES_def ascii_graphic_def byte_in_def string_of_bytes_def char_of_def bit_simps)

lemma token_block:
  assumes "\<not> a < 0x20000" and "read_at (static_backend token_bytes) a n r = (r', Ok chunk)" and "0 < n"
  shows "0 \<in> set chunk \<longleftrightarrow> 2 \<le> n" and "takeWhile (\<lambda>b. b \<noteq> 0) chunk = [0x41]" and "n = 1 \<Longrightarrow> chunk = [0x41]"
proof -
  have "chunk = fill n [0x41]" using static_read_Ok [OF assms(2)] assms(1) by (simp add: token_bytes_def)
  moreover obtain k where k: "n = Suc k" using assms(3) by (cases n) auto
  moreover have "take k (0 # replicate k (0 :: u8)) = replicate k 0" using take_replicate [of k "Suc k" "0 :: u8"] by simp
  ultimately have "chunk = 0x41 # replicate k 0" by (simp add: fill_def)
  then show "0 \<in> set chunk \<longleftrightarrow> 2 \<le> n" "takeWhile (\<lambda>b. b \<noteq> 0) chunk = [0x41]" "n = 1 \<Longrightarrow> chunk = [0x41]"
    by (cases k; simp add: k)+
qed

lemma token_chunk:
  assumes "unat a = 0x20000 + hi" and "hi < 131072" and "len \<le> 1"
  shows "chunk_bytes a len = 64 - (0x20000 + hi) mod 64"
  using assms by (simp add: chunk_bytes_def MAX_POOL_STRING_BYTES_def STRING_READ_BYTES_def unat_mod)

lemma token_string:
  assumes "read_c_string (static_backend token_bytes) address r = (r', Ok s)" and "unat address = 0x20000 + hi" and "hi < 65536"
  shows "s = (if (0x20000 + hi) mod 64 = 63 then ''AA'' else ''A'')"
proof -
  let ?be = "static_backend token_bytes"
  let ?n = "chunk_bytes address 0"
  have n: "?n = 64 - (0x20000 + hi) mod 64" using token_chunk [OF assms(2)] assms(3) by simp
  have pos: "0 < ?n" unfolding n using mod_less_divisor [of 64 "0x20000 + hi"] by linarith
  have high: "\<not> address < 0x20000" using assms(2) by (simp add: word_less_nat_alt)
  have zero: "checked_add address (0 :: u64) = Some address" using unsigned_less [of address, where ?'a = nat] by (simp add: checked_add_def)
  obtain r1 chunk where one: "read_at ?be address ?n r = (r1, Ok chunk)"
      "if 0 \<in> set chunk then pool_string (takeWhile (\<lambda>b. b \<noteq> 0) chunk) = Ok s \<and> r' = r1 else read_c_string_from ?be address chunk r1 = (r', Ok s)"
    using assms(1) zero
    by (auto simp: read_c_string_def read_c_string_from.simps [of ?be address "[]"] MAX_POOL_STRING_BYTES_def split: prod.splits result.splits if_splits)
  note block = token_block [OF high one(1) pos]
  show ?thesis
  proof (cases "2 \<le> ?n")
    case True
    then have "(0x20000 + hi) mod 64 \<noteq> 63" unfolding n by linarith
    then show ?thesis using one(2) block(1,2) True pool_letters(1) by simp
  next
    case False
    then have n1: "?n = 1" using pos by linarith
    then have edge: "(0x20000 + hi) mod 64 = 63" unfolding n by linarith
    have chunk: "chunk = [0x41]" "0 \<notin> set chunk" using block(3) [OF n1] by simp_all
    have succ: "unat (address + 1) = 0x20000 + (hi + 1)" "checked_add address (1 :: u64) = Some (address + 1)"
      using assms(2,3) unat_add_lem [of address 1] by (simp_all add: checked_add_def)
    have high': "\<not> address + 1 < 0x20000" using succ(1) by (simp add: word_less_nat_alt)
    have "(0x20000 + (hi + 1)) mod 64 = 0" using edge mod_Suc [of "0x20000 + hi" 64] by simp
    then have n': "chunk_bytes (address + 1) 1 = 64" using token_chunk [OF succ(1)] assms(3) by simp
    obtain r2 chunk' where two: "read_at ?be (address + 1) 64 r1 = (r2, Ok chunk')"
        "if 0 \<in> set chunk' then pool_string (0x41 # takeWhile (\<lambda>b. b \<noteq> 0) chunk') = Ok s else True"
      using one(2) chunk succ(2) n'
      by (auto simp: read_c_string_from.simps [of ?be address "[0x41]"] MAX_POOL_STRING_BYTES_def split: prod.splits result.splits if_splits)
    note block' = token_block [OF high' two(1)]
    show ?thesis using two(2) block'(1,2) edge pool_letters(2) by simp
  qed
qed

lemma token_read:
  assumes "read_token (static_backend token_bytes) pool token r = (r', Ok s)"
  shows "s = token_meaning pool token"
proof -
  obtain slot bucket address r1 where step: "read_u64 (static_backend token_bytes) slot r = (r1, Ok bucket)" "require_aligned bucket 8 ''token bucket'' = Ok ()"
      "checked_add bucket (ucast (drop_bit 16 token)) = Some address" "read_c_string (static_backend token_bytes) address r1 = (r', Ok s)"
    using assms by (auto simp: read_token_def and_then_Ok done_with_def ok_or_def split: option.splits)
  have "bucket = from_le (fill 8 (token_bytes (rd_memory r) slot))"
    using step(1) by (auto simp: read_u64_def then_map_def and_then_Ok done_with_def dest!: static_read_Ok)
  moreover have "from_le (fill 8 [0x41]) = (0x41 :: u64)"
  proof -
    have "fill 8 [0x41] = 0x41 # replicate 7 0" by (simp add: fill_def)
    then show ?thesis using from_le_zeros [of 7, where ?'a = 64] by (simp only: from_le_def foldr.simps comp_def) simp
  qed
  ultimately have "bucket = (if slot < 0x20000 then 0x20000 else 0x41)"
    by (cases "slot < 0x20000") (simp_all add: token_bytes_def static_fill from_to_le)
  then have bucket: "bucket = 0x20000" using step(2) by (auto simp: require_aligned_def ensure_def split: if_splits)
  have small: "unat (drop_bit 16 token) < 65536"
    using unsigned_less [of token, where ?'a = nat] unfolding unat_drop_bit_eq
    by (simp add: drop_bit_eq_div less_mult_imp_div_less)
  have "unat address = 0x20000 + unat (drop_bit 16 token)"
    using checked_add_SomeD [OF step(3)] bucket small by simp
  from token_string [OF step(4) this small] show ?thesis by (simp add: token_meaning_def)
qed

theorem string_cache_transparent_witness:
  "let r = static_reader () 1000 10
   in case resolve_token (static_backend token_bytes) 0x10000 0x00050005 (r, string_cache_default) of
        ((r', c'), x) \<Rightarrow> x = Ok ''A'' \<and> string_cache_true token_meaning c' \<and> string_cache_inv c'"
proof -
  let ?be = "static_backend token_bytes"
  let ?r = "static_reader () 1000 10"
  obtain r' c' x where run: "resolve_token ?be 0x10000 0x00050005 (?r, string_cache_default) = ((r', c'), x)"
    by (metis prod.collapse)
  have first: "read_u64 ?be 0x10050 ?r = (static_reader () 992 9, Ok 0x20000)"
    by (simp add: read_u64_def then_map_def and_then_def done_with_def static_read_at static_fill from_to_le token_bytes_def)
  have chunk: "chunk_bytes 0x20005 0 = 59" by (simp add: chunk_bytes_def MAX_POOL_STRING_BYTES_def STRING_READ_BYTES_def unat_mod)
  have content: "read_at ?be 0x20005 59 (static_reader () 992 9) = (static_reader () 933 8, Ok (0x41 # replicate 58 0))"
    by (simp add: static_read_at fill_def token_bytes_def)
  have "read_c_string ?be 0x20005 (static_reader () 992 9) = (static_reader () 933 8, Ok ''A'')"
    by (simp add: read_c_string_def read_c_string_from.simps [of _ "0x20005" "[]"] checked_add_def chunk content pool_letters MAX_POOL_STRING_BYTES_def)
  then have "read_token ?be 0x10000 0x00050005 ?r = (static_reader () 933 8, Ok ''A'')"
    by (simp add: read_token_def and_then_def done_with_def ok_or_def checked_add_def first require_aligned_def ensure_def)
  from string_cache_transparent [OF token_read _ _ run] this
  show ?thesis by (auto simp: run)
qed

subsection \<open>The star chart\<close>

lemma demo_commit:
  assumes "25 \<le> b" and "2 \<le> n"
  shows "read_commit_state profile_backend 0x100000 (static_reader m b n) = (static_reader m (b - 25) (n - 2), Ok (replicate 24 0))"
proof -
  obtain b' n' where bn: "b = 25 + b'" "n = 2 + n'" using le_Suc_ex [OF assms(1)] le_Suc_ex [OF assms(2)] by blast
  have zero: "from_le (fill n []) = (0 :: u8)" "fill 24 [] = replicate 24 0" for n by (simp_all add: fill_def from_le_zeros)
  show ?thesis
    unfolding bn
    by (simp add: read_commit_state_def and_then_def PROFILE_COMMIT_def read_object_u8_def then_map_def static_read_object done_with_def profile_contents zero)
qed

lemma demo_node: "decode_nodes (fill 48 (to_le (1 :: u32) @ to_le (5 :: u32) @ [1])) = Ok [\<lparr>nn_token = 1, nn_completions = 5, nn_tier = 1\<rparr>]"
proof -
  let ?bs = "fill 48 (to_le (1 :: u32) @ to_le (5 :: u32) @ [1])"
  have bs: "?bs = to_le (1 :: u32) @ to_le (5 :: u32) @ [1] @ replicate 39 0" by (simp add: fill_def)
  have records: "records_of 48 ?bs = [?bs]"
    unfolding bs by (simp add: records_of_def)
  have "record_u32 \<lparr>rv_bytes = ?bs, rv_at = at\<rparr> MISSION_TAG = Ok 1" "record_u32 \<lparr>rv_bytes = ?bs, rv_at = at\<rparr> MISSION_COMPLETIONS = Ok 5"
      "record_field \<lparr>rv_bytes = ?bs, rv_at = at\<rparr> MISSION_TIER 1 = Ok [1]" for at
    unfolding bs
    by (simp_all add: record_u32_def record_field_def usize_checked_add_def usize_max_def ok_or_def MISSION_TAG_def MISSION_COMPLETIONS_def
        MISSION_TIER_def from_to_le)
  then have "decode_node ?bs = Ok \<lparr>nn_token = 1, nn_completions = 5, nn_tier = 1\<rparr>"
    by (simp add: decode_node_def)
  moreover have "length ?bs = 48" unfolding bs by simp
  ultimately show ?thesis by (simp add: decode_nodes_def MISSION_RECORD_BYTES_def records del: length_append)
qed

lemma demo_pool:
  assumes "8 \<le> b" and "1 \<le> n"
  shows "string_pool profile_backend STRINGS (static_reader m b n) = (static_reader m (b - 8) (n - 1), Ok 0x300000)"
  using assms
  by (simp add: string_pool_def and_then_def of_reader_def STRINGS_def static_module read_u64_def then_map_def done_with_def static_read_at
      profile_contents static_fill from_to_le require_aligned_def ensure_def)

lemma demo_node_name: "pool_string (ascii_bytes ''SolNode1'') = Ok ''SolNode1''" "list_all (\<lambda>b. b \<noteq> 0) (ascii_bytes ''SolNode1'')" "length (ascii_bytes ''SolNode1'') = 8"
  using string_of_ascii [of "''SolNode1''"]
  by (simp_all add: pool_string_def ascii_bytes_def MAX_POOL_STRING_BYTES_def ascii_graphic_def byte_in_def)

lemma demo_token:
  assumes "72 \<le> b" and "2 \<le> n"
  shows "read_token profile_backend 0x300000 1 (static_reader m b n) = (static_reader m (b - 72) (n - 2), Ok ''SolNode1'')"
proof -
  obtain b' n' where bn: "b = 72 + b'" "n = 2 + n'" using le_Suc_ex [OF assms(1)] le_Suc_ex [OF assms(2)] by blast
  have chunk: "chunk_bytes 0x310000 0 = 64" by (simp add: chunk_bytes_def MAX_POOL_STRING_BYTES_def STRING_READ_BYTES_def unat_mod)
  have content: "fill 64 (ascii_bytes ''SolNode1'') = ascii_bytes ''SolNode1'' @ replicate 56 0" by (simp add: fill_def demo_node_name)
  have "takeWhile (\<lambda>b. b \<noteq> 0) (ascii_bytes ''SolNode1'' @ replicate 56 0) = ascii_bytes ''SolNode1''"
    using demo_node_name(2) by (simp add: takeWhile_append list_all_iff)
  then have "read_c_string profile_backend 0x310000 (static_reader m (64 + b') (1 + n')) = (static_reader m b' n', Ok ''SolNode1'')"
    by (simp add: read_c_string_def read_c_string_from.simps [of _ "0x310000" "[]"] checked_add_def chunk static_read_at profile_contents content
        demo_node_name(1) MAX_POOL_STRING_BYTES_def)
  then show ?thesis
    unfolding bn
    by (simp add: read_token_def and_then_def done_with_def ok_or_def checked_add_def read_u64_def then_map_def static_read_at profile_contents
        static_fill from_to_le require_aligned_def ensure_def)
qed

theorem star_chart_complete_witness:
  "\<exists>s x. read_star_chart profile_backend 0x140000000 0x02CD8000 demo_login ((), string_cache_default) = (s, Ok x)
     \<and> ss_account_id x = demo_mine \<and> star_chart_wf x
     \<and> ss_nodes x = [\<lparr>sn_node_key = ''SolNode1'', sn_completions = 5, sn_steel_path_completed = True\<rparr>]"
proof -
  have vector: "read_vector profile_backend 0x100000 MISSIONS_VECTOR MISSION_RECORD_BYTES (static_reader () b n) =
      (static_reader () (b - 80) (n - 3), Ok (0x200000, fill 48 (to_le (1 :: u32) @ to_le (5 :: u32) @ [1])))" if "80 \<le> b" "3 \<le> n" for b n
    using static_vector [of "0x100000" "0xFF48" "0x30" profile_bytes "()" "0x200000" "0x30" b n] that
    by (simp add: MISSIONS_VECTOR_def MISSION_RECORD_BYTES_def profile_contents)
  let ?node = "\<lparr>sn_node_key = ''SolNode1'', sn_completions = 5, sn_steel_path_completed = True\<rparr>"
  let ?x = "\<lparr>ss_account_id = demo_mine, ss_nodes = [?node]\<rparr>"
  have new: "star_chart_new demo_mine [?node] = Ok ?x" by (simp add: star_chart_new_def visible_ascii_def)
  have "\<exists>s. read_star_chart profile_backend 0x140000000 0x02CD8000 demo_login ((), string_cache_default) = (s, Ok ?x)"
    by (simp add: read_star_chart_def with_cached_reader_def static_new star_chart_once_def and_then_def on_fst_def demo_commit vector demo_node
        named_nodes_def demo_pool resolve_token_def string_cache_default_def demo_token done_with_def new split: prod.split)
  then obtain s where run: "read_star_chart profile_backend 0x140000000 0x02CD8000 demo_login ((), string_cache_default) = (s, Ok ?x)" ..
  from star_chart_complete [OF run] run show ?thesis by (cases s) auto
qed

subsection \<open>Inventory\<close>

definition demo_counted :: "InventoryFamilyFacts \<Rightarrow> InventoryItemCount list" where
  "demo_counted facts = (if ff_family facts = MiscItems then [\<lparr>iq_item_key = ItemKey ''/Lotus/Types/A'', iq_quantity = 7\<rparr>] else [])"

abbreviation demo_caches :: "nat \<Rightarrow> nat \<Rightarrow> unit caches" where
  "demo_caches b n \<equiv> ((static_reader () b n, string_cache_default), demo_items)"

lemma stack_codec: "\<exists>c s r. rc_count STACKS = AddressEncoded_count c s r \<and> codec_ok c \<and> c =
    \<lparr>sf_check = ObjectOffset 0x8, sf_stored = ObjectOffset 0xC, sf_rotate_left = 0x13, sf_address_shift = 0x3,
        sf_value_xor = 0xAC7E8740, sf_check_xor = 0x9C084A47\<rparr>"
  by (simp add: STACKS_def codec_ok_def)

lemma stack_fields: "rc_item_type STACKS = ObjectOffset 0" "rc_bytes STACKS = 16"
  by (simp_all add: STACKS_def)

lemma demo_family_empty:
  assumes "profile_bytes () (0x10D608 + ucast (offset_get (ff_vector facts))) = []" and "ff_family facts \<noteq> MiscItems" and "rc_bytes (ff_record facts) \<noteq> 0"
    and "offset_get (ff_vector facts) < 0x10000" and "32 \<le> b" and "2 \<le> n"
  shows "read_family profile_backend 0x10D608 facts (demo_caches b n) =
    (demo_caches (b - 32) (n - 2), Ok \<lparr>fs_family = ff_family facts, fs_items = demo_counted facts\<rparr>)"
proof -
  have small: "unat (0x10D608 :: u64) + unat (offset_get (ff_vector facts)) + 16 \<le> 0x00007FFFFFFFFFFF"
    using assms(4) by (simp add: word_less_nat_alt)
  have "read_vector profile_backend 0x10D608 (ff_vector facts) (rc_bytes (ff_record facts)) (static_reader () b n) = (static_reader () (b - 32) (n - 2), Ok (0, []))"
    using static_empty_vector [OF small _ assms(3), of profile_bytes "()" b n] assms(1,5,6) by simp
  then show ?thesis
    using assms(2,3)
    by (simp add: read_family_def inventory_read_def with_error_def on_fst_def and_then_def done_with_def decode_inventory_def records_of_def
        project_items_def then_map_def demo_counted_def)
qed

lemma demo_family_misc:
  assumes "ff_family facts = MiscItems" and "ff_vector facts = ObjectOffset 0xD0" and "ff_record facts = STACKS" and "48 \<le> b" and "3 \<le> n"
  shows "read_family profile_backend 0x10D608 facts (demo_caches b n) =
    (demo_caches (b - 48) (n - 3), Ok \<lparr>fs_family = ff_family facts, fs_items = demo_counted facts\<rparr>)"
proof -
  obtain c x y where c: "rc_count STACKS = AddressEncoded_count c x y" "codec_ok c" "sf_check c = ObjectOffset 8" "sf_stored c = ObjectOffset 12"
    using stack_codec by auto
  obtain check stored where enc: "scalar_encode c 7 0x21000C = (check, stored)" by fastforce
  let ?bs = "to_le (0x220000 :: u64) @ to_le check @ to_le stored"
  have content: "profile_bytes () 0x210000 = ?bs"
    by (simp add: profile_bytes_def profile_memory_def c(1) stored_scalar_def enc)
  have vector: "read_vector profile_backend 0x10D608 (ObjectOffset 0xD0) (rc_bytes STACKS) (static_reader () b n) = (static_reader () (b - 48) (n - 3), Ok (0x210000, ?bs))"
    using static_vector [of "0x10D608" "0xD0" "16" profile_bytes "()" "0x210000" "16" b n] assms(4,5)
    by (simp add: profile_contents content static_fill stack_fields)
  have fields: "record_u64 \<lparr>rv_bytes = ?bs, rv_at = at\<rparr> (ObjectOffset 0) = Ok 0x220000" "record_u32 \<lparr>rv_bytes = ?bs, rv_at = at\<rparr> (ObjectOffset 8) = Ok check"
      "record_u32 \<lparr>rv_bytes = ?bs, rv_at = at\<rparr> (ObjectOffset 12) = Ok stored" for at
    by (simp_all add: record_u32_def record_u64_def record_field_def usize_checked_add_def usize_max_def ok_or_def from_to_le)
  have "scalar_decode c check stored 0x21000C = Some 7" using scalar_decode_encode' [OF c(2)] enc by simp
  then have "record_count STACKS 0x210000 0 \<lparr>rv_bytes = ?bs, rv_at = at\<rparr> = Ok 7" for at
    by (simp add: record_count_def c layout_field_def fields checked_add_def ok_or_def)
  then have one: "decode_record STACKS 0x210000 0 ?bs = Ok (0x220000, 7)"
    using fields(1) by (simp add: decode_record_def layout_field_def is_user_address_def MAX_USER_ADDRESS_def stack_fields)
  have "records_of 16 ?bs = [?bs]" by (simp add: records_of_def)
  then have "decode_inventory 0x210000 ?bs STACKS = Ok [(0x220000, 7)]"
    by (simp add: decode_inventory_def stack_fields one add_count_def checked_add_def ok_or_def)
  moreover have "project_items profile_backend [(0x220000, 7)] (demo_caches b' n') =
      (demo_caches b' n', Ok [\<lparr>iq_item_key = ItemKey ''/Lotus/Types/A'', iq_quantity = 7\<rparr>])" for b' n'
    by (simp add: project_items_def then_map_def and_then_def with_error_def resolve_item_path_def demo_items_def done_with_def add_count_def checked_add_def ok_or_def)
  ultimately show ?thesis
    using assms(1-3) vector
    by (simp add: read_family_def inventory_read_def with_error_def on_fst_def and_then_def done_with_def demo_counted_def)
qed

lemma demo_offsets:
  "list_all (\<lambda>f. rc_bytes (ff_record f) \<noteq> 0 \<and> offset_get (ff_vector f) < 0x10000 \<and>
     (if ff_family f = MiscItems then ff_vector f = ObjectOffset 0xD0 \<and> ff_record f = STACKS
      else profile_bytes () (0x10D608 + ucast (offset_get (ff_vector f))) = [])) FAMILIES"
  by (simp add: FAMILIES_def named_family_def direct_family_def EQUIPMENT_def SKINS_def UPGRADES_def CONSUMABLES_def BEASTS_def VESSELS_def
      WRECKAGE_def stack_fields profile_bytes_def profile_memory_def)

lemma demo_families:
  "list_all (\<lambda>f. rc_bytes (ff_record f) \<noteq> 0 \<and> offset_get (ff_vector f) < 0x10000 \<and>
     (if ff_family f = MiscItems then ff_vector f = ObjectOffset 0xD0 \<and> ff_record f = STACKS
      else profile_bytes () (0x10D608 + ucast (offset_get (ff_vector f))) = [])) fs \<Longrightarrow> 48 * length fs \<le> b \<Longrightarrow> 3 * length fs \<le> n \<Longrightarrow>
   \<exists>b' n'. b \<le> b' + 48 * length fs \<and> n \<le> n' + 3 * length fs \<and>
     read_families profile_backend 0x10D608 fs (demo_caches b n) =
       (demo_caches b' n', Ok (map (\<lambda>f. \<lparr>fs_family = ff_family f, fs_items = demo_counted f\<rparr>) fs))"
proof (induction fs arbitrary: b n)
  case (Cons f fs)
  have "\<exists>b1 n1. b \<le> b1 + 48 \<and> n \<le> n1 + 3 \<and> read_family profile_backend 0x10D608 f (demo_caches b n) =
      (demo_caches b1 n1, Ok \<lparr>fs_family = ff_family f, fs_items = demo_counted f\<rparr>)"
  proof (cases "ff_family f = MiscItems")
    case True
    then show ?thesis using Cons.prems demo_family_misc [of f b n] by (intro exI [of _ "b - 48"] exI [of _ "n - 3"]) simp
  next
    case False
    then show ?thesis using Cons.prems demo_family_empty [of f b n] by (intro exI [of _ "b - 32"] exI [of _ "n - 2"]) simp
  qed
  then obtain b1 n1 where one: "b \<le> b1 + 48" "n \<le> n1 + 3"
      "read_family profile_backend 0x10D608 f (demo_caches b n) = (demo_caches b1 n1, Ok \<lparr>fs_family = ff_family f, fs_items = demo_counted f\<rparr>)" by blast
  obtain b' n' where rest: "b1 \<le> b' + 48 * length fs" "n1 \<le> n' + 3 * length fs"
      "read_families profile_backend 0x10D608 fs (demo_caches b1 n1) =
       (demo_caches b' n', Ok (map (\<lambda>f. \<lparr>fs_family = ff_family f, fs_items = demo_counted f\<rparr>) fs))"
    using Cons.IH [of b1 n1] Cons.prems one(1,2) by auto
  show ?case
    by (intro exI [of _ b'] exI [of _ n'] conjI)
      (use one(1,2) rest(1,2) in \<open>simp_all add: and_then_def one(3) rest(3) done_with_def\<close>)
qed (auto simp: done_with_def)

theorem inventory_exact_witness:
  "\<exists>s x. read_inventory profile_backend 0x140000000 0x02CD8000 demo_login ((), string_cache_default, demo_items) = (s, Ok x)
     \<and> iv_account_id x = demo_mine \<and> inventory_wf x \<and> inventory_quantity x MiscItems (ItemKey ''/Lotus/Types/A'') = 7"
proof -
  let ?families = "map (\<lambda>f. \<lparr>fs_family = ff_family f, fs_items = demo_counted f\<rparr>) FAMILIES"
  let ?x = "\<lparr>iv_account_id = demo_mine, iv_families = ?families\<rparr>"
  have "list_all (\<lambda>f. items_wf (fs_items f)) ?families" by (auto simp: list_all_iff items_wf_def demo_counted_def)
  then have new: "inventory_new demo_mine ?families = Ok ?x"
    using FAMILIES_order by (simp add: inventory_new_Ok inventory_wf_def comp_def)
  have "length FAMILIES = 40" using arg_cong [OF FAMILIES_order, of length] by (simp add: ALL_FAMILIES_def)
  then obtain b n where families: "33554407 \<le> b + 1920" "65534 \<le> n + 120"
      "read_families profile_backend 0x10D608 FAMILIES (demo_caches 33554407 65534) = (demo_caches b n, Ok ?families)"
    using demo_families [OF demo_offsets, of 33554407 65534] by auto
  then have after: "read_commit_state profile_backend 0x100000 (static_reader () b n) = (static_reader () (b - 25) (n - 2), Ok (replicate 24 0))"
    using demo_commit [of b n] by simp
  have lift: "run (static_reader () b n) = (r', y) \<Longrightarrow>
      inventory_read run (demo_caches b n) = (((r', string_cache_default), demo_items), map_err Inventory_read y)" for run r' b n and y :: "('a, TargetError) result"
    by (simp add: inventory_read_def with_error_def on_fst_def)
  have owner: "object_address (static_reader () b n) 0x100000 (io_offset INVENTORY_OWNER) VECTOR_HEADER_BYTES = Ok 0x10D608" for b n
    using static_object [of "0x100000" "0xD608" 16 "()" b n] by (simp add: INVENTORY_OWNER_def VECTOR_HEADER_BYTES_def)
  have "inventory_once profile_backend demo_login (demo_caches 33554432 65536) = (demo_caches (b - 25) (n - 2), Ok ?x)"
  proof -
    have 1: "inventory_read (of_reader (\<lambda>r. object_address r 0x100000 (io_offset INVENTORY_OWNER) VECTOR_HEADER_BYTES)) (demo_caches 33554432 65536) =
        (demo_caches 33554432 65536, Ok 0x10D608)"
      by (subst lift) (auto simp: of_reader_def owner)
    have 2: "inventory_read (read_commit_state profile_backend 0x100000) (demo_caches 33554432 65536) = (demo_caches 33554407 65534, Ok (replicate 24 0))"
      using lift [of "read_commit_state profile_backend 0x100000" 33554432 65536] demo_commit [of 33554432 65536 "()"] by simp
    have 3: "inventory_read (read_commit_state profile_backend 0x100000) (demo_caches b n) = (demo_caches (b - 25) (n - 2), Ok (replicate 24 0))"
      using lift [of "read_commit_state profile_backend 0x100000" b n] after by simp
    show ?thesis
      by (simp only: inventory_once_def Let_def demo_profile and_then_def 1 2 3 families(3) prod.case result.case new done_with_def map_err.simps
          if_False simp_thms)
  qed
  then obtain m strings items where run:
      "read_inventory profile_backend 0x140000000 0x02CD8000 demo_login ((), string_cache_default, demo_items) = ((m, strings, items), Ok ?x)"
    by (simp add: read_inventory_def with_item_caches_def static_new)
  have misc: "find (\<lambda>f. ff_family f = MiscItems) FAMILIES = Some (FAMILIES ! 7)" "ff_family (FAMILIES ! 7) = MiscItems"
    by (simp_all add: FAMILIES_def named_family_def direct_family_def)
  have "find (\<lambda>f. fs_family f = MiscItems) (map (\<lambda>f. \<lparr>fs_family = ff_family f, fs_items = demo_counted f\<rparr>) fs) =
      map_option (\<lambda>f. \<lparr>fs_family = ff_family f, fs_items = demo_counted f\<rparr>) (find (\<lambda>f. ff_family f = MiscItems) fs)" for fs
    by (induction fs) simp_all
  then have "inventory_quantity ?x MiscItems (ItemKey ''/Lotus/Types/A'') = 7"
    by (simp add: inventory_quantity_def inventory_family_def misc demo_counted_def)
  then show ?thesis using run inventory_exact [OF run demo_items_ok, THEN conjunct1]
      inventory_exact [OF run demo_items_ok, THEN conjunct2, THEN conjunct1] by auto
qed

theorem inventory_facts_fit_witness:
  "decode_inventory 0x210000 (replicate 16 0) STACKS = Err (InvalidItemType 0 0) \<and> integrity_error (InvalidItemType 0 0)"
proof -
  have "record_u64 \<lparr>rv_bytes = replicate 16 0, rv_at = ''inventory record''\<rparr> (ObjectOffset 0) = Ok 0"
    by (simp add: record_u64_def record_field_def usize_checked_add_def usize_max_def ok_or_def from_le_zeros)
  then have "decode_record STACKS 0x210000 0 (replicate 16 0) = Err (InvalidItemType 0 0)"
    by (simp add: decode_record_def layout_field_def stack_fields is_user_address_def)
  moreover have "records_of 16 (replicate 16 (0 :: u8)) = [replicate 16 0]" by (simp add: records_of_def)
  ultimately have run: "decode_inventory 0x210000 (replicate 16 0) STACKS = Err (InvalidItemType 0 0)"
    by (simp add: decode_inventory_def stack_fields)
  let ?facts = "named_family MiscItems ''MiscItems'' 0xD0 0x13F6912 0x13F6922 0x219CB40 STACKS"
  have "?facts \<in> set FAMILIES" "ff_record ?facts = STACKS" by (simp_all add: FAMILIES_def named_family_def)
  from inventory_facts_fit [OF this(1), of "replicate 16 0" "0x210000"] this(2) run show ?thesis by (simp add: stack_fields)
qed

subsection \<open>Mastery\<close>

lemma stored_parts:
  assumes "codec_ok codec"
  obtains check stored where "stored_scalar codec v at = to_le check @ to_le stored" and "scalar_decode codec check stored at = Some v"
proof -
  obtain check stored where enc: "scalar_encode codec v at = (check, stored)" by fastforce
  then show ?thesis using that [of check stored] scalar_decode_encode' [OF assms, of check stored at v] by (simp add: stored_scalar_def)
qed

lemma mastery_codecs: "codec_ok (mx_non_item_xp_codec MASTERY)" "sf_check (mx_non_item_xp_codec MASTERY) = ObjectOffset 0"
    "sf_stored (mx_non_item_xp_codec MASTERY) = ObjectOffset 4" "codec_ok (mx_xp MASTERY)" "sf_check (mx_xp MASTERY) = ObjectOffset 8"
    "sf_stored (mx_xp MASTERY) = ObjectOffset 12" "mx_item_type MASTERY = ObjectOffset 0" "mx_record_bytes MASTERY = 16"
  by (simp_all add: MASTERY_def codec_ok_def)

lemma demo_read_pool:
  assumes "profile_bytes () a = stored_scalar (mx_non_item_xp_codec MASTERY) v (a + 4)" and "a = 0x100000 + ucast offset"
    and "offset < 0x10000" and "8 \<le> b" and "1 \<le> n"
  shows "read_pool profile_backend 0x100000 (ObjectOffset offset) (mx_non_item_xp_codec MASTERY) (static_reader () b n) = (static_reader () (b - 8) (n - 1), Ok v)"
proof -
  obtain check stored where w: "stored_scalar (mx_non_item_xp_codec MASTERY) v (a + 4) = to_le check @ to_le stored"
      "scalar_decode (mx_non_item_xp_codec MASTERY) check stored (a + 4) = Some v" by (rule stored_parts [OF mastery_codecs(1)])
  have small: "unat offset < 0x10000" using assms(3) by (simp add: word_less_nat_alt)
  then have a: "unat a = 0x100000 + unat offset" unfolding assms(2) using unat_add_lem [of "0x100000 :: u64" "ucast offset"] by simp
  then have "a \<noteq> 0" by auto
  have fields: "record_u32 \<lparr>rv_bytes = to_le check @ to_le stored, rv_at = at\<rparr> (ObjectOffset 0) = Ok check"
      "record_u32 \<lparr>rv_bytes = to_le check @ to_le stored, rv_at = at\<rparr> (ObjectOffset 4) = Ok stored" for at
    by (simp_all add: record_u32_def record_field_def usize_checked_add_def usize_max_def ok_or_def from_to_le)
  have obj: "object_address (static_reader () b n) 0x100000 (ObjectOffset offset) 8 = Ok a"
    using static_object [of "0x100000" offset 8 "()" b n] small by (simp add: assms(2))
  have read: "read_at profile_backend a 8 (static_reader () b n) = (static_reader () (b - 8) (n - 1), Ok (to_le check @ to_le stored))"
    using assms(1,4,5) a small \<open>a \<noteq> 0\<close> by (simp add: static_read_at w(1) static_fill)
  have at: "object_address (static_reader () b' n') a (ObjectOffset 4) 4 = Ok (a + 4)" for b' n'
    using static_object [of a 4 4 "()" b' n'] a small \<open>a \<noteq> 0\<close> by simp
  show ?thesis
    by (simp add: read_pool_def and_then_def of_reader_def obj read done_with_def mastery_codecs fields at w(2) ok_or_def Let_def)
qed

lemma demo_small:
  "1 \<le> b \<Longrightarrow> 1 \<le> n \<Longrightarrow> read_object_u8 profile_backend 0x10D608 (ObjectOffset 0xEA8) (static_reader () b n) = (static_reader () (b - 1) (n - 1), Ok 0)"
  "4 \<le> b \<Longrightarrow> 1 \<le> n \<Longrightarrow> read_object_u32 profile_backend 0x10D608 (ObjectOffset 0xEAC) (static_reader () b n) = (static_reader () (b - 4) (n - 1), Ok 4000000000)"
  by (simp_all add: read_object_u8_def read_object_u32_def then_map_def and_then_def static_read_object profile_contents done_with_def static_fill from_to_le)
    (simp_all add: fill_def from_le_zeros)

definition demo_rank :: u16 where
  "demo_rank = word_rotl 1 0 XOR address_mask 2 (0x10DA16 :: u64) 3 XOR 0x810B"

lemma demo_read_rank:
  assumes "4 \<le> b" and "1 \<le> n"
  shows "read_rank profile_backend 0x10D608 (static_reader () b n) = (static_reader () (b - 4) (n - 1), Ok demo_rank)"
proof -
  let ?bs = "to_le (0xE85E :: u16) @ to_le (0 :: u16)"
  have fields: "record_u16 \<lparr>rv_bytes = ?bs, rv_at = at\<rparr> (ObjectOffset 0) = Ok 0xE85E" "record_u16 \<lparr>rv_bytes = ?bs, rv_at = at\<rparr> (ObjectOffset 2) = Ok 0" for at
    by (simp_all add: record_u16_def record_field_def usize_checked_add_def usize_max_def ok_or_def from_to_le)
  have "u16_decode (mx_rank_codec MASTERY) 0xE85E 0 0x10DA16 = Some demo_rank" by (simp add: u16_decode_def MASTERY_def demo_rank_def word_le_nat_alt)
  then show ?thesis
    using assms by (simp add: read_rank_def and_then_def of_reader_def MASTERY_def static_object static_read_at profile_contents static_fill done_with_def fields ok_or_def)
qed

lemma demo_progression:
  assumes "34 \<le> b" and "7 \<le> n"
  shows "read_progression profile_backend 0x100000 0x10D608 (static_reader () b n) =
     (static_reader () (b - 34) (n - 7), Ok \<lparr>pg_non_item_xp = [10, 20, 30], pg_item_xp = 4000000000, pg_rank = demo_rank\<rparr>)"
proof -
  have fields: "mx_non_item_xp MASTERY = [ObjectOffset 0xE4C0, ObjectOffset 0xE4C8, ObjectOffset 0xE4D0]" "mx_item_xp_dirty MASTERY = ObjectOffset 0xEA8"
      "mx_item_xp MASTERY = ObjectOffset 0xEAC" by (simp_all add: MASTERY_def)
  have pool: "8 \<le> b' \<Longrightarrow> 1 \<le> n' \<Longrightarrow> read_pool profile_backend 0x100000 (ObjectOffset 0xE4C0) (mx_non_item_xp_codec MASTERY) (static_reader () b' n') = (static_reader () (b' - 8) (n' - 1), Ok 10)"
      "8 \<le> b' \<Longrightarrow> 1 \<le> n' \<Longrightarrow> read_pool profile_backend 0x100000 (ObjectOffset 0xE4C8) (mx_non_item_xp_codec MASTERY) (static_reader () b' n') = (static_reader () (b' - 8) (n' - 1), Ok 20)"
      "8 \<le> b' \<Longrightarrow> 1 \<le> n' \<Longrightarrow> read_pool profile_backend 0x100000 (ObjectOffset 0xE4D0) (mx_non_item_xp_codec MASTERY) (static_reader () b' n') = (static_reader () (b' - 8) (n' - 1), Ok 30)" for b' n'
    by (rule demo_read_pool; simp add: profile_contents)+
  obtain b' n' where bn: "b = 34 + b'" "n = 7 + n'" using le_Suc_ex [OF assms(1)] le_Suc_ex [OF assms(2)] by blast
  show ?thesis
    unfolding bn
    by (simp add: read_progression_def and_then_def done_with_def require_calculated_def fields demo_small pool demo_read_rank)
qed


subsection \<open>The relic picker\<close>

definition external_header :: "u64 \<Rightarrow> u8 list" where
  "external_header pointer = to_le pointer @ [24, 0, 0, 0, 0, 0, 0, 0xFF]"

lemma external_decode:
  assumes "pointer \<noteq> 0"
  shows "header_storage (external_header pointer) = Ok (External pointer 24)"
proof -
  have len: "from_le [24, 0, 0, 0] = (24 :: u32)" by (simp add: from_le_def)
  have parts: "external_header pointer ! 15 = 0xFF" "take 8 (external_header pointer) = to_le pointer" "take 4 (drop 8 (external_header pointer)) = [24, 0, 0, 0]"
    by (simp_all add: external_header_def nth_append)
  show ?thesis using assms by (simp add: header_storage_def parts from_to_le len Let_def)
qed

lemma static_external_string:
  assumes "f m (object + ucast offset) = external_header pointer @ rest" and "f m pointer = bs" and "length bs = 24" and "0 \<notin> set bs" and "valid_utf8 bs"
    and "object \<noteq> 0" and "unat object + unat offset + 16 \<le> 0x00007FFFFFFFFFFF" and "pointer \<noteq> 0" and "unat pointer + 24 \<le> 0x00007FFFFFFFFFFF"
    and "112 \<le> b" and "6 \<le> n"
  shows "read_string (static_backend f) object (ObjectOffset offset) 24 (static_reader m b n) = (static_reader m (b - 112) (n - 6), Ok (string_of_bytes bs))"
proof -
  let ?a = "object + ucast offset"
  have small: "unat object + unat (ucast offset :: u64) < 2 ^ 64" using assms(7) by simp
  then have sum: "unat ?a = unat object + unat offset" using unat_add_lem [of object "ucast offset :: u64"] by simp
  moreover have "0 < unat object" using assms(6) by (simp add: unat_gt_0)
  ultimately have nonzero: "?a \<noteq> 0" by auto
  have header: "fill 16 (f m ?a) = external_header pointer" by (simp add: assms(1) fill_def external_header_def)
  have decode: "decode_header (external_header pointer) 24 = Ok (External pointer 24)" by (simp add: decode_header_def external_decode assms(8))
  have once: "56 \<le> b' \<Longrightarrow> 3 \<le> n' \<Longrightarrow> read_string_once (static_backend f) ?a 24 (static_reader m b' n') = (static_reader m (b' - 56) (n' - 3), Ok (string_of_bytes bs))" for b' n'
    using assms(2-5,7-9) sum nonzero
    by (simp add: read_string_once_def and_then_def static_read_at done_with_def header decode string_contents_def static_fill checked_string_def numeral_3_eq_3)
  show ?thesis
    using assms(6,7,10,11) by (simp add: read_string_def and_then_def done_with_def static_object read_stable_def once)
qed

definition demo_rewards :: "u8 list" where
  "demo_rewards = demo_reward 0x260000 @ demo_reward 0x260100"

lemma demo_reward_parts:
  "demo_reward p = external_header p @ replicate 56 0 @ to_le (0x220000 :: u64) @ [1] @ replicate 31 0" "length (demo_reward p) = 112"
  by (simp_all add: demo_reward_def external_header_def)

lemma demo_reward_type: "reward_type (demo_reward p) = Ok (Some 0x220000)"
proof -
  have "record_field \<lparr>rv_bytes = demo_reward p, rv_at = at\<rparr> (ObjectOffset 0x50) 1 = Ok [1]"
      "record_u64 \<lparr>rv_bytes = demo_reward p, rv_at = at\<rparr> (ObjectOffset 0x48) = Ok 0x220000" for at
    by (simp_all add: record_u64_def record_field_def usize_checked_add_def usize_max_def ok_or_def demo_reward_def from_to_le)
  then show ?thesis by (simp add: reward_type_def Let_def world_object_def identity_from_address_def object_identity_new_def ok_or_def)
qed

lemma demo_rewards_headers:
  "take 16 (drop (0 * RELIC_RECORD_BYTES + 0) demo_rewards) = external_header 0x260000"
  "take 16 (drop (1 * RELIC_RECORD_BYTES + 0) demo_rewards) = external_header 0x260100"
  "take 16 (drop (0 * RELIC_RECORD_BYTES + 16) demo_rewards) = replicate 16 0"
  "take 16 (drop (0 * RELIC_RECORD_BYTES + 32) demo_rewards) = replicate 16 0"
  "take 16 (drop (0 * RELIC_RECORD_BYTES + 48) demo_rewards) = replicate 16 0"
  by (simp_all add: demo_rewards_def demo_reward_parts external_header_def RELIC_RECORD_BYTES_def)

lemma zero_header: "encoded_length (replicate 16 0) = Ok 15"
  by (simp add: encoded_length_def decode_header_def header_storage_def usize_max_def)

lemma external_length: "pointer \<noteq> 0 \<Longrightarrow> encoded_length (external_header pointer) = Ok 24"
  by (simp add: encoded_length_def decode_header_def external_decode usize_max_def)

lemma utf8_letters: "valid_utf8 (replicate n 97)" "valid_utf8 (replicate n 98)"
  by (induction n) (simp_all add: byte_in_def)

theorem relic_order_witness:
  "\<exists>s. relic_once profile_backend 0x240000 demo_mine (demo_caches 1000 100) =
     (s, Ok [(demo_mine, RelicRewardChoice (ItemKey ''/Lotus/Types/A'')), (demo_other, RelicRewardChoice (ItemKey ''/Lotus/Types/A''))])
   \<and> distinct [demo_mine, demo_other]"
proof -
  let ?key = "ItemKey ''/Lotus/Types/A''"
  let ?c = "RelicRewardChoice ?key"
  have header: "16 \<le> b \<Longrightarrow> 1 \<le> n \<Longrightarrow> read_object profile_backend 0x240000 RELIC_VECTOR 16 (static_reader () b n) =
      (static_reader () (b - 16) (n - 1), Ok (vector_header 0x250000 0xE0))" for b n
    by (simp add: RELIC_VECTOR_def static_read_object profile_contents static_fill vector_header_def)
  have parts: "take 8 (vector_header 0x250000 0xE0) = to_le (0x250000 :: u64)" "take 4 (drop 8 (vector_header 0x250000 0xE0)) = to_le (0xE0 :: u32)"
      "take 4 (drop 12 (vector_header 0x250000 0xE0)) = to_le (0xE0 :: u32)" by (simp_all add: vector_header_def)
  have bounds: "vector_bounds (vector_header 0x250000 0xE0) = Ok (0x250000, 224)"
    by (simp add: vector_bounds_def parts from_to_le MAX_CHOICES_def RELIC_RECORD_BYTES_def world_object_def identity_from_address_def
        object_identity_new_def ok_or_def)
  have payload: "224 \<le> b \<Longrightarrow> 1 \<le> n \<Longrightarrow> read_at profile_backend 0x250000 224 (static_reader () b n) = (static_reader () (b - 224) (n - 1), Ok demo_rewards)" for b n
    by (simp add: static_read_at profile_contents static_fill demo_rewards_def demo_reward_parts(2))
  have records: "records_of RELIC_RECORD_BYTES demo_rewards = [demo_reward 0x260000, demo_reward 0x260100]"
    by (simp add: records_of_def RELIC_RECORD_BYTES_def demo_rewards_def demo_reward_parts(2) numeral_2_eq_2)
  have resolved: "with_error relic_item_error (resolve_item_path profile_backend ITEM_TYPES 0x220000 None) (demo_caches b n) = (demo_caches b n, Ok (?key, None))" for b n
    by (simp add: with_error_def resolve_item_path_def demo_items_def)
  have rewards: "qualified_rewards profile_backend 0 [demo_reward 0x260000, demo_reward 0x260100] None (demo_caches b n) = (demo_caches b n, Ok [(0, ?c), (1, ?c)])" for b n
    by (simp add: and_then_def done_with_def demo_reward_type resolved)
  have texts: "string_of_bytes (replicate 24 97) = account_text demo_other" "string_of_bytes (replicate 24 98) = account_text demo_mine"
    by (simp_all add: string_of_bytes_def demo_other_def demo_mine_def char_of_def bit_simps)
  have accounts: "account_id_new (account_text demo_other) = Ok demo_other" "account_id_new (account_text demo_mine) = Ok demo_mine" "demo_mine \<noteq> demo_other"
    by (simp_all add: account_id_new_def demo_other_def demo_mine_def lowercase_hex_def ascii_digit_def less_eq_char_def list_all_iff)
  have read: "112 \<le> b \<Longrightarrow> 6 \<le> n \<Longrightarrow> read_string profile_backend 0x250000 (ObjectOffset 0) 24 (static_reader () b n) =
        (static_reader () (b - 112) (n - 6), Ok (account_text demo_other))"
      "112 \<le> b \<Longrightarrow> 6 \<le> n \<Longrightarrow> read_string profile_backend 0x250070 (ObjectOffset 0) 24 (static_reader () b n) =
        (static_reader () (b - 112) (n - 6), Ok (account_text demo_mine))" for b n
    using static_external_string [of profile_bytes "()" "0x250000" 0 "0x260000" _ "replicate 24 97" b n]
      static_external_string [of profile_bytes "()" "0x250070" 0 "0x260100" _ "replicate 24 98" b n] texts
    by (simp_all add: profile_contents demo_reward_parts(1) utf8_letters)
  have object: "object_address (static_reader () b n) 0x250000 (ObjectOffset 0) 112 = Ok 0x250000"
      "object_address (static_reader () b n) 0x250000 (ObjectOffset 112) 112 = Ok 0x250070" for b n
    using static_object [of "0x250000" 0 112 "()" b n] static_object [of "0x250000" 112 112 "()" b n] by simp_all
  have fields: "224 \<le> b \<Longrightarrow> 12 \<le> n \<Longrightarrow> field_accounts profile_backend 0x250000 demo_rewards 0 [0, 1] [] (static_reader () b n) =
        (static_reader () (b - 224) (n - 12), Ok (Some [demo_other, demo_mine]))"
      "field \<in> {16, 32, 48} \<Longrightarrow> field_accounts profile_backend 0x250000 demo_rewards field [0, 1] [] (static_reader () b n) = (static_reader () b n, Ok None)" for field b n
    using demo_rewards_headers accounts
    by (auto simp: and_then_def done_with_def of_reader_def external_length zero_header RELIC_RECORD_BYTES_def object read)
  have ids: "224 \<le> b \<Longrightarrow> 12 \<le> n \<Longrightarrow> account_ids profile_backend 0x250000 demo_rewards [0, 1] (static_reader () b n) =
      (static_reader () (b - 224) (n - 12), Ok [demo_other, demo_mine])" for b n
    by (simp add: account_ids_def and_then_def done_with_def fields [unfolded One_nat_def] ok_or_def del: field_accounts.simps)
  have order: "display_order [demo_other, demo_mine] [?c, ?c] demo_mine = Ok [(demo_mine, ?c), (demo_other, ?c)]"
    using accounts(3) by (simp add: display_order_def less_eq_prod_def)
  have "\<exists>s. relic_once profile_backend 0x240000 demo_mine (demo_caches 1000 100) = (s, Ok [(demo_mine, ?c), (demo_other, ?c)])"
    by (simp add: relic_once_def relic_reader_def on_fst_def and_then_def done_with_def header bounds payload records rewards ids [unfolded One_nat_def] order
        del: qualified_rewards.simps)
  then obtain s where run: "relic_once profile_backend 0x240000 demo_mine (demo_caches 1000 100) = (s, Ok [(demo_mine, ?c), (demo_other, ?c)])" ..
  show ?thesis using run relic_order [OF run demo_items_ok] by auto
qed

end
