(* ===== verification/Warframe_Readers.thy ===== *)
theory Warframe_Readers
  imports Account_Switch Inventory_Validation Mastery_Validation Relic_Choices
    Chat_Validation Session_Demo Warframe_Demo
begin

section \<open>The session with the readers of the code\<close>

text \<open>
  The account session of \<open>Session_State\<close> takes its readers as one record. Here that record is filled with
  the readers and layout checks of \<open>provider/src/topics\<close>, as \<open>session/polling.rs\<close>, \<open>session/visual.rs\<close> and
  \<open>session/validation.rs\<close> call them, with the error categories of \<open>session/health.rs\<close>. The session's own
  caches are the string tokens and the item types. What remains a parameter is the process
  (\<open>ProcessMemory\<close> and its list of modules), \<open>serde_json\<close> and the host.
\<close>

subsection \<open>Categories of reader errors\<close>

fun item_unavailable :: "ItemTypeError \<Rightarrow> SdkUnavailableReason" where
  "item_unavailable (Item_read e) = read_unavailable e"
| "item_unavailable (Item_invalid at) = SdkValidationFailed ''item type data failed validation''"

fun inventory_unavailable :: "InventoryError \<Rightarrow> SdkUnavailableReason" where
  "inventory_unavailable (Inventory_read e) = read_unavailable e"
| "inventory_unavailable (Inventory_item (Item_read e)) = read_unavailable e"
| "inventory_unavailable (Inventory_unsupported family at) = SdkUnsupportedBuild"
| "inventory_unavailable _ = SdkValidationFailed ''inventory records failed validation''"

fun mastery_unavailable :: "MasteryError \<Rightarrow> SdkUnavailableReason" where
  "mastery_unavailable (Mastery_read e) = read_unavailable e"
| "mastery_unavailable (Mastery_item e) = item_unavailable e"
| "mastery_unavailable (Mastery_model e) = SdkValidationFailed ''mastery progression failed validation''"

subsection \<open>Samples\<close>

datatype TopicData =
    Inventory_data InventorySnapshot
  | Currencies_data CurrencySnapshot
  | Mastery_data MasterySnapshot
  | Intrinsics_data IntrinsicsSnapshot
  | Star_chart_data StarChartSnapshot

fun data_account :: "TopicData \<Rightarrow> AccountId" where
  "data_account (Inventory_data s) = iv_account_id s"
| "data_account (Currencies_data s) = cs_account_id s"
| "data_account (Mastery_data s) = ms_account_id s"
| "data_account (Intrinsics_data s) = in_account_id s"
| "data_account (Star_chart_data s) = ss_account_id s"

type_synonym 'm sampling = "'m \<times> StringTokenCache \<times> ItemTypeCache"

definition plain_reader :: "('m, 'a, 'e) attempt \<Rightarrow> ('m sampling, 'a, 'e) attempt" where
  "plain_reader run = on_fst run"

definition token_reader :: "('m \<times> StringTokenCache, 'a, 'e) attempt \<Rightarrow> ('m sampling, 'a, 'e) attempt" where
  "token_reader run = (\<lambda>(m, strings, items). case run (m, strings) of ((m', strings'), r) \<Rightarrow> ((m', strings', items), r))"

definition sampled :: "('a \<Rightarrow> 'd) \<Rightarrow> ('e \<Rightarrow> 'f) \<Rightarrow> ('s, 'a, 'e) attempt \<Rightarrow> ('s, 'd, 'f) attempt" where
  "sampled data category run = with_error category (then_map data run)"

definition sample_inventory ::
  "'m backend \<Rightarrow> Executable \<Rightarrow> ProfileDataIdentity \<Rightarrow> ('m sampling, TopicData, SdkUnavailableReason) attempt" where
  "sample_inventory be exe login =
     sampled Inventory_data inventory_unavailable (read_inventory be (ex_base exe) (ef_image_size (ex_actual exe)) login)"

definition sample_mastery ::
  "'m backend \<Rightarrow> Executable \<Rightarrow> ProfileDataIdentity \<Rightarrow> ('m sampling, TopicData, SdkUnavailableReason) attempt" where
  "sample_mastery be exe login =
     sampled Mastery_data mastery_unavailable (read_mastery be (ex_base exe) (ef_image_size (ex_actual exe)) login)"

text \<open>The player and the chat are read by the session itself and never asked for here.\<close>

definition sample_topic ::
  "'m backend \<Rightarrow> AccountTopic \<Rightarrow> Executable \<Rightarrow> ProfileDataIdentity \<Rightarrow> ('m sampling, TopicData, SdkUnavailableReason) attempt" where
  "sample_topic be t exe owner =
     (let base = ex_base exe; image_size = ef_image_size (ex_actual exe)
      in case t of
           INVENTORY \<Rightarrow> sample_inventory be exe owner
         | CURRENCIES \<Rightarrow> sampled Currencies_data read_unavailable (plain_reader (read_currencies be base image_size owner))
         | AccountTopic.MASTERY \<Rightarrow> sample_mastery be exe owner
         | INTRINSICS \<Rightarrow> sampled Intrinsics_data read_unavailable (plain_reader (read_intrinsics be base image_size owner))
         | STAR_CHART \<Rightarrow> sampled Star_chart_data read_unavailable (token_reader (read_star_chart be base image_size owner))
         | _ \<Rightarrow> done_with (Err SdkTargetNotReady))"

definition relic_choices ::
  "'m backend \<Rightarrow> SharedObject \<Rightarrow> AccountId \<Rightarrow> Executable \<Rightarrow> ('m sampling, RelicRewardChoice list, TargetError) attempt" where
  "relic_choices be rules account exe =
     with_item_caches id (read_relic_choices be rules account) (ex_base exe) (ef_image_size (ex_actual exe))"

subsection \<open>Layouts\<close>

definition item_layout :: "'m backend \<Rightarrow> Executable \<Rightarrow> ('m, unit, SdkUnavailableReason) attempt" where
  "item_layout be exe = (\<lambda>m.
     case target_reader_new m (ex_base exe) (ef_image_size (ex_actual exe)) READ_LIMITS of
       Err e \<Rightarrow> (m, Err (item_unavailable (Item_read e)))
     | Ok r \<Rightarrow> (case with_error item_unavailable (validate_item_types be ITEM_TYPES) r of (r', x) \<Rightarrow> (rd_memory r', x)))"

definition topic_layout :: "'m backend \<Rightarrow> AccountTopic \<Rightarrow> Executable \<Rightarrow> ('m, unit, SdkUnavailableReason) attempt" where
  "topic_layout be t exe =
     (let base = ex_base exe; image_size = ef_image_size (ex_actual exe)
      in case t of
           INVENTORY \<Rightarrow> with_error inventory_unavailable (validate_inventory_layout be base image_size)
         | CURRENCIES \<Rightarrow> with_error read_unavailable (validate_currencies_layout be base image_size)
         | PLAYER \<Rightarrow> with_error read_unavailable (validate_player_layout be base image_size)
         | CHAT \<Rightarrow> with_error read_unavailable (validate_chat_layout be base image_size)
         | AccountTopic.MASTERY \<Rightarrow> with_error read_unavailable (validate_mastery_layout be base image_size)
         | INTRINSICS \<Rightarrow> with_error read_unavailable (validate_intrinsics_layout be base image_size)
         | STAR_CHART \<Rightarrow> with_error read_unavailable (validate_star_chart_layout be base image_size))"

subsection \<open>The record\<close>

type_synonym warframe_value = "(TopicData, RelicRewardChoice) Published"

definition warframe_readers ::
  "'m backend \<Rightarrow> string \<Rightarrow> ('m, MemoryModule list, string) attempt \<Rightarrow> (warframe_value \<Rightarrow> ('v, string) result) \<Rightarrow> (TargetError \<Rightarrow> string) \<Rightarrow>
   ('v sink_call list \<Rightarrow> 'v sink_call \<Rightarrow> (unit, ProviderError) result) \<Rightarrow>
   (StringTokenCache \<times> ItemTypeCache, 'm, 'v, TopicData, RelicRewardChoice) Readers" where
  "warframe_readers be executable modules json error_text host =
     \<lparr>wr_backend = be, wr_executable = executable, wr_modules = modules,
      wr_inventory_owner = reader_check (validate_inventory_getter be), wr_profile_commit = reader_check (validate_commit_fields be),
      wr_string_pool = reader_check (validate_string_pool_layout be STRINGS), wr_item_types = item_layout be,
      wr_relic_layout = reader_check (validate_relic_layout be), wr_topic_layout = topic_layout be, wr_sample = sample_topic be,
      wr_relic_choices = relic_choices be, wr_to_value = json, wr_error_text = error_text, wr_host = host\<rparr>"

definition warframe_session :: "(StringTokenCache \<times> ItemTypeCache) WarframeSession" where
  "warframe_session = session_default (string_cache_default, [])"

subsection \<open>Every sample names its owner\<close>

lemma sampled_Ok: "sampled data category run s = (s', Ok d) \<Longrightarrow> \<exists>x. run s = (s', Ok x) \<and> d = data x"
  by (auto simp: sampled_def then_map_def and_then_Ok)

lemma read_inventory_account:
  assumes "read_inventory be base image_size login (m, strings, items) = (s', Ok x)"
  shows "iv_account_id x = ai_account_id (pd_account login)"
proof -
  obtain m' strings' items' where s': "s' = (m', strings', items')" by (rule prod_cases3)
  obtain s1 s2 where "inventory_once be login s1 = (s2, Ok x)"
    using with_item_caches_run [OF assms [unfolded read_inventory_def s']] by blast
  then show ?thesis by (auto simp: inventory_once_def inventory_new_def Let_def and_then_Ok split: if_splits result.splits)
qed

lemma read_mastery_account:
  assumes "read_mastery be base image_size login (m, strings, items) = (s', Ok x)"
  shows "ms_account_id x = ai_account_id (pd_account login)"
proof -
  obtain m' strings' items' where s': "s' = (m', strings', items')" by (rule prod_cases3)
  obtain s1 s2 where "mastery_once be login s1 = (s2, Ok x)"
    using with_item_caches_run [OF assms [unfolded read_mastery_def s']] by blast
  then show ?thesis by (auto simp: mastery_once_def Let_def and_then_Ok simp: mastery_new_Ok split: if_splits)
qed

lemma read_star_chart_account:
  assumes "read_star_chart be base image_size login (m, c) = (s', Ok x)"
  shows "ss_account_id x = ai_account_id (pd_account login)"
proof -
  obtain r r1 where "star_chart_once be login (r, c) = (r1, Ok x)"
    by (rule with_cached_reader_Ok [OF assms [unfolded read_star_chart_def]])
  then show ?thesis by (auto simp: star_chart_once_def Let_def and_then_Ok split: if_splits dest: star_chart_new_Ok)
qed

lemma read_intrinsics_account:
  "read_intrinsics be base image_size login m = (m', Ok x) \<Longrightarrow> in_account_id x = ai_account_id (pd_account login)"
  by (auto dest: read_intrinsics_Ok)

lemma sample_topic_named:
  assumes "sample_topic be t exe owner (m, strings, items) = (s', Ok d)"
  shows "data_account d = ai_account_id (pd_account owner)"
  using assms
  by (cases t)
    (auto simp: sample_topic_def sample_inventory_def sample_mastery_def Let_def plain_reader_def token_reader_def done_with_def on_fst_def split: prod.splits
      dest!: sampled_Ok dest: read_inventory_account read_mastery_account read_star_chart_account read_intrinsics_account read_currencies_account)

lemma warframe_data_named: "data_named (warframe_readers be executable modules json error_text host) data_account"
  unfolding data_named_def warframe_readers_def
  by (auto dest: sample_topic_named)

text \<open>
  C4: The session of the code never mixes accounts: with every topic read by its own reader - inventory, currencies,
  mastery, Intrinsics, star chart, player, chat and the relic picker - any sequence of generations and polls,
  over any memories, publishes on a topic data of one account only between two resets of it. What it relies
  on is the host's batch and that the JSON of a value still names its account.
\<close>

theorem warframe_accounts_separate:
  assumes "\<And>x v. json x = Ok v \<Longrightarrow> acc v = published_account data_account x" and "pm_capabilities manifest = WARFRAME_CAPABILITIES"
  shows "accounts_separate (warframe_readers be executable modules json error_text (host_answer ts n manifest)) acc warframe_session (\<lambda>_. None) events"
proof -
  let ?R = "warframe_readers be executable modules json error_text (host_answer ts n manifest)"
  have "real_host ?R ts n manifest" using assms(2) by (simp add: real_host_def warframe_readers_def)
  moreover have "values_named ?R acc data_account" using assms(1) by (simp add: values_named_def warframe_readers_def)
  ultimately show ?thesis
    unfolding warframe_session_def
    by (rule accounts_separate_from [OF _ _ warframe_data_named session_default_owned])
qed

theorem warframe_accounts_separate_witness:
  "accounts_separate (warframe_readers profile_backend ''Warframe.x64.exe'' (\<lambda>m. (m, Ok [])) Ok (\<lambda>e. []) (host_answer (\<lambda>v. Some ''v'') 64 player_manifest))
     (published_account data_account) warframe_session (\<lambda>_. None)
     [Generation (account_cap CURRENCIES), Polled WARFRAME_CAPABILITIES 0 () True, Polled [account_cap CURRENCIES] (seconds 1) () False]"
  by (rule warframe_accounts_separate) (simp_all add: player_manifest_def)

end
