(* ===== verification/Session_Caches.thy ===== *)
theory Session_Caches
  imports Warframe_Readers
begin

section \<open>The caches of a session\<close>

text \<open>
  The string tokens and item types a session remembers live as long as it does. The locale states what
  a cache invariant needs of the readers; within it every step of a poll keeps the invariant. It is
  interpreted on the readers of the code with the bounds of both caches.
\<close>

subsection \<open>Steps that keep a property of their state\<close>

definition stays :: "('s \<Rightarrow> bool) \<Rightarrow> ('s, 'a, 'e) attempt \<Rightarrow> bool" where
  "stays I m \<longleftrightarrow> (\<forall>s s' r. I s \<longrightarrow> m s = (s', r) \<longrightarrow> I s')"

named_theorems stays_rules

lemma staysD: "stays I m \<Longrightarrow> I s \<Longrightarrow> m s = (s', r) \<Longrightarrow> I s'"
  by (simp add: stays_def)

lemma stays_and_then [stays_rules]:
  assumes m: "stays I m" and f: "\<And>x. stays I (f x)"
  shows "stays I (and_then m f)"
  unfolding stays_def
proof (intro allI impI)
  fix s s' r
  assume "I s" and run: "and_then m f s = (s', r)"
  obtain s1 r1 where step: "m s = (s1, r1)" by fastforce
  then have "I s1" using m \<open>I s\<close> by (auto simp: stays_def)
  then show "I s'" using run step f by (cases r1) (auto simp: and_then_def stays_def)
qed

lemma stays_done [stays_rules]: "stays I (done_with r)"
  by (simp add: stays_def done_with_def)

lemma stays_then_map [stays_rules]: "stays I m \<Longrightarrow> stays I (then_map f m)"
  unfolding then_map_def by (intro stays_rules)

lemma stays_outcome [stays_rules]: "stays I m \<Longrightarrow> stays I (outcome_of m)"
  by (auto simp: stays_def outcome_of_def split: prod.splits)

lemma stays_with_error [stays_rules]: "stays I m \<Longrightarrow> stays I (with_error f m)"
  by (auto simp: stays_def with_error_def split: prod.splits)

lemma stays_each [stays_rules]: "(\<And>x. stays I (f x)) \<Longrightarrow> stays I (each_of xs f)"
  by (induction xs) (auto intro: stays_rules)

lemma stays_if [stays_rules]: "stays I m \<Longrightarrow> stays I m' \<Longrightarrow> stays I (if b then m else m')"
  by simp

lemma stays_case [stays_rules]:
  "(\<And>x. stays I (f x)) \<Longrightarrow> (\<And>e. stays I (g e)) \<Longrightarrow> stays I (case r of Ok x \<Rightarrow> f x | Err e \<Rightarrow> g e)"
  "stays I m \<Longrightarrow> (\<And>x. stays I (f' x)) \<Longrightarrow> stays I (case opt of None \<Rightarrow> m | Some x \<Rightarrow> f' x)"
  "(\<And>x y. stays I (h x y)) \<Longrightarrow> stays I (case p of (x, y) \<Rightarrow> h x y)"
  "stays I m \<Longrightarrow> (\<And>x. stays I (k x)) \<Longrightarrow> stays I (case res of Absent \<Rightarrow> m | Present x \<Rightarrow> k x)"
  by (auto split: result.splits option.splits prod.splits AccountResolution.splits)

lemma stays_on_fst: "stays I m \<Longrightarrow> stays (\<lambda>s. I (fst s)) (on_fst m)"
  by (auto simp: stays_def on_fst_def split: prod.splits)

lemma stays_beside [stays_rules]: "stays (\<lambda>s. I (snd s)) (on_fst m)"
  by (auto simp: stays_def on_fst_def split: prod.splits)

subsection \<open>A poll\<close>

definition caches_kept :: "('c \<Rightarrow> bool) \<Rightarrow> ('c, 'm, 'v) Polling \<Rightarrow> bool" where
  "caches_kept C st \<longleftrightarrow> C (ws_caches (pl_session st))"

lemma caches_update [simp]:
  "ws_caches (layouts_update l s) = ws_caches s" "ws_caches (topic_update t g s) = ws_caches s" "ws_caches (visual_update v s) = ws_caches s"
  "ws_caches (clear_chat s) = ws_caches s"
  by (simp_all add: layouts_update_def topic_update_def visual_update_def clear_chat_def)

lemma kept_gets [stays_rules]: "stays (caches_kept C) (gets f)"
  by (simp add: stays_def gets_def)

lemma kept_modify: "(\<And>s. ws_caches (f s) = ws_caches s) \<Longrightarrow> stays (caches_kept C) (modify f)"
  by (auto simp: stays_def modify_def session_update_def caches_kept_def)

lemma kept_on_memory [stays_rules]: "stays (caches_kept C) (on_memory run)"
  by (auto simp: stays_def on_memory_def caches_kept_def split: prod.splits)

lemma kept_on_caches: "stays (\<lambda>s. C (snd s)) run \<Longrightarrow> stays (caches_kept C) (on_caches run)"
  by (fastforce simp: stays_def on_caches_def session_update_def caches_kept_def split: prod.splits)

lemma kept_emit [stays_rules]: "stays (caches_kept C) (emit R call)"
  by (auto simp: stays_def emit_def caches_kept_def)

lemma kept_publish [stays_rules]: "stays (caches_kept C) (publish R cap x)"
  unfolding publish_def by (intro stays_rules)

lemma kept_cached:
  "(\<And>c s. ws_caches (put c s) = ws_caches s) \<Longrightarrow> stays (caches_kept C) (cached_ensure get put now check)"
  "(\<And>c s. ws_caches (put' c s) = ws_caches s) \<Longrightarrow> stays (caches_kept C) (cached_validate get' put' now name check')"
  by (auto simp: stays_def cached_ensure_def cached_validate_def session_update_def caches_kept_def split: prod.splits)

lemma kept_layouts [stays_rules]:
  "stays (caches_kept C) (layout_profile_commit R exe now)" "stays (caches_kept C) (layout_inventory_owner R exe now)"
  "stays (caches_kept C) (layout_client R exe now)" "stays (caches_kept C) (layout_world R exe now)"
  "stays (caches_kept C) (layout_string_tokens R exe now)" "stays (caches_kept C) (layout_item_paths R exe now)"
  "stays (caches_kept C) (layout_account R exe now)" "stays (caches_kept C) (layout_profile_data R exe now)"
  "stays (caches_kept C) (ensure_executable R now)" "stays (caches_kept C) (layout_topic R exe now t)"
  unfolding layout_profile_commit_def layout_inventory_owner_def layout_client_def layout_world_def layout_string_tokens_def
    layout_item_paths_def layout_account_def layout_profile_data_def ensure_executable_def layout_topic_def
  by (intro stays_rules kept_cached kept_modify; simp)+

lemma kept_steps [stays_rules]:
  "stays (caches_kept C) (next_poll t at)" "stays (caches_kept C) (topic_unavailable R t retry)"
  unfolding topic_unavailable_def next_poll_def by (intro stays_rules kept_modify; simp)+

lemma kept_demanded [stays_rules]: "(\<And>t. stays (caches_kept C) (f t)) \<Longrightarrow> stays (caches_kept C) (each_demanded ts f)"
  unfolding each_demanded_def by (intro stays_rules)

lemma kept_resets [stays_rules]:
  "stays (caches_kept C) (reset_topics R now ts)" "stays (caches_kept C) (account_unavailable R retry)" "stays (caches_kept C) (data_unavailable R retry)"
  unfolding reset_topics_def account_unavailable_def data_unavailable_def by (intro stays_rules)+

lemma kept_lost [stays_rules]:
  "stays (caches_kept C) (reset_account R now)" "stays (caches_kept C) (reset_player R now)" "stays (caches_kept C) (clear_login R now)"
  "stays (caches_kept C) (clear_profile_data R now reset)"
  unfolding reset_account_def reset_player_def clear_login_def clear_profile_data_def by (intro stays_rules kept_modify; simp)+

lemma kept_validation [stays_rules]: "stays (caches_kept C) (validate_due R exe now)"
  unfolding validate_due_def validate_profile_data_def validate_progression_due_def validate_account_topic_def layout_ready_def
  by (intro stays_rules)

lemma caches_fold: "(\<And>t s. ws_caches (f t s) = ws_caches s) \<Longrightarrow> ws_caches (fold f ts s) = ws_caches s"
  by (induction ts arbitrary: s) simp_all

lemma caches_between [simp]:
  "ws_caches (demand_topics demand now s) = ws_caches s" "ws_caches (session_begin_generation cap s) = ws_caches s"
  "ws_caches (session_poll_completed committed s) = ws_caches s"
  by (auto simp: demand_topics_def session_begin_generation_def session_poll_completed_def Let_def caches_fold split: option.splits)

lemma kept_owner [stays_rules]:
  "stays (caches_kept C) (account_before R exe now)" "stays (caches_kept C) (account_unchanged R exe now before reset dr)"
  "stays (caches_kept C) (profile_data_before R exe now account reset)"
  unfolding account_before_def account_found_def account_lost_def account_unchanged_def profile_data_before_def profile_data_found_def
    profile_data_lost_def
  by (intro stays_rules kept_modify; simp)+

lemma kept_chat [stays_rules]: "stays (caches_kept C) (publish_chat R now before chat local_name)"
  unfolding publish_chat_def publish_events_def prepare_pending_def Let_def by (intro stays_rules kept_modify; simp)

lemma kept_publication [stays_rules]:
  "stays (caches_kept C) (publish_sample R now t sample)" "stays (caches_kept C) (publish_samples R now before data dr samples)"
  unfolding publish_samples_def publish_sample_def by (intro stays_rules; simp)+

lemma kept_relic [stays_rules]:
  "stays (caches_kept C) (clear_owner R reset)" "stays (caches_kept C) (relic_unavailable R now retry)"
  "stays (caches_kept C) (visual_unavailable R retry)" "stays (caches_kept C) (validate_relic R exe now)"
  "stays (caches_kept C) (resolve_owner R exe at)" "stays (caches_kept C) (relic_after R exe sample open' at)"
  "stays (caches_kept C) (publish_screens R sample)" "stays (caches_kept C) (publish_relic R now owner result)"
  unfolding clear_owner_def relic_unavailable_def visual_unavailable_def validate_relic_def resolve_owner_def relic_after_def recheck_screens_def
    publish_screens_def publish_relic_def Let_def
  by (intro stays_rules kept_modify kept_cached; simp)+

subsection \<open>What an invariant of the caches needs\<close>

fun session_after :: "('c, 'm, 'v, 'd, 'choice) Readers \<Rightarrow> 'c WarframeSession \<Rightarrow> 'm session_event list \<Rightarrow> 'c WarframeSession" where
  "session_after R s [] = s"
| "session_after R s (Generation cap # events) = session_after R (session_begin_generation cap s) events"
| "session_after R s (Polled demand now m commit # events) =
     (case run_poll R demand now m s of
        (st, r) \<Rightarrow> session_after R (session_poll_completed (commit \<and> is_ok r) (pl_session st)) events)"

locale session_caches =
  fixes C :: "'c \<Rightarrow> bool" and R :: "('c, 'm, 'v, 'd, 'choice) Readers"
  assumes sample_keeps: "stays (\<lambda>s. C (snd s)) (wr_sample R t exe owner)"
    and choices_keep: "stays (\<lambda>s. C (snd s)) (wr_relic_choices R rules account exe)"
begin

lemma kept_acquire: "stays (caches_kept C) (acquire R exe now)"
  unfolding acquire_def acquire_samples_def sample_data_def sample_player_def sample_chat_def
  by (intro stays_rules kept_on_caches sample_keeps; simp)

lemma kept_visual_poll: "stays (caches_kept C) (visual_poll R exe now)"
  unfolding visual_poll_def poll_relic_def read_choices_def Let_def
  by (intro stays_rules kept_modify kept_cached kept_on_caches choices_keep; simp)

lemma kept_poll: "stays (caches_kept C) (session_poll R demand now)"
  unfolding session_poll_def poll_visual_def poll_account_def
  by (intro stays_rules kept_modify kept_visual_poll kept_acquire; simp)

lemma kept_always: "C (ws_caches s) \<Longrightarrow> C (ws_caches (session_after R s events))"
proof (induction events arbitrary: s)
  case (Cons event events)
  show ?case
  proof (cases event)
    case (Polled demand now m commit)
    obtain st r where run: "run_poll R demand now m s = (st, r)" by fastforce
    have "caches_kept C \<lparr>pl_session = s, pl_memory = m, pl_calls = []\<rparr>" using Cons.prems by (simp add: caches_kept_def)
    from staysD [OF kept_poll this run [unfolded run_poll_def]] have "caches_kept C st" .
    then show ?thesis using Cons.IH run Polled by (simp add: caches_kept_def)
  qed (use Cons in simp)
qed simp

end

subsection \<open>The readers of the code\<close>

definition tokens_good :: "'m TargetReader \<times> StringTokenCache \<Rightarrow> bool" where
  "tokens_good s \<longleftrightarrow> string_cache_inv (snd s)"

definition caches_good :: "'m caches \<Rightarrow> bool" where
  "caches_good s \<longleftrightarrow> string_cache_inv (snd (fst s)) \<and> item_cache_inv (snd s)"

definition caches_ok :: "StringTokenCache \<times> ItemTypeCache \<Rightarrow> bool" where
  "caches_ok c \<longleftrightarrow> string_cache_inv (fst c) \<and> item_cache_inv (snd c)"

lemma good_plain [stays_rules]: "stays tokens_good (on_fst run)" "stays caches_good (on_fst (on_fst run'))"
  by (auto simp: stays_def tokens_good_def caches_good_def on_fst_def split: prod.splits)

lemma good_token [stays_rules]: "stays tokens_good (resolve_token be pool token)"
  unfolding stays_def tokens_good_def by (auto dest: resolve_token_inv)

lemma good_path [stays_rules]: "stays tokens_good (resolve_path be facts pool vtable descriptor)"
  unfolding resolve_path_def by (intro stays_rules)

lemma good_item [stays_rules]: "stays caches_good (resolve_item_path be facts item_type pool)"
  unfolding stays_def
proof (intro allI impI)
  fix s s' r
  assume good: "caches_good s" and run: "resolve_item_path be facts item_type pool s = (s', r)"
  obtain c items c' items' where s: "s = (c, items)" "s' = (c', items')" by fastforce
  have "item_cache_inv items'" using resolve_item_path_wf(1) [OF run [unfolded s]] good s by (simp add: caches_good_def)
  moreover have "tokens_good c'"
  proof (cases "bt_get items item_type")
    case None
    let ?inner = "and_then (case pool of Some p \<Rightarrow> done_with (Ok p) | None \<Rightarrow> on_target (string_pool be (it_strings facts))) (\<lambda>string_pool.
        and_then (on_target (of_reader (\<lambda>r. module_address r (it_leaf_vtable facts) 8))) (\<lambda>leaf_vtable.
        and_then (resolve_path be facts string_pool leaf_vtable item_type) (\<lambda>item_key. done_with (Ok (item_key, string_pool)))))"
    obtain c1 x where inner: "?inner c = (c1, x)" by fastforce
    have "stays tokens_good ?inner" by (intro stays_rules)
    moreover have "tokens_good c" using good s by (simp add: caches_good_def tokens_good_def)
    ultimately have "tokens_good c1" using inner by (rule staysD)
    moreover have "c' = c1" using run None inner
      by (simp add: resolve_item_path_def s on_fst_def and_then_def [of "on_fst ?inner" for be] and_then_def split: prod.splits result.splits)
    ultimately show ?thesis by simp
  qed (use run good s in \<open>simp add: resolve_item_path_def caches_good_def tokens_good_def\<close>)
  ultimately show "caches_good s'" by (simp add: caches_good_def tokens_good_def s)
qed

lemma good_inventory [stays_rules]: "stays caches_good (inventory_once be login)"
proof -
  have counts: "stays caches_good (project_counts be items pool counts)" for items pool counts
    by (induction be items pool counts rule: project_counts.induct) (auto intro!: stays_rules)
  have "stays caches_good (read_families be inventory families)" for inventory families
    by (induction families) (auto simp: read_family_def project_items_def inventory_read_def intro!: stays_rules counts)
  then show ?thesis unfolding inventory_once_def inventory_read_def Let_def by (intro stays_rules)
qed

lemma good_mastery [stays_rules]: "stays caches_good (mastery_once be login)"
proof -
  have "stays caches_good (key_items be items pool by_key)" for items pool by_key
    by (induction items arbitrary: pool by_key) (auto intro!: stays_rules)
  then show ?thesis unfolding mastery_once_def mastery_read_def Let_def by (intro stays_rules)
qed

lemma good_relic [stays_rules]: "stays caches_good (read_relic_choices be rules account)"
proof -
  have "stays caches_good (qualified_rewards be index records pool)" for index records pool
    by (induction be index records pool rule: qualified_rewards.induct) (auto intro!: stays_rules split: option.splits)
  then show ?thesis
    unfolding read_relic_choices_def relic_once_def relic_reader_def read_stable_def by (intro stays_rules)
qed

lemma good_star_chart [stays_rules]: "stays tokens_good (star_chart_once be login)"
proof -
  have "stays tokens_good (name_nodes be pool records nodes)" for pool records nodes
    by (induction records arbitrary: nodes) (auto intro!: stays_rules)
  then show ?thesis unfolding star_chart_once_def named_nodes_def Let_def by (intro stays_rules)
qed

lemma ok_item_caches: "stays caches_good run \<Longrightarrow> stays (\<lambda>s. caches_ok (snd s)) (with_item_caches f run base image_size)"
  unfolding stays_def
proof (intro allI impI)
  fix s s' x
  assume run: "\<forall>s s' r. caches_good s \<longrightarrow> run s = (s', r) \<longrightarrow> caches_good s'" and ok: "caches_ok (snd s)"
    and step: "with_item_caches f run base image_size s = (s', x)"
  obtain m strings items where s: "s = (m, strings, items)" by (rule prod_cases3)
  show "caches_ok (snd s')"
  proof (cases "target_reader_new m base image_size READ_LIMITS")
    case (Ok r)
    obtain r' strings' items' y where inner: "run ((r, strings), items) = (((r', strings'), items'), y)" by (metis prod.collapse)
    have "caches_good ((r, strings), items)" using ok by (simp add: s caches_ok_def caches_good_def)
    from run [rule_format, OF this inner] show ?thesis using step by (auto simp: with_item_caches_def s Ok inner caches_ok_def caches_good_def)
  qed (use step ok s in \<open>auto simp: with_item_caches_def\<close>)
qed

lemma ok_token_reader: "stays tokens_good run \<Longrightarrow> stays (\<lambda>s. caches_ok (snd s)) (token_reader (with_cached_reader run base image_size))"
  unfolding stays_def
proof (intro allI impI)
  fix s s' x
  assume run: "\<forall>s s' r. tokens_good s \<longrightarrow> run s = (s', r) \<longrightarrow> tokens_good s'" and ok: "caches_ok (snd s)"
    and step: "token_reader (with_cached_reader run base image_size) s = (s', x)"
  obtain m strings items where s: "s = (m, strings, items)" by (rule prod_cases3)
  show "caches_ok (snd s')"
  proof (cases "target_reader_new m base image_size READ_LIMITS")
    case (Ok r)
    obtain r' strings' y where inner: "run (r, strings) = ((r', strings'), y)" by (metis prod.collapse)
    have "tokens_good (r, strings)" using ok by (simp add: s caches_ok_def tokens_good_def)
    from run [rule_format, OF this inner] show ?thesis
      using step ok by (auto simp: token_reader_def with_cached_reader_def s Ok inner caches_ok_def tokens_good_def)
  qed (use step ok s in \<open>auto simp: token_reader_def with_cached_reader_def\<close>)
qed

lemma ok_plain_reader: "stays (\<lambda>s. caches_ok (snd s)) (plain_reader run)"
  by (auto simp: stays_def plain_reader_def on_fst_def split: prod.splits)

lemma ok_sample: "stays (\<lambda>s. caches_ok (snd s)) (sample_topic be t exe owner)"
  unfolding sample_topic_def sample_inventory_def sample_mastery_def read_inventory_def read_mastery_def read_star_chart_def sampled_def Let_def
  by (cases t; simp; intro stays_with_error stays_then_map stays_done ok_item_caches ok_token_reader ok_plain_reader stays_rules)

interpretation warframe_caches:
  session_caches caches_ok "warframe_readers be executable modules json error_text host" for be executable modules json error_text host
  by unfold_locales (auto simp: warframe_readers_def relic_choices_def intro!: ok_sample ok_item_caches good_relic)

text \<open>
  C37: A session never outgrows its caches: after any sequence of generations and polls, over any memories and
  whatever the host commits, it remembers at most 16384 tokens with at most a mebibyte of text and at most 4096 item types, each
  key once and each item with a well-formed path, and its count of decoded bytes is exact.
\<close>

theorem session_caches_bounded:
  "case ws_caches (session_after (warframe_readers be executable modules json error_text host) warframe_session events) of
     (strings, items) \<Rightarrow>
       length (st_values strings) \<le> 16384 \<and> distinct (map fst (st_values strings))
       \<and> st_decoded_bytes strings = sum_list (map (length \<circ> snd) (st_values strings)) \<and> st_decoded_bytes strings \<le> 1048576
       \<and> length items \<le> 4096 \<and> distinct (map fst items) \<and> list_all (\<lambda>(_, key). item_key_wf key) items"
proof -
  let ?c = "ws_caches (session_after (warframe_readers be executable modules json error_text host) warframe_session events)"
  have "caches_ok ?c"
    by (rule warframe_caches.kept_always) (simp add: warframe_session_def session_default_def caches_ok_def)
  then show ?thesis
    by (cases ?c)
      (auto simp: caches_ok_def string_cache_inv_def item_cache_inv_def MAX_STRING_TOKENS_def MAX_DECODED_BYTES_def MAX_ITEM_TYPES_def
        list_all_iff bt_inv_distinct)
qed

end
