(* ===== verification/Spec2Isabelle.thy ===== *)
theory Spec2Isabelle
  imports Service_Streams Publication_Outcome Client_Hub Host_Lifecycle Transport_Admission Chat_Demo Exact_Numbers Process_Matching Session_Caches
begin

section \<open>A verification of wf-observer\<close>

text \<open>
  wf-observer reads the state of a game out of its process and publishes it to other programs. A
  background service (\<open>crates/wf-observer-cli\<close>) discovers game processes, polls a provider for
  each (\<open>crates/provider-sdk\<close> is the contract, \<open>crates/games/warframe\<close> the one provider), keeps
  the latest state of every topic, and streams it over authenticated connections. Clients use
  \<open>crates/wf-observer-sdk\<close>; both ends speak \<open>crates/protocol\<close>. A poll runs through the parts in
  this order: the lifecycle worker attaches to a process and polls it; the host takes a ticket,
  asks the provider for what is demanded and commits the resulting batch; the service changes its
  topics and offers the change to the queue of every subscription that selects it; the transport
  sends the queue's items, with snapshots as deltas where the client can apply them; the SDK
  validates the stream and shares it among listeners.

  \<^bold>\<open>Theories and the code they model.\<close>

  \<^item> \<open>Prelude\<close>: results, checked and saturating integer operations, runs of a step relation.
    \<open>Ordered_Map\<close>: \<open>BTreeMap\<close> as the list of its entries in key order, with the locale of an
    ordered map interpreted on it.
  \<^item> \<open>Wire\<close>: \<open>protocol/src/v1\<close>, the data both ends exchange. \<open>Provider_Contract\<close>:
    \<open>provider-sdk/src/contract\<close>. \<open>Host_Status\<close>: the status types of
    \<open>wf-observer-cli/src/runtime/record.rs\<close>.
  \<^item> The service, \<open>wf-observer-cli/src/service\<close>: \<open>Bounded_Queue\<close> (\<open>queue.rs\<close>), \<open>Service_Catalog\<close>
    (\<open>catalog.rs\<close>), \<open>Service_Inner\<close> (\<open>inner.rs\<close>), \<open>Poll_Batch\<close> (\<open>batch.rs\<close>), \<open>Publication\<close>
    (\<open>publication.rs\<close>), \<open>Service_State\<close> (\<open>subscriptions.rs\<close>, \<open>state.rs\<close>). The mutex makes every
    method of \<open>ServiceState\<close> atomic, so it is a function on the record \<open>Inner\<close>, and the threads
    of the service are the interleavings of \<open>service_step\<close> in \<open>Service_Invariant\<close>. Queues are
    shared by the service and the streams: they are kept in a store, by number.
  \<^item> The host: \<open>Provider_Host\<close> (\<open>provider_host/session.rs\<close>) and \<open>Host_Lifecycle\<close>
    (\<open>lifecycle/worker.rs\<close>).
  \<^item> The transport: \<open>Transport_Admission\<close> (\<open>authorization.rs\<close>, \<open>transport/connection.rs\<close> and the
    admission in \<open>transport/requests.rs\<close>), \<open>Snapshot_Delta\<close> (\<open>protocol/src/v1/delta.rs\<close>,
    \<open>payload.rs\<close>) and \<open>Snapshot_Delivery\<close> (\<open>transport/delivery.rs\<close> with its client side,
    \<open>wf-observer-sdk/src/subscription/reader.rs\<close>).
  \<^item> The client, \<open>wf-observer-sdk/src/subscription\<close>: \<open>Client_Validation\<close> (\<open>validation.rs\<close>),
    \<open>Client_Listener\<close> (\<open>listener.rs\<close>), \<open>Client_Feed\<close> and \<open>Client_Hub\<close> (\<open>feed.rs\<close>,
    \<open>manager.rs\<close>), again with feeds and listeners in a store because they refer to each other.
  \<^item> The provider's tools: \<open>Target_Memory\<close> (\<open>provider-sdk/src/memory\<close>, \<open>pe/headers.rs\<close>), and
    \<open>Static_Memory\<close>, the reader over a memory that does not change, in which examples compute.
  \<^item> The Warframe provider, \<open>crates/games/warframe\<close>. Readers of one value each:
    \<open>Native_String\<close> (\<open>native_string.rs\<close>), \<open>Account_Roots\<close> (\<open>roots\<close>), \<open>World_Objects\<close>
    (\<open>world.rs\<close>), \<open>Screen_Topic\<close> (\<open>topics/screens.rs\<close>, \<open>session/screen_demand.rs\<close>),
    \<open>Player_Topic\<close> (\<open>topics/player\<close>), \<open>Chat_Model\<close>, \<open>Chat_Acquisition\<close>, \<open>Chat_Cursor\<close> and
    \<open>Chat_Validation\<close> (\<open>topics/chat\<close>); \<open>Protected_Scalar\<close> (\<open>scalar.rs\<close>, \<open>code.rs\<close>), \<open>String_Pool\<close>
    (\<open>string_pool\<close>), \<open>Item_Types\<close> (\<open>item_type\<close>, \<open>model/src/item_key.rs\<close>) and \<open>Profile_Inventory\<close>
    (\<open>profile_inventory\<close>), which the topics of the profile data share; of those, with their value types
    under \<open>model/src\<close>, \<open>Currencies_Topic\<close>, \<open>Intrinsics_Topic\<close>, \<open>Star_Chart_Topic\<close>,
    \<open>Inventory_Facts\<close>, \<open>Inventory_Topic\<close> and \<open>Inventory_Validation\<close>, \<open>Mastery_Topic\<close> and
    \<open>Mastery_Validation\<close>, and \<open>Relic_Choices\<close> (\<open>topics/relic_rewards\<close>). \<open>Exact_Numbers\<close> is the
    text of points and quantities (\<open>mastery/points.rs\<close>, \<open>inventory/quantity.rs\<close>), \<open>Process_Matching\<close>
    what identifies a process (\<open>matching.rs\<close>, the start in \<open>provider.rs\<close>). A reader runs on
    \<open>TargetReader\<close>, beside the session's caches of tokens and item types where it uses them. The session, \<open>session\<close>: \<open>Session_Checks\<close> (\<open>validation.rs\<close>,
    \<open>health.rs\<close>, \<open>target.rs\<close>, names in \<open>matching.rs\<close>), \<open>Session_State\<close> (the record
    \<open>WarframeSession\<close> and the steps of a poll), \<open>Visual_Topics\<close> (\<open>visual.rs\<close>) and
    \<open>Account_Session\<close> (\<open>polling.rs\<close>, \<open>profile_data.rs\<close>). A step of a poll takes the session, the
    memory and the calls made so far, and returns them with a result; \<open>and_then\<close> is \<open>?\<close>, and
    \<open>outcome_of\<close> is a \<open>match\<close> on a result. The session is defined over any readers (\<open>Readers\<close>);
    \<open>Warframe_Readers\<close> fills them with the readers above, with the categories of \<open>health.rs\<close>.

  \<^bold>\<open>What is shown.\<close>

  \<^item> \<open>Inner_Invariant\<close>, \<open>Inner_Lifecycle\<close>, \<open>Publication_Invariant\<close> and \<open>Service_Invariant\<close>: every
    operation keeps the well-formedness of the locked state, no operation turns a generation or an
    epoch back, retained bytes are accounted exactly, and demand is settled at every release of the
    lock. \<open>Service_Properties\<close> and \<open>Service_Streams\<close> state the guarantees for every
    reachable state: coherent snapshots, exact demand, sessions as observed, bounded retention,
    fresh answers, coherent bootstraps, final shutdown, and that a poll which commits was never
    interrupted.
  \<^item> \<open>Publication_Outcome\<close>: a specification of publication one topic at a time, which a commit
    refines, and the exactness of the ticket a host keeps after a commit.
  \<^item> \<open>Bounded_Queue\<close>: the queue refines an abstract stream that is lossless until it ends, is
    bounded, ends once, and never strands a waiting reader.
  \<^item> \<open>Snapshot_Delta\<close>, \<open>Snapshot_Delivery\<close>: deltas round-trip, are applied only where they
    belong, and whatever the acknowledgements do the client reads what the service published.
  \<^item> \<open>Client_Validation\<close>, \<open>Client_Listener\<close>, \<open>Client_Hub\<close>: accepted streams follow the grammar,
    applications see no stale event, and no feed outlives its listeners.
  \<^item> \<open>Provider_Host\<close>, \<open>Host_Lifecycle\<close>: polls only take the service through reachable states,
    the provider is told of generations and outcomes as its contract says, and the worker's
    table of targets is consistent at every publication.
  \<^item> \<open>Transport_Admission\<close>, \<open>Target_Memory\<close>: permits are neither lost nor exceeded, remote access
    is what the allowlist decided, and no read leaves the permitted addresses or budgets.
  \<^item> \<open>Account_Roots\<close>, \<open>Chat_Acquisition\<close>, \<open>Native_String\<close>: what the readers accept is well formed
    whatever the process memory holds. \<open>Chat_Delivery\<close>: messages of a channel are published at most once and
    in order.
  \<^item> \<open>Session_Ownership\<close> says what it means that the values a session publishes never mix accounts,
    reading the sink calls of every poll as the host commits them. \<open>Session_Safety\<close>,
    \<open>Session_Publishing\<close> and \<open>Account_Isolation\<close> hold the judgements \<open>quiet\<close> and \<open>holds\<close> over
    steps, with one rule per step, and \<open>Account_Switch\<close> concludes it for every run of a session.
    \<open>Warframe_Readers\<close> removes the last assumptions on the readers, and \<open>Session_Caches\<close> bounds what a session
    remembers, through a locale of cache invariants interpreted on those readers. \<open>Chat_Demo\<close>,
    \<open>Account_Demo\<close>, \<open>Session_Demo\<close> and \<open>Warframe_Demo\<close> apply these to concrete memories.
  \<^item> The topics of the profile data: protected values decode from exactly the words that encode them
    (\<open>Protected_Scalar\<close>); pool strings end after five reads, and the token cache is bounded and agrees with
    every fresh read (\<open>String_Pool\<close>); balances, inventories, mastery and star charts are published as the
    game keeps them, with nothing lost, invented or out of order, and the bundled record facts fit their
    records; the picker is in the order the game shows it (\<open>Relic_Choices\<close>); numbers survive
    their text (\<open>Exact_Numbers\<close>); and an identified process can be started (\<open>Process_Matching\<close>).
  \<^item> \<open>Service_Scenario\<close> computes one concrete run of the service; the properties are applied to it.

  \<^bold>\<open>Conventions.\<close> Counters of 64 and 32 bits are words, with the code's checked or saturating
  additions; \<open>usize\<close> is \<open>nat\<close>, since the sizes involved are bounded by the code's own byte
  budgets, and where the code checks \<open>usize\<close> addition the model has the bound. Instants and
  durations are \<open>nat\<close> nanoseconds. A \<open>String\<close> is the list of its UTF-8 bytes. Loops are
  structural recursions; \<open>inner_settle\<close>, the one loop whose length depends on the state,
  terminates because every further turn follows the loss of a subscriber. No model uses fuel.
  Indexing that would panic is a branch that changes nothing, and the invariants show that it is not
  taken.

  \<^bold>\<open>Parameters.\<close> Code outside the repository is an argument: the sizes of the postcard encoding
  (\<open>postcard\<close>), JSON with its patches and hash (\<open>json\<close>, whose documented laws are the hypotheses
  \<open>json_laws\<close> of the delta properties, with an instance that satisfies them), the provider of the host and
  the process behind it (\<open>provider_api\<close>), process memory (the \<open>backend\<close> of \<open>TargetReader\<close>), the
  operating system as the lifecycle worker sees it (\<open>world\<close>), \<open>serde_json\<close> in the provider session, and the clock.

  \<^bold>\<open>Not modelled.\<close> The instruction windows of the tests, which describe a closed binary. \<open>serde\<close> derivations, except
  where the code writes them by hand. Endpoint construction, key storage, framing and deadlines of
  the network library; settings, paths, the single-instance lock and other file I/O;
  native process access; the command line; the foreign-language facade of the SDK; build tooling
  and examples. Condition variables only wake threads that read the state again, so
  no property depends on them, except for the queue, whose notifier is modelled.
\<close>

end
